(* ===== verification/Prelude.thy ===== *)
theory Prelude
  imports Complex_Main "HOL-Library.Char_ord" "HOL-Library.List_Lexorder"
    "HOL-Library.Log_Nat"
begin

text \<open>
  What the components share: the parts of JavaScript that the source relies on (numbers,
  strings, arrays, plain objects used as dictionaries, JSON text), the error values, and
  the generic lemmas about them.

  \<^item> A JavaScript \<open>number\<close> is an exact rational here. Sums and differences of the counters
    the program keeps are exact below \<open>2^53\<close>; where the source divides or multiplies
    fractions the result is rounded to the nearest double by \<open>rnd64\<close>, so that a
    comparison with a literal such as \<open>0.15\<close> goes the way it goes in the program.
  \<^item> A string is a list of code units up to 255.
  \<^item> A plain object used as a dictionary is an association list in insertion order.
    \<open>obj_values\<close> enumerates it as JavaScript does, array-index keys first, and
    \<open>obj_defined\<close> sees the members inherited from \<open>Object.prototype\<close>, as a bracket
    lookup on a plain object does.
\<close>

named_theorems js_defs \<open>definitions of the JavaScript helpers\<close>

subsection \<open>Errors\<close>

text \<open>
  \<open>InvariantError\<close> carries the name of the violated invariant, the machine-readable part
  of the class in core/messages.ts. \<open>JsError\<close> stands for a plain \<open>Error\<close>.
\<close>

datatype js_error = InvariantError string | JsError string

type_synonym 'a res = "js_error + 'a"

definition bind_res :: "'a res \<Rightarrow> ('a \<Rightarrow> 'b res) \<Rightarrow> 'b res" where
  "bind_res m f = (case m of Inl e \<Rightarrow> Inl e | Inr x \<Rightarrow> f x)"

lemma bind_res_simps [simp]:
  "bind_res (Inl e) f = Inl e" "bind_res (Inr x) f = f x"
  by (simp_all add: bind_res_def)

lemma bind_res_Inr_iff: "bind_res m f = Inr y \<longleftrightarrow> (\<exists>x. m = Inr x \<and> f x = Inr y)"
  by (cases m) simp_all

definition guard_res :: "bool \<Rightarrow> js_error \<Rightarrow> 'a res \<Rightarrow> 'a res" where
  "guard_res bad e m = (if bad then Inl e else m)"

lemma guard_res_Inr_iff [simp]: "guard_res bad e m = Inr x \<longleftrightarrow> \<not> bad \<and> m = Inr x"
  by (simp add: guard_res_def)

lemma guard_res_simps [simp]: "guard_res True e m = Inl e" "guard_res False e m = m"
  by (simp_all add: guard_res_def)

text \<open>
  A validation is a chain of checks, each giving the problem it finds: the first problem of
  a list, and the first of two checks.
\<close>

fun first_problem :: "('a \<Rightarrow> 'b option) \<Rightarrow> 'a list \<Rightarrow> 'b option" where
  "first_problem f [] = None"
| "first_problem f (x # xs) = (case f x of None \<Rightarrow> first_problem f xs | Some p \<Rightarrow> Some p)"

definition then_check :: "'b option \<Rightarrow> 'b option \<Rightarrow> 'b option" where
  "then_check p q = (case p of None \<Rightarrow> q | Some x \<Rightarrow> Some x)"

lemma then_check_None [simp]: "then_check p q = None \<longleftrightarrow> p = None \<and> q = None"
  by (simp add: then_check_def split: option.split)

lemma first_problem_None: "first_problem f xs = None \<longleftrightarrow> (\<forall>x \<in> set xs. f x = None)"
  by (induction xs) (auto split: option.split)

subsection \<open>Numbers\<close>

type_synonym number = rat

definition is_integer :: "number \<Rightarrow> bool" where
  "is_integer x \<longleftrightarrow> of_int \<lfloor>x\<rfloor> = x"

definition is_non_negative_integer :: "number \<Rightarrow> bool" where
  "is_non_negative_integer x \<longleftrightarrow> is_integer x \<and> 0 \<le> x"

definition is_positive_integer :: "number \<Rightarrow> bool" where
  "is_positive_integer x \<longleftrightarrow> is_integer x \<and> 0 < x"

lemma is_integer_of_int [simp]: "is_integer (of_int n)"
  by (simp add: is_integer_def)

lemma is_integer_of_nat [simp]: "is_integer (of_nat n)"
  by (simp add: is_integer_def)

lemma is_integer_numeral [simp]:
  "is_integer 0" "is_integer 1" "is_integer (numeral n)" "is_integer (- numeral n)" "is_integer (- 1)"
  by (simp_all add: is_integer_def)

lemma is_integer_Ints: "is_integer x \<longleftrightarrow> x \<in> \<int>"
  by (metis Ints_cases Ints_of_int floor_of_int is_integer_def)

lemma is_integer_add [simp]: "is_integer x \<Longrightarrow> is_integer y \<Longrightarrow> is_integer (x + y)"
  by (simp add: is_integer_Ints)

lemma is_integer_max [simp]: "is_integer x \<Longrightarrow> is_integer y \<Longrightarrow> is_integer (max x y)"
  by (simp add: max_def)

text \<open>\<open>Math.round\<close>: to the nearest integer, halves upwards.\<close>

definition math_round :: "number \<Rightarrow> number" where
  "math_round x = of_int \<lfloor>x + 1 / 2\<rfloor>"

lemma is_integer_math_round [simp]: "is_integer (math_round x)"
  by (simp add: math_round_def)

text \<open>
  Rounding to a 53-bit significand, ties to even, as IEEE 754 double arithmetic does in the
  range without overflow and underflow.
\<close>

definition round_half_even :: "number \<Rightarrow> int" where
  "round_half_even q =
     (let f = \<lfloor>q\<rfloor>; r = q - of_int f
      in if r < 1 / 2 then f else if 1 / 2 < r then f + 1 else if even f then f else f + 1)"

definition binade :: "number \<Rightarrow> int" where
  "binade q =
     (let (n, d) = quotient_of q; e = bitlen n - bitlen d
      in if 2 powi e \<le> q then e else e - 1)"

definition rnd64 :: "number \<Rightarrow> number" where
  "rnd64 q =
     (if q = 0 then 0
      else let e = binade \<bar>q\<bar> - 52
           in sgn q * (of_int (round_half_even (\<bar>q\<bar> / 2 powi e)) * 2 powi e))"

definition fdiv :: "number \<Rightarrow> number \<Rightarrow> number" where
  "fdiv a b = rnd64 (a / b)"

definition fmul :: "number \<Rightarrow> number \<Rightarrow> number" where
  "fmul a b = rnd64 (a * b)"

definition fsub :: "number \<Rightarrow> number \<Rightarrow> number" where
  "fsub a b = rnd64 (a - b)"


text \<open>
  \<open>binade\<close> never exceeds the true exponent, which is all that the bounds below need.
\<close>

lemma two_powi_add: "(2::rat) powi (a + b) = 2 powi a * 2 powi b"
  by (simp add: power_int_add)

lemma two_powi_pos [simp]: "0 < (2::rat) powi a"
  by (simp add: zero_less_power_int)

lemma bitlen_upper: "0 < n \<Longrightarrow> of_int n < (2::rat) powi (bitlen n)"
proof -
  assume n: "0 < n"
  then have "n < 2 ^ nat (bitlen n)" by (simp add: bitlen_bounds)
  then have "of_int n < (of_int (2 ^ nat (bitlen n)) :: rat)" by (simp only: of_int_less_iff)
  also have "\<dots> = 2 powi (bitlen n)"
    using n by (simp add: power_int_def bitlen_nonneg)
  finally show ?thesis .
qed

lemma bitlen_lower: "0 < n \<Longrightarrow> (2::rat) powi (bitlen n - 1) \<le> of_int n"
proof -
  assume n: "0 < n"
  then have "2 ^ nat (bitlen n - 1) \<le> n" by (simp add: bitlen_bounds)
  then have le: "(of_int (2 ^ nat (bitlen n - 1)) :: rat) \<le> of_int n" by (simp only: of_int_le_iff)
  have "(of_int (2 ^ nat (bitlen n - 1)) :: rat) = 2 powi (bitlen n - 1)"
    using n bitlen_ge_iff_power [of 1 n] by (simp add: power_int_def)
  with le show ?thesis by (simp only:)
qed

lemma binade_lower:
  assumes "0 < q"
  shows "2 powi binade q \<le> q"
proof -
  obtain n d where nd: "quotient_of q = (n, d)" by (cases "quotient_of q")
  have d: "0 < d" using quotient_of_denom_pos [OF nd] .
  have q: "q = of_int n / of_int d" using quotient_of_div [OF nd] .
  have n: "0 < n" using assms d unfolding q by (simp add: zero_less_divide_iff)
  define e where "e = bitlen n - bitlen d"
  have "(2::rat) powi (e - 1) * of_int d \<le> 2 powi (e - 1) * 2 powi (bitlen d)"
    using bitlen_upper [OF d] by (intro mult_left_mono) simp_all
  also have "\<dots> = 2 powi (bitlen n - 1)"
    by (simp flip: two_powi_add add: e_def)
  also have "\<dots> \<le> of_int n" using bitlen_lower [OF n] .
  finally have "2 powi (e - 1) \<le> q" using d by (simp add: q pos_le_divide_eq)
  then show ?thesis by (simp add: binade_def nd Let_def flip: e_def)
qed

lemma round_half_even_le: "q \<le> of_int N \<Longrightarrow> round_half_even q \<le> N"
proof -
  assume q: "q \<le> of_int N"
  show ?thesis
  proof (cases "q = of_int N")
    case True
    then show ?thesis by (simp add: round_half_even_def)
  next
    case False
    with q have "\<lfloor>q\<rfloor> < N" by (simp add: floor_less_iff)
    then show ?thesis by (auto simp: round_half_even_def Let_def)
  qed
qed

lemma round_half_even_nonneg: "0 \<le> q \<Longrightarrow> 0 \<le> round_half_even q"
proof -
  assume "0 \<le> q"
  then have "0 \<le> \<lfloor>q\<rfloor>" by simp
  then show ?thesis by (auto simp: round_half_even_def Let_def)
qed

lemma rnd64_nonneg: "0 \<le> q \<Longrightarrow> 0 \<le> rnd64 q"
  by (simp add: rnd64_def Let_def round_half_even_nonneg zero_le_mult_iff)

lemma rnd64_le_power:
  assumes "q \<le> 2 ^ k" and "0 \<le> q"
  shows "rnd64 q \<le> 2 ^ k"
proof (cases "q = 0")
  case True
  then show ?thesis by (simp add: rnd64_def)
next
  case False
  with assms have q: "0 < q" by simp
  define e where "e = binade q - 52"
  have "2 powi binade q \<le> (2::rat) powi int k"
    using binade_lower [OF q] assms(1) by (simp add: power_int_def)
  then have "binade q \<le> int k" by (rule power_int_le_imp_le_exp [rotated]) simp_all
  then have ke: "0 \<le> int k - e" by (simp add: e_def)
  have "q / 2 powi e \<le> 2 ^ k / 2 powi e"
    using assms(1) by (intro divide_right_mono) (simp_all add: less_imp_le)
  also have "(2::rat) ^ k / 2 powi e = 2 powi (int k - e)"
    by (simp add: power_int_diff power_int_of_nat)
  also have "\<dots> = of_int (2 ^ nat (int k - e))"
    using ke by (simp add: power_int_def)
  finally have "round_half_even (q / 2 powi e) \<le> 2 ^ nat (int k - e)"
    by (rule round_half_even_le)
  then have "of_int (round_half_even (q / 2 powi e)) \<le> (of_int (2 ^ nat (int k - e)) :: rat)"
    by (simp only: of_int_le_iff)
  also have "\<dots> = 2 powi (int k - e)" using ke by (simp add: power_int_def)
  finally have "of_int (round_half_even (q / 2 powi e)) * 2 powi e
      \<le> 2 powi (int k - e) * (2::rat) powi e"
    by (intro mult_right_mono) (simp_all add: less_imp_le)
  also have "\<dots> = 2 ^ k" by (simp flip: two_powi_add)
  finally show ?thesis using q by (simp add: rnd64_def e_def Let_def)
qed

lemma rnd64_le_1: "q \<le> 1 \<Longrightarrow> 0 \<le> q \<Longrightarrow> rnd64 q \<le> 1"
  using rnd64_le_power [of q 0] by simp

lemma rnd64_le_int:
  assumes q: "q \<le> of_int N" "0 \<le> q" and N: "N < 2 ^ 53"
  shows "rnd64 q \<le> of_int N"
proof (cases "q = 0")
  case True
  then show ?thesis using q by (simp add: rnd64_def)
next
  case False
  with q have q0: "0 < q" by simp
  define e where "e = binade q - 52"
  have "of_int N < (of_int (2 ^ 53) :: rat)" using N by (simp only: of_int_less_iff)
  then have "2 powi binade q < (2::rat) powi 53"
    using binade_lower [OF q0] q(1) by simp
  then have "binade q < 53"
    using power_int_increasing [of 53 "binade q" "2::rat"] by force
  then have e0: "e \<le> 0" by (simp add: e_def)
  have pe: "1 / (2::rat) powi e = of_int (2 ^ nat (- e))"
    using e0 by (simp add: power_int_def field_simps)
  have "q / 2 powi e \<le> of_int N / 2 powi e"
    using q(1) by (intro divide_right_mono) (simp_all add: less_imp_le)
  also have "\<dots> = of_int (N * 2 ^ nat (- e))"
    using pe by (simp add: divide_inverse)
  finally have "round_half_even (q / 2 powi e) \<le> N * 2 ^ nat (- e)"
    by (rule round_half_even_le)
  then have "of_int (round_half_even (q / 2 powi e)) \<le> (of_int (N * 2 ^ nat (- e)) :: rat)"
    by (simp only: of_int_le_iff)
  also have "\<dots> = of_int N / 2 powi e" using pe by (simp add: divide_inverse)
  finally have "of_int (round_half_even (q / 2 powi e)) * 2 powi e \<le> (of_int N / 2 powi e) * (2::rat) powi e"
    by (intro mult_right_mono) (simp_all add: less_imp_le)
  also have "\<dots> = of_int N" by simp
  finally show ?thesis using q0 by (simp add: rnd64_def e_def Let_def)
qed

end
