(* ===== verification/JsData.thy ===== *)
theory JsData
  imports Prelude "HOL-Library.Multiset"
begin

text \<open>
  JavaScript strings, arrays, dictionaries and JSON text, as far as the program uses them,
  with the lemmas its components share.
\<close>

named_theorems js_simps \<open>facts about JavaScript arrays and dictionaries\<close>

subsection \<open>Strings\<close>

definition is_ws :: "char \<Rightarrow> bool" where
  "is_ws c \<longleftrightarrow> (let n = (of_char c :: nat) in (9 \<le> n \<and> n \<le> 13) \<or> n = 32 \<or> n = 160)"

definition js_trim :: "string \<Rightarrow> string" where
  "js_trim s = rev (dropWhile is_ws (rev (dropWhile is_ws s)))"

text \<open>\<open>value.trim().length > 0\<close>\<close>

definition non_blank :: "string \<Rightarrow> bool" where
  "non_blank s \<longleftrightarrow> js_trim s \<noteq> []"

definition to_lower_char :: "char \<Rightarrow> char" where
  "to_lower_char c =
     (let n = (of_char c :: nat)
      in if (65 \<le> n \<and> n \<le> 90) \<or> (192 \<le> n \<and> n \<le> 222 \<and> n \<noteq> 215) then char_of (n + 32) else c)"

definition to_lower :: "string \<Rightarrow> string" where
  "to_lower s = map to_lower_char s"

definition starts_with :: "string \<Rightarrow> string \<Rightarrow> bool" where
  "starts_with s p \<longleftrightarrow> take (length p) s = p"

definition ends_with :: "string \<Rightarrow> string \<Rightarrow> bool" where
  "ends_with s p \<longleftrightarrow> length p \<le> length s \<and> drop (length s - length p) s = p"

fun js_join :: "string \<Rightarrow> string list \<Rightarrow> string" where
  "js_join sep [] = []"
| "js_join sep [x] = x"
| "js_join sep (x # y # ys) = x @ sep @ js_join sep (y # ys)"

text \<open>\<open>s.split(c)\<close> for a separator of one character: never empty.\<close>

fun split_char :: "char \<Rightarrow> string \<Rightarrow> string list" where
  "split_char c [] = [[]]"
| "split_char c (x # xs) =
     (if x = c then [] # split_char c xs
      else (case split_char c xs of [] \<Rightarrow> [[x]] | y # ys \<Rightarrow> (x # y) # ys))"

lemma split_char_not_Nil [simp]: "split_char c s \<noteq> []"
  by (induction c s rule: split_char.induct) (auto split: list.splits)

lemma starts_with_append [simp]: "starts_with (p @ s) p"
  by (simp add: starts_with_def)

lemma starts_with_iff: "starts_with s p \<longleftrightarrow> (\<exists>r. s = p @ r)"
  by (metis append_take_drop_id starts_with_append starts_with_def)

lemma non_blank_dropWhile: "non_blank s \<longleftrightarrow> (\<exists>c \<in> set s. \<not> is_ws c)"
proof -
  have "js_trim s = [] \<longleftrightarrow> (\<forall>c \<in> set s. is_ws c)"
    by (auto simp: js_trim_def dropWhile_eq_Nil_conv dest: set_dropWhileD)
      (metis dropWhile_eq_Nil_conv set_dropWhileD hd_dropWhile hd_in_set)
  then show ?thesis by (auto simp: non_blank_def)
qed

lemma non_blank_append [simp]: "non_blank (s @ t) \<longleftrightarrow> non_blank s \<or> non_blank t"
  by (auto simp: non_blank_dropWhile)

lemma non_blank_Nil [simp]: "\<not> non_blank []"
  by (simp add: non_blank_dropWhile)

lemma non_blank_Cons: "non_blank (c # s) \<longleftrightarrow> \<not> is_ws c \<or> non_blank s"
  by (auto simp: non_blank_dropWhile)

subsection \<open>Arrays\<close>

definition push_unique :: "'a list \<Rightarrow> 'a \<Rightarrow> 'a list" where
  "push_unique xs x = (if x \<in> set xs then xs else xs @ [x])"

text \<open>\<open>xs.slice(-n)\<close>: note that \<open>slice(-0)\<close> is the whole array.\<close>

definition slice_last :: "nat \<Rightarrow> 'a list \<Rightarrow> 'a list" where
  "slice_last n xs = (if n = 0 then xs else drop (length xs - n) xs)"

text \<open>\<open>[...new Set(xs)]\<close>: first occurrences, in order.\<close>

definition js_uniq :: "'a list \<Rightarrow> 'a list" where
  "js_uniq xs = rev (remdups (rev xs))"

definition count_where :: "('a \<Rightarrow> bool) \<Rightarrow> 'a list \<Rightarrow> number" where
  "count_where P xs = of_nat (length (filter P xs))"

lemma set_push_unique [simp]: "set (push_unique xs x) = insert x (set xs)"
  by (auto simp: push_unique_def)

lemma distinct_push_unique [simp]: "distinct (push_unique xs x) \<longleftrightarrow> distinct xs"
  by (auto simp: push_unique_def)

lemma push_unique_not_Nil [simp]: "push_unique xs x \<noteq> []"
  by (auto simp: push_unique_def)

lemma set_js_uniq [simp]: "set (js_uniq xs) = set xs"
  by (simp add: js_uniq_def)

lemma distinct_js_uniq [simp]: "distinct (js_uniq xs)"
  by (simp add: js_uniq_def)

lemma js_uniq_id: "distinct xs \<Longrightarrow> js_uniq xs = xs"
  by (simp add: js_uniq_def distinct_remdups_id)

lemma set_slice_last: "set (slice_last n xs) \<subseteq> set xs"
  by (auto simp: slice_last_def dest: in_set_dropD)

lemma length_slice_last: "0 < n \<Longrightarrow> length (slice_last n xs) = min n (length xs)"
  by (auto simp: slice_last_def)

lemma distinct_slice_last: "distinct xs \<Longrightarrow> distinct (slice_last n xs)"
  by (simp add: slice_last_def)

lemma is_integer_count_where [simp]: "is_integer (count_where P xs)"
  by (simp add: count_where_def)

lemma count_where_nonneg [simp]: "0 \<le> count_where P xs"
  by (simp add: count_where_def)

subsection \<open>Plain objects as dictionaries\<close>

type_synonym 'v jsobj = "(string \<times> 'v) list"

definition obj_keys :: "'v jsobj \<Rightarrow> string list" where
  "obj_keys ob = map fst ob"

definition obj_get :: "'v jsobj \<Rightarrow> string \<Rightarrow> 'v option" where
  "obj_get ob k = map_of ob k"

fun obj_set :: "'v jsobj \<Rightarrow> string \<Rightarrow> 'v \<Rightarrow> 'v jsobj" where
  "obj_set [] k v = [(k, v)]"
| "obj_set ((a, b) # ob) k v = (if a = k then (a, v) # ob else (a, b) # obj_set ob k v)"

definition obj_delete :: "'v jsobj \<Rightarrow> string \<Rightarrow> 'v jsobj" where
  "obj_delete ob k = filter (\<lambda>p. fst p \<noteq> k) ob"

text \<open>
  The members every plain object inherits: \<open>ob[k]\<close> is not \<open>undefined\<close> for these keys even
  when \<open>ob\<close> has no such entry.
\<close>

definition object_prototype_keys :: "string list" where
  "object_prototype_keys =
     [''constructor'', ''hasOwnProperty'', ''isPrototypeOf'', ''propertyIsEnumerable'',
      ''toLocaleString'', ''toString'', ''valueOf'', ''__proto__'', ''__defineGetter__'',
      ''__defineSetter__'', ''__lookupGetter__'', ''__lookupSetter__'']"

definition obj_defined :: "'v jsobj \<Rightarrow> string \<Rightarrow> bool" where
  "obj_defined ob k \<longleftrightarrow> obj_get ob k \<noteq> None \<or> k \<in> set object_prototype_keys"

text \<open>
  Array-index keys (canonical decimals below \<open>2^32 - 1\<close>) are enumerated first, in
  ascending order; the other keys follow in insertion order.
\<close>

definition digit_of :: "char \<Rightarrow> nat option" where
  "digit_of c = (let n = of_char c in if 48 \<le> n \<and> n \<le> 57 then Some (n - 48) else None)"

fun decimal_value :: "nat \<Rightarrow> string \<Rightarrow> nat option" where
  "decimal_value acc [] = Some acc"
| "decimal_value acc (c # cs) =
     (case digit_of c of None \<Rightarrow> None | Some d \<Rightarrow> decimal_value (10 * acc + d) cs)"

definition array_index :: "string \<Rightarrow> nat option" where
  "array_index k =
     (if k = [] \<or> (hd k = CHR ''0'' \<and> k \<noteq> ''0'') then None
      else (case decimal_value 0 k of
              None \<Rightarrow> None
            | Some n \<Rightarrow> if n < 2 ^ 32 - 1 then Some n else None))"

definition obj_entries :: "'v jsobj \<Rightarrow> 'v jsobj" where
  "obj_entries ob =
     sort_key (\<lambda>p. the (array_index (fst p))) (filter (\<lambda>p. array_index (fst p) \<noteq> None) ob) @
     filter (\<lambda>p. array_index (fst p) = None) ob"

definition obj_values :: "'v jsobj \<Rightarrow> 'v list" where
  "obj_values ob = map snd (obj_entries ob)"

lemma obj_keys_set: "obj_keys (obj_set ob k v) = push_unique (obj_keys ob) k"
  by (induction ob k v rule: obj_set.induct) (auto simp: obj_keys_def push_unique_def)

lemma obj_get_set [simp]: "obj_get (obj_set ob k v) = (obj_get ob)(k \<mapsto> v)"
  by (induction ob k v rule: obj_set.induct) (auto simp: obj_get_def fun_eq_iff)

lemma obj_get_delete [simp]: "obj_get (obj_delete ob k) = (obj_get ob)(k := None)"
  by (induction ob) (auto simp: obj_get_def obj_delete_def fun_eq_iff)

lemma obj_keys_delete [simp]: "obj_keys (obj_delete ob k) = filter (\<lambda>a. a \<noteq> k) (obj_keys ob)"
  by (simp add: obj_keys_def obj_delete_def filter_map comp_def)

lemma obj_get_None_iff: "obj_get ob k = None \<longleftrightarrow> k \<notin> set (obj_keys ob)"
  by (simp add: obj_get_def obj_keys_def map_of_eq_None_iff)

lemma set_obj_entries [simp]: "set (obj_entries ob) = set ob"
  by (auto simp: obj_entries_def)

lemma mset_obj_entries: "mset (obj_entries ob) = mset ob"
proof -
  have "mset (filter (\<lambda>p. array_index (fst p) \<noteq> None) ob) +
      mset (filter (\<lambda>p. array_index (fst p) = None) ob) = mset ob"
    by (simp add: multiset_partition [symmetric])
  then show ?thesis by (simp add: obj_entries_def)
qed

lemma length_obj_values [simp]: "length (obj_values ob) = length ob"
  using arg_cong [OF mset_obj_entries [of ob], of size] by (simp add: obj_values_def)

lemma set_obj_values: "set (obj_values ob) = snd ` set ob"
  by (simp add: obj_values_def)

lemma obj_set_new: "k \<notin> set (obj_keys ob) \<Longrightarrow> obj_set ob k v = ob @ [(k, v)]"
  by (induction ob k v rule: obj_set.induct) (auto simp: obj_keys_def)

text \<open>When no key is an array index, the enumeration is the insertion order.\<close>

lemma obj_values_insertion_order:
  "(\<forall>k \<in> set (obj_keys ob). array_index k = None) \<Longrightarrow> obj_values ob = map snd ob"
  by (auto simp: obj_values_def obj_entries_def obj_keys_def)

end
