(* ===== verification/Json.thy ===== *)
theory Json
  imports JsData
begin

text \<open>
  JSON values, \<open>JSON.stringify\<close> and the two canonical renderings of the source:
  \<open>stableStringify\<close> (core/LoopIntelligence.ts) and \<open>stableJson\<close>
  (tools/IdempotencyLedger.ts).

  An object's members are listed in property order. Numbers print as JavaScript prints
  finite doubles between \<open>1e-6\<close> and \<open>1e21\<close>.
\<close>

datatype json =
    JNull
  | JBool bool
  | JNum number
  | JStr string
  | JArr "json list"
  | JObj "(string \<times> json) list"

subsection \<open>Numbers as text\<close>

fun show_nat :: "nat \<Rightarrow> string" where
  "show_nat n = (if n < 10 then [char_of (48 + n)] else show_nat (n div 10) @ [char_of (48 + n mod 10)])"

declare show_nat.simps [simp del]

definition show_int :: "int \<Rightarrow> string" where
  "show_int i = (if i < 0 then CHR ''-'' # show_nat (nat (- i)) else show_nat (nat i))"

definition pad_zeros :: "nat \<Rightarrow> string \<Rightarrow> string" where
  "pad_zeros n s = replicate (n - length s) (CHR ''0'') @ s"

text \<open>The least number of decimals that identifies the double.\<close>

definition show_decimals :: "number \<Rightarrow> nat option" where
  "show_decimals x =
     find (\<lambda>d. rnd64 (of_int \<lfloor>x * 10 ^ d + 1 / 2\<rfloor> / 10 ^ d) = x) [1..<30]"

definition show_num :: "number \<Rightarrow> string" where
  "show_num x =
     (if is_integer x then show_int \<lfloor>x\<rfloor>
      else let a = \<bar>x\<bar>;
               d = (case show_decimals a of None \<Rightarrow> 30 | Some d \<Rightarrow> d);
               n = nat \<lfloor>a * 10 ^ d + 1 / 2\<rfloor>
           in (if x < 0 then ''-'' else []) @ show_nat (n div 10 ^ d) @ ''.'' @
              pad_zeros d (show_nat (n mod 10 ^ d)))"

subsection \<open>Strings as JSON text\<close>

definition hex_digit :: "nat \<Rightarrow> char" where
  "hex_digit n = (if n < 10 then char_of (48 + n) else char_of (87 + n))"

definition json_escape_char :: "char \<Rightarrow> string" where
  "json_escape_char c =
     (let n = (of_char c :: nat); bs = CHR 0x5C
      in if c = CHR 0x22 then [bs, CHR 0x22]
         else if c = bs then [bs, bs]
         else if n = 8 then [bs, CHR ''b'']
         else if n = 9 then [bs, CHR ''t'']
         else if n = 10 then [bs, CHR ''n'']
         else if n = 12 then [bs, CHR ''f'']
         else if n = 13 then [bs, CHR ''r'']
         else if n < 32 then [bs, CHR ''u'', CHR ''0'', CHR ''0'', hex_digit (n div 16), hex_digit (n mod 16)]
         else [c])"

definition json_quote :: "string \<Rightarrow> string" where
  "json_quote s = [CHR 0x22] @ concat (map json_escape_char s) @ [CHR 0x22]"

definition json_members :: "(string \<times> string) list \<Rightarrow> string" where
  "json_members kvs = ''{'' @ js_join '','' (map (\<lambda>(k, v). json_quote k @ '':'' @ v) kvs) @ ''}''"

primrec json_stringify :: "json \<Rightarrow> string" where
  "json_stringify JNull = ''null''"
| "json_stringify (JBool b) = (if b then ''true'' else ''false'')"
| "json_stringify (JNum n) = show_num n"
| "json_stringify (JStr s) = json_quote s"
| "json_stringify (JArr xs) = ''['' @ js_join '','' (map json_stringify xs) @ '']''"
| "json_stringify (JObj kvs) = json_members (map (map_prod id json_stringify) kvs)"

subsection \<open>Canonical renderings\<close>

text \<open>\<open>stableStringify\<close>: members in the order of their sorted keys, at every level.\<close>

primrec stable_stringify :: "json \<Rightarrow> string" where
  "stable_stringify JNull = ''null''"
| "stable_stringify (JBool b) = (if b then ''true'' else ''false'')"
| "stable_stringify (JNum n) = show_num n"
| "stable_stringify (JStr s) = json_quote s"
| "stable_stringify (JArr xs) = ''['' @ js_join '','' (map stable_stringify xs) @ '']''"
| "stable_stringify (JObj kvs) = json_members (sort_key fst (map (map_prod id stable_stringify) kvs))"

text \<open>
  \<open>canonicalize\<close> rebuilds each object from its sorted keys; the object so built enumerates
  array-index keys first, which \<open>obj_entries\<close> accounts for. JSON values hold no
  \<open>undefined\<close> members, so the filter of the source keeps everything.
\<close>

primrec canonicalize :: "json \<Rightarrow> json" where
  "canonicalize JNull = JNull"
| "canonicalize (JBool b) = JBool b"
| "canonicalize (JNum n) = JNum n"
| "canonicalize (JStr s) = JStr s"
| "canonicalize (JArr xs) = JArr (map canonicalize xs)"
| "canonicalize (JObj kvs) = JObj (obj_entries (sort_key fst (map (map_prod id canonicalize) kvs)))"

definition stable_json :: "json \<Rightarrow> string" where
  "stable_json v = json_stringify (canonicalize v)"

subsection \<open>Member order does not matter\<close>

text \<open>
  Two JSON values are the same up to the order of object members. The canonical renderings
  do not distinguish them.
\<close>

inductive same_json :: "json \<Rightarrow> json \<Rightarrow> bool" where
  same_null: "same_json JNull JNull"
| same_bool: "same_json (JBool b) (JBool b)"
| same_num: "same_json (JNum n) (JNum n)"
| same_str: "same_json (JStr s) (JStr s)"
| same_arr: "list_all2 same_json xs ys \<Longrightarrow> same_json (JArr xs) (JArr ys)"
| same_obj: "map fst kvs = map fst lws \<Longrightarrow> list_all2 same_json (map snd kvs) (map snd lws) \<Longrightarrow>
     distinct (map fst kvs) \<Longrightarrow> mset lws = mset lws' \<Longrightarrow> same_json (JObj kvs) (JObj lws')"

inductive_cases same_json_ObjE: "same_json (JObj kvs) v"

lemma sort_key_fst_mset:
  assumes "mset kvs = mset lws" "distinct (map fst kvs)"
  shows "sort_key fst kvs = sort_key fst (lws :: (string \<times> 'v) list)"
proof (rule properties_for_sort_key)
  show "mset (sort_key fst lws) = mset kvs" using assms by simp
  show "\<And>k. k \<in> set (sort_key fst lws) \<Longrightarrow>
      filter (\<lambda>x. fst k = fst x) (sort_key fst lws) = filter (\<lambda>x. fst k = fst x) kvs"
  proof -
    fix k assume k: "k \<in> set (sort_key fst lws)"
    have *: "filter (\<lambda>x. fst k = fst x) zs = [k]"
      if "k \<in> set zs" "distinct (map fst zs)" for zs :: "(string \<times> 'v) list"
      using that
    proof (induction zs)
      case (Cons z zs)
      then have "filter (\<lambda>x. fst k = fst x) zs = []" if "k = z" using that by (force simp: filter_empty_conv)
      moreover have "fst k \<noteq> fst z" if "k \<noteq> z"
      proof -
        have "k \<in> set zs" using that Cons.prems(1) by simp
        then have "fst k \<in> set (map fst zs)" by simp
        then show ?thesis using Cons.prems(2) by force
      qed
      ultimately show ?case using Cons by (cases "k = z") auto
    qed simp
    have "set lws = set kvs" using assms(1) by (metis set_mset_mset)
    moreover have "mset (map fst (sort_key fst lws)) = mset (map fst kvs)"
      using assms(1) by simp
    then have "distinct (map fst (sort_key fst lws))"
      using assms(2) by (metis mset_eq_imp_distinct_iff)
    ultimately show "filter (\<lambda>x. fst k = fst x) (sort_key fst lws) = filter (\<lambda>x. fst k = fst x) kvs"
      using k assms(2) by (simp add: *)
  qed
  show "sorted (map fst (sort_key fst lws))" by (rule sorted_sort_key)
qed

lemma map_prod_cong_lists:
  "map fst kvs = map fst lws \<Longrightarrow> list_all2 (\<lambda>v w. f v = f w) (map snd kvs) (map snd lws) \<Longrightarrow>
   map (map_prod id f) kvs = map (map_prod id f) lws"
  by (auto simp: list_eq_iff_nth_eq list_all2_conv_all_nth prod_eq_iff map_equality_iff)

lemma same_json_members:
  fixes f :: "json \<Rightarrow> 'v" and kvs lws lws' :: "(string \<times> json) list"
  assumes "map fst kvs = map fst lws" "list_all2 (\<lambda>v w. f v = f w) (map snd kvs) (map snd lws)"
    "distinct (map fst kvs)" "mset lws = mset lws'"
  shows "sort_key fst (map (map_prod id f) kvs) = sort_key fst (map (map_prod id f) lws')"
proof (rule sort_key_fst_mset)
  show "mset (map (map_prod id f) kvs) = mset (map (map_prod id f) lws')"
    using assms by (simp add: map_prod_cong_lists [OF assms(1, 2)])
  show "distinct (map fst (map (map_prod id f) kvs))" using assms(3) by (simp add: comp_def)
qed

lemma list_all2_eq_map: "list_all2 (\<lambda>v w. f v = f w) xs ys \<Longrightarrow> map f xs = map f ys"
  by (simp add: list_all2_conv_all_nth list_eq_iff_nth_eq)

text \<open>\<open>stableStringify\<close> is a function of the value, not of the order its members were written in.\<close>

lemma stable_stringify_same: "same_json v w \<Longrightarrow> stable_stringify v = stable_stringify w"
proof (induction rule: same_json.induct)
  case (same_arr xs ys)
  then have "list_all2 (\<lambda>v w. stable_stringify v = stable_stringify w) xs ys"
    by (auto elim: list_all2_mono)
  then show ?case by (simp add: list_all2_eq_map)
next
  case (same_obj kvs lws lws')
  then have "list_all2 (\<lambda>v w. stable_stringify v = stable_stringify w) (map snd kvs) (map snd lws)"
    by (auto elim: list_all2_mono)
  then show ?case using same_obj by (simp add: same_json_members)
qed simp_all

lemma canonicalize_same: "same_json v w \<Longrightarrow> canonicalize v = canonicalize w"
proof (induction rule: same_json.induct)
  case (same_arr xs ys)
  then have "list_all2 (\<lambda>v w. canonicalize v = canonicalize w) xs ys"
    by (auto elim: list_all2_mono)
  then show ?case by (simp add: list_all2_eq_map)
next
  case (same_obj kvs lws lws')
  then have "list_all2 (\<lambda>v w. canonicalize v = canonicalize w) (map snd kvs) (map snd lws)"
    by (auto elim: list_all2_mono)
  then show ?case using same_obj by (simp add: same_json_members)
qed simp_all

lemma stable_json_same: "same_json v w \<Longrightarrow> stable_json v = stable_json w"
  by (simp add: stable_json_def canonicalize_same)

end
