(* ===== verification/Vocabulary.thy ===== *)
theory Vocabulary
  imports Json
begin

text \<open>
  The data the program passes around: the message protocol (core/messages.ts), the planning
  and verification domain types (planning/types.ts, verification/types.ts) and the records
  the fact events carry (core/events.ts). A TypeScript union of string literals is a
  datatype, an interface a record whose fields carry a short prefix, an optional member an
  option, and \<open>unknown\<close> is JSON. \<open>Unknown_action\<close>, \<open>Other_trigger\<close> and
  \<open>Other_phase\<close> stand for strings outside the union, which a journal read from disk can
  hold and which the program checks for.
\<close>

subsection \<open>Messages (core/messages.ts)\<close>

record token_usage =
  us_inputTokens :: number
  us_outputTokens :: number
  us_cacheReadTokens :: "number option"
  us_cacheWriteTokens :: "number option"

datatype tool_result_content =
    Text_content string
  | Json_content json
  | Externalized (ext_artifactId: string) (ext_path: string) (ext_originalChars: number)
      (ext_sha256: string) (ext_previewHead: string) (ext_previewTail: string)

record contract_check =
  cc_id :: string
  cc_passed :: bool
  cc_detail :: "string option"

record tool_observation =
  ob_summary :: string
  ob_preconditions :: "contract_check list"
  ob_postconditions :: "contract_check list"
  ob_fields :: "json jsobj option"

datatype content_block =
    Text_block string
  | Thinking_block string "string option"
  | Tool_call_block (tcb_id: string) (tcb_name: string) (tcb_input: json)
  | Tool_result_block (trb_callId: string) (trb_ok: bool) (trb_content: tool_result_content)
      (trb_errorCode: "string option") (trb_observation: "tool_observation option")

datatype role = System_role | User_role | Assistant_role

datatype message_source = Human | Engine_source | Tool_source | Recovery_source

record message_meta =
  mm_model :: "string option"
  mm_usage :: "token_usage option"
  mm_source :: "message_source option"
  mm_synthetic :: "bool option"

record conversation_message =
  msg_id :: string
  msg_parentId :: "string option"
  msg_sessionId :: string
  msg_turnId :: string
  msg_role :: role
  msg_content :: "content_block list"
  msg_createdAt :: string
  msg_meta :: "message_meta option"

record tool_call =
  tc_id :: string
  tc_name :: string
  tc_input :: json
  tc_parentMessageId :: string
  tc_receivedIndex :: number

record tool_call_result =
  tr_callId :: string
  tr_toolName :: string
  tr_ok :: bool
  tr_content :: tool_result_content
  tr_errorCode :: "string option"
  tr_durationMs :: number
  tr_synthetic :: "bool option"
  tr_observation :: "tool_observation option"

subsection \<open>Planning (planning/types.ts)\<close>

datatype evidence_kind = Command_kind | Test_kind | File_assertion | Diff_assertion | Manual_kind

record acceptance_criterion =
  ac_id :: string
  ac_statement :: string
  ac_evidenceKind :: evidence_kind
  ac_required :: bool

record plan_step =
  ps_id :: string
  ps_title :: string
  ps_description :: string
  ps_files :: "string list"
  ps_dependsOn :: "string list"
  ps_expectedOutcome :: string

datatype plan_status = Draft | Awaiting_approval | Approved | Superseded

record plan_decision =
  pd_decision :: string
  pd_rationale :: string

record local_repair =
  lr_fromVersion :: number
  lr_stepId :: string
  lr_reason :: string

record plan_version =
  pl_planId :: string
  pl_version :: number
  pl_status :: plan_status
  pl_goal :: string
  pl_nonGoals :: "string list"
  pl_assumptions :: "string list"
  pl_decisions :: "plan_decision list"
  pl_steps :: "plan_step list"
  pl_acceptanceCriteria :: "acceptance_criterion list"
  pl_risks :: "string list"
  pl_createdAt :: string
  pl_approvedAt :: "string option"
  pl_approvalTokenId :: "string option"
  pl_localRepair :: "local_repair option"

record approval_token =
  at_token :: string
  at_sessionId :: string
  at_planId :: string
  at_planVersion :: number
  at_issuedAt :: string
  at_expiresAt :: string
  at_consumedAt :: "string option"

datatype task_status = Pending | In_progress | Blocked | Completed | Failed

record plan_task =
  tk_id :: string
  tk_planId :: "string option"
  tk_planVersion :: "number option"
  tk_stepId :: "string option"
  tk_subject :: string
  tk_description :: string
  tk_activeForm :: string
  tk_status :: task_status
  tk_dependsOn :: "string list"
  tk_acceptanceCriteria :: "string list"
  tk_evidenceIds :: "string list"
  tk_blockedReason :: "string option"
  tk_revision :: number
  tk_createdAt :: string
  tk_updatedAt :: string

record task_patch =
  tp_subject :: "string option"
  tp_description :: "string option"
  tp_activeForm :: "string option"
  tp_status :: "task_status option"
  tp_dependsOn :: "string list option"
  tp_acceptanceCriteria :: "string list option"
  tp_evidenceIds :: "string list option"
  tp_blockedReason :: "string option"

record update_task_input =
  ut_id :: string
  ut_expectedRevision :: number
  ut_patch :: task_patch

subsection \<open>Evidence and verification (verification/types.ts)\<close>

definition CODE_BINDING_KINDS :: "evidence_kind set" where
  "CODE_BINDING_KINDS = {Command_kind, Test_kind, File_assertion, Diff_assertion, Manual_kind}"

datatype receipt_status = Receipt_passed | Receipt_failed | Receipt_inconclusive

record evidence_invocation =
  inv_tool :: string
  inv_normalizedInput :: json
  inv_cwd :: "string option"

record evidence_observation =
  eo_exitCode :: "number option"
  eo_outputPreview :: string

record evidence_receipt =
  er_id :: string
  er_sessionId :: string
  er_runId :: string
  er_taskId :: "string option"
  er_criterionIds :: "string list"
  er_kind :: evidence_kind
  er_status :: receipt_status
  er_invocation :: evidence_invocation
  er_observation :: evidence_observation
  er_startedAt :: string
  er_completedAt :: string
  er_sha256 :: string
  er_workspaceRoot :: "string option"
  er_fileVersions :: "string jsobj option"
  er_workspaceRevision :: "number option"

datatype verdict = PASS | FAIL | PARTIAL

datatype check_result = Check_pass | Check_fail | Check_skip

record verification_check =
  vc_name :: string
  vc_criterionIds :: "string list"
  vc_evidenceIds :: "string list"
  vc_result :: check_result
  vc_expected :: string
  vc_actual :: string

datatype severity = Low | Medium | High

record verification_failure =
  vf_title :: string
  vf_severity :: severity
  vf_reproduction :: "string list"
  vf_evidenceIds :: "string list"

record unverified_item =
  uv_item :: string
  uv_reason :: string

record verification_report =
  vr_verdict :: verdict
  vr_summary :: string
  vr_checks :: "verification_check list"
  vr_adversarialProbeEvidenceId :: "string option"
  vr_failures :: "verification_failure list"
  vr_unverified :: "unverified_item list"

end
