(* ===== verification/EventTypes.thy ===== *)
theory EventTypes
  imports Vocabulary
begin

text \<open>
  The records and unions that the fact events of core/events.ts carry, without the facts and
  the snapshot themselves (see theory Facts).
\<close>

datatype loop_phase =
    Preparing_context | Calling_model | Assembling_response | Recovering | Executing_tools
  | Evaluating_completion | Verifying | Persisting | Terminated_phase

datatype agent_mode = Default_mode | Accept_edits | Plan_mode | Dont_ask | Bypass_permissions

datatype permission_behavior = Allow | Ask | Deny

datatype execution_strategy = Normal | Conservative | Critical

datatype supervisor_action =
    Continue_step | Gather_evidence | Run_verification | Resolve_blocker | Repair_plan
  | Request_reapproval | Finish | Unknown_action string

definition SUPERVISOR_ACTIONS :: "supervisor_action list" where
  "SUPERVISOR_ACTIONS =
     [Continue_step, Gather_evidence, Run_verification, Resolve_blocker, Repair_plan,
      Request_reapproval, Finish]"

definition isSupervisorAction :: "supervisor_action \<Rightarrow> bool" where
  "isSupervisorAction a \<longleftrightarrow> a \<in> set SUPERVISOR_ACTIONS"

lemma isSupervisorAction_iff [simp]: "isSupervisorAction a \<longleftrightarrow> (\<forall>s. a \<noteq> Unknown_action s)"
  by (cases a) (auto simp: isSupervisorAction_def SUPERVISOR_ACTIONS_def)

fun action_text :: "supervisor_action \<Rightarrow> string" where
  "action_text Continue_step = ''continue_step''"
| "action_text Gather_evidence = ''gather_evidence''"
| "action_text Run_verification = ''run_verification''"
| "action_text Resolve_blocker = ''resolve_blocker''"
| "action_text Repair_plan = ''repair_plan''"
| "action_text Request_reapproval = ''request_reapproval''"
| "action_text Finish = ''finish''"
| "action_text (Unknown_action s) = s"

record supervisor_decision =
  sd_action :: supervisor_action
  sd_rationale :: string
  sd_targetTaskId :: "string option"
  sd_targetStepId :: "string option"
  sd_successSignals :: "string list"

datatype health_status = Not_applicable | Healthy | Attention | At_risk | Blocked_health

record health_metrics =
  hm_totalTasks :: number
  hm_completedTasks :: number
  hm_openTasks :: number
  hm_blockedTasks :: number
  hm_failedTasks :: number
  hm_readyTasks :: number
  hm_requiredCriteria :: number
  hm_coveredCriteria :: number
  hm_scopeDriftFiles :: number
  hm_budgetRemainingRatio :: number
  hm_consecutiveFailures :: number
  hm_stagnationSignals :: number
  hm_ineffectiveReflections :: number

record plan_ref =
  pr_planId :: string
  pr_version :: number

record plan_health =
  ph_id :: string
  ph_createdAt :: string
  ph_plan :: "plan_ref option"
  ph_status :: health_status
  ph_score :: number
  ph_signature :: string
  ph_metrics :: health_metrics
  ph_findings :: "string list"
  ph_decision :: supervisor_decision

datatype tool_lane = Open_lane | Evidence_lane | Verification_lane | Plan_repair_lane | Approval_lane
  | Finish_lane

record tool_lane_selection =
  tl_turnId :: string
  tl_assessmentSignature :: string
  tl_action :: supervisor_action
  tl_lane :: tool_lane
  tl_mode :: agent_mode
  tl_writeLocked :: bool
  tl_replanning :: bool
  tl_allowedTools :: "string list"
  tl_blockedTools :: "string list"
  tl_hash :: string

datatype stagnation_kind = Repeated_call | Repeated_failure | No_progress

record stagnation_record =
  sg_kind :: stagnation_kind
  sg_signature :: string
  sg_score :: number
  sg_detail :: string

datatype reflection_trigger =
    Periodic | Stagnation | Replan | Verification | Completion | Other_trigger string

fun trigger_text :: "reflection_trigger \<Rightarrow> string" where
  "trigger_text Periodic = ''periodic''"
| "trigger_text Stagnation = ''stagnation''"
| "trigger_text Replan = ''replan''"
| "trigger_text Verification = ''verification''"
| "trigger_text Completion = ''completion''"
| "trigger_text (Other_trigger s) = s"

record reflection_progress =
  rp_completedTasks :: number
  rp_totalTasks :: number
  rp_touchedFiles :: number
  rp_toolCalls :: number
  rp_evidenceReceipts :: "number option"
  rp_successfulToolCalls :: "number option"

record reflection_decision =
  rd_decision :: supervisor_decision
  rd_evaluateAfterToolCalls :: number

record reflection_calibration =
  rc_selectionHash :: string
  rc_profileHash :: string
  rc_baseWindow :: number
  rc_delta :: number
  rc_calibratedWindow :: number

record reflection_record =
  rf_id :: string
  rf_trigger :: reflection_trigger
  rf_createdAt :: string
  rf_summary :: string
  rf_assumptions :: "string list"
  rf_progress :: reflection_progress
  rf_evidenceGaps :: "string list"
  rf_recommendation :: string
  rf_decision :: "reflection_decision option"
  rf_calibration :: "reflection_calibration option"

datatype reflection_outcome = Effective | Ineffective

record reflection_evaluation =
  re_id :: string
  re_reflectionId :: string
  re_createdAt :: string
  re_outcome :: reflection_outcome
  re_toolCallsObserved :: number
  re_progressSignals :: "string list"
  re_followUp :: supervisor_decision

datatype failure_action = Retry_action | Surface_action

record model_attempt_failure =
  mf_code :: string
  mf_attempt :: number
  mf_action :: failure_action
  mf_delayMs :: number

datatype rule_source = Managed | User_settings | Project_settings | Session_source | Cli_source

datatype permission_reason =
    Hard_safety string
  | User_rule string rule_source
  | Tool_policy string
  | Mode_reason agent_mode
  | Interactive_required
  | Default_reason

record trace_step =
  ts_stage :: string
  ts_detail :: "string option"

record permission_decision =
  dec_id :: string
  dec_callId :: string
  dec_toolName :: string
  dec_behavior :: permission_behavior
  dec_reason :: permission_reason
  dec_updatedInput :: "json option"
  dec_decidedAt :: string
  dec_trace :: "trace_step list"

datatype compact_kind = Micro | Auto_compact | Reactive

record compact_record =
  cr_kind :: compact_kind
  cr_clearedMessageIds :: "string list"
  cr_replacements :: "conversation_message list option"
  cr_summaryMessageId :: "string option"
  cr_tokensBefore :: number
  cr_tokensAfter :: number

datatype continue_transition =
    Tool_results_ready nat
  | Reactive_compact_retry
  | Max_output_recovery number
  | Model_fallback string string
  | Stop_hook_blocking number
  | Verification_repair number
  | Replan_required string
  | Reflection_requested reflection_trigger
  | User_followup

datatype budget_kind = Model_calls_budget | Tool_calls_budget | Tokens_budget | Cost_budget | Time_budget

datatype terminal_reason =
    Completed_run
  | Completed_with_unverified_items "string list"
  | Awaiting_user string
  | Permission_denied_run string
  | Aborted loop_phase
  | Max_turns number
  | Budget_exhausted budget_kind
  | Prompt_too_long
  | Model_error string
  | Invariant_violation string

datatype mutation_scope = Paths_scope | Workspace_scope | Other_scope string

datatype mutation_outcome = Unknown_outcome | Changed_outcome | Other_outcome string

datatype file_change = Created | Modified | Deleted

end
