(* ===== verification/CalibrationContract.thy ===== *)
theory CalibrationContract
  imports EventTypes
begin

text \<open>
  The durable outcome-calibration contract (planning/OutcomeCalibrationContract.ts): the
  profile and selection records, their canonical hashes and the validators that guard every
  trust boundary. SHA-256 is a parameter: the \<open>host\<close> record carries the hex digest
  and the working directory of the process. The freeze functions validate and deep-copy; on
  immutable values the copy is the value itself. The type and exact-key tests of the source
  hold by typing.
\<close>

record host =
  h_sha256 :: "string \<Rightarrow> string"
  h_cwd :: string

subsection \<open>Records\<close>

record calibration_entry =
  oe_trigger :: reflection_trigger
  oe_action :: supervisor_action
  oe_samples :: number
  oe_effective :: number
  oe_ineffective :: number
  oe_smoothedEffectiveness :: number

record profile_base =
  pb_schemaVersion :: number
  pb_sourceSessions :: number
  pb_pairedOutcomes :: number
  pb_minSamples :: number
  pb_maxSessions :: number
  pb_entries :: "calibration_entry list"

record calibration_profile = profile_base +
  op_hash :: string

datatype selection_origin = History_scan | Legacy_backfill | Test_injected | Other_origin string

datatype scan_status = Scan_complete | No_history | History_unavailable | Other_status string

record calibration_source =
  os_sessionId :: string
  os_throughSeq :: number
  os_sampleCount :: number
  os_sampleHash :: string

record selection_base =
  sel_schemaVersion :: number
  sel_algorithm :: string
  sel_origin :: selection_origin
  sel_scanStatus :: scan_status
  sel_eligibleBefore :: string
  sel_minSamples :: number
  sel_maxSessions :: number
  sel_sources :: "calibration_source list"
  sel_profile :: calibration_profile

record calibration_selection = selection_base +
  sel_hash :: string

subsection \<open>Canonical JSON and hashes\<close>

definition entry_json :: "calibration_entry \<Rightarrow> json" where
  "entry_json e = JObj
     [(''trigger'', JStr (trigger_text (oe_trigger e))), (''action'', JStr (action_text (oe_action e))),
      (''samples'', JNum (oe_samples e)), (''effective'', JNum (oe_effective e)),
      (''ineffective'', JNum (oe_ineffective e)),
      (''smoothedEffectiveness'', JNum (oe_smoothedEffectiveness e))]"

definition profile_members :: "'x profile_base_scheme \<Rightarrow> (string \<times> json) list" where
  "profile_members p =
     [(''schemaVersion'', JNum (pb_schemaVersion p)), (''sourceSessions'', JNum (pb_sourceSessions p)),
      (''pairedOutcomes'', JNum (pb_pairedOutcomes p)), (''minSamples'', JNum (pb_minSamples p)),
      (''maxSessions'', JNum (pb_maxSessions p)), (''entries'', JArr (map entry_json (pb_entries p)))]"

definition hashProfileBase :: "host \<Rightarrow> 'x profile_base_scheme \<Rightarrow> string" where
  "hashProfileBase H p = take 16 (h_sha256 H (json_stringify (JObj (profile_members p))))"

fun origin_text :: "selection_origin \<Rightarrow> string" where
  "origin_text History_scan = ''history_scan''"
| "origin_text Legacy_backfill = ''legacy_backfill''"
| "origin_text Test_injected = ''test_injected''"
| "origin_text (Other_origin s) = s"

fun status_text :: "scan_status \<Rightarrow> string" where
  "status_text Scan_complete = ''complete''"
| "status_text No_history = ''no_history''"
| "status_text History_unavailable = ''history_unavailable''"
| "status_text (Other_status s) = s"

definition source_json :: "calibration_source \<Rightarrow> json" where
  "source_json s = JObj
     [(''sessionId'', JStr (os_sessionId s)), (''throughSeq'', JNum (os_throughSeq s)),
      (''sampleCount'', JNum (os_sampleCount s)), (''sampleHash'', JStr (os_sampleHash s))]"

definition selection_json :: "'x selection_base_scheme \<Rightarrow> json" where
  "selection_json s = JObj
     [(''schemaVersion'', JNum (sel_schemaVersion s)), (''algorithm'', JStr (sel_algorithm s)),
      (''origin'', JStr (origin_text (sel_origin s))), (''scanStatus'', JStr (status_text (sel_scanStatus s))),
      (''eligibleBefore'', JStr (sel_eligibleBefore s)),
      (''policy'', JObj [(''minSamples'', JNum (sel_minSamples s)), (''maxSessions'', JNum (sel_maxSessions s))]),
      (''sources'', JArr (map source_json (sel_sources s))),
      (''profile'', JObj (profile_members (sel_profile s) @ [(''hash'', JStr (op_hash (sel_profile s)))]))]"

definition hashSelectionBase :: "host \<Rightarrow> 'x selection_base_scheme \<Rightarrow> string" where
  "hashSelectionBase H s = h_sha256 H (json_stringify (selection_json s))"

subsection \<open>Canonical timestamps\<close>

text \<open>
  \<open>isCanonicalIso\<close>: the texts that \<open>Date.parse\<close> accepts and \<open>toISOString\<close> gives back, that is
  \<open>YYYY-MM-DDTHH:MM:SS.mmmZ\<close> with a real calendar date, or a signed six-digit year outside
  0 to 9999 within the range of a date.
\<close>

definition leap_year :: "int \<Rightarrow> bool" where
  "leap_year y \<longleftrightarrow> (4 dvd y \<and> \<not> 100 dvd y) \<or> 400 dvd y"

definition days_in_month :: "int \<Rightarrow> nat \<Rightarrow> nat" where
  "days_in_month y m =
     (if m = 2 then (if leap_year y then 29 else 28) else if m \<in> {4, 6, 9, 11} then 30 else 31)"

definition fixed_digits :: "nat \<Rightarrow> string \<Rightarrow> nat option" where
  "fixed_digits n s = (if length s = n then decimal_value 0 s else None)"

definition iso_rest_ok :: "int \<Rightarrow> string \<Rightarrow> bool" where
  "iso_rest_ok y s \<longleftrightarrow>
     length s = 20 \<and> s ! 0 = CHR ''-'' \<and> s ! 3 = CHR ''-'' \<and> s ! 6 = CHR ''T'' \<and> s ! 9 = CHR '':'' \<and>
     s ! 12 = CHR '':'' \<and> s ! 15 = CHR ''.'' \<and> s ! 19 = CHR ''Z'' \<and>
     (case (fixed_digits 2 (take 2 (drop 1 s)), fixed_digits 2 (take 2 (drop 4 s)),
            fixed_digits 2 (take 2 (drop 7 s)), fixed_digits 2 (take 2 (drop 10 s)),
            fixed_digits 2 (take 2 (drop 13 s)), fixed_digits 3 (take 3 (drop 16 s))) of
        (Some mo, Some d, Some h, Some mi, Some se, Some _) \<Rightarrow>
          1 \<le> mo \<and> mo \<le> 12 \<and> 1 \<le> d \<and> d \<le> days_in_month y mo \<and> h < 24 \<and> mi < 60 \<and> se < 60
      | _ \<Rightarrow> False)"

definition isCanonicalIso :: "string \<Rightarrow> bool" where
  "isCanonicalIso s =
     (if s \<noteq> [] \<and> (hd s = CHR ''+'' \<or> hd s = CHR ''-'') then
        (case fixed_digits 6 (take 6 (tl s)) of
           None \<Rightarrow> False
         | Some y \<Rightarrow>
             (if hd s = CHR ''+''
              then 9999 < y \<and> iso_rest_ok (int y) (drop 7 s) \<and>
                (y < 275760 \<or> (y = 275760 \<and> drop 7 s \<le> ''-09-13T00:00:00.000Z''))
              else 0 < y \<and> iso_rest_ok (- int y) (drop 7 s) \<and>
                (y < 271821 \<or> (y = 271821 \<and> ''-04-20T00:00:00.000Z'' \<le> drop 7 s))))
      else (case fixed_digits 4 (take 4 s) of None \<Rightarrow> False | Some y \<Rightarrow> iso_rest_ok (int y) (drop 4 s)))"

subsection \<open>Validators\<close>

definition isOutcomeCalibrationTrigger :: "reflection_trigger \<Rightarrow> bool" where
  "isOutcomeCalibrationTrigger t \<longleftrightarrow> t \<in> {Periodic, Stagnation, Replan, Verification, Completion}"

definition isOutcomeCalibrationAction :: "supervisor_action \<Rightarrow> bool" where
  "isOutcomeCalibrationAction a \<longleftrightarrow>
     a \<in> {Continue_step, Gather_evidence, Run_verification, Resolve_blocker, Repair_plan,
          Request_reapproval, Finish}"

definition roundCalibrationRate :: "number \<Rightarrow> number" where
  "roundCalibrationRate v = fdiv (math_round (fmul v 10000)) 10000"

definition smoothed_rate :: "number \<Rightarrow> number \<Rightarrow> number" where
  "smoothed_rate effective samples = roundCalibrationRate (fdiv (effective + 1) (samples + 2))"

definition isCalibrationEntry :: "calibration_entry \<Rightarrow> bool" where
  "isCalibrationEntry e \<longleftrightarrow>
     isOutcomeCalibrationTrigger (oe_trigger e) \<and> isOutcomeCalibrationAction (oe_action e) \<and>
     is_positive_integer (oe_samples e) \<and> is_non_negative_integer (oe_effective e) \<and>
     is_non_negative_integer (oe_ineffective e) \<and>
     oe_effective e + oe_ineffective e = oe_samples e \<and>
     0 \<le> oe_smoothedEffectiveness e \<and> oe_smoothedEffectiveness e \<le> 1 \<and>
     oe_smoothedEffectiveness e = smoothed_rate (oe_effective e) (oe_samples e)"

text \<open>\<open>compareCalibrationEntry\<close> orders by trigger, then by action.\<close>

definition calibrationKey :: "calibration_entry \<Rightarrow> string list" where
  "calibrationKey e = [trigger_text (oe_trigger e), action_text (oe_action e)]"

definition isOutcomeCalibrationProfile :: "host \<Rightarrow> calibration_profile \<Rightarrow> bool" where
  "isOutcomeCalibrationProfile H p \<longleftrightarrow>
     pb_schemaVersion p = 1 \<and> is_non_negative_integer (pb_sourceSessions p) \<and>
     is_non_negative_integer (pb_pairedOutcomes p) \<and> is_positive_integer (pb_minSamples p) \<and>
     is_positive_integer (pb_maxSessions p) \<and> list_all isCalibrationEntry (pb_entries p) \<and>
     pb_minSamples p \<le> 100 \<and> pb_maxSessions p \<le> 500 \<and>
     pb_sourceSessions p \<le> pb_maxSessions p \<and> pb_sourceSessions p \<le> pb_pairedOutcomes p \<and>
     pb_pairedOutcomes p = sum_list (map oe_samples (pb_entries p)) \<and>
     pb_entries p = sort_key calibrationKey (pb_entries p) \<and>
     distinct (map calibrationKey (pb_entries p)) \<and>
     op_hash p = hashProfileBase H p"

definition freezeOutcomeCalibrationProfile :: "host \<Rightarrow> calibration_profile \<Rightarrow> calibration_profile res" where
  "freezeOutcomeCalibrationProfile H p =
     (if isOutcomeCalibrationProfile H p then Inr p
      else Inl (JsError ''invalid outcome calibration profile''))"

definition finalizeOutcomeCalibrationProfile :: "host \<Rightarrow> profile_base \<Rightarrow> calibration_profile res" where
  "finalizeOutcomeCalibrationProfile H base =
     freezeOutcomeCalibrationProfile H
       \<lparr>pb_schemaVersion = 1, pb_sourceSessions = pb_sourceSessions base,
        pb_pairedOutcomes = pb_pairedOutcomes base, pb_minSamples = pb_minSamples base,
        pb_maxSessions = pb_maxSessions base, pb_entries = pb_entries base,
        op_hash = hashProfileBase H base\<rparr>"

definition isSelectionSource :: "selection_origin \<Rightarrow> bool" where
  "isSelectionSource r \<longleftrightarrow> r = History_scan \<or> r = Legacy_backfill \<or> r = Test_injected"

definition isScanStatus :: "scan_status \<Rightarrow> bool" where
  "isScanStatus r \<longleftrightarrow> r = Scan_complete \<or> r = No_history \<or> r = History_unavailable"

definition is_hex64 :: "string \<Rightarrow> bool" where
  "is_hex64 s \<longleftrightarrow> length s = 64 \<and>
     list_all (\<lambda>c. let n = (of_char c :: nat) in (48 \<le> n \<and> n \<le> 57) \<or> (97 \<le> n \<and> n \<le> 102)) s"

definition isCalibrationSource :: "calibration_source \<Rightarrow> bool" where
  "isCalibrationSource s \<longleftrightarrow>
     0 < length (os_sessionId s) \<and> is_integer (os_throughSeq s) \<and> 0 < os_throughSeq s \<and>
     is_integer (os_sampleCount s) \<and> 0 < os_sampleCount s \<and> is_hex64 (os_sampleHash s)"

definition isOutcomeCalibrationSelection :: "host \<Rightarrow> calibration_selection \<Rightarrow> bool" where
  "isOutcomeCalibrationSelection H s =
     (if \<not> (sel_schemaVersion s = 1 \<and> sel_algorithm s = ''reflection-window-v1'' \<and>
            isSelectionSource (sel_origin s) \<and> isScanStatus (sel_scanStatus s) \<and>
            isCanonicalIso (sel_eligibleBefore s) \<and>
            is_positive_integer (sel_minSamples s) \<and> sel_minSamples s \<le> 100 \<and>
            is_positive_integer (sel_maxSessions s) \<and> sel_maxSessions s \<le> 500 \<and>
            list_all isCalibrationSource (sel_sources s) \<and>
            isOutcomeCalibrationProfile H (sel_profile s)) then False
      else if sel_minSamples s \<noteq> pb_minSamples (sel_profile s) \<or>
              sel_maxSessions s \<noteq> pb_maxSessions (sel_profile s) then False
      else if sel_sources s \<noteq> sort_key os_sessionId (sel_sources s) \<or>
              \<not> distinct (map os_sessionId (sel_sources s)) then False
      else if sel_origin s \<noteq> Test_injected \<and>
              (of_nat (length (sel_sources s)) \<noteq> pb_sourceSessions (sel_profile s) \<or>
               sum_list (map os_sampleCount (sel_sources s)) \<noteq> pb_pairedOutcomes (sel_profile s)) then False
      else if sel_scanStatus s = Scan_complete \<and> sel_origin s \<noteq> Test_injected \<and> sel_sources s = [] then False
      else if sel_scanStatus s \<noteq> Scan_complete \<and>
              (sel_sources s \<noteq> [] \<or> 0 < pb_pairedOutcomes (sel_profile s)) then False
      else sel_hash s = hashSelectionBase H s)"

definition freezeOutcomeCalibrationSelection ::
    "host \<Rightarrow> calibration_selection \<Rightarrow> calibration_selection res" where
  "freezeOutcomeCalibrationSelection H s =
     (if \<not> isOutcomeCalibrationSelection H s then Inl (JsError ''invalid outcome calibration selection'')
      else bind_res (freezeOutcomeCalibrationProfile H (sel_profile s)) (\<lambda>p. Inr (s\<lparr>sel_profile := p\<rparr>)))"

definition buildOutcomeCalibrationSelection ::
    "host \<Rightarrow> selection_origin \<Rightarrow> scan_status \<Rightarrow> string \<Rightarrow> calibration_source list option \<Rightarrow>
     calibration_profile \<Rightarrow> calibration_selection res" where
  "buildOutcomeCalibrationSelection H origin status eligibleBefore sources profile =
     bind_res (freezeOutcomeCalibrationProfile H profile) (\<lambda>p.
       let base = \<lparr>sel_schemaVersion = 1, sel_algorithm = ''reflection-window-v1'', sel_origin = origin,
                   sel_scanStatus = status, sel_eligibleBefore = eligibleBefore,
                   sel_minSamples = pb_minSamples p, sel_maxSessions = pb_maxSessions p,
                   sel_sources = sort_key os_sessionId (case sources of None \<Rightarrow> [] | Some ss \<Rightarrow> ss),
                   sel_profile = p\<rparr>;
           selection = selection_base.extend base (calibration_selection.fields (hashSelectionBase H base))
       in if \<not> isOutcomeCalibrationSelection H selection
          then Inl (JsError ''invalid outcome calibration selection'')
          else freezeOutcomeCalibrationSelection H selection)"

subsection \<open>What validation gives\<close>

lemma selection_profile_valid:
  "isOutcomeCalibrationSelection H s \<Longrightarrow> isOutcomeCalibrationProfile H (sel_profile s)"
  by (simp add: isOutcomeCalibrationSelection_def split: if_splits)

text \<open>On a valid selection freezing is the identity, and it never accepts an invalid one.\<close>

lemma freeze_selection_iff [simp]:
  "freezeOutcomeCalibrationSelection H s = Inr t \<longleftrightarrow> isOutcomeCalibrationSelection H s \<and> t = s"
  by (auto simp: freezeOutcomeCalibrationSelection_def freezeOutcomeCalibrationProfile_def
      dest: selection_profile_valid)

lemma freeze_valid_selection [simp]:
  "isOutcomeCalibrationSelection H s \<Longrightarrow> freezeOutcomeCalibrationSelection H s = Inr s"
  by simp

lemma profile_entryD:
  "isOutcomeCalibrationProfile H p \<Longrightarrow> e \<in> set (pb_entries p) \<Longrightarrow> isCalibrationEntry e"
  by (simp add: isOutcomeCalibrationProfile_def list_all_iff)

lemma build_selection_valid:
  "buildOutcomeCalibrationSelection H r st eb ss p = Inr s \<Longrightarrow> isOutcomeCalibrationSelection H s"
  by (auto simp: buildOutcomeCalibrationSelection_def bind_res_Inr_iff Let_def split: if_splits)

text \<open>The smoothed rate is a rate: the rounding stays in the unit interval.\<close>

lemma math_round_bounds:
  "0 \<le> x \<Longrightarrow> x \<le> of_int n \<Longrightarrow> 0 \<le> math_round x \<and> math_round x \<le> of_int n"
proof -
  assume *: "0 \<le> x" "x \<le> of_int n"
  then have "0 \<le> \<lfloor>x + 1 / 2\<rfloor>" by simp
  moreover have "\<lfloor>x + 1 / 2\<rfloor> \<le> n"
    using * by (simp add: floor_le_iff)
  ultimately show ?thesis by (simp add: math_round_def)
qed

lemma smoothed_rate_bounds:
  assumes "0 \<le> e" "e \<le> s"
  shows "0 \<le> smoothed_rate e s" "smoothed_rate e s \<le> 1"
proof -
  have d: "0 \<le> fdiv (e + 1) (s + 2)" "fdiv (e + 1) (s + 2) \<le> 1"
    using assms by (auto simp: fdiv_def intro!: rnd64_nonneg rnd64_le_1)
  define v where "v = fdiv (e + 1) (s + 2)"
  have "fmul v 10000 \<le> of_int 10000" "0 \<le> fmul v 10000"
    using d unfolding fmul_def v_def by (auto intro!: rnd64_le_int [of _ 10000, simplified] rnd64_nonneg)
  then have r: "0 \<le> math_round (fmul v 10000) \<and> math_round (fmul v 10000) \<le> of_int 10000"
    by (intro math_round_bounds)
  show "0 \<le> smoothed_rate e s" "smoothed_rate e s \<le> 1"
    using r unfolding smoothed_rate_def roundCalibrationRate_def fdiv_def [of "math_round _"] v_def [symmetric]
    by (auto intro!: rnd64_nonneg rnd64_le_1)
qed

end
