(* ===== verification/Facts.thy ===== *)
theory Facts
  imports CalibrationContract
begin

text \<open>
  The agent state (core/state.ts), its serialisable snapshot and the fact events
  (core/events.ts).
\<close>

subsection \<open>The durable state\<close>

record recovery_state =
  rs_modelRetries :: number
  rs_compactFailures :: number
  rs_promptOverflowRecovered :: bool
  rs_outputLimitRecoveries :: number
  rs_stopHookRetries :: number
  rs_verifierRepairs :: number
  rs_replanCount :: number
  rs_consecutiveFailures :: number
  rs_versionConflicts :: number
  rs_replanning :: bool
  rs_replanAwaitingApproval :: bool
  rs_degradedRecovery :: bool
  rs_recentToolFingerprints :: "string list"
  rs_recentOutcomeSignatures :: "string list"
  rs_stagnationCount :: number
  rs_lastStagnationSignature :: "string option"
  rs_reflectionCount :: number
  rs_lastReflectionToolCalls :: number
  rs_lastReflectionTrigger :: "reflection_trigger option"
  rs_ineffectiveReflectionCount :: number
  rs_lastEvaluatedReflectionId :: "string option"
  rs_lastProgressToolCalls :: number
  rs_executionStrategy :: execution_strategy

record budget_used =
  bu_modelCalls :: number
  bu_toolCalls :: number
  bu_inputTokens :: number
  bu_outputTokens :: number
  bu_startedAt :: number

record run_budget =
  rb_maxTurns :: number
  rb_maxModelCalls :: number
  rb_maxToolCalls :: number
  rb_maxWallTimeMs :: number
  rb_used :: budget_used

record mutation_source =
  ms_mutationId :: string
  ms_callId :: string
  ms_toolName :: string
  ms_outcome :: mutation_outcome
  ms_reason :: string

record pending_verification =
  pv_revision :: number
  pv_openedAtTurnId :: string
  pv_scope :: mutation_scope
  pv_changedPaths :: "string list"
  pv_sources :: "mutation_source list"

record workspace_state =
  ws_root :: string
  ws_revision :: number
  ws_pendingVerification :: "pending_verification option"
  ws_touchedFiles :: "string list"
  ws_planScopedTouchedFiles :: "string list"
  ws_createdFiles :: "string list"
  ws_deletedFiles :: "string list"

record active_plan =
  ap_planId :: string
  ap_version :: number
  ap_approved :: bool

record last_verification =
  lv_report :: verification_report
  lv_valid :: bool

record pending_repair =
  vp_attempt :: number
  vp_report :: verification_report

record agent_state =
  ag_sessionId :: string
  ag_runId :: string
  ag_turnId :: string
  ag_iteration :: number
  ag_phase :: loop_phase
  ag_messages :: "conversation_message list"
  ag_pendingToolCalls :: "tool_call list"
  ag_toolResults :: "tool_call_result jsobj"
  ag_mode :: agent_mode
  ag_prePlanMode :: "agent_mode option"
  ag_activePlan :: "active_plan option"
  ag_tasks :: "plan_task list"
  ag_evidenceIds :: "string list"
  ag_lastVerification :: "last_verification option"
  ag_pendingRepair :: "pending_repair option"
  ag_reflections :: "reflection_record list"
  ag_latestPlanHealth :: "plan_health option"
  ag_reflectionEvaluations :: "reflection_evaluation list"
  ag_selection :: "calibration_selection option"
  ag_workspace :: workspace_state
  ag_recovery :: recovery_state
  ag_budget :: run_budget
  ag_lastTransition :: "continue_transition option"

definition initialRecovery :: recovery_state where
  "initialRecovery =
     \<lparr>rs_modelRetries = 0, rs_compactFailures = 0, rs_promptOverflowRecovered = False,
      rs_outputLimitRecoveries = 0, rs_stopHookRetries = 0, rs_verifierRepairs = 0,
      rs_replanCount = 0, rs_consecutiveFailures = 0, rs_versionConflicts = 0,
      rs_replanning = False, rs_replanAwaitingApproval = False, rs_degradedRecovery = False,
      rs_recentToolFingerprints = [], rs_recentOutcomeSignatures = [], rs_stagnationCount = 0,
      rs_lastStagnationSignature = None, rs_reflectionCount = 0, rs_lastReflectionToolCalls = 0,
      rs_lastReflectionTrigger = None, rs_ineffectiveReflectionCount = 0,
      rs_lastEvaluatedReflectionId = None, rs_lastProgressToolCalls = 0,
      rs_executionStrategy = Normal\<rparr>"

record initial_input =
  in_sessionId :: string
  in_runId :: string
  in_turnId :: string
  in_workspaceRoot :: string
  in_mode :: "agent_mode option"
  in_maxTurns :: number
  in_maxModelCalls :: number
  in_maxToolCalls :: number
  in_maxWallTimeMs :: number
  in_now :: number

definition createInitialState :: "initial_input \<Rightarrow> agent_state" where
  "createInitialState i =
     \<lparr>ag_sessionId = in_sessionId i, ag_runId = in_runId i, ag_turnId = in_turnId i,
      ag_iteration = 0, ag_phase = Preparing_context, ag_messages = [], ag_pendingToolCalls = [],
      ag_toolResults = [], ag_mode = (case in_mode i of None \<Rightarrow> Default_mode | Some m \<Rightarrow> m),
      ag_prePlanMode = None, ag_activePlan = None, ag_tasks = [], ag_evidenceIds = [],
      ag_lastVerification = None, ag_pendingRepair = None, ag_reflections = [],
      ag_latestPlanHealth = None, ag_reflectionEvaluations = [], ag_selection = None,
      ag_workspace =
        \<lparr>ws_root = in_workspaceRoot i, ws_revision = 0, ws_pendingVerification = None,
         ws_touchedFiles = [], ws_planScopedTouchedFiles = [], ws_createdFiles = [],
         ws_deletedFiles = []\<rparr>,
      ag_recovery = initialRecovery,
      ag_budget =
        \<lparr>rb_maxTurns = in_maxTurns i, rb_maxModelCalls = in_maxModelCalls i,
         rb_maxToolCalls = in_maxToolCalls i, rb_maxWallTimeMs = in_maxWallTimeMs i,
         rb_used = \<lparr>bu_modelCalls = 0, bu_toolCalls = 0, bu_inputTokens = 0, bu_outputTokens = 0,
                    bu_startedAt = in_now i\<rparr>\<rparr>,
      ag_lastTransition = None\<rparr>"

subsection \<open>The snapshot\<close>

record snapshot_recovery =
  sr_modelRetries :: number
  sr_compactFailures :: number
  sr_promptOverflowRecovered :: bool
  sr_outputLimitRecoveries :: number
  sr_stopHookRetries :: number
  sr_verifierRepairs :: number
  sr_replanCount :: "number option"
  sr_consecutiveFailures :: "number option"
  sr_versionConflicts :: "number option"
  sr_replanning :: "bool option"
  sr_replanAwaitingApproval :: "bool option"
  sr_degradedRecovery :: "bool option"
  sr_recentToolFingerprints :: "string list option"
  sr_recentOutcomeSignatures :: "string list option"
  sr_stagnationCount :: "number option"
  sr_lastStagnationSignature :: "string option"
  sr_reflectionCount :: "number option"
  sr_lastReflectionToolCalls :: "number option"
  sr_lastReflectionTrigger :: "reflection_trigger option"
  sr_ineffectiveReflectionCount :: "number option"
  sr_lastEvaluatedReflectionId :: "string option"
  sr_lastProgressToolCalls :: "number option"
  sr_executionStrategy :: "execution_strategy option"

record snapshot_budget =
  sb_modelCalls :: number
  sb_toolCalls :: number
  sb_inputTokens :: number
  sb_outputTokens :: number

record snapshot_workspace =
  sw_touchedFiles :: "string list"
  sw_planScopedTouchedFiles :: "string list option"
  sw_createdFiles :: "string list"
  sw_deletedFiles :: "string list"
  sw_revision :: "number option"
  sw_pendingVerification :: "pending_verification option"

record state_snapshot =
  sn_version :: "nat option"
  sn_lastSeq :: "number option"
  sn_iteration :: number
  sn_mode :: agent_mode
  sn_prePlanMode :: "agent_mode option"
  sn_activePlan :: "active_plan option"
  sn_recovery :: snapshot_recovery
  sn_budgetUsed :: snapshot_budget
  sn_workspace :: snapshot_workspace
  sn_messageIds :: "string list"
  sn_evidenceIds :: "string list"
  sn_taskIds :: "string list"
  sn_messages :: "conversation_message list option"
  sn_pendingToolCalls :: "tool_call list option"
  sn_toolResults :: "tool_call_result jsobj option"
  sn_lastTransition :: "continue_transition option"
  sn_lastVerification :: "last_verification option"
  sn_pendingRepair :: "pending_repair option"
  sn_selection :: "calibration_selection option"
  sn_reflections :: "reflection_record list option"
  sn_latestPlanHealth :: "plan_health option"
  sn_reflectionEvaluations :: "reflection_evaluation list option"
  sn_tasks :: "plan_task list option"

subsection \<open>Fact events\<close>

record mutation_started =
  mst_mutationId :: string
  mst_callId :: string
  mst_toolName :: string
  mst_scope :: mutation_scope
  mst_paths :: "string list"
  mst_reason :: string
  mst_durableBeforeExecution :: "bool option"

record workspace_change =
  wc_path :: string
  wc_change :: file_change
  wc_mutationId :: "string option"
  wc_callId :: "string option"
  wc_toolName :: "string option"

datatype fact_event =
    Run_started string string
  | Outcome_calibration_selected calibration_selection
  | User_message_accepted conversation_message
  | Assistant_message_completed conversation_message "(number \<times> number) option"
  | Model_attempt_failed model_attempt_failure
  | Tool_call_accepted tool_call
  | Tool_call_completed tool_call_result
  | Tool_result_message conversation_message
  | Permission_decided permission_decision
  | Mode_changed agent_mode agent_mode "agent_mode option"
  | Plan_version_created plan_version
  | Plan_approved string number string
  | Replan_requested string bool
  | Replan_adjustment_applied string string
  | Loop_stagnation_detected stagnation_record
  | Reflection_recorded reflection_record
  | Reflection_evaluated reflection_evaluation
  | Plan_health_assessed plan_health
  | Tool_lane_selected tool_lane_selection
  | Strategy_adapted execution_strategy execution_strategy string
  | Plan_status_changed string number
  | Task_changed plan_task
  | Evidence_recorded evidence_receipt
  | Idempotency_adjudicated string string string string string
  | Verification_completed verification_report bool "number option"
  | Context_compacted compact_record
  | Loop_transitioned continue_transition
  | Run_terminated terminal_reason
  | State_snapshot state_snapshot
  | Workspace_mutation_started mutation_started
  | Workspace_changed workspace_change
  | Session_recovery_branch string number "string list"
  | Unknown_fact string

datatype agent_event =
    Fact_event fact_event
  | Transient_event string

text \<open>
  \<open>isFactEvent\<close>: a fact is an event whose type is listed in \<open>FACT_TYPES\<close>; an event of a type the
  list does not have is not one.
\<close>

fun isFactEvent :: "agent_event \<Rightarrow> bool" where
  "isFactEvent (Fact_event (Unknown_fact t)) \<longleftrightarrow> False"
| "isFactEvent (Fact_event e) \<longleftrightarrow> True"
| "isFactEvent (Transient_event t) \<longleftrightarrow> False"

end
