(* ===== verification/LoopIntelligence.thy ===== *)
theory LoopIntelligence
  imports Facts
begin

text \<open>
  Loop policy on the durable state (core/LoopIntelligence.ts): call fingerprints and outcome
  signatures, stagnation detection, the monotone execution strategy and the reflection
  records the engine writes.
\<close>

subsection \<open>Fingerprints and bounded histories\<close>

definition HISTORY_LIMIT :: nat where
  "HISTORY_LIMIT = 12"

definition fingerprintToolCall :: "host \<Rightarrow> string \<Rightarrow> json \<Rightarrow> string" where
  "fingerprintToolCall H name input =
     name @ '':'' @ take 16 (h_sha256 H (stable_stringify input))"

definition appendBounded :: "'a list \<Rightarrow> 'a \<Rightarrow> 'a list" where
  "appendBounded items item = slice_last HISTORY_LIMIT (items @ [item])"

definition toolOutcomeSignature :: "string \<Rightarrow> bool \<Rightarrow> string option \<Rightarrow> string" where
  "toolOutcomeSignature toolName ok errorCode =
     (if ok then ''ok:'' @ toolName
      else ''error:'' @ toolName @ '':'' @ (case errorCode of None \<Rightarrow> ''UNKNOWN'' | Some c \<Rightarrow> c))"

subsection \<open>Stagnation\<close>

definition all_same :: "'a list \<Rightarrow> bool" where
  "all_same xs \<longleftrightarrow> length (remdups xs) = 1"

definition repeated_call :: "agent_state \<Rightarrow> stagnation_record option" where
  "repeated_call s =
     (let lastThree = slice_last 3 (rs_recentToolFingerprints (ag_recovery s))
      in if length lastThree = 3 \<and> all_same lastThree
         then let signature = ''repeated_call:'' @ hd lastThree
              in if Some signature \<noteq> rs_lastStagnationSignature (ag_recovery s)
                 then Some \<lparr>sg_kind = Repeated_call, sg_signature = signature, sg_score = 1,
                       sg_detail = ''The same tool and arguments were issued three times consecutively.''\<rparr>
                 else None
         else None)"

definition repeated_failure :: "agent_state \<Rightarrow> stagnation_record option" where
  "repeated_failure s =
     (let lastThree = slice_last 3 (rs_recentOutcomeSignatures (ag_recovery s))
      in if length lastThree = 3 \<and> starts_with (hd lastThree) ''error:'' \<and> all_same lastThree
         then let signature = ''repeated_failure:'' @ hd lastThree
              in if Some signature \<noteq> rs_lastStagnationSignature (ag_recovery s)
                 then Some \<lparr>sg_kind = Repeated_failure, sg_signature = signature, sg_score = 1,
                       sg_detail = ''The last three tool calls failed with the same tool/error signature.''\<rparr>
                 else None
         else None)"

definition no_progress :: "agent_state \<Rightarrow> stagnation_record option" where
  "no_progress s =
     (let calls = bu_toolCalls (rb_used (ag_budget s)) - rs_lastProgressToolCalls (ag_recovery s);
          recent = slice_last 8 (rs_recentToolFingerprints (ag_recovery s))
      in if 8 \<le> calls \<and> 8 \<le> length recent \<and> length (remdups recent) \<le> 3
         then let signature = ''no_progress:'' @ js_join ''|'' recent
              in if Some signature \<noteq> rs_lastStagnationSignature (ag_recovery s)
                 then Some \<lparr>sg_kind = No_progress, sg_signature = signature,
                       sg_score = min 1 (fdiv calls 12),
                       sg_detail = show_num calls @
                         '' tool calls produced no workspace, task, or evidence progress while cycling through at most three operations.''\<rparr>
                 else None
         else None)"

definition detectStagnation :: "agent_state \<Rightarrow> stagnation_record option" where
  "detectStagnation s =
     (case repeated_call s of
        Some r \<Rightarrow> Some r
      | None \<Rightarrow> (case repeated_failure s of Some r \<Rightarrow> Some r | None \<Rightarrow> no_progress s))"

subsection \<open>Execution strategy\<close>

definition remainingRatio :: "number \<Rightarrow> number \<Rightarrow> number" where
  "remainingRatio used mx = (if mx \<le> 0 then 0 else max 0 (min 1 (fdiv (mx - used) mx)))"

fun strategy_rank :: "execution_strategy \<Rightarrow> nat" where
  "strategy_rank Normal = 0"
| "strategy_rank Conservative = 1"
| "strategy_rank Critical = 2"

definition remaining_budget :: "agent_state \<Rightarrow> number" where
  "remaining_budget s =
     (let b = ag_budget s; u = rb_used b
      in min (remainingRatio (bu_modelCalls u) (rb_maxModelCalls b))
           (min (remainingRatio (bu_toolCalls u) (rb_maxToolCalls b))
             (remainingRatio (ag_iteration s) (rb_maxTurns b))))"

definition desired_strategy :: "agent_state \<Rightarrow> execution_strategy \<times> string" where
  "desired_strategy s =
     (let remaining = remaining_budget s; r = ag_recovery s;
          budget_reason = ''minimum remaining call/turn budget is '' @
            show_num (math_round (fmul remaining 100)) @ ''%''
      in if remaining \<le> rnd64 (15 / 100) then (Critical, budget_reason)
         else if remaining \<le> rnd64 (4 / 10) \<or> 2 \<le> rs_consecutiveFailures r \<or>
                 2 \<le> rs_stagnationCount r \<or> 2 \<le> rs_ineffectiveReflectionCount r
         then (Conservative,
           (if 2 \<le> rs_stagnationCount r
            then show_num (rs_stagnationCount r) @ '' stagnation signals were recorded''
            else if 2 \<le> rs_consecutiveFailures r
            then show_num (rs_consecutiveFailures r) @ '' consecutive failed tool batches''
            else if 2 \<le> rs_ineffectiveReflectionCount r
            then show_num (rs_ineffectiveReflectionCount r) @
              '' consecutive reflection recommendations produced no measurable progress''
            else budget_reason))
         else (Normal, budget_reason))"

definition deriveExecutionStrategy :: "agent_state \<Rightarrow> (execution_strategy \<times> string) option" where
  "deriveExecutionStrategy s =
     (if strategy_rank (fst (desired_strategy s)) \<le> strategy_rank (rs_executionStrategy (ag_recovery s))
      then None else Some (desired_strategy s))"

fun strategyInstructions :: "execution_strategy \<Rightarrow> string option" where
  "strategyInstructions Normal = None"
| "strategyInstructions Conservative = Some (js_join '' ''
     [''Execution strategy: CONSERVATIVE.'',
      ''Batch related reads, reuse existing observations, prefer a local step repair over replacing the whole plan,'',
      ''and avoid speculative scope expansion. Verify the highest-risk unknown first.''])"
| "strategyInstructions Critical = Some (js_join '' ''
     [''Execution strategy: CRITICAL BUDGET.'',
      ''Do not expand scope. Use existing evidence, perform only completion-critical actions,'',
      ''and finish with an explicit blocked/unverified result if correctness cannot be established safely.''])"

definition adaptiveMaxOutputTokens :: "number \<Rightarrow> execution_strategy \<Rightarrow> number" where
  "adaptiveMaxOutputTokens configured strategy =
     (if strategy = Critical then min configured 1024
      else if strategy = Conservative then min configured 2048
      else configured)"

subsection \<open>Reflection\<close>

definition shouldReflect :: "agent_state \<Rightarrow> reflection_trigger \<Rightarrow> number \<Rightarrow> bool" where
  "shouldReflect s trigger interval =
     (if trigger = Stagnation \<or> trigger = Replan \<or> trigger = Verification then True
      else if rs_lastReflectionTrigger (ag_recovery s) = Some trigger \<and>
              rs_lastReflectionToolCalls (ag_recovery s) = bu_toolCalls (rb_used (ag_budget s)) then False
      else if trigger = Completion then True
      else interval \<le> bu_toolCalls (rb_used (ag_budget s)) - rs_lastReflectionToolCalls (ag_recovery s))"

definition recommendationFor :: "reflection_trigger \<Rightarrow> execution_strategy \<Rightarrow> string" where
  "recommendationFor trigger strategy =
     (if strategy = Critical then ''Resolve only completion-critical gaps, then terminate explicitly.''
      else if trigger = Stagnation
      then ''Change the working hypothesis, gather one discriminating observation, or repair the failed step.''
      else if trigger = Verification
      then ''Fix only reproduced verification findings and refresh their evidence.''
      else if trigger = Replan
      then ''Preserve unaffected plan steps and revise the smallest failed unit.''
      else if trigger = Completion
      then ''Check evidence freshness and acceptance criteria before claiming completion.''
      else ''Compare progress with the plan, close the highest-risk evidence gap, and continue.'')"

definition completed_tasks :: "agent_state \<Rightarrow> number" where
  "completed_tasks s = count_where (\<lambda>t. tk_status t = Completed) (ag_tasks s)"

definition successful_calls :: "agent_state \<Rightarrow> number" where
  "successful_calls s = count_where tr_ok (obj_values (ag_toolResults s))"

definition evidence_gaps :: "agent_state \<Rightarrow> plan_health option \<Rightarrow> string list" where
  "evidence_gaps s assessment =
     (case ag_activePlan s of
        Some p \<Rightarrow> if ap_approved p \<and> ag_evidenceIds s = []
          then [''The approved plan has no recorded evidence receipts yet.''] else []
      | None \<Rightarrow> []) @
     (if ws_touchedFiles (ag_workspace s) \<noteq> [] \<and> ag_lastVerification s = None
      then [''Workspace changes have not received an independent verification verdict.''] else []) @
     (case assessment of
        None \<Rightarrow> []
      | Some a \<Rightarrow>
          (if hm_coveredCriteria (ph_metrics a) < hm_requiredCriteria (ph_metrics a)
           then [show_num (hm_requiredCriteria (ph_metrics a) - hm_coveredCriteria (ph_metrics a)) @
             '' required acceptance criteria lack usable evidence.''] else []) @
          (if hm_blockedTasks (ph_metrics a) \<noteq> 0
           then [show_num (hm_blockedTasks (ph_metrics a)) @
             '' blocked task(s) require an explicit resolution.''] else []))"

definition buildReflection ::
    "agent_state \<Rightarrow> string \<Rightarrow> string \<Rightarrow> reflection_trigger \<Rightarrow> string option \<Rightarrow> plan_health option \<Rightarrow>
     number option \<Rightarrow> reflection_record" where
  "buildReflection s rid createdAt trigger detail assessment evaluationWindow =
     (let assumptions =
            [(case ag_activePlan s of
                Some p \<Rightarrow> ''Active plan '' @ ap_planId p @ ''@'' @ show_num (ap_version p) @ '' is '' @
                  (if ap_approved p then ''approved.'' else ''not approved.'')
              | None \<Rightarrow> ''No active persisted plan is assumed.''),
             show_num (rs_consecutiveFailures (ag_recovery s)) @
               '' consecutive failed tool batches are currently tracked.''];
          touched = of_nat (length (ws_touchedFiles (ag_workspace s)));
          total = of_nat (length (ag_tasks s));
          receipts = of_nat (length (ag_evidenceIds s))
      in \<lparr>rf_id = rid, rf_trigger = trigger, rf_createdAt = createdAt,
          rf_summary = (case detail of
              Some d \<Rightarrow> d
            | None \<Rightarrow> show_num (completed_tasks s) @ ''/'' @ show_num total @ '' tasks completed; '' @
                show_num touched @ '' files touched; '' @ show_num receipts @ '' evidence receipts recorded.''),
          rf_assumptions = assumptions,
          rf_progress =
            \<lparr>rp_completedTasks = completed_tasks s, rp_totalTasks = total, rp_touchedFiles = touched,
             rp_toolCalls = bu_toolCalls (rb_used (ag_budget s)),
             rp_evidenceReceipts = Some receipts, rp_successfulToolCalls = Some (successful_calls s)\<rparr>,
          rf_evidenceGaps = evidence_gaps s assessment,
          rf_recommendation = (case assessment of
              Some a \<Rightarrow> action_text (sd_action (ph_decision a)) @ '': '' @ sd_rationale (ph_decision a)
            | None \<Rightarrow> recommendationFor trigger (rs_executionStrategy (ag_recovery s))),
          rf_decision = (case assessment of
              None \<Rightarrow> None
            | Some a \<Rightarrow> Some \<lparr>rd_decision = ph_decision a,
                rd_evaluateAfterToolCalls = max 1 (case evaluationWindow of None \<Rightarrow> 3 | Some w \<Rightarrow> w)\<rparr>),
          rf_calibration = None\<rparr>)"

definition renderReflection :: "reflection_record \<Rightarrow> string" where
  "renderReflection r = js_join [CHR 0x0A]
     ([''[ENGINE REFLECTION: '' @ trigger_text (rf_trigger r) @ '']'',
       ''Summary: '' @ rf_summary r,
       ''Assumptions: '' @ js_join '' '' (rf_assumptions r),
       ''Evidence gaps: '' @ (if rf_evidenceGaps r \<noteq> [] then js_join '' '' (rf_evidenceGaps r)
                              else ''none identified''),
       ''Next strategy: '' @ rf_recommendation r] @
      (case rf_decision r of
         None \<Rightarrow> []
       | Some d \<Rightarrow> [''Success signals: '' @ js_join ''; '' (sd_successSignals (rd_decision d)) @
           ''. Evaluate after '' @ show_num (rd_evaluateAfterToolCalls d) @ '' tool call(s).'']) @
      [''Do not repeat an unchanged failing action; update the hypothesis or repair only the affected plan step.''])"

subsection \<open>Facts about the policy\<close>

lemma length_appendBounded: "length (appendBounded xs x) = min HISTORY_LIMIT (Suc (length xs))"
  by (simp add: appendBounded_def HISTORY_LIMIT_def length_slice_last)

lemma last_appendBounded: "last (appendBounded xs x) = x"
  by (simp add: appendBounded_def HISTORY_LIMIT_def slice_last_def)

lemma remainingRatio_bounds: "0 \<le> remainingRatio u m" "remainingRatio u m \<le> 1"
  by (simp_all add: remainingRatio_def)

end
