(* ===== verification/PathKey.thy ===== *)
theory PathKey
  imports CalibrationContract
begin

text \<open>
  The path algebra the program relies on: node:path on a POSIX host (\<open>resolve\<close>, \<open>relative\<close>,
  \<open>normalize\<close>, \<open>isAbsolute\<close>) at the level of segments, \<open>workspacePathKey\<close>
  (workspace/pathKey.ts) and the static and symlink-aware path policy (policy/pathPolicy.ts).
\<close>

subsection \<open>node:path\<close>

definition is_absolute :: "string \<Rightarrow> bool" where
  "is_absolute p \<longleftrightarrow> starts_with p ''/''"

definition path_segments :: "string \<Rightarrow> string list" where
  "path_segments p = filter (\<lambda>s. s \<noteq> []) (split_char (CHR ''/'') p)"

text \<open>Dot segments are resolved on a stack; \<open>..\<close> at the root is dropped.\<close>

fun norm_segments :: "string list \<Rightarrow> string list \<Rightarrow> string list" where
  "norm_segments st [] = rev st"
| "norm_segments st (s # ss) =
     (if s = ''.'' then norm_segments st ss
      else if s = ''..'' then norm_segments (tl st) ss
      else norm_segments (s # st) ss)"

definition resolve_under :: "string list \<Rightarrow> string \<Rightarrow> string list" where
  "resolve_under base p =
     norm_segments [] (if is_absolute p then path_segments p else base @ path_segments p)"

definition resolve_path :: "host \<Rightarrow> string \<Rightarrow> string list" where
  "resolve_path H p = resolve_under (norm_segments [] (path_segments (h_cwd H))) p"

definition abs_text :: "string list \<Rightarrow> string" where
  "abs_text ss = CHR ''/'' # js_join ''/'' ss"

fun relative_segments :: "string list \<Rightarrow> string list \<Rightarrow> string list" where
  "relative_segments (a # as) (b # bs) =
     (if a = b then relative_segments as bs else replicate (Suc (length as)) ''..'' @ b # bs)"
| "relative_segments as bs = replicate (length as) ''..'' @ bs"

definition relative_text :: "string list \<Rightarrow> string list \<Rightarrow> string" where
  "relative_text src dst = js_join ''/'' (relative_segments src dst)"

definition normalize_abs :: "string \<Rightarrow> string" where
  "normalize_abs p =
     (let ss = norm_segments [] (path_segments p)
      in abs_text ss @ (if ends_with p ''/'' \<and> ss \<noteq> [] then ''/'' else []))"

subsection \<open>workspacePathKey\<close>

definition workspacePathKey :: "host \<Rightarrow> string \<Rightarrow> string \<Rightarrow> string res" where
  "workspacePathKey H workspaceRoot path =
     (let rt = resolve_path H workspaceRoot;
          absolute = resolve_under rt path;
          rel = relative_text rt absolute
      in if length rel = 0 \<or> is_absolute rel \<or> rel = ''..'' \<or> starts_with rel ''../''
         then Inl (JsError (''path is not a workspace file: '' @ path))
         else Inr rel)"

subsection \<open>Path policy\<close>

datatype path_reason = Outside_workspace | Sensitive_path | Invalid_path | Symlink_escape

record path_check =
  pc_ok :: bool
  pc_resolved :: string
  pc_reason :: "path_reason option"

definition SENSITIVE_SEGMENTS :: "string list" where
  "SENSITIVE_SEGMENTS =
     [''.git'', ''.hg'', ''.agent'', ''.ssh'', ''.aws'', ''.gnupg'', ''.npmrc'', ''.pypirc'']"

definition SENSITIVE_FILES :: "string list" where
  "SENSITIVE_FILES = [''.bashrc'', ''.zshrc'', ''.profile'', ''.bash_profile'']"

definition path_fail :: "string \<Rightarrow> path_reason \<Rightarrow> path_check" where
  "path_fail resolved why = \<lparr>pc_ok = False, pc_resolved = resolved, pc_reason = Some why\<rparr>"

definition resolved_text :: "string list \<Rightarrow> string \<Rightarrow> string" where
  "resolved_text rt rawPath =
     (if is_absolute rawPath then normalize_abs rawPath else abs_text (resolve_under rt rawPath))"

definition checkReadPath :: "host \<Rightarrow> string \<Rightarrow> string \<Rightarrow> path_check" where
  "checkReadPath H rawPath workspaceRoot =
     (if rawPath = [] \<or> CHR 0x00 \<in> set rawPath then path_fail rawPath Invalid_path
      else let rt = resolve_path H workspaceRoot;
               resolved = resolved_text rt rawPath;
               rel = relative_text rt (resolve_path H resolved)
           in if starts_with rel ''..'' \<or> is_absolute rel then path_fail resolved Outside_workspace
              else \<lparr>pc_ok = True, pc_resolved = resolved, pc_reason = None\<rparr>)"

definition checkPath :: "host \<Rightarrow> string \<Rightarrow> string \<Rightarrow> path_check" where
  "checkPath H rawPath workspaceRoot =
     (if rawPath = [] \<or> CHR 0x00 \<in> set rawPath then path_fail rawPath Invalid_path
      else let rt = resolve_path H workspaceRoot;
               resolved = resolved_text rt rawPath;
               rel = relative_text rt (resolve_path H resolved)
           in if starts_with rel ''..'' \<or> is_absolute rel then path_fail resolved Outside_workspace
              else let segments = path_segments rel
                   in if list_ex (\<lambda>s. to_lower s \<in> set SENSITIVE_SEGMENTS) segments
                      then path_fail resolved Sensitive_path
                      else if segments \<noteq> [] \<and> to_lower (last segments) \<in> set SENSITIVE_FILES
                      then path_fail resolved Sensitive_path
                      else \<lparr>pc_ok = True, pc_resolved = resolved, pc_reason = None\<rparr>)"

text \<open>
  The parent of a probe: \<open>probe.slice(0, probe.lastIndexOf('/'))\<close>. With no separator
  \<open>lastIndexOf\<close> gives -1 and the slice drops the last character.
\<close>

definition probe_parent :: "string \<Rightarrow> string" where
  "probe_parent p =
     (if CHR ''/'' \<in> set p then rev (tl (dropWhile (\<lambda>c. c \<noteq> CHR ''/'') (rev p))) else butlast p)"

lemma length_probe_parent: "p \<noteq> [] \<Longrightarrow> length (probe_parent p) < length p"
proof -
  assume p: "p \<noteq> []"
  have "length (dropWhile (\<lambda>c. c \<noteq> CHR ''/'') (rev p)) \<le> length p"
    using length_dropWhile_le [of "\<lambda>c. c \<noteq> CHR ''/''" "rev p"] by simp
  moreover have "dropWhile (\<lambda>c. c \<noteq> CHR ''/'') (rev p) \<noteq> []" if "CHR ''/'' \<in> set p"
    using that by (auto simp: dropWhile_eq_Nil_conv)
  ultimately show ?thesis using p by (cases p) (auto simp: probe_parent_def)
qed

text \<open>The nearest existing ancestor, by the host's \<open>realpath\<close>.\<close>

function nearest_ancestor :: "(string \<Rightarrow> string option) \<Rightarrow> string \<Rightarrow> string option" where
  "nearest_ancestor realpath probe =
     (if probe = [] then None
      else (case realpath probe of
              Some r \<Rightarrow> Some r
            | None \<Rightarrow> (let parent = probe_parent probe
                       in if parent = [] \<or> parent = probe then None
                          else nearest_ancestor realpath parent)))"
  by pat_completeness auto
termination
  by (relation "measure (\<lambda>(_, p). length p)") (auto simp: length_probe_parent)

declare nearest_ancestor.simps [simp del]

definition checkPathReal ::
    "host \<Rightarrow> (string \<Rightarrow> string option) \<Rightarrow> string \<Rightarrow> string \<Rightarrow> bool \<Rightarrow> path_check" where
  "checkPathReal H realpath rawPath workspaceRoot read =
     (let staticCheck = (if read then checkReadPath H rawPath workspaceRoot
                         else checkPath H rawPath workspaceRoot)
      in if \<not> pc_ok staticCheck then staticCheck
         else let rt = abs_text (resolve_path H workspaceRoot)
              in (case realpath rt of
                    None \<Rightarrow> staticCheck
                  | Some realRoot \<Rightarrow>
                      (let target = (case nearest_ancestor realpath (pc_resolved staticCheck) of
                                       None \<Rightarrow> pc_resolved staticCheck
                                     | Some realAncestor \<Rightarrow> realAncestor);
                           rel = relative_text (resolve_path H realRoot) (resolve_path H target)
                       in if starts_with rel ''..'' \<or> is_absolute rel
                          then path_fail (pc_resolved staticCheck) Symlink_escape
                          else staticCheck)))"

subsection \<open>Segments\<close>

definition plain_segment :: "string \<Rightarrow> bool" where
  "plain_segment s \<longleftrightarrow> s \<noteq> [] \<and> CHR ''/'' \<notin> set s"

definition clean_segment :: "string \<Rightarrow> bool" where
  "clean_segment s \<longleftrightarrow> plain_segment s \<and> s \<noteq> ''.'' \<and> s \<noteq> ''..''"

lemma split_char_no_sep: "s \<in> set (split_char c p) \<Longrightarrow> c \<notin> set s"
  by (induction c p arbitrary: s rule: split_char.induct) (auto split: list.splits if_splits)

lemma plain_path_segments [simp]: "list_all plain_segment (path_segments p)"
  by (auto simp: path_segments_def list_all_iff plain_segment_def dest: split_char_no_sep)

lemma split_char_single: "c \<notin> set s \<Longrightarrow> split_char c s = [s]"
  by (induction s) auto

lemma split_char_append: "c \<notin> set s \<Longrightarrow> split_char c (s @ c # t) = s # split_char c t"
  by (induction s) auto

lemma split_char_join:
  "ss \<noteq> [] \<Longrightarrow> (\<forall>s \<in> set ss. c \<notin> set s) \<Longrightarrow> split_char c (js_join [c] ss) = ss"
  by (induction "[c]" ss rule: js_join.induct) (auto simp: split_char_single split_char_append)

lemma path_segments_join [simp]: "list_all plain_segment ss \<Longrightarrow> path_segments (js_join ''/'' ss) = ss"
  by (cases "ss = []") (auto simp: path_segments_def split_char_join list_all_iff plain_segment_def)

lemma path_segments_abs [simp]: "list_all plain_segment ss \<Longrightarrow> path_segments (abs_text ss) = ss"
  using path_segments_join [of ss] by (simp add: abs_text_def path_segments_def)

lemma is_absolute_abs_text [simp]: "is_absolute (abs_text ss)"
  by (simp add: abs_text_def is_absolute_def starts_with_def)

lemma norm_segments_clean:
  "list_all clean_segment st \<Longrightarrow> list_all plain_segment ss \<Longrightarrow> list_all clean_segment (norm_segments st ss)"
proof (induction st ss rule: norm_segments.induct)
  case (2 st s ss)
  then show ?case
    by (cases st) (auto simp: clean_segment_def)
qed (simp add: list_all_rev)

lemma norm_segments_id: "list_all clean_segment ss \<Longrightarrow> norm_segments st ss = rev st @ ss"
  by (induction st ss rule: norm_segments.induct) (auto simp: clean_segment_def)

lemma norm_segments_append: "norm_segments st (xs @ ys) = norm_segments (rev (norm_segments st xs)) ys"
  by (induction st xs rule: norm_segments.induct) auto

lemma clean_plain: "list_all clean_segment ss \<Longrightarrow> list_all plain_segment ss"
  by (auto simp: list_all_iff clean_segment_def)

lemma resolve_under_clean: "list_all clean_segment base \<Longrightarrow> list_all clean_segment (resolve_under base p)"
  unfolding resolve_under_def by (rule norm_segments_clean) (auto simp: clean_plain)

lemma resolve_path_clean [simp]: "list_all clean_segment (resolve_path H p)"
  unfolding resolve_path_def by (intro resolve_under_clean norm_segments_clean) simp_all

text \<open>Going back from a resolved path to text and resolving again changes nothing.\<close>

lemma resolve_path_abs_text [simp]: "list_all clean_segment ss \<Longrightarrow> resolve_path H (abs_text ss) = ss"
  by (simp add: resolve_path_def resolve_under_def clean_plain norm_segments_id)

lemma relative_segments_prefix [simp]: "relative_segments rt (rt @ rest) = rest"
  by (induction rt) (cases rest, simp_all)

lemma relative_segments_cases:
  obtains (inside) rest where "dst = src @ rest" "relative_segments src dst = rest"
  | (outside) n rest where "relative_segments src dst = ''..'' # replicate n ''..'' @ rest"
proof -
  have "(\<exists>rest. dst = src @ rest \<and> relative_segments src dst = rest) \<or>
        (\<exists>n rest. relative_segments src dst = ''..'' # replicate n ''..'' @ rest)"
  proof (induction src arbitrary: dst)
    case (Cons a as)
    have away: "relative_segments (a # as) [] = ''..'' # replicate (length as) ''..'' @ []"
      "a \<noteq> b \<Longrightarrow> relative_segments (a # as) (b # bs) = ''..'' # replicate (length as) ''..'' @ (b # bs)"
      for b :: string and bs
      by simp_all
    show ?case
    proof (cases dst)
      case Nil
      then show ?thesis using away(1) by blast
    next
      case (Cons b bs)
      show ?thesis
      proof (cases "a = b")
        case True
        then show ?thesis using Cons.IH [of bs] Cons by auto
      next
        case False
        then show ?thesis using away(2) [OF False, of bs] Cons by blast
      qed
    qed
  qed simp
  then show ?thesis using inside outside by blast
qed

lemma js_join_Cons: "js_join sep (x # xs) = x @ (if xs = [] then [] else sep @ js_join sep xs)"
  by (cases xs) auto

lemma relative_dotdot:
  "relative_segments src dst = ''..'' # xs \<Longrightarrow>
   relative_text src dst = ''..'' \<or> starts_with (relative_text src dst) ''../''"
  by (auto simp: relative_text_def js_join_Cons starts_with_def)

lemma js_join_eq_Nil: "list_all plain_segment ss \<Longrightarrow> js_join ''/'' ss = [] \<longleftrightarrow> ss = []"
  by (cases ss) (auto simp: js_join_Cons plain_segment_def)

lemma js_join_not_absolute: "list_all plain_segment ss \<Longrightarrow> \<not> is_absolute (js_join ''/'' ss)"
proof (cases ss)
  case (Cons s ss')
  assume "list_all plain_segment ss"
  then show ?thesis using Cons by (cases s) (auto simp: js_join_Cons plain_segment_def is_absolute_def starts_with_def)
qed (simp add: is_absolute_def starts_with_def)

lemma js_join_no_dotdot:
  assumes "list_all clean_segment ss"
  shows "js_join ''/'' ss \<noteq> ''..''" "\<not> starts_with (js_join ''/'' ss) ''../''"
proof -
  have ps: "path_segments (js_join ''/'' ss) = ss"
    using assms by (simp add: clean_plain)
  show "js_join ''/'' ss \<noteq> ''..''"
  proof
    assume "js_join ''/'' ss = ''..''"
    then have "ss = path_segments ''..''" using ps by simp
    then show False using assms by (simp add: path_segments_def clean_segment_def)
  qed
  show "\<not> starts_with (js_join ''/'' ss) ''../''"
  proof
    assume "starts_with (js_join ''/'' ss) ''../''"
    then obtain r where "js_join ''/'' ss = ''../'' @ r" by (auto simp: starts_with_iff)
    then have "ss = path_segments (''..'' @ CHR ''/'' # r)" using ps by simp
    then have "''..'' \<in> set ss" by (simp add: path_segments_def)
    then show False using assms by (auto simp: list_all_iff clean_segment_def)
  qed
qed

subsection \<open>Workspace keys are canonical\<close>

text \<open>
  A key exists exactly for the files strictly inside the workspace, and is the text of their
  segments below the root.
\<close>

lemma workspacePathKey_iff:
  "workspacePathKey H wsroot p = Inr k \<longleftrightarrow>
   (\<exists>rest. rest \<noteq> [] \<and> resolve_under (resolve_path H wsroot) p = resolve_path H wsroot @ rest \<and>
      list_all clean_segment rest \<and> k = js_join ''/'' rest)"
proof -
  let ?r = "resolve_path H wsroot"
  let ?a = "resolve_under ?r p"
  have clean: "list_all clean_segment ?a" by (simp add: resolve_under_clean)
  show ?thesis
  proof (cases rule: relative_segments_cases [of ?a ?r])
    case (inside rest)
    have c: "list_all clean_segment rest" using clean inside(1) by simp
    have "rest = rest'" if "?a = ?r @ rest'" for rest' using inside(1) that by simp
    then show ?thesis
      using inside c js_join_no_dotdot [OF c] js_join_not_absolute [OF clean_plain [OF c]]
        js_join_eq_Nil [OF clean_plain [OF c]]
      by (auto simp: workspacePathKey_def relative_text_def Let_def)
  next
    case (outside n rest)
    then have "\<nexists>rest'. ?a = ?r @ rest' \<and> list_all clean_segment rest'"
      by (auto simp: clean_segment_def)
    moreover have "workspacePathKey H wsroot p \<noteq> Inr k"
      using relative_dotdot [OF outside] by (auto simp: workspacePathKey_def Let_def)
    ultimately show ?thesis by blast
  qed
qed

lemma workspacePathKey_idem:
  assumes "workspacePathKey H wsroot p = Inr k"
  shows "workspacePathKey H wsroot k = Inr k"
proof -
  from assms obtain rest where r: "rest \<noteq> []" "list_all clean_segment rest" "k = js_join ''/'' rest"
    by (auto simp: workspacePathKey_iff)
  have "\<not> is_absolute k" using r js_join_not_absolute clean_plain by blast
  then have "resolve_under (resolve_path H wsroot) k = resolve_path H wsroot @ rest"
    using r by (simp add: resolve_under_def clean_plain norm_segments_id)
  then show ?thesis using r by (auto simp: workspacePathKey_iff)
qed

lemma workspacePathKey_not_Nil [simp]: "workspacePathKey H wsroot p \<noteq> Inr []"
  by (auto simp: workspacePathKey_def Let_def)

end
