(* ===== verification/Reducer.thy ===== *)
theory Reducer
  imports LoopIntelligence PathKey
begin

text \<open>
  The reducer of core/state.ts: the only place where fact events change the agent state. One
  definition per event, composed by \<open>reduce\<close>; a \<open>throw\<close> is a left value. \<open>applyFacts\<close> folds
  the reducer over a list of facts and stops at the first error, as the exception does.
\<close>

named_theorems handler_defs \<open>definitions of the event handlers\<close>

subsection \<open>Validation helpers\<close>

definition REFLECTION_TRIGGERS :: "reflection_trigger list" where
  "REFLECTION_TRIGGERS = [Periodic, Stagnation, Replan, Verification, Completion]"

definition validReflectionBaseline :: "agent_state \<Rightarrow> reflection_record \<Rightarrow> bool" where
  "validReflectionBaseline s r \<longleftrightarrow>
     (let p = rf_progress r; succ = successful_calls s;
          exact = (\<lambda>v n. is_non_negative_integer v \<and> v = n);
          optional = (\<lambda>v n. case v of
             Some w \<Rightarrow> exact w n
           | None \<Rightarrow> rf_decision r = None)
      in exact (rp_completedTasks p) (completed_tasks s) \<and>
         exact (rp_totalTasks p) (of_nat (length (ag_tasks s))) \<and>
         exact (rp_touchedFiles p) (of_nat (length (ws_touchedFiles (ag_workspace s)))) \<and>
         exact (rp_toolCalls p) (bu_toolCalls (rb_used (ag_budget s))) \<and>
         optional (rp_evidenceReceipts p) (of_nat (length (ag_evidenceIds s))) \<and>
         optional (rp_successfulToolCalls p) succ)"

definition expected_delta :: "number \<Rightarrow> number" where
  "expected_delta rate = (if 3 / 4 \<le> rate then 1 else if rate \<le> rnd64 (4 / 10) then -1 else 0)"

definition window_in_range :: "number \<Rightarrow> bool" where
  "window_in_range w \<longleftrightarrow> is_integer w \<and> 1 \<le> w \<and> w \<le> 20"

definition find_entry ::
    "calibration_profile \<Rightarrow> reflection_trigger \<Rightarrow> supervisor_action \<Rightarrow> calibration_entry option" where
  "find_entry p trigger action =
     find (\<lambda>e. oe_trigger e = trigger \<and> oe_action e = action) (pb_entries p)"

definition validReflectionCalibration :: "agent_state \<Rightarrow> reflection_record \<Rightarrow> bool" where
  "validReflectionCalibration s r =
     (case rf_calibration r of
        None \<Rightarrow> True
      | Some c \<Rightarrow>
          (case (rf_decision r, ag_selection s) of
             (Some d, Some sel) \<Rightarrow>
               rc_selectionHash c = sel_hash sel \<and> rc_profileHash c = op_hash (sel_profile sel) \<and>
               window_in_range (rc_baseWindow c) \<and> window_in_range (rc_calibratedWindow c) \<and>
               rc_delta c \<in> {-1, 0, 1} \<and>
               (case find_entry (sel_profile sel) (rf_trigger r) (sd_action (rd_decision d)) of
                  None \<Rightarrow> False
                | Some e \<Rightarrow>
                    pb_minSamples (sel_profile sel) \<le> oe_samples e \<and>
                    (let delta = expected_delta (oe_smoothedEffectiveness e);
                         window = max 1 (min 20 (rc_baseWindow c + delta))
                     in rc_delta c = delta \<and> rc_calibratedWindow c = window \<and>
                        rd_evaluateAfterToolCalls d = window))
           | _ \<Rightarrow> False))"

fun normalize_paths_from :: "host \<Rightarrow> string \<Rightarrow> string list \<Rightarrow> string list \<Rightarrow> string list res" where
  "normalize_paths_from H wsroot normalized [] = Inr normalized"
| "normalize_paths_from H wsroot normalized (c # cs) =
     (case workspacePathKey H wsroot c of
        Inl e \<Rightarrow> Inl (InvariantError ''workspace_change_outside_root'')
      | Inr p \<Rightarrow> normalize_paths_from H wsroot (push_unique normalized p) cs)"

definition normalizeWorkspacePaths :: "host \<Rightarrow> agent_state \<Rightarrow> string list \<Rightarrow> string list res" where
  "normalizeWorkspacePaths H s paths = normalize_paths_from H (ws_root (ag_workspace s)) [] paths"

definition bump_progress :: "agent_state \<Rightarrow> agent_state" where
  "bump_progress s =
     s\<lparr>ag_recovery := (ag_recovery s)
        \<lparr>rs_lastProgressToolCalls := bu_toolCalls (rb_used (ag_budget s)) + 1\<rparr>\<rparr>"

definition set_used :: "(budget_used \<Rightarrow> budget_used) \<Rightarrow> agent_state \<Rightarrow> agent_state" where
  "set_used f s = s\<lparr>ag_budget := (ag_budget s)\<lparr>rb_used := f (rb_used (ag_budget s))\<rparr>\<rparr>"

subsection \<open>Messages, model calls and tool calls\<close>

definition reduce_selection :: "host \<Rightarrow> agent_state \<Rightarrow> calibration_selection \<Rightarrow> agent_state res" where
  "reduce_selection H s sel =
     (if ag_selection s \<noteq> None then Inl (InvariantError ''outcome_calibration_duplicate_selection'')
      else if \<not> isOutcomeCalibrationSelection H sel
      then Inl (InvariantError ''outcome_calibration_invalid_selection'')
      else bind_res (freezeOutcomeCalibrationSelection H sel) (\<lambda>f. Inr (s\<lparr>ag_selection := Some f\<rparr>)))"

definition is_human :: "conversation_message \<Rightarrow> bool" where
  "is_human m \<longleftrightarrow> (case msg_meta m of Some meta \<Rightarrow> mm_source meta = Some Human | None \<Rightarrow> False)"

definition reduce_user_message :: "agent_state \<Rightarrow> conversation_message \<Rightarrow> agent_state" where
  "reduce_user_message s m =
     (let next = s\<lparr>ag_messages := ag_messages s @ [m]\<rparr>;
          next = (if is_human m \<and> (ag_phase s = Terminated_phase \<or> ag_lastVerification s \<noteq> None)
                  then next\<lparr>ag_lastTransition := Some User_followup\<rparr> else next)
      in (case ag_lastVerification s of
            None \<Rightarrow> next
          | Some lv \<Rightarrow>
              if \<not> is_human m then next
              else let attempt = max 1 (rs_verifierRepairs (ag_recovery s) + 1);
                       next = (if vr_verdict (lv_report lv) \<noteq> PASS
                               then next\<lparr>ag_pendingRepair := Some \<lparr>vp_attempt = attempt, vp_report = lv_report lv\<rparr>,
                                         ag_recovery := (ag_recovery s)\<lparr>rs_verifierRepairs := attempt\<rparr>\<rparr>
                               else next)
                   in next\<lparr>ag_lastVerification := None\<rparr>))"

definition reduce_message :: "agent_state \<Rightarrow> conversation_message \<Rightarrow> agent_state" where
  "reduce_message s m = s\<lparr>ag_messages := ag_messages s @ [m]\<rparr>"

definition reduce_assistant ::
    "agent_state \<Rightarrow> conversation_message \<Rightarrow> (number \<times> number) option \<Rightarrow> agent_state" where
  "reduce_assistant s m usage =
     set_used (\<lambda>u. u\<lparr>bu_modelCalls := bu_modelCalls u + 1,
                     bu_inputTokens := bu_inputTokens u + (case usage of Some (i, _) \<Rightarrow> i | None \<Rightarrow> 0),
                     bu_outputTokens := bu_outputTokens u + (case usage of Some (_, oo) \<Rightarrow> oo | None \<Rightarrow> 0)\<rparr>)
       (s\<lparr>ag_messages := ag_messages s @ [m]\<rparr>)"

definition reduce_attempt_failed :: "agent_state \<Rightarrow> model_attempt_failure \<Rightarrow> agent_state" where
  "reduce_attempt_failed s f =
     set_used (\<lambda>u. u\<lparr>bu_modelCalls := bu_modelCalls u + 1\<rparr>)
       (s\<lparr>ag_recovery := (ag_recovery s)\<lparr>rs_modelRetries := rs_modelRetries (ag_recovery s) +
            (if mf_action f = Retry_action then 1 else 0)\<rparr>\<rparr>)"

definition reduce_call_accepted :: "host \<Rightarrow> agent_state \<Rightarrow> tool_call \<Rightarrow> agent_state res" where
  "reduce_call_accepted H s call =
     (let recovery = (ag_recovery s)\<lparr>rs_recentToolFingerprints :=
            appendBounded (rs_recentToolFingerprints (ag_recovery s))
              (fingerprintToolCall H (tc_name call) (tc_input call))\<rparr>
      in if list_ex (\<lambda>c. tc_id c = tc_id call) (ag_pendingToolCalls s)
         then Inl (InvariantError ''unique_tool_call_id'')
         else if obj_defined (ag_toolResults s) (tc_id call)
         then Inr (s\<lparr>ag_pendingToolCalls := ag_pendingToolCalls s @ [call],
                     ag_toolResults := obj_delete (ag_toolResults s) (tc_id call),
                     ag_recovery := recovery\<rparr>)
         else Inr (s\<lparr>ag_pendingToolCalls := ag_pendingToolCalls s @ [call], ag_recovery := recovery\<rparr>))"

definition reduce_call_completed :: "agent_state \<Rightarrow> tool_call_result \<Rightarrow> agent_state res" where
  "reduce_call_completed s r =
     (if obj_defined (ag_toolResults s) (tr_callId r)
      then Inl (InvariantError ''single_terminal_tool_result'')
      else Inr (set_used (\<lambda>u. u\<lparr>bu_toolCalls := bu_toolCalls u + 1\<rparr>)
        (s\<lparr>ag_pendingToolCalls := filter (\<lambda>c. tc_id c \<noteq> tr_callId r) (ag_pendingToolCalls s),
           ag_toolResults := obj_set (ag_toolResults s) (tr_callId r) r,
           ag_recovery := (ag_recovery s)\<lparr>rs_recentOutcomeSignatures :=
             appendBounded (rs_recentOutcomeSignatures (ag_recovery s))
               (toolOutcomeSignature (tr_toolName r) (tr_ok r) (tr_errorCode r))\<rparr>\<rparr>)))"

subsection \<open>Plans and replanning\<close>

definition reduce_plan_created :: "agent_state \<Rightarrow> plan_version \<Rightarrow> agent_state" where
  "reduce_plan_created s p =
     bump_progress (s\<lparr>ag_activePlan :=
       Some \<lparr>ap_planId = pl_planId p, ap_version = pl_version p, ap_approved = (pl_status p = Approved)\<rparr>\<rparr>)"

definition plan_is :: "active_plan option \<Rightarrow> string \<Rightarrow> number \<Rightarrow> bool" where
  "plan_is ap planId version \<longleftrightarrow>
     (case ap of Some p \<Rightarrow> ap_planId p = planId \<and> ap_version p = version | None \<Rightarrow> False)"

definition set_approved :: "bool \<Rightarrow> active_plan option \<Rightarrow> active_plan option" where
  "set_approved b = map_option (\<lambda>p. p\<lparr>ap_approved := b\<rparr>)"

definition reduce_plan_approved :: "agent_state \<Rightarrow> string \<Rightarrow> number \<Rightarrow> agent_state res" where
  "reduce_plan_approved s planId version =
     (if \<not> plan_is (ag_activePlan s) planId version
      then Inl (InvariantError ''plan_approval_version_binding'')
      else Inr (s\<lparr>ag_activePlan := set_approved True (ag_activePlan s),
                  ag_workspace := (ag_workspace s)\<lparr>ws_planScopedTouchedFiles := []\<rparr>,
                  ag_recovery := (ag_recovery s)
                    \<lparr>rs_replanning := False, rs_replanAwaitingApproval := False,
                     rs_ineffectiveReflectionCount := 0, rs_verifierRepairs := 0\<rparr>,
                  ag_lastVerification := None, ag_pendingRepair := None\<rparr>))"

definition reduce_replan_requested :: "agent_state \<Rightarrow> bool \<Rightarrow> agent_state" where
  "reduce_replan_requested s requiresReapproval =
     s\<lparr>ag_recovery := (ag_recovery s)
         \<lparr>rs_replanning := True, rs_replanAwaitingApproval := requiresReapproval,
          rs_replanCount := rs_replanCount (ag_recovery s) + 1, rs_verifierRepairs := 0,
          rs_consecutiveFailures := 0, rs_versionConflicts := 0\<rparr>,
       ag_lastVerification := None, ag_pendingRepair := None\<rparr>"

definition reduce_adjustment :: "agent_state \<Rightarrow> agent_state res" where
  "reduce_adjustment s =
     (if \<not> rs_replanning (ag_recovery s) then Inl (InvariantError ''replan_adjustment_without_request'')
      else if rs_replanAwaitingApproval (ag_recovery s)
      then Inl (InvariantError ''replan_adjustment_on_reapproval'')
      else Inr (s\<lparr>ag_recovery := (ag_recovery s)\<lparr>rs_replanning := False\<rparr>\<rparr>))"

definition reduce_plan_status :: "agent_state \<Rightarrow> string \<Rightarrow> number \<Rightarrow> agent_state" where
  "reduce_plan_status s planId version =
     (if plan_is (ag_activePlan s) planId version
      then s\<lparr>ag_activePlan := set_approved False (ag_activePlan s)\<rparr> else s)"

subsection \<open>Stagnation, reflection and health\<close>

definition reduce_stagnation :: "agent_state \<Rightarrow> stagnation_record \<Rightarrow> agent_state" where
  "reduce_stagnation s r =
     s\<lparr>ag_recovery := (ag_recovery s)
         \<lparr>rs_stagnationCount := rs_stagnationCount (ag_recovery s) + 1,
          rs_lastStagnationSignature := Some (sg_signature r)\<rparr>\<rparr>"

definition valid_reflection_decision :: "reflection_decision \<Rightarrow> bool" where
  "valid_reflection_decision d \<longleftrightarrow>
     isSupervisorAction (sd_action (rd_decision d)) \<and> window_in_range (rd_evaluateAfterToolCalls d)"

definition reduce_reflection :: "agent_state \<Rightarrow> reflection_record \<Rightarrow> agent_state res" where
  "reduce_reflection s r =
     (if list_ex (\<lambda>i. rf_id i = rf_id r) (ag_reflections s)
      then Inl (InvariantError ''reflection_duplicate_id'')
      else if \<not> non_blank (rf_id r) \<or> rf_trigger r \<notin> set REFLECTION_TRIGGERS \<or>
              \<not> validReflectionBaseline s r \<or>
              (case rf_decision r of Some d \<Rightarrow> \<not> valid_reflection_decision d | None \<Rightarrow> False) \<or>
              \<not> validReflectionCalibration s r
      then Inl (InvariantError ''reflection_invalid_decision'')
      else Inr (s\<lparr>ag_reflections := slice_last 20 (ag_reflections s @ [r]),
                  ag_recovery := (ag_recovery s)
                    \<lparr>rs_reflectionCount := rs_reflectionCount (ag_recovery s) + 1,
                     rs_lastReflectionToolCalls := bu_toolCalls (rb_used (ag_budget s)),
                     rs_lastReflectionTrigger := Some (rf_trigger r)\<rparr>\<rparr>))"

definition or_zero :: "number option \<Rightarrow> number" where
  "or_zero v = (case v of None \<Rightarrow> 0 | Some n \<Rightarrow> n)"

definition fact_level_progress :: "agent_state \<Rightarrow> reflection_progress \<Rightarrow> bool" where
  "fact_level_progress s p \<longleftrightarrow>
     rp_completedTasks p < completed_tasks s \<or>
     or_zero (rp_evidenceReceipts p) < of_nat (length (ag_evidenceIds s)) \<or>
     (rp_toolCalls p < rs_lastProgressToolCalls (ag_recovery s) \<and>
      or_zero (rp_successfulToolCalls p) < successful_calls s)"

definition valid_evaluation ::
    "agent_state \<Rightarrow> reflection_record \<Rightarrow> reflection_decision \<Rightarrow> reflection_evaluation \<Rightarrow> bool" where
  "valid_evaluation s r d e \<longleftrightarrow>
     non_blank (re_id e) \<and> non_blank (re_reflectionId e) \<and>
     isSupervisorAction (sd_action (re_followUp e)) \<and>
     is_integer (re_toolCallsObserved e) \<and> 1 \<le> re_toolCallsObserved e \<and>
     re_toolCallsObserved e = bu_toolCalls (rb_used (ag_budget s)) - rp_toolCalls (rf_progress r) \<and>
     \<not> (re_outcome e = Effective \<and> re_progressSignals e = []) \<and>
     \<not> (re_outcome e = Ineffective \<and>
        (re_progressSignals e \<noteq> [] \<or> re_toolCallsObserved e < rd_evaluateAfterToolCalls d))"

definition reduce_evaluation :: "agent_state \<Rightarrow> reflection_evaluation \<Rightarrow> agent_state res" where
  "reduce_evaluation s e =
     (case find (\<lambda>i. rf_id i = re_reflectionId e) (ag_reflections s) of
        None \<Rightarrow> Inl (InvariantError ''reflection_evaluation_without_record'')
      | Some r \<Rightarrow>
          (case rf_decision r of
             None \<Rightarrow> Inl (InvariantError ''reflection_evaluation_without_record'')
           | Some d \<Rightarrow>
               if list_ex (\<lambda>i. re_id i = re_id e \<or> re_reflectionId i = re_reflectionId e)
                    (ag_reflectionEvaluations s)
               then Inl (InvariantError ''reflection_duplicate_evaluation'')
               else if \<not> valid_evaluation s r d e
               then Inl (InvariantError ''reflection_invalid_evaluation'')
               else if (re_outcome e = Effective \<and> \<not> fact_level_progress s (rf_progress r)) \<or>
                       (re_outcome e = Ineffective \<and> fact_level_progress s (rf_progress r))
               then Inl (InvariantError ''reflection_progress_mismatch'')
               else Inr (s\<lparr>ag_reflectionEvaluations := slice_last 20 (ag_reflectionEvaluations s @ [e]),
                           ag_recovery := (ag_recovery s)
                             \<lparr>rs_lastEvaluatedReflectionId := Some (re_reflectionId e),
                              rs_ineffectiveReflectionCount :=
                                (if re_outcome e = Effective then 0
                                 else rs_ineffectiveReflectionCount (ag_recovery s) + 1)\<rparr>\<rparr>)))"

definition reduce_plan_health :: "agent_state \<Rightarrow> plan_health \<Rightarrow> agent_state res" where
  "reduce_plan_health s a =
     (if \<not> isSupervisorAction (sd_action (ph_decision a))
      then Inl (InvariantError ''plan_health_unknown_action'')
      else Inr (s\<lparr>ag_latestPlanHealth := Some a\<rparr>))"

definition reduce_strategy :: "agent_state \<Rightarrow> execution_strategy \<Rightarrow> agent_state" where
  "reduce_strategy s strategy =
     s\<lparr>ag_recovery := (ag_recovery s)\<lparr>rs_executionStrategy := strategy\<rparr>\<rparr>"

subsection \<open>Tasks, evidence and verification\<close>

definition reduce_task :: "agent_state \<Rightarrow> plan_task \<Rightarrow> agent_state" where
  "reduce_task s t =
     bump_progress (s\<lparr>ag_tasks :=
       (if list_ex (\<lambda>u. tk_id u = tk_id t) (ag_tasks s)
        then map (\<lambda>u. if tk_id u = tk_id t then t else u) (ag_tasks s)
        else ag_tasks s @ [t])\<rparr>)"

definition reduce_evidence :: "agent_state \<Rightarrow> evidence_receipt \<Rightarrow> agent_state" where
  "reduce_evidence s r = bump_progress (s\<lparr>ag_evidenceIds := ag_evidenceIds s @ [er_id r]\<rparr>)"

definition reduce_verification ::
    "agent_state \<Rightarrow> verification_report \<Rightarrow> bool \<Rightarrow> number option \<Rightarrow> agent_state res" where
  "reduce_verification s report valid repairAttempt =
     (if vr_verdict report = PASS \<and> \<not> valid then Inl (InvariantError ''verification_invalid_pass'')
      else (case repairAttempt of
        Some attempt \<Rightarrow>
          if vr_verdict report \<noteq> FAIL \<or> \<not> is_integer attempt \<or> attempt < 1
          then Inl (InvariantError ''verification_repair_invalid'')
          else Inr (s\<lparr>ag_pendingRepair := Some \<lparr>vp_attempt = attempt, vp_report = report\<rparr>,
                      ag_recovery := (ag_recovery s)
                        \<lparr>rs_verifierRepairs := max (rs_verifierRepairs (ag_recovery s)) attempt\<rparr>,
                      ag_lastVerification := None\<rparr>)
      | None \<Rightarrow>
          Inr (s\<lparr>ag_lastVerification := Some \<lparr>lv_report = report, lv_valid = valid\<rparr>,
                 ag_recovery := (ag_recovery s)
                   \<lparr>rs_verifierRepairs :=
                      (if vr_verdict report = PASS then 0 else rs_verifierRepairs (ag_recovery s))\<rparr>,
                 ag_pendingRepair := None\<rparr>)))"

subsection \<open>Mode, context and transitions\<close>

definition reduce_mode :: "agent_state \<Rightarrow> agent_mode \<Rightarrow> agent_mode \<Rightarrow> agent_state" where
  "reduce_mode s src dst =
     (let target = (if src = Plan_mode \<and> dst \<noteq> Plan_mode
                    then (case ag_prePlanMode s of Some m \<Rightarrow> m | None \<Rightarrow> dst) else dst);
          next = s\<lparr>ag_mode := target\<rparr>;
          next = (if dst = Plan_mode \<and> src \<noteq> Plan_mode then next\<lparr>ag_prePlanMode := Some src\<rparr> else next)
      in if src = Plan_mode \<and> dst \<noteq> Plan_mode then next\<lparr>ag_prePlanMode := None\<rparr> else next)"

fun compact_messages ::
    "string list \<Rightarrow> conversation_message list \<Rightarrow> bool \<Rightarrow> conversation_message list \<Rightarrow>
     conversation_message list" where
  "compact_messages cleared replacements inserted [] =
     (if \<not> inserted \<and> replacements \<noteq> [] then replacements else [])"
| "compact_messages cleared replacements inserted (m # ms) =
     (if msg_id m \<in> set cleared
      then (if inserted then [] else replacements) @ compact_messages cleared replacements True ms
      else m # compact_messages cleared replacements inserted ms)"

definition reduce_compacted :: "agent_state \<Rightarrow> compact_record \<Rightarrow> agent_state" where
  "reduce_compacted s r =
     s\<lparr>ag_messages := compact_messages (cr_clearedMessageIds r)
         (case cr_replacements r of None \<Rightarrow> [] | Some ms \<Rightarrow> ms) False (ag_messages s)\<rparr>"

definition batch_results :: "agent_state \<Rightarrow> nat \<Rightarrow> tool_call_result list" where
  "batch_results s callCount = slice_last callCount (obj_values (ag_toolResults s))"

definition reduce_transition :: "agent_state \<Rightarrow> continue_transition \<Rightarrow> agent_state" where
  "reduce_transition s t =
     (let s' = s\<lparr>ag_iteration := ag_iteration s + 1, ag_lastTransition := Some t\<rparr>
      in (case t of
            Tool_results_ready callCount \<Rightarrow>
              (let results = batch_results s callCount;
                   allFailed = (results \<noteq> [] \<and> list_all (\<lambda>r. \<not> tr_ok r) results);
                   conflicts = count_where (\<lambda>r. tr_errorCode r = Some ''FILE_VERSION_CONFLICT'') results
               in s'\<lparr>ag_recovery := (ag_recovery s)
                       \<lparr>rs_consecutiveFailures :=
                          (if allFailed then rs_consecutiveFailures (ag_recovery s) + 1 else 0),
                        rs_versionConflicts := rs_versionConflicts (ag_recovery s) + conflicts\<rparr>\<rparr>)
          | _ \<Rightarrow> s'))"

definition closes_request :: "terminal_reason \<Rightarrow> bool" where
  "closes_request t =
     (case t of Completed_run \<Rightarrow> True | Completed_with_unverified_items _ \<Rightarrow> True | _ \<Rightarrow> False)"

definition reduce_terminated :: "agent_state \<Rightarrow> terminal_reason \<Rightarrow> agent_state" where
  "reduce_terminated s t =
     (let s' = s\<lparr>ag_phase := Terminated_phase\<rparr>
      in if closes_request t
         then s'\<lparr>ag_workspace := (ag_workspace s)\<lparr>ws_pendingVerification := None\<rparr>\<rparr> else s')"

subsection \<open>The workspace\<close>

definition pending_sources :: "pending_verification option \<Rightarrow> mutation_source list" where
  "pending_sources p = (case p of None \<Rightarrow> [] | Some v \<Rightarrow> pv_sources v)"

definition pending_paths :: "pending_verification option \<Rightarrow> string list" where
  "pending_paths p = (case p of None \<Rightarrow> [] | Some v \<Rightarrow> pv_changedPaths v)"

definition opened_at :: "agent_state \<Rightarrow> string" where
  "opened_at s = (case ws_pendingVerification (ag_workspace s) of
     None \<Rightarrow> ag_turnId s | Some v \<Rightarrow> pv_openedAtTurnId v)"

definition invalid_mutation :: "mutation_started \<Rightarrow> bool" where
  "invalid_mutation e \<longleftrightarrow>
     \<not> non_blank (mst_mutationId e) \<or> \<not> non_blank (mst_callId e) \<or> \<not> non_blank (mst_toolName e) \<or>
     (mst_scope e \<noteq> Paths_scope \<and> mst_scope e \<noteq> Workspace_scope) \<or>
     (mst_scope e = Paths_scope \<and> mst_paths e = [])"

definition mutation_pending ::
    "agent_state \<Rightarrow> mutation_started \<Rightarrow> string list \<Rightarrow> pending_verification" where
  "mutation_pending s e paths =
     (let prior = ws_pendingVerification (ag_workspace s)
      in \<lparr>pv_revision = ws_revision (ag_workspace s) + 1, pv_openedAtTurnId = opened_at s,
          pv_scope = (if (\<exists>v \<in> set_option prior. pv_scope v = Workspace_scope) \<or>
                         mst_scope e = Workspace_scope then Workspace_scope else Paths_scope),
          pv_changedPaths = pending_paths prior @ filter (\<lambda>p. p \<notin> set (pending_paths prior)) paths,
          pv_sources = pending_sources prior @
            [\<lparr>ms_mutationId = mst_mutationId e, ms_callId = mst_callId e, ms_toolName = mst_toolName e,
              ms_outcome = Unknown_outcome, ms_reason = mst_reason e\<rparr>]\<rparr>)"

definition reduce_mutation_started :: "host \<Rightarrow> agent_state \<Rightarrow> mutation_started \<Rightarrow> agent_state res" where
  "reduce_mutation_started H s e =
     (if invalid_mutation e then Inl (InvariantError ''workspace_mutation_invalid'')
      else if list_ex (\<lambda>m. ms_mutationId m = mst_mutationId e)
                (pending_sources (ws_pendingVerification (ag_workspace s)))
      then Inl (InvariantError ''workspace_mutation_duplicate'')
      else bind_res (normalizeWorkspacePaths H s (mst_paths e)) (\<lambda>paths.
        Inr (s\<lparr>ag_workspace := (ag_workspace s)
                  \<lparr>ws_revision := ws_revision (ag_workspace s) + 1,
                   ws_pendingVerification := Some (mutation_pending s e paths)\<rparr>,
                ag_lastVerification := None\<rparr>)))"

fun update_first :: "('a \<Rightarrow> bool) \<Rightarrow> ('a \<Rightarrow> 'a) \<Rightarrow> 'a list \<Rightarrow> 'a list" where
  "update_first P f [] = []"
| "update_first P f (x # xs) = (if P x then f x # xs else x # update_first P f xs)"

definition prepared_source :: "agent_state \<Rightarrow> workspace_change \<Rightarrow> bool" where
  "prepared_source s e \<longleftrightarrow>
     (case wc_mutationId e of
        None \<Rightarrow> False
      | Some m \<Rightarrow> m \<noteq> [] \<and>
          list_ex (\<lambda>src. ms_mutationId src = m) (pending_sources (ws_pendingVerification (ag_workspace s))))"

definition legacy_mutation_id :: "workspace_change \<Rightarrow> string \<Rightarrow> number \<Rightarrow> string" where
  "legacy_mutation_id e path revision =
     (case wc_mutationId e of
        Some m \<Rightarrow> m
      | None \<Rightarrow> ''legacy:'' @
          (case wc_callId e of
             Some c \<Rightarrow> c
           | None \<Rightarrow> (case wc_toolName e of Some n \<Rightarrow> n | None \<Rightarrow> path)) @ '':'' @ show_num revision)"

definition prepared_pending :: "workspace_change \<Rightarrow> string \<Rightarrow> pending_verification \<Rightarrow> pending_verification" where
  "prepared_pending e path v = v
     \<lparr>pv_changedPaths := push_unique (pv_changedPaths v) path,
      pv_sources := update_first (\<lambda>src. Some (ms_mutationId src) = wc_mutationId e)
        (\<lambda>src. src\<lparr>ms_outcome := Changed_outcome\<rparr>) (pv_sources v)\<rparr>"

definition legacy_pending :: "agent_state \<Rightarrow> workspace_change \<Rightarrow> string \<Rightarrow> pending_verification" where
  "legacy_pending s e path =
     (let prior = ws_pendingVerification (ag_workspace s); revision = ws_revision (ag_workspace s) + 1
      in \<lparr>pv_revision = revision, pv_openedAtTurnId = opened_at s,
          pv_scope = (case prior of None \<Rightarrow> Paths_scope | Some v \<Rightarrow> pv_scope v),
          pv_changedPaths = push_unique (pending_paths prior) path,
          pv_sources = pending_sources prior @
            [\<lparr>ms_mutationId = legacy_mutation_id e path revision,
              ms_callId = (case wc_callId e of None \<Rightarrow> ''legacy'' | Some c \<Rightarrow> c),
              ms_toolName = (case wc_toolName e of None \<Rightarrow> ''unknown'' | Some n \<Rightarrow> n),
              ms_outcome = Changed_outcome,
              ms_reason = ''workspace.changed was observed without a prepared obligation''\<rparr>]\<rparr>)"

definition observe_change :: "agent_state \<Rightarrow> workspace_change \<Rightarrow> string \<Rightarrow> workspace_state" where
  "observe_change s e path =
     (let w = ag_workspace s
      in if prepared_source s e
         then w\<lparr>ws_pendingVerification := map_option (prepared_pending e path) (ws_pendingVerification w)\<rparr>
         else w\<lparr>ws_revision := ws_revision w + 1,
                ws_pendingVerification := Some (legacy_pending s e path)\<rparr>)"

definition track_change :: "file_change \<Rightarrow> string \<Rightarrow> workspace_state \<Rightarrow> workspace_state" where
  "track_change change path w =
     (let w' = w\<lparr>ws_touchedFiles := push_unique (ws_touchedFiles w) path,
                 ws_planScopedTouchedFiles := push_unique (ws_planScopedTouchedFiles w) path\<rparr>
      in (case change of
            Created \<Rightarrow> w'\<lparr>ws_createdFiles := push_unique (ws_createdFiles w) path,
                          ws_deletedFiles := filter (\<lambda>p. p \<noteq> path) (ws_deletedFiles w)\<rparr>
          | Deleted \<Rightarrow> w'\<lparr>ws_deletedFiles := push_unique (ws_deletedFiles w) path\<rparr>
          | Modified \<Rightarrow> w'))"

definition reduce_workspace_changed :: "host \<Rightarrow> agent_state \<Rightarrow> workspace_change \<Rightarrow> agent_state res" where
  "reduce_workspace_changed H s e =
     (case workspacePathKey H (ws_root (ag_workspace s)) (wc_path e) of
        Inl err \<Rightarrow> Inl (InvariantError ''workspace_change_outside_root'')
      | Inr path \<Rightarrow>
          Inr (bump_progress (s\<lparr>ag_workspace := track_change (wc_change e) path (observe_change s e path),
                                ag_lastVerification := None\<rparr>)))"

definition reduce_recovery_branch :: "agent_state \<Rightarrow> agent_state" where
  "reduce_recovery_branch s =
     s\<lparr>ag_mode := Plan_mode, ag_recovery := (ag_recovery s)\<lparr>rs_degradedRecovery := True\<rparr>\<rparr>"

subsection \<open>The reducer\<close>

fun reduce :: "host \<Rightarrow> agent_state \<Rightarrow> fact_event \<Rightarrow> agent_state res" where
  "reduce H s (Run_started runId configHash) = Inr (s\<lparr>ag_runId := runId\<rparr>)"
| "reduce H s (Outcome_calibration_selected sel) = reduce_selection H s sel"
| "reduce H s (User_message_accepted m) = Inr (reduce_user_message s m)"
| "reduce H s (Tool_result_message m) = Inr (reduce_message s m)"
| "reduce H s (Assistant_message_completed m usage) = Inr (reduce_assistant s m usage)"
| "reduce H s (Model_attempt_failed f) = Inr (reduce_attempt_failed s f)"
| "reduce H s (Tool_call_accepted call) = reduce_call_accepted H s call"
| "reduce H s (Tool_call_completed r) = reduce_call_completed s r"
| "reduce H s (Permission_decided d) = Inr s"
| "reduce H s (Plan_version_created p) = Inr (reduce_plan_created s p)"
| "reduce H s (Plan_approved planId version tokenId) = reduce_plan_approved s planId version"
| "reduce H s (Replan_requested cause requiresReapproval) = Inr (reduce_replan_requested s requiresReapproval)"
| "reduce H s (Replan_adjustment_applied cause summary) = reduce_adjustment s"
| "reduce H s (Loop_stagnation_detected r) = Inr (reduce_stagnation s r)"
| "reduce H s (Reflection_recorded r) = reduce_reflection s r"
| "reduce H s (Reflection_evaluated e) = reduce_evaluation s e"
| "reduce H s (Plan_health_assessed a) = reduce_plan_health s a"
| "reduce H s (Tool_lane_selected l) = Inr s"
| "reduce H s (Strategy_adapted src dst reason) = Inr (reduce_strategy s dst)"
| "reduce H s (Plan_status_changed planId version) = Inr (reduce_plan_status s planId version)"
| "reduce H s (Task_changed t) = Inr (reduce_task s t)"
| "reduce H s (Evidence_recorded r) = Inr (reduce_evidence s r)"
| "reduce H s (Idempotency_adjudicated tool call src dst detail) = Inr s"
| "reduce H s (Verification_completed report valid attempt) = reduce_verification s report valid attempt"
| "reduce H s (Mode_changed src dst pre) = Inr (reduce_mode s src dst)"
| "reduce H s (Context_compacted r) = Inr (reduce_compacted s r)"
| "reduce H s (Loop_transitioned t) = Inr (reduce_transition s t)"
| "reduce H s (Run_terminated t) = Inr (reduce_terminated s t)"
| "reduce H s (State_snapshot sn) = Inr s"
| "reduce H s (Workspace_mutation_started e) = reduce_mutation_started H s e"
| "reduce H s (Workspace_changed e) = reduce_workspace_changed H s e"
| "reduce H s (Session_recovery_branch src seq issues) = Inr (reduce_recovery_branch s)"
| "reduce H s (Unknown_fact t) = Inl (InvariantError ''unknown_fact_event'')"

fun applyFacts :: "host \<Rightarrow> agent_state \<Rightarrow> fact_event list \<Rightarrow> agent_state res" where
  "applyFacts H s [] = Inr s"
| "applyFacts H s (f # fs) = bind_res (reduce H s f) (\<lambda>s'. applyFacts H s' fs)"

lemmas handler_bodies =
  reduce_selection_def reduce_user_message_def reduce_message_def reduce_assistant_def
  reduce_attempt_failed_def reduce_call_accepted_def reduce_call_completed_def
  reduce_plan_created_def reduce_plan_approved_def reduce_replan_requested_def
  reduce_adjustment_def reduce_plan_status_def reduce_stagnation_def reduce_reflection_def
  reduce_evaluation_def reduce_plan_health_def reduce_strategy_def reduce_task_def
  reduce_evidence_def reduce_verification_def reduce_mode_def reduce_compacted_def
  reduce_transition_def reduce_terminated_def reduce_mutation_started_def
  reduce_workspace_changed_def reduce_recovery_branch_def

declare handler_bodies [handler_defs]
declare bump_progress_def [handler_defs] set_used_def [handler_defs] Let_def [handler_defs]

end
