(* ===== verification/Snapshot.thy ===== *)
theory Snapshot
  imports Reducer
begin

text \<open>
  Snapshots of the agent state (core/state.ts, \<open>createSnapshot\<close> and \<open>restoreFromSnapshot\<close>),
  the invariant every reachable state has, and the round trip between the two.
\<close>

subsection \<open>Creating a snapshot\<close>

definition snapshot_of_recovery :: "recovery_state \<Rightarrow> snapshot_recovery" where
  "snapshot_of_recovery r =
     \<lparr>sr_modelRetries = rs_modelRetries r, sr_compactFailures = rs_compactFailures r,
      sr_promptOverflowRecovered = rs_promptOverflowRecovered r,
      sr_outputLimitRecoveries = rs_outputLimitRecoveries r,
      sr_stopHookRetries = rs_stopHookRetries r, sr_verifierRepairs = rs_verifierRepairs r,
      sr_replanCount = Some (rs_replanCount r),
      sr_consecutiveFailures = Some (rs_consecutiveFailures r),
      sr_versionConflicts = Some (rs_versionConflicts r),
      sr_replanning = Some (rs_replanning r),
      sr_replanAwaitingApproval = Some (rs_replanAwaitingApproval r),
      sr_degradedRecovery = Some (rs_degradedRecovery r),
      sr_recentToolFingerprints = Some (rs_recentToolFingerprints r),
      sr_recentOutcomeSignatures = Some (rs_recentOutcomeSignatures r),
      sr_stagnationCount = Some (rs_stagnationCount r),
      sr_lastStagnationSignature = rs_lastStagnationSignature r,
      sr_reflectionCount = Some (rs_reflectionCount r),
      sr_lastReflectionToolCalls = Some (rs_lastReflectionToolCalls r),
      sr_lastReflectionTrigger = rs_lastReflectionTrigger r,
      sr_ineffectiveReflectionCount = Some (rs_ineffectiveReflectionCount r),
      sr_lastEvaluatedReflectionId = rs_lastEvaluatedReflectionId r,
      sr_lastProgressToolCalls = Some (rs_lastProgressToolCalls r),
      sr_executionStrategy = Some (rs_executionStrategy r)\<rparr>"

definition freeze_option :: "host \<Rightarrow> calibration_selection option \<Rightarrow> calibration_selection option res" where
  "freeze_option H sel =
     (case sel of None \<Rightarrow> Inr None
      | Some x \<Rightarrow> bind_res (freezeOutcomeCalibrationSelection H x) (\<lambda>y. Inr (Some y)))"

definition createSnapshot :: "host \<Rightarrow> agent_state \<Rightarrow> number option \<Rightarrow> state_snapshot res" where
  "createSnapshot H s lastSeq =
     bind_res (freeze_option H (ag_selection s)) (\<lambda>sel. Inr
       \<lparr>sn_version = Some 5, sn_lastSeq = lastSeq, sn_iteration = ag_iteration s, sn_mode = ag_mode s,
        sn_prePlanMode = ag_prePlanMode s, sn_activePlan = ag_activePlan s,
        sn_recovery = snapshot_of_recovery (ag_recovery s),
        sn_budgetUsed =
          (let u = rb_used (ag_budget s)
           in \<lparr>sb_modelCalls = bu_modelCalls u, sb_toolCalls = bu_toolCalls u,
               sb_inputTokens = bu_inputTokens u, sb_outputTokens = bu_outputTokens u\<rparr>),
        sn_workspace =
          (let w = ag_workspace s
           in \<lparr>sw_touchedFiles = ws_touchedFiles w,
               sw_planScopedTouchedFiles = Some (ws_planScopedTouchedFiles w),
               sw_createdFiles = ws_createdFiles w, sw_deletedFiles = ws_deletedFiles w,
               sw_revision = Some (ws_revision w),
               sw_pendingVerification = ws_pendingVerification w\<rparr>),
        sn_messageIds = map msg_id (ag_messages s), sn_evidenceIds = ag_evidenceIds s,
        sn_taskIds = map tk_id (ag_tasks s), sn_messages = Some (ag_messages s),
        sn_pendingToolCalls = Some (ag_pendingToolCalls s), sn_toolResults = Some (ag_toolResults s),
        sn_lastTransition = ag_lastTransition s, sn_lastVerification = ag_lastVerification s,
        sn_pendingRepair = ag_pendingRepair s, sn_selection = sel,
        sn_reflections = Some (ag_reflections s), sn_latestPlanHealth = ag_latestPlanHealth s,
        sn_reflectionEvaluations = Some (ag_reflectionEvaluations s), sn_tasks = Some (ag_tasks s)\<rparr>)"

subsection \<open>Restoring\<close>

definition valid_source :: "mutation_source \<Rightarrow> bool" where
  "valid_source m \<longleftrightarrow>
     non_blank (ms_mutationId m) \<and> non_blank (ms_callId m) \<and> non_blank (ms_toolName m) \<and>
     non_blank (ms_reason m) \<and> (ms_outcome m = Unknown_outcome \<or> ms_outcome m = Changed_outcome)"

definition valid_pending :: "number option \<Rightarrow> pending_verification \<Rightarrow> bool" where
  "valid_pending revision p \<longleftrightarrow>
     is_non_negative_integer (pv_revision p) \<and> Some (pv_revision p) = revision \<and>
     non_blank (pv_openedAtTurnId p) \<and>
     (pv_scope p = Paths_scope \<or> pv_scope p = Workspace_scope) \<and>
     (pv_scope p \<noteq> Paths_scope \<or> pv_changedPaths p \<noteq> []) \<and>
     pv_sources p \<noteq> [] \<and> list_all valid_source (pv_sources p)"

definition invalid_obligation :: "state_snapshot \<Rightarrow> bool" where
  "invalid_obligation sn \<longleftrightarrow>
     sn_version sn = Some 5 \<and>
     (let w = sn_workspace sn
      in \<not> (case sw_revision w of Some r \<Rightarrow> is_non_negative_integer r | None \<Rightarrow> False) \<or>
         \<not> (case sw_pendingVerification w of None \<Rightarrow> True | Some p \<Rightarrow> valid_pending (sw_revision w) p))"

definition or_else :: "'a option \<Rightarrow> 'a \<Rightarrow> 'a" where
  "or_else v d = (case v of None \<Rightarrow> d | Some x \<Rightarrow> x)"

lemma or_else_simps [simp]: "or_else None d = d" "or_else (Some x) d = x"
  by (simp_all add: or_else_def)

definition restore_recovery :: "snapshot_recovery \<Rightarrow> recovery_state" where
  "restore_recovery r =
     \<lparr>rs_modelRetries = sr_modelRetries r, rs_compactFailures = sr_compactFailures r,
      rs_promptOverflowRecovered = sr_promptOverflowRecovered r,
      rs_outputLimitRecoveries = sr_outputLimitRecoveries r,
      rs_stopHookRetries = sr_stopHookRetries r, rs_verifierRepairs = sr_verifierRepairs r,
      rs_replanCount = or_else (sr_replanCount r) 0,
      rs_consecutiveFailures = or_else (sr_consecutiveFailures r) 0,
      rs_versionConflicts = or_else (sr_versionConflicts r) 0,
      rs_replanning = or_else (sr_replanning r) False,
      rs_replanAwaitingApproval = or_else (sr_replanAwaitingApproval r) False,
      rs_degradedRecovery = or_else (sr_degradedRecovery r) False,
      rs_recentToolFingerprints = or_else (sr_recentToolFingerprints r) [],
      rs_recentOutcomeSignatures = or_else (sr_recentOutcomeSignatures r) [],
      rs_stagnationCount = or_else (sr_stagnationCount r) 0,
      rs_lastStagnationSignature = sr_lastStagnationSignature r,
      rs_reflectionCount = or_else (sr_reflectionCount r) 0,
      rs_lastReflectionToolCalls = or_else (sr_lastReflectionToolCalls r) 0,
      rs_lastReflectionTrigger = sr_lastReflectionTrigger r,
      rs_ineffectiveReflectionCount = or_else (sr_ineffectiveReflectionCount r) 0,
      rs_lastEvaluatedReflectionId = sr_lastEvaluatedReflectionId r,
      rs_lastProgressToolCalls = or_else (sr_lastProgressToolCalls r) 0,
      rs_executionStrategy = or_else (sr_executionStrategy r) Normal\<rparr>"

text \<open>An optional member is restored when it is present; otherwise the state's own value stays.\<close>

definition keep :: "'a option \<Rightarrow> 'a option \<Rightarrow> 'a option" where
  "keep old new = (case new of None \<Rightarrow> old | Some x \<Rightarrow> Some x)"

lemma keep_simps [simp]: "keep old None = old" "keep old (Some x) = Some x" "keep None new = new"
  by (simp_all add: keep_def split: option.split)

definition restore_base :: "agent_state \<Rightarrow> state_snapshot \<Rightarrow> agent_state" where
  "restore_base s sn =
     (let u = sn_budgetUsed sn; w = sn_workspace sn
      in s\<lparr>ag_iteration := sn_iteration sn, ag_mode := sn_mode sn,
           ag_recovery := restore_recovery (sn_recovery sn),
           ag_budget := (ag_budget s)\<lparr>rb_used := (rb_used (ag_budget s))
             \<lparr>bu_modelCalls := sb_modelCalls u, bu_toolCalls := sb_toolCalls u,
              bu_inputTokens := sb_inputTokens u, bu_outputTokens := sb_outputTokens u\<rparr>\<rparr>,
           ag_workspace :=
             \<lparr>ws_root = ws_root (ag_workspace s),
              ws_revision = (if sn_version sn = Some 5 then or_else (sw_revision w) 0 else 0),
              ws_pendingVerification = (if sn_version sn = Some 5 then sw_pendingVerification w else None),
              ws_touchedFiles = sw_touchedFiles w,
              ws_planScopedTouchedFiles = or_else (sw_planScopedTouchedFiles w) [],
              ws_createdFiles = sw_createdFiles w, ws_deletedFiles = sw_deletedFiles w\<rparr>,
           ag_evidenceIds := sn_evidenceIds sn,
           ag_prePlanMode := keep (ag_prePlanMode s) (sn_prePlanMode sn),
           ag_activePlan := keep (ag_activePlan s) (sn_activePlan sn),
           ag_lastTransition := keep (ag_lastTransition s) (sn_lastTransition sn)\<rparr>)"

definition full_version :: "nat option \<Rightarrow> bool" where
  "full_version v \<longleftrightarrow> v \<in> {Some 2, Some 3, Some 4, Some 5}"

definition restore_entities :: "agent_state \<Rightarrow> state_snapshot \<Rightarrow> agent_state" where
  "restore_entities s sn =
     s\<lparr>ag_messages := or_else (sn_messages sn) [],
       ag_pendingToolCalls := or_else (sn_pendingToolCalls sn) [],
       ag_toolResults := or_else (sn_toolResults sn) [],
       ag_reflections := or_else (sn_reflections sn) [],
       ag_reflectionEvaluations := or_else (sn_reflectionEvaluations sn) [],
       ag_tasks := or_else (sn_tasks sn) [],
       ag_latestPlanHealth := keep (ag_latestPlanHealth s) (sn_latestPlanHealth sn),
       ag_lastVerification := keep (ag_lastVerification s) (sn_lastVerification sn),
       ag_pendingRepair := keep (ag_pendingRepair s) (sn_pendingRepair sn)\<rparr>"

definition snapshot_error :: "state_snapshot \<Rightarrow> js_error option" where
  "snapshot_error sn =
     (if (case sn_latestPlanHealth sn of
            Some a \<Rightarrow> \<not> isSupervisorAction (sd_action (ph_decision a)) | None \<Rightarrow> False)
      then Some (InvariantError ''plan_health_unknown_action'')
      else if sn_lastVerification sn \<noteq> None \<and> sn_pendingRepair sn \<noteq> None
      then Some (InvariantError ''verification_snapshot_conflict'')
      else if (case sn_lastVerification sn of
                 Some lv \<Rightarrow> vr_verdict (lv_report lv) = PASS \<and> \<not> lv_valid lv | None \<Rightarrow> False)
      then Some (InvariantError ''verification_invalid_pass'')
      else if (case sn_pendingRepair sn of
                 Some p \<Rightarrow> vr_verdict (vp_report p) = PASS \<or> \<not> is_integer (vp_attempt p) \<or> vp_attempt p < 1
               | None \<Rightarrow> False)
      then Some (InvariantError ''verification_repair_invalid'')
      else None)"

definition restore_selection :: "host \<Rightarrow> agent_state \<Rightarrow> state_snapshot \<Rightarrow> agent_state res" where
  "restore_selection H s sn =
     (case sn_selection sn of
        None \<Rightarrow> Inr s
      | Some sel \<Rightarrow>
          if sn_version sn = Some 4 \<or> sn_version sn = Some 5
          then if \<not> isOutcomeCalibrationSelection H sel
               then Inl (InvariantError ''outcome_calibration_invalid_snapshot'')
               else bind_res (freezeOutcomeCalibrationSelection H sel) (\<lambda>f. Inr (s\<lparr>ag_selection := Some f\<rparr>))
          else Inr s)"

definition restoreFromSnapshot :: "host \<Rightarrow> agent_state \<Rightarrow> state_snapshot \<Rightarrow> agent_state res" where
  "restoreFromSnapshot H s sn =
     (if invalid_obligation sn then Inl (InvariantError ''workspace_mutation_invalid_snapshot'')
      else if \<not> full_version (sn_version sn) then Inr (restore_base s sn)
      else (case snapshot_error sn of
              Some e \<Rightarrow> Inl e
            | None \<Rightarrow>
                bind_res (restore_selection H (restore_entities (restore_base s sn) sn) sn) (\<lambda>r.
                  if list_all (validReflectionCalibration r) (ag_reflections r) then Inr r
                  else Inl (InvariantError ''reflection_invalid_calibration_snapshot''))))"

lemma restore_recovery_snapshot [simp]: "restore_recovery (snapshot_of_recovery r) = r"
  by (simp add: restore_recovery_def snapshot_of_recovery_def)

end
