(* ===== verification/EventMachine.thy ===== *)
theory EventMachine
  imports Prelude
begin

text \<open>
  The interface between a component that steps a state by events and the arguments about
  its runs. \<open>run_steps\<close> folds a step function that may fail over a list of events.
  The locale \<open>invariant_machine\<close> promises that good events preserve an invariant, and gives
  it along every run; \<open>simulation_machine\<close> relates two machines step by step and gives the
  relation between their runs, errors included.
\<close>

fun run_steps :: "('s \<Rightarrow> 'e \<Rightarrow> 's res) \<Rightarrow> 's \<Rightarrow> 'e list \<Rightarrow> 's res" where
  "run_steps step s [] = Inr s"
| "run_steps step s (e # es) = bind_res (step s e) (\<lambda>s'. run_steps step s' es)"

lemma run_steps_append:
  "run_steps step s (es @ fs) = bind_res (run_steps step s es) (\<lambda>s'. run_steps step s' fs)"
proof (induction es arbitrary: s)
  case (Cons e es)
  then show ?case by (cases "step s e") simp_all
qed simp

locale invariant_machine =
  fixes step :: "'s \<Rightarrow> 'e \<Rightarrow> 's res"
    and good :: "'e \<Rightarrow> bool"
    and inv :: "'s \<Rightarrow> bool"
  assumes inv_step: "inv s \<Longrightarrow> good e \<Longrightarrow> step s e = Inr s' \<Longrightarrow> inv s'"
begin

lemma inv_run: "run_steps step s es = Inr s' \<Longrightarrow> inv s \<Longrightarrow> list_all good es \<Longrightarrow> inv s'"
proof (induction es arbitrary: s)
  case (Cons e es)
  then show ?case by (auto simp: bind_res_Inr_iff dest: inv_step)
qed simp

lemma inv_prefix:
  "run_steps step s (es @ fs) = Inr s' \<Longrightarrow> inv s \<Longrightarrow> list_all good es \<Longrightarrow>
   \<exists>m. run_steps step s es = Inr m \<and> inv m \<and> run_steps step m fs = Inr s'"
  by (auto simp: run_steps_append bind_res_Inr_iff dest: inv_run)

end

text \<open>The outcome of two steps: both fail alike, or both succeed in related states.\<close>

definition rel_res :: "('a \<Rightarrow> 'b \<Rightarrow> bool) \<Rightarrow> 'a res \<Rightarrow> 'b res \<Rightarrow> bool" where
  "rel_res R x y = (case (x, y) of (Inl e, Inl f) \<Rightarrow> e = f | (Inr a, Inr b) \<Rightarrow> R a b | _ \<Rightarrow> False)"

lemma rel_res_simps [simp]:
  "rel_res R (Inl e) (Inl f) \<longleftrightarrow> e = f" "rel_res R (Inr a) (Inr b) \<longleftrightarrow> R a b"
  "\<not> rel_res R (Inl e) (Inr b)" "\<not> rel_res R (Inr a) (Inl f)"
  by (simp_all add: rel_res_def)

lemma rel_res_bind:
  "rel_res R x y \<Longrightarrow> (\<And>a b. R a b \<Longrightarrow> rel_res S (f a) (g b)) \<Longrightarrow> rel_res S (bind_res x f) (bind_res y g)"
  by (cases x; cases y) simp_all

locale simulation_machine =
  fixes step1 :: "'s \<Rightarrow> 'e \<Rightarrow> 's res"
    and step2 :: "'t \<Rightarrow> 'e \<Rightarrow> 't res"
    and R :: "'s \<Rightarrow> 't \<Rightarrow> bool"
  assumes sim_step: "R s t \<Longrightarrow> rel_res R (step1 s e) (step2 t e)"
begin

lemma sim_run: "R s t \<Longrightarrow> rel_res R (run_steps step1 s es) (run_steps step2 t es)"
proof (induction es arbitrary: s t)
  case (Cons e es)
  then show ?case by (auto intro!: rel_res_bind sim_step)
qed simp

end

end
