(* ===== verification/StateInvariant.thy ===== *)
theory StateInvariant
  imports Snapshot EventMachine
begin

text \<open>
  What every state the reducer reaches satisfies, one group of facts at a time: the tool-call
  lifecycle, the verifier's verdict, the pending verification obligation and the adaptive
  policy's provenance. Each group looks at its own part of the state (its view); an event
  that leaves the view alone preserves the group, and the remaining handlers are treated one
  by one. The groups are interpretations of \<open>invariant_machine\<close> on \<open>reduce\<close>.
\<close>

lemma applyFacts_run: "applyFacts H s fs = run_steps (reduce H) s fs"
  by (induction fs arbitrary: s) simp_all

lemma applyFacts_append: "applyFacts H s (fs @ gs) = bind_res (applyFacts H s fs) (\<lambda>t. applyFacts H t gs)"
  by (simp add: applyFacts_run run_steps_append)

subsection \<open>What the workspace bookkeeping leaves alone\<close>

lemma track_change_simps [simp]:
  "ws_root (track_change c p w) = ws_root w" "ws_revision (track_change c p w) = ws_revision w"
  "ws_pendingVerification (track_change c p w) = ws_pendingVerification w"
  by (simp_all add: track_change_def Let_def split: file_change.split)

lemma observe_change_root [simp]: "ws_root (observe_change s e p) = ws_root (ag_workspace s)"
  by (simp add: observe_change_def Let_def)

subsection \<open>The tool-call lifecycle\<close>

definition lifecycle_ok :: "agent_state \<Rightarrow> bool" where
  "lifecycle_ok s \<longleftrightarrow>
     distinct (map tc_id (ag_pendingToolCalls s)) \<and> distinct (obj_keys (ag_toolResults s)) \<and>
     (\<forall>c \<in> set (ag_pendingToolCalls s). tc_id c \<notin> set (obj_keys (ag_toolResults s))) \<and>
     (\<forall>(k, r) \<in> set (ag_toolResults s). tr_callId r = k)"

fun touches_calls :: "fact_event \<Rightarrow> bool" where
  "touches_calls (Tool_call_accepted c) = True"
| "touches_calls (Tool_call_completed r) = True"
| "touches_calls f = False"

lemma calls_frame:
  "reduce H s f = Inr s' \<Longrightarrow> \<not> touches_calls f \<Longrightarrow>
   ag_pendingToolCalls s' = ag_pendingToolCalls s \<and> ag_toolResults s' = ag_toolResults s"
  by (cases f)
    (auto simp: handler_defs bind_res_Inr_iff
      split: if_splits option.splits sum.splits continue_transition.splits)

lemma obj_set_pairs: "p \<in> set (obj_set ob k v) \<Longrightarrow> p = (k, v) \<or> (p \<in> set ob)"
  by (induction ob k v rule: obj_set.induct) (auto split: if_splits)

lemma obj_delete_absent: "\<not> obj_defined ob k \<Longrightarrow> obj_delete ob k = ob"
  by (force simp: obj_defined_def obj_get_None_iff obj_delete_def obj_keys_def filter_id_conv)

lemma call_accepted_effect:
  "reduce_call_accepted H s c = Inr s' \<longleftrightarrow>
   \<not> list_ex (\<lambda>d. tc_id d = tc_id c) (ag_pendingToolCalls s) \<and>
   s' = s\<lparr>ag_pendingToolCalls := ag_pendingToolCalls s @ [c],
          ag_toolResults := obj_delete (ag_toolResults s) (tc_id c),
          ag_recovery := (ag_recovery s)\<lparr>rs_recentToolFingerprints :=
            appendBounded (rs_recentToolFingerprints (ag_recovery s))
              (fingerprintToolCall H (tc_name c) (tc_input c))\<rparr>\<rparr>"
  by (auto simp: reduce_call_accepted_def Let_def obj_delete_absent)

lemma set_obj_delete [simp]: "set (obj_delete ob k) = {p \<in> set ob. fst p \<noteq> k}"
  by (auto simp: obj_delete_def)

lemma lifecycle_accepted:
  "lifecycle_ok s \<Longrightarrow> reduce_call_accepted H s c = Inr s' \<Longrightarrow> lifecycle_ok s'"
  by (auto simp: call_accepted_effect lifecycle_ok_def list_ex_iff)

lemma lifecycle_completed:
  "lifecycle_ok s \<Longrightarrow> reduce_call_completed s r = Inr s' \<Longrightarrow> lifecycle_ok s'"
  by (auto simp: reduce_call_completed_def set_used_def lifecycle_ok_def obj_keys_set distinct_map_filter
      dest!: obj_set_pairs split: if_splits)

lemma lifecycle_step: "lifecycle_ok s \<Longrightarrow> reduce H s f = Inr s' \<Longrightarrow> lifecycle_ok s'"
proof (cases "touches_calls f")
  case True
  then show "lifecycle_ok s \<Longrightarrow> reduce H s f = Inr s' \<Longrightarrow> lifecycle_ok s'"
    by (cases f) (auto intro: lifecycle_accepted lifecycle_completed)
next
  case False
  then show "lifecycle_ok s \<Longrightarrow> reduce H s f = Inr s' \<Longrightarrow> lifecycle_ok s'"
    using calls_frame [of H s f s'] by (simp add: lifecycle_ok_def)
qed

subsection \<open>Verdicts and repairs\<close>

definition verdict_ok :: "agent_state \<Rightarrow> bool" where
  "verdict_ok s \<longleftrightarrow>
     is_integer (rs_verifierRepairs (ag_recovery s)) \<and>
     (ag_lastVerification s = None \<or> ag_pendingRepair s = None) \<and>
     (\<forall>lv. ag_lastVerification s = Some lv \<longrightarrow> vr_verdict (lv_report lv) = PASS \<longrightarrow> lv_valid lv) \<and>
     (\<forall>p. ag_pendingRepair s = Some p \<longrightarrow>
        vr_verdict (vp_report p) \<noteq> PASS \<and> is_integer (vp_attempt p) \<and> 1 \<le> vp_attempt p)"

definition verdict_view :: "agent_state \<Rightarrow> number \<times> last_verification option \<times> pending_repair option" where
  "verdict_view s = (rs_verifierRepairs (ag_recovery s), ag_lastVerification s, ag_pendingRepair s)"

lemma verdict_ok_view: "verdict_view s' = verdict_view s \<Longrightarrow> verdict_ok s' = verdict_ok s"
  by (simp add: verdict_view_def verdict_ok_def)

fun touches_verdict :: "fact_event \<Rightarrow> bool" where
  "touches_verdict (User_message_accepted m) = True"
| "touches_verdict (Plan_approved a b c) = True"
| "touches_verdict (Replan_requested a b) = True"
| "touches_verdict (Verification_completed a b c) = True"
| "touches_verdict (Workspace_mutation_started e) = True"
| "touches_verdict (Workspace_changed e) = True"
| "touches_verdict f = False"

lemma verdict_frame: "reduce H s f = Inr s' \<Longrightarrow> \<not> touches_verdict f \<Longrightarrow> verdict_view s' = verdict_view s"
  by (cases f)
    (auto simp: handler_defs verdict_view_def bind_res_Inr_iff
      split: if_splits option.splits continue_transition.splits)

lemma verdict_user_message: "verdict_ok s \<Longrightarrow> verdict_ok (reduce_user_message s m)"
  by (auto simp: reduce_user_message_def verdict_ok_def Let_def split: option.splits)

lemma verdict_verification:
  "verdict_ok s \<Longrightarrow> reduce_verification s report valid att = Inr s' \<Longrightarrow> verdict_ok s'"
  by (auto simp: reduce_verification_def verdict_ok_def split: if_splits option.splits)

lemma verdict_plan_approved: "verdict_ok s \<Longrightarrow> reduce_plan_approved s p v = Inr s' \<Longrightarrow> verdict_ok s'"
  by (auto simp: reduce_plan_approved_def verdict_ok_def split: if_splits)

lemma verdict_replan_requested: "verdict_ok s \<Longrightarrow> verdict_ok (reduce_replan_requested s b)"
  by (simp add: reduce_replan_requested_def verdict_ok_def)

lemma verdict_mutation_started:
  "verdict_ok s \<Longrightarrow> reduce_mutation_started H s e = Inr s' \<Longrightarrow> verdict_ok s'"
  by (auto simp: reduce_mutation_started_def verdict_ok_def bind_res_Inr_iff Let_def split: if_splits)

lemma verdict_workspace_changed:
  "verdict_ok s \<Longrightarrow> reduce_workspace_changed H s e = Inr s' \<Longrightarrow> verdict_ok s'"
  by (auto simp: reduce_workspace_changed_def bump_progress_def verdict_ok_def split: sum.splits)

lemmas verdict_handlers =
  verdict_user_message verdict_verification verdict_plan_approved verdict_replan_requested
  verdict_mutation_started verdict_workspace_changed

lemma verdict_step: "verdict_ok s \<Longrightarrow> reduce H s f = Inr s' \<Longrightarrow> verdict_ok s'"
proof (cases "touches_verdict f")
  case True
  then show "verdict_ok s \<Longrightarrow> reduce H s f = Inr s' \<Longrightarrow> verdict_ok s'"
    by (cases f) (auto intro: verdict_handlers)
next
  case False
  then show "verdict_ok s \<Longrightarrow> reduce H s f = Inr s' \<Longrightarrow> verdict_ok s'"
    using verdict_frame verdict_ok_view by blast
qed

subsection \<open>The pending verification obligation\<close>

definition obligation_ok :: "agent_state \<Rightarrow> bool" where
  "obligation_ok s \<longleftrightarrow>
     non_blank (ag_turnId s) \<and> is_non_negative_integer (ws_revision (ag_workspace s)) \<and>
     pred_option (valid_pending (Some (ws_revision (ag_workspace s))))
       (ws_pendingVerification (ag_workspace s))"

text \<open>
  The reducer takes the texts of a mutation fact as they come; the snapshot validator wants
  them non-blank. The facts the runtime writes satisfy this.
\<close>

fun labelled_fact :: "fact_event \<Rightarrow> bool" where
  "labelled_fact (Workspace_mutation_started e) \<longleftrightarrow> non_blank (mst_reason e)"
| "labelled_fact (Workspace_changed e) \<longleftrightarrow>
     pred_option non_blank (wc_mutationId e) \<and> pred_option non_blank (wc_callId e) \<and>
     pred_option non_blank (wc_toolName e)"
| "labelled_fact f \<longleftrightarrow> True"

definition obligation_view :: "agent_state \<Rightarrow> string \<times> number \<times> pending_verification option" where
  "obligation_view s =
     (ag_turnId s, ws_revision (ag_workspace s), ws_pendingVerification (ag_workspace s))"

fun touches_obligation :: "fact_event \<Rightarrow> bool" where
  "touches_obligation (Workspace_mutation_started e) = True"
| "touches_obligation (Workspace_changed e) = True"
| "touches_obligation (Run_terminated t) = True"
| "touches_obligation f = False"

lemma obligation_frame:
  "reduce H s f = Inr s' \<Longrightarrow> \<not> touches_obligation f \<Longrightarrow> obligation_view s' = obligation_view s"
  by (cases f)
    (auto simp: handler_defs obligation_view_def bind_res_Inr_iff
      split: if_splits option.splits continue_transition.splits)

lemma normalize_paths_not_Nil:
  "normalize_paths_from H wsroot acc ps = Inr qs \<Longrightarrow> acc \<noteq> [] \<or> ps \<noteq> [] \<Longrightarrow> qs \<noteq> []"
  by (induction H wsroot acc ps rule: normalize_paths_from.induct) (auto split: sum.splits)

lemma next_revision_ok: "is_non_negative_integer n \<Longrightarrow> is_non_negative_integer (n + 1)"
  by (simp add: is_non_negative_integer_def)

lemma filter_new_paths_not_Nil:
  "qs \<noteq> [] \<Longrightarrow> ps @ filter (\<lambda>p. p \<notin> set ps) qs \<noteq> []"
  by (cases qs) auto

lemma obligation_opened: "obligation_ok s \<Longrightarrow> non_blank (opened_at s)"
  by (auto simp: obligation_ok_def opened_at_def valid_pending_def split: option.splits)

lemma prior_pending_ok:
  "obligation_ok s \<Longrightarrow> list_all valid_source (pending_sources (ws_pendingVerification (ag_workspace s)))"
  by (auto simp: obligation_ok_def pending_sources_def valid_pending_def split: option.splits)

lemma prior_scope:
  "obligation_ok s \<Longrightarrow> ws_pendingVerification (ag_workspace s) = Some v \<Longrightarrow>
   (pv_scope v = Paths_scope \<and> pv_changedPaths v \<noteq> []) \<or> pv_scope v = Workspace_scope"
  by (auto simp: obligation_ok_def valid_pending_def)

lemma mutation_pending_ok:
  assumes ok: "obligation_ok s" and inv: "\<not> invalid_mutation e" and reason: "non_blank (mst_reason e)"
    and paths: "normalizeWorkspacePaths H s (mst_paths e) = Inr paths"
  shows "valid_pending (Some (ws_revision (ag_workspace s) + 1)) (mutation_pending s e paths)"
proof -
  let ?v = "mutation_pending s e paths"
  have "pv_changedPaths ?v \<noteq> []" if "pv_scope ?v = Paths_scope"
  proof -
    have "mst_scope e = Paths_scope"
      using that inv by (auto simp: mutation_pending_def invalid_mutation_def Let_def split: if_splits)
    then have "paths \<noteq> []"
      using inv normalize_paths_not_Nil [OF paths [unfolded normalizeWorkspacePaths_def]]
      by (auto simp: invalid_mutation_def)
    then show ?thesis
      using filter_new_paths_not_Nil [of paths "pending_paths (ws_pendingVerification (ag_workspace s))"]
      by (simp add: mutation_pending_def Let_def)
  qed
  moreover have "pv_scope ?v = Paths_scope \<or> pv_scope ?v = Workspace_scope"
    by (simp add: mutation_pending_def Let_def)
  ultimately show ?thesis
    using ok prior_pending_ok [OF ok] obligation_opened [OF ok] inv reason
    by (auto simp: valid_pending_def mutation_pending_def Let_def valid_source_def invalid_mutation_def
        obligation_ok_def intro: next_revision_ok)
qed

lemma obligation_mutation_started:
  "obligation_ok s \<Longrightarrow> labelled_fact (Workspace_mutation_started e) \<Longrightarrow>
   reduce_mutation_started H s e = Inr s' \<Longrightarrow> obligation_ok s'"
  using mutation_pending_ok [of s e H]
  by (auto simp: reduce_mutation_started_def bind_res_Inr_iff obligation_ok_def
      intro: next_revision_ok split: if_splits)

lemma update_first_valid:
  "list_all P xs \<Longrightarrow> (\<And>x. P x \<Longrightarrow> P (f x)) \<Longrightarrow> list_all P (update_first Q f xs)"
  by (induction Q f xs rule: update_first.induct) auto

lemma update_first_Nil [simp]: "update_first Q f xs = [] \<longleftrightarrow> xs = []"
  by (cases xs) auto

lemma prepared_pending_ok:
  "valid_pending r v \<Longrightarrow> valid_pending r (prepared_pending e path v)"
  by (auto simp: valid_pending_def prepared_pending_def valid_source_def intro!: update_first_valid)

lemma legacy_id_non_blank:
  "pred_option non_blank (wc_mutationId e) \<Longrightarrow> non_blank (legacy_mutation_id e path n)"
  by (auto simp: legacy_mutation_id_def non_blank_Cons is_ws_def split: option.splits)

lemma legacy_pending_ok:
  "obligation_ok s \<Longrightarrow> labelled_fact (Workspace_changed e) \<Longrightarrow>
   valid_pending (Some (ws_revision (ag_workspace s) + 1)) (legacy_pending s e path)"
  using prior_pending_ok [of s] obligation_opened [of s] prior_scope [of s] legacy_id_non_blank [of e path]
  by (auto simp: valid_pending_def legacy_pending_def Let_def valid_source_def obligation_ok_def
      non_blank_Cons is_ws_def intro: next_revision_ok split: option.splits)

lemma obligation_workspace_changed:
  "obligation_ok s \<Longrightarrow> labelled_fact (Workspace_changed e) \<Longrightarrow>
   reduce_workspace_changed H s e = Inr s' \<Longrightarrow> obligation_ok s'"
  using legacy_pending_ok [of s e] prepared_pending_ok
  by (auto simp: reduce_workspace_changed_def bump_progress_def obligation_ok_def observe_change_def
      Let_def option.pred_map comp_def option.pred_mono_strong
      intro: next_revision_ok option.pred_mono_strong split: sum.splits)

lemma obligation_terminated: "obligation_ok s \<Longrightarrow> obligation_ok (reduce_terminated s t)"
  by (simp add: reduce_terminated_def obligation_ok_def Let_def)

lemma obligation_step:
  "obligation_ok s \<Longrightarrow> labelled_fact f \<Longrightarrow> reduce H s f = Inr s' \<Longrightarrow> obligation_ok s'"
proof (cases "touches_obligation f")
  case True
  then show "obligation_ok s \<Longrightarrow> labelled_fact f \<Longrightarrow> reduce H s f = Inr s' \<Longrightarrow> obligation_ok s'"
    by (cases f)
      (auto intro: obligation_mutation_started obligation_workspace_changed obligation_terminated)
next
  case False
  then show "obligation_ok s \<Longrightarrow> labelled_fact f \<Longrightarrow> reduce H s f = Inr s' \<Longrightarrow> obligation_ok s'"
    using obligation_frame [of H s f s'] by (simp add: obligation_view_def obligation_ok_def)
qed

subsection \<open>The adaptive policy\<close>

definition adaptive_ok :: "host \<Rightarrow> agent_state \<Rightarrow> bool" where
  "adaptive_ok H s \<longleftrightarrow>
     pred_option (isOutcomeCalibrationSelection H) (ag_selection s) \<and>
     list_all (validReflectionCalibration s) (ag_reflections s) \<and>
     pred_option (\<lambda>a. isSupervisorAction (sd_action (ph_decision a))) (ag_latestPlanHealth s)"

definition adaptive_view ::
    "agent_state \<Rightarrow> calibration_selection option \<times> reflection_record list \<times> plan_health option" where
  "adaptive_view s = (ag_selection s, ag_reflections s, ag_latestPlanHealth s)"

lemma validReflectionCalibration_cong:
  "ag_selection s' = ag_selection s \<Longrightarrow> validReflectionCalibration s' = validReflectionCalibration s"
proof -
  assume same: "ag_selection s' = ag_selection s"
  show ?thesis unfolding validReflectionCalibration_def same by (rule refl)
qed

lemma adaptive_ok_view: "adaptive_view s' = adaptive_view s \<Longrightarrow> adaptive_ok H s' = adaptive_ok H s"
  using validReflectionCalibration_cong [of s' s] by (simp add: adaptive_view_def adaptive_ok_def)

fun touches_adaptive :: "fact_event \<Rightarrow> bool" where
  "touches_adaptive (Outcome_calibration_selected x) = True"
| "touches_adaptive (Reflection_recorded r) = True"
| "touches_adaptive (Plan_health_assessed a) = True"
| "touches_adaptive f = False"

lemma adaptive_frame: "reduce H s f = Inr s' \<Longrightarrow> \<not> touches_adaptive f \<Longrightarrow> adaptive_view s' = adaptive_view s"
  by (cases f)
    (auto simp: handler_defs adaptive_view_def bind_res_Inr_iff
      split: if_splits option.splits sum.splits continue_transition.splits)

text \<open>Without a selection only unattributed reflections are valid, and those stay valid.\<close>

lemma valid_calibration_without_selection:
  "ag_selection s = None \<Longrightarrow> validReflectionCalibration s r \<Longrightarrow> validReflectionCalibration s' r"
  by (auto simp: validReflectionCalibration_def split: option.splits)

lemma adaptive_selection: "adaptive_ok H s \<Longrightarrow> reduce_selection H s sel = Inr s' \<Longrightarrow> adaptive_ok H s'"
  by (auto simp: reduce_selection_def adaptive_ok_def bind_res_Inr_iff list_all_iff
      dest: valid_calibration_without_selection split: if_splits)

lemma adaptive_reflection: "adaptive_ok H s \<Longrightarrow> reduce_reflection s r = Inr s' \<Longrightarrow> adaptive_ok H s'"
proof -
  assume ok: "adaptive_ok H s" and step: "reduce_reflection s r = Inr s'"
  then have v: "validReflectionCalibration s r" and refl: "ag_reflections s' = slice_last 20 (ag_reflections s @ [r])"
    and same: "ag_selection s' = ag_selection s" "ag_latestPlanHealth s' = ag_latestPlanHealth s"
    by (auto simp: reduce_reflection_def split: if_splits)
  have "list_all (validReflectionCalibration s) (slice_last 20 (ag_reflections s @ [r]))"
    using ok v set_slice_last [of 20 "ag_reflections s @ [r]"] by (auto simp: adaptive_ok_def list_all_iff)
  then show ?thesis
    using ok same refl validReflectionCalibration_cong [OF same(1)] by (simp add: adaptive_ok_def)
qed

lemma adaptive_plan_health: "adaptive_ok H s \<Longrightarrow> reduce_plan_health s a = Inr s' \<Longrightarrow> adaptive_ok H s'"
  using validReflectionCalibration_cong [of s' s]
  by (auto simp: reduce_plan_health_def adaptive_ok_def split: if_splits)

lemma adaptive_step: "adaptive_ok H s \<Longrightarrow> reduce H s f = Inr s' \<Longrightarrow> adaptive_ok H s'"
proof (cases "touches_adaptive f")
  case True
  then show "adaptive_ok H s \<Longrightarrow> reduce H s f = Inr s' \<Longrightarrow> adaptive_ok H s'"
    by (cases f) (auto intro: adaptive_selection adaptive_reflection adaptive_plan_health)
next
  case False
  then show "adaptive_ok H s \<Longrightarrow> reduce H s f = Inr s' \<Longrightarrow> adaptive_ok H s'"
    using adaptive_frame adaptive_ok_view by blast
qed

subsection \<open>What no fact changes\<close>

definition fixed_view ::
    "agent_state \<Rightarrow> string \<times> string \<times> string \<times> number \<times> number \<times> number \<times> number \<times> number" where
  "fixed_view s =
     (ag_sessionId s, ag_turnId s, ws_root (ag_workspace s), rb_maxTurns (ag_budget s),
      rb_maxModelCalls (ag_budget s), rb_maxToolCalls (ag_budget s), rb_maxWallTimeMs (ag_budget s),
      bu_startedAt (rb_used (ag_budget s)))"

lemma fixed_frame: "reduce H s f = Inr s' \<Longrightarrow> fixed_view s' = fixed_view s"
  by (cases f)
    (auto simp: handler_defs fixed_view_def bind_res_Inr_iff
      split: if_splits option.splits sum.splits continue_transition.splits)

fun is_termination :: "fact_event \<Rightarrow> bool" where
  "is_termination (Run_terminated t) = True"
| "is_termination f = False"

lemma phase_frame: "reduce H s f = Inr s' \<Longrightarrow> \<not> is_termination f \<Longrightarrow> ag_phase s' = ag_phase s"
  by (cases f)
    (auto simp: handler_defs bind_res_Inr_iff
      split: if_splits option.splits sum.splits continue_transition.splits)

subsection \<open>Reachable states\<close>

interpretation lifecycle: invariant_machine "reduce H" "\<lambda>f. True" lifecycle_ok for H
  by unfold_locales (rule lifecycle_step)

interpretation verdicts: invariant_machine "reduce H" "\<lambda>f. True" verdict_ok for H
  by unfold_locales (rule verdict_step)

interpretation obligations: invariant_machine "reduce H" labelled_fact obligation_ok for H
  by unfold_locales (rule obligation_step)

interpretation adaptive: invariant_machine "reduce H" "\<lambda>f. True" "adaptive_ok H" for H
  by unfold_locales (rule adaptive_step)

interpretation fixed: invariant_machine "reduce H" "\<lambda>f. True" "\<lambda>s. fixed_view s = v" for H v
  by unfold_locales (simp add: fixed_frame)

interpretation phases: invariant_machine "reduce H" "\<lambda>f. \<not> is_termination f" "\<lambda>s. ag_phase s = p" for H p
  by unfold_locales (simp add: phase_frame)

lemma initial_ok:
  "lifecycle_ok (createInitialState i)" "verdict_ok (createInitialState i)"
  "adaptive_ok H (createInitialState i)"
  "obligation_ok (createInitialState i) \<longleftrightarrow> non_blank (in_turnId i)"
  by (simp_all add: createInitialState_def initialRecovery_def lifecycle_ok_def verdict_ok_def adaptive_ok_def
      obligation_ok_def obj_keys_def is_non_negative_integer_def)

end
