(* ===== verification/SnapshotRecovery.thy ===== *)
theory SnapshotRecovery
  imports StateInvariant
begin

text \<open>
  Recovery from a snapshot: the round trip through \<open>createSnapshot\<close> and
  \<open>restoreFromSnapshot\<close>, and the equivalence of snapshot-plus-tail replay with full replay.
\<close>

subsection \<open>The round trip\<close>

text \<open>
  A snapshot does not carry the session, run and turn ids, the phase, the workspace root, the
  budget caps and the start time; these come from the state it is restored into.
\<close>

definition transplant :: "agent_state \<Rightarrow> agent_state \<Rightarrow> agent_state" where
  "transplant s0 s = s
     \<lparr>ag_sessionId := ag_sessionId s0, ag_runId := ag_runId s0, ag_turnId := ag_turnId s0,
      ag_phase := ag_phase s0,
      ag_workspace := (ag_workspace s)\<lparr>ws_root := ws_root (ag_workspace s0)\<rparr>,
      ag_budget := (ag_budget s0)
        \<lparr>rb_used := (rb_used (ag_budget s))\<lparr>bu_startedAt := bu_startedAt (rb_used (ag_budget s0))\<rparr>\<rparr>\<rparr>"

definition fresh :: "agent_state \<Rightarrow> bool" where
  "fresh s \<longleftrightarrow>
     ag_prePlanMode s = None \<and> ag_activePlan s = None \<and> ag_lastTransition s = None \<and>
     ag_latestPlanHealth s = None \<and> ag_lastVerification s = None \<and> ag_pendingRepair s = None \<and>
     ag_selection s = None"

lemma fresh_initial [simp]: "fresh (createInitialState i)"
  by (simp add: fresh_def createInitialState_def)

definition snapshot_image :: "agent_state \<Rightarrow> number option \<Rightarrow> state_snapshot" where
  "snapshot_image s lastSeq =
     \<lparr>sn_version = Some 5, sn_lastSeq = lastSeq, sn_iteration = ag_iteration s, sn_mode = ag_mode s,
      sn_prePlanMode = ag_prePlanMode s, sn_activePlan = ag_activePlan s,
      sn_recovery = snapshot_of_recovery (ag_recovery s),
      sn_budgetUsed =
        \<lparr>sb_modelCalls = bu_modelCalls (rb_used (ag_budget s)),
         sb_toolCalls = bu_toolCalls (rb_used (ag_budget s)),
         sb_inputTokens = bu_inputTokens (rb_used (ag_budget s)),
         sb_outputTokens = bu_outputTokens (rb_used (ag_budget s))\<rparr>,
      sn_workspace =
        \<lparr>sw_touchedFiles = ws_touchedFiles (ag_workspace s),
         sw_planScopedTouchedFiles = Some (ws_planScopedTouchedFiles (ag_workspace s)),
         sw_createdFiles = ws_createdFiles (ag_workspace s),
         sw_deletedFiles = ws_deletedFiles (ag_workspace s),
         sw_revision = Some (ws_revision (ag_workspace s)),
         sw_pendingVerification = ws_pendingVerification (ag_workspace s)\<rparr>,
      sn_messageIds = map msg_id (ag_messages s), sn_evidenceIds = ag_evidenceIds s,
      sn_taskIds = map tk_id (ag_tasks s), sn_messages = Some (ag_messages s),
      sn_pendingToolCalls = Some (ag_pendingToolCalls s), sn_toolResults = Some (ag_toolResults s),
      sn_lastTransition = ag_lastTransition s, sn_lastVerification = ag_lastVerification s,
      sn_pendingRepair = ag_pendingRepair s, sn_selection = ag_selection s,
      sn_reflections = Some (ag_reflections s), sn_latestPlanHealth = ag_latestPlanHealth s,
      sn_reflectionEvaluations = Some (ag_reflectionEvaluations s), sn_tasks = Some (ag_tasks s)\<rparr>"

lemma createSnapshot_image: "adaptive_ok H s \<Longrightarrow> createSnapshot H s q = Inr (snapshot_image s q)"
  by (cases "ag_selection s")
    (simp_all add: createSnapshot_def freeze_option_def snapshot_image_def adaptive_ok_def Let_def)

lemma image_obligation: "obligation_ok s \<Longrightarrow> \<not> invalid_obligation (snapshot_image s q)"
  by (auto simp: invalid_obligation_def snapshot_image_def obligation_ok_def Let_def split: option.splits)

lemma image_no_error: "adaptive_ok H s \<Longrightarrow> verdict_ok s \<Longrightarrow> snapshot_error (snapshot_image s q) = None"
  by (auto simp: snapshot_error_def snapshot_image_def adaptive_ok_def verdict_ok_def split: option.splits)

lemma restored_image:
  "fresh s0 \<Longrightarrow>
   restore_entities (restore_base s0 (snapshot_image s q)) (snapshot_image s q) = (transplant s0 s)\<lparr>ag_selection := None\<rparr>"
  by (simp add: restore_entities_def restore_base_def snapshot_image_def transplant_def fresh_def Let_def)

lemma restore_image_selection:
  "adaptive_ok H s \<Longrightarrow>
   restore_selection H ((transplant s0 s)\<lparr>ag_selection := None\<rparr>) (snapshot_image s q) = Inr (transplant s0 s)"
  by (cases "ag_selection s")
    (simp_all add: restore_selection_def snapshot_image_def transplant_def adaptive_ok_def)

lemma transplant_simps [simp]:
  "ag_selection (transplant s0 s) = ag_selection s" "ag_reflections (transplant s0 s) = ag_reflections s"
  by (simp_all add: transplant_def)

lemma restore_valid_image:
  assumes "adaptive_ok H s" "verdict_ok s" "\<not> invalid_obligation (snapshot_image s q)" "fresh s0"
  shows "restoreFromSnapshot H s0 (snapshot_image s q) = Inr (transplant s0 s)"
proof -
  have "sn_version (snapshot_image s q) = Some 5" by (simp add: snapshot_image_def)
  moreover have "list_all (validReflectionCalibration (transplant s0 s)) (ag_reflections s)"
    using assms(1) validReflectionCalibration_cong [of "transplant s0 s" s] by (simp add: adaptive_ok_def)
  ultimately show ?thesis
    using assms image_no_error [OF assms(1, 2)]
    by (simp add: restoreFromSnapshot_def full_version_def restored_image restore_image_selection)
qed

lemma restore_image:
  "adaptive_ok H s \<Longrightarrow> verdict_ok s \<Longrightarrow> obligation_ok s \<Longrightarrow> fresh s0 \<Longrightarrow>
   restoreFromSnapshot H s0 (snapshot_image s q) = Inr (transplant s0 s)"
  by (simp add: restore_valid_image image_obligation)

subsection \<open>The run id does not matter\<close>

definition same_run_data :: "agent_state \<Rightarrow> agent_state \<Rightarrow> bool" where
  "same_run_data s t \<longleftrightarrow> t = s\<lparr>ag_runId := ag_runId t\<rparr>"

lemma run_id_small [simp]:
  "opened_at (s\<lparr>ag_runId := x\<rparr>) = opened_at s"
  "prepared_source (s\<lparr>ag_runId := x\<rparr>) = prepared_source s"
  "completed_tasks (s\<lparr>ag_runId := x\<rparr>) = completed_tasks s"
  "successful_calls (s\<lparr>ag_runId := x\<rparr>) = successful_calls s"
  "validReflectionCalibration (s\<lparr>ag_runId := x\<rparr>) = validReflectionCalibration s"
  by (simp_all add: opened_at_def prepared_source_def completed_tasks_def successful_calls_def fun_eq_iff
      validReflectionCalibration_cong [of "s\<lparr>ag_runId := x\<rparr>" s] split: option.split)

lemma run_id_irrelevant [simp]:
  "validReflectionBaseline (s\<lparr>ag_runId := x\<rparr>) r = validReflectionBaseline s r"
  "normalizeWorkspacePaths H (s\<lparr>ag_runId := x\<rparr>) ps = normalizeWorkspacePaths H s ps"
  "fact_level_progress (s\<lparr>ag_runId := x\<rparr>) p = fact_level_progress s p"
  "valid_evaluation (s\<lparr>ag_runId := x\<rparr>) r d e = valid_evaluation s r d e"
  "batch_results (s\<lparr>ag_runId := x\<rparr>) n = batch_results s n"
  "mutation_pending (s\<lparr>ag_runId := x\<rparr>) m paths = mutation_pending s m paths"
  "observe_change (s\<lparr>ag_runId := x\<rparr>) w q = observe_change s w q"
  by (simp_all add: validReflectionBaseline_def normalizeWorkspacePaths_def fact_level_progress_def
      valid_evaluation_def batch_results_def mutation_pending_def observe_change_def
      legacy_pending_def Let_def)

lemma same_run_user_message:
  "same_run_data (reduce_user_message (s\<lparr>ag_runId := x\<rparr>) m) (reduce_user_message s m)"
  by (auto simp: reduce_user_message_def same_run_data_def Let_def split: option.split)

lemma same_run_evaluation:
  "rel_res same_run_data (reduce_evaluation (s\<lparr>ag_runId := x\<rparr>) e) (reduce_evaluation s e)"
  by (auto simp: reduce_evaluation_def same_run_data_def split: option.split)

lemma same_run_mutation_started:
  "rel_res same_run_data (reduce_mutation_started H (s\<lparr>ag_runId := x\<rparr>) e) (reduce_mutation_started H s e)"
  by (auto simp: reduce_mutation_started_def intro!: rel_res_bind [where R = "(=)"])
    (auto simp: rel_res_def same_run_data_def split: sum.split)

lemma reduce_run_id:
  "rel_res same_run_data (reduce H (s\<lparr>ag_runId := x\<rparr>) f) (reduce H s f)"
proof (cases f)
  case (User_message_accepted m)
  then show ?thesis by (simp add: same_run_user_message)
next
  case (Reflection_evaluated e)
  then show ?thesis by (simp add: same_run_evaluation)
next
  case (Workspace_mutation_started e)
  then show ?thesis by (simp add: same_run_mutation_started)
qed (simp_all add: handler_defs same_run_data_def
      split: option.split sum.split continue_transition.split)

lemma same_run_sim: "same_run_data s t \<Longrightarrow> rel_res same_run_data (reduce H s f) (reduce H t f)"
proof -
  assume "same_run_data s t"
  then obtain x where "t = s\<lparr>ag_runId := x\<rparr>" unfolding same_run_data_def by blast
  then have "s = t\<lparr>ag_runId := ag_runId s\<rparr>" by simp
  then show ?thesis using reduce_run_id by metis
qed

interpretation replays: simulation_machine "reduce H" "reduce H" same_run_data for H
  by unfold_locales (rule same_run_sim)

subsection \<open>Snapshot and tail against full replay\<close>

text \<open>
  Before the run terminates, a state reached from the initial one differs from its transplant
  into that initial state in the run id only.
\<close>

lemma transplant_reached:
  assumes "applyFacts H (createInitialState i) fs = Inr s" "list_all (\<lambda>f. \<not> is_termination f) fs"
  shows "same_run_data (transplant (createInitialState i) s) s"
proof -
  have "fixed_view s = fixed_view (createInitialState i)"
    using fixed.inv_run assms(1) by (simp add: applyFacts_run list_all_iff)
  moreover have "ag_phase s = ag_phase (createInitialState i)"
    using phases.inv_run assms by (simp add: applyFacts_run)
  ultimately show ?thesis
    by (simp add: same_run_data_def transplant_def fixed_view_def)
qed

lemma reached_invariants:
  assumes "applyFacts H (createInitialState i) fs = Inr s"
  shows "lifecycle_ok s" "verdict_ok s" "adaptive_ok H s"
    "non_blank (in_turnId i) \<Longrightarrow> list_all labelled_fact fs \<Longrightarrow> obligation_ok s"
  using lifecycle.inv_run verdicts.inv_run adaptive.inv_run obligations.inv_run initial_ok assms
  by (auto simp: applyFacts_run list_all_iff)

subsection \<open>The trust boundary\<close>

lemma restore_cases:
  assumes "restoreFromSnapshot H s0 sn = Inr r" "full_version (sn_version sn)"
  shows "\<not> invalid_obligation sn" "snapshot_error sn = None"
    "restore_selection H (restore_entities (restore_base s0 sn) sn) sn = Inr r"
    "list_all (validReflectionCalibration r) (ag_reflections r)"
  using assms
  by (auto simp: restoreFromSnapshot_def bind_res_Inr_iff split: if_splits option.splits)

lemma restore_selection_effect:
  "restore_selection H s sn = Inr r \<Longrightarrow>
   ag_lastVerification r = ag_lastVerification s \<and> ag_pendingRepair r = ag_pendingRepair s \<and>
   ag_latestPlanHealth r = ag_latestPlanHealth s \<and> ag_workspace r = ag_workspace s \<and>
   (ag_selection r = ag_selection s \<or> (\<exists>x. ag_selection r = Some x \<and> isOutcomeCalibrationSelection H x))"
  by (auto simp: restore_selection_def bind_res_Inr_iff split: option.splits if_splits)

lemma restored_adaptive_ok:
  assumes "restoreFromSnapshot H s0 sn = Inr r" "full_version (sn_version sn)" "fresh s0"
  shows "adaptive_ok H r"
proof -
  note c = restore_cases [OF assms(1, 2)]
  have "pred_option (isOutcomeCalibrationSelection H) (ag_selection r)"
    using restore_selection_effect [OF c(3)] assms(3)
    by (auto simp: restore_entities_def restore_base_def fresh_def Let_def)
  moreover have "pred_option (\<lambda>a. isSupervisorAction (sd_action (ph_decision a))) (ag_latestPlanHealth r)"
    using restore_selection_effect [OF c(3)] assms(3) c(2)
    by (auto simp: restore_entities_def restore_base_def fresh_def Let_def snapshot_error_def
        split: option.splits if_splits)
  ultimately show ?thesis using c(4) by (simp add: adaptive_ok_def)
qed

end
