(* ===== verification/StateProperties.thy ===== *)
theory StateProperties
  imports SnapshotRecovery
begin

text \<open>
  The properties of the reducer and of snapshot recovery.
\<close>

subsection \<open>A concrete run for the witnesses\<close>

definition demo_host :: host where
  "demo_host = \<lparr>h_sha256 = (\<lambda>s. ''0123456789abcdef'' @ s), h_cwd = ''/''\<rparr>"

definition demo_input :: initial_input where
  "demo_input =
     \<lparr>in_sessionId = ''s'', in_runId = ''r'', in_turnId = ''t'', in_workspaceRoot = ''/w'', in_mode = None,
      in_maxTurns = 20, in_maxModelCalls = 20, in_maxToolCalls = 20, in_maxWallTimeMs = 1000, in_now = 0\<rparr>"

definition demo_call :: tool_call where
  "demo_call = \<lparr>tc_id = ''c1'', tc_name = ''Write'', tc_input = JNull, tc_parentMessageId = ''m'', tc_receivedIndex = 0\<rparr>"

definition demo_result :: tool_call_result where
  "demo_result =
     \<lparr>tr_callId = ''c1'', tr_toolName = ''Write'', tr_ok = True, tr_content = Text_content ''ok'',
      tr_errorCode = None, tr_durationMs = 1, tr_synthetic = None, tr_observation = None\<rparr>"

definition demo_mutation :: mutation_started where
  "demo_mutation =
     \<lparr>mst_mutationId = ''m1'', mst_callId = ''c1'', mst_toolName = ''Write'', mst_scope = Workspace_scope,
      mst_paths = [], mst_reason = ''write'', mst_durableBeforeExecution = None\<rparr>"

definition demo_facts :: "fact_event list" where
  "demo_facts = [Run_started ''r2'' ''h'', Tool_call_accepted demo_call,
     Workspace_mutation_started demo_mutation, Tool_call_completed demo_result,
     Replan_requested ''cause'' True]"

definition demo_state :: agent_state where
  "demo_state = projr (applyFacts demo_host (createInitialState demo_input) demo_facts)"

lemmas demo_defs = demo_host_def demo_input_def demo_call_def demo_result_def demo_mutation_def demo_facts_def

lemma demo_run: "applyFacts demo_host (createInitialState demo_input) demo_facts = Inr demo_state"
proof -
  have "\<exists>s. applyFacts demo_host (createInitialState demo_input) demo_facts = Inr s"
    by (simp add: demo_defs createInitialState_def initialRecovery_def handler_defs obj_defined_def obj_get_def
        object_prototype_keys_def invalid_mutation_def pending_sources_def normalizeWorkspacePaths_def
        non_blank_Cons is_ws_def)
  then show ?thesis by (auto simp: demo_state_def)
qed

lemma demo_facts_ok [simp]:
  "list_all labelled_fact demo_facts" "list_all (\<lambda>f. \<not> is_termination f) demo_facts"
  "non_blank (in_turnId demo_input)"
  by (simp_all add: demo_defs non_blank_Cons is_ws_def)

subsection \<open>Snapshots\<close>





text \<open>
  A snapshot does not record that the run terminated. After a terminated run, full replay
  marks the next human message as a follow-up while recovery from the snapshot does not, so
  the two are not field-for-field equal there.
\<close>

theorem snapshot_forgets_termination:
  "let s0 = createInitialState i; s = reduce_terminated s0 (Aborted p);
       m = m0\<lparr>msg_meta := Some \<lparr>mm_model = None, mm_usage = None, mm_source = Some Human, mm_synthetic = None\<rparr>\<rparr>
   in \<exists>sn r. applyFacts H s0 [Run_terminated (Aborted p)] = Inr s \<and>
        createSnapshot H s q = Inr sn \<and> restoreFromSnapshot H s0 sn = Inr r \<and>
        ag_lastTransition (reduce_user_message s m) = Some User_followup \<and>
        ag_lastTransition (reduce_user_message r m) = None"
proof -
  let ?init = "createInitialState i"
  let ?s = "reduce_terminated ?init (Aborted p)"
  have 1: "adaptive_ok H ?s" "verdict_ok ?s" "\<not> invalid_obligation (snapshot_image ?s q)"
    by (simp_all add: reduce_terminated_def closes_request_def createInitialState_def adaptive_ok_def
        verdict_ok_def initialRecovery_def invalid_obligation_def snapshot_image_def
        is_non_negative_integer_def)
  then have "restoreFromSnapshot H ?init (snapshot_image ?s q) = Inr (transplant ?init ?s)"
    by (simp add: restore_valid_image)
  then show ?thesis
    using createSnapshot_image [OF 1(1)]
    by (auto simp: Let_def reduce_user_message_def is_human_def reduce_terminated_def transplant_def
        createInitialState_def closes_request_def)
qed

text \<open>C39:
  The trust boundary. Whatever a V5 snapshot holds, a state restored from it carries only
  validated data: a canonical calibration selection, reflections attributed to it, a known
  plan-health action, no PASS that is not valid, no verdict next to a pending repair, a
  well-formed repair attempt, and a pending obligation that names its revision and sources.
\<close>

theorem restore_trust_boundary:
  assumes "restoreFromSnapshot H s0 sn = Inr r" "sn_version sn = Some 5" "fresh s0"
  shows "adaptive_ok H r \<and>
    (ag_lastVerification r = None \<or> ag_pendingRepair r = None) \<and>
    (\<forall>lv. ag_lastVerification r = Some lv \<longrightarrow> vr_verdict (lv_report lv) = PASS \<longrightarrow> lv_valid lv) \<and>
    (\<forall>p. ag_pendingRepair r = Some p \<longrightarrow>
       vr_verdict (vp_report p) \<noteq> PASS \<and> is_integer (vp_attempt p) \<and> 1 \<le> vp_attempt p) \<and>
    is_non_negative_integer (ws_revision (ag_workspace r)) \<and>
    pred_option (valid_pending (Some (ws_revision (ag_workspace r)))) (ws_pendingVerification (ag_workspace r))"
proof -
  have f: "full_version (sn_version sn)" using assms(2) by (simp add: full_version_def)
  note c = restore_cases [OF assms(1) f]
  note e = restore_selection_effect [OF c(3)]
  have lv: "ag_lastVerification r = sn_lastVerification sn" "ag_pendingRepair r = sn_pendingRepair sn"
    using e assms(3) by (simp_all add: restore_entities_def restore_base_def fresh_def Let_def)
  have w: "ws_revision (ag_workspace r) = or_else (sw_revision (sn_workspace sn)) 0"
    "ws_pendingVerification (ag_workspace r) = sw_pendingVerification (sn_workspace sn)"
    using e assms(2) by (simp_all add: restore_entities_def restore_base_def Let_def)
  have "is_non_negative_integer (ws_revision (ag_workspace r)) \<and>
    pred_option (valid_pending (Some (ws_revision (ag_workspace r)))) (ws_pendingVerification (ag_workspace r))"
    using c(1) assms(2) unfolding w by (auto simp: invalid_obligation_def Let_def split: option.splits)
  moreover have "adaptive_ok H r" by (rule restored_adaptive_ok [OF assms(1) f assms(3)])
  ultimately show ?thesis
    using c(2) unfolding lv by (auto simp: snapshot_error_def split: option.splits if_splits)
qed

lemma demo_restored:
  "restoreFromSnapshot demo_host (createInitialState demo_input) (snapshot_image demo_state None) =
   Inr (transplant (createInitialState demo_input) demo_state)"
  using reached_invariants [OF demo_run] restore_image [of demo_host demo_state] by simp

theorem restore_trust_boundary_witness:
  "adaptive_ok demo_host (transplant (createInitialState demo_input) demo_state)"
  using restore_trust_boundary [OF demo_restored] by (simp add: snapshot_image_def)

subsection \<open>The tool-call lifecycle\<close>

lemma calls_accounted_step:
  "k \<in> set (map tc_id (ag_pendingToolCalls s)) \<union> set (obj_keys (ag_toolResults s)) \<Longrightarrow>
   reduce H s f = Inr s' \<Longrightarrow>
   k \<in> set (map tc_id (ag_pendingToolCalls s')) \<union> set (obj_keys (ag_toolResults s'))"
proof (cases "touches_calls f")
  case True
  then show "k \<in> set (map tc_id (ag_pendingToolCalls s)) \<union> set (obj_keys (ag_toolResults s)) \<Longrightarrow>
   reduce H s f = Inr s' \<Longrightarrow> ?thesis"
    by (cases f)
      (auto simp: call_accepted_effect reduce_call_completed_def set_used_def obj_keys_set split: if_splits)
next
  case False
  then show "k \<in> set (map tc_id (ag_pendingToolCalls s)) \<union> set (obj_keys (ag_toolResults s)) \<Longrightarrow>
   reduce H s f = Inr s' \<Longrightarrow> ?thesis"
    using calls_frame by metis
qed

interpretation accounted: invariant_machine "reduce H" "\<lambda>f. True"
  "\<lambda>s. k \<in> set (map tc_id (ag_pendingToolCalls s)) \<union> set (obj_keys (ag_toolResults s))" for H k
  by unfold_locales (rule calls_accounted_step)

text \<open>
  C13: on every journal, each accepted tool call is at the end either pending or has exactly
  one terminal result filed under its own id, never both and never neither.
\<close>

theorem tool_calls_accounted:
  assumes "applyFacts H (createInitialState i) fs = Inr s" "Tool_call_accepted c \<in> set fs"
  shows "(tc_id c \<in> set (map tc_id (ag_pendingToolCalls s)) \<longleftrightarrow> tc_id c \<notin> set (obj_keys (ag_toolResults s))) \<and>
    distinct (map tc_id (ag_pendingToolCalls s)) \<and> distinct (obj_keys (ag_toolResults s)) \<and>
    pred_option (\<lambda>r. tr_callId r = tc_id c) (obj_get (ag_toolResults s) (tc_id c))"
proof -
  from assms(2) obtain pre post where fs: "fs = pre @ Tool_call_accepted c # post"
    by (meson split_list)
  with assms(1) obtain m m' where "reduce_call_accepted H m c = Inr m'" "applyFacts H m' post = Inr s"
    by (auto simp: applyFacts_append bind_res_Inr_iff)
  then have "tc_id c \<in> set (map tc_id (ag_pendingToolCalls s)) \<union> set (obj_keys (ag_toolResults s))"
    using accounted.inv_run [of H m' post s "tc_id c"] by (auto simp: call_accepted_effect applyFacts_run list_all_iff)
  moreover have ok: "lifecycle_ok s" by (rule reached_invariants(1) [OF assms(1)])
  moreover have "pred_option (\<lambda>r. tr_callId r = tc_id c) (obj_get (ag_toolResults s) (tc_id c))"
    using ok by (cases "obj_get (ag_toolResults s) (tc_id c)")
      (auto simp: lifecycle_ok_def obj_get_def dest!: map_of_SomeD)
  ultimately show ?thesis by (auto simp: lifecycle_ok_def)
qed

theorem tool_calls_accounted_witness:
  "(''c1'' \<in> set (map tc_id (ag_pendingToolCalls demo_state)) \<longleftrightarrow>
    ''c1'' \<notin> set (obj_keys (ag_toolResults demo_state)))"
  using tool_calls_accounted [OF demo_run, of demo_call] by (simp add: demo_facts_def demo_call_def)

text \<open>
  A result is accepted only once per lifecycle: reducing the same completion again is
  refused, and after re-acceptance of the id the stale result is gone and the call is pending.
\<close>

theorem single_terminal_result:
  assumes "reduce H s (Tool_call_completed r) = Inr s'"
  shows "reduce H s' (Tool_call_completed (r2\<lparr>tr_callId := tr_callId r\<rparr>)) =
      Inl (InvariantError ''single_terminal_tool_result'') \<and>
    (\<exists>t. reduce H s' (Tool_call_accepted (c\<lparr>tc_id := tr_callId r\<rparr>)) = Inr t \<and>
       obj_get (ag_toolResults t) (tr_callId r) = None \<and>
       tr_callId r \<in> set (map tc_id (ag_pendingToolCalls t)))"
proof -
  have "ag_toolResults s' = obj_set (ag_toolResults s) (tr_callId r) r"
    "ag_pendingToolCalls s' = filter (\<lambda>c. tc_id c \<noteq> tr_callId r) (ag_pendingToolCalls s)"
    using assms by (auto simp: reduce_call_completed_def set_used_def split: if_splits)
  then show ?thesis
    by (auto simp: reduce_call_completed_def obj_defined_def call_accepted_effect list_ex_iff)
qed

theorem single_terminal_result_witness:
  "\<exists>s'. reduce demo_host (createInitialState demo_input) (Tool_call_completed demo_result) = Inr s' \<and>
     reduce demo_host s' (Tool_call_completed demo_result) = Inl (InvariantError ''single_terminal_tool_result'')"
proof -
  have "\<exists>s'. reduce demo_host (createInitialState demo_input) (Tool_call_completed demo_result) = Inr s'"
    by (simp add: reduce_call_completed_def demo_result_def obj_defined_def obj_get_def
        object_prototype_keys_def createInitialState_def)
  then obtain s' where s': "reduce demo_host (createInitialState demo_input) (Tool_call_completed demo_result) = Inr s'"
    by blast
  from single_terminal_result [OF this, of demo_result] s' show ?thesis by auto
qed

subsection \<open>Verification obligations\<close>

definition pending_ids :: "agent_state \<Rightarrow> string list" where
  "pending_ids s = map ms_mutationId (pending_sources (ws_pendingVerification (ag_workspace s)))"

lemma map_update_first [simp]: "(\<And>x. g (f x) = g x) \<Longrightarrow> map g (update_first P f xs) = map g xs"
  by (induction P f xs rule: update_first.induct) auto

lemma prepared_ids [simp]:
  "map ms_mutationId (pv_sources (prepared_pending e p v)) = map ms_mutationId (pv_sources v)"
  by (simp add: prepared_pending_def)

lemma pending_sources_simps [simp]: "pending_sources None = []" "pending_sources (Some v) = pv_sources v"
  by (simp_all add: pending_sources_def)

lemma new_sources:
  "map ms_mutationId (pv_sources (mutation_pending s e paths)) = pending_ids s @ [mst_mutationId e]"
  "\<exists>k. map ms_mutationId (pv_sources (legacy_pending s w p)) = pending_ids s @ [k]"
  by (simp_all add: mutation_pending_def legacy_pending_def pending_ids_def Let_def)

lemma observe_change_grows:
  "\<exists>v. ws_pendingVerification (observe_change s e p) = Some v \<and>
     set (pending_ids s) \<subseteq> set (map ms_mutationId (pv_sources v))"
proof (cases "prepared_source s e")
  case True
  then obtain v where "ws_pendingVerification (ag_workspace s) = Some v"
    by (cases "ws_pendingVerification (ag_workspace s)") (auto simp: prepared_source_def split: option.splits)
  then show ?thesis
    using True by (simp add: observe_change_def Let_def pending_ids_def del: set_map)
next
  case False
  then show ?thesis
    using new_sources(2) [of s e p] by (auto simp: observe_change_def Let_def simp del: set_map)
qed

lemma obligation_grows:
  assumes "reduce H s f = Inr s'" "touches_obligation f" "\<not> is_termination f"
  shows "ws_pendingVerification (ag_workspace s') \<noteq> None \<and> set (pending_ids s) \<subseteq> set (pending_ids s')"
proof (cases f)
  case (Workspace_mutation_started e)
  then obtain paths where "ws_pendingVerification (ag_workspace s') = Some (mutation_pending s e paths)"
    using assms by (auto simp: reduce_mutation_started_def bind_res_Inr_iff split: if_splits)
  then show ?thesis using new_sources(1) [of s e paths] by (auto simp: pending_ids_def [of s'] simp del: set_map)
next
  case (Workspace_changed e)
  then obtain p where "ws_pendingVerification (ag_workspace s') = ws_pendingVerification (observe_change s e p)"
    using assms by (auto simp: reduce_workspace_changed_def bump_progress_def split: sum.splits)
  then show ?thesis
    using observe_change_grows [of s e p] by (auto simp: pending_ids_def [of s'] simp del: set_map)
qed (use assms in auto)

text \<open>
  C23: no fact but a clean completion discharges a pending verification obligation, and until
  then no mutation it names is ever forgotten. Compaction, mode changes, replanning, aborts
  and verdicts leave it open.
\<close>

theorem obligation_discharge:
  assumes "reduce H s f = Inr s'" "ws_pendingVerification (ag_workspace s) \<noteq> None"
  shows "(ws_pendingVerification (ag_workspace s') \<noteq> None \<and> set (pending_ids s) \<subseteq> set (pending_ids s')) \<noteq>
    (\<exists>t. f = Run_terminated t \<and> closes_request t)"
proof (cases "is_termination f")
  case True
  then obtain t where f: "f = Run_terminated t" by (cases f) auto
  then show ?thesis
    using assms by (auto simp: reduce_terminated_def Let_def pending_ids_def)
next
  case False
  then have "\<nexists>t. f = Run_terminated t" by auto
  then show ?thesis
    using obligation_grows [OF assms(1)] obligation_frame [OF assms(1)] assms(2) False
    by (cases "touches_obligation f") (auto simp: obligation_view_def pending_ids_def)
qed

lemma demo_pending: "ws_pendingVerification (ag_workspace demo_state) \<noteq> None"
  by (simp add: demo_state_def demo_defs createInitialState_def initialRecovery_def handler_defs obj_defined_def
      obj_get_def object_prototype_keys_def invalid_mutation_def pending_sources_def
      normalizeWorkspacePaths_def non_blank_Cons is_ws_def)

theorem obligation_discharge_witness:
  "ws_pendingVerification (ag_workspace (reduce_terminated demo_state Completed_run)) = None"
  using obligation_discharge [of demo_host demo_state "Run_terminated Completed_run", OF _ demo_pending]
  by (auto simp: closes_request_def reduce_terminated_def)

lemma observe_change_pending:
  assumes "obligation_ok s"
  shows "\<exists>v. ws_pendingVerification (observe_change s e p) = Some v \<and>
    pv_revision v = ws_revision (observe_change s e p) \<and> p \<in> set (pv_changedPaths v) \<and>
    ws_revision (ag_workspace s) \<le> ws_revision (observe_change s e p)"
proof (cases "prepared_source s e")
  case True
  then obtain v where v: "ws_pendingVerification (ag_workspace s) = Some v"
    by (cases "ws_pendingVerification (ag_workspace s)") (auto simp: prepared_source_def split: option.splits)
  then have "pv_revision v = ws_revision (ag_workspace s)"
    using assms by (simp add: obligation_ok_def valid_pending_def)
  then show ?thesis using True v by (simp add: observe_change_def prepared_pending_def Let_def)
next
  case False
  then show ?thesis by (simp add: observe_change_def legacy_pending_def Let_def)
qed

lemma track_change_touched [simp]: "p \<in> set (ws_touchedFiles (track_change c p w))"
  by (simp add: track_change_def Let_def split: file_change.split)

text \<open>
  A workspace fact invalidates the verdict and raises the obligation. After a prepared
  mutation or an observed change no verification result is left, the revision has not gone
  down, the obligation carries the current revision, and an observed path is tracked under
  its canonical workspace key.
\<close>

theorem workspace_fact_invalidates_verdict:
  assumes "reduce H s f = Inr s'" "touches_obligation f" "\<not> is_termination f" "obligation_ok s"
  shows "ag_lastVerification s' = None \<and> ws_revision (ag_workspace s) \<le> ws_revision (ag_workspace s') \<and>
    (\<exists>v. ws_pendingVerification (ag_workspace s') = Some v \<and> pv_revision v = ws_revision (ag_workspace s') \<and>
       (\<forall>e. f = Workspace_changed e \<longrightarrow>
          (\<exists>p. workspacePathKey H (ws_root (ag_workspace s)) (wc_path e) = Inr p \<and>
             p \<in> set (pv_changedPaths v) \<and> p \<in> set (ws_touchedFiles (ag_workspace s')))))"
proof (cases f)
  case (Workspace_mutation_started e)
  then show ?thesis
    using assms by (auto simp: reduce_mutation_started_def bind_res_Inr_iff mutation_pending_def Let_def split: if_splits)
next
  case (Workspace_changed e)
  then obtain p where "workspacePathKey H (ws_root (ag_workspace s)) (wc_path e) = Inr p"
    "s' = bump_progress (s\<lparr>ag_workspace := track_change (wc_change e) p (observe_change s e p), ag_lastVerification := None\<rparr>)"
    using assms by (auto simp: reduce_workspace_changed_def split: sum.splits)
  then show ?thesis
    using observe_change_pending [OF assms(4), of e p] Workspace_changed by (auto simp: bump_progress_def)
qed (use assms in auto)

theorem workspace_fact_invalidates_verdict_witness:
  "\<exists>s'. reduce demo_host (createInitialState demo_input) (Workspace_mutation_started demo_mutation) = Inr s' \<and>
     ag_lastVerification s' = None"
proof -
  have "\<exists>s'. reduce demo_host (createInitialState demo_input) (Workspace_mutation_started demo_mutation) = Inr s'"
    by (simp add: demo_defs createInitialState_def reduce_mutation_started_def invalid_mutation_def
        pending_sources_def normalizeWorkspacePaths_def non_blank_Cons is_ws_def)
  then obtain s' where s': "reduce demo_host (createInitialState demo_input) (Workspace_mutation_started demo_mutation) = Inr s'"
    by blast
  from workspace_fact_invalidates_verdict [OF this] s' show ?thesis using initial_ok(4) by simp
qed

text \<open>
  On every journal a persisted PASS is a valid one, a verdict and an open repair never
  coexist, and an open repair carries a non-PASS report and a positive whole attempt.
\<close>

theorem verdicts_reachable:
  assumes "applyFacts H (createInitialState i) fs = Inr s"
  shows "\<not> (\<exists>lv. ag_lastVerification s = Some lv \<and> vr_verdict (lv_report lv) = PASS \<and> \<not> lv_valid lv) \<and>
    (ag_lastVerification s = None \<or> ag_pendingRepair s = None) \<and>
    pred_option (\<lambda>p. vr_verdict (vp_report p) \<noteq> PASS \<and> is_positive_integer (vp_attempt p)) (ag_pendingRepair s)"
  using reached_invariants(2) [OF assms]
  by (cases "ag_pendingRepair s") (auto simp: verdict_ok_def is_positive_integer_def)

theorem verdicts_reachable_witness:
  "ag_lastVerification demo_state = None \<or> ag_pendingRepair demo_state = None"
  using verdicts_reachable [OF demo_run] by (elim conjE)

subsection \<open>Plans, replanning and modes\<close>

text \<open>
  A plan approval binds to the active plan version. It is accepted exactly when the
  approved id and version are the active ones; then the plan is approved, replanning and its
  approval gate end, the plan-scoped change set restarts, and no verdict or repair survives.
  Any other approval is refused as a protocol violation.
\<close>

theorem plan_approval_binding:
  "reduce H s (Plan_approved planId version token) =
     (if plan_is (ag_activePlan s) planId version
      then Inr (s\<lparr>ag_activePlan := Some \<lparr>ap_planId = planId, ap_version = version, ap_approved = True\<rparr>,
                  ag_workspace := (ag_workspace s)\<lparr>ws_planScopedTouchedFiles := []\<rparr>,
                  ag_recovery := (ag_recovery s)
                    \<lparr>rs_replanning := False, rs_replanAwaitingApproval := False,
                     rs_ineffectiveReflectionCount := 0, rs_verifierRepairs := 0\<rparr>,
                  ag_lastVerification := None, ag_pendingRepair := None\<rparr>)
      else Inl (InvariantError ''plan_approval_version_binding''))"
  by (auto simp: reduce_plan_approved_def plan_is_def set_approved_def split: option.splits)

definition replan_view :: "agent_state \<Rightarrow> bool \<times> bool" where
  "replan_view s = (rs_replanning (ag_recovery s), rs_replanAwaitingApproval (ag_recovery s))"

fun touches_replan :: "fact_event \<Rightarrow> bool" where
  "touches_replan (Plan_approved a b c) = True"
| "touches_replan (Replan_requested a b) = True"
| "touches_replan (Replan_adjustment_applied a b) = True"
| "touches_replan f = False"

lemma replan_frame: "reduce H s f = Inr s' \<Longrightarrow> \<not> touches_replan f \<Longrightarrow> replan_view s' = replan_view s"
  by (cases f)
    (auto simp: handler_defs replan_view_def bind_res_Inr_iff
      split: if_splits option.splits sum.splits continue_transition.splits)

text \<open>
  The replan gate. While a replan awaits human approval, the only fact that ends the
  replanning state is the approval of the active plan version, and the only facts that lift
  the approval requirement are that approval and a new replan request.
\<close>

theorem replan_gate:
  assumes "reduce H s f = Inr s'" "rs_replanning (ag_recovery s)" "rs_replanAwaitingApproval (ag_recovery s)"
  shows "(\<not> rs_replanning (ag_recovery s') \<longleftrightarrow>
      (\<exists>p v t. f = Plan_approved p v t \<and> plan_is (ag_activePlan s) p v)) \<and>
    (rs_replanAwaitingApproval (ag_recovery s') \<or>
      (\<exists>p v t. f = Plan_approved p v t \<and> plan_is (ag_activePlan s) p v) \<or>
      (\<exists>c. f = Replan_requested c False))"
proof (cases "touches_replan f")
  case True
  then show ?thesis
    using assms
    by (cases f) (auto simp: reduce_plan_approved_def reduce_replan_requested_def reduce_adjustment_def split: if_splits)
next
  case False
  then show ?thesis
    using replan_frame [OF assms(1)] assms(2, 3) by (auto simp: replan_view_def)
qed

lemma demo_replanning:
  "rs_replanning (ag_recovery demo_state)" "rs_replanAwaitingApproval (ag_recovery demo_state)"
  by (simp_all add: demo_state_def demo_defs createInitialState_def initialRecovery_def handler_defs obj_defined_def
      obj_get_def object_prototype_keys_def invalid_mutation_def normalizeWorkspacePaths_def
      non_blank_Cons is_ws_def)

theorem replan_gate_witness:
  "rs_replanning (ag_recovery (reduce_mode demo_state Default_mode Plan_mode))"
  using replan_gate [of demo_host demo_state "Mode_changed Default_mode Plan_mode None", OF _ demo_replanning] by simp

lemma degraded_frame:
  "reduce H s f = Inr s' \<Longrightarrow> rs_degradedRecovery (ag_recovery s) \<Longrightarrow> rs_degradedRecovery (ag_recovery s')"
  by (cases f)
    (auto simp: handler_defs bind_res_Inr_iff
      split: if_splits option.splits sum.splits continue_transition.splits)

interpretation degraded: invariant_machine "reduce H" "\<lambda>f. True" "\<lambda>s. rs_degradedRecovery (ag_recovery s)" for H
  by unfold_locales (rule degraded_frame)

text \<open>
  A degraded recovery branch stays degraded: once a journal holds the branch fact, no
  later fact reopens the read-only gate, and a snapshot carries it over.
\<close>

theorem degraded_is_permanent:
  assumes "applyFacts H s (pre @ Session_recovery_branch src n issues # post) = Inr s'" "fresh s0"
    "restoreFromSnapshot H s0 (snapshot_image s' q) = Inr r"
  shows "rs_degradedRecovery (ag_recovery s') \<and> rs_degradedRecovery (ag_recovery r)"
proof -
  from assms(1) obtain m where "applyFacts H (reduce_recovery_branch m) post = Inr s'"
    by (auto simp: applyFacts_append bind_res_Inr_iff)
  then have d: "rs_degradedRecovery (ag_recovery s')"
    using degraded.inv_run [of H "reduce_recovery_branch m" post s']
    by (simp add: applyFacts_run reduce_recovery_branch_def list_all_iff)
  have f: "full_version (sn_version (snapshot_image s' q))" by (simp add: full_version_def snapshot_image_def)
  have "ag_recovery r = ag_recovery (restore_base s0 (snapshot_image s' q))"
    using restore_cases(3) [OF assms(3) f]
    by (auto simp: restore_selection_def restore_entities_def bind_res_Inr_iff split: option.splits if_splits)
  then show ?thesis using d by (simp add: restore_base_def snapshot_image_def Let_def)
qed

theorem degraded_is_permanent_witness:
  "rs_degradedRecovery (ag_recovery (transplant (createInitialState demo_input)
     (reduce_recovery_branch (createInitialState demo_input))))"
proof -
  let ?t = "reduce_recovery_branch (createInitialState demo_input)"
  have run0: "applyFacts demo_host (createInitialState demo_input) [Session_recovery_branch ''s'' 3 []] = Inr ?t"
    by simp
  then have run: "applyFacts demo_host (createInitialState demo_input)
      ([] @ Session_recovery_branch ''s'' 3 [] # []) = Inr ?t" by simp
  have ok: "adaptive_ok demo_host ?t" "verdict_ok ?t" "obligation_ok ?t"
    using reached_invariants [OF run0] by simp_all
  from degraded_is_permanent [OF run fresh_initial restore_image [OF ok fresh_initial]]
  show ?thesis by blast
qed

text \<open>
  Plan mode is a bracket. Entering plan mode from another mode and leaving it again gives
  back the mode the agent was in, whatever target the exit names, and nothing is left of the
  detour. A direct change between other modes takes the named target.
\<close>

theorem plan_mode_bracket:
  assumes "m \<noteq> Plan_mode" "dst \<noteq> Plan_mode" "ag_mode s = m" "ag_prePlanMode s = None"
  shows "reduce_mode (reduce_mode s m Plan_mode) Plan_mode dst = s \<and>
    ag_mode (reduce_mode s m Plan_mode) = Plan_mode \<and> ag_mode (reduce_mode s m dst) = dst"
  using assms by (simp add: reduce_mode_def Let_def)

theorem plan_mode_bracket_witness:
  "reduce_mode (reduce_mode (createInitialState demo_input) Default_mode Plan_mode) Plan_mode Bypass_permissions =
   createInitialState demo_input"
  using plan_mode_bracket [of Default_mode Bypass_permissions "createInitialState demo_input"]
  by (simp add: createInitialState_def demo_input_def)

end
