(* ===== verification/PolicyLoop.thy ===== *)
theory PolicyLoop
  imports StateProperties
begin

text \<open>
  The loop policy of core/LoopIntelligence.ts against the reducer: what the engine derives
  from the state is what the reducer accepts, and the derived policy only tightens.
\<close>

subsection \<open>Execution strategy\<close>

lemma min_ratio_critical:
  "remaining_budget s \<le> rnd64 (15 / 100) \<Longrightarrow> fst (desired_strategy s) = Critical"
  by (simp add: desired_strategy_def Let_def)

text \<open>
  The execution strategy only tightens. Whenever a strategy is derived it ranks strictly
  above the current one, recording it settles the policy (nothing more is derived from the
  same counters), and with a call or turn budget at or under fifteen percent the derived
  strategy, or the one already in force, is the critical one.
\<close>

theorem strategy_tightens:
  "(case deriveExecutionStrategy s of
      None \<Rightarrow> remaining_budget s \<le> rnd64 (15 / 100) \<longrightarrow> rs_executionStrategy (ag_recovery s) = Critical
    | Some (st, reason) \<Rightarrow>
        strategy_rank (rs_executionStrategy (ag_recovery s)) < strategy_rank st \<and>
        deriveExecutionStrategy (reduce_strategy s st) = None \<and>
        (remaining_budget s \<le> rnd64 (15 / 100) \<longrightarrow> st = Critical))"
proof -
  have top: "2 \<le> strategy_rank x \<longleftrightarrow> x = Critical" for x by (cases x) auto
  have same: "desired_strategy (reduce_strategy s st) = desired_strategy s" for st
    by (simp add: desired_strategy_def remaining_budget_def reduce_strategy_def Let_def)
  show ?thesis
  proof (cases "deriveExecutionStrategy s")
    case None
    then have "strategy_rank (fst (desired_strategy s)) \<le> strategy_rank (rs_executionStrategy (ag_recovery s))"
      by (simp add: deriveExecutionStrategy_def split: if_split_asm)
    then have "rs_executionStrategy (ag_recovery s) = Critical" if "remaining_budget s \<le> rnd64 (15 / 100)"
      using min_ratio_critical [OF that] top by simp
    then show ?thesis using None by simp
  next
    case (Some x)
    then have x: "x = desired_strategy s" and
      r: "strategy_rank (rs_executionStrategy (ag_recovery s)) < strategy_rank (fst x)"
      by (simp_all add: deriveExecutionStrategy_def split: if_split_asm)
    have "deriveExecutionStrategy (reduce_strategy s (fst x)) = None"
      unfolding deriveExecutionStrategy_def same x by (simp add: reduce_strategy_def)
    then show ?thesis using Some r x min_ratio_critical [of s] by (simp add: case_prod_beta)
  qed
qed

theorem strategy_tightens_witness:
  "deriveExecutionStrategy (createInitialState demo_input) = None \<or>
   strategy_rank (fst (the (deriveExecutionStrategy (createInitialState demo_input)))) > 0"
  using strategy_tightens [of "createInitialState demo_input"]
  by (cases "deriveExecutionStrategy (createInitialState demo_input)")
    (auto simp: createInitialState_def initialRecovery_def)

subsection \<open>Reflections\<close>

lemma counts_are_naturals [simp]:
  "is_non_negative_integer (of_nat n)" "is_non_negative_integer (count_where P xs)"
  by (simp_all add: is_non_negative_integer_def)

lemma built_baseline:
  "is_non_negative_integer (bu_toolCalls (rb_used (ag_budget s))) \<Longrightarrow>
   validReflectionBaseline s (buildReflection s rid ts trigger detail assessment window)"
  by (simp add: validReflectionBaseline_def buildReflection_def Let_def completed_tasks_def successful_calls_def)

definition tool_calls_natural :: "agent_state \<Rightarrow> bool" where
  "tool_calls_natural s \<longleftrightarrow> is_non_negative_integer (bu_toolCalls (rb_used (ag_budget s)))"

lemma tool_calls_step:
  "tool_calls_natural s \<Longrightarrow> reduce H s f = Inr s' \<Longrightarrow> tool_calls_natural s'"
  by (cases f)
    (auto simp: handler_defs tool_calls_natural_def bind_res_Inr_iff next_revision_ok
      split: if_splits option.splits sum.splits continue_transition.splits)

interpretation tool_counter: invariant_machine "reduce H" "\<lambda>f. True" tool_calls_natural for H
  by unfold_locales (rule tool_calls_step)

text \<open>
  The reflection the engine builds is one the reducer accepts. In every state reached by
  replaying a journal, a reflection with a fresh non-blank id, a known trigger, a
  supervisor action of the vocabulary and a whole evaluation window of at most twenty tool
  calls is recorded, and the record becomes the newest of the bounded history.
\<close>

theorem built_reflection_accepted:
  assumes run: "applyFacts H (createInitialState i) fs = Inr s"
    and rid: "non_blank rid" "\<not> list_ex (\<lambda>r. rf_id r = rid) (ag_reflections s)"
    and trig: "trigger \<in> set REFLECTION_TRIGGERS"
    and act: "pred_option (\<lambda>a. isSupervisorAction (sd_action (ph_decision a))) assessment"
    and win: "pred_option (\<lambda>w. is_integer w \<and> w \<le> 20) window"
  shows "\<exists>s'. reduce H s (Reflection_recorded (buildReflection s rid ts trigger detail assessment window)) = Inr s' \<and>
    last (ag_reflections s') = buildReflection s rid ts trigger detail assessment window \<and>
    length (ag_reflections s') \<le> 20"
proof -
  let ?r = "buildReflection s rid ts trigger detail assessment window"
  have "tool_calls_natural (createInitialState i)"
    by (simp add: tool_calls_natural_def createInitialState_def is_non_negative_integer_def)
  then have "tool_calls_natural s" using tool_counter.inv_run run by (simp add: applyFacts_run list_all_iff)
  then have "validReflectionBaseline s ?r" by (simp add: built_baseline tool_calls_natural_def)
  moreover have "validReflectionCalibration s ?r"
    by (simp add: validReflectionCalibration_def buildReflection_def Let_def)
  moreover have "case rf_decision ?r of Some d \<Rightarrow> valid_reflection_decision d | None \<Rightarrow> True"
    using act win
    by (cases assessment; cases window)
      (auto simp: buildReflection_def Let_def valid_reflection_decision_def window_in_range_def)
  moreover have "rf_id ?r = rid" "rf_trigger ?r = trigger" by (simp_all add: buildReflection_def Let_def)
  ultimately show ?thesis
    using rid trig
    by (auto simp: reduce_reflection_def length_slice_last slice_last_def split: option.splits)
qed

theorem built_reflection_accepted_witness:
  "\<exists>s'. reduce demo_host demo_state (Reflection_recorded
     (buildReflection demo_state ''r1'' ''now'' Periodic None None None)) = Inr s'"
proof -
  have "ag_reflections demo_state = []"
    by (simp add: demo_state_def demo_defs createInitialState_def initialRecovery_def handler_defs obj_defined_def
        obj_get_def object_prototype_keys_def invalid_mutation_def normalizeWorkspacePaths_def non_blank_Cons is_ws_def)
  then show ?thesis
    using built_reflection_accepted [OF demo_run, of "''r1''" Periodic None None "''now''" None]
    by (auto simp: non_blank_Cons is_ws_def REFLECTION_TRIGGERS_def)
qed

subsection \<open>Stagnation\<close>

lemma signature_fresh:
  "repeated_call s = Some r \<Longrightarrow> rs_lastStagnationSignature (ag_recovery s) \<noteq> Some (sg_signature r)"
  "repeated_failure s = Some r \<Longrightarrow> rs_lastStagnationSignature (ag_recovery s) \<noteq> Some (sg_signature r)"
  "no_progress s = Some r \<Longrightarrow> rs_lastStagnationSignature (ag_recovery s) \<noteq> Some (sg_signature r)"
  by (auto simp: repeated_call_def repeated_failure_def no_progress_def Let_def split: if_splits)

lemma all_same_hd: "all_same xs \<Longrightarrow> \<forall>x \<in> set xs. x = hd xs"
proof -
  assume "all_same xs"
  then obtain y where "remdups xs = [y]" by (auto simp: all_same_def length_Suc_conv)
  then have "set xs = {y}" by (metis list.set(1) list.set(2) set_remdups)
  then show ?thesis by (metis insert_not_empty list.set_sel(1) set_empty singletonD)
qed

text \<open>
  Stagnation signals are sound and never repeat. A detected signature differs from the
  last recorded one; a repeated call means that the last three recorded fingerprints are
  equal, a repeated failure that the last three outcomes are the same error, and a lack of
  progress that at least eight calls passed without a progress fact; and once the signal is
  recorded the same signature is not detected again on the same history.
\<close>

theorem stagnation_sound:
  assumes "detectStagnation s = Some r"
  shows "rs_lastStagnationSignature (ag_recovery s) \<noteq> Some (sg_signature r) \<and>
    (\<forall>r'. detectStagnation (reduce_stagnation s r) = Some r' \<longrightarrow> sg_signature r' \<noteq> sg_signature r) \<and>
    (case sg_kind r of
       Repeated_call \<Rightarrow> 3 \<le> length (rs_recentToolFingerprints (ag_recovery s)) \<and>
         (\<exists>f. \<forall>x \<in> set (slice_last 3 (rs_recentToolFingerprints (ag_recovery s))). x = f)
     | Repeated_failure \<Rightarrow> 3 \<le> length (rs_recentOutcomeSignatures (ag_recovery s)) \<and>
         (\<exists>f. starts_with f ''error:'' \<and>
            (\<forall>x \<in> set (slice_last 3 (rs_recentOutcomeSignatures (ag_recovery s))). x = f))
     | No_progress \<Rightarrow> 8 \<le> bu_toolCalls (rb_used (ag_budget s)) - rs_lastProgressToolCalls (ag_recovery s))"
proof -
  have dis: "repeated_call s = Some r \<or> repeated_failure s = Some r \<or> no_progress s = Some r"
    using assms by (auto simp: detectStagnation_def split: option.splits)
  have fresh: "rs_lastStagnationSignature (ag_recovery t) \<noteq> Some (sg_signature q)"
    if "detectStagnation t = Some q" for t q
    using that signature_fresh by (auto simp: detectStagnation_def split: option.splits)
  have rec: "rs_lastStagnationSignature (ag_recovery (reduce_stagnation s r)) = Some (sg_signature r)"
    by (simp add: reduce_stagnation_def)
  have 1: "sg_kind r = Repeated_call \<and> 3 \<le> length (rs_recentToolFingerprints (ag_recovery s)) \<and>
      all_same (slice_last 3 (rs_recentToolFingerprints (ag_recovery s)))" if "repeated_call s = Some r"
    using that by (auto simp: repeated_call_def Let_def length_slice_last split: if_splits)
  have 2: "sg_kind r = Repeated_failure \<and> 3 \<le> length (rs_recentOutcomeSignatures (ag_recovery s)) \<and>
      starts_with (hd (slice_last 3 (rs_recentOutcomeSignatures (ag_recovery s)))) ''error:'' \<and>
      all_same (slice_last 3 (rs_recentOutcomeSignatures (ag_recovery s)))" if "repeated_failure s = Some r"
    using that by (auto simp: repeated_failure_def Let_def length_slice_last split: if_splits)
  have 3: "sg_kind r = No_progress \<and>
      8 \<le> bu_toolCalls (rb_used (ag_budget s)) - rs_lastProgressToolCalls (ag_recovery s)" if "no_progress s = Some r"
    using that by (auto simp: no_progress_def Let_def split: if_splits)
  from dis show ?thesis
  proof (elim disjE)
    assume "repeated_call s = Some r"
    from 1 [OF this] show ?thesis using all_same_hd fresh [OF assms] fresh [of "reduce_stagnation s r"] rec by force
  next
    assume "repeated_failure s = Some r"
    from 2 [OF this] show ?thesis using all_same_hd fresh [OF assms] fresh [of "reduce_stagnation s r"] rec by force
  next
    assume "no_progress s = Some r"
    from 3 [OF this] show ?thesis using fresh [OF assms] fresh [of "reduce_stagnation s r"] rec by force
  qed
qed

definition demo_stuck :: agent_state where
  "demo_stuck = (createInitialState demo_input)\<lparr>ag_recovery :=
     initialRecovery\<lparr>rs_recentToolFingerprints := [''a'', ''a'', ''a'']\<rparr>\<rparr>"

theorem stagnation_sound_witness:
  "detectStagnation demo_stuck \<noteq> None \<and>
   rs_lastStagnationSignature (ag_recovery demo_stuck) \<noteq> Some (sg_signature (the (detectStagnation demo_stuck)))"
proof -
  have "\<exists>r. detectStagnation demo_stuck = Some r"
    by (simp add: demo_stuck_def detectStagnation_def repeated_call_def slice_last_def all_same_def
        initialRecovery_def)
  then obtain r where "detectStagnation demo_stuck = Some r" by blast
  from stagnation_sound [OF this] this show ?thesis by simp
qed

end
