(* ===== verification/Calibration.thy ===== *)
theory Calibration
  imports PolicyLoop "HOL-Library.Product_Lexorder"
begin

text \<open>
  Outcome calibration (planning/OutcomeCalibration.ts): the profile built from historical
  samples, the bounded adjustment of a reflection's observation window, and the pairing of
  reflections with their evaluations in one historical journal. Reading the journals from
  disk is outside the model.
\<close>

subsection \<open>Samples and profiles\<close>

record calibration_config =
  cfg_enabled :: "bool option"
  cfg_minSamples :: "number option"
  cfg_maxSessions :: "number option"
  cfg_eligibleBefore :: "string option"

record calibration_sample =
  cs_sessionId :: string
  cs_reflectionId :: string
  cs_trigger :: reflection_trigger
  cs_action :: supervisor_action
  cs_outcome :: reflection_outcome
  cs_toolCallsObserved :: number

fun outcome_text :: "reflection_outcome \<Rightarrow> string" where
  "outcome_text Effective = ''effective''"
| "outcome_text Ineffective = ''ineffective''"

definition compareSample_key :: "calibration_sample \<Rightarrow> string list \<times> number" where
  "compareSample_key s =
     ([trigger_text (cs_trigger s), action_text (cs_action s), cs_sessionId s, cs_reflectionId s,
       outcome_text (cs_outcome s)], cs_toolCallsObserved s)"

definition clampInteger :: "number option \<Rightarrow> number \<Rightarrow> number \<Rightarrow> number \<Rightarrow> number" where
  "clampInteger v mn mx fallback =
     (case v of None \<Rightarrow> fallback | Some x \<Rightarrow> max mn (min mx (math_round x)))"

definition isValidSample :: "calibration_sample \<Rightarrow> bool" where
  "isValidSample s \<longleftrightarrow>
     isOutcomeCalibrationTrigger (cs_trigger s) \<and> isOutcomeCalibrationAction (cs_action s) \<and>
     is_integer (cs_toolCallsObserved s) \<and> 0 < cs_toolCallsObserved s"

definition DEFAULT_MIN_SAMPLES :: number where "DEFAULT_MIN_SAMPLES = 3"
definition DEFAULT_MAX_SESSIONS :: number where "DEFAULT_MAX_SESSIONS = 50"

definition sample_key :: "calibration_sample \<Rightarrow> string list" where
  "sample_key s = [trigger_text (cs_trigger s), action_text (cs_action s)]"

definition group_entry :: "calibration_sample list \<Rightarrow> calibration_entry" where
  "group_entry g =
     (let effective = count_where (\<lambda>s. cs_outcome s = Effective) g; n = of_nat (length g)
      in \<lparr>oe_trigger = cs_trigger (hd g), oe_action = cs_action (hd g), oe_samples = n,
          oe_effective = effective, oe_ineffective = n - effective,
          oe_smoothedEffectiveness = roundCalibrationRate (fdiv (effective + 1) (n + 2))\<rparr>)"

definition selected_sessions :: "nat \<Rightarrow> calibration_sample list \<Rightarrow> string list" where
  "selected_sessions maxSessions samples =
     slice_last maxSessions (sort (js_uniq (map cs_sessionId samples)))"

definition accepted_samples :: "nat \<Rightarrow> calibration_sample list \<Rightarrow> calibration_sample list" where
  "accepted_samples maxSessions samples =
     (let vs = sort_key compareSample_key (filter isValidSample samples)
      in filter (\<lambda>s. cs_sessionId s \<in> set (selected_sessions maxSessions vs)) vs)"

definition sample_groups :: "calibration_sample list \<Rightarrow> calibration_sample list list" where
  "sample_groups ss = map (\<lambda>k. filter (\<lambda>s. sample_key s = k) ss) (js_uniq (map sample_key ss))"

definition buildOutcomeCalibrationProfile ::
    "host \<Rightarrow> calibration_sample list \<Rightarrow> calibration_config \<Rightarrow> calibration_profile res" where
  "buildOutcomeCalibrationProfile H samples cfg =
     (let minSamples = clampInteger (cfg_minSamples cfg) 1 100 DEFAULT_MIN_SAMPLES;
          maxSessions = clampInteger (cfg_maxSessions cfg) 1 500 DEFAULT_MAX_SESSIONS;
          n = nat \<lfloor>maxSessions\<rfloor>;
          valid = sort_key compareSample_key (filter isValidSample samples);
          accepted = accepted_samples n samples;
          entries = sort_key calibrationKey (map group_entry (sample_groups accepted))
      in finalizeOutcomeCalibrationProfile H
           \<lparr>pb_schemaVersion = 1, pb_sourceSessions = of_nat (length (selected_sessions n valid)),
            pb_pairedOutcomes = of_nat (length accepted), pb_minSamples = minSamples,
            pb_maxSessions = maxSessions, pb_entries = entries\<rparr>)"

definition emptyOutcomeCalibrationProfile :: "host \<Rightarrow> calibration_config \<Rightarrow> calibration_profile res" where
  "emptyOutcomeCalibrationProfile H cfg = buildOutcomeCalibrationProfile H [] cfg"

subsection \<open>Applying a profile\<close>

text \<open>The step of \<open>delta\<close> is the expression the reducer's validator recomputes (\<open>expected_delta\<close>).\<close>

record calibration_match =
  cm_entry :: calibration_entry
  cm_baseWindow :: number
  cm_delta :: number
  cm_evaluationWindow :: number
  cm_note :: string

definition matchOutcomeCalibration ::
    "calibration_profile option \<Rightarrow> reflection_trigger \<Rightarrow> supervisor_action \<Rightarrow> number \<Rightarrow>
     calibration_match option" where
  "matchOutcomeCalibration profile trigger action defaultWindow =
     (case profile of
        None \<Rightarrow> None
      | Some p \<Rightarrow>
          (case find (\<lambda>e. oe_trigger e = trigger \<and> oe_action e = action) (pb_entries p) of
             None \<Rightarrow> None
           | Some e \<Rightarrow>
               if oe_samples e < pb_minSamples p then None
               else let configured = clampInteger (Some defaultWindow) 1 20 3;
                        delta = expected_delta (oe_smoothedEffectiveness e);
                        window = clampInteger (Some (configured + delta)) 1 20 configured
                    in Some \<lparr>cm_entry = e, cm_baseWindow = configured, cm_delta = delta,
                         cm_evaluationWindow = window,
                         cm_note = ''Local history: '' @ show_num (oe_effective e) @ ''/'' @
                           show_num (oe_samples e) @
                           '' comparable reflection outcomes were effective; observe up to '' @
                           show_num window @ '' tool call(s). '' @
                           ''This bounded policy input may shift deterministic repair timing by one call, '' @
                           ''but cannot override approval, scope, permission, evidence, budget or completion gates.''\<rparr>))"

definition calibrateReflectionDecision ::
    "reflection_record \<Rightarrow> calibration_profile option \<Rightarrow> string option \<Rightarrow> reflection_record" where
  "calibrateReflectionDecision r profile selectionHash =
     (case rf_decision r of
        None \<Rightarrow> r
      | Some d \<Rightarrow>
          (case matchOutcomeCalibration profile (rf_trigger r) (sd_action (rd_decision d))
                  (rd_evaluateAfterToolCalls d) of
             None \<Rightarrow> r
           | Some m \<Rightarrow> r
               \<lparr>rf_recommendation := rf_recommendation r @ '' '' @ cm_note m,
                rf_calibration :=
                  (case selectionHash of
                     None \<Rightarrow> None
                   | Some h \<Rightarrow>
                       if h = [] then None
                       else Some \<lparr>rc_selectionHash = h, rc_profileHash = op_hash (the profile),
                              rc_baseWindow = cm_baseWindow m, rc_delta = cm_delta m,
                              rc_calibratedWindow = cm_evaluationWindow m\<rparr>),
                rf_decision := Some (d\<lparr>rd_evaluateAfterToolCalls := cm_evaluationWindow m\<rparr>)\<rparr>))"

definition renderOutcomeCalibrationProfile :: "calibration_profile \<Rightarrow> string option \<Rightarrow> string option" where
  "renderOutcomeCalibrationProfile p selectionHash =
     (let eligible = filter (\<lambda>e. pb_minSamples p \<le> oe_samples e) (pb_entries p)
      in if eligible = [] then None
         else Some (''[OUTCOME CALIBRATION '' @ (case selectionHash of None \<Rightarrow> op_hash p | Some h \<Rightarrow> h) @
           ''; profile '' @ op_hash p @ ''] '' @ show_num (pb_pairedOutcomes p) @
           '' paired reflection outcome(s) from '' @ show_num (pb_sourceSessions p) @
           '' valid local session(s); '' @ show_num (of_nat (length eligible)) @
           '' trigger/action group(s) meet the minimum of '' @ show_num (pb_minSamples p) @
           '' comparable samples. History only tunes a future reflection observation window by at most one tool call. This can shift when deterministic repair policy reacts, but cannot bypass hard gates.''))"

subsection \<open>Pairing the reflections of one journal\<close>

record envelope =
  env_schemaVersion :: number
  env_seq :: number
  env_sessionId :: string
  env_timestamp :: string
  env_checksum :: string
  env_event :: fact_event

definition afterCutoff :: "string \<Rightarrow> string option \<Rightarrow> bool" where
  "afterCutoff timestamp cutoff = (case cutoff of None \<Rightarrow> False | Some c \<Rightarrow> c < timestamp)"

record pairing =
  pp_reflections :: "reflection_record list"
  pp_evaluated :: "string list"
  pp_evaluationIds :: "string list"
  pp_samples :: "calibration_sample list"
  pp_active :: "string option"
  pp_throughSeq :: number

definition empty_pairing :: pairing where
  "empty_pairing = \<lparr>pp_reflections = [], pp_evaluated = [], pp_evaluationIds = [], pp_samples = [],
     pp_active = None, pp_throughSeq = 0\<rparr>"

definition pair_recorded :: "pairing \<Rightarrow> reflection_record \<Rightarrow> pairing option" where
  "pair_recorded p r =
     (if list_ex (\<lambda>q. rf_id q = rf_id r) (pp_reflections p) \<or> (rf_decision r \<noteq> None \<and> pp_active p \<noteq> None)
      then None
      else Some (p\<lparr>pp_reflections := pp_reflections p @ [r],
                   pp_active := (if rf_decision r \<noteq> None then Some (rf_id r) else pp_active p)\<rparr>))"

definition pair_evaluated :: "string \<Rightarrow> pairing \<Rightarrow> reflection_evaluation \<Rightarrow> pairing option" where
  "pair_evaluated sid p e =
     (if re_id e \<in> set (pp_evaluationIds p) then None
      else (case find (\<lambda>q. rf_id q = re_reflectionId e) (pp_reflections p) of
              None \<Rightarrow> None
            | Some r \<Rightarrow>
                (case rf_decision r of
                   None \<Rightarrow> None
                 | Some d \<Rightarrow>
                     if rf_id r \<in> set (pp_evaluated p) \<or> pp_active p \<noteq> Some (rf_id r) then None
                     else if \<not> window_in_range (rd_evaluateAfterToolCalls d) then None
                     else let smp = \<lparr>cs_sessionId = sid, cs_reflectionId = rf_id r, cs_trigger = rf_trigger r,
                                     cs_action = sd_action (rd_decision d), cs_outcome = re_outcome e,
                                     cs_toolCallsObserved = re_toolCallsObserved e\<rparr>
                          in if \<not> isValidSample smp then None
                             else Some (p\<lparr>pp_evaluationIds := pp_evaluationIds p @ [re_id e],
                                          pp_samples := pp_samples p @ [smp],
                                          pp_evaluated := pp_evaluated p @ [rf_id r],
                                          pp_active := None\<rparr>))))"

text \<open>\<open>None\<close> is the invalid lifecycle, which drops the whole session.\<close>

fun pair_envelopes :: "string option \<Rightarrow> string \<Rightarrow> pairing \<Rightarrow> envelope list \<Rightarrow> pairing option" where
  "pair_envelopes cutoff sid p [] = Some p"
| "pair_envelopes cutoff sid p (env # envs) =
     (if afterCutoff (env_timestamp env) cutoff then pair_envelopes cutoff sid p envs
      else let p' = p\<lparr>pp_throughSeq := max (pp_throughSeq p) (env_seq env)\<rparr>
           in (case env_event env of
                 Reflection_recorded r \<Rightarrow>
                   (case pair_recorded p' r of None \<Rightarrow> None | Some q \<Rightarrow> pair_envelopes cutoff sid q envs)
               | Reflection_evaluated e \<Rightarrow>
                   (case pair_evaluated sid p' e of None \<Rightarrow> None | Some q \<Rightarrow> pair_envelopes cutoff sid q envs)
               | _ \<Rightarrow> pair_envelopes cutoff sid p' envs))"

definition sample_json :: "calibration_sample \<Rightarrow> json" where
  "sample_json s = JObj
     [(''sessionId'', JStr (cs_sessionId s)), (''reflectionId'', JStr (cs_reflectionId s)),
      (''trigger'', JStr (trigger_text (cs_trigger s))), (''action'', JStr (action_text (cs_action s))),
      (''outcome'', JStr (outcome_text (cs_outcome s))), (''toolCallsObserved'', JNum (cs_toolCallsObserved s))]"

definition hashSamples :: "host \<Rightarrow> calibration_sample list \<Rightarrow> string" where
  "hashSamples H ss = h_sha256 H (json_stringify (JArr (map sample_json ss)))"

definition session_source ::
    "host \<Rightarrow> string option \<Rightarrow> string \<Rightarrow> envelope list \<Rightarrow> (calibration_sample list \<times> calibration_source) option" where
  "session_source H cutoff sid envs =
     (case pair_envelopes cutoff sid empty_pairing envs of
        None \<Rightarrow> None
      | Some p \<Rightarrow>
          if pp_samples p \<noteq> [] \<and> 0 < pp_throughSeq p
          then let ss = sort_key compareSample_key (pp_samples p)
               in Some (ss, \<lparr>os_sessionId = sid, os_throughSeq = pp_throughSeq p,
                    os_sampleCount = of_nat (length ss), os_sampleHash = hashSamples H ss\<rparr>)
          else None)"

subsection \<open>The profile is always valid\<close>

lemma sum_class_sizes:
  "finite K \<Longrightarrow> f ` set xs \<subseteq> K \<Longrightarrow> (\<Sum>k\<in>K. length (filter (\<lambda>x. f x = k) xs)) = length xs"
proof (induction xs)
  case (Cons x xs)
  have "(\<Sum>k\<in>K. length (filter (\<lambda>x. f x = k) (x # xs))) =
    (\<Sum>k\<in>K. (if f x = k then 1 else 0) + length (filter (\<lambda>x. f x = k) xs))"
    by (rule sum.cong) auto
  also have "\<dots> = 1 + length xs" using Cons by (simp add: sum.distrib)
  finally show ?case by simp
qed simp

lemma clamp_bounds:
  "is_integer mn \<Longrightarrow> is_integer mx \<Longrightarrow> mn \<le> mx \<Longrightarrow> is_integer fb \<Longrightarrow> mn \<le> fb \<Longrightarrow> fb \<le> mx \<Longrightarrow>
   is_integer (clampInteger v mn mx fb) \<and> mn \<le> clampInteger v mn mx fb \<and> clampInteger v mn mx fb \<le> mx"
  by (cases v) (auto simp: clampInteger_def min_def)

lemma group_sizes: "sum_list (map (\<lambda>g. of_nat (length g) :: rat) (sample_groups ss)) = of_nat (length ss)"
proof -
  have "sum_list (map (\<lambda>g. of_nat (length g) :: rat) (sample_groups ss)) =
    (\<Sum>k \<in> sample_key ` set ss. of_nat (length (filter (\<lambda>s. sample_key s = k) ss)))"
    by (simp add: sample_groups_def comp_def sum_list_distinct_conv_sum_set)
  also have "\<dots> = of_nat (\<Sum>k \<in> sample_key ` set ss. length (filter (\<lambda>s. sample_key s = k) ss))"
    by simp
  finally show ?thesis by (simp only: sum_class_sizes [of "sample_key ` set ss" sample_key ss] finite_imageI finite_set subset_refl)
qed

lemma group_member:
  "g \<in> set (sample_groups ss) \<Longrightarrow> \<exists>s \<in> set ss. g = filter (\<lambda>t. sample_key t = sample_key s) ss \<and> g \<noteq> [] \<and> hd g \<in> set ss"
proof -
  assume "g \<in> set (sample_groups ss)"
  then obtain s where s: "s \<in> set ss" "g = filter (\<lambda>t. sample_key t = sample_key s) ss"
    by (auto simp: sample_groups_def)
  then have "g \<noteq> []" by (auto simp: filter_empty_conv)
  moreover from this have "hd g \<in> set ss" using s(2) hd_in_set [of g] by auto
  ultimately show ?thesis using s by blast
qed

lemma group_entry_key: "g \<noteq> [] \<Longrightarrow> (\<And>s. s \<in> set g \<Longrightarrow> sample_key s = k) \<Longrightarrow> calibrationKey (group_entry g) = k"
  using hd_in_set [of g] by (auto simp: calibrationKey_def group_entry_def Let_def sample_key_def)

lemma group_keys: "map (calibrationKey \<circ> group_entry) (sample_groups ss) = js_uniq (map sample_key ss)"
proof -
  have "calibrationKey (group_entry (filter (\<lambda>s. sample_key s = k) ss)) = k" if "k \<in> sample_key ` set ss" for k
    by (rule group_entry_key) (use that in \<open>auto simp: filter_empty_conv\<close>)
  then show ?thesis by (auto simp: sample_groups_def comp_def intro!: map_idI)
qed

lemma group_entry_valid:
  assumes "g \<noteq> []" "\<And>s. s \<in> set g \<Longrightarrow> isValidSample s"
  shows "isCalibrationEntry (group_entry g)"
proof -
  let ?e = "count_where (\<lambda>s. cs_outcome s = Effective) g"
  have le: "?e \<le> of_nat (length g)" by (simp add: count_where_def)
  have "isValidSample (hd g)" using assms by simp
  moreover have "is_integer (of_nat (length g) - ?e)"
    by (metis is_integer_Ints Ints_diff is_integer_of_nat is_integer_count_where)
  moreover have "0 < length g" using assms(1) by simp
  ultimately show ?thesis
    using le smoothed_rate_bounds [of ?e "of_nat (length g)"]
    by (simp add: isCalibrationEntry_def group_entry_def Let_def isValidSample_def smoothed_rate_def
        is_positive_integer_def is_non_negative_integer_def)
qed

lemma selected_le_accepted:
  "length (selected_sessions n (sort_key compareSample_key (filter isValidSample samples))) \<le>
   length (accepted_samples n samples)"
proof -
  let ?vs = "sort_key compareSample_key (filter isValidSample samples)"
  let ?sel = "selected_sessions n ?vs"
  have "set ?sel \<subseteq> cs_sessionId ` set ?vs"
    using set_slice_last [of n "sort (js_uniq (map cs_sessionId ?vs))"] by (auto simp: selected_sessions_def)
  then have sub: "set ?sel \<subseteq> cs_sessionId ` set (accepted_samples n samples)"
    by (auto simp: accepted_samples_def Let_def)
  have "length ?sel = card (set ?sel)"
    by (simp add: distinct_card selected_sessions_def distinct_slice_last)
  also have "\<dots> \<le> card (cs_sessionId ` set (accepted_samples n samples))"
    using sub by (intro card_mono) simp_all
  also have "\<dots> \<le> length (accepted_samples n samples)"
    by (meson List.finite_set card_image_le card_length le_trans)
  finally show ?thesis .
qed

lemma accepted_valid: "s \<in> set (accepted_samples n samples) \<Longrightarrow> isValidSample s"
  by (auto simp: accepted_samples_def Let_def)

lemma sorted_again: "sort_key f (sort_key f xs) = sort_key f xs"
  by (simp add: sort_key_id_if_sorted)

lemma distinct_map_sort_key: "distinct (map f (sort_key g xs)) = distinct (map f xs)"
proof -
  have "mset (map f (sort_key g xs)) = mset (map f xs)" by simp
  then show ?thesis by (rule mset_eq_imp_distinct_iff)
qed

lemma sum_list_sort_key: "sum_list (map (f :: 'a \<Rightarrow> rat) (sort_key g xs)) = sum_list (map f xs)"
proof -
  have "mset (map f (sort_key g xs)) = mset (map f xs)" by simp
  then show ?thesis by (metis sum_mset_sum_list)
qed

definition profile_entries :: "calibration_sample list \<Rightarrow> calibration_entry list" where
  "profile_entries accepted = sort_key calibrationKey (map group_entry (sample_groups accepted))"

lemma profile_entries_ok:
  assumes "\<And>s. s \<in> set accepted \<Longrightarrow> isValidSample s"
  shows "list_all isCalibrationEntry (profile_entries accepted)"
    "sum_list (map oe_samples (profile_entries accepted)) = of_nat (length accepted)"
    "profile_entries accepted = sort_key calibrationKey (profile_entries accepted)"
    "distinct (map calibrationKey (profile_entries accepted))"
proof -
  show "list_all isCalibrationEntry (profile_entries accepted)"
    using assms by (auto simp: profile_entries_def list_all_iff dest!: group_member intro!: group_entry_valid)
  have "map (oe_samples \<circ> group_entry) (sample_groups accepted) =
      map (\<lambda>g. of_nat (length g)) (sample_groups accepted)"
    by (simp add: group_entry_def Let_def)
  then show "sum_list (map oe_samples (profile_entries accepted)) = of_nat (length accepted)"
    unfolding profile_entries_def sum_list_sort_key by (simp add: group_sizes del: map_eq_conv)
  show "profile_entries accepted = sort_key calibrationKey (profile_entries accepted)"
    by (simp add: profile_entries_def sorted_again)
  show "distinct (map calibrationKey (profile_entries accepted))"
    unfolding profile_entries_def distinct_map_sort_key by (simp add: group_keys)
qed

text \<open>
  Building a profile never fails and never yields anything the trust boundary would
  reject: from any list of samples (malformed ones included) and any configuration, the
  profile is accepted by its validator, and it counts exactly the accepted samples.
\<close>

theorem built_profile_valid:
  "\<exists>p. buildOutcomeCalibrationProfile H samples cfg = Inr p \<and> isOutcomeCalibrationProfile H p \<and>
     pb_pairedOutcomes p = of_nat (length (accepted_samples (nat \<lfloor>pb_maxSessions p\<rfloor>) samples))"
proof -
  define mn where "mn = clampInteger (cfg_minSamples cfg) 1 100 DEFAULT_MIN_SAMPLES"
  define mx where "mx = clampInteger (cfg_maxSessions cfg) 1 500 DEFAULT_MAX_SESSIONS"
  define n where "n = nat \<lfloor>mx\<rfloor>"
  define acc where "acc = accepted_samples n samples"
  define sel where "sel = selected_sessions n (sort_key compareSample_key (filter isValidSample samples))"
  have mn: "is_integer mn" "1 \<le> mn" "mn \<le> 100"
    using clamp_bounds [of 1 100 DEFAULT_MIN_SAMPLES] by (auto simp: mn_def DEFAULT_MIN_SAMPLES_def)
  have mx: "is_integer mx" "1 \<le> mx" "mx \<le> 500"
    using clamp_bounds [of 1 500 DEFAULT_MAX_SESSIONS] by (auto simp: mx_def DEFAULT_MAX_SESSIONS_def)
  have "0 < n" using mx by (simp add: n_def)
  then have "length sel \<le> n" by (simp add: sel_def selected_sessions_def length_slice_last)
  moreover have "of_nat n = mx" using mx by (simp add: n_def is_integer_def)
  ultimately have s1: "of_nat (length sel) \<le> mx" by (metis of_nat_le_iff)
  have s2: "length sel \<le> length acc" unfolding sel_def acc_def by (rule selected_le_accepted)
  note e = profile_entries_ok [of acc, OF accepted_valid [of _ n samples, folded acc_def]]
  define b where "b = \<lparr>pb_schemaVersion = 1, pb_sourceSessions = of_nat (length sel),
     pb_pairedOutcomes = of_nat (length acc), pb_minSamples = mn, pb_maxSessions = mx,
     pb_entries = profile_entries acc\<rparr>"
  let ?p = "\<lparr>pb_schemaVersion = 1, pb_sourceSessions = of_nat (length sel),
     pb_pairedOutcomes = of_nat (length acc), pb_minSamples = mn, pb_maxSessions = mx,
     pb_entries = profile_entries acc, op_hash = hashProfileBase H b\<rparr>"
  have "isOutcomeCalibrationProfile H ?p"
    using e s1 s2 mn mx
    by (simp add: isOutcomeCalibrationProfile_def is_positive_integer_def hashProfileBase_def profile_members_def
        b_def)
  then have "buildOutcomeCalibrationProfile H samples cfg = Inr ?p"
    by (simp add: buildOutcomeCalibrationProfile_def finalizeOutcomeCalibrationProfile_def b_def
        freezeOutcomeCalibrationProfile_def Let_def mn_def mx_def n_def acc_def sel_def profile_entries_def)
  then show ?thesis using \<open>isOutcomeCalibrationProfile H ?p\<close> by (simp add: acc_def n_def)
qed

lemma trigger_text_inj:
  "isOutcomeCalibrationTrigger t \<Longrightarrow> isOutcomeCalibrationTrigger u \<Longrightarrow> trigger_text t = trigger_text u \<longleftrightarrow> t = u"
  by (cases t; cases u) (simp_all add: isOutcomeCalibrationTrigger_def)

lemma action_text_inj:
  "isOutcomeCalibrationAction t \<Longrightarrow> isOutcomeCalibrationAction u \<Longrightarrow> action_text t = action_text u \<longleftrightarrow> t = u"
  by (cases t; cases u) (simp_all add: isOutcomeCalibrationAction_def)

lemma compareSample_inj: "inj_on compareSample_key {s. isValidSample s}"
proof (rule inj_onI)
  fix x y assume *: "x \<in> {s. isValidSample s}" "y \<in> {s. isValidSample s}" "compareSample_key x = compareSample_key y"
  then have "cs_trigger x = cs_trigger y" "cs_action x = cs_action y"
    by (simp_all add: isValidSample_def compareSample_key_def trigger_text_inj action_text_inj)
  moreover have "cs_outcome x = cs_outcome y"
    using *(3) by (cases "cs_outcome x"; cases "cs_outcome y") (simp_all add: compareSample_key_def)
  ultimately show "x = y" using *(3) by (simp add: compareSample_key_def)
qed

text \<open>
  The profile depends on which samples exist and not on the order in which the file
  system yields the sessions: permuting the samples changes neither the profile nor its hash.
\<close>

theorem profile_order_independent:
  assumes "mset samples = mset samples'"
  shows "buildOutcomeCalibrationProfile H samples cfg = buildOutcomeCalibrationProfile H samples' cfg"
proof -
  have "mset (filter isValidSample samples) = mset (filter isValidSample samples')"
    using assms by simp
  then have "sort_key compareSample_key (filter isValidSample samples) =
      sort_key compareSample_key (filter isValidSample samples')"
    by (intro sort_key_inj_key_eq) (auto intro: inj_on_subset [OF compareSample_inj])
  then show ?thesis by (simp add: buildOutcomeCalibrationProfile_def accepted_samples_def)
qed

definition demo_sample :: "string \<Rightarrow> calibration_sample" where
  "demo_sample sid = \<lparr>cs_sessionId = sid, cs_reflectionId = ''r'', cs_trigger = Periodic,
     cs_action = Gather_evidence, cs_outcome = Effective, cs_toolCallsObserved = 2\<rparr>"

definition demo_config :: calibration_config where
  "demo_config = \<lparr>cfg_enabled = None, cfg_minSamples = None, cfg_maxSessions = None, cfg_eligibleBefore = None\<rparr>"

theorem profile_order_independent_witness:
  "buildOutcomeCalibrationProfile demo_host [demo_sample ''a'', demo_sample ''b''] demo_config =
   buildOutcomeCalibrationProfile demo_host [demo_sample ''b'', demo_sample ''a''] demo_config"
  by (rule profile_order_independent) simp

subsection \<open>Calibrated reflections\<close>

lemma math_round_integer: "is_integer w \<Longrightarrow> math_round w = w"
proof -
  assume "is_integer w"
  then obtain k where w: "w = of_int k" by (auto simp: is_integer_Ints elim: Ints_cases)
  have "\<lfloor>of_int k + (1 / 2 :: rat)\<rfloor> = k" by linarith
  then show ?thesis by (simp add: math_round_def w)
qed

lemma is_integer_delta: "is_integer (expected_delta r)"
  by (simp add: expected_delta_def)

lemma calibrated_window:
  assumes "window_in_range w"
  shows "clampInteger (Some w) 1 20 3 = w"
    "clampInteger (Some (w + expected_delta r)) 1 20 w = max 1 (min 20 (w + expected_delta r))"
    "window_in_range (max 1 (min 20 (w + expected_delta r)))"
  using assms is_integer_delta [of r]
  by (auto simp: window_in_range_def clampInteger_def math_round_integer max_def min_def)

lemma match_cases:
  assumes "matchOutcomeCalibration (Some p) t a w = Some m" "window_in_range w"
  obtains e where "find_entry p t a = Some e" "pb_minSamples p \<le> oe_samples e"
    "cm_baseWindow m = w" "cm_delta m = expected_delta (oe_smoothedEffectiveness e)"
    "cm_evaluationWindow m = max 1 (min 20 (w + expected_delta (oe_smoothedEffectiveness e)))"
  using assms calibrated_window [OF assms(2)]
  by (auto simp: matchOutcomeCalibration_def find_entry_def Let_def split: option.splits if_splits)

lemma calibrated_valid:
  assumes d: "rf_decision r = Some d" "window_in_range (rd_evaluateAfterToolCalls d)" "rf_calibration r = None"
    and sel: "ag_selection s = Some sel"
  defines "r' \<equiv> calibrateReflectionDecision r (Some (sel_profile sel)) (Some (sel_hash sel))"
  shows "validReflectionCalibration s r'"
    "\<exists>d'. rf_decision r' = Some d' \<and> rd_decision d' = rd_decision d \<and>
       window_in_range (rd_evaluateAfterToolCalls d') \<and>
       \<bar>rd_evaluateAfterToolCalls d' - rd_evaluateAfterToolCalls d\<bar> \<le> 1"
    "rf_id r' = rf_id r" "rf_trigger r' = rf_trigger r" "rf_progress r' = rf_progress r"
proof -
  let ?w = "rd_evaluateAfterToolCalls d"
  let ?m = "matchOutcomeCalibration (Some (sel_profile sel)) (rf_trigger r) (sd_action (rd_decision d)) ?w"
  have "validReflectionCalibration s r' \<and> (\<exists>d'. rf_decision r' = Some d' \<and> rd_decision d' = rd_decision d \<and>
       window_in_range (rd_evaluateAfterToolCalls d') \<and> \<bar>rd_evaluateAfterToolCalls d' - ?w\<bar> \<le> 1)"
  proof (cases ?m)
    case None
    then show ?thesis using d by (simp add: r'_def calibrateReflectionDecision_def validReflectionCalibration_def)
  next
    case (Some m)
    then obtain e where e: "find_entry (sel_profile sel) (rf_trigger r) (sd_action (rd_decision d)) = Some e"
      "pb_minSamples (sel_profile sel) \<le> oe_samples e" "cm_baseWindow m = ?w"
      "cm_delta m = expected_delta (oe_smoothedEffectiveness e)"
      "cm_evaluationWindow m = max 1 (min 20 (?w + expected_delta (oe_smoothedEffectiveness e)))"
      using match_cases [OF _ d(2)] by blast
    have "expected_delta (oe_smoothedEffectiveness e) \<in> {-1, 0, 1}" by (simp add: expected_delta_def)
    moreover have "\<bar>cm_evaluationWindow m - ?w\<bar> \<le> 1"
      using d(2) calculation by (auto simp: e window_in_range_def max_def min_def)
    ultimately show ?thesis
      using Some d e sel calibrated_window(3) [OF d(2), of "oe_smoothedEffectiveness e"]
      by (simp add: r'_def calibrateReflectionDecision_def validReflectionCalibration_def Let_def)
  qed
  then show "validReflectionCalibration s r'" "\<exists>d'. rf_decision r' = Some d' \<and> rd_decision d' = rd_decision d \<and>
       window_in_range (rd_evaluateAfterToolCalls d') \<and> \<bar>rd_evaluateAfterToolCalls d' - ?w\<bar> \<le> 1"
    by simp_all
  show "rf_id r' = rf_id r" "rf_trigger r' = rf_trigger r" "rf_progress r' = rf_progress r"
    by (simp_all add: r'_def calibrateReflectionDecision_def split: option.split)
qed

text \<open>
  History tunes, it does not steer. A reflection with a decision, calibrated by the
  selection in force, is still accepted by the reducer, carries the same supervisor decision,
  and its observation window moved by at most one tool call within 1 to 20.
\<close>

theorem calibrated_reflection_accepted:
  assumes "ag_selection s = Some sel" "validReflectionBaseline s r" "rf_calibration r = None"
    "rf_decision r = Some d" "valid_reflection_decision d"
    "non_blank (rf_id r)" "rf_trigger r \<in> set REFLECTION_TRIGGERS"
    "\<not> list_ex (\<lambda>q. rf_id q = rf_id r) (ag_reflections s)"
  shows "\<exists>s' d'. reduce H s (Reflection_recorded
        (calibrateReflectionDecision r (Some (sel_profile sel)) (Some (sel_hash sel)))) = Inr s' \<and>
    rf_decision (last (ag_reflections s')) = Some d' \<and> rd_decision d' = rd_decision d \<and>
    window_in_range (rd_evaluateAfterToolCalls d') \<and>
    \<bar>rd_evaluateAfterToolCalls d' - rd_evaluateAfterToolCalls d\<bar> \<le> 1"
proof -
  let ?r = "calibrateReflectionDecision r (Some (sel_profile sel)) (Some (sel_hash sel))"
  have w: "window_in_range (rd_evaluateAfterToolCalls d)" using assms(5) by (simp add: valid_reflection_decision_def)
  note c = calibrated_valid [OF assms(4) w assms(3) assms(1)]
  from c(2) obtain d' where d': "rf_decision ?r = Some d'" "rd_decision d' = rd_decision d"
    "window_in_range (rd_evaluateAfterToolCalls d')"
    "\<bar>rd_evaluateAfterToolCalls d' - rd_evaluateAfterToolCalls d\<bar> \<le> 1" by blast
  have "validReflectionBaseline s ?r"
    using assms(2, 4) d'(1) by (auto simp: validReflectionBaseline_def Let_def c(5) split: option.splits)
  moreover have "valid_reflection_decision d'"
    using assms(5) d' by (simp add: valid_reflection_decision_def)
  ultimately show ?thesis
    using assms(6-8) c(1, 3, 4) d' by (simp add: reduce_reflection_def slice_last_def)
qed

definition demo_entry :: calibration_entry where
  "demo_entry = \<lparr>oe_trigger = Periodic, oe_action = Gather_evidence, oe_samples = 4, oe_effective = 4,
     oe_ineffective = 0, oe_smoothedEffectiveness = smoothed_rate 4 4\<rparr>"

definition demo_selection :: calibration_selection where
  "demo_selection = \<lparr>sel_schemaVersion = 1, sel_algorithm = ''reflection-window-v1'', sel_origin = Test_injected,
     sel_scanStatus = Scan_complete, sel_eligibleBefore = ''2026-01-01T00:00:00.000Z'', sel_minSamples = 3,
     sel_maxSessions = 50, sel_sources = [],
     sel_profile = \<lparr>pb_schemaVersion = 1, pb_sourceSessions = 1, pb_pairedOutcomes = 4, pb_minSamples = 3,
       pb_maxSessions = 50, pb_entries = [demo_entry], op_hash = ''p''\<rparr>, sel_hash = ''h''\<rparr>"

definition demo_decision :: supervisor_decision where
  "demo_decision = \<lparr>sd_action = Gather_evidence, sd_rationale = ''why'', sd_targetTaskId = None,
     sd_targetStepId = None, sd_successSignals = []\<rparr>"

definition demo_health :: plan_health where
  "demo_health = \<lparr>ph_id = ''h'', ph_createdAt = ''now'', ph_plan = None, ph_status = Healthy, ph_score = 1,
     ph_signature = ''sig'', ph_metrics = \<lparr>hm_totalTasks = 0, hm_completedTasks = 0, hm_openTasks = 0,
       hm_blockedTasks = 0, hm_failedTasks = 0, hm_readyTasks = 0, hm_requiredCriteria = 0, hm_coveredCriteria = 0,
       hm_scopeDriftFiles = 0, hm_budgetRemainingRatio = 1, hm_consecutiveFailures = 0, hm_stagnationSignals = 0,
       hm_ineffectiveReflections = 0\<rparr>, ph_findings = [], ph_decision = demo_decision\<rparr>"

definition demo_calibrated :: agent_state where
  "demo_calibrated = (createInitialState demo_input)\<lparr>ag_selection := Some demo_selection\<rparr>"

definition demo_reflection :: reflection_record where
  "demo_reflection = buildReflection demo_calibrated ''r1'' ''now'' Periodic None (Some demo_health) None"

theorem calibrated_reflection_accepted_witness:
  "\<exists>s'. reduce demo_host demo_calibrated (Reflection_recorded
     (calibrateReflectionDecision demo_reflection (Some (sel_profile demo_selection))
        (Some (sel_hash demo_selection)))) = Inr s'"
proof -
  have "validReflectionBaseline demo_calibrated demo_reflection"
    unfolding demo_reflection_def
    by (rule built_baseline) (simp add: demo_calibrated_def createInitialState_def is_non_negative_integer_def)
  then show ?thesis
    using calibrated_reflection_accepted
      [of demo_calibrated demo_selection demo_reflection
        "\<lparr>rd_decision = demo_decision, rd_evaluateAfterToolCalls = 3\<rparr>" demo_host]
    by (auto simp: demo_reflection_def buildReflection_def Let_def demo_health_def demo_calibrated_def
        createInitialState_def valid_reflection_decision_def window_in_range_def demo_decision_def
        REFLECTION_TRIGGERS_def non_blank_Cons is_ws_def)
qed

subsection \<open>Pairing\<close>

definition sample_of :: "reflection_record list \<Rightarrow> string \<Rightarrow> calibration_sample \<Rightarrow> bool" where
  "sample_of rs sid s \<longleftrightarrow>
     isValidSample s \<and> cs_sessionId s = sid \<and>
     (\<exists>r \<in> set rs. rf_id r = cs_reflectionId s \<and> rf_trigger r = cs_trigger s \<and>
        (\<exists>d. rf_decision r = Some d \<and> sd_action (rd_decision d) = cs_action s))"

definition pairing_ok :: "string \<Rightarrow> pairing \<Rightarrow> bool" where
  "pairing_ok sid p \<longleftrightarrow>
     pp_evaluated p = map cs_reflectionId (pp_samples p) \<and> distinct (pp_evaluated p) \<and>
     distinct (map rf_id (pp_reflections p)) \<and> distinct (pp_evaluationIds p) \<and>
     length (pp_evaluationIds p) = length (pp_samples p) \<and>
     (\<forall>s \<in> set (pp_samples p). sample_of (pp_reflections p) sid s)"

lemma find_mem: "find P xs = Some x \<Longrightarrow> x \<in> set xs \<and> P x"
  by (auto simp: find_Some_iff)

lemma sample_of_mono: "sample_of rs sid s \<Longrightarrow> sample_of (rs @ [r]) sid s"
  by (auto simp: sample_of_def)

lemma sample_of_new:
  "r \<in> set rs \<Longrightarrow> rf_decision r = Some d \<Longrightarrow> isValidSample s \<Longrightarrow> cs_sessionId s = sid \<Longrightarrow>
   rf_id r = cs_reflectionId s \<Longrightarrow> rf_trigger r = cs_trigger s \<Longrightarrow> sd_action (rd_decision d) = cs_action s \<Longrightarrow>
   sample_of rs sid s"
  by (auto simp: sample_of_def)

lemma pairing_recorded:
  assumes "pairing_ok sid p" "pair_recorded p r = Some q"
  shows "pairing_ok sid q"
proof -
  from assms(2) have "rf_id r \<notin> set (map rf_id (pp_reflections p))"
    and q: "pp_reflections q = pp_reflections p @ [r]" "pp_samples q = pp_samples p"
      "pp_evaluated q = pp_evaluated p" "pp_evaluationIds q = pp_evaluationIds p"
    by (auto simp: pair_recorded_def list_ex_iff split: if_splits)
  then show ?thesis using assms(1) sample_of_mono by (auto simp: pairing_ok_def)
qed

lemma pair_evaluated_cases:
  assumes "pair_evaluated sid p e = Some q"
  obtains r d smp where "re_id e \<notin> set (pp_evaluationIds p)" "r \<in> set (pp_reflections p)"
    "rf_id r = re_reflectionId e" "rf_decision r = Some d" "rf_id r \<notin> set (pp_evaluated p)" "isValidSample smp"
    "smp = \<lparr>cs_sessionId = sid, cs_reflectionId = rf_id r, cs_trigger = rf_trigger r,
       cs_action = sd_action (rd_decision d), cs_outcome = re_outcome e,
       cs_toolCallsObserved = re_toolCallsObserved e\<rparr>"
    "q = p\<lparr>pp_evaluationIds := pp_evaluationIds p @ [re_id e], pp_samples := pp_samples p @ [smp],
       pp_evaluated := pp_evaluated p @ [rf_id r], pp_active := None\<rparr>"
proof -
  from assms obtain r d where *: "re_id e \<notin> set (pp_evaluationIds p)"
    "find (\<lambda>q. rf_id q = re_reflectionId e) (pp_reflections p) = Some r" "rf_decision r = Some d"
    by (auto simp: pair_evaluated_def split: if_splits option.splits)
  then show ?thesis
    using assms that find_mem [OF *(2)] by (simp add: pair_evaluated_def Let_def split: if_splits)
qed

lemma pairing_evaluated:
  assumes "pairing_ok sid p" "pair_evaluated sid p e = Some q"
  shows "pairing_ok sid q"
proof (rule pair_evaluated_cases [OF assms(2)])
  fix r d smp
  assume *: "re_id e \<notin> set (pp_evaluationIds p)" "r \<in> set (pp_reflections p)"
    "rf_id r = re_reflectionId e" "rf_decision r = Some d" "rf_id r \<notin> set (pp_evaluated p)" "isValidSample smp"
    "smp = \<lparr>cs_sessionId = sid, cs_reflectionId = rf_id r, cs_trigger = rf_trigger r,
       cs_action = sd_action (rd_decision d), cs_outcome = re_outcome e,
       cs_toolCallsObserved = re_toolCallsObserved e\<rparr>"
    "q = p\<lparr>pp_evaluationIds := pp_evaluationIds p @ [re_id e], pp_samples := pp_samples p @ [smp],
       pp_evaluated := pp_evaluated p @ [rf_id r], pp_active := None\<rparr>"
  have "sample_of (pp_reflections p) sid smp"
    by (rule sample_of_new [OF *(2, 4, 6)]) (simp_all add: *(7))
  then show ?thesis using assms(1) * by (auto simp: pairing_ok_def)
qed

lemma pairing_seq: "pairing_ok sid p \<Longrightarrow> pairing_ok sid (p\<lparr>pp_throughSeq := n\<rparr>)"
  by (auto simp: pairing_ok_def)

lemma pairing_envelopes: "pair_envelopes cutoff sid p envs = Some q \<Longrightarrow> pairing_ok sid p \<Longrightarrow> pairing_ok sid q"
proof (induction envs arbitrary: p)
  case (Cons env envs)
  show ?case
  proof (cases "afterCutoff (env_timestamp env) cutoff")
    case True
    then show ?thesis using Cons by simp
  next
    case False
    let ?p = "p\<lparr>pp_throughSeq := max (pp_throughSeq p) (env_seq env)\<rparr>"
    have ok: "pairing_ok sid ?p" using Cons.prems(2) by (rule pairing_seq)
    have "pairing_ok sid q" if "pairing_ok sid q'" "pair_envelopes cutoff sid q' envs = Some q" for q'
      using Cons.IH that by blast
    then show ?thesis
      using Cons.prems(1) False ok
      by (cases "env_event env")
        (auto simp: Let_def split: option.splits dest: pairing_recorded [OF ok] pairing_evaluated [OF ok])
  qed
qed simp

text \<open>
  The history a session contributes is paired. Every sample taken from a journal names a
  reflection of that session with a decision of the same trigger and action, no reflection and
  no evaluation is counted twice, and the source record states how many samples there are.
\<close>

theorem session_samples_paired:
  assumes "session_source H cutoff sid envs = Some (ss, src)"
  shows "ss \<noteq> [] \<and> os_sessionId src = sid \<and> os_sampleCount src = of_nat (length ss) \<and>
    os_sampleHash src = hashSamples H ss \<and> distinct (map cs_reflectionId ss) \<and>
    (\<exists>p. pair_envelopes cutoff sid empty_pairing envs = Some p \<and> distinct (map rf_id (pp_reflections p)) \<and>
       (\<forall>s \<in> set ss. sample_of (pp_reflections p) sid s))"
proof -
  from assms obtain p where p: "pair_envelopes cutoff sid empty_pairing envs = Some p" "pp_samples p \<noteq> []"
    "ss = sort_key compareSample_key (pp_samples p)" "os_sessionId src = sid"
    "os_sampleCount src = of_nat (length ss)" "os_sampleHash src = hashSamples H ss"
    by (auto simp: session_source_def Let_def split: option.splits if_splits)
  have "pairing_ok sid p"
    by (rule pairing_envelopes [OF p(1)]) (simp add: pairing_ok_def empty_pairing_def)
  moreover have "ss \<noteq> []" using p(2, 3) by (metis length_0_conv length_sort)
  ultimately show ?thesis
    using p distinct_map_sort_key [of cs_reflectionId compareSample_key "pp_samples p"]
    by (auto simp: pairing_ok_def)
qed

definition demo_journal :: "envelope list" where
  "demo_journal =
     [\<lparr>env_schemaVersion = 1, env_seq = 1, env_sessionId = ''s'', env_timestamp = ''2026'', env_checksum = ''c'',
       env_event = Reflection_recorded demo_reflection\<rparr>,
      \<lparr>env_schemaVersion = 1, env_seq = 2, env_sessionId = ''s'', env_timestamp = ''2026'', env_checksum = ''c'',
       env_event = Reflection_evaluated \<lparr>re_id = ''e1'', re_reflectionId = ''r1'', re_createdAt = ''now'',
         re_outcome = Effective, re_toolCallsObserved = 2, re_progressSignals = [''p''],
         re_followUp = demo_decision\<rparr>\<rparr>]"

theorem session_samples_paired_witness:
  "\<exists>ss src. session_source demo_host None ''s'' demo_journal = Some (ss, src) \<and> os_sampleCount src = of_nat (length ss)"
proof -
  have "\<exists>ss src. session_source demo_host None ''s'' demo_journal = Some (ss, src)"
    by (simp add: session_source_def demo_journal_def afterCutoff_def pair_recorded_def pair_evaluated_def
        empty_pairing_def demo_reflection_def buildReflection_def demo_health_def demo_decision_def Let_def
        window_in_range_def isValidSample_def isOutcomeCalibrationTrigger_def isOutcomeCalibrationAction_def)
  then obtain ss src where r: "session_source demo_host None ''s'' demo_journal = Some (ss, src)" by blast
  from session_samples_paired [OF r] r show ?thesis by blast
qed

end
