(* ===== verification/Regex.thy ===== *)
theory Regex
  imports JsData
begin

text \<open>
  The regular expressions of the source, as terms, with an executable matcher. A position is
  the character before it (if any) and the rest of the text; \<open>ends r\<close> lists the
  positions a match of \<open>r\<close> can end at. The source only asks whether an expression matches
  (\<open>test\<close>), for which the greedy order of JavaScript's backtracking is immaterial.
\<close>

datatype re =
    Eps
  | Cls "char \<Rightarrow> bool"
  | Seq re re
  | Alt re re
  | Star re
  | Bol
  | Eol
  | Word_b
  | Ahead re
  | Not_ahead re

type_synonym re_pos = "char option \<times> string"

definition is_word :: "char \<Rightarrow> bool" where
  "is_word c \<longleftrightarrow> (let n = (of_char c :: nat) in
     (48 \<le> n \<and> n \<le> 57) \<or> (65 \<le> n \<and> n \<le> 90) \<or> (97 \<le> n \<and> n \<le> 122) \<or> n = 95)"

definition at_boundary :: "re_pos \<Rightarrow> bool" where
  "at_boundary p \<longleftrightarrow>
     (case fst p of None \<Rightarrow> False | Some c \<Rightarrow> is_word c) \<noteq> (case snd p of [] \<Rightarrow> False | c # _ \<Rightarrow> is_word c)"

text \<open>Iteration with progress: each round must consume something.\<close>

primrec star_ends :: "(re_pos \<Rightarrow> re_pos list) \<Rightarrow> nat \<Rightarrow> re_pos \<Rightarrow> re_pos list" where
  "star_ends f 0 p = [p]"
| "star_ends f (Suc n) p =
     p # concat (map (star_ends f n) (filter (\<lambda>q. length (snd q) < length (snd p)) (f p)))"

primrec ends :: "re \<Rightarrow> re_pos \<Rightarrow> re_pos list" where
  "ends Eps p = [p]"
| "ends (Cls f) p = (case snd p of [] \<Rightarrow> [] | c # s \<Rightarrow> if f c then [(Some c, s)] else [])"
| "ends (Seq r1 r2) p = concat (map (ends r2) (ends r1 p))"
| "ends (Alt r1 r2) p = ends r1 p @ ends r2 p"
| "ends (Star r) p = remdups (star_ends (ends r) (length (snd p)) p)"
| "ends Bol p = (if fst p = None then [p] else [])"
| "ends Eol p = (if snd p = [] then [p] else [])"
| "ends Word_b p = (if at_boundary p then [p] else [])"
| "ends (Ahead r) p = (if ends r p \<noteq> [] then [p] else [])"
| "ends (Not_ahead r) p = (if ends r p = [] then [p] else [])"

fun re_search :: "re \<Rightarrow> re_pos \<Rightarrow> bool" where
  "re_search r (b, []) = (ends r (b, []) \<noteq> [])"
| "re_search r (b, c # s) = (ends r (b, c # s) \<noteq> [] \<or> re_search r (Some c, s))"

definition re_test :: "re \<Rightarrow> string \<Rightarrow> bool" where
  "re_test r s = re_search r (None, s)"

subsection \<open>Building blocks\<close>

definition Chr :: "char \<Rightarrow> re" where "Chr c = Cls (\<lambda>d. d = c)"

primrec Lit :: "string \<Rightarrow> re" where
  "Lit [] = Eps"
| "Lit (c # s) = Seq (Chr c) (Lit s)"

text \<open>A literal under the \<open>i\<close> flag.\<close>

primrec Lit_i :: "string \<Rightarrow> re" where
  "Lit_i [] = Eps"
| "Lit_i (c # s) = Seq (Cls (\<lambda>d. to_lower_char d = to_lower_char c)) (Lit_i s)"

fun Seqs :: "re list \<Rightarrow> re" where
  "Seqs [] = Eps"
| "Seqs [r] = r"
| "Seqs (r # r' # rs) = Seq r (Seqs (r' # rs))"

fun Alts :: "re list \<Rightarrow> re" where
  "Alts [] = Cls (\<lambda>c. False)"
| "Alts [r] = r"
| "Alts (r # r' # rs) = Alt r (Alts (r' # rs))"

definition Opt :: "re \<Rightarrow> re" where "Opt r = Alt r Eps"
definition Plus :: "re \<Rightarrow> re" where "Plus r = Seq r (Star r)"
definition One_of :: "string \<Rightarrow> re" where "One_of cs = Cls (\<lambda>c. c \<in> set cs)"
definition None_of :: "string \<Rightarrow> re" where "None_of cs = Cls (\<lambda>c. c \<notin> set cs)"
definition Ws :: re where "Ws = Cls is_ws"
definition Wss :: re where "Wss = Plus Ws"
definition Ws0 :: re where "Ws0 = Star Ws"
definition Wordc :: re where "Wordc = Cls is_word"
definition is_digit :: "char \<Rightarrow> bool" where
  "is_digit c \<longleftrightarrow> (let n = (of_char c :: nat) in 48 \<le> n \<and> n \<le> 57)"
definition Digit :: re where "Digit = Cls is_digit"

text \<open>\<open>.\<close> is any character but a line terminator.\<close>

definition Dot :: re where "Dot = Cls (\<lambda>c. c \<noteq> CHR 0x0A \<and> c \<noteq> CHR 0x0D)"

subsection \<open>Facts\<close>

lemma ends_Seqs_Cons: "ends (Seqs (r # rs)) p = concat (map (ends (Seqs rs)) (ends r p))"
proof -
  have "ends Eps = (\<lambda>p. [p])" by (rule ext) simp
  then show ?thesis by (cases rs) simp_all
qed

lemma ends_Lit: "ends (Lit l) (b, s) \<noteq> [] \<longleftrightarrow> starts_with s l"
proof (induction l arbitrary: b s)
  case (Cons c l)
  then show ?case by (cases s) (auto simp: Chr_def starts_with_def)
qed (simp add: starts_with_def)

lemma re_search_Alt: "re_search (Alt r1 r2) p \<longleftrightarrow> re_search r1 p \<or> re_search r2 p"
  by (induction "Alt r1 r2" p rule: re_search.induct) auto

lemma re_test_Alts: "rs \<noteq> [] \<Longrightarrow> re_test (Alts rs) s \<longleftrightarrow> list_ex (\<lambda>q. re_test q s) rs"
  by (induction rs rule: Alts.induct) (auto simp: re_test_def re_search_Alt)

lemma re_test_class: "re_test (Cls f) s \<longleftrightarrow> list_ex f s"
proof -
  have "re_search (Cls f) (b, s) \<longleftrightarrow> list_ex f s" for b
    by (induction s arbitrary: b) auto
  then show ?thesis by (simp add: re_test_def)
qed

text \<open>An expression anchored at the start matches at the start or not at all.\<close>

lemma re_search_bol: "re_search (Seq Bol r) (Some c, s) = False"
  by (induction s arbitrary: c) auto

lemma re_test_bol: "re_test (Seq Bol r) s \<longleftrightarrow> ends r (None, s) \<noteq> []"
  by (cases s) (simp_all add: re_test_def re_search_bol)

end
