(* ===== verification/Evidence.thy ===== *)
theory Evidence
  imports Calibration Regex
begin

text \<open>
  Runtime-issued evidence: the receipt store (verification/EvidenceStore.ts), which receipts
  support a criterion (criteriaEvidence.ts), which are stale (freshness.ts), and the machine
  validation of a verifier's report (verdict.ts). SHA-256, the clock, the id generator, the
  redaction of secrets and reading a file's version are parameters.
\<close>

subsection \<open>Receipts and their signature\<close>

fun kind_text :: "evidence_kind \<Rightarrow> string" where
  "kind_text Command_kind = ''command''"
| "kind_text Test_kind = ''test''"
| "kind_text File_assertion = ''file_assertion''"
| "kind_text Diff_assertion = ''diff_assertion''"
| "kind_text Manual_kind = ''manual''"

fun receipt_status_text :: "receipt_status \<Rightarrow> string" where
  "receipt_status_text Receipt_passed = ''passed''"
| "receipt_status_text Receipt_failed = ''failed''"
| "receipt_status_text Receipt_inconclusive = ''inconclusive''"

definition or_null :: "('a \<Rightarrow> json) \<Rightarrow> 'a option \<Rightarrow> json" where
  "or_null f v = (case v of None \<Rightarrow> JNull | Some x \<Rightarrow> f x)"

text \<open>\<open>JSON.stringify\<close> leaves out members that are undefined.\<close>

definition opt_member :: "string \<Rightarrow> ('a \<Rightarrow> json) \<Rightarrow> 'a option \<Rightarrow> (string \<times> json) list" where
  "opt_member k f v = (case v of None \<Rightarrow> [] | Some x \<Rightarrow> [(k, f x)])"

definition receiptHashBody :: "evidence_receipt \<Rightarrow> json" where
  "receiptHashBody r = JObj
     [(''sessionId'', JStr (er_sessionId r)), (''runId'', JStr (er_runId r)),
      (''taskId'', or_null JStr (er_taskId r)), (''kind'', JStr (kind_text (er_kind r))),
      (''status'', JStr (receipt_status_text (er_status r))),
      (''criterionIds'', JArr (map JStr (er_criterionIds r))),
      (''invocation'', JObj ([(''tool'', JStr (inv_tool (er_invocation r))),
         (''normalizedInput'', inv_normalizedInput (er_invocation r))] @
         opt_member ''cwd'' JStr (inv_cwd (er_invocation r)))),
      (''observation'', JObj (opt_member ''exitCode'' JNum (eo_exitCode (er_observation r)) @
         [(''outputPreview'', JStr (eo_outputPreview (er_observation r)))])),
      (''startedAt'', JStr (er_startedAt r)), (''completedAt'', JStr (er_completedAt r)),
      (''workspaceRoot'', or_null JStr (er_workspaceRoot r)),
      (''fileVersions'', or_null (\<lambda>fv. JObj (obj_entries (map (map_prod id JStr) fv))) (er_fileVersions r)),
      (''workspaceRevision'', or_null JNum (er_workspaceRevision r))]"

definition receipt_digest :: "host \<Rightarrow> evidence_receipt \<Rightarrow> string" where
  "receipt_digest H r = h_sha256 H (json_stringify (receiptHashBody r))"

definition verifySha256 :: "host \<Rightarrow> evidence_receipt \<Rightarrow> bool" where
  "verifySha256 H r \<longleftrightarrow> receipt_digest H r = er_sha256 r"

subsection \<open>The store\<close>

record evidence_store =
  es_receipts :: "evidence_receipt jsobj"
  es_revision :: number
  es_changedPaths :: "string list"
  es_sessionId :: string
  es_runId :: string
  es_workspaceRoot :: "string option"

datatype file_read = File_version string | File_missing | File_unreadable

definition MISSING_FILE_VERSION :: string where "MISSING_FILE_VERSION = ''missing''"

definition store_resolve :: "host \<Rightarrow> evidence_store \<Rightarrow> string \<Rightarrow> string option" where
  "store_resolve H st path =
     (case es_workspaceRoot st of
        None \<Rightarrow> None
      | Some r \<Rightarrow>
          if r = [] then None
          else let rt = resolve_path H r; candidate = resolve_under rt path;
                   rel = relative_text rt candidate
               in if rel = ''..'' \<or> starts_with rel ''../'' \<or> is_absolute rel then None
                  else Some (abs_text candidate))"

definition add_changed :: "host \<Rightarrow> string list \<Rightarrow> evidence_store \<Rightarrow> evidence_store" where
  "add_changed H paths st =
     fold (\<lambda>p s. case store_resolve H s p of
        None \<Rightarrow> s | Some q \<Rightarrow> s\<lparr>es_changedPaths := push_unique (es_changedPaths s) q\<rparr>) paths st"

datatype path_arg = No_path | One_path string | Many_paths "string list"

definition path_list :: "path_arg \<Rightarrow> string list" where
  "path_list a =
     (case a of No_path \<Rightarrow> [] | One_path p \<Rightarrow> if p = [] then [] else [p] | Many_paths ps \<Rightarrow> ps)"

definition bumpWorkspaceRevision :: "host \<Rightarrow> path_arg \<Rightarrow> evidence_store \<Rightarrow> evidence_store" where
  "bumpWorkspaceRevision H arg st =
     (let s = add_changed H (path_list arg) st in s\<lparr>es_revision := es_revision s + 1\<rparr>)"

definition setWorkspaceRevision :: "host \<Rightarrow> number \<Rightarrow> string list \<Rightarrow> evidence_store \<Rightarrow> evidence_store" where
  "setWorkspaceRevision H revision paths st =
     add_changed H paths (st\<lparr>es_revision := revision, es_changedPaths := []\<rparr>)"

record receipt_input =
  ri_kind :: evidence_kind
  ri_status :: receipt_status
  ri_criterionIds :: "string list option"
  ri_taskId :: "string option"
  ri_invocation :: evidence_invocation
  ri_observation :: evidence_observation
  ri_startedAt :: string
  ri_fileVersions :: "string jsobj option"
  ri_workspaceRevision :: "number option"

fun captureChangedFileVersions :: "(string \<Rightarrow> file_read) \<Rightarrow> string list \<Rightarrow> string jsobj" where
  "captureChangedFileVersions readv [] = []"
| "captureChangedFileVersions readv (p # ps) =
     (case readv p of
        File_version v \<Rightarrow> (p, v) # captureChangedFileVersions readv ps
      | File_missing \<Rightarrow> (p, MISSING_FILE_VERSION) # captureChangedFileVersions readv ps
      | File_unreadable \<Rightarrow> captureChangedFileVersions readv ps)"

definition unsigned_receipt ::
    "(string \<Rightarrow> file_read) \<Rightarrow> string \<Rightarrow> string \<Rightarrow> receipt_input \<Rightarrow> evidence_store \<Rightarrow> evidence_receipt" where
  "unsigned_receipt readv rid now input st =
     (let auto = (if ri_fileVersions input = None \<and> ri_kind input \<in> CODE_BINDING_KINDS
                  then Some (captureChangedFileVersions readv (es_changedPaths st)) else None)
      in \<lparr>er_id = rid, er_sessionId = es_sessionId st, er_runId = es_runId st,
          er_taskId = ri_taskId input,
          er_criterionIds = (case ri_criterionIds input of None \<Rightarrow> [] | Some c \<Rightarrow> c),
          er_kind = ri_kind input, er_status = ri_status input,
          er_invocation = ri_invocation input, er_observation = ri_observation input,
          er_startedAt = ri_startedAt input, er_completedAt = now, er_sha256 = [],
          er_workspaceRoot = es_workspaceRoot st,
          er_fileVersions = (case ri_fileVersions input of
              Some fv \<Rightarrow> Some fv
            | None \<Rightarrow> (case auto of
                None \<Rightarrow> None | Some fv \<Rightarrow> if fv \<noteq> [] then Some fv else None)),
          er_workspaceRevision = Some (case ri_workspaceRevision input of
              None \<Rightarrow> es_revision st | Some n \<Rightarrow> n)\<rparr>)"

definition sign_receipt :: "host \<Rightarrow> evidence_receipt \<Rightarrow> evidence_receipt" where
  "sign_receipt H r = r\<lparr>er_sha256 := receipt_digest H r\<rparr>"

definition record_receipt ::
    "host \<Rightarrow> (receipt_input \<Rightarrow> receipt_input) \<Rightarrow> (string \<Rightarrow> file_read) \<Rightarrow> string \<Rightarrow> string \<Rightarrow> receipt_input \<Rightarrow>
     evidence_store \<Rightarrow> evidence_receipt \<times> evidence_store" where
  "record_receipt H redactDeep readv rid now input st =
     (let r = sign_receipt H (unsigned_receipt readv rid now (redactDeep input) st)
      in (r, st\<lparr>es_receipts := obj_set (es_receipts st) (er_id r) r\<rparr>))"

definition es_get :: "evidence_store \<Rightarrow> string \<Rightarrow> evidence_receipt option" where
  "es_get st k = obj_get (es_receipts st) k"

definition es_exists :: "evidence_store \<Rightarrow> string \<Rightarrow> bool" where
  "es_exists st k \<longleftrightarrow> es_get st k \<noteq> None"

definition es_list :: "evidence_store \<Rightarrow> evidence_receipt list" where
  "es_list st = map snd (es_receipts st)"

definition restore_receipt :: "host \<Rightarrow> evidence_receipt \<Rightarrow> evidence_store \<Rightarrow> evidence_store" where
  "restore_receipt H r st =
     (if \<not> verifySha256 H r
      then st\<lparr>es_receipts := obj_set (es_receipts st) (er_id r) (r\<lparr>er_status := Receipt_inconclusive\<rparr>)\<rparr>
      else st\<lparr>es_receipts := obj_set (es_receipts st) (er_id r) r\<rparr>)"

subsection \<open>Which receipts support a criterion\<close>

record usability =
  uo_stale :: "string list option"
  uo_workspaceRoot :: "string option"

definition sameWorkspace :: "host \<Rightarrow> string \<Rightarrow> string \<Rightarrow> bool" where
  "sameWorkspace H actual expected \<longleftrightarrow> resolve_path H actual = resolve_path H expected"

definition truthy :: "string option \<Rightarrow> string option" where
  "truthy v = (case v of None \<Rightarrow> None | Some s \<Rightarrow> if s = [] then None else Some s)"

definition receiptIsUsable :: "host \<Rightarrow> usability \<Rightarrow> evidence_receipt \<Rightarrow> bool" where
  "receiptIsUsable H opts r =
     (if er_status r \<noteq> Receipt_passed \<or> \<not> verifySha256 H r then False
      else if (case uo_stale opts of None \<Rightarrow> False | Some ids \<Rightarrow> er_id r \<in> set ids) then False
      else (case truthy (uo_workspaceRoot opts) of
              None \<Rightarrow> True
            | Some expected \<Rightarrow>
                (case truthy (er_workspaceRoot r) of
                   None \<Rightarrow> False | Some actual \<Rightarrow> sameWorkspace H actual expected)))"

definition receiptSupportsCriterion :: "host \<Rightarrow> usability \<Rightarrow> evidence_receipt \<Rightarrow> acceptance_criterion \<Rightarrow> bool" where
  "receiptSupportsCriterion H opts r c \<longleftrightarrow>
     receiptIsUsable H opts r \<and> ac_id c \<in> set (er_criterionIds r) \<and> er_kind r = ac_evidenceKind c"

definition requiredCriteriaWithoutUsableEvidence ::
    "host \<Rightarrow> usability \<Rightarrow> acceptance_criterion list \<Rightarrow> evidence_receipt list \<Rightarrow> acceptance_criterion list" where
  "requiredCriteriaWithoutUsableEvidence H opts criteria evidence =
     filter (\<lambda>c. \<not> list_ex (\<lambda>r. receiptSupportsCriterion H opts r c) evidence) (filter ac_required criteria)"

subsection \<open>Freshness\<close>

definition binding_holds :: "(string \<Rightarrow> file_read) \<Rightarrow> string \<times> string \<Rightarrow> bool" where
  "binding_holds readv b =
     (case readv (fst b) of
        File_version v \<Rightarrow> v = snd b
      | File_missing \<Rightarrow> snd b = MISSING_FILE_VERSION
      | File_unreadable \<Rightarrow> False)"

definition receipt_stale :: "(string \<Rightarrow> file_read) \<Rightarrow> number \<Rightarrow> evidence_receipt \<Rightarrow> bool" where
  "receipt_stale readv revision r =
     (let fv = (case er_fileVersions r of None \<Rightarrow> [] | Some m \<Rightarrow> m)
      in if fv \<noteq> [] then \<not> list_all (binding_holds readv) (obj_entries fv)
         else if er_kind r \<notin> CODE_BINDING_KINDS then False
         else (case er_workspaceRevision r of None \<Rightarrow> True | Some n \<Rightarrow> n < revision))"

definition findStaleReceipts :: "(string \<Rightarrow> file_read) \<Rightarrow> evidence_store \<Rightarrow> string list" where
  "findStaleReceipts readv st =
     map er_id (filter (receipt_stale readv (es_revision st)) (es_list st))"

subsection \<open>The store keeps its promises\<close>

lemma digest_ignores_signature: "receipt_digest H (r\<lparr>er_sha256 := x\<rparr>) = receipt_digest H r"
  by (simp add: receipt_digest_def receiptHashBody_def)

lemma signed_verifies [simp]: "verifySha256 H (sign_receipt H r)"
  by (simp add: verifySha256_def sign_receipt_def digest_ignores_signature)

lemma sign_frame [simp]:
  "er_id (sign_receipt H r) = er_id r" "er_status (sign_receipt H r) = er_status r"
  "er_kind (sign_receipt H r) = er_kind r" "er_fileVersions (sign_receipt H r) = er_fileVersions r"
  "er_workspaceRevision (sign_receipt H r) = er_workspaceRevision r"
  "er_workspaceRoot (sign_receipt H r) = er_workspaceRoot r"
  "er_criterionIds (sign_receipt H r) = er_criterionIds r"
  by (simp_all add: sign_receipt_def)

definition store_ok :: "host \<Rightarrow> evidence_store \<Rightarrow> bool" where
  "store_ok H st \<longleftrightarrow>
     (\<forall>(k, r) \<in> set (es_receipts st). er_id r = k \<and> (er_status r = Receipt_passed \<longrightarrow> verifySha256 H r))"

lemma store_put:
  "store_ok H st \<Longrightarrow> (er_status r = Receipt_passed \<Longrightarrow> verifySha256 H r) \<Longrightarrow>
   store_ok H (st\<lparr>es_receipts := obj_set (es_receipts st) (er_id r) r\<rparr>)"
  by (auto simp: store_ok_def dest!: obj_set_pairs)

lemma es_get_put [simp]:
  "es_get (st\<lparr>es_receipts := obj_set (es_receipts st) k r\<rparr>) j = (if j = k then Some r else es_get st j)"
  by (simp add: es_get_def)

text \<open>The operations a session applies to its store, as one step function.\<close>

datatype store_op =
    Bump path_arg
  | Set_revision number "string list"
  | Record string string receipt_input
  | Restore evidence_receipt

fun store_step ::
    "host \<Rightarrow> (receipt_input \<Rightarrow> receipt_input) \<Rightarrow> (string \<Rightarrow> file_read) \<Rightarrow> evidence_store \<Rightarrow> store_op \<Rightarrow>
     evidence_store res" where
  "store_step H redact readv st (Bump a) = Inr (bumpWorkspaceRevision H a st)"
| "store_step H redact readv st (Set_revision n ps) = Inr (setWorkspaceRevision H n ps st)"
| "store_step H redact readv st (Record rid now input) = Inr (snd (record_receipt H redact readv rid now input st))"
| "store_step H redact readv st (Restore r) = Inr (restore_receipt H r st)"

lemma add_changed_frame [simp]:
  "es_receipts (add_changed H ps st) = es_receipts st" "es_revision (add_changed H ps st) = es_revision st"
  unfolding add_changed_def
  by (induction ps arbitrary: st) (auto split: option.split)

lemma store_step_ok: "store_ok H st \<Longrightarrow> store_step H redact readv st op = Inr st' \<Longrightarrow> store_ok H st'"
proof (cases op)
  case (Record rid now input)
  then show "store_ok H st \<Longrightarrow> store_step H redact readv st op = Inr st' \<Longrightarrow> store_ok H st'"
    using store_put [of H st "sign_receipt H (unsigned_receipt readv rid now (redact input) st)"]
    by (simp add: record_receipt_def Let_def)
next
  case (Restore r)
  then show "store_ok H st \<Longrightarrow> store_step H redact readv st op = Inr st' \<Longrightarrow> store_ok H st'"
    using store_put [of H st r] store_put [of H st "r\<lparr>er_status := Receipt_inconclusive\<rparr>"]
    by (auto simp: restore_receipt_def)
qed (auto simp: bumpWorkspaceRevision_def setWorkspaceRevision_def store_ok_def Let_def)

interpretation evidence: invariant_machine "store_step H redact readv" "\<lambda>op. True" "store_ok H" for H redact readv
  by unfold_locales (rule store_step_ok)

text \<open>
  Tampering is caught. However receipts are recorded, restored from a journal and aged,
  starting from an empty store, a receipt the store holds as passed carries a signature that
  matches its whole body, so editing any signed field of a journalled receipt leaves a
  receipt that supports nothing.
\<close>

theorem store_holds_no_forgery:
  assumes "run_steps (store_step H redact readv) st ops = Inr st'" "es_receipts st = []"
    "es_get st' k = Some r" "receiptIsUsable H opts r"
  shows "er_id r = k \<and> er_sha256 r = h_sha256 H (json_stringify (receiptHashBody r))"
proof -
  have "store_ok H st'"
    using evidence.inv_run [OF assms(1)] assms(2) by (simp add: store_ok_def list_all_iff)
  then show ?thesis
    using assms(3, 4)
    by (auto simp: es_get_def obj_get_def store_ok_def receiptIsUsable_def verifySha256_def receipt_digest_def
        dest!: map_of_SomeD split: if_splits)
qed

definition demo_store :: evidence_store where
  "demo_store = \<lparr>es_receipts = [], es_revision = 0, es_changedPaths = [], es_sessionId = ''s'', es_runId = ''r'',
     es_workspaceRoot = Some ''/w''\<rparr>"

definition demo_receipt_input :: receipt_input where
  "demo_receipt_input = \<lparr>ri_kind = Test_kind, ri_status = Receipt_passed, ri_criterionIds = Some [''ac1''],
     ri_taskId = None,
     ri_invocation = \<lparr>inv_tool = ''Shell'', inv_normalizedInput = JObj [(''command'', JStr ''npm test'')], inv_cwd = None\<rparr>,
     ri_observation = \<lparr>eo_exitCode = Some 0, eo_outputPreview = ''ok''\<rparr>, ri_startedAt = ''t0'',
     ri_fileVersions = None, ri_workspaceRevision = None\<rparr>"

definition demo_receipt :: evidence_receipt where
  "demo_receipt = sign_receipt demo_host
     (unsigned_receipt (\<lambda>_. File_missing) ''ev1'' ''t1'' demo_receipt_input demo_store)"

definition demo_store1 :: evidence_store where
  "demo_store1 = demo_store\<lparr>es_receipts := [(''ev1'', demo_receipt)]\<rparr>"

lemma demo_record: "record_receipt demo_host id (\<lambda>_. File_missing) ''ev1'' ''t1'' demo_receipt_input demo_store =
    (demo_receipt, demo_store1)"
  by (simp add: record_receipt_def demo_store1_def demo_receipt_def Let_def)
    (simp add: demo_store_def unsigned_receipt_def Let_def)

lemma demo_usable: "receiptIsUsable demo_host \<lparr>uo_stale = None, uo_workspaceRoot = Some ''/w''\<rparr> demo_receipt"
proof -
  have "verifySha256 demo_host demo_receipt" unfolding demo_receipt_def by (rule signed_verifies)
  moreover have "er_status demo_receipt = Receipt_passed" "er_workspaceRoot demo_receipt = Some ''/w''"
    by (simp_all add: demo_receipt_def unsigned_receipt_def demo_receipt_input_def demo_store_def Let_def)
  ultimately show ?thesis by (simp add: receiptIsUsable_def truthy_def sameWorkspace_def)
qed

theorem store_holds_no_forgery_witness:
  "er_sha256 demo_receipt = h_sha256 demo_host (json_stringify (receiptHashBody demo_receipt))"
proof -
  have "run_steps (store_step demo_host id (\<lambda>_. File_missing)) demo_store [Record ''ev1'' ''t1'' demo_receipt_input] =
      Inr demo_store1"
    by (simp add: demo_record)
  from store_holds_no_forgery [OF this _ _ demo_usable, of "''ev1''"] show ?thesis
    by (simp add: demo_store_def demo_store1_def es_get_def obj_get_def)
qed

lemma captured_bindings_hold:
  "binding_holds readv b" if "b \<in> set (captureChangedFileVersions readv ps)"
  using that by (induction ps) (auto simp: binding_holds_def split: file_read.splits)

text \<open>
  Evidence ages with the workspace and only with it. A receipt signed now, with the file
  bindings the store captured, is fresh as long as those files read the same and no side
  effect was announced; as soon as one is announced, every receipt without file bindings that
  was signed before it is stale.
\<close>

theorem evidence_ages:
  assumes "ri_fileVersions (redact input) = None" "ri_workspaceRevision (redact input) = None"
  shows "(case record_receipt H redact readv rid now input st of (r, st') \<Rightarrow>
      \<not> receipt_stale readv (es_revision st') r \<and> es_get st' rid = Some r \<and>
      (er_fileVersions r = None \<longrightarrow> rid \<in> set (findStaleReceipts readv (bumpWorkspaceRevision H a st'))))"
proof -
  let ?r = "sign_receipt H (unsigned_receipt readv rid now (redact input) st)"
  have rid: "er_id ?r = rid" and rev: "er_workspaceRevision ?r = Some (es_revision st)"
    using assms(2) by (simp_all add: unsigned_receipt_def Let_def)
  have "list_all (binding_holds readv) (case er_fileVersions ?r of None \<Rightarrow> [] | Some m \<Rightarrow> m)"
    using assms(1) by (auto simp: unsigned_receipt_def Let_def list_all_iff intro: captured_bindings_hold split: if_splits)
  then have "\<not> receipt_stale readv (es_revision st) ?r"
    using rev by (simp add: receipt_stale_def Let_def list_all_iff split: option.splits)
  moreover have "receipt_stale readv (es_revision st + 1) ?r" if "er_fileVersions ?r = None"
    using that rev by (simp add: receipt_stale_def CODE_BINDING_KINDS_def) (cases "er_kind ?r", simp_all)
  moreover have "(rid, ?r) \<in> set (obj_set (es_receipts st) rid ?r)"
    by (metis fun_upd_same map_of_SomeD obj_get_def obj_get_set)
  ultimately show ?thesis
    using rid
    by (auto simp: record_receipt_def Let_def findStaleReceipts_def bumpWorkspaceRevision_def es_list_def
        intro!: image_eqI [of _ er_id ?r] image_eqI [of _ snd "(rid, ?r)"])
qed

theorem evidence_ages_witness:
  "\<not> receipt_stale (\<lambda>_. File_missing) 0 demo_receipt"
  using evidence_ages [where redact = id and input = demo_receipt_input and H = demo_host and
      readv = "\<lambda>_. File_missing" and rid = "''ev1''" and now = "''t1''" and st = demo_store and a = No_path]
  by (simp add: demo_record) (simp add: demo_receipt_input_def demo_store1_def demo_store_def)

end
