(* ===== verification/Tasks.thy ===== *)
theory Tasks
  imports Evidence
begin

text \<open>
  The task graph (planning/TaskStore.ts): creation, optimistic updates with the
  single-agent guards, restoring, migration to a repaired plan version and the depth-first
  cycle check. The JavaScript \<open>Map\<close> of tasks is an association list in insertion order; the
  clock and the id generator are arguments. \<open>list()\<close> sorts by \<open>localeCompare\<close> and is not
  modelled.
\<close>

subsection \<open>The cycle check\<close>

type_synonym task_map = "plan_task jsobj"

definition task_deps :: "task_map \<Rightarrow> string \<Rightarrow> string list" where
  "task_deps ts k = (case obj_get ts k of None \<Rightarrow> [] | Some t \<Rightarrow> tk_dependsOn t)"

text \<open>
  The recursive \<open>visit\<close> shares one mutable set of seen ids between siblings and stops at the
  first success, so it is a depth-first search over an explicit stack.
\<close>

function visit :: "task_map \<Rightarrow> string \<Rightarrow> string list \<Rightarrow> string list \<Rightarrow> bool" where
  "visit ts target [] seen = False"
| "visit ts target (x # stack) seen =
     (if x = target then True
      else if x \<in> set seen then visit ts target stack seen
      else visit ts target (task_deps ts x @ stack) (x # seen))"
  by pat_completeness auto

lemma task_deps_unknown: "x \<notin> set (obj_keys ts) \<Longrightarrow> task_deps ts x = []"
  by (simp add: task_deps_def flip: obj_get_None_iff)

termination visit
proof (relation "measures [\<lambda>(ts, target, stack, seen). card (set (obj_keys ts) - set seen),
    \<lambda>(ts, target, stack, seen). length stack]")
  fix ts :: task_map and target x :: string and stack seen
  assume "x \<notin> set seen"
  then show "((ts, target, task_deps ts x @ stack, x # seen), ts, target, x # stack, seen) \<in>
      measures [\<lambda>(ts, target, stack, seen). card (set (obj_keys ts) - set seen),
        \<lambda>(ts, target, stack, seen). length stack]"
  proof (cases "x \<in> set (obj_keys ts)")
    case True
    with \<open>x \<notin> set seen\<close> have "card (set (obj_keys ts) - set (x # seen)) < card (set (obj_keys ts) - set seen)"
      by (intro psubset_card_mono) auto
    then show ?thesis by simp
  next
    case False
    then have "set (obj_keys ts) - set (x # seen) = set (obj_keys ts) - set seen" by auto
    then show ?thesis using task_deps_unknown [OF False] by simp
  qed
qed auto

definition wouldCycle :: "task_map \<Rightarrow> string \<Rightarrow> string list \<Rightarrow> bool" where
  "wouldCycle ts taskId newDeps = list_ex (\<lambda>d. visit ts taskId [d] []) newDeps"

subsection \<open>Operations\<close>

datatype task_error =
    Task_not_found | Revision_conflict | Invalid_transition | Already_in_progress
  | Dependencies_incomplete | Blocked_reason_required | Missing_evidence
  | Dangling_dependency | Dependency_cycle

fun VALID_TRANSITIONS :: "task_status \<Rightarrow> task_status list" where
  "VALID_TRANSITIONS Pending = [In_progress, Blocked, Failed]"
| "VALID_TRANSITIONS In_progress = [Completed, Blocked, Failed, Pending]"
| "VALID_TRANSITIONS Blocked = [Pending, In_progress, Failed]"
| "VALID_TRANSITIONS Completed = []"
| "VALID_TRANSITIONS Failed = [Pending]"

record create_task_input =
  ct_subject :: string
  ct_description :: "string option"
  ct_activeForm :: "string option"
  ct_dependsOn :: "string list option"
  ct_acceptanceCriteria :: "string list option"
  ct_planId :: "string option"
  ct_planVersion :: "number option"
  ct_stepId :: "string option"

definition new_task :: "string \<Rightarrow> string \<Rightarrow> string \<Rightarrow> create_task_input \<Rightarrow> plan_task" where
  "new_task tid createdNow updatedNow input =
     \<lparr>tk_id = tid, tk_planId = ct_planId input, tk_planVersion = ct_planVersion input,
      tk_stepId = ct_stepId input, tk_subject = ct_subject input,
      tk_description = or_else (ct_description input) [],
      tk_activeForm = or_else (ct_activeForm input) (ct_subject input),
      tk_status = Pending, tk_dependsOn = or_else (ct_dependsOn input) [],
      tk_acceptanceCriteria = or_else (ct_acceptanceCriteria input) [], tk_evidenceIds = [],
      tk_blockedReason = None, tk_revision = 1, tk_createdAt = createdNow, tk_updatedAt = updatedNow\<rparr>"

definition has_task :: "task_map \<Rightarrow> string \<Rightarrow> bool" where
  "has_task ts k \<longleftrightarrow> obj_get ts k \<noteq> None"

definition create_task ::
    "string \<Rightarrow> string \<Rightarrow> string \<Rightarrow> create_task_input \<Rightarrow> task_map \<Rightarrow> task_error + (plan_task \<times> task_map)" where
  "create_task tid createdNow updatedNow input ts =
     (if \<not> list_all (has_task ts) (or_else (ct_dependsOn input) []) then Inl Dangling_dependency
      else let t = new_task tid createdNow updatedNow input in Inr (t, obj_set ts (tk_id t) t))"

record task_options =
  to_criteria :: "acceptance_criterion list"
  to_evidence :: "evidence_receipt list"
  to_usability :: usability

definition task_completed :: "task_map \<Rightarrow> string \<Rightarrow> bool" where
  "task_completed ts k \<longleftrightarrow> (case obj_get ts k of None \<Rightarrow> False | Some t \<Rightarrow> tk_status t = Completed)"

definition start_problem :: "task_map \<Rightarrow> plan_task \<Rightarrow> task_patch \<Rightarrow> task_error option" where
  "start_problem ts t patch =
     (if list_ex (\<lambda>u. tk_status u = In_progress \<and> tk_id u \<noteq> tk_id t) (map snd ts) then Some Already_in_progress
      else if \<not> list_all (task_completed ts) (or_else (tp_dependsOn patch) (tk_dependsOn t))
           then Some Dependencies_incomplete else None)"

definition block_problem :: "plan_task \<Rightarrow> task_patch \<Rightarrow> task_error option" where
  "block_problem t patch =
     (if truthy (tp_blockedReason patch) = None \<and> truthy (tk_blockedReason t) = None
      then Some Blocked_reason_required else None)"

definition required_criteria :: "plan_task \<Rightarrow> task_patch \<Rightarrow> task_options \<Rightarrow> acceptance_criterion list" where
  "required_criteria t patch opts =
     filter (\<lambda>c. ac_id c \<in> set (or_else (tp_acceptanceCriteria patch) (tk_acceptanceCriteria t)) \<and> ac_required c)
       (to_criteria opts)"

definition complete_problem :: "host \<Rightarrow> plan_task \<Rightarrow> task_patch \<Rightarrow> task_options \<Rightarrow> task_error option" where
  "complete_problem H t patch opts =
     (if requiredCriteriaWithoutUsableEvidence H (to_usability opts) (required_criteria t patch opts)
           (to_evidence opts) \<noteq> []
      then Some Missing_evidence else None)"

definition transition_problem ::
    "host \<Rightarrow> task_map \<Rightarrow> plan_task \<Rightarrow> task_patch \<Rightarrow> task_options \<Rightarrow> task_error option" where
  "transition_problem H ts t patch opts =
     (case tp_status patch of
        None \<Rightarrow> None
      | Some next \<Rightarrow>
          if next = tk_status t then None
          else if next \<notin> set (VALID_TRANSITIONS (tk_status t)) then Some Invalid_transition
          else (case next of
                  In_progress \<Rightarrow> start_problem ts t patch
                | Blocked \<Rightarrow> block_problem t patch
                | Completed \<Rightarrow> complete_problem H t patch opts
                | _ \<Rightarrow> None))"

definition dependency_problem :: "task_map \<Rightarrow> plan_task \<Rightarrow> task_patch \<Rightarrow> task_error option" where
  "dependency_problem ts t patch =
     (case tp_dependsOn patch of
        None \<Rightarrow> None
      | Some deps \<Rightarrow>
          if \<not> list_all (has_task ts) deps then Some Dangling_dependency
          else if wouldCycle ts (tk_id t) deps then Some Dependency_cycle else None)"

definition patched :: "plan_task \<Rightarrow> task_patch \<Rightarrow> string \<Rightarrow> plan_task" where
  "patched t patch now =
     t\<lparr>tk_subject := or_else (tp_subject patch) (tk_subject t),
       tk_description := or_else (tp_description patch) (tk_description t),
       tk_activeForm := or_else (tp_activeForm patch) (tk_activeForm t),
       tk_status := or_else (tp_status patch) (tk_status t),
       tk_dependsOn := or_else (tp_dependsOn patch) (tk_dependsOn t),
       tk_acceptanceCriteria := or_else (tp_acceptanceCriteria patch) (tk_acceptanceCriteria t),
       tk_evidenceIds := or_else (tp_evidenceIds patch) (tk_evidenceIds t),
       tk_blockedReason := (case tp_blockedReason patch of None \<Rightarrow> tk_blockedReason t | Some b \<Rightarrow> Some b),
       tk_revision := tk_revision t + 1, tk_updatedAt := now\<rparr>"

definition update_task ::
    "host \<Rightarrow> string \<Rightarrow> update_task_input \<Rightarrow> task_options \<Rightarrow> task_map \<Rightarrow> task_error + (plan_task \<times> task_map)" where
  "update_task H now input opts ts =
     (case obj_get ts (ut_id input) of
        None \<Rightarrow> Inl Task_not_found
      | Some t \<Rightarrow>
          if tk_revision t \<noteq> ut_expectedRevision input then Inl Revision_conflict
          else (case then_check (transition_problem H ts t (ut_patch input) opts)
                       (dependency_problem ts t (ut_patch input)) of
                  Some p \<Rightarrow> Inl p
                | None \<Rightarrow> let u = patched t (ut_patch input) now in Inr (u, obj_set ts (tk_id t) u)))"

definition restore_task :: "plan_task \<Rightarrow> task_map \<Rightarrow> task_map" where
  "restore_task t ts = obj_set ts (tk_id t) t"

definition migrates :: "string \<Rightarrow> number \<Rightarrow> plan_task \<Rightarrow> bool" where
  "migrates planId fromVersion t \<longleftrightarrow> tk_planId t = Some planId \<and> tk_planVersion t = Some fromVersion"

definition migrated_task :: "number \<Rightarrow> string \<Rightarrow> string \<Rightarrow> plan_task \<Rightarrow> plan_task" where
  "migrated_task toVersion repairedStepId now t =
     (let repaired = (tk_stepId t = Some repairedStepId)
      in t\<lparr>tk_planVersion := Some toVersion,
           tk_status := (if repaired \<and> tk_status t \<noteq> Pending then Pending else tk_status t),
           tk_evidenceIds := (if repaired then [] else tk_evidenceIds t),
           tk_blockedReason := (if repaired then None else tk_blockedReason t),
           tk_revision := tk_revision t + 1, tk_updatedAt := now\<rparr>)"

definition migratePlanVersion ::
    "string \<Rightarrow> number \<Rightarrow> number \<Rightarrow> string \<Rightarrow> string \<Rightarrow> task_map \<Rightarrow> plan_task list \<times> task_map" where
  "migratePlanVersion planId fromVersion toVersion repairedStepId now ts =
     (map (migrated_task toVersion repairedStepId now) (filter (migrates planId fromVersion) (map snd ts)),
      map (\<lambda>(k, t). (k, if migrates planId fromVersion t then migrated_task toVersion repairedStepId now t else t)) ts)"

subsection \<open>The cycle check decides reachability\<close>

definition dep_rel :: "task_map \<Rightarrow> (string \<times> string) set" where
  "dep_rel ts = {(a, b). b \<in> set (task_deps ts a)}"

lemma dep_rel_iff [simp]: "(a, b) \<in> dep_rel ts \<longleftrightarrow> b \<in> set (task_deps ts a)"
  by (simp add: dep_rel_def)

lemma visit_sound: "visit ts target stack seen \<Longrightarrow> \<exists>x \<in> set stack. (x, target) \<in> (dep_rel ts)\<^sup>*"
proof (induction ts target stack seen rule: visit.induct)
  case (2 ts target x stack seen)
  then show ?case by (auto split: if_splits intro: converse_rtrancl_into_rtrancl)
qed simp

lemma visit_complete:
  "\<not> visit ts target stack seen \<Longrightarrow> target \<notin> set seen \<Longrightarrow>
   (\<forall>s \<in> set seen. set (task_deps ts s) \<subseteq> set seen \<union> set stack) \<Longrightarrow>
   \<exists>S. set seen \<union> set stack \<subseteq> S \<and> target \<notin> S \<and> (\<forall>s \<in> S. set (task_deps ts s) \<subseteq> S)"
proof (induction ts target stack seen rule: visit.induct)
  case (1 ts target seen)
  then show ?case by (intro exI [of _ "set seen"]) auto
next
  case (2 ts target x stack seen)
  from "2.prems"(1) have x: "x \<noteq> target" by auto
  show ?case
  proof (cases "x \<in> set seen")
    case True
    then have "\<exists>S. set seen \<union> set stack \<subseteq> S \<and> target \<notin> S \<and> (\<forall>s \<in> S. set (task_deps ts s) \<subseteq> S)"
      using "2.IH"(1) [OF x True] "2.prems" x True by (simp add: insert_absorb)
    then show ?thesis using True by (simp add: insert_absorb)
  next
    case False
    then have "\<exists>S. set (x # seen) \<union> set (task_deps ts x @ stack) \<subseteq> S \<and> target \<notin> S \<and>
        (\<forall>s \<in> S. set (task_deps ts s) \<subseteq> S)"
      using "2.prems" x False by (intro "2.IH"(2) [OF x False]) auto
    then show ?thesis by (elim exE) (rule exI, auto)
  qed
qed

lemma closed_reach:
  "(x, y) \<in> (dep_rel ts)\<^sup>* \<Longrightarrow> x \<in> S \<Longrightarrow> (\<forall>s \<in> S. set (task_deps ts s) \<subseteq> S) \<Longrightarrow> y \<in> S"
  by (induction rule: rtrancl_induct) auto

lemma wouldCycle_iff: "wouldCycle ts t deps \<longleftrightarrow> (\<exists>d \<in> set deps. (d, t) \<in> (dep_rel ts)\<^sup>*)"
proof -
  have "visit ts t [d] [] \<longleftrightarrow> (d, t) \<in> (dep_rel ts)\<^sup>*" for d
  proof
    assume "visit ts t [d] []"
    then show "(d, t) \<in> (dep_rel ts)\<^sup>*" using visit_sound [of ts t "[d]" "[]"] by simp
  next
    assume reach: "(d, t) \<in> (dep_rel ts)\<^sup>*"
    show "visit ts t [d] []"
    proof (rule ccontr)
      assume "\<not> visit ts t [d] []"
      from visit_complete [OF this] obtain S where "d \<in> S" "t \<notin> S" "\<forall>s \<in> S. set (task_deps ts s) \<subseteq> S" by auto
      with closed_reach [OF reach] show False by blast
    qed
  qed
  then show ?thesis by (auto simp: wouldCycle_def list_ex_iff)
qed

text \<open>Adding edges out of one node to an acyclic graph.\<close>

lemma acyclic_new_edges:
  assumes "acyclic R" "\<And>d. d \<in> D \<Longrightarrow> (d, t) \<notin> R\<^sup>*"
  shows "acyclic (R \<union> {t} \<times> D)"
proof -
  have "(a, b) \<in> R\<^sup>+ \<or> ((a, t) \<in> R\<^sup>* \<and> (\<exists>d \<in> D. (d, b) \<in> R\<^sup>*))" if "(a, b) \<in> (R \<union> {t} \<times> D)\<^sup>+" for a b
    using that
  proof (induction rule: trancl_induct)
    case (base y)
    then show ?case by auto
  next
    case (step y z)
    show ?case
    proof (cases "(y, z) \<in> R")
      case True
      then show ?thesis using step.IH by (meson rtrancl.rtrancl_into_rtrancl trancl.trancl_into_trancl)
    next
      case False
      then have "y = t" "z \<in> D" using step.hyps by auto
      then show ?thesis using step.IH assms(2) by (blast dest: trancl_into_rtrancl)
    qed
  qed
  then show ?thesis
    using assms unfolding acyclic_def by (meson rtrancl_trans)
qed

subsection \<open>The graph invariant\<close>

definition graph_ok :: "task_map \<Rightarrow> bool" where
  "graph_ok ts \<longleftrightarrow> distinct (obj_keys ts) \<and>
     (\<forall>k t. obj_get ts k = Some t \<longrightarrow> tk_id t = k \<and> list_all (has_task ts) (tk_dependsOn t)) \<and>
     acyclic (dep_rel ts) \<and>
     (\<forall>j t k u. obj_get ts j = Some t \<longrightarrow> obj_get ts k = Some u \<longrightarrow>
        tk_status t = In_progress \<longrightarrow> tk_status u = In_progress \<longrightarrow> j = k)"

lemma graph_okD:
  assumes "graph_ok ts"
  shows "distinct (obj_keys ts)" "acyclic (dep_rel ts)"
    "obj_get ts k = Some t \<Longrightarrow> tk_id t = k"
    "obj_get ts k = Some t \<Longrightarrow> d \<in> set (tk_dependsOn t) \<Longrightarrow> has_task ts d"
    "obj_get ts j = Some t \<Longrightarrow> obj_get ts k = Some u \<Longrightarrow> tk_status t = In_progress \<Longrightarrow>
     tk_status u = In_progress \<Longrightarrow> j = k"
  using assms unfolding graph_ok_def list_all_iff by blast+

lemma pair_get: "distinct (obj_keys ob) \<Longrightarrow> (k, v) \<in> set ob \<longleftrightarrow> obj_get ob k = Some v"
  by (simp add: obj_get_def obj_keys_def)

lemma has_task_set [simp]: "has_task (obj_set ts k t) j \<longleftrightarrow> j = k \<or> has_task ts j"
  by (simp add: has_task_def)

lemma task_deps_set [simp]: "task_deps (obj_set ts k t) j = (if j = k then tk_dependsOn t else task_deps ts j)"
  by (simp add: task_deps_def)

lemma dep_rel_set:
  "dep_rel (obj_set ts k t) \<subseteq> dep_rel ts \<union> {k} \<times> set (tk_dependsOn t)"
  by (auto split: if_splits)

lemma deps_known: "graph_ok ts \<Longrightarrow> d \<in> set (task_deps ts k) \<Longrightarrow> has_task ts k \<and> has_task ts d"
  by (auto simp: task_deps_def has_task_def dest: graph_okD(4) split: option.splits)
    (metis graph_okD(4) has_task_def not_None_eq)

lemma reaches_known: "(a, b) \<in> (dep_rel ts)\<^sup>* \<Longrightarrow> graph_ok ts \<Longrightarrow> a = b \<or> has_task ts b"
  by (induction rule: rtrancl_induct) (auto dest: deps_known)

lemma acyclic_set:
  assumes "graph_ok ts" "\<And>d. d \<in> set (tk_dependsOn t) \<Longrightarrow> (d, k) \<notin> (dep_rel ts)\<^sup>*"
  shows "acyclic (dep_rel (obj_set ts k t))"
  using acyclic_subset [OF acyclic_new_edges dep_rel_set] assms graph_okD(2) by metis

lemma graph_ok_set:
  assumes "graph_ok ts" "tk_id t = k" "list_all (has_task ts) (tk_dependsOn t)"
    "acyclic (dep_rel (obj_set ts k t))"
    "\<And>j u. tk_status t = In_progress \<Longrightarrow> obj_get ts j = Some u \<Longrightarrow> tk_status u = In_progress \<Longrightarrow> j = k"
  shows "graph_ok (obj_set ts k t)"
  using assms unfolding graph_ok_def
  by (auto simp: obj_keys_set list_all_iff)

lemma create_ok:
  assumes "graph_ok ts" "create_task tid c u input ts = Inr (t, ts')" "\<not> has_task ts tid"
  shows "graph_ok ts'"
proof -
  have t: "t = new_task tid c u input" "ts' = obj_set ts tid t" and
    known: "list_all (has_task ts) (tk_dependsOn t)"
    using assms(2) by (auto simp: create_task_def Let_def new_task_def split: if_splits)
  have "(d, tid) \<notin> (dep_rel ts)\<^sup>*" if "d \<in> set (tk_dependsOn t)" for d
    using reaches_known [OF _ assms(1), of d tid] assms(3) known that by (auto simp: list_all_iff)
  then have "acyclic (dep_rel (obj_set ts tid t))" by (rule acyclic_set [OF assms(1)])
  then show ?thesis
    using assms(1) known unfolding t(2) by (intro graph_ok_set) (simp_all add: t(1) new_task_def)
qed

lemma same_deps:
  "obj_get ts k = Some t \<Longrightarrow> tk_dependsOn u = tk_dependsOn t \<Longrightarrow> dep_rel (obj_set ts k u) = dep_rel ts"
  by (auto simp: task_deps_def split: if_splits)

lemma update_success:
  assumes "update_task H now input opts ts = Inr (u, ts')"
  obtains t where "obj_get ts (ut_id input) = Some t" "tk_revision t = ut_expectedRevision input"
    "u = patched t (ut_patch input) now" "ts' = obj_set ts (tk_id t) u"
    "transition_problem H ts t (ut_patch input) opts = None" "dependency_problem ts t (ut_patch input) = None"
  using assms by (auto simp: update_task_def Let_def split: option.splits if_splits)

lemma transition_start:
  assumes "transition_problem H ts t patch opts = None" "or_else (tp_status patch) (tk_status t) = In_progress"
    "tk_status t \<noteq> In_progress"
  shows "start_problem ts t patch = None"
  using assms by (auto simp: transition_problem_def split: option.splits if_splits)

lemma started_alone:
  assumes "start_problem ts t patch = None" "graph_ok ts" "obj_get ts j = Some u" "tk_status u = In_progress"
  shows "tk_id t = j"
proof -
  have "(j, u) \<in> set ts" using assms pair_get graph_okD(1) by metis
  then show ?thesis
    using assms graph_okD(3) [OF assms(2, 3)]
    by (force simp: start_problem_def list_ex_iff split: if_splits)
qed

lemma update_ok:
  assumes "graph_ok ts" "update_task H now input opts ts = Inr (u, ts')"
  shows "graph_ok ts'"
proof -
  from assms(2) obtain t where t: "obj_get ts (ut_id input) = Some t"
    "u = patched t (ut_patch input) now" "ts' = obj_set ts (tk_id t) u"
    "transition_problem H ts t (ut_patch input) opts = None" "dependency_problem ts t (ut_patch input) = None"
    by (rule update_success)
  have k: "tk_id t = ut_id input" using graph_okD(3) [OF assms(1) t(1)] .
  have deps: "list_all (has_task ts) (tk_dependsOn u) \<and> acyclic (dep_rel (obj_set ts (tk_id t) u))"
  proof (cases "tp_dependsOn (ut_patch input)")
    case None
    then have same: "tk_dependsOn u = tk_dependsOn t" by (simp add: t(2) patched_def)
    then show ?thesis
      using same_deps [OF t(1) same] graph_okD(2, 4) [OF assms(1)] t(1) k by (auto simp: list_all_iff)
  next
    case (Some deps)
    then have u: "tk_dependsOn u = deps" by (simp add: t(2) patched_def)
    have "list_all (has_task ts) deps" "\<not> wouldCycle ts (tk_id t) deps"
      using t(5) Some by (auto simp: dependency_problem_def split: if_splits)
    then show ?thesis
      using acyclic_set [OF assms(1), of u "tk_id t"] u by (auto simp: wouldCycle_iff)
  qed
  have "tk_id t = j" if "tk_status u = In_progress" "obj_get ts j = Some v" "tk_status v = In_progress" for j v
  proof (cases "tk_status t = In_progress")
    case True
    then show ?thesis using graph_okD(5) [OF assms(1) t(1) that(2)] that k by simp
  next
    case False
    have "or_else (tp_status (ut_patch input)) (tk_status t) = In_progress"
      using that(1) by (simp add: t(2) patched_def)
    from transition_start [OF t(4) this False] show ?thesis using started_alone assms(1) that by blast
  qed
  then show ?thesis
    using deps unfolding t(3) by (intro graph_ok_set [OF assms(1)]) (auto simp: t(2) patched_def)
qed

lemma obj_get_map_values: "obj_get (map (\<lambda>(k, v). (k, f v)) ob) k = map_option f (obj_get ob k)"
  by (simp add: obj_get_def map_of_map)

lemma migrate_ok:
  assumes "graph_ok ts"
  shows "graph_ok (snd (migratePlanVersion p v w sid now ts))"
proof -
  let ?f = "\<lambda>t. if migrates p v t then migrated_task w sid now t else t"
  have f: "tk_dependsOn (?f t) = tk_dependsOn t" "tk_id (?f t) = tk_id t"
    "tk_status (?f t) = In_progress \<Longrightarrow> tk_status t = In_progress" for t
    by (auto simp: migrated_task_def Let_def split: if_splits)
  let ?ts = "map (\<lambda>(k, t). (k, ?f t)) ts"
  have get: "obj_get ?ts k = map_option ?f (obj_get ts k)" for k by (rule obj_get_map_values)
  have has: "has_task ?ts k \<longleftrightarrow> has_task ts k" for k by (simp add: has_task_def get)
  have keys: "obj_keys ?ts = obj_keys ts" by (induction ts) (auto simp: obj_keys_def)
  have "task_deps ?ts k = task_deps ts k" for k
    using f(1) by (simp add: task_deps_def get split: option.split)
  then have rel: "dep_rel ?ts = dep_rel ts" by (simp add: dep_rel_def)
  have inv: "\<exists>t. obj_get ts k = Some t \<and> u = ?f t" if "obj_get ?ts k = Some u" for k u
    using that by (auto simp: get)
  have a: "tk_id u = k \<and> list_all (has_task ?ts) (tk_dependsOn u)" if "obj_get ?ts k = Some u" for k u
    using inv [OF that] f graph_okD(3, 4) [OF assms] by (auto simp: list_all_iff has)
  have b: "j = k" if "obj_get ?ts j = Some t" "obj_get ?ts k = Some u" "tk_status t = In_progress"
    "tk_status u = In_progress" for j t k u
    using inv [OF that(1)] inv [OF that(2)] that(3, 4) f(3) graph_okD(5) [OF assms] by metis
  have "graph_ok ?ts"
    unfolding graph_ok_def rel keys using graph_okD(1, 2) [OF assms] a b by blast
  then show ?thesis by (simp add: migratePlanVersion_def)
qed

subsection \<open>What every session's task graph satisfies\<close>

text \<open>
  A session creates, updates and migrates tasks; a refused operation leaves the graph alone.
  A run ends with an error only where the id generator hands out an id that is in use, which
  createIdGenerator never does within a process.
\<close>

datatype task_op =
    Create_task string string string create_task_input
  | Update_task string update_task_input task_options
  | Migrate_tasks string number number string string

definition keep_on_error :: "'s \<Rightarrow> 'e + ('a \<times> 's) \<Rightarrow> 's" where
  "keep_on_error s m = (case m of Inl e \<Rightarrow> s | Inr (x, s') \<Rightarrow> s')"

fun task_step :: "host \<Rightarrow> task_map \<Rightarrow> task_op \<Rightarrow> task_map res" where
  "task_step H ts (Create_task tid c u input) =
     guard_res (has_task ts tid) (JsError ''the id generator repeated an id'')
       (Inr (keep_on_error ts (create_task tid c u input ts)))"
| "task_step H ts (Update_task now input opts) = Inr (keep_on_error ts (update_task H now input opts ts))"
| "task_step H ts (Migrate_tasks p v w sid now) = Inr (snd (migratePlanVersion p v w sid now ts))"

lemma task_step_ok: "graph_ok ts \<Longrightarrow> task_step H ts op = Inr ts' \<Longrightarrow> graph_ok ts'"
  by (cases op)
    (auto simp: keep_on_error_def split: sum.splits dest: create_ok [rotated] update_ok [rotated] migrate_ok)

interpretation task_graph: invariant_machine "task_step H" "\<lambda>op. True" graph_ok for H
  by unfold_locales (rule task_step_ok)

lemma empty_graph_ok: "graph_ok []"
  by (simp add: graph_ok_def obj_keys_def obj_get_def dep_rel_def task_deps_def acyclic_def)

lemma tasks_reachable: "run_steps (task_step H) [] ops = Inr ts \<Longrightarrow> graph_ok ts"
  using task_graph.inv_run [of H "[]" ops ts] empty_graph_ok by (simp add: list_all_iff)

text \<open>
  C34: the task graph stays sound. However tasks are created, updated and migrated, every id
  is the key of its task, every dependency exists, the dependency graph has no cycle, and at
  most one task is in progress.
\<close>

theorem task_graph_sound:
  assumes "run_steps (task_step H) [] ops = Inr ts"
  shows "distinct (obj_keys ts) \<and> acyclic {(a, b). \<exists>t. obj_get ts a = Some t \<and> b \<in> set (tk_dependsOn t)} \<and>
    (\<forall>k t. obj_get ts k = Some t \<longrightarrow> tk_id t = k \<and> (\<forall>d \<in> set (tk_dependsOn t). obj_get ts d \<noteq> None)) \<and>
    (\<forall>j t k u. obj_get ts j = Some t \<and> obj_get ts k = Some u \<and> tk_status t = In_progress \<and>
       tk_status u = In_progress \<longrightarrow> j = k)"
proof -
  have ok: "graph_ok ts" using assms by (rule tasks_reachable)
  have "b \<in> set (task_deps ts a) \<longleftrightarrow> (\<exists>t. obj_get ts a = Some t \<and> b \<in> set (tk_dependsOn t))" for a b
    by (cases "obj_get ts a") (simp_all add: task_deps_def)
  then have "dep_rel ts = {(a, b). \<exists>t. obj_get ts a = Some t \<and> b \<in> set (tk_dependsOn t)}"
    by (simp add: dep_rel_def)
  then show ?thesis
    using ok unfolding graph_ok_def by (simp add: list_all_iff has_task_def)
qed

definition demo_task_input :: "string list \<Rightarrow> create_task_input" where
  "demo_task_input deps = \<lparr>ct_subject = ''s'', ct_description = None, ct_activeForm = None,
     ct_dependsOn = Some deps, ct_acceptanceCriteria = Some [''ac1''], ct_planId = None,
     ct_planVersion = None, ct_stepId = None\<rparr>"

definition demo_patch :: task_patch where
  "demo_patch = \<lparr>tp_subject = None, tp_description = None, tp_activeForm = None, tp_status = None,
     tp_dependsOn = None, tp_acceptanceCriteria = None, tp_evidenceIds = None, tp_blockedReason = None\<rparr>"

definition demo_start :: "string \<Rightarrow> update_task_input" where
  "demo_start k = \<lparr>ut_id = k, ut_expectedRevision = 1, ut_patch = demo_patch\<lparr>tp_status := Some In_progress\<rparr>\<rparr>"

definition demo_options :: task_options where
  "demo_options = \<lparr>to_criteria = [], to_evidence = [], to_usability = \<lparr>uo_stale = None, uo_workspaceRoot = None\<rparr>\<rparr>"

definition demo_ops :: "task_op list" where
  "demo_ops = [Create_task ''a'' ''0'' ''0'' (demo_task_input []),
     Create_task ''b'' ''0'' ''0'' (demo_task_input [''a'']),
     Update_task ''1'' (demo_start ''a'') demo_options,
     Update_task ''1'' (demo_start ''b'') demo_options]"

definition demo_task :: "string \<Rightarrow> string list \<Rightarrow> plan_task" where
  "demo_task k deps = new_task k ''0'' ''0'' (demo_task_input deps)"

definition demo_graph :: task_map where
  "demo_graph = [(''a'', patched (demo_task ''a'' []) (demo_patch\<lparr>tp_status := Some In_progress\<rparr>) ''1''),
     (''b'', demo_task ''b'' [''a''])]"

lemmas demo_task_defs = demo_ops_def demo_graph_def demo_task_def demo_task_input_def demo_start_def demo_patch_def
  demo_options_def create_task_def update_task_def new_task_def has_task_def obj_get_def keep_on_error_def
  transition_problem_def dependency_problem_def start_problem_def then_check_def patched_def

lemma demo_tasks_run: "run_steps (task_step demo_host) [] demo_ops = Inr demo_graph"
  by (simp add: demo_task_defs Let_def)

theorem task_graph_sound_witness:
  "run_steps (task_step demo_host) [] demo_ops = Inr demo_graph \<and> distinct (obj_keys demo_graph)"
  using task_graph_sound [OF demo_tasks_run] demo_tasks_run by blast

text \<open>
  An update is guarded. Where it succeeds the caller named the current revision, the
  result carries the next one and no other task changed; a change of status is one of the
  legal transitions, and starts only with every dependency completed and no other task in
  progress, blocks only with a reason on the task or in the patch, completes only with a
  usable receipt of the right kind for every required criterion of the task; and a second
  update that names the revision of the first is refused.
\<close>

theorem task_update_guarded:
  assumes "run_steps (task_step H) [] ops = Inr ts" "update_task H now input opts ts = Inr (u, ts')"
  shows "\<exists>t. obj_get ts (ut_id input) = Some t \<and> tk_revision t = ut_expectedRevision input \<and>
    tk_revision u = tk_revision t + 1 \<and> obj_get ts' = (obj_get ts)(ut_id input \<mapsto> u) \<and>
    (tk_status u \<noteq> tk_status t \<longrightarrow>
       tk_status u \<in> set (VALID_TRANSITIONS (tk_status t)) \<and>
       (tk_status u = In_progress \<longrightarrow>
          (\<forall>d \<in> set (tk_dependsOn u). \<exists>v. obj_get ts d = Some v \<and> tk_status v = Completed) \<and>
          (\<forall>j v. obj_get ts j = Some v \<longrightarrow> tk_status v \<noteq> In_progress)) \<and>
       (tk_status u = Blocked \<longrightarrow>
          truthy (tk_blockedReason t) \<noteq> None \<or> truthy (tp_blockedReason (ut_patch input)) \<noteq> None) \<and>
       (tk_status u = Completed \<longrightarrow>
          (\<forall>c \<in> set (to_criteria opts). ac_required c \<and> ac_id c \<in> set (tk_acceptanceCriteria u) \<longrightarrow>
             (\<exists>r \<in> set (to_evidence opts). receiptSupportsCriterion H (to_usability opts) r c)))) \<and>
    (\<forall>now2 input2 opts2. ut_id input2 = ut_id input \<and> ut_expectedRevision input2 = ut_expectedRevision input \<longrightarrow>
       update_task H now2 input2 opts2 ts' = Inl Revision_conflict)"
proof -
  have ok: "graph_ok ts" using assms(1) by (rule tasks_reachable)
  from assms(2) obtain t where t: "obj_get ts (ut_id input) = Some t" "tk_revision t = ut_expectedRevision input"
    "u = patched t (ut_patch input) now" "ts' = obj_set ts (tk_id t) u"
    "transition_problem H ts t (ut_patch input) opts = None"
    by (rule update_success)
  have k: "tk_id t = ut_id input" using graph_okD(3) [OF ok t(1)] .
  have u: "tk_revision u = tk_revision t + 1"
    "tk_status u = or_else (tp_status (ut_patch input)) (tk_status t)"
    "tk_dependsOn u = or_else (tp_dependsOn (ut_patch input)) (tk_dependsOn t)"
    "tk_acceptanceCriteria u = or_else (tp_acceptanceCriteria (ut_patch input)) (tk_acceptanceCriteria t)"
    by (simp_all add: t(3) patched_def)
  have guards: "tk_status u \<in> set (VALID_TRANSITIONS (tk_status t))"
    "tk_status u = In_progress \<Longrightarrow> start_problem ts t (ut_patch input) = None"
    "tk_status u = Blocked \<Longrightarrow> block_problem t (ut_patch input) = None"
    "tk_status u = Completed \<Longrightarrow> complete_problem H t (ut_patch input) opts = None"
    if "tk_status u \<noteq> tk_status t"
    using t(5) that unfolding u(2) by (auto simp: transition_problem_def split: option.splits if_splits)
  have "obj_get ts j = Some v \<Longrightarrow> tk_status v \<noteq> In_progress"
    if "tk_status u \<noteq> tk_status t" "tk_status u = In_progress" for j v
    using started_alone [OF guards(2) [OF that] ok] t(1) k that by fastforce
  moreover have "\<exists>v. obj_get ts d = Some v \<and> tk_status v = Completed"
    if "tk_status u \<noteq> tk_status t" "tk_status u = In_progress" "d \<in> set (tk_dependsOn u)" for d
    using guards(2) [OF that(1, 2)] that(3) unfolding u(3)
    by (auto simp: start_problem_def list_all_iff task_completed_def split: if_splits option.splits)
  moreover have "\<exists>r \<in> set (to_evidence opts). receiptSupportsCriterion H (to_usability opts) r c"
    if "tk_status u \<noteq> tk_status t" "tk_status u = Completed" "c \<in> set (to_criteria opts)" "ac_required c"
      "ac_id c \<in> set (tk_acceptanceCriteria u)" for c
    using guards(4) [OF that(1, 2)] that(3 -) unfolding u(4)
    by (auto simp: complete_problem_def required_criteria_def requiredCriteriaWithoutUsableEvidence_def
        filter_empty_conv list_ex_iff split: if_splits)
  moreover have "truthy (tk_blockedReason t) \<noteq> None \<or> truthy (tp_blockedReason (ut_patch input)) \<noteq> None"
    if "tk_status u \<noteq> tk_status t" "tk_status u = Blocked"
    using guards(3) [OF that] by (auto simp: block_problem_def split: if_splits)
  moreover have "update_task H now2 input2 opts2 ts' = Inl Revision_conflict"
    if "ut_id input2 = ut_id input" "ut_expectedRevision input2 = ut_expectedRevision input" for now2 input2 opts2
    using that t k u(1) by (simp add: update_task_def)
  ultimately show ?thesis
    using t k u(1) guards(1) by (intro exI [of _ t]) auto
qed

definition demo_graph0 :: task_map where
  "demo_graph0 = [(''a'', demo_task ''a'' [])]"

theorem task_update_guarded_witness:
  "tk_revision (snd (hd demo_graph)) = 2 \<and>
   update_task demo_host ''2'' (demo_start ''a'') demo_options [hd demo_graph] = Inl Revision_conflict"
proof -
  have run: "run_steps (task_step demo_host) [] [Create_task ''a'' ''0'' ''0'' (demo_task_input [])] = Inr demo_graph0"
    by (simp add: demo_graph0_def demo_task_defs Let_def)
  have up: "update_task demo_host ''1'' (demo_start ''a'') demo_options demo_graph0 = Inr (snd (hd demo_graph), [hd demo_graph])"
    by (simp add: demo_graph0_def demo_task_defs Let_def)
  from task_update_guarded [OF run up] show ?thesis
    by (auto simp: demo_start_def)
qed

lemma dep_rel_patch:
  "dep_rel (obj_set ts k (t\<lparr>tk_dependsOn := deps\<rparr>)) =
   {(a, b) \<in> dep_rel ts. a \<noteq> k} \<union> {k} \<times> set deps"
  by (auto split: if_splits)

text \<open>
  The cycle check is exact. For a task of a reachable graph and a list of known
  dependencies the depth-first search answers yes exactly when setting them would close a
  cycle.
\<close>

theorem cycle_check_exact:
  assumes "run_steps (task_step H) [] ops = Inr ts" "obj_get ts k = Some t"
  shows "wouldCycle ts k deps \<longleftrightarrow> \<not> acyclic (dep_rel (obj_set ts k (t\<lparr>tk_dependsOn := deps\<rparr>)))"
proof
  have ok: "graph_ok ts" using assms(1) by (rule tasks_reachable)
  show "wouldCycle ts k deps" if "\<not> acyclic (dep_rel (obj_set ts k (t\<lparr>tk_dependsOn := deps\<rparr>)))"
    using acyclic_set [OF ok, of "t\<lparr>tk_dependsOn := deps\<rparr>" k] that by (auto simp: wouldCycle_iff)
  let ?R = "dep_rel (obj_set ts k (t\<lparr>tk_dependsOn := deps\<rparr>))"
  assume "wouldCycle ts k deps"
  then obtain d where d: "d \<in> set deps" "(d, k) \<in> (dep_rel ts)\<^sup>*" by (auto simp: wouldCycle_iff)
  from d(2) have "(d, k) \<in> ?R\<^sup>*"
  proof (induction rule: converse_rtrancl_induct)
    case (step x y)
    then show ?case
      by (cases "x = k") (auto simp: dep_rel_patch intro: converse_rtrancl_into_rtrancl)
  qed simp
  moreover have "(k, d) \<in> ?R" using d(1) by (simp add: dep_rel_patch)
  ultimately have "(k, k) \<in> ?R\<^sup>+" by (simp add: rtrancl_into_trancl2)
  then show "\<not> acyclic ?R" by (auto simp: acyclic_def)
qed

theorem cycle_check_exact_witness:
  "wouldCycle demo_graph ''a'' [''b''] \<and>
   \<not> acyclic (dep_rel (obj_set demo_graph ''a'' ((demo_task ''a'' [])\<lparr>tk_status := In_progress, tk_revision := 2,
      tk_updatedAt := ''1'', tk_dependsOn := [''b'']\<rparr>)))"
proof -
  have cyc: "wouldCycle demo_graph ''a'' [''b'']"
    by (simp add: wouldCycle_def demo_task_defs task_deps_def)
  have get: "obj_get demo_graph ''a'' = Some (snd (hd demo_graph))"
    by (simp add: demo_graph_def obj_get_def)
  have "snd (hd demo_graph)\<lparr>tk_dependsOn := [''b'']\<rparr> = (demo_task ''a'' [])\<lparr>tk_status := In_progress,
      tk_revision := 2, tk_updatedAt := ''1'', tk_dependsOn := [''b'']\<rparr>"
    by (simp add: demo_task_defs)
  with cyc cycle_check_exact [OF demo_tasks_run get, of "[''b'']"] show ?thesis by simp
qed

end
