(* ===== verification/Supervisor.thy ===== *)
theory Supervisor
  imports Tasks PolicyLoop
begin

text \<open>
  The deterministic plan supervisor (planning/PlanSupervisor.ts): the health assessment of
  the current plan, the next action it decides on, and the evaluation of a past reflection.
  It reads reduced facts and signed evidence only.
\<close>

subsection \<open>The tasks of the plan\<close>

definition tasksForPlan :: "plan_task list \<Rightarrow> plan_version option \<Rightarrow> plan_task list" where
  "tasksForPlan tasks approvedPlan =
     (case approvedPlan of
        None \<Rightarrow> tasks
      | Some p \<Rightarrow>
          let matched = filter (\<lambda>t. tk_planId t = Some (pl_planId p) \<and> tk_planVersion t = Some (pl_version p)) tasks
          in if matched \<noteq> [] then matched else filter (\<lambda>t. truthy (tk_planId t) = None) tasks)"

record supervision_input =
  pi_state :: agent_state
  pi_approvedPlan :: "plan_version option"
  pi_evidence :: "evidence_receipt list"
  pi_id :: string
  pi_createdAt :: string
  pi_stale :: "string list option"

definition plan_tasks :: "supervision_input \<Rightarrow> plan_task list" where
  "plan_tasks i = tasksForPlan (ag_tasks (pi_state i)) (pi_approvedPlan i)"

definition with_status :: "task_status \<Rightarrow> plan_task list \<Rightarrow> plan_task list" where
  "with_status st ts = filter (\<lambda>t. tk_status t = st) ts"

definition ready_tasks :: "plan_task list \<Rightarrow> plan_task list" where
  "ready_tasks ts =
     (let completedIds = map tk_id (with_status Completed ts)
      in filter (\<lambda>t. (tk_status t = Pending \<or> tk_status t = In_progress) \<and>
           list_all (\<lambda>d. d \<in> set completedIds) (tk_dependsOn t)) ts)"

definition plan_required :: "supervision_input \<Rightarrow> acceptance_criterion list" where
  "plan_required i = (case pi_approvedPlan i of None \<Rightarrow> [] | Some p \<Rightarrow> filter ac_required (pl_acceptanceCriteria p))"

definition plan_uncovered :: "host \<Rightarrow> supervision_input \<Rightarrow> acceptance_criterion list" where
  "plan_uncovered H i =
     requiredCriteriaWithoutUsableEvidence H
       \<lparr>uo_stale = pi_stale i, uo_workspaceRoot = Some (ws_root (ag_workspace (pi_state i)))\<rparr>
       (plan_required i) (pi_evidence i)"

text \<open>The canonical keys of the files a plan names, and the paths that have none.\<close>

definition key_of :: "host \<Rightarrow> string \<Rightarrow> string \<Rightarrow> string option" where
  "key_of H r path = (case workspacePathKey H r path of Inl e \<Rightarrow> None | Inr k \<Rightarrow> Some k)"

definition step_files :: "plan_version \<Rightarrow> string list" where
  "step_files p = concat (map ps_files (pl_steps p))"

definition planned_files :: "host \<Rightarrow> string \<Rightarrow> plan_version option \<Rightarrow> string list" where
  "planned_files H r plan =
     (case plan of None \<Rightarrow> [] | Some p \<Rightarrow> js_uniq (List.map_filter (key_of H r) (step_files p)))"

definition invalid_plan_files :: "host \<Rightarrow> string \<Rightarrow> plan_version option \<Rightarrow> string list" where
  "invalid_plan_files H r plan =
     (case plan of None \<Rightarrow> [] | Some p \<Rightarrow> filter (\<lambda>f. key_of H r f = None) (step_files p))"

definition scope_drift :: "host \<Rightarrow> supervision_input \<Rightarrow> string list" where
  "scope_drift H i =
     (let ws = ag_workspace (pi_state i); planned = planned_files H (ws_root ws) (pi_approvedPlan i)
      in sort (map (\<lambda>p. ''invalid-plan-path:'' @ p) (invalid_plan_files H (ws_root ws) (pi_approvedPlan i)) @
           (if planned = [] then [] else filter (\<lambda>p. p \<notin> set planned) (ws_planScopedTouchedFiles ws))))"

subsection \<open>The next action\<close>

definition decide :: "supervisor_action \<Rightarrow> string \<Rightarrow> string list \<Rightarrow> plan_task option \<Rightarrow> supervisor_decision" where
  "decide act rationale signals t =
     \<lparr>sd_action = act, sd_rationale = rationale, sd_targetTaskId = map_option tk_id t,
      sd_targetStepId = Option.bind t tk_stepId, sd_successSignals = signals\<rparr>"

fun severity_text :: "severity \<Rightarrow> string" where
  "severity_text Low = ''low''"
| "severity_text Medium = ''medium''"
| "severity_text High = ''high''"

definition failure_line :: "verification_failure \<Rightarrow> string" where
  "failure_line f =
     ''['' @ severity_text (vf_severity f) @ ''] '' @ take 160 (vf_title f) @
     (case vf_reproduction f of
        [] \<Rightarrow> []
      | r # _ \<Rightarrow> if take 200 r = [] then [] else '' (repro: '' @ take 200 r @ '')'')"

definition repair_decision :: "pending_repair \<Rightarrow> supervisor_decision" where
  "repair_decision r =
     (let fs = vr_failures (vp_report r);
          failures = js_join ''; '' (map failure_line (take 3 fs));
          omitted = length fs - 3
      in decide Continue_step
           (''Independent verification repair attempt '' @ show_num (vp_attempt r) @ '' is open'' @
            (if failures \<noteq> [] then '': '' @ failures else ''.'') @
            (if 0 < omitted then ''; '' @ show_num (of_nat omitted) @
               '' additional durable failure(s) omitted from this bounded prompt.'' else []))
           [''apply the smallest verified repair'', ''return control for a fresh independent verification''] None)"

definition plan_repair_decision :: "plan_task option \<Rightarrow> string list \<Rightarrow> supervisor_decision" where
  "plan_repair_decision failed drift =
     decide Repair_plan
       (case failed of
          Some t \<Rightarrow> ''Task '' @ tk_id t @ '' failed; revise the smallest affected step.''
        | None \<Rightarrow> if drift \<noteq> [] then ''Observed workspace scope differs from the approved plan.''
                  else ''The previous reflection did not produce measurable progress.'')
       [''preserve unaffected steps'', ''produce progress without expanding approved scope''] failed"

definition execution_completed :: "plan_task list \<Rightarrow> bool" where
  "execution_completed ts \<longleftrightarrow> ts \<noteq> [] \<and> list_all (\<lambda>t. tk_status t = Completed) ts"

text \<open>What is decided once no repair is open and no task is failed, blocked or ready.\<close>

definition closing_action ::
    "agent_state \<Rightarrow> plan_version option \<Rightarrow> plan_task list \<Rightarrow> string list \<Rightarrow> supervisor_decision" where
  "closing_action s plan ts uncovered =
     (if ag_lastTransition s = Some User_followup
      then decide Continue_step
        ''A new human follow-up opened one execution turn; establish its task or plan before claiming completion.''
        [''record the follow-up scope as a task or plan'', ''preserve every existing safety and approval lock''] None
      else if execution_completed ts \<and> uncovered \<noteq> []
      then decide Gather_evidence
        (''Required criteria still lack usable evidence: '' @ js_join '', '' (take 5 uncovered) @ ''.'')
        [''record kind-matched passed evidence'', ''keep evidence bound to the current workspace revision''] None
      else if plan \<noteq> None \<and> execution_completed ts \<and> ws_touchedFiles (ag_workspace s) \<noteq> [] \<and>
              ag_lastVerification s = None
      then decide Run_verification
        ''All plan tasks and required evidence are complete, but changed code has no independent verification verdict.''
        [''produce a fresh verification verdict'', ''resolve every reproduced failure before completion''] None
      else if plan \<noteq> None \<and> execution_completed ts
      then decide Finish
        ''Tasks, required evidence and verification state permit the completion gate to decide.''
        [''completion gate returns complete'', ''final report matches persisted facts''] None
      else decide Continue_step
        ''No approved executable task is available; clarify or persist a bounded plan before broad changes.''
        [''an approved plan or an explicit next task is recorded''] None)"

definition task_action ::
    "agent_state \<Rightarrow> plan_version option \<Rightarrow> plan_task list \<Rightarrow> plan_task list \<Rightarrow> string list \<Rightarrow> string list \<Rightarrow>
     supervisor_decision" where
  "task_action s plan ts ready uncovered drift =
     (let failed = List.find (\<lambda>t. tk_status t = Failed) ts
      in if failed \<noteq> None \<or> drift \<noteq> [] \<or> 0 < rs_ineffectiveReflectionCount (ag_recovery s)
         then plan_repair_decision failed drift
         else (case List.find (\<lambda>t. tk_status t = Blocked) ts of
                 Some b \<Rightarrow> decide Resolve_blocker
                   (''Task '' @ tk_id b @ '' is blocked: '' @
                    or_else (tk_blockedReason b) ''no durable reason recorded'' @ ''.'')
                   [''record a discriminating observation'', ''unblock, fail, or honestly terminate the task'']
                   (Some b)
               | None \<Rightarrow>
                   (case ready of
                      t # _ \<Rightarrow> decide Continue_step
                        (''Task '' @ tk_id t @ '' is dependency-ready and should remain the execution focus.'')
                        [''complete the task or record an explicit blocker'', ''avoid unrelated file scope''] (Some t)
                    | [] \<Rightarrow> closing_action s plan ts uncovered)))"

definition chooseNextAction ::
    "agent_state \<Rightarrow> plan_version option \<Rightarrow> plan_task list \<Rightarrow> plan_task list \<Rightarrow> string list \<Rightarrow> string list \<Rightarrow>
     supervisor_decision" where
  "chooseNextAction s plan ts ready uncovered drift =
     (if rs_replanning (ag_recovery s) \<and> rs_replanAwaitingApproval (ag_recovery s)
      then decide Request_reapproval
        ''The active plan was superseded and write execution is locked until a revised version is approved.''
        [''persist a revised plan version'', ''obtain an approval token before any write''] None
      else if rs_replanning (ag_recovery s)
      then decide Repair_plan
        ''A durable low-impact replan is active; persist the bounded plan adjustment before resuming implementation.''
        [''apply or persist the smallest plan repair'',
         ''close the durable replanning state before workspace writes''] None
      else (case ag_pendingRepair s of
              Some r \<Rightarrow> repair_decision r
            | None \<Rightarrow> task_action s plan ts ready uncovered drift))"

subsection \<open>The health assessment\<close>

text \<open>Each deduction of points comes with the finding it reports.\<close>

definition deduct :: "bool \<Rightarrow> number \<Rightarrow> string \<Rightarrow> number \<times> string list \<Rightarrow> number \<times> string list" where
  "deduct when points finding acc = (if when then (fst acc - points, snd acc @ [finding]) else acc)"

definition len :: "'a list \<Rightarrow> number" where
  "len xs = of_nat (length xs)"

definition coverage_penalty :: "nat \<Rightarrow> nat \<Rightarrow> number" where
  "coverage_penalty uncovered required =
     of_int \<lceil>fmul (fdiv (of_nat uncovered) (max 1 (of_nat required))) 25\<rceil>"

definition task_deductions ::
    "plan_task list \<Rightarrow> nat \<Rightarrow> nat \<Rightarrow> number \<times> string list \<Rightarrow> number \<times> string list" where
  "task_deductions ts uncovered required acc =
     (let failed = len (with_status Failed ts); blocked = len (with_status Blocked ts);
          openTasks = len ts - len (with_status Completed ts) - blocked - failed
      in deduct (0 < uncovered) (coverage_penalty uncovered required)
           (show_num (of_nat uncovered) @ ''/'' @ show_num (of_nat required) @
            '' required acceptance criteria lack usable evidence.'')
         (deduct (0 < openTasks \<and> ready_tasks ts = []) 20
           ''Open tasks exist, but none has satisfied dependencies.''
         (deduct (0 < blocked) (min 40 (blocked * 20)) (show_num blocked @ '' task(s) are blocked.'')
         (deduct (0 < failed) (min 40 (failed * 20)) (show_num failed @ '' task(s) failed.'') acc))))"

definition recovery_deductions ::
    "recovery_state \<Rightarrow> string list \<Rightarrow> number \<times> string list \<Rightarrow> number \<times> string list" where
  "recovery_deductions r drift acc =
     deduct (0 < rs_ineffectiveReflectionCount r) (min 20 (rs_ineffectiveReflectionCount r * 10))
       (show_num (rs_ineffectiveReflectionCount r) @ '' consecutive reflection recommendation(s) were ineffective.'')
     (deduct (0 < rs_stagnationCount r) (min 20 (rs_stagnationCount r * 10))
       (show_num (rs_stagnationCount r) @ '' stagnation signal(s) have been recorded.'')
     (deduct (0 < rs_consecutiveFailures r) (min 24 (rs_consecutiveFailures r * 8))
       (show_num (rs_consecutiveFailures r) @ '' consecutive failed tool batch(es).'')
     (deduct (drift \<noteq> []) (min 25 (len drift * 8))
       (''Touched files outside approved scope: '' @ js_join '', '' (take 5 drift) @ ''.'') acc)))"

definition budget_deductions :: "number \<Rightarrow> number \<times> string list \<Rightarrow> number \<times> string list" where
  "budget_deductions remaining acc =
     (if remaining \<le> rnd64 (15 / 100)
      then deduct True 20 ''The minimum remaining call/turn budget is at or below 15%.'' acc
      else deduct (remaining \<le> rnd64 (4 / 10)) 10
        ''The minimum remaining call/turn budget is at or below 40%.'' acc)"

definition budget_ratio :: "number \<Rightarrow> number \<Rightarrow> number" where
  "budget_ratio used mx = (if mx \<le> 0 then 0 else max 0 (min 1 (fdiv (mx - used) mx)))"

definition minimumBudgetRemaining :: "agent_state \<Rightarrow> number" where
  "minimumBudgetRemaining s =
     (let b = ag_budget s; u = rb_used b
      in min (budget_ratio (bu_modelCalls u) (rb_maxModelCalls b))
           (min (budget_ratio (bu_toolCalls u) (rb_maxToolCalls b)) (budget_ratio (ag_iteration s) (rb_maxTurns b))))"

definition plan_score :: "host \<Rightarrow> supervision_input \<Rightarrow> number \<times> string list" where
  "plan_score H i =
     (let (points, findings) =
        budget_deductions (minimumBudgetRemaining (pi_state i))
          (recovery_deductions (ag_recovery (pi_state i)) (scope_drift H i)
            (task_deductions (plan_tasks i) (length (plan_uncovered H i)) (length (plan_required i)) (100, [])))
      in (max 0 (min 100 points), findings))"

definition healthStatus ::
    "bool \<Rightarrow> number \<Rightarrow> number \<Rightarrow> number \<Rightarrow> number \<Rightarrow> bool \<Rightarrow> bool \<Rightarrow> health_status" where
  "healthStatus hasPlanOrTasks score failedTasks blockedTasks readyTasks replanning awaitingApproval =
     (if \<not> hasPlanOrTasks then Not_applicable
      else if awaitingApproval \<or> 0 < failedTasks \<or> (0 < blockedTasks \<and> readyTasks = 0) then Blocked_health
      else if replanning \<or> score < 50 then At_risk
      else if score < 80 then Attention else Healthy)"

definition plan_metrics :: "host \<Rightarrow> supervision_input \<Rightarrow> health_metrics" where
  "plan_metrics H i =
     (let ts = plan_tasks i; r = ag_recovery (pi_state i);
          completed = len (with_status Completed ts); blocked = len (with_status Blocked ts);
          failed = len (with_status Failed ts)
      in \<lparr>hm_totalTasks = len ts, hm_completedTasks = completed,
          hm_openTasks = len ts - completed - blocked - failed, hm_blockedTasks = blocked,
          hm_failedTasks = failed, hm_readyTasks = len (ready_tasks ts),
          hm_requiredCriteria = len (plan_required i),
          hm_coveredCriteria = len (plan_required i) - len (plan_uncovered H i),
          hm_scopeDriftFiles = len (scope_drift H i),
          hm_budgetRemainingRatio = minimumBudgetRemaining (pi_state i),
          hm_consecutiveFailures = rs_consecutiveFailures r, hm_stagnationSignals = rs_stagnationCount r,
          hm_ineffectiveReflections = rs_ineffectiveReflectionCount r\<rparr>)"

definition plan_status_of :: "host \<Rightarrow> supervision_input \<Rightarrow> health_status" where
  "plan_status_of H i =
     (let ts = plan_tasks i; r = ag_recovery (pi_state i)
      in healthStatus (pi_approvedPlan i \<noteq> None \<or> ts \<noteq> []) (fst (plan_score H i))
           (len (with_status Failed ts)) (len (with_status Blocked ts)) (len (ready_tasks ts))
           (rs_replanning r) (rs_replanAwaitingApproval r))"

definition plan_decision_of :: "host \<Rightarrow> supervision_input \<Rightarrow> supervisor_decision" where
  "plan_decision_of H i =
     chooseNextAction (pi_state i) (pi_approvedPlan i) (plan_tasks i) (ready_tasks (plan_tasks i))
       (map ac_id (plan_uncovered H i)) (scope_drift H i)"

fun health_text :: "health_status \<Rightarrow> string" where
  "health_text Not_applicable = ''not_applicable''"
| "health_text Healthy = ''healthy''"
| "health_text Attention = ''attention''"
| "health_text At_risk = ''at_risk''"
| "health_text Blocked_health = ''blocked''"

definition budgetBand :: "number \<Rightarrow> string" where
  "budgetBand v = (if v \<le> rnd64 (15 / 100) then ''critical'' else if v \<le> rnd64 (4 / 10) then ''conservative''
     else ''normal'')"

definition metrics_json :: "health_metrics \<Rightarrow> json" where
  "metrics_json m = JObj
     [(''totalTasks'', JNum (hm_totalTasks m)), (''completedTasks'', JNum (hm_completedTasks m)),
      (''openTasks'', JNum (hm_openTasks m)), (''blockedTasks'', JNum (hm_blockedTasks m)),
      (''failedTasks'', JNum (hm_failedTasks m)), (''readyTasks'', JNum (hm_readyTasks m)),
      (''requiredCriteria'', JNum (hm_requiredCriteria m)), (''coveredCriteria'', JNum (hm_coveredCriteria m)),
      (''scopeDriftFiles'', JNum (hm_scopeDriftFiles m)),
      (''budgetRemainingRatio'', JStr (budgetBand (hm_budgetRemainingRatio m))),
      (''consecutiveFailures'', JNum (hm_consecutiveFailures m)),
      (''stagnationSignals'', JNum (hm_stagnationSignals m)),
      (''ineffectiveReflections'', JNum (hm_ineffectiveReflections m))]"

definition decision_json :: "supervisor_decision \<Rightarrow> json" where
  "decision_json d = JObj
     ([(''action'', JStr (action_text (sd_action d))), (''rationale'', JStr (sd_rationale d))] @
      opt_member ''targetTaskId'' JStr (sd_targetTaskId d) @ opt_member ''targetStepId'' JStr (sd_targetStepId d) @
      [(''successSignals'', JArr (map JStr (sd_successSignals d)))])"

definition health_signature :: "host \<Rightarrow> supervision_input \<Rightarrow> string" where
  "health_signature H i = take 16 (h_sha256 H (json_stringify (JObj
     [(''status'', JStr (health_text (plan_status_of H i))), (''score'', JNum (fst (plan_score H i))),
      (''metrics'', metrics_json (plan_metrics H i)), (''decision'', decision_json (plan_decision_of H i)),
      (''scopeDriftFiles'', JArr (map JStr (scope_drift H i)))])))"

definition assessPlanHealth :: "host \<Rightarrow> supervision_input \<Rightarrow> plan_health" where
  "assessPlanHealth H i =
     \<lparr>ph_id = pi_id i, ph_createdAt = pi_createdAt i,
      ph_plan = map_option (\<lambda>p. \<lparr>pr_planId = pl_planId p, pr_version = pl_version p\<rparr>) (pi_approvedPlan i),
      ph_status = plan_status_of H i, ph_score = fst (plan_score H i), ph_signature = health_signature H i,
      ph_metrics = plan_metrics H i, ph_findings = snd (plan_score H i), ph_decision = plan_decision_of H i\<rparr>"

subsection \<open>Evaluating a reflection\<close>

fun fallbackAfterIneffective :: "supervisor_action \<Rightarrow> supervisor_action" where
  "fallbackAfterIneffective Gather_evidence = Resolve_blocker"
| "fallbackAfterIneffective Request_reapproval = Request_reapproval"
| "fallbackAfterIneffective _ = Repair_plan"

definition progress_signals :: "agent_state \<Rightarrow> reflection_progress \<Rightarrow> number \<Rightarrow> number \<Rightarrow> string list" where
  "progress_signals s p receipts successful =
     (if rp_completedTasks p < completed_tasks s
      then [show_num (completed_tasks s - rp_completedTasks p) @ '' additional task(s) completed''] else []) @
     (if receipts < len (ag_evidenceIds s)
      then [show_num (len (ag_evidenceIds s) - receipts) @ '' new evidence receipt(s) recorded''] else []) @
     (if rp_toolCalls p < rs_lastProgressToolCalls (ag_recovery s) \<and> successful < successful_calls s
      then [''a successful tool call produced workspace, task, or evidence progress''] else [])"

definition follow_up :: "bool \<Rightarrow> reflection_decision \<Rightarrow> number \<Rightarrow> supervisor_decision" where
  "follow_up effective d observed =
     (if effective
      then (rd_decision d)\<lparr>sd_rationale := ''The previous recommendation produced measurable fact-level progress.''\<rparr>
      else (rd_decision d)\<lparr>sd_action := fallbackAfterIneffective (sd_action (rd_decision d)),
             sd_rationale := ''No task, evidence, or workspace progress was observed after '' @
               show_num observed @ '' tool calls.'',
             sd_successSignals := [''change the working hypothesis'',
               ''obtain one discriminating observation before another write'']\<rparr>)"

definition evaluateReflectionEffect ::
    "agent_state \<Rightarrow> reflection_record \<Rightarrow> string \<Rightarrow> string \<Rightarrow> number \<Rightarrow> reflection_evaluation option" where
  "evaluateReflectionEffect s r eid createdAt evaluationWindow =
     (case rf_decision r of
        None \<Rightarrow> None
      | Some d \<Rightarrow>
          if list_ex (\<lambda>e. re_reflectionId e = rf_id r) (ag_reflectionEvaluations s) then None
          else (case (rp_evidenceReceipts (rf_progress r), rp_successfulToolCalls (rf_progress r)) of
                  (Some receipts, Some successful) \<Rightarrow>
                    let observed = max 0 (bu_toolCalls (rb_used (ag_budget s)) - rp_toolCalls (rf_progress r));
                        signals = progress_signals s (rf_progress r) receipts successful;
                        window = max 1 evaluationWindow
                    in if observed = 0 then None
                       else if signals = [] \<and> observed < window then None
                       else Some \<lparr>re_id = eid, re_reflectionId = rf_id r, re_createdAt = createdAt,
                              re_outcome = (if signals \<noteq> [] then Effective else Ineffective),
                              re_toolCallsObserved = observed, re_progressSignals = signals,
                              re_followUp = follow_up (signals \<noteq> []) d observed\<rparr>
                | _ \<Rightarrow> None))"

definition to_upper_char :: "char \<Rightarrow> char" where
  "to_upper_char c = (let n = (of_char c :: nat) in if 97 \<le> n \<and> n \<le> 122 then char_of (n - 32) else c)"

definition renderPlanSupervision :: "plan_health \<Rightarrow> reflection_evaluation option \<Rightarrow> string" where
  "renderPlanSupervision a ev =
     js_join [CHR 0x0A] (filter (\<lambda>l. l \<noteq> [])
       [''[PLAN SUPERVISOR: '' @ map to_upper_char (health_text (ph_status a)) @ '' '' @ show_num (ph_score a) @ ''/100]'',
        ''Findings: '' @ (if ph_findings a \<noteq> [] then js_join '' '' (take 4 (ph_findings a))
                          else ''No material plan-health finding.''),
        ''Next action: '' @ action_text (sd_action (ph_decision a)) @ ''. '' @ sd_rationale (ph_decision a),
        ''Success signals: '' @
          (let j = js_join ''; '' (sd_successSignals (ph_decision a))
           in if j = [] then ''a durable fact-level progress signal'' else j) @ ''.'',
        (case ev of None \<Rightarrow> []
         | Some e \<Rightarrow> ''Previous reflection outcome: '' @
             (case re_outcome e of Effective \<Rightarrow> ''effective'' | Ineffective \<Rightarrow> ''ineffective'') @ ''; '' @
             sd_rationale (re_followUp e)),
        ''Treat this as a bounded runtime policy hint. Do not claim completion from prose; satisfy tasks and evidence gates.''])"

subsection \<open>Finishing is earned\<close>

lemma sd_action_decide [simp]: "sd_action (decide a r ss t) = a"
  by (simp add: decide_def)

lemma repair_actions [simp]:
  "sd_action (repair_decision r) = Continue_step" "sd_action (plan_repair_decision f d) = Repair_plan"
  by (simp_all add: repair_decision_def plan_repair_decision_def Let_def)

lemma completed_nothing_open:
  assumes "execution_completed ts"
  shows "List.find (\<lambda>t. tk_status t = Failed) ts = None" "List.find (\<lambda>t. tk_status t = Blocked) ts = None"
    "ready_tasks ts = []"
  using assms by (auto simp: execution_completed_def list_all_iff find_None_iff ready_tasks_def Let_def)

lemma finish_choice:
  "sd_action (chooseNextAction s plan ts (ready_tasks ts) uncovered drift) = Finish \<longleftrightarrow>
     \<not> rs_replanning (ag_recovery s) \<and> ag_pendingRepair s = None \<and> drift = [] \<and>
     \<not> 0 < rs_ineffectiveReflectionCount (ag_recovery s) \<and> ag_lastTransition s \<noteq> Some User_followup \<and>
     plan \<noteq> None \<and> execution_completed ts \<and> uncovered = [] \<and>
     (ws_touchedFiles (ag_workspace s) = [] \<or> ag_lastVerification s \<noteq> None)"
proof -
  have closing: "sd_action (closing_action s plan ts uncovered) = Finish \<longleftrightarrow>
      ag_lastTransition s \<noteq> Some User_followup \<and> plan \<noteq> None \<and> execution_completed ts \<and> uncovered = [] \<and>
      (ws_touchedFiles (ag_workspace s) = [] \<or> ag_lastVerification s \<noteq> None)"
    by (auto simp: closing_action_def)
  have "sd_action (task_action s plan ts (ready_tasks ts) uncovered drift) = Finish \<longleftrightarrow>
      drift = [] \<and> \<not> 0 < rs_ineffectiveReflectionCount (ag_recovery s) \<and>
      sd_action (closing_action s plan ts uncovered) = Finish"
    using completed_nothing_open [of ts] closing
    by (auto simp: task_action_def Let_def split: option.split list.split)
  then show ?thesis using closing by (auto simp: chooseNextAction_def split: option.split)
qed

lemma uncovered_Nil:
  "requiredCriteriaWithoutUsableEvidence H u cs ev = [] \<longleftrightarrow>
   (\<forall>c \<in> set cs. ac_required c \<longrightarrow> (\<exists>r \<in> set ev. receiptSupportsCriterion H u r c))"
  by (auto simp: requiredCriteriaWithoutUsableEvidence_def filter_empty_conv list_ex_iff)

lemma uncovered_plan:
  "plan_uncovered H i = [] \<longleftrightarrow>
   (\<forall>c \<in> set (case pi_approvedPlan i of None \<Rightarrow> [] | Some p \<Rightarrow> pl_acceptanceCriteria p). ac_required c \<longrightarrow>
      (\<exists>r \<in> set (pi_evidence i). receiptSupportsCriterion H
         \<lparr>uo_stale = pi_stale i, uo_workspaceRoot = Some (ws_root (ag_workspace (pi_state i)))\<rparr> r c))"
  by (auto simp: plan_uncovered_def plan_required_def uncovered_Nil split: option.split)

text \<open>
  Finishing is earned. The supervisor proposes to finish exactly when a plan is approved,
  every one of its tasks is completed and there is at least one, every required criterion is
  supported by usable evidence, touched files have a verification verdict and lie in the
  approved scope, no replan and no verification repair is open, the last reflection was not
  found ineffective, and no human follow-up waits for its first turn.
\<close>

theorem finish_is_earned:
  "sd_action (ph_decision (assessPlanHealth H i)) = Finish \<longleftrightarrow>
     (\<exists>p. pi_approvedPlan i = Some p \<and>
        (\<forall>c \<in> set (pl_acceptanceCriteria p). ac_required c \<longrightarrow>
           (\<exists>r \<in> set (pi_evidence i). receiptSupportsCriterion H
              \<lparr>uo_stale = pi_stale i, uo_workspaceRoot = Some (ws_root (ag_workspace (pi_state i)))\<rparr> r c))) \<and>
     plan_tasks i \<noteq> [] \<and> (\<forall>t \<in> set (plan_tasks i). tk_status t = Completed) \<and>
     (ws_touchedFiles (ag_workspace (pi_state i)) = [] \<or> ag_lastVerification (pi_state i) \<noteq> None) \<and>
     scope_drift H i = [] \<and> \<not> rs_replanning (ag_recovery (pi_state i)) \<and> ag_pendingRepair (pi_state i) = None \<and>
     \<not> 0 < rs_ineffectiveReflectionCount (ag_recovery (pi_state i)) \<and>
     ag_lastTransition (pi_state i) \<noteq> Some User_followup"
  using uncovered_plan [of H i]
  by (cases "pi_approvedPlan i")
    (auto simp: assessPlanHealth_def plan_decision_of_def finish_choice execution_completed_def list_all_iff)

subsection \<open>Assessments are well formed\<close>

lemma status_partition:
  "len ts = len (with_status Pending ts) + len (with_status In_progress ts) + len (with_status Completed ts) +
     len (with_status Blocked ts) + len (with_status Failed ts)"
proof (induction ts)
  case (Cons t ts)
  then show ?case by (cases "tk_status t") (simp_all add: len_def with_status_def)
qed (simp add: len_def with_status_def)

lemma length_filter_weaken: "length (filter (\<lambda>x. P x \<and> Q x) xs) \<le> length (filter P xs)"
  by (induction xs) simp_all

lemma length_filter_two:
  "(\<And>x. \<not> (P x \<and> Q x)) \<Longrightarrow> length (filter (\<lambda>x. P x \<or> Q x) xs) = length (filter P xs) + length (filter Q xs)"
  by (induction xs) auto

lemma known_action: "isSupervisorAction (sd_action (plan_decision_of H i))"
  by (auto simp: plan_decision_of_def chooseNextAction_def task_action_def closing_action_def Let_def
      split: option.split list.split)

lemma score_range: "0 \<le> fst (plan_score H i) \<and> fst (plan_score H i) \<le> 100"
  by (simp add: plan_score_def split: prod.split)

text \<open>
  An assessment is well formed, and the reducer takes it. The score lies between 0 and
  100, every task of the plan is counted in one bucket, no more criteria are covered than
  required, a plan is reported healthy only with a score of at least 80, no failed task and
  no open replan, and recording the assessment makes it the latest one.
\<close>

theorem assessment_well_formed:
  "let a = assessPlanHealth H i; m = ph_metrics a
   in 0 \<le> ph_score a \<and> ph_score a \<le> 100 \<and>
      hm_totalTasks m = hm_openTasks m + hm_completedTasks m + hm_blockedTasks m + hm_failedTasks m \<and>
      0 \<le> hm_openTasks m \<and> hm_readyTasks m \<le> hm_openTasks m \<and>
      0 \<le> hm_coveredCriteria m \<and> hm_coveredCriteria m \<le> hm_requiredCriteria m \<and>
      (ph_status a = Healthy \<longrightarrow> 80 \<le> ph_score a \<and> hm_failedTasks m = 0 \<and>
         \<not> rs_replanning (ag_recovery (pi_state i)) \<and> \<not> rs_replanAwaitingApproval (ag_recovery (pi_state i))) \<and>
      reduce H (pi_state i) (Plan_health_assessed a) = Inr ((pi_state i)\<lparr>ag_latestPlanHealth := Some a\<rparr>)"
proof -
  let ?ts = "plan_tasks i"
  have openTasks: "hm_openTasks (plan_metrics H i) = len (with_status Pending ?ts) + len (with_status In_progress ?ts)"
    using status_partition [of ?ts] by (simp add: plan_metrics_def Let_def)
  have "length (ready_tasks ?ts) \<le> length (filter (\<lambda>t. tk_status t = Pending \<or> tk_status t = In_progress) ?ts)"
    unfolding ready_tasks_def Let_def by (rule length_filter_weaken)
  also have "\<dots> = length (with_status Pending ?ts) + length (with_status In_progress ?ts)"
    unfolding with_status_def by (rule length_filter_two) simp
  finally have ready: "len (ready_tasks ?ts) \<le> hm_openTasks (plan_metrics H i)"
    unfolding openTasks len_def by (simp flip: of_nat_add)
  have cov: "len (plan_uncovered H i) \<le> len (plan_required i)"
    unfolding len_def plan_uncovered_def requiredCriteriaWithoutUsableEvidence_def
    by (meson length_filter_le le_trans of_nat_le_iff)
  have healthy: "plan_status_of H i = Healthy \<Longrightarrow> 80 \<le> fst (plan_score H i) \<and> len (with_status Failed ?ts) = 0 \<and>
      \<not> rs_replanning (ag_recovery (pi_state i)) \<and> \<not> rs_replanAwaitingApproval (ag_recovery (pi_state i))"
    by (auto simp: plan_status_of_def healthStatus_def Let_def len_def split: if_splits)
  show ?thesis
    using score_range [of H i] openTasks ready cov healthy known_action [of H i]
    by (simp add: assessPlanHealth_def Let_def plan_metrics_def reduce_plan_health_def len_def)
qed

definition demo_done :: plan_task where
  "demo_done = (demo_task ''a'' [])\<lparr>tk_status := Completed, tk_planId := Some ''p'', tk_planVersion := Some 1\<rparr>"

definition demo_supervised :: supervision_input where
  "demo_supervised = \<lparr>pi_state = (createInitialState demo_input)\<lparr>ag_tasks := [demo_done]\<rparr>,
     pi_approvedPlan = Some \<lparr>pl_planId = ''p'', pl_version = 1, pl_status = Approved, pl_goal = ''g'', pl_nonGoals = [],
       pl_assumptions = [], pl_decisions = [], pl_steps = [], pl_acceptanceCriteria = [], pl_risks = [],
       pl_createdAt = ''0'', pl_approvedAt = None, pl_approvalTokenId = None, pl_localRepair = None\<rparr>,
     pi_evidence = [], pi_id = ''h1'', pi_createdAt = ''0'', pi_stale = None\<rparr>"

lemmas demo_supervised_defs = demo_supervised_def demo_done_def demo_task_def demo_task_input_def new_task_def
  createInitialState_def initialRecovery_def plan_tasks_def tasksForPlan_def Let_def

lemma demo_no_drift: "scope_drift demo_host demo_supervised = []"
  by (simp add: scope_drift_def Let_def invalid_plan_files_def planned_files_def step_files_def demo_supervised_def
      List.map_filter_def js_uniq_def)

theorem finish_is_earned_witness: "sd_action (ph_decision (assessPlanHealth demo_host demo_supervised)) = Finish"
  unfolding finish_is_earned using demo_no_drift by (simp add: demo_supervised_defs)

theorem assessment_well_formed_witness: "0 \<le> ph_score (assessPlanHealth demo_host demo_supervised)"
  using assessment_well_formed [of demo_host demo_supervised] unfolding Let_def by (elim conjE)

subsection \<open>Evaluations are accepted\<close>

definition reflections_ok :: "agent_state \<Rightarrow> bool" where
  "reflections_ok s \<longleftrightarrow> distinct (map rf_id (ag_reflections s)) \<and>
     list_all (\<lambda>r. non_blank (rf_id r) \<and> is_integer (rp_toolCalls (rf_progress r)) \<and>
       pred_option valid_reflection_decision (rf_decision r)) (ag_reflections s)"

lemma reflections_same: "ag_reflections s' = ag_reflections s \<Longrightarrow> reflections_ok s' = reflections_ok s"
  by (simp add: reflections_ok_def)

lemma reflections_view: "adaptive_view s' = adaptive_view s \<Longrightarrow> reflections_ok s' = reflections_ok s"
  by (simp add: adaptive_view_def reflections_ok_def)

lemma same_reflections:
  "reduce_selection H s sel = Inr s' \<Longrightarrow> ag_reflections s' = ag_reflections s"
  "reduce_plan_health s a = Inr s' \<Longrightarrow> ag_reflections s' = ag_reflections s"
  by (auto simp: reduce_selection_def reduce_plan_health_def bind_res_Inr_iff split: if_splits)

lemma map_slice_last: "map f (slice_last n xs) = slice_last n (map f xs)"
  by (simp add: slice_last_def drop_map)

lemma reflections_reflection: "reflections_ok s \<Longrightarrow> reduce_reflection s r = Inr s' \<Longrightarrow> reflections_ok s'"
proof -
  assume ok: "reflections_ok s" and step: "reduce_reflection s r = Inr s'"
  then have r: "\<not> list_ex (\<lambda>i. rf_id i = rf_id r) (ag_reflections s)" "non_blank (rf_id r)"
    "is_integer (rp_toolCalls (rf_progress r))" "pred_option valid_reflection_decision (rf_decision r)"
    "ag_reflections s' = slice_last 20 (ag_reflections s @ [r])"
    by (auto simp: reduce_reflection_def validReflectionBaseline_def Let_def is_non_negative_integer_def
        split: if_splits option.splits)
  have "distinct (map rf_id (ag_reflections s @ [r]))"
    using ok r(1) by (auto simp: reflections_ok_def list_ex_iff)
  then have "distinct (map rf_id (ag_reflections s'))"
    unfolding r(5) map_slice_last by (rule distinct_slice_last)
  then show ?thesis
    using ok r(2 - 5) set_slice_last [of 20 "ag_reflections s @ [r]"] by (auto simp: reflections_ok_def list_all_iff)
qed

lemma reflections_step: "reflections_ok s \<Longrightarrow> reduce H s f = Inr s' \<Longrightarrow> reflections_ok s'"
proof (cases "touches_adaptive f")
  case False
  then show "reflections_ok s \<Longrightarrow> reduce H s f = Inr s' \<Longrightarrow> reflections_ok s'"
    using adaptive_frame reflections_view by blast
next
  case True
  then show "reflections_ok s \<Longrightarrow> reduce H s f = Inr s' \<Longrightarrow> reflections_ok s'"
    by (cases f) (auto dest: same_reflections reflections_same intro: reflections_reflection)
qed

interpretation reflections: invariant_machine "reduce H" "\<lambda>f. True" reflections_ok for H
  by unfold_locales (rule reflections_step)

lemma reflections_reachable: "applyFacts H (createInitialState i) fs = Inr s \<Longrightarrow> reflections_ok s \<and> tool_calls_natural s"
proof
  assume run: "applyFacts H (createInitialState i) fs = Inr s"
  have "reflections_ok (createInitialState i)" "tool_calls_natural (createInitialState i)"
    by (simp_all add: reflections_ok_def tool_calls_natural_def createInitialState_def is_non_negative_integer_def)
  then show "reflections_ok s" "tool_calls_natural s"
    using run reflections.inv_run tool_counter.inv_run by (auto simp: applyFacts_run list_all_iff)
qed

lemma find_unique_key:
  "distinct (map f xs) \<Longrightarrow> x \<in> set xs \<Longrightarrow> List.find (\<lambda>y. f y = f x) xs = Some x"
  by (induction xs) auto

lemma signals_iff:
  assumes "rp_evidenceReceipts p = Some receipts" "rp_successfulToolCalls p = Some successful"
  shows "progress_signals s p receipts successful \<noteq> [] \<longleftrightarrow> fact_level_progress s p"
  using assms by (auto simp: progress_signals_def fact_level_progress_def or_zero_def len_def)

lemma fallback_known: "isSupervisorAction a \<Longrightarrow> isSupervisorAction (fallbackAfterIneffective a)"
  by (cases a) auto

lemma follow_up_known:
  "isSupervisorAction (sd_action (rd_decision d)) \<Longrightarrow> isSupervisorAction (sd_action (follow_up b d n))"
  using fallback_known [of "sd_action (rd_decision d)"] by (simp add: follow_up_def)

lemma evaluate_cases:
  assumes "evaluateReflectionEffect s r eid ts w = Some e"
  obtains d receipts successful where "rf_decision r = Some d" "rp_evidenceReceipts (rf_progress r) = Some receipts"
    "rp_successfulToolCalls (rf_progress r) = Some successful"
    "\<not> list_ex (\<lambda>e. re_reflectionId e = rf_id r) (ag_reflectionEvaluations s)"
    "0 < bu_toolCalls (rb_used (ag_budget s)) - rp_toolCalls (rf_progress r)"
    "e = \<lparr>re_id = eid, re_reflectionId = rf_id r, re_createdAt = ts,
       re_outcome = (if progress_signals s (rf_progress r) receipts successful \<noteq> [] then Effective else Ineffective),
       re_toolCallsObserved = bu_toolCalls (rb_used (ag_budget s)) - rp_toolCalls (rf_progress r),
       re_progressSignals = progress_signals s (rf_progress r) receipts successful,
       re_followUp = follow_up (progress_signals s (rf_progress r) receipts successful \<noteq> []) d
         (bu_toolCalls (rb_used (ag_budget s)) - rp_toolCalls (rf_progress r))\<rparr>"
    "progress_signals s (rf_progress r) receipts successful = [] \<Longrightarrow>
       max 1 w \<le> bu_toolCalls (rb_used (ag_budget s)) - rp_toolCalls (rf_progress r)"
proof -
  let ?o = "bu_toolCalls (rb_used (ag_budget s)) - rp_toolCalls (rf_progress r)"
  obtain d receipts successful where d: "rf_decision r = Some d" "rp_evidenceReceipts (rf_progress r) = Some receipts"
    "rp_successfulToolCalls (rf_progress r) = Some successful"
    using assms by (auto simp: evaluateReflectionEffect_def split: option.splits if_splits)
  note a = assms [unfolded evaluateReflectionEffect_def d option.case prod.case Let_def]
  have o: "max 0 ?o \<noteq> 0" "\<not> list_ex (\<lambda>e. re_reflectionId e = rf_id r) (ag_reflectionEvaluations s)"
    using a by (auto split: if_splits)
  then have "max 0 ?o = ?o" "0 < ?o" by (auto simp: max_def split: if_splits)
  with a d o show thesis by (intro that) (auto split: if_splits)
qed

text \<open>
  A reflection is judged by facts, once. For a reflection of a reachable state the
  evaluation the supervisor computes over the reflection's own window is accepted by the
  reducer; it says effective exactly when tasks, evidence or the workspace progressed since
  the reflection; it resets or raises the counter of ineffective reflections accordingly, and
  is not computed again from the new state.
\<close>

theorem reflection_effect_accepted:
  assumes "applyFacts H (createInitialState i) fs = Inr s" "r \<in> set (ag_reflections s)" "rf_decision r = Some d"
    "evaluateReflectionEffect s r eid ts (rd_evaluateAfterToolCalls d) = Some e"
    "non_blank eid" "\<not> list_ex (\<lambda>x. re_id x = eid) (ag_reflectionEvaluations s)"
  shows "\<exists>s'. reduce H s (Reflection_evaluated e) = Inr s' \<and> last (ag_reflectionEvaluations s') = e \<and>
    (re_outcome e = Effective \<longleftrightarrow> fact_level_progress s (rf_progress r)) \<and>
    rs_ineffectiveReflectionCount (ag_recovery s') =
      (if fact_level_progress s (rf_progress r) then 0 else rs_ineffectiveReflectionCount (ag_recovery s) + 1) \<and>
    evaluateReflectionEffect s' r eid ts (rd_evaluateAfterToolCalls d) = None"
proof -
  have ok: "reflections_ok s" "tool_calls_natural s" using reflections_reachable [OF assms(1)] by auto
  from assms(4) obtain receipts successful where e: "rp_evidenceReceipts (rf_progress r) = Some receipts"
    "rp_successfulToolCalls (rf_progress r) = Some successful"
    "\<not> list_ex (\<lambda>e. re_reflectionId e = rf_id r) (ag_reflectionEvaluations s)"
    "0 < bu_toolCalls (rb_used (ag_budget s)) - rp_toolCalls (rf_progress r)"
    "re_id e = eid" "re_reflectionId e = rf_id r"
    "re_outcome e = (if progress_signals s (rf_progress r) receipts successful \<noteq> [] then Effective else Ineffective)"
    "re_toolCallsObserved e = bu_toolCalls (rb_used (ag_budget s)) - rp_toolCalls (rf_progress r)"
    "re_progressSignals e = progress_signals s (rf_progress r) receipts successful"
    "re_followUp e = follow_up (progress_signals s (rf_progress r) receipts successful \<noteq> []) d
       (re_toolCallsObserved e)"
    "progress_signals s (rf_progress r) receipts successful = [] \<Longrightarrow>
       max 1 (rd_evaluateAfterToolCalls d) \<le> re_toolCallsObserved e"
    by (rule evaluate_cases) (use assms(3) in auto)
  have r: "non_blank (rf_id r)" "is_integer (rp_toolCalls (rf_progress r))" "valid_reflection_decision d"
    using ok(1) assms(2, 3) by (auto simp: reflections_ok_def list_all_iff)
  have found: "List.find (\<lambda>x. rf_id x = rf_id r) (ag_reflections s) = Some r"
    using ok(1) assms(2) by (simp add: reflections_ok_def find_unique_key)
  have int: "is_integer (re_toolCallsObserved e)"
    using r(2) ok(2) is_integer_add [of _ "- rp_toolCalls (rf_progress r)"] e(8)
    by (simp add: tool_calls_natural_def is_non_negative_integer_def is_integer_Ints)
  have one: "1 \<le> re_toolCallsObserved e"
    using int e(4, 8) by (auto simp: is_integer_Ints elim!: Ints_cases)
  note sig = signals_iff [OF e(1, 2), of s]
  have "valid_evaluation s r d e"
    using assms(5) r e(5 -) int one follow_up_known [of d] sig
    by (auto simp: valid_evaluation_def valid_reflection_decision_def split: if_splits)
  moreover have "\<not> list_ex (\<lambda>x. re_id x = re_id e \<or> re_reflectionId x = re_reflectionId e) (ag_reflectionEvaluations s)"
    using e(3, 5, 6) assms(6) by (auto simp: list_ex_iff)
  ultimately have "reduce H s (Reflection_evaluated e) = Inr (s\<lparr>ag_reflectionEvaluations := slice_last 20 (ag_reflectionEvaluations s @ [e]),
      ag_recovery := (ag_recovery s)\<lparr>rs_lastEvaluatedReflectionId := Some (re_reflectionId e),
        rs_ineffectiveReflectionCount :=
          (if re_outcome e = Effective then 0 else rs_ineffectiveReflectionCount (ag_recovery s) + 1)\<rparr>\<rparr>)"
    using found assms(3) e(6, 7) sig by (simp add: reduce_evaluation_def split: if_splits)
  moreover have "e \<in> set (slice_last 20 (ag_reflectionEvaluations s @ [e]))"
    by (simp add: slice_last_def)
  ultimately show ?thesis
    using e(6, 7) sig assms(3)
    by (auto simp: evaluateReflectionEffect_def list_ex_iff slice_last_def split: if_splits)
qed

definition demo_next :: reflection_decision where
  "demo_next = \<lparr>rd_decision = decide Continue_step ''go'' [] None, rd_evaluateAfterToolCalls = 1\<rparr>"

definition demo_reflection :: reflection_record where
  "demo_reflection = \<lparr>rf_id = ''r1'', rf_trigger = Periodic, rf_createdAt = ''0'', rf_summary = ''s'', rf_assumptions = [],
     rf_progress = \<lparr>rp_completedTasks = 0, rp_totalTasks = 0, rp_touchedFiles = 0, rp_toolCalls = 0,
       rp_evidenceReceipts = Some 0, rp_successfulToolCalls = Some 0\<rparr>,
     rf_evidenceGaps = [], rf_recommendation = ''go'', rf_decision = Some demo_next, rf_calibration = None\<rparr>"

lemma demo_reflected_state:
  "\<exists>s. applyFacts demo_host (createInitialState demo_input)
     [Reflection_recorded demo_reflection, Tool_call_accepted demo_call,
      Tool_call_completed (demo_result\<lparr>tr_ok := False\<rparr>)] = Inr s \<and>
   ag_reflections s = [demo_reflection] \<and> ag_reflectionEvaluations s = [] \<and>
   bu_toolCalls (rb_used (ag_budget s)) = 1 \<and> ag_tasks s = [] \<and> ag_evidenceIds s = [] \<and>
   successful_calls s = 0 \<and> rs_lastProgressToolCalls (ag_recovery s) = 0"
  by (simp add: reduce_reflection_def reduce_call_accepted_def reduce_call_completed_def demo_reflection_def
      demo_next_def demo_input_def demo_call_def demo_result_def createInitialState_def initialRecovery_def validReflectionBaseline_def valid_reflection_decision_def
      window_in_range_def validReflectionCalibration_def completed_tasks_def successful_calls_def count_where_def
      obj_values_def obj_entries_def is_non_negative_integer_def REFLECTION_TRIGGERS_def non_blank_Cons is_ws_def
      slice_last_def set_used_def obj_defined_def obj_get_def object_prototype_keys_def Let_def)

theorem reflection_effect_accepted_witness:
  "\<exists>s e s'. applyFacts demo_host (createInitialState demo_input)
     [Reflection_recorded demo_reflection, Tool_call_accepted demo_call,
      Tool_call_completed (demo_result\<lparr>tr_ok := False\<rparr>)] = Inr s \<and>
   reduce demo_host s (Reflection_evaluated e) = Inr s' \<and> re_outcome e = Ineffective"
proof -
  obtain s where s: "applyFacts demo_host (createInitialState demo_input)
      [Reflection_recorded demo_reflection, Tool_call_accepted demo_call,
      Tool_call_completed (demo_result\<lparr>tr_ok := False\<rparr>)] = Inr s"
    "ag_reflections s = [demo_reflection]" "ag_reflectionEvaluations s = []"
    "bu_toolCalls (rb_used (ag_budget s)) = 1" "ag_tasks s = []" "ag_evidenceIds s = []"
    "successful_calls s = 0" "rs_lastProgressToolCalls (ag_recovery s) = 0"
    using demo_reflected_state by blast
  have "\<exists>e. evaluateReflectionEffect s demo_reflection ''e1'' ''1'' (rd_evaluateAfterToolCalls demo_next) = Some e \<and>
      re_outcome e = Ineffective"
    using s(3 -) by (simp add: evaluateReflectionEffect_def demo_reflection_def demo_next_def progress_signals_def
        completed_tasks_def count_where_def len_def Let_def)
  then obtain e where e: "evaluateReflectionEffect s demo_reflection ''e1'' ''1'' (rd_evaluateAfterToolCalls demo_next) = Some e"
    "re_outcome e = Ineffective" by blast
  have "demo_reflection \<in> set (ag_reflections s)" "rf_decision demo_reflection = Some demo_next"
    using s(2) by (simp_all add: demo_reflection_def)
  from reflection_effect_accepted [OF s(1) this e(1)] s(1, 3) e(2) show ?thesis
    by (auto simp: non_blank_Cons is_ws_def)
qed

end
