(* ===== verification/Verdict.thy ===== *)
theory Verdict
  imports Evidence
begin

text \<open>
  Machine validation of a verifier report (verification/verdict.ts). The reason for a
  rejection is a constructor, in the order the source tests them.
\<close>

datatype report_problem =
    Unknown_evidence string
  | Tampered_evidence string
  | Stale_evidence string
  | Pass_with_failures
  | Pass_check_not_passed string string
  | Pass_check_exit_code string string number
  | Pass_criterion_unbacked string string
  | No_probe
  | Trivial_probe string
  | Pass_check_failed
  | No_checks
  | No_check_evidence
  | Uncovered_criteria "string list"
  | Kind_mismatch string
  | Partial_without_limits
  | Fail_without_failures

text \<open>The commands that do not constitute a meaningful probe.\<close>

definition TRIVIAL_PROBE_PATTERNS :: "re list" where
  "TRIVIAL_PROBE_PATTERNS =
     [Seqs [Bol, Ws0, Lit_i ''echo'', Ws],
      Seqs [Bol, Ws0, Lit ''true'', Ws0, Eol],
      Seqs [Bol, Ws0, Lit '':'', Ws0, Eol],
      Seqs [Bol, Ws0, Lit ''cat'', Wss, Lit ''/dev/null'', Ws0, Eol],
      Seqs [Bol, Ws0, Lit ''ls'', Ws0, Eol],
      Seqs [Bol, Ws0, Lit ''pwd'', Ws0, Eol]]"

definition trivial_probe :: "string \<Rightarrow> bool" where
  "trivial_probe command \<longleftrightarrow> list_ex (\<lambda>p. re_test p command) TRIVIAL_PROBE_PATTERNS"

definition json_member :: "json \<Rightarrow> string \<Rightarrow> json option" where
  "json_member v k = (case v of JObj kvs \<Rightarrow> map_of kvs k | _ \<Rightarrow> None)"

definition command_of :: "json \<Rightarrow> string" where
  "command_of v = (case json_member v ''command'' of Some (JStr s) \<Rightarrow> s | _ \<Rightarrow> [])"

definition referenced_ids :: "verification_report \<Rightarrow> string list" where
  "referenced_ids r =
     js_uniq (concat (map vc_evidenceIds (vr_checks r)) @ concat (map vf_evidenceIds (vr_failures r)) @
       (case truthy (vr_adversarialProbeEvidenceId r) of None \<Rightarrow> [] | Some p \<Rightarrow> [p]))"

definition stale_in :: "string list option \<Rightarrow> string \<Rightarrow> bool" where
  "stale_in stale k = (case stale of None \<Rightarrow> False | Some ids \<Rightarrow> k \<in> set ids)"

definition reference_problem ::
    "host \<Rightarrow> evidence_store \<Rightarrow> string list option \<Rightarrow> string \<Rightarrow> report_problem option" where
  "reference_problem H st stale k =
     (case es_get st k of
        None \<Rightarrow> Some (Unknown_evidence k)
      | Some r \<Rightarrow>
          if \<not> verifySha256 H r then Some (Tampered_evidence k)
          else if stale_in stale k then Some (Stale_evidence k) else None)"

definition check_options :: "evidence_store \<Rightarrow> string list option \<Rightarrow> usability" where
  "check_options st stale = \<lparr>uo_stale = stale, uo_workspaceRoot = es_workspaceRoot st\<rparr>"

definition evidence_problem :: "evidence_store \<Rightarrow> verification_check \<Rightarrow> string \<Rightarrow> report_problem option" where
  "evidence_problem st c k =
     (case es_get st k of
        None \<Rightarrow> None
      | Some r \<Rightarrow>
          if er_status r \<noteq> Receipt_passed then Some (Pass_check_not_passed (vc_name c) k)
          else (case eo_exitCode (er_observation r) of
                  None \<Rightarrow> None
                | Some x \<Rightarrow> if x \<noteq> 0 then Some (Pass_check_exit_code (vc_name c) k x) else None))"

definition criterion_backed ::
    "host \<Rightarrow> evidence_store \<Rightarrow> string list option \<Rightarrow> verification_check \<Rightarrow> string \<Rightarrow> bool" where
  "criterion_backed H st stale c cid \<longleftrightarrow>
     list_ex (\<lambda>k. case es_get st k of
        None \<Rightarrow> False
      | Some r \<Rightarrow> cid \<in> set (er_criterionIds r) \<and> receiptIsUsable H (check_options st stale) r)
       (vc_evidenceIds c)"

definition check_problem ::
    "host \<Rightarrow> evidence_store \<Rightarrow> string list option \<Rightarrow> verification_check \<Rightarrow> report_problem option" where
  "check_problem H st stale c =
     (if vc_result c \<noteq> Check_pass then None
      else then_check (first_problem (evidence_problem st c) (vc_evidenceIds c))
        (first_problem (\<lambda>cid. if criterion_backed H st stale c cid then None
            else Some (Pass_criterion_unbacked (vc_name c) cid)) (vc_criterionIds c)))"

definition probe_problem :: "evidence_store \<Rightarrow> verification_report \<Rightarrow> report_problem option" where
  "probe_problem st r =
     (case truthy (vr_adversarialProbeEvidenceId r) of
        None \<Rightarrow> Some No_probe
      | Some k \<Rightarrow>
          then_check
            (case es_get st k of
               None \<Rightarrow> None
             | Some probe \<Rightarrow>
                 (let command = command_of (inv_normalizedInput (er_invocation probe))
                  in if trivial_probe command then Some (Trivial_probe (js_trim command)) else None))
            (if list_ex (\<lambda>c. vc_result c \<noteq> Check_pass) (vr_checks r) then Some Pass_check_failed
             else if vr_checks r = [] then Some No_checks
             else if list_all (\<lambda>c. vc_evidenceIds c = []) (vr_checks r) then Some No_check_evidence
             else None))"

definition backing_receipts :: "evidence_store \<Rightarrow> verification_report \<Rightarrow> acceptance_criterion \<Rightarrow> evidence_receipt list" where
  "backing_receipts st r c =
     filter (\<lambda>e. er_status e = Receipt_passed)
       (List.map_filter (es_get st)
         (concat (map vc_evidenceIds
           (filter (\<lambda>k. vc_result k = Check_pass \<and> ac_id c \<in> set (vc_criterionIds k)) (vr_checks r)))))"

definition criteria_problem ::
    "host \<Rightarrow> evidence_store \<Rightarrow> string list option \<Rightarrow> verification_report \<Rightarrow> acceptance_criterion list \<Rightarrow>
     report_problem option" where
  "criteria_problem H st stale r criteria =
     (let covered = concat (map vc_criterionIds (vr_checks r));
          uncovered = filter (\<lambda>c. ac_id c \<notin> set covered) (filter ac_required criteria)
      in if uncovered \<noteq> [] then Some (Uncovered_criteria (map ac_id uncovered))
         else first_problem (\<lambda>c.
            if \<not> ac_required c then None
            else let backing = backing_receipts st r c
                 in if backing \<noteq> [] \<and>
                       \<not> list_ex (\<lambda>e. receiptSupportsCriterion H (check_options st stale) e c) backing
                    then Some (Kind_mismatch (ac_id c)) else None) criteria)"

definition validateReport ::
    "host \<Rightarrow> verification_report \<Rightarrow> evidence_store \<Rightarrow> acceptance_criterion list option \<Rightarrow> string list option \<Rightarrow>
     report_problem option" where
  "validateReport H r st requiredCriteria stale =
     then_check (first_problem (reference_problem H st stale) (referenced_ids r))
       (then_check
         (if vr_verdict r \<noteq> PASS then None
          else if vr_failures r \<noteq> [] \<or> vr_unverified r \<noteq> [] then Some Pass_with_failures
          else first_problem (check_problem H st stale) (vr_checks r))
         (then_check
           (if vr_verdict r = PASS then probe_problem st r else None)
           (then_check
             (case requiredCriteria of
                None \<Rightarrow> None
              | Some cs \<Rightarrow>
                  if cs \<noteq> [] \<and> vr_verdict r = PASS then criteria_problem H st stale r cs else None)
             (if vr_verdict r = PARTIAL \<and> vr_unverified r = [] then Some Partial_without_limits
              else if vr_verdict r = FAIL \<and> vr_failures r = [] then Some Fail_without_failures
              else None))))"

subsection \<open>What an accepted PASS means\<close>

lemma map_filter_mem: "y \<in> set (List.map_filter f xs) \<longleftrightarrow> (\<exists>x \<in> set xs. f x = Some y)"
  by (force simp: List.map_filter_def)

lemma pass_checks:
  assumes "validateReport H r st cs stale = None" "vr_verdict r = PASS"
  shows "\<forall>c \<in> set (vr_checks r). vc_result c = Check_pass \<and> check_problem H st stale c = None"
    "\<forall>k \<in> set (referenced_ids r). reference_problem H st stale k = None"
    "probe_problem st r = None" "vr_failures r = []" "vr_unverified r = []"
proof -
  show "\<forall>k \<in> set (referenced_ids r). reference_problem H st stale k = None"
    "probe_problem st r = None" "vr_failures r = []" "vr_unverified r = []"
    using assms by (auto simp: validateReport_def first_problem_None split: if_splits)
  then show "\<forall>c \<in> set (vr_checks r). vc_result c = Check_pass \<and> check_problem H st stale c = None"
    using assms
    by (auto simp: validateReport_def first_problem_None probe_problem_def list_ex_iff split: if_splits option.splits)
qed

lemma check_evidence_ok:
  assumes "check_problem H st stale c = None" "vc_result c = Check_pass" "k \<in> set (vc_evidenceIds c)"
    "es_get st k = Some e"
  shows "er_status e = Receipt_passed" "eo_exitCode (er_observation e) \<in> {None, Some 0}"
  using assms by (force simp: check_problem_def first_problem_None evidence_problem_def split: if_splits option.splits)+

lemma check_criterion_ok:
  assumes "check_problem H st stale c = None" "vc_result c = Check_pass" "cid \<in> set (vc_criterionIds c)"
  shows "criterion_backed H st stale c cid"
  using assms by (force simp: check_problem_def first_problem_None split: if_splits)

lemma required_covered:
  assumes "validateReport H r st (Some cs) stale = None" "vr_verdict r = PASS" "c \<in> set cs" "ac_required c"
  shows "\<exists>k \<in> set (vr_checks r). ac_id c \<in> set (vc_criterionIds k)"
    "backing_receipts st r c \<noteq> [] \<Longrightarrow>
     \<exists>e \<in> set (backing_receipts st r c). receiptSupportsCriterion H (check_options st stale) e c"
proof -
  have p: "criteria_problem H st stale r cs = None"
    using assms by (cases cs) (auto simp: validateReport_def split: if_splits)
  then show "\<exists>k \<in> set (vr_checks r). ac_id c \<in> set (vc_criterionIds k)"
    using assms(3, 4) by (auto simp: criteria_problem_def Let_def filter_empty_conv split: if_splits)
  show "backing_receipts st r c \<noteq> [] \<Longrightarrow>
     \<exists>e \<in> set (backing_receipts st r c). receiptSupportsCriterion H (check_options st stale) e c"
    using p assms(3, 4)
    by (auto simp: criteria_problem_def Let_def first_problem_None list_ex_iff split: if_splits)
qed

text \<open>
  An accepted PASS is evidence-backed. Every required criterion is claimed by a check of
  the report, and some receipt of the runtime's store referenced by a passing check supports
  it: it exists, its signature holds, it is not stale, belongs to the store's workspace, was
  signed as passed with no failing exit code, for that criterion and of the required kind.
  The report lists no failure, and its probe exists and is not trivial.
\<close>

theorem accepted_pass_is_backed:
  assumes "validateReport H r st (Some cs) stale = None" "vr_verdict r = PASS" "c \<in> set cs" "ac_required c"
  shows "(\<exists>k \<in> set (vr_checks r). \<exists>i \<in> set (vc_evidenceIds k). \<exists>e. es_get st i = Some e \<and>
      vc_result k = Check_pass \<and> receiptSupportsCriterion H (check_options st stale) e c \<and>
      verifySha256 H e \<and> \<not> stale_in stale i \<and> eo_exitCode (er_observation e) \<in> {None, Some 0}) \<and>
    vr_failures r = [] \<and> vr_unverified r = [] \<and>
    (\<exists>p e. vr_adversarialProbeEvidenceId r = Some p \<and> es_get st p = Some e \<and>
       \<not> trivial_probe (command_of (inv_normalizedInput (er_invocation e))))"
proof -
  note pc = pass_checks [OF assms(1, 2)]
  obtain k where k: "k \<in> set (vr_checks r)" "ac_id c \<in> set (vc_criterionIds k)"
    using required_covered(1) [OF assms] by blast
  from pc(1) k(1) have kp: "vc_result k = Check_pass" "check_problem H st stale k = None" by blast+
  from check_criterion_ok [OF kp(2, 1) k(2)] obtain i e where i: "i \<in> set (vc_evidenceIds k)"
    "es_get st i = Some e" "receiptIsUsable H (check_options st stale) e"
    by (auto simp: criterion_backed_def list_ex_iff split: option.splits)
  then have "e \<in> set (backing_receipts st r c)"
    using k kp by (auto simp: backing_receipts_def map_filter_mem receiptIsUsable_def split: if_splits)
  then obtain e' where e': "e' \<in> set (backing_receipts st r c)"
    "receiptSupportsCriterion H (check_options st stale) e' c"
    using required_covered(2) [OF assms] by fastforce
  then obtain k' i' where k': "k' \<in> set (vr_checks r)" "vc_result k' = Check_pass" "i' \<in> set (vc_evidenceIds k')"
    "es_get st i' = Some e'"
    by (auto simp: backing_receipts_def map_filter_mem)
  have "i' \<in> set (referenced_ids r)" using k' by (auto simp: referenced_ids_def)
  then have ref: "verifySha256 H e'" "\<not> stale_in stale i'"
    using pc(2) k'(4) by (force simp: reference_problem_def split: option.splits if_splits)+
  have "eo_exitCode (er_observation e') \<in> {None, Some 0}"
    using check_evidence_ok(2) pc(1) k' by blast
  moreover have "\<exists>p e. vr_adversarialProbeEvidenceId r = Some p \<and> es_get st p = Some e \<and>
       \<not> trivial_probe (command_of (inv_normalizedInput (er_invocation e)))"
  proof -
    obtain p where p: "truthy (vr_adversarialProbeEvidenceId r) = Some p"
      using pc(3) by (auto simp: probe_problem_def split: option.splits)
    then have "p \<in> set (referenced_ids r)" by (simp add: referenced_ids_def)
    then obtain e where "es_get st p = Some e"
      using pc(2) by (force simp: reference_problem_def split: option.splits)
    then show ?thesis
      using p pc(3) by (auto simp: probe_problem_def truthy_def Let_def split: option.splits if_splits)
  qed
  ultimately show ?thesis using k' e'(2) ref pc(4, 5) by blast
qed

definition demo_report :: verification_report where
  "demo_report = \<lparr>vr_verdict = PASS, vr_summary = ''ok'',
     vr_checks = [\<lparr>vc_name = ''unit'', vc_criterionIds = [''ac1''], vc_evidenceIds = [''ev1''],
       vc_result = Check_pass, vc_expected = ''0'', vc_actual = ''0''\<rparr>],
     vr_adversarialProbeEvidenceId = Some ''ev1'', vr_failures = [], vr_unverified = []\<rparr>"

definition demo_criterion :: acceptance_criterion where
  "demo_criterion = \<lparr>ac_id = ''ac1'', ac_statement = ''tests pass'', ac_evidenceKind = Test_kind, ac_required = True\<rparr>"

lemma demo_get: "es_get demo_store1 ''ev1'' = Some demo_receipt"
  by (simp add: demo_store1_def es_get_def obj_get_def)

lemma demo_receipt_fields:
  "verifySha256 demo_host demo_receipt" "er_status demo_receipt = Receipt_passed"
  "er_criterionIds demo_receipt = [''ac1'']" "er_kind demo_receipt = Test_kind"
  "eo_exitCode (er_observation demo_receipt) = Some 0"
  "command_of (inv_normalizedInput (er_invocation demo_receipt)) = ''npm test''"
  using demo_usable
  by (simp_all add: receiptIsUsable_def split: if_splits)
    (simp_all add: demo_receipt_def sign_receipt_def unsigned_receipt_def demo_receipt_input_def Let_def
      command_of_def json_member_def)

lemma demo_probe_meaningful: "\<not> trivial_probe ''npm test''" "trivial_probe '' echo ok''"
  by code_simp+

lemma demo_usable_here: "receiptIsUsable demo_host (check_options demo_store1 None) demo_receipt"
  using demo_usable by (simp add: check_options_def demo_store1_def demo_store_def)

lemma demo_report_accepted: "validateReport demo_host demo_report demo_store1 (Some [demo_criterion]) None = None"
proof -
  have "truthy (Some ''ev1'') = Some ''ev1''" by (simp add: truthy_def)
  then show ?thesis
    by (simp add: validateReport_def demo_report_def demo_criterion_def referenced_ids_def js_uniq_def push_unique_def
        reference_problem_def demo_get demo_receipt_fields stale_in_def check_problem_def evidence_problem_def
        criterion_backed_def demo_usable_here probe_problem_def demo_probe_meaningful criteria_problem_def
        backing_receipts_def List.map_filter_def receiptSupportsCriterion_def then_check_def)
qed

theorem accepted_pass_is_backed_witness:
  "\<exists>k \<in> set (vr_checks demo_report). \<exists>i \<in> set (vc_evidenceIds k). \<exists>e. es_get demo_store1 i = Some e \<and>
     receiptSupportsCriterion demo_host (check_options demo_store1 None) e demo_criterion"
  using accepted_pass_is_backed [OF demo_report_accepted, of demo_criterion]
  by (auto simp: demo_report_def demo_criterion_def)

end
