(* ===== verification/Gate.thy ===== *)
theory Gate
  imports Supervisor Verdict
begin

text \<open>
  The completion gate (planning/completionGate.ts): which requirements are missing before a
  run may complete, which commands count as validating a change, and the risk score.
\<close>

subsection \<open>Which commands validate\<close>

definition slashes :: "string \<Rightarrow> string" where
  "slashes s = map (\<lambda>c. if c = CHR 0x5C then CHR ''/'' else c) s"

definition space_or_quote :: re where
  "space_or_quote = Cls (\<lambda>c. is_ws c \<or> c = CHR 0x22 \<or> c = CHR 0x27)"

text \<open>The path is escaped in the source, so it is a literal of the expression.\<close>

definition mention_pattern :: "string \<Rightarrow> re" where
  "mention_pattern p = Seqs [Alts [Bol, space_or_quote], Opt (Lit ''./''), Lit p, Ahead (Alts [Eol, space_or_quote])]"

definition commandMentionsPath :: "string \<Rightarrow> string \<Rightarrow> bool" where
  "commandMentionsPath command path \<longleftrightarrow>
     re_test (mention_pattern (to_lower (slashes path))) (to_lower (slashes command))"

definition control_chars :: "char list" where
  "control_chars = ''|&;<>{}'' @ [CHR 0x0D, CHR 0x0A, CHR 0x60]"

definition control_pattern :: re where
  "control_pattern = Alts [One_of control_chars, Lit ''$('', Lit ''${'']"

definition help_pattern :: re where
  "help_pattern = Seqs [Alts [Bol, Ws],
     Alts [Lit_i ''--help'', Lit_i ''-h'', Lit_i ''--version'', Lit_i ''-v'', Lit_i ''--dry-run'', Lit_i ''--listtests'',
           Lit_i ''--if-present'', Lit_i ''--passwithnotests'', Lit_i ''--allow-no-tests''],
     Alts [Cls (\<lambda>c. is_ws c \<or> c = CHR ''=''), Eol]]"

definition ws_or_end :: re where "ws_or_end = Alts [Ws, Eol]"

definition validator_patterns :: "re list" where
  "validator_patterns =
     [Seqs [Bol, Alts [Seqs [Lit ''npm'', Opt (Lit ''.cmd'')], Lit ''pnpm'', Lit ''yarn'', Lit ''bun''], Wss,
        Alts [Seqs [Lit ''test'', Word_b],
              Seqs [Opt (Seqs [Lit ''run'', Wss]),
                    Alts [Lit ''test'', Lit ''build'', Lit ''lint'', Lit ''typecheck'', Lit ''check'', Lit ''verify''],
                    Opt (Seqs [Lit '':'', Plus (Cls (\<lambda>c. is_word c \<or> c = CHR ''.'' \<or> c = CHR ''-''))]), Word_b]]],
      Seqs [Bol, Alts [Lit ''npx'', Seqs [Lit ''pnpm'', Wss, Lit ''exec''], Seqs [Lit ''yarn'', Wss, Lit ''dlx''], Lit ''bunx''],
        Wss, Alts [Lit ''vitest'', Lit ''jest'', Lit ''eslint'', Lit ''tsc'', Lit ''mocha'', Lit ''ava''], Word_b],
      Seqs [Bol, Lit ''node'', Wss, Lit ''--test'', ws_or_end],
      Seqs [Bol, Alts [Lit ''pytest'', Seqs [Lit ''python'', Opt (Lit ''3''), Wss, Lit ''-m'', Wss, Lit ''pytest'']], ws_or_end],
      Seqs [Bol,
        Alts [Seqs [Lit ''cargo'', Wss, Alts [Lit ''test'', Lit ''check'', Lit ''clippy'']],
              Seqs [Lit ''go'', Wss, Lit ''test''],
              Seqs [Lit ''dotnet'', Wss, Alts [Lit ''test'', Lit ''build'']],
              Seqs [Lit ''mvn'', Wss, Alts [Lit ''test'', Lit ''verify'']],
              Seqs [Lit ''gradle'', Wss, Alts [Lit ''test'', Lit ''check'', Lit ''build'']],
              Seqs [Lit ''make'', Wss, Alts [Lit ''test'', Lit ''check'', Lit ''build'', Lit ''lint'']]],
        ws_or_end],
      Seqs [Bol, Alts [Seqs [Lit ''tsc'', Word_b], Seqs [Lit ''eslint'', Word_b], Seqs [Lit ''vitest'', Word_b],
        Seqs [Lit ''jest'', Word_b]]],
      Seqs [Bol, Lit ''git'', Wss, Lit ''diff'', Word_b, Star Dot, Alts [Bol, Ws], Lit ''--check'', ws_or_end]]"

definition grep_pattern :: re where
  "grep_pattern = Seqs [Bol, Alts [Lit ''rg'', Lit ''grep''], Word_b]"

datatype validation_scope = Paths_valid | Workspace_valid

definition recognizedValidationScope :: "string \<Rightarrow> string list \<Rightarrow> validation_scope option" where
  "recognizedValidationScope command changedPaths =
     (if re_test control_pattern command then None
      else let normalized = to_lower (slashes (js_trim command))
           in if normalized = [] then None
              else if re_test help_pattern normalized then None
              else if list_ex (\<lambda>p. re_test p normalized) validator_patterns then Some Workspace_valid
              else if \<not> re_test grep_pattern normalized \<or> changedPaths = [] then None
              else if list_ex (commandMentionsPath normalized) changedPaths then Some Paths_valid else None)"

text \<open>The command of a receipt, where its input is an object with a text member \<open>command\<close>.\<close>

definition invoked_command :: "evidence_receipt \<Rightarrow> string option" where
  "invoked_command r =
     (case inv_normalizedInput (er_invocation r) of
        JObj kvs \<Rightarrow> (case map_of kvs ''command'' of Some (JStr c) \<Rightarrow> Some c | _ \<Rightarrow> None)
      | _ \<Rightarrow> None)"

definition validationScope :: "evidence_receipt \<Rightarrow> string list \<Rightarrow> validation_scope option" where
  "validationScope r changedPaths =
     (let tool = inv_tool (er_invocation r)
      in if tool = ''FileAssert'' then (if er_kind r = File_assertion then Some Paths_valid else None)
         else if tool = ''DiffAssert'' then (if er_kind r = Diff_assertion then Some Paths_valid else None)
         else if tool = ''ManualVerify'' then None
         else if tool \<noteq> ''Shell'' \<and> tool \<noteq> ''ShellReadOnly'' then None
         else if er_kind r \<noteq> Command_kind \<and> er_kind r \<noteq> Test_kind then None
         else (case invoked_command r of
                 None \<Rightarrow> None | Some c \<Rightarrow> recognizedValidationScope c changedPaths))"

subsection \<open>Which paths a receipt covers\<close>

definition receiptBoundPaths :: "host \<Rightarrow> evidence_receipt \<Rightarrow> string \<Rightarrow> string list" where
  "receiptBoundPaths H r wsroot =
     (case er_fileVersions r of
        None \<Rightarrow> [] | Some fv \<Rightarrow> List.map_filter (key_of H wsroot) (map fst (obj_entries fv)))"

definition receiptCoveredMutationPaths :: "host \<Rightarrow> evidence_receipt \<Rightarrow> string list \<Rightarrow> string \<Rightarrow> string list" where
  "receiptCoveredMutationPaths H r changedPaths wsroot =
     (let bound = receiptBoundPaths H r wsroot; tool = inv_tool (er_invocation r)
      in if tool = ''Shell'' \<or> tool = ''ShellReadOnly''
         then (case invoked_command r of
                 None \<Rightarrow> bound
               | Some c \<Rightarrow>
                   let command = to_lower (slashes c)
                   in if re_test grep_pattern (js_trim command)
                      then filter (\<lambda>p. p \<in> set bound \<and> commandMentionsPath command p) changedPaths
                      else bound)
         else bound)"

record gate_input =
  gi_state :: agent_state
  gi_approvedPlan :: "plan_version option"
  gi_evidence :: "evidence_receipt list"
  gi_riskThreshold :: number
  gi_stale :: "string list option"
  gi_workspaceRoot :: "string option"
  gi_workspaceRevision :: "number option"

definition gate_usability :: "gate_input \<Rightarrow> usability" where
  "gate_usability i = \<lparr>uo_stale = gi_stale i, uo_workspaceRoot = gi_workspaceRoot i\<rparr>"

definition mutation_candidates :: "host \<Rightarrow> gate_input \<Rightarrow> pending_verification \<Rightarrow> number \<Rightarrow> evidence_receipt list" where
  "mutation_candidates H i pending expectedRevision =
     filter (\<lambda>r. er_workspaceRevision r = Some expectedRevision \<and> er_sessionId r = ag_sessionId (gi_state i) \<and>
         er_runId r = ag_runId (gi_state i) \<and> receiptIsUsable H (gate_usability i) r \<and>
         validationScope r (pv_changedPaths pending) \<noteq> None) (gi_evidence i)"

definition evidenceSatisfiesPendingMutation :: "host \<Rightarrow> gate_input \<Rightarrow> bool" where
  "evidenceSatisfiesPendingMutation H i =
     (case ws_pendingVerification (ag_workspace (gi_state i)) of
        None \<Rightarrow> True
      | Some pending \<Rightarrow>
          let current = ws_revision (ag_workspace (gi_state i));
              expectedRevision = or_else (gi_workspaceRevision i) current;
              candidates = mutation_candidates H i pending expectedRevision;
              wsroot = or_else (gi_workspaceRoot i) (ws_root (ag_workspace (gi_state i)));
              covered = concat (map (\<lambda>r. receiptCoveredMutationPaths H r (pv_changedPaths pending) wsroot) candidates)
          in if expectedRevision \<noteq> pv_revision pending \<or> pv_revision pending \<noteq> current then False
             else if pv_scope pending = Workspace_scope \<and>
                     \<not> list_ex (\<lambda>r. validationScope r (pv_changedPaths pending) = Some Workspace_valid) candidates
             then False
             else if pv_scope pending = Workspace_scope \<and> pv_changedPaths pending = [] then True
             else list_all (\<lambda>p. p \<in> set covered) (pv_changedPaths pending))"

subsection \<open>The gate\<close>

datatype requirement =
    Open_tasks "(string \<times> task_status) list"
  | Missing_evidence_for "(string \<times> string) list"
  | Manual_verification_required "(string \<times> string) list"
  | Blocked_tasks "(string \<times> string option) list"
  | Failed_tasks "string list"
  | Replan_in_progress bool
  | Unverified_workspace_changes pending_verification

definition verificationRisk :: "agent_state \<Rightarrow> number" where
  "verificationRisk s =
     (let rs = obj_values (ag_toolResults s)
      in min (count_where (\<lambda>r. tr_toolName r \<in> {''Edit'', ''Write'', ''ApplyPatch''} \<and> tr_ok r) rs) 5 +
         min (count_where (\<lambda>r. tr_toolName r = ''Shell'' \<and> tr_ok r) rs) 3 +
         min (count_where (\<lambda>r. \<not> tr_ok r) rs) 2)"

definition unless_Nil :: "'a list \<Rightarrow> ('a list \<Rightarrow> 'b) \<Rightarrow> 'b list" where
  "unless_Nil xs f = (if xs = [] then [] else [f xs])"

lemma unless_Nil_iff [simp]: "unless_Nil xs f = [] \<longleftrightarrow> xs = []"
  by (simp add: unless_Nil_def)

definition task_requirements :: "plan_task list \<Rightarrow> requirement list" where
  "task_requirements ts =
     unless_Nil (filter (\<lambda>t. tk_status t = Pending \<or> tk_status t = In_progress) ts)
       (\<lambda>l. Open_tasks (map (\<lambda>t. (tk_id t, tk_status t)) l)) @
     unless_Nil (with_status Blocked ts) (\<lambda>l. Blocked_tasks (map (\<lambda>t. (tk_id t, tk_blockedReason t)) l)) @
     unless_Nil (with_status Failed ts) (\<lambda>l. Failed_tasks (map tk_id l))"

definition criteria_requirements :: "host \<Rightarrow> gate_input \<Rightarrow> requirement list" where
  "criteria_requirements H i =
     (case gi_approvedPlan i of
        None \<Rightarrow> []
      | Some p \<Rightarrow>
          let uncovered = requiredCriteriaWithoutUsableEvidence H (gate_usability i) (pl_acceptanceCriteria p) (gi_evidence i)
          in unless_Nil (filter (\<lambda>c. ac_evidenceKind c \<noteq> Manual_kind) uncovered)
               (\<lambda>l. Missing_evidence_for (map (\<lambda>c. (ac_id c, ac_statement c)) l)) @
             unless_Nil (filter (\<lambda>c. ac_evidenceKind c = Manual_kind) uncovered)
               (\<lambda>l. Manual_verification_required (map (\<lambda>c. (ac_id c, ac_statement c)) l)))"

definition change_requirements :: "host \<Rightarrow> gate_input \<Rightarrow> requirement list" where
  "change_requirements H i =
     (case ws_pendingVerification (ag_workspace (gi_state i)) of
        None \<Rightarrow> []
      | Some pending \<Rightarrow> if evidenceSatisfiesPendingMutation H i then [] else [Unverified_workspace_changes pending])"

definition gate_missing :: "host \<Rightarrow> gate_input \<Rightarrow> requirement list" where
  "gate_missing H i =
     (let r = ag_recovery (gi_state i)
      in if rs_replanning r then [Replan_in_progress (rs_replanAwaitingApproval r)] else []) @
     task_requirements (tasksForPlan (ag_tasks (gi_state i)) (gi_approvedPlan i)) @
     criteria_requirements H i @ change_requirements H i"

text \<open>The kind and the detail of a requirement, and the message of the gate.\<close>

fun requirement_kind :: "requirement \<Rightarrow> string" where
  "requirement_kind (Open_tasks ts) = ''open_tasks''"
| "requirement_kind (Missing_evidence_for cs) = ''missing_evidence''"
| "requirement_kind (Manual_verification_required cs) = ''manual_verification_required''"
| "requirement_kind (Blocked_tasks ts) = ''blocked_tasks''"
| "requirement_kind (Failed_tasks ts) = ''failed_tasks''"
| "requirement_kind (Replan_in_progress b) = ''replan_in_progress''"
| "requirement_kind (Unverified_workspace_changes v) = ''unverified_workspace_changes''"

fun task_status_text :: "task_status \<Rightarrow> string" where
  "task_status_text Pending = ''pending''"
| "task_status_text In_progress = ''in_progress''"
| "task_status_text Blocked = ''blocked''"
| "task_status_text Completed = ''completed''"
| "task_status_text Failed = ''failed''"

fun mutation_outcome_text :: "mutation_outcome \<Rightarrow> string" where
  "mutation_outcome_text Unknown_outcome = ''unknown''"
| "mutation_outcome_text Changed_outcome = ''changed''"
| "mutation_outcome_text (Other_outcome s) = s"

definition criterion_line :: "string \<times> string \<Rightarrow> string" where
  "criterion_line c = fst c @ '' ('' @ [CHR 0x22] @ snd c @ [CHR 0x22] @ '')''"

definition pending_detail :: "pending_verification \<Rightarrow> string" where
  "pending_detail v =
     ''a durable workspace verification obligation is still open for '' @
     (if pv_scope v = Workspace_scope then ''the whole workspace (the exact Shell write set is unknown)''
      else ''paths '' @ js_join '', '' (pv_changedPaths v)) @
     ''; sources: '' @
     js_join '', '' (map (\<lambda>m. ms_toolName m @ '':'' @ ms_callId m @ ''('' @ mutation_outcome_text (ms_outcome m) @ '')'') (pv_sources v)) @
     ''. Evidence must be collected at workspace revision '' @ show_num (pv_revision v) @
     '', use a runtime-observed test/build/lint/typecheck or assertion, and bind every known changed path. Version/help '' @
     ''commands and model-declared evidenceKind alone do not verify the change''"

fun requirement_detail :: "requirement \<Rightarrow> string" where
  "requirement_detail (Open_tasks ts) =
     ''open tasks: '' @ js_join '', '' (map (\<lambda>(i, st). i @ ''('' @ task_status_text st @ '')'') ts)"
| "requirement_detail (Missing_evidence_for cs) =
     ''required acceptance criteria without fresh, kind-matched, passed evidence: '' @ js_join '', '' (map criterion_line cs)"
| "requirement_detail (Manual_verification_required cs) =
     ''required manual acceptance criteria still need trusted, fresh runtime evidence: '' @ js_join '', '' (map criterion_line cs)"
| "requirement_detail (Blocked_tasks ts) =
     ''blocked tasks: '' @ js_join ''; '' (map (\<lambda>(i, r). i @ '': '' @ (case r of None \<Rightarrow> ''no reason'' | Some x \<Rightarrow> x)) ts)"
| "requirement_detail (Failed_tasks ts) = ''failed tasks: '' @ js_join '', '' ts"
| "requirement_detail (Replan_in_progress awaiting) =
     (if awaiting then ''a replacement plan is still awaiting approval''
      else ''a durable low-impact plan adjustment is still open'')"
| "requirement_detail (Unverified_workspace_changes v) = pending_detail v"

definition gate_message :: "requirement list \<Rightarrow> string" where
  "gate_message ms =
     ''Completion gate: the run is not finishable yet.'' @ [CHR 0x0A] @
     js_join [CHR 0x0A] (map (\<lambda>m. ''- ['' @ requirement_kind m @ ''] '' @ requirement_detail m) ms) @
     [CHR 0x0A] @ ''Repair or replan failed/blocked work and attach the required evidence; '' @
     ''do not claim completion while these requirements remain.''"

datatype gate_action = Complete | Continue

record gate_result =
  gr_action :: gate_action
  gr_requiresVerification :: bool
  gr_missing :: "requirement list"
  gr_message :: "string option"
  gr_riskScore :: number

definition evaluateCompletion :: "host \<Rightarrow> gate_input \<Rightarrow> gate_result" where
  "evaluateCompletion H i =
     (let missing = gate_missing H i; risk = verificationRisk (gi_state i)
      in if missing \<noteq> []
         then \<lparr>gr_action = Continue, gr_requiresVerification = False, gr_missing = missing, gr_message = Some (gate_message missing),
               gr_riskScore = risk\<rparr>
         else \<lparr>gr_action = Complete, gr_requiresVerification = gi_riskThreshold i \<le> risk, gr_missing = [], gr_message = None, gr_riskScore = risk\<rparr>)"

subsection \<open>Complete exactly when finishable\<close>

lemma task_requirements_Nil: "task_requirements ts = [] \<longleftrightarrow> (\<forall>t \<in> set ts. tk_status t = Completed)"
proof -
  have "tk_status t = Completed \<longleftrightarrow> \<not> (tk_status t = Pending \<or> tk_status t = In_progress) \<and>
      tk_status t \<noteq> Blocked \<and> tk_status t \<noteq> Failed" for t :: plan_task
    by (cases "tk_status t") simp_all
  then show ?thesis
    unfolding task_requirements_def with_status_def by (auto simp: filter_empty_conv)
qed

lemma criteria_requirements_Nil:
  "criteria_requirements H i = [] \<longleftrightarrow>
   (\<forall>p. gi_approvedPlan i = Some p \<longrightarrow> (\<forall>c \<in> set (pl_acceptanceCriteria p). ac_required c \<longrightarrow>
      (\<exists>r \<in> set (gi_evidence i). receiptSupportsCriterion H (gate_usability i) r c)))"
proof -
  have "filter (\<lambda>c. ac_evidenceKind c \<noteq> Manual_kind) cs = [] \<and> filter (\<lambda>c. ac_evidenceKind c = Manual_kind) cs = [] \<longleftrightarrow>
      cs = []" for cs :: "acceptance_criterion list"
    by (induction cs) auto
  then show ?thesis
    by (simp add: criteria_requirements_def Let_def uncovered_Nil split: option.split)
qed

text \<open>What verifies a pending change, over the receipts as they are.\<close>

definition validates_change :: "host \<Rightarrow> gate_input \<Rightarrow> pending_verification \<Rightarrow> evidence_receipt \<Rightarrow> bool" where
  "validates_change H i pending r \<longleftrightarrow>
     r \<in> set (gi_evidence i) \<and> er_workspaceRevision r = Some (pv_revision pending) \<and>
     er_sessionId r = ag_sessionId (gi_state i) \<and> er_runId r = ag_runId (gi_state i) \<and>
     receiptIsUsable H (gate_usability i) r \<and> validationScope r (pv_changedPaths pending) \<noteq> None"

definition gate_root :: "gate_input \<Rightarrow> string" where
  "gate_root i = or_else (gi_workspaceRoot i) (ws_root (ag_workspace (gi_state i)))"

definition change_verified :: "host \<Rightarrow> gate_input \<Rightarrow> pending_verification \<Rightarrow> bool" where
  "change_verified H i pending \<longleftrightarrow>
     ws_revision (ag_workspace (gi_state i)) = pv_revision pending \<and>
     or_else (gi_workspaceRevision i) (pv_revision pending) = pv_revision pending \<and>
     (pv_scope pending = Workspace_scope \<longrightarrow>
        (\<exists>r. validates_change H i pending r \<and> validationScope r (pv_changedPaths pending) = Some Workspace_valid)) \<and>
     (\<forall>p \<in> set (pv_changedPaths pending). \<exists>r. validates_change H i pending r \<and>
        p \<in> set (receiptCoveredMutationPaths H r (pv_changedPaths pending) (gate_root i)))"

lemma candidates_iff:
  "r \<in> set (mutation_candidates H i pending (pv_revision pending)) \<longleftrightarrow> validates_change H i pending r"
  by (auto simp: mutation_candidates_def validates_change_def)

lemma satisfies_iff:
  assumes "ws_pendingVerification (ag_workspace (gi_state i)) = Some pending"
  shows "evidenceSatisfiesPendingMutation H i \<longleftrightarrow> change_verified H i pending"
proof (cases "or_else (gi_workspaceRevision i) (ws_revision (ag_workspace (gi_state i))) = pv_revision pending \<and>
    pv_revision pending = ws_revision (ag_workspace (gi_state i))")
  case True
  let ?cs = "mutation_candidates H i pending (pv_revision pending)"
  have rev: "or_else (gi_workspaceRevision i) (pv_revision pending) = pv_revision pending"
    "ws_revision (ag_workspace (gi_state i)) = pv_revision pending"
    using True by auto
  have global: "list_ex (\<lambda>r. validationScope r (pv_changedPaths pending) = Some Workspace_valid) ?cs \<longleftrightarrow>
      (\<exists>r. validates_change H i pending r \<and> validationScope r (pv_changedPaths pending) = Some Workspace_valid)"
    by (auto simp: list_ex_iff candidates_iff)
  have cs: "set ?cs = {r. validates_change H i pending r}" using candidates_iff by blast
  have covered: "list_all (\<lambda>p. p \<in> set (concat (map (\<lambda>r.
        receiptCoveredMutationPaths H r (pv_changedPaths pending) (gate_root i)) ?cs))) (pv_changedPaths pending) \<longleftrightarrow>
      (\<forall>p \<in> set (pv_changedPaths pending). \<exists>r. validates_change H i pending r \<and>
        p \<in> set (receiptCoveredMutationPaths H r (pv_changedPaths pending) (gate_root i)))"
    by (simp add: list_all_iff cs)
  have "evidenceSatisfiesPendingMutation H i \<longleftrightarrow>
      \<not> (pv_scope pending = Workspace_scope \<and> \<not> list_ex (\<lambda>r. validationScope r (pv_changedPaths pending) = Some Workspace_valid) ?cs) \<and>
      (pv_scope pending = Workspace_scope \<and> pv_changedPaths pending = [] \<or>
       list_all (\<lambda>p. p \<in> set (concat (map (\<lambda>r.
         receiptCoveredMutationPaths H r (pv_changedPaths pending) (gate_root i)) ?cs))) (pv_changedPaths pending))"
    using assms rev by (simp add: evidenceSatisfiesPendingMutation_def Let_def gate_root_def) blast
  then show ?thesis
    unfolding global covered change_verified_def using rev by auto
next
  case False
  then show ?thesis
    using assms by (cases "gi_workspaceRevision i") (auto simp: evidenceSatisfiesPendingMutation_def change_verified_def Let_def)
qed

lemma change_requirements_Nil:
  "change_requirements H i = [] \<longleftrightarrow>
   (\<forall>pending. ws_pendingVerification (ag_workspace (gi_state i)) = Some pending \<longrightarrow> change_verified H i pending)"
  using satisfies_iff by (auto simp: change_requirements_def split: option.split)

text \<open>
  C21: the gate opens exactly for a finished run. It answers complete if and only if no
  replan is open, every task of the current plan is completed, every required criterion has
  usable evidence of its kind, and a pending change is verified at the current revision: a
  workspace-wide obligation by a global validator, and every path known to have changed by a
  validating receipt of this session and run that covers it.
\<close>

theorem gate_complete_iff:
  "gr_action (evaluateCompletion H i) = Complete \<longleftrightarrow>
     \<not> rs_replanning (ag_recovery (gi_state i)) \<and>
     (\<forall>t \<in> set (tasksForPlan (ag_tasks (gi_state i)) (gi_approvedPlan i)). tk_status t = Completed) \<and>
     (\<forall>p. gi_approvedPlan i = Some p \<longrightarrow> (\<forall>c \<in> set (pl_acceptanceCriteria p). ac_required c \<longrightarrow>
        (\<exists>r \<in> set (gi_evidence i). receiptSupportsCriterion H (gate_usability i) r c))) \<and>
     (\<forall>pending. ws_pendingVerification (ag_workspace (gi_state i)) = Some pending \<longrightarrow> change_verified H i pending)"
  using task_requirements_Nil criteria_requirements_Nil change_requirements_Nil
  by (auto simp: evaluateCompletion_def gate_missing_def Let_def)

definition demo_gate :: gate_input where
  "demo_gate = \<lparr>gi_state = pi_state demo_supervised, gi_approvedPlan = pi_approvedPlan demo_supervised, gi_evidence = [],
     gi_riskThreshold = 1, gi_stale = None, gi_workspaceRoot = Some ''/w'', gi_workspaceRevision = Some 0\<rparr>"

theorem gate_complete_iff_witness: "gr_action (evaluateCompletion demo_host demo_gate) = Complete"
  unfolding gate_complete_iff by (simp add: demo_gate_def demo_supervised_defs)

subsection \<open>No validation by assertion\<close>

lemma recognized_no_control:
  assumes "recognizedValidationScope c ps \<noteq> None"
  shows "\<forall>x \<in> set c. x \<notin> set control_chars"
proof -
  have "\<not> re_test control_pattern c" using assms by (auto simp: recognizedValidationScope_def)
  then have "\<not> re_test (One_of control_chars) c" by (simp add: control_pattern_def re_test_def re_search_Alt)
  then show ?thesis by (auto simp: One_of_def re_test_class list_ex_iff)
qed

lemma recognized_no_help:
  "recognizedValidationScope c ps \<noteq> None \<Longrightarrow> \<not> re_test help_pattern (to_lower (slashes (js_trim c)))"
  by (auto simp: recognizedValidationScope_def Let_def split: if_splits)

definition observed_validator :: "evidence_receipt \<Rightarrow> bool" where
  "observed_validator r \<longleftrightarrow>
     (inv_tool (er_invocation r) = ''FileAssert'' \<and> er_kind r = File_assertion) \<or>
     (inv_tool (er_invocation r) = ''DiffAssert'' \<and> er_kind r = Diff_assertion) \<or>
     (inv_tool (er_invocation r) \<in> {''Shell'', ''ShellReadOnly''} \<and>
      (\<exists>c. invoked_command r = Some c \<and> (\<forall>x \<in> set c. x \<notin> set control_chars) \<and>
         \<not> re_test help_pattern (to_lower (slashes (js_trim c)))))"

lemma validation_observed: "validationScope r ps \<noteq> None \<Longrightarrow> observed_validator r"
  using recognized_no_control recognized_no_help
  by (fastforce simp: validationScope_def observed_validator_def Let_def split: if_splits option.splits)

lemma covered_bound:
  "p \<in> set (receiptCoveredMutationPaths H r ps wsroot) \<Longrightarrow> p \<in> set (receiptBoundPaths H r wsroot)"
  by (auto simp: receiptCoveredMutationPaths_def Let_def split: if_splits option.splits)

lemma bound_key:
  "p \<in> set (receiptBoundPaths H r wsroot) \<Longrightarrow>
   \<exists>fv f v. er_fileVersions r = Some fv \<and> (f, v) \<in> set fv \<and> workspacePathKey H wsroot f = Inr p"
proof -
  assume "p \<in> set (receiptBoundPaths H r wsroot)"
  then obtain fv where fv: "er_fileVersions r = Some fv" "p \<in> set (List.map_filter (key_of H wsroot) (map fst (obj_entries fv)))"
    by (cases "er_fileVersions r") (simp_all add: receiptBoundPaths_def)
  then obtain b where "b \<in> set fv" "key_of H wsroot (fst b) = Some p" by (auto simp: map_filter_mem)
  then have "(fst b, snd b) \<in> set fv" "workspacePathKey H wsroot (fst b) = Inr p"
    by (auto simp: key_of_def split: sum.splits)
  with fv(1) show ?thesis by blast
qed


lemma demo_changed_state:
  "\<exists>s v. applyFacts demo_host (createInitialState demo_input) [Workspace_mutation_started demo_mutation] = Inr s \<and>
     ws_pendingVerification (ag_workspace s) = Some v \<and> pv_revision v = 1 \<and> pv_scope v = Workspace_scope \<and>
     pv_changedPaths v = [] \<and> ws_revision (ag_workspace s) = 1 \<and> ws_root (ag_workspace s) = ''/w'' \<and> ag_tasks s = [] \<and>
     \<not> rs_replanning (ag_recovery s) \<and> ag_sessionId s = ''s'' \<and> ag_runId s = ''r''"
  by (simp add: demo_mutation_def demo_input_def createInitialState_def initialRecovery_def handler_defs
      invalid_mutation_def pending_sources_def normalizeWorkspacePaths_def non_blank_Cons is_ws_def mutation_pending_def
      pending_paths_def)

definition demo_test_run :: evidence_receipt where
  "demo_test_run = sign_receipt demo_host (unsigned_receipt (\<lambda>_. File_missing) ''ev1'' ''t1''
     (demo_receipt_input\<lparr>ri_workspaceRevision := Some 1\<rparr>) demo_store)"

lemma demo_npm_test: "recognizedValidationScope ''npm test'' [] = Some Workspace_valid"
  by code_simp

lemma demo_test_run_valid:
  "receiptIsUsable demo_host \<lparr>uo_stale = None, uo_workspaceRoot = Some ''/w''\<rparr> demo_test_run"
  "validationScope demo_test_run [] = Some Workspace_valid" "er_workspaceRevision demo_test_run = Some 1"
  "er_sessionId demo_test_run = ''s''" "er_runId demo_test_run = ''r''"
proof -
  have v: "verifySha256 demo_host demo_test_run" unfolding demo_test_run_def by (rule signed_verifies)
  note d = demo_test_run_def sign_receipt_def unsigned_receipt_def demo_receipt_input_def demo_store_def Let_def
  have "er_status demo_test_run = Receipt_passed" "er_workspaceRoot demo_test_run = Some ''/w''"
    by (simp_all add: d)
  with v show "receiptIsUsable demo_host \<lparr>uo_stale = None, uo_workspaceRoot = Some ''/w''\<rparr> demo_test_run"
    by (simp add: receiptIsUsable_def truthy_def sameWorkspace_def)
  have "inv_tool (er_invocation demo_test_run) = ''Shell''" "er_kind demo_test_run = Test_kind"
    "invoked_command demo_test_run = Some ''npm test''"
    by (simp_all add: d invoked_command_def)
  then show "validationScope demo_test_run [] = Some Workspace_valid"
    by (simp add: validationScope_def Let_def demo_npm_test)
  show "er_workspaceRevision demo_test_run = Some 1" "er_sessionId demo_test_run = ''s''" "er_runId demo_test_run = ''r''"
    by (simp_all add: d)
qed


text \<open>
  The supervisor and the gate agree. Where the supervisor proposes to finish, the gate,
  asked about the same state, plan and evidence, misses nothing but the verification of a
  pending change.
\<close>

theorem finish_agrees_with_gate:
  assumes "sd_action (ph_decision (assessPlanHealth H i)) = Finish" "gi_state g = pi_state i"
    "gi_approvedPlan g = pi_approvedPlan i" "gi_evidence g = pi_evidence i" "gi_stale g = pi_stale i"
    "gi_workspaceRoot g = Some (ws_root (ag_workspace (pi_state i)))" "m \<in> set (gr_missing (evaluateCompletion H g))"
  shows "\<exists>pending. m = Unverified_workspace_changes pending \<and>
    ws_pendingVerification (ag_workspace (gi_state g)) = Some pending \<and> \<not> change_verified H g pending"
proof -
  note f = assms(1) [unfolded finish_is_earned]
  have "task_requirements (tasksForPlan (ag_tasks (gi_state g)) (gi_approvedPlan g)) = []"
    using f assms(2, 3) by (simp add: task_requirements_Nil plan_tasks_def)
  moreover have "criteria_requirements H g = []"
    using f assms(2 - 6) by (auto simp: criteria_requirements_Nil gate_usability_def)
  moreover have "\<not> rs_replanning (ag_recovery (gi_state g))" using f assms(2) by simp
  ultimately have "m \<in> set (change_requirements H g)"
    using assms(7) by (auto simp: evaluateCompletion_def gate_missing_def Let_def split: if_splits)
  then obtain pending where "ws_pendingVerification (ag_workspace (gi_state g)) = Some pending"
    "m = Unverified_workspace_changes pending" "\<not> evidenceSatisfiesPendingMutation H g"
    by (cases "ws_pendingVerification (ag_workspace (gi_state g))") (auto simp: change_requirements_def split: if_splits)
  with satisfies_iff show ?thesis by blast
qed

definition demo_unverified :: supervision_input where
  "demo_unverified = demo_supervised\<lparr>pi_state := (pi_state demo_supervised)\<lparr>ag_workspace :=
     (ag_workspace (pi_state demo_supervised))\<lparr>ws_revision := 1, ws_pendingVerification := Some
       \<lparr>pv_revision = 1, pv_openedAtTurnId = ''t'', pv_scope = Workspace_scope, pv_changedPaths = [],
        pv_sources = []\<rparr>\<rparr>\<rparr>\<rparr>"

theorem finish_agrees_with_gate_witness:
  "\<exists>g m. m \<in> set (gr_missing (evaluateCompletion demo_host g)) \<and> (\<exists>v. m = Unverified_workspace_changes v)"
proof -
  let ?i = demo_unverified
  define g where "g = demo_gate\<lparr>gi_state := pi_state ?i\<rparr>"
  have "scope_drift demo_host ?i = []"
    by (simp add: scope_drift_def Let_def invalid_plan_files_def planned_files_def step_files_def demo_unverified_def
        demo_supervised_def List.map_filter_def js_uniq_def)
  then have fin: "sd_action (ph_decision (assessPlanHealth demo_host ?i)) = Finish"
    unfolding finish_is_earned by (simp add: demo_unverified_def demo_supervised_defs)
  have "gr_missing (evaluateCompletion demo_host g) \<noteq> []"
    by (simp add: evaluateCompletion_def gate_missing_def change_requirements_def Let_def g_def demo_unverified_def
        demo_gate_def evidenceSatisfiesPendingMutation_def mutation_candidates_def)
  then obtain m where "m \<in> set (gr_missing (evaluateCompletion demo_host g))" by (meson last_in_set)
  with finish_agrees_with_gate [OF fin, of g m] show ?thesis
    by (auto simp: g_def demo_gate_def demo_unverified_def demo_supervised_def demo_input_def createInitialState_def)
qed

end
