(* ===== verification/Plans.thy ===== *)
theory Plans
  imports Tasks
begin

text \<open>
  Versioned plans and their approval (planning/PlanStore.ts). The store keeps references to
  mutable plan objects and compares them by identity (\<open>lastApprovedRef === plan\<close>), so the
  objects live in an explicit heap, a list indexed by address, and the version lists hold
  addresses. The artifact files the store writes are not modelled. \<open>Date\<close>'s ISO text is a
  parameter of the approval registry.
\<close>

subsection \<open>The store\<close>

record plan_store =
  st_heap :: "plan_version list"
  st_plans :: "nat list jsobj"
  st_lastApproved :: "nat option"

definition empty_plans :: plan_store where
  "empty_plans = \<lparr>st_heap = [], st_plans = [], st_lastApproved = None\<rparr>"

definition versions_of :: "plan_store \<Rightarrow> string \<Rightarrow> nat list" where
  "versions_of st planId = (case obj_get (st_plans st) planId of None \<Rightarrow> [] | Some l \<Rightarrow> l)"

definition plan_at :: "plan_store \<Rightarrow> nat \<Rightarrow> plan_version" where
  "plan_at st a = st_heap st ! a"

definition with_plan :: "nat \<Rightarrow> (plan_version \<Rightarrow> plan_version) \<Rightarrow> plan_store \<Rightarrow> plan_store" where
  "with_plan a f st = st\<lparr>st_heap := (st_heap st)[a := f (plan_at st a)]\<rparr>"

definition add_plan :: "string \<Rightarrow> plan_version \<Rightarrow> plan_store \<Rightarrow> plan_store" where
  "add_plan planId pl st =
     st\<lparr>st_heap := st_heap st @ [pl],
        st_plans := obj_set (st_plans st) planId (versions_of st planId @ [length (st_heap st)])\<rparr>"

definition get_plan :: "plan_store \<Rightarrow> string \<Rightarrow> number \<Rightarrow> nat option" where
  "get_plan st planId version = List.find (\<lambda>a. pl_version (plan_at st a) = version) (versions_of st planId)"

definition latest_plan :: "plan_store \<Rightarrow> string \<Rightarrow> nat option" where
  "latest_plan st planId = (case versions_of st planId of [] \<Rightarrow> None | l \<Rightarrow> Some (last l))"

definition mustGet :: "plan_store \<Rightarrow> string \<Rightarrow> number \<Rightarrow> nat res" where
  "mustGet st planId version =
     (case get_plan st planId version of None \<Rightarrow> Inl (InvariantError ''plan_not_found'') | Some a \<Rightarrow> Inr a)"

record create_version_input =
  cv_planId :: "string option"
  cv_goal :: string
  cv_nonGoals :: "string list option"
  cv_assumptions :: "string list option"
  cv_decisions :: "plan_decision list option"
  cv_steps :: "plan_step list option"
  cv_acceptanceCriteria :: "acceptance_criterion list option"
  cv_risks :: "string list option"

definition supersede_open :: "nat \<Rightarrow> plan_store \<Rightarrow> plan_store" where
  "supersede_open a st =
     (if pl_status (plan_at st a) \<in> {Draft, Awaiting_approval}
      then with_plan a (\<lambda>p. p\<lparr>pl_status := Superseded\<rparr>) st else st)"

definition drafted :: "string \<Rightarrow> nat \<Rightarrow> create_version_input \<Rightarrow> string \<Rightarrow> plan_version" where
  "drafted planId existing input now =
     \<lparr>pl_planId = planId, pl_version = of_nat existing + 1, pl_status = Draft, pl_goal = cv_goal input,
      pl_nonGoals = or_else (cv_nonGoals input) [], pl_assumptions = or_else (cv_assumptions input) [],
      pl_decisions = or_else (cv_decisions input) [], pl_steps = or_else (cv_steps input) [],
      pl_acceptanceCriteria = or_else (cv_acceptanceCriteria input) [], pl_risks = or_else (cv_risks input) [],
      pl_createdAt = now, pl_approvedAt = None, pl_approvalTokenId = None, pl_localRepair = None\<rparr>"

definition createVersion :: "string \<Rightarrow> string \<Rightarrow> create_version_input \<Rightarrow> plan_store \<Rightarrow> plan_store" where
  "createVersion nextId now input st =
     (let planId = or_else (cv_planId input) nextId; existing = versions_of st planId
      in add_plan planId (drafted planId (length existing) input now) (fold supersede_open existing st))"

record repair_replacement =
  rr_title :: "string option"
  rr_description :: string
  rr_files :: "string list option"
  rr_expectedOutcome :: "string option"

record local_repair_input =
  li_planId :: string
  li_version :: number
  li_stepId :: string
  li_reason :: string
  li_replacement :: repair_replacement

fun find_index :: "('a \<Rightarrow> bool) \<Rightarrow> 'a list \<Rightarrow> nat option" where
  "find_index P [] = None"
| "find_index P (x # xs) = (if P x then Some 0 else map_option Suc (find_index P xs))"

definition plan_files :: "plan_version \<Rightarrow> string list" where
  "plan_files pl = concat (map ps_files (pl_steps pl))"

definition repaired_step :: "plan_step \<Rightarrow> repair_replacement \<Rightarrow> plan_step" where
  "repaired_step old r =
     old\<lparr>ps_title := or_else (rr_title r) (ps_title old), ps_description := rr_description r,
         ps_files := or_else (rr_files r) (ps_files old),
         ps_expectedOutcome := or_else (rr_expectedOutcome r) (ps_expectedOutcome old)\<rparr>"

definition repaired_plan ::
    "plan_version \<Rightarrow> nat \<Rightarrow> nat \<Rightarrow> local_repair_input \<Rightarrow> string \<Rightarrow> string \<Rightarrow> plan_version" where
  "repaired_plan previous existing stepIndex input createdNow approvedNow =
     previous\<lparr>pl_version := of_nat existing + 1, pl_status := Approved,
       pl_steps := (pl_steps previous)[stepIndex :=
         repaired_step (pl_steps previous ! stepIndex) (li_replacement input)],
       pl_createdAt := createdNow, pl_approvedAt := Some approvedNow,
       pl_localRepair := Some \<lparr>lr_fromVersion = pl_version previous, lr_stepId = li_stepId input,
         lr_reason = li_reason input\<rparr>\<rparr>"

definition install_repair :: "nat \<Rightarrow> plan_version \<Rightarrow> string \<Rightarrow> plan_store \<Rightarrow> plan_store" where
  "install_repair a pl planId st =
     (let s = add_plan planId pl (with_plan a (\<lambda>p. p\<lparr>pl_status := Superseded\<rparr>) st)
      in s\<lparr>st_lastApproved := Some (length (st_heap st))\<rparr>)"

definition createLocalRepair ::
    "string \<Rightarrow> string \<Rightarrow> local_repair_input \<Rightarrow> plan_store \<Rightarrow> plan_store res" where
  "createLocalRepair createdNow approvedNow input st =
     bind_res (mustGet st (li_planId input) (li_version input)) (\<lambda>a.
       let previous = plan_at st a
       in guard_res (pl_status previous \<noteq> Approved \<or> st_lastApproved st \<noteq> Some a)
            (InvariantError ''local_repair_requires_active_approved_plan'')
            (case find_index (\<lambda>s. ps_id s = li_stepId input) (pl_steps previous) of
               None \<Rightarrow> Inl (InvariantError ''local_repair_step_not_found'')
             | Some i \<Rightarrow>
                 let files = or_else (rr_files (li_replacement input)) (ps_files (pl_steps previous ! i))
                 in guard_res (\<not> list_all (\<lambda>f. f \<in> set (plan_files previous)) files)
                      (InvariantError ''local_repair_scope_expansion'')
                      (Inr (install_repair a
                         (repaired_plan previous (length (versions_of st (li_planId input))) i input createdNow approvedNow)
                         (li_planId input) st))))"

definition markAwaitingApproval :: "string \<Rightarrow> number \<Rightarrow> plan_store \<Rightarrow> plan_store res" where
  "markAwaitingApproval planId version st =
     bind_res (mustGet st planId version) (\<lambda>a.
       guard_res (pl_status (plan_at st a) \<noteq> Draft) (InvariantError ''plan_version_immutable'')
         (Inr (with_plan a (\<lambda>p. p\<lparr>pl_status := Awaiting_approval\<rparr>) st)))"

definition markApproved :: "string \<Rightarrow> string \<Rightarrow> number \<Rightarrow> string \<Rightarrow> plan_store \<Rightarrow> plan_store res" where
  "markApproved now planId version tokenId st =
     bind_res (mustGet st planId version) (\<lambda>a.
       guard_res (pl_status (plan_at st a) \<noteq> Awaiting_approval) (InvariantError ''plan_version_immutable'')
         (Inr ((with_plan a (\<lambda>p. p\<lparr>pl_status := Approved, pl_approvedAt := Some now,
            pl_approvalTokenId := Some tokenId\<rparr>) st)\<lparr>st_lastApproved := Some a\<rparr>)))"

definition markSuperseded :: "string \<Rightarrow> number \<Rightarrow> plan_store \<Rightarrow> plan_store res" where
  "markSuperseded planId version st =
     bind_res (mustGet st planId version) (\<lambda>a.
       Inr (if pl_status (plan_at st a) = Superseded then st
            else let s = with_plan a (\<lambda>p. p\<lparr>pl_status := Superseded\<rparr>) st
                 in if st_lastApproved st = Some a then s\<lparr>st_lastApproved := None\<rparr> else s))"

definition restore_plan :: "plan_version \<Rightarrow> plan_store \<Rightarrow> plan_store" where
  "restore_plan pl st =
     (let known = list_ex (\<lambda>a. pl_version (plan_at st a) = pl_version pl) (versions_of st (pl_planId pl));
          s = (if known then st\<lparr>st_heap := st_heap st @ [pl]\<rparr> else add_plan (pl_planId pl) pl st)
      in if pl_status pl = Approved then s\<lparr>st_lastApproved := Some (length (st_heap st))\<rparr> else s)"

subsection \<open>How the heap evolves\<close>

text \<open>What a version says, without the marks of its life cycle, and how far it has come.\<close>

definition plan_content :: "plan_version \<Rightarrow> plan_version" where
  "plan_content pl = pl\<lparr>pl_status := Draft, pl_approvedAt := None, pl_approvalTokenId := None\<rparr>"

fun status_rank :: "plan_status \<Rightarrow> nat" where
  "status_rank Draft = 0"
| "status_rank Awaiting_approval = 1"
| "status_rank Approved = 2"
| "status_rank Superseded = 3"

definition plan_evolves :: "plan_version \<Rightarrow> plan_version \<Rightarrow> bool" where
  "plan_evolves p q \<longleftrightarrow> plan_content q = plan_content p \<and> status_rank (pl_status p) \<le> status_rank (pl_status q)"

definition heap_evolves :: "plan_version list \<Rightarrow> plan_version list \<Rightarrow> bool" where
  "heap_evolves h h' \<longleftrightarrow> length h \<le> length h' \<and> (\<forall>a < length h. plan_evolves (h ! a) (h' ! a))"

definition evolves :: "plan_store \<Rightarrow> plan_store \<Rightarrow> bool" where
  "evolves st st' \<longleftrightarrow> heap_evolves (st_heap st) (st_heap st') \<and>
     (\<forall>k. \<exists>l. versions_of st' k = versions_of st k @ l)"

lemma plan_evolves_refl [simp]: "plan_evolves p p"
  by (simp add: plan_evolves_def)

lemma plan_evolves_trans: "plan_evolves p q \<Longrightarrow> plan_evolves q r \<Longrightarrow> plan_evolves p r"
  by (simp add: plan_evolves_def)

lemma evolves_refl [simp]: "evolves st st"
  by (simp add: evolves_def heap_evolves_def)

lemma heap_evolves_trans: "heap_evolves h i \<Longrightarrow> heap_evolves i j \<Longrightarrow> heap_evolves h j"
  unfolding heap_evolves_def by (meson less_le_trans le_trans plan_evolves_trans)

lemma evolves_trans:
  assumes "evolves s t" "evolves t u"
  shows "evolves s u"
  using assms heap_evolves_trans unfolding evolves_def by (metis append.assoc)

lemma versions_of_update [simp]:
  "versions_of (st\<lparr>st_heap := h\<rparr>) k = versions_of st k"
  "versions_of (st\<lparr>st_lastApproved := x\<rparr>) k = versions_of st k"
  "versions_of (with_plan a f st) k = versions_of st k"
  by (simp_all add: versions_of_def with_plan_def)

lemma versions_of_add [simp]:
  "versions_of (add_plan p pl st) k = (if k = p then versions_of st k @ [length (st_heap st)] else versions_of st k)"
  by (simp add: versions_of_def add_plan_def)

lemma heap_simps [simp]:
  "st_heap (add_plan p pl st) = st_heap st @ [pl]"
  "st_heap (with_plan a f st) = (st_heap st)[a := f (st_heap st ! a)]"
  "st_lastApproved (add_plan p pl st) = st_lastApproved st"
  "st_lastApproved (with_plan a f st) = st_lastApproved st"
  by (simp_all add: add_plan_def with_plan_def plan_at_def)

lemma evolves_lastApproved [simp]: "evolves s (t\<lparr>st_lastApproved := x\<rparr>) \<longleftrightarrow> evolves s t"
  by (simp add: evolves_def)

lemma evolves_with_plan: "plan_evolves (plan_at st a) (f (plan_at st a)) \<Longrightarrow> evolves st (with_plan a f st)"
  by (cases "a < length (st_heap st)") (auto simp: evolves_def heap_evolves_def nth_list_update plan_at_def)

lemma evolves_add_plan [simp]: "evolves st (add_plan p pl st)"
  by (auto simp: evolves_def heap_evolves_def nth_append)

lemma evolves_add_heap [simp]: "evolves st (st\<lparr>st_heap := st_heap st @ [pl]\<rparr>)"
  by (auto simp: evolves_def heap_evolves_def nth_append)

lemma superseded_evolves [simp]: "plan_evolves p (p\<lparr>pl_status := Superseded\<rparr>)"
  by (cases "pl_status p") (simp_all add: plan_evolves_def plan_content_def)

lemma evolves_supersede [simp]: "evolves st (supersede_open a st)"
  by (simp add: supersede_open_def evolves_with_plan)

lemma evolves_supersede_all [simp]: "evolves st (fold supersede_open l st)"
proof (induction l arbitrary: st)
  case (Cons a l)
  show ?case using evolves_trans [OF evolves_supersede Cons.IH] by simp
qed simp

subsection \<open>Well-formed stores\<close>

definition plans_ok :: "plan_store \<Rightarrow> bool" where
  "plans_ok st \<longleftrightarrow>
     (\<forall>k. \<forall>a \<in> set (versions_of st k). a < length (st_heap st) \<and> pl_planId (plan_at st a) = k) \<and>
     (\<forall>k. map (\<lambda>a. pl_version (plan_at st a)) (versions_of st k) =
          map (\<lambda>n. of_nat n + 1) [0 ..< length (versions_of st k)]) \<and>
     (\<forall>a. st_lastApproved st = Some a \<longrightarrow> a < length (st_heap st) \<and> pl_status (plan_at st a) = Approved)"

lemma plans_okD:
  assumes "plans_ok st"
  shows "a \<in> set (versions_of st k) \<Longrightarrow> a < length (st_heap st) \<and> pl_planId (plan_at st a) = k"
    "map (\<lambda>a. pl_version (plan_at st a)) (versions_of st k) =
     map (\<lambda>n. of_nat n + 1) [0 ..< length (versions_of st k)]"
    "st_lastApproved st = Some a \<Longrightarrow> a < length (st_heap st) \<and> pl_status (plan_at st a) = Approved"
  using assms unfolding plans_ok_def by blast+

lemma content_select:
  "pl_planId (plan_content p) = pl_planId p" "pl_version (plan_content p) = pl_version p"
  "pl_steps (plan_content p) = pl_steps p" "pl_goal (plan_content p) = pl_goal p"
  "pl_acceptanceCriteria (plan_content p) = pl_acceptanceCriteria p"
  by (simp_all add: plan_content_def)

lemma content_fields:
  "plan_content p = plan_content q \<Longrightarrow> pl_planId p = pl_planId q \<and> pl_version p = pl_version q \<and>
   pl_steps p = pl_steps q \<and> pl_goal p = pl_goal q \<and> pl_acceptanceCriteria p = pl_acceptanceCriteria q"
  by (metis content_select)

text \<open>Changing a mark of one plan, or adding a plan with the next number, keeps the store well formed.\<close>

lemma plans_ok_same_versions:
  assumes "plans_ok st" "evolves st st'" "\<And>k. versions_of st' k = versions_of st k"
    "\<And>a. st_lastApproved st' = Some a \<Longrightarrow> a < length (st_heap st') \<and> pl_status (plan_at st' a) = Approved"
  shows "plans_ok st'"
proof -
  have same: "a < length (st_heap st') \<and> pl_planId (plan_at st' a) = pl_planId (plan_at st a) \<and>
      pl_version (plan_at st' a) = pl_version (plan_at st a)" if "a \<in> set (versions_of st k)" for a k
  proof -
    have a: "a < length (st_heap st)" using plans_okD(1) [OF assms(1) that] by simp
    then have b: "a < length (st_heap st')" "plan_content (plan_at st' a) = plan_content (plan_at st a)"
      using assms(2) unfolding evolves_def heap_evolves_def plan_evolves_def plan_at_def by auto
    show ?thesis using b(1) content_fields [OF b(2)] by simp
  qed
  then have "map (\<lambda>a. pl_version (plan_at st' a)) (versions_of st k) =
      map (\<lambda>a. pl_version (plan_at st a)) (versions_of st k)" for k
    by (intro map_cong) auto
  then show ?thesis
    using same assms(3, 4) plans_okD(1) [OF assms(1)] plans_okD(2) [OF assms(1)]
    unfolding plans_ok_def by (intro conjI allI ballI impI) simp_all
qed

lemma plans_ok_add:
  assumes "plans_ok st" "pl_planId pl = k" "pl_version pl = of_nat (length (versions_of st k)) + 1"
  shows "plans_ok (add_plan k pl st)"
proof -
  have old: "plan_at (add_plan k pl st) a = plan_at st a" if "a < length (st_heap st)" for a
    using that by (simp add: plan_at_def nth_append)
  have new: "plan_at (add_plan k pl st) (length (st_heap st)) = pl" by (simp add: plan_at_def)
  have "map (\<lambda>a. pl_version (plan_at (add_plan k pl st) a)) (versions_of st j) =
      map (\<lambda>a. pl_version (plan_at st a)) (versions_of st j)" for j
    using plans_okD(1) [OF assms(1)] old by (intro map_cong) auto
  then show ?thesis
    using plans_okD [OF assms(1)] assms(2, 3) old new unfolding plans_ok_def
    by (auto simp: less_Suc_eq)
qed

subsection \<open>Every operation keeps the store well formed and only moves plans forward\<close>

lemma mustGet_Inr:
  "mustGet st p v = Inr a \<Longrightarrow> a \<in> set (versions_of st p) \<and> pl_version (plan_at st a) = v \<and> get_plan st p v = Some a"
  by (auto simp: mustGet_def get_plan_def find_Some_iff split: option.splits)

lemma plan_at_with [simp]:
  "a < length (st_heap st) \<Longrightarrow> plan_at (with_plan a f st) b = (if b = a then f (plan_at st a) else plan_at st b)"
  by (auto simp: plan_at_def)

lemma plan_at_lastApproved [simp]: "plan_at (st\<lparr>st_lastApproved := x\<rparr>) a = plan_at st a"
  by (simp add: plan_at_def)

lemma supersede_frame [simp]:
  "versions_of (supersede_open a st) k = versions_of st k"
  "st_lastApproved (supersede_open a st) = st_lastApproved st"
  "length (st_heap (supersede_open a st)) = length (st_heap st)"
  by (simp_all add: supersede_open_def)

lemma supersede_ok:
  assumes "plans_ok st" "a < length (st_heap st)"
  shows "plans_ok (supersede_open a st)"
  using assms plans_okD(3) [OF assms(1)]
  by (intro plans_ok_same_versions [OF assms(1)]) (auto simp: supersede_open_def intro!: evolves_with_plan)

lemma supersede_all_ok:
  "plans_ok st \<Longrightarrow> \<forall>a \<in> set l. a < length (st_heap st) \<Longrightarrow>
   plans_ok (fold supersede_open l st) \<and> (\<forall>k. versions_of (fold supersede_open l st) k = versions_of st k)"
proof (induction l arbitrary: st)
  case (Cons a l)
  from Cons.IH [of "supersede_open a st"] Cons.prems show ?case by (simp add: supersede_ok)
qed simp

lemma createVersion_ok:
  assumes "plans_ok st"
  shows "plans_ok (createVersion nextId now input st)" "evolves st (createVersion nextId now input st)"
proof -
  let ?p = "or_else (cv_planId input) nextId"
  have s: "plans_ok (fold supersede_open (versions_of st ?p) st)"
    "versions_of (fold supersede_open (versions_of st ?p) st) k = versions_of st k" for k
    using supersede_all_ok [OF assms, of "versions_of st ?p"] plans_okD(1) [OF assms] by auto
  show "plans_ok (createVersion nextId now input st)"
    unfolding createVersion_def Let_def by (rule plans_ok_add [OF s(1)]) (simp_all add: drafted_def s(2))
  show "evolves st (createVersion nextId now input st)"
    unfolding createVersion_def Let_def by (rule evolves_trans [OF evolves_supersede_all evolves_add_plan])
qed

lemma mark_step:
  assumes "plans_ok st" "mustGet st p v = Inr a" "plan_evolves (plan_at st a) (f (plan_at st a))"
    "\<And>b. x = Some b \<Longrightarrow> if b = a then pl_status (f (plan_at st a)) = Approved else st_lastApproved st = Some b"
  shows "plans_ok ((with_plan a f st)\<lparr>st_lastApproved := x\<rparr>) \<and> evolves st ((with_plan a f st)\<lparr>st_lastApproved := x\<rparr>)"
proof -
  have a: "a < length (st_heap st)" using plans_okD(1) [OF assms(1)] mustGet_Inr [OF assms(2)] by blast
  have ev: "evolves st ((with_plan a f st)\<lparr>st_lastApproved := x\<rparr>)" using assms(3) by (simp add: evolves_with_plan)
  have "plans_ok ((with_plan a f st)\<lparr>st_lastApproved := x\<rparr>)"
  proof (rule plans_ok_same_versions [OF assms(1) ev])
    fix b
    assume "st_lastApproved (with_plan a f st\<lparr>st_lastApproved := x\<rparr>) = Some b"
    then have "x = Some b" by simp
    then show "b < length (st_heap (with_plan a f st\<lparr>st_lastApproved := x\<rparr>)) \<and>
        pl_status (plan_at (with_plan a f st\<lparr>st_lastApproved := x\<rparr>) b) = Approved"
      using assms(4) [of b] a plans_okD(3) [OF assms(1), of b] by (auto split: if_splits)
  qed simp
  with ev show ?thesis by blast
qed

lemma lastApproved_same: "s\<lparr>st_lastApproved := st_lastApproved s\<rparr> = s"
  by simp

lemma awaiting_ok:
  assumes "plans_ok st" "markAwaitingApproval p v st = Inr st'"
  shows "plans_ok st' \<and> evolves st st'"
proof -
  let ?f = "\<lambda>q. q\<lparr>pl_status := Awaiting_approval\<rparr>"
  obtain a where a: "mustGet st p v = Inr a" "pl_status (plan_at st a) = Draft" "st' = with_plan a ?f st"
    using assms(2) by (auto simp: markAwaitingApproval_def bind_res_Inr_iff)
  have "plans_ok ((with_plan a ?f st)\<lparr>st_lastApproved := st_lastApproved st\<rparr>) \<and>
      evolves st ((with_plan a ?f st)\<lparr>st_lastApproved := st_lastApproved st\<rparr>)"
    using a plans_okD(3) [OF assms(1), of a]
    by (intro mark_step [OF assms(1) a(1)]) (auto simp: plan_evolves_def plan_content_def)
  moreover have "(with_plan a ?f st)\<lparr>st_lastApproved := st_lastApproved st\<rparr> = with_plan a ?f st"
    by (simp add: with_plan_def)
  ultimately show ?thesis using a(3) by simp
qed

lemma approved_ok:
  assumes "plans_ok st" "markApproved now p v tok st = Inr st'"
  shows "plans_ok st' \<and> evolves st st'"
proof -
  obtain a where a: "mustGet st p v = Inr a" "pl_status (plan_at st a) = Awaiting_approval"
    "st' = (with_plan a (\<lambda>q. q\<lparr>pl_status := Approved, pl_approvedAt := Some now,
        pl_approvalTokenId := Some tok\<rparr>) st)\<lparr>st_lastApproved := Some a\<rparr>"
    using assms(2) by (auto simp: markApproved_def bind_res_Inr_iff)
  show ?thesis
    unfolding a(3) using a(2) by (intro mark_step [OF assms(1) a(1)]) (auto simp: plan_evolves_def plan_content_def)
qed

lemma superseded_ok:
  assumes "plans_ok st" "markSuperseded p v st = Inr st'"
  shows "plans_ok st' \<and> evolves st st'"
proof -
  let ?f = "\<lambda>q. q\<lparr>pl_status := Superseded\<rparr>"
  obtain a where a: "mustGet st p v = Inr a"
    "st' = (if pl_status (plan_at st a) = Superseded then st
        else if st_lastApproved st = Some a then (with_plan a ?f st)\<lparr>st_lastApproved := None\<rparr> else with_plan a ?f st)"
    using assms(2) by (auto simp: markSuperseded_def bind_res_Inr_iff Let_def)
  have step: "plans_ok ((with_plan a ?f st)\<lparr>st_lastApproved := x\<rparr>) \<and> evolves st ((with_plan a ?f st)\<lparr>st_lastApproved := x\<rparr>)"
    if "\<And>b. x = Some b \<Longrightarrow> b \<noteq> a \<and> st_lastApproved st = Some b" for x
    using that by (intro mark_step [OF assms(1) a(1)]) auto
  have "with_plan a ?f st = (with_plan a ?f st)\<lparr>st_lastApproved := st_lastApproved st\<rparr>"
    by (simp add: with_plan_def)
  with step [of "st_lastApproved st"] have "st_lastApproved st \<noteq> Some a \<Longrightarrow>
      plans_ok (with_plan a ?f st) \<and> evolves st (with_plan a ?f st)" by auto
  with step [of None] assms(1) show ?thesis using a(2) by auto
qed

lemma find_index_Some: "find_index P xs = Some i \<Longrightarrow> i < length xs \<and> P (xs ! i)"
  by (induction xs arbitrary: i) (auto split: if_splits)

lemma repair_success:
  assumes "createLocalRepair c ap input st = Inr st'"
  obtains a i where "mustGet st (li_planId input) (li_version input) = Inr a"
    "pl_status (plan_at st a) = Approved" "st_lastApproved st = Some a"
    "i < length (pl_steps (plan_at st a))" "ps_id (pl_steps (plan_at st a) ! i) = li_stepId input"
    "\<forall>f \<in> set (or_else (rr_files (li_replacement input)) (ps_files (pl_steps (plan_at st a) ! i))).
       f \<in> set (plan_files (plan_at st a))"
    "st' = install_repair a (repaired_plan (plan_at st a) (length (versions_of st (li_planId input))) i input c ap)
       (li_planId input) st"
  using assms
  unfolding createLocalRepair_def Let_def bind_res_Inr_iff
  by (elim exE conjE) (simp add: list_all_iff split: option.splits, blast dest: find_index_Some)

lemma set_last_ok:
  "plans_ok st \<Longrightarrow> a < length (st_heap st) \<Longrightarrow> pl_status (plan_at st a) = Approved \<Longrightarrow>
   plans_ok (st\<lparr>st_lastApproved := Some a\<rparr>)"
  by (rule plans_ok_same_versions [of st]) auto

lemma add_plan_last: "(add_plan p pl (s\<lparr>st_lastApproved := x\<rparr>))\<lparr>st_lastApproved := y\<rparr> = (add_plan p pl s)\<lparr>st_lastApproved := y\<rparr>"
  by (simp add: add_plan_def versions_of_def)

lemma repair_ok:
  assumes "plans_ok st" "createLocalRepair c ap input st = Inr st'"
  shows "plans_ok st' \<and> evolves st st'"
proof -
  from assms(2) obtain a i where a: "mustGet st (li_planId input) (li_version input) = Inr a"
    "st' = install_repair a (repaired_plan (plan_at st a) (length (versions_of st (li_planId input))) i input c ap)
       (li_planId input) st"
    by (rule repair_success)
  let ?pl = "repaired_plan (plan_at st a) (length (versions_of st (li_planId input))) i input c ap"
  let ?s = "(with_plan a (\<lambda>q. q\<lparr>pl_status := Superseded\<rparr>) st)\<lparr>st_lastApproved := None\<rparr>"
  have s: "plans_ok ?s" "evolves st ?s"
    using mark_step [OF assms(1) a(1), of "\<lambda>q. q\<lparr>pl_status := Superseded\<rparr>" None] by auto
  have "plans_ok (add_plan (li_planId input) ?pl ?s)"
    using plans_okD(1) [OF assms(1)] mustGet_Inr [OF a(1)]
    by (intro plans_ok_add [OF s(1)]) (auto simp: repaired_plan_def)
  then have "plans_ok ((add_plan (li_planId input) ?pl ?s)\<lparr>st_lastApproved := Some (length (st_heap st))\<rparr>)"
    by (rule set_last_ok) (simp_all add: plan_at_def repaired_plan_def nth_append)
  moreover have "evolves st ((add_plan (li_planId input) ?pl ?s)\<lparr>st_lastApproved := Some (length (st_heap st))\<rparr>)"
    using evolves_trans [OF s(2)] by simp
  moreover have "st' = (add_plan (li_planId input) ?pl ?s)\<lparr>st_lastApproved := Some (length (st_heap st))\<rparr>"
    unfolding a(2) install_repair_def Let_def by (simp only: add_plan_last)
  ultimately show ?thesis by simp
qed

text \<open>A restored version is one the store knows, or the next of its plan.\<close>

definition restorable :: "plan_version \<Rightarrow> plan_store \<Rightarrow> bool" where
  "restorable pl st \<longleftrightarrow> get_plan st (pl_planId pl) (pl_version pl) \<noteq> None \<or>
     pl_version pl = of_nat (length (versions_of st (pl_planId pl))) + 1"

lemma get_plan_None_iff: "get_plan st p v = None \<longleftrightarrow> (\<forall>a \<in> set (versions_of st p). pl_version (plan_at st a) \<noteq> v)"
  by (auto simp: get_plan_def find_None_iff)

lemma add_heap_ok:
  assumes "plans_ok st"
  shows "plans_ok (st\<lparr>st_heap := st_heap st @ [pl]\<rparr>)"
  using plans_okD(3) [OF assms]
  by (intro plans_ok_same_versions [OF assms]) (auto simp: plan_at_def nth_append)

lemma restore_ok:
  assumes "plans_ok st" "restorable pl st"
  shows "plans_ok (restore_plan pl st) \<and> evolves st (restore_plan pl st)"
proof -
  let ?known = "list_ex (\<lambda>a. pl_version (plan_at st a) = pl_version pl) (versions_of st (pl_planId pl))"
  let ?s = "if ?known then st\<lparr>st_heap := st_heap st @ [pl]\<rparr> else add_plan (pl_planId pl) pl st"
  have s: "plans_ok ?s" "evolves st ?s"
    using assms add_heap_ok plans_ok_add [OF assms(1), of pl]
    by (auto simp: restorable_def get_plan_None_iff list_ex_iff)
  have "plans_ok (?s\<lparr>st_lastApproved := Some (length (st_heap st))\<rparr>)" if "pl_status pl = Approved"
    using that s by (intro set_last_ok) (auto simp: plan_at_def nth_append)
  then show ?thesis using s by (simp add: restore_plan_def Let_def split del: if_split) auto
qed

subsection \<open>Sessions\<close>

datatype plan_op =
    Create_version string string create_version_input
  | Local_repair string string local_repair_input
  | Mark_awaiting string number
  | Mark_approved string string number string
  | Mark_superseded string number
  | Restore_plan plan_version

definition unless_error :: "'s \<Rightarrow> 's res \<Rightarrow> 's" where
  "unless_error st m = (case m of Inl e \<Rightarrow> st | Inr s \<Rightarrow> s)"

text \<open>
  An operation that throws has changed nothing. A restore is one of a journal, which lists
  the versions of a plan in the order they were created.
\<close>

fun plan_step :: "plan_store \<Rightarrow> plan_op \<Rightarrow> plan_store res" where
  "plan_step st (Create_version n now input) = Inr (createVersion n now input st)"
| "plan_step st (Local_repair c ap input) = Inr (unless_error st (createLocalRepair c ap input st))"
| "plan_step st (Mark_awaiting p v) = Inr (unless_error st (markAwaitingApproval p v st))"
| "plan_step st (Mark_approved now p v tok) = Inr (unless_error st (markApproved now p v tok st))"
| "plan_step st (Mark_superseded p v) = Inr (unless_error st (markSuperseded p v st))"
| "plan_step st (Restore_plan pl) =
     guard_res (\<not> restorable pl st) (JsError ''a journal lists plan versions in order'') (Inr (restore_plan pl st))"

lemma plan_step_ok: "plans_ok st \<Longrightarrow> plan_step st op = Inr st' \<Longrightarrow> plans_ok st' \<and> evolves st st'"
  by (cases op)
    (auto simp: unless_error_def split: sum.splits
      dest: repair_ok awaiting_ok approved_ok superseded_ok restore_ok intro: createVersion_ok)

interpretation plans: invariant_machine plan_step "\<lambda>op. True" "\<lambda>st. plans_ok st \<and> evolves st0 st" for st0
  by unfold_locales (metis evolves_trans plan_step_ok)

lemma empty_plans_ok: "plans_ok empty_plans"
  by (simp add: plans_ok_def empty_plans_def versions_of_def obj_get_def)

lemma plans_run:
  "run_steps plan_step st ops = Inr st' \<Longrightarrow> plans_ok st \<Longrightarrow> plans_ok st' \<and> evolves st st'"
  using plans.inv_run [of st ops st' st] by (simp add: list_all_iff)

lemma plans_reachable: "run_steps plan_step empty_plans ops = Inr st \<Longrightarrow> plans_ok st"
  using plans_run empty_plans_ok by blast

lemma find_prefix:
  "List.find P xs = Some a \<Longrightarrow> (\<And>x. x \<in> set xs \<Longrightarrow> P x = Q x) \<Longrightarrow> List.find Q (xs @ ys) = Some a"
  by (induction xs) (auto split: if_splits)

lemma get_plan_stable:
  assumes "plans_ok st" "evolves st st'" "get_plan st p v = Some a"
  shows "get_plan st' p v = Some a" "plan_evolves (plan_at st a) (plan_at st' a)"
    "pl_planId (plan_at st a) = p" "pl_version (plan_at st a) = v" "a < length (st_heap st)"
proof -
  have a: "a \<in> set (versions_of st p)" "pl_version (plan_at st a) = v"
    using assms(3) by (auto simp: get_plan_def find_Some_iff)
  show "pl_planId (plan_at st a) = p" "pl_version (plan_at st a) = v" "a < length (st_heap st)"
    using plans_okD(1) [OF assms(1) a(1)] a(2) by auto
  then show "plan_evolves (plan_at st a) (plan_at st' a)"
    using assms(2) by (simp add: evolves_def heap_evolves_def plan_at_def)
  obtain l where l: "versions_of st' p = versions_of st p @ l" using assms(2) by (auto simp: evolves_def)
  have "(pl_version (plan_at st b) = v) = (pl_version (plan_at st' b) = v)" if "b \<in> set (versions_of st p)" for b
  proof -
    have "b < length (st_heap st)" using plans_okD(1) [OF assms(1) that] by simp
    then have "plan_content (plan_at st' b) = plan_content (plan_at st b)"
      using assms(2) by (simp add: evolves_def heap_evolves_def plan_at_def plan_evolves_def)
    from content_fields [OF this] show ?thesis by simp
  qed
  then show "get_plan st' p v = Some a"
    unfolding get_plan_def l by (rule find_prefix [OF assms(3) [unfolded get_plan_def]])
qed

text \<open>
  C35: what was proposed is what gets approved and carried out. Once a session can look up a
  version of a plan, it finds the same object for that plan and number for ever; nothing but
  the marks of its life cycle changes in it, and those only move forward, from draft to
  awaiting approval, approved and superseded. The plan the store calls last approved is
  approved.
\<close>

theorem plan_versions_immutable:
  assumes "run_steps plan_step empty_plans ops = Inr st" "run_steps plan_step st later = Inr st'"
    "get_plan st p v = Some a"
  shows "get_plan st' p v = Some a \<and> plan_content (plan_at st' a) = plan_content (plan_at st a) \<and>
    status_rank (pl_status (plan_at st a)) \<le> status_rank (pl_status (plan_at st' a)) \<and>
    pl_planId (plan_at st' a) = p \<and> pl_version (plan_at st' a) = v \<and>
    (\<forall>b. st_lastApproved st' = Some b \<longrightarrow> pl_status (plan_at st' b) = Approved)"
proof -
  have ok: "plans_ok st" using assms(1) by (rule plans_reachable)
  have later: "plans_ok st'" "evolves st st'" using plans_run [OF assms(2) ok] by auto
  note g = get_plan_stable [OF ok later(2) assms(3)]
  have "pl_planId (plan_at st' a) = p \<and> pl_version (plan_at st' a) = v"
    using get_plan_stable(3, 4) [OF later(1) evolves_refl g(1)] by simp
  with g(1, 2) plans_okD(3) [OF later(1)] show ?thesis by (simp add: plan_evolves_def)
qed

definition demo_step :: plan_step where
  "demo_step = \<lparr>ps_id = ''s1'', ps_title = ''t'', ps_description = ''d'', ps_files = [''a.ts''], ps_dependsOn = [],
     ps_expectedOutcome = ''o''\<rparr>"

definition demo_version_input :: create_version_input where
  "demo_version_input = \<lparr>cv_planId = Some ''p'', cv_goal = ''g'', cv_nonGoals = None, cv_assumptions = None,
     cv_decisions = None, cv_steps = Some [demo_step], cv_acceptanceCriteria = None, cv_risks = None\<rparr>"

definition demo_plan :: plan_version where
  "demo_plan = (drafted ''p'' 0 demo_version_input ''0'')\<lparr>pl_status := Approved, pl_approvedAt := Some ''1'',
     pl_approvalTokenId := Some ''tok''\<rparr>"

definition demo_plans :: plan_store where
  "demo_plans = \<lparr>st_heap = [demo_plan], st_plans = [(''p'', [0])], st_lastApproved = Some 0\<rparr>"

definition demo_plan_ops :: "plan_op list" where
  "demo_plan_ops = [Create_version ''p'' ''0'' demo_version_input, Mark_awaiting ''p'' 1, Mark_approved ''1'' ''p'' 1 ''tok'']"

lemmas demo_plan_defs = createVersion_def drafted_def demo_version_input_def
  empty_plans_def versions_of_def add_plan_def obj_get_def unless_error_def markAwaitingApproval_def
  markApproved_def mustGet_def get_plan_def plan_at_def with_plan_def Let_def

lemma demo_plans_run: "run_steps plan_step empty_plans demo_plan_ops = Inr demo_plans"
  by (simp add: demo_plan_ops_def demo_plans_def demo_plan_def demo_plan_defs)

lemma demo_plans_get: "get_plan demo_plans ''p'' 1 = Some 0" "plan_at demo_plans 0 = demo_plan"
  by (simp_all add: demo_plans_def demo_plan_def demo_plan_defs)

lemma demo_supersede: "run_steps plan_step demo_plans [Mark_superseded ''p'' 1] =
    Inr (demo_plans\<lparr>st_heap := [demo_plan\<lparr>pl_status := Superseded\<rparr>], st_lastApproved := None\<rparr>)"
  by (simp add: markSuperseded_def mustGet_def demo_plans_get unless_error_def with_plan_def)
    (simp add: demo_plan_def demo_plans_def Let_def)

theorem plan_versions_immutable_witness:
  "get_plan (demo_plans\<lparr>st_heap := [demo_plan\<lparr>pl_status := Superseded\<rparr>], st_lastApproved := None\<rparr>) ''p'' 1 = Some 0"
  using plan_versions_immutable [OF demo_plans_run demo_supersede demo_plans_get(1)] by blast

text \<open>The number after the last one is free.\<close>

lemma next_version_free:
  assumes "plans_ok st"
  shows "get_plan st p (of_nat (length (versions_of st p)) + 1) = None"
proof -
  have "pl_version (plan_at st a) \<noteq> of_nat (length (versions_of st p)) + 1" if "a \<in> set (versions_of st p)" for a
  proof -
    have "pl_version (plan_at st a) \<in> set (map (\<lambda>a. pl_version (plan_at st a)) (versions_of st p))"
      using that by simp
    then show ?thesis unfolding plans_okD(2) [OF assms] by auto
  qed
  then show ?thesis by (simp add: get_plan_None_iff)
qed

lemma find_snoc: "List.find P xs = None \<Longrightarrow> P y \<Longrightarrow> List.find P (xs @ [y]) = Some y"
  by (induction xs) (auto split: if_splits)

lemma get_plan_add:
  assumes "plans_ok st" "get_plan st k v = None" "pl_version pl = v"
  shows "get_plan (add_plan k pl st) k v = Some (length (st_heap st))"
proof -
  have "pl_version (plan_at (add_plan k pl st) a) \<noteq> v" if "a \<in> set (versions_of st k)" for a
    using that assms(2) plans_okD(1) [OF assms(1) that] by (simp add: get_plan_None_iff plan_at_def nth_append)
  then have "List.find (\<lambda>a. pl_version (plan_at (add_plan k pl st) a) = v) (versions_of st k) = None"
    by (simp add: find_None_iff)
  then show ?thesis
    using assms(3) by (simp add: get_plan_def find_snoc plan_at_def)
qed

lemma repaired_files:
  assumes "i < length (pl_steps old)"
    "\<forall>f \<in> set (or_else (rr_files (li_replacement input)) (ps_files (pl_steps old ! i))). f \<in> set (plan_files old)"
  shows "set (plan_files (repaired_plan old n i input c ap)) \<subseteq> set (plan_files old)"
  using assms set_update_subset_insert [of "pl_steps old" i]
  by (fastforce simp: plan_files_def repaired_plan_def repaired_step_def)

text \<open>
  A local repair is bounded. It succeeds only on the plan version that is approved and
  active, and installs a version with the next free number, which becomes the active approved
  plan while the old one is superseded. The new version has the goal and the acceptance
  criteria of the approved one, the same steps with the same ids and dependencies, except
  that the step the caller names has a new text, and touches no file outside the approved
  scope.
\<close>

theorem local_repair_bounded:
  assumes "run_steps plan_step empty_plans ops = Inr st" "createLocalRepair c ap input st = Inr st'"
  shows "\<exists>a b. get_plan st (li_planId input) (li_version input) = Some a \<and> st_lastApproved st = Some a \<and>
    pl_status (plan_at st a) = Approved \<and> pl_status (plan_at st' a) = Superseded \<and>
    st_lastApproved st' = Some b \<and> pl_status (plan_at st' b) = Approved \<and>
    (\<exists>n. get_plan st (li_planId input) n = None \<and> get_plan st' (li_planId input) n = Some b) \<and>
    pl_goal (plan_at st' b) = pl_goal (plan_at st a) \<and>
    pl_acceptanceCriteria (plan_at st' b) = pl_acceptanceCriteria (plan_at st a) \<and>
    map ps_id (pl_steps (plan_at st' b)) = map ps_id (pl_steps (plan_at st a)) \<and>
    map ps_dependsOn (pl_steps (plan_at st' b)) = map ps_dependsOn (pl_steps (plan_at st a)) \<and>
    (\<forall>i < length (pl_steps (plan_at st a)). ps_id (pl_steps (plan_at st a) ! i) \<noteq> li_stepId input \<longrightarrow>
       pl_steps (plan_at st' b) ! i = pl_steps (plan_at st a) ! i) \<and>
    set (plan_files (plan_at st' b)) \<subseteq> set (plan_files (plan_at st a))"
proof -
  have ok: "plans_ok st" using assms(1) by (rule plans_reachable)
  let ?p = "li_planId input" and ?n = "of_nat (length (versions_of st (li_planId input))) + 1 :: number"
  let ?b = "length (st_heap st)"
  from assms(2) obtain a i where a: "mustGet st ?p (li_version input) = Inr a"
    "pl_status (plan_at st a) = Approved" "st_lastApproved st = Some a" "i < length (pl_steps (plan_at st a))"
    "ps_id (pl_steps (plan_at st a) ! i) = li_stepId input"
    "\<forall>f \<in> set (or_else (rr_files (li_replacement input)) (ps_files (pl_steps (plan_at st a) ! i))).
       f \<in> set (plan_files (plan_at st a))"
    "st' = install_repair a (repaired_plan (plan_at st a) (length (versions_of st ?p)) i input c ap) ?p st"
    by (rule repair_success)
  let ?new = "repaired_plan (plan_at st a) (length (versions_of st ?p)) i input c ap"
  let ?s = "with_plan a (\<lambda>q. q\<lparr>pl_status := Superseded\<rparr>) st"
  have lt: "a < length (st_heap st)" using plans_okD(3) [OF ok a(3)] by simp
  have new: "plan_at st' ?b = ?new" "plan_at st' a = (plan_at st a)\<lparr>pl_status := Superseded\<rparr>"
    "st_lastApproved st' = Some ?b"
    using lt by (simp_all add: a(7) install_repair_def Let_def plan_at_def nth_append)
  have s: "plans_ok (?s\<lparr>st_lastApproved := None\<rparr>)"
    using mark_step [OF ok a(1), of "\<lambda>q. q\<lparr>pl_status := Superseded\<rparr>" None] by auto
  have "get_plan (?s\<lparr>st_lastApproved := None\<rparr>) ?p ?n = None" using next_version_free [OF s, of ?p] by simp
  from get_plan_add [OF s this, of ?new]
  have "get_plan ((add_plan ?p ?new (?s\<lparr>st_lastApproved := None\<rparr>))\<lparr>st_lastApproved := Some ?b\<rparr>) ?p ?n = Some ?b"
    by (simp add: get_plan_def repaired_plan_def)
  then have "get_plan st' ?p ?n = Some ?b"
    by (simp add: a(7) install_repair_def Let_def add_plan_last)
  moreover have "map ps_id (pl_steps ?new) = map ps_id (pl_steps (plan_at st a))"
    "map ps_dependsOn (pl_steps ?new) = map ps_dependsOn (pl_steps (plan_at st a))"
    using a(4) by (auto simp: repaired_plan_def repaired_step_def map_update intro!: list_update_same_conv [THEN iffD2])
  moreover have "pl_steps ?new ! j = pl_steps (plan_at st a) ! j"
    if "ps_id (pl_steps (plan_at st a) ! j) \<noteq> li_stepId input" for j
    using that a(5) by (cases "j = i") (auto simp: repaired_plan_def)
  moreover have "pl_goal ?new = pl_goal (plan_at st a)" "pl_status ?new = Approved"
    "pl_acceptanceCriteria ?new = pl_acceptanceCriteria (plan_at st a)"
    by (simp_all add: repaired_plan_def)
  ultimately show ?thesis
    using a(2, 3) new mustGet_Inr [OF a(1)] next_version_free [OF ok, of ?p] repaired_files [OF a(4, 6)]
    by (intro exI [of _ a] exI [of _ ?b] conjI) auto
qed

definition demo_repair :: local_repair_input where
  "demo_repair = \<lparr>li_planId = ''p'', li_version = 1, li_stepId = ''s1'', li_reason = ''r'',
     li_replacement = \<lparr>rr_title = None, rr_description = ''new'', rr_files = Some [''a.ts''], rr_expectedOutcome = None\<rparr>\<rparr>"

theorem local_repair_bounded_witness:
  "\<exists>st'. createLocalRepair ''2'' ''2'' demo_repair demo_plans = Inr st' \<and> st_lastApproved st' \<noteq> st_lastApproved demo_plans"
proof -
  have "\<exists>st'. createLocalRepair ''2'' ''2'' demo_repair demo_plans = Inr st'"
    by (simp add: createLocalRepair_def demo_repair_def mustGet_def demo_plans_get)
      (simp add: demo_plan_def drafted_def demo_version_input_def demo_step_def demo_plans_def plan_files_def)
  then obtain st' where st': "createLocalRepair ''2'' ''2'' demo_repair demo_plans = Inr st'" ..
  from local_repair_bounded [OF demo_plans_run st'] st' show ?thesis
    by (auto simp: demo_repair_def)
qed

end
