(* ===== verification/Approvals.thy ===== *)
theory Approvals
  imports Plans
begin

text \<open>
  One-shot approval tokens (the class ApprovalRegistry of planning/PlanStore.ts). The random
  token text and the clock are arguments. \<open>Date\<close>'s ISO text and its parsing are parameters
  with the law that parsing the text of a time gives the time back.
\<close>

record date_lib =
  iso_of :: "number \<Rightarrow> string"
  ms_of :: "string \<Rightarrow> number"

definition date_laws :: "date_lib \<Rightarrow> bool" where
  "date_laws D \<longleftrightarrow> (\<forall>x. is_non_negative_integer x \<longrightarrow> iso_of D x \<noteq> [] \<and> ms_of D (iso_of D x) = x)"

type_synonym registry = "approval_token jsobj"

definition DEFAULT_TTL_MS :: number where "DEFAULT_TTL_MS = 600000"

definition issue :: "date_lib \<Rightarrow> number option \<Rightarrow> string \<Rightarrow> number \<Rightarrow> string \<Rightarrow> string \<Rightarrow> number \<Rightarrow> registry \<Rightarrow> registry" where
  "issue D ttlMs tok now sessionId planId planVersion reg =
     obj_set reg tok \<lparr>at_token = tok, at_sessionId = sessionId, at_planId = planId, at_planVersion = planVersion,
       at_issuedAt = iso_of D now, at_expiresAt = iso_of D (now + or_else ttlMs DEFAULT_TTL_MS),
       at_consumedAt = None\<rparr>"

datatype consume_problem = Unknown_token | Already_consumed | Token_expired | Bound_elsewhere

definition consume_problem_of ::
    "date_lib \<Rightarrow> string \<Rightarrow> number \<Rightarrow> string \<Rightarrow> string \<Rightarrow> number \<Rightarrow> registry \<Rightarrow> consume_problem + approval_token" where
  "consume_problem_of D tok now sessionId planId planVersion reg =
     (case obj_get reg tok of
        None \<Rightarrow> Inl Unknown_token
      | Some t \<Rightarrow>
          if truthy (at_consumedAt t) \<noteq> None then Inl Already_consumed
          else if ms_of D (at_expiresAt t) < now then Inl Token_expired
          else if at_sessionId t \<noteq> sessionId \<or> at_planId t \<noteq> planId \<or> at_planVersion t \<noteq> planVersion
               then Inl Bound_elsewhere else Inr t)"

definition consume ::
    "date_lib \<Rightarrow> string \<Rightarrow> number \<Rightarrow> string \<Rightarrow> string \<Rightarrow> number \<Rightarrow> registry \<Rightarrow> (consume_problem + approval_token) \<times> registry" where
  "consume D tok now sessionId planId planVersion reg =
     (case consume_problem_of D tok now sessionId planId planVersion reg of
        Inl e \<Rightarrow> (Inl e, reg)
      | Inr t \<Rightarrow> let u = t\<lparr>at_consumedAt := Some (iso_of D now)\<rparr> in (Inr u, obj_set reg tok u))"

subsection \<open>Histories of a registry\<close>

datatype approval_op =
    Issue string number string string number
  | Consume string number string string number

fun op_time :: "approval_op \<Rightarrow> number" where
  "op_time (Issue tok now s p v) = now"
| "op_time (Consume tok now s p v) = now"

fun approval_step :: "date_lib \<Rightarrow> number option \<Rightarrow> registry \<Rightarrow> approval_op \<Rightarrow> registry \<times> bool" where
  "approval_step D ttl reg (Issue tok now s p v) = (issue D ttl tok now s p v reg, False)"
| "approval_step D ttl reg (Consume tok now s p v) =
     (snd (consume D tok now s p v reg), (case fst (consume D tok now s p v reg) of Inl e \<Rightarrow> False | Inr t \<Rightarrow> True))"

definition approval_run :: "date_lib \<Rightarrow> number option \<Rightarrow> registry \<Rightarrow> approval_op list \<Rightarrow> registry" where
  "approval_run D ttl reg ops = fold (\<lambda>op r. fst (approval_step D ttl r op)) ops reg"

definition accepts :: "date_lib \<Rightarrow> number option \<Rightarrow> string \<Rightarrow> registry \<Rightarrow> approval_op \<Rightarrow> nat" where
  "accepts D ttl tok reg op =
     (case op of Consume k now s p v \<Rightarrow> (if k = tok \<and> snd (approval_step D ttl reg op) then 1 else 0) | _ \<Rightarrow> 0)"

fun acceptances :: "date_lib \<Rightarrow> number option \<Rightarrow> string \<Rightarrow> registry \<Rightarrow> approval_op list \<Rightarrow> nat" where
  "acceptances D ttl tok reg [] = 0"
| "acceptances D ttl tok reg (op # ops) =
     accepts D ttl tok reg op + acceptances D ttl tok (fst (approval_step D ttl reg op)) ops"

definition issues :: "string \<Rightarrow> approval_op \<Rightarrow> bool" where
  "issues tok op = (case op of Issue k now s p v \<Rightarrow> k = tok | _ \<Rightarrow> False)"

text \<open>A token that could still be accepted.\<close>

definition live :: "registry \<Rightarrow> string \<Rightarrow> nat" where
  "live reg tok = (case obj_get reg tok of None \<Rightarrow> 0 | Some t \<Rightarrow> if truthy (at_consumedAt t) = None then 1 else 0)"

lemma consume_ok:
  assumes "consume D tok now s p v reg = (Inr u, reg')"
  obtains t where "obj_get reg tok = Some t" "truthy (at_consumedAt t) = None" "now \<le> ms_of D (at_expiresAt t)"
    "at_sessionId t = s" "at_planId t = p" "at_planVersion t = v"
    "reg' = obj_set reg tok (t\<lparr>at_consumedAt := Some (iso_of D now)\<rparr>)"
  using assms by (auto simp: consume_def consume_problem_of_def Let_def split: option.splits if_splits sum.splits)

lemma consume_refused: "consume D tok now s p v reg = (Inl e, reg') \<Longrightarrow> reg' = reg"
  by (auto simp: consume_def Let_def split: sum.splits)

lemma live_step:
  assumes "date_laws D" "is_non_negative_integer (op_time op)"
  shows "accepts D ttl tok reg op + live (fst (approval_step D ttl reg op)) tok \<le> (if issues tok op then 1 else 0) + live reg tok"
proof (cases op)
  case (Issue k now s p v)
  then show ?thesis by (simp add: issue_def live_def issues_def accepts_def)
next
  case (Consume k now s p v)
  obtain r reg' where c: "consume D k now s p v reg = (r, reg')" by force
  show ?thesis
  proof (cases r)
    case (Inl e)
    then show ?thesis using Consume c consume_refused [of D k now s p v reg e reg'] by (simp add: issues_def accepts_def)
  next
    case (Inr u)
    from c [unfolded Inr] obtain t where t: "obj_get reg k = Some t" "truthy (at_consumedAt t) = None"
      "reg' = obj_set reg k (t\<lparr>at_consumedAt := Some (iso_of D now)\<rparr>)" by (rule consume_ok)
    have "iso_of D now \<noteq> []" using assms Consume by (simp add: date_laws_def)
    then have "truthy (Some (iso_of D now)) = Some (iso_of D now)" by (simp add: truthy_def)
    with t show ?thesis using Consume c Inr by (auto simp: live_def issues_def accepts_def)
  qed
qed

lemma acceptances_bound:
  assumes "date_laws D" "list_all (\<lambda>op. is_non_negative_integer (op_time op)) ops"
  shows "acceptances D ttl tok reg ops \<le> length (filter (issues tok) ops) + live reg tok"
  using assms(2)
proof (induction ops arbitrary: reg)
  case (Cons op ops)
  let ?r = "fst (approval_step D ttl reg op)"
  have "acceptances D ttl tok ?r ops \<le> length (filter (issues tok) ops) + live ?r tok"
    using Cons by simp
  moreover have "accepts D ttl tok reg op + live ?r tok \<le> (if issues tok op then 1 else 0) + live reg tok"
    using Cons.prems by (intro live_step [OF assms(1)]) simp
  ultimately show ?case by (cases "issues tok op") simp_all
qed simp

text \<open>Every token of the registry comes from an issue of the history.\<close>

definition issued_by :: "date_lib \<Rightarrow> number option \<Rightarrow> approval_op list \<Rightarrow> registry \<Rightarrow> bool" where
  "issued_by D ttl hist reg \<longleftrightarrow> (\<forall>tok t. obj_get reg tok = Some t \<longrightarrow>
     (\<exists>now. Issue tok now (at_sessionId t) (at_planId t) (at_planVersion t) \<in> set hist \<and>
        at_expiresAt t = iso_of D (now + or_else ttl DEFAULT_TTL_MS)))"

lemma issued_by_step:
  assumes "issued_by D ttl hist reg"
  shows "issued_by D ttl (hist @ [op]) (fst (approval_step D ttl reg op))"
proof (cases op)
  case (Issue k now s p v)
  then show ?thesis using assms by (auto simp: issued_by_def issue_def)
next
  case (Consume k now s p v)
  obtain r reg' where c: "consume D k now s p v reg = (r, reg')" by force
  show ?thesis
  proof (cases r)
    case (Inl e)
    then show ?thesis
      using assms Consume c consume_refused [of D k now s p v reg e reg'] by (auto simp: issued_by_def)
  next
    case (Inr u)
    from c [unfolded Inr] obtain t where "obj_get reg k = Some t"
      "reg' = obj_set reg k (t\<lparr>at_consumedAt := Some (iso_of D now)\<rparr>)" by (rule consume_ok)
    then show ?thesis using assms Consume c by (auto simp: issued_by_def)
  qed
qed

lemma issued_by_run: "issued_by D ttl hist reg \<Longrightarrow> issued_by D ttl (hist @ ops) (approval_run D ttl reg ops)"
proof (induction ops arbitrary: hist reg)
  case (Cons op ops)
  from Cons.IH [OF issued_by_step [OF Cons.prems], of op] show ?case by (simp add: approval_run_def)
qed (simp add: approval_run_def)

text \<open>
  C33: an approval is used once and for the plan the user saw. Over the whole life of a
  registry a token is accepted at most as often as it was issued; and where it is accepted,
  it was issued before for exactly that session, plan and version, and its time to live has
  not run out.
\<close>

theorem approval_one_shot:
  assumes "date_laws D" "list_all (\<lambda>op. is_non_negative_integer (op_time op)) ops"
    "is_non_negative_integer (or_else ttl DEFAULT_TTL_MS)"
  shows "acceptances D ttl tok [] ops \<le> length (filter (issues tok) ops) \<and>
    (\<forall>before now s p v later.
       ops = before @ Consume tok now s p v # later \<and>
       snd (approval_step D ttl (approval_run D ttl [] before) (Consume tok now s p v)) \<longrightarrow>
       (\<exists>issued. Issue tok issued s p v \<in> set before \<and> now \<le> issued + or_else ttl DEFAULT_TTL_MS))"
proof (intro conjI allI impI)
  show "acceptances D ttl tok [] ops \<le> length (filter (issues tok) ops)"
    using acceptances_bound [OF assms(1, 2), of ttl tok "[]"] by (simp add: live_def obj_get_def)
  fix before now s p v later
  let ?reg = "approval_run D ttl [] before"
  assume a: "ops = before @ Consume tok now s p v # later \<and> snd (approval_step D ttl ?reg (Consume tok now s p v))"
  then obtain u reg' where "consume D tok now s p v ?reg = (Inr u, reg')"
    by (cases "consume D tok now s p v ?reg") (auto split: sum.splits)
  then obtain t where t: "obj_get ?reg tok = Some t" "now \<le> ms_of D (at_expiresAt t)"
    "at_sessionId t = s" "at_planId t = p" "at_planVersion t = v" by (rule consume_ok)
  have "issued_by D ttl [] []" by (simp add: issued_by_def obj_get_def)
  from issued_by_run [OF this, of before] t obtain issued where i: "Issue tok issued s p v \<in> set before"
    "at_expiresAt t = iso_of D (issued + or_else ttl DEFAULT_TTL_MS)"
    by (force simp: issued_by_def)
  have "Issue tok issued s p v \<in> set ops" using a i(1) by simp
  then have "is_non_negative_integer issued" using assms(2) by (auto simp: list_all_iff)
  then have "is_non_negative_integer (issued + or_else ttl DEFAULT_TTL_MS)"
    using assms(3) by (simp add: is_non_negative_integer_def)
  then have "ms_of D (at_expiresAt t) = issued + or_else ttl DEFAULT_TTL_MS"
    using assms(1) i(2) by (simp add: date_laws_def)
  with t(2) i(1) show "\<exists>issued. Issue tok issued s p v \<in> set before \<and> now \<le> issued + or_else ttl DEFAULT_TTL_MS"
    by auto
qed

definition demo_dates :: date_lib where
  "demo_dates = \<lparr>iso_of = (\<lambda>x. replicate (Suc (nat \<lfloor>x\<rfloor>)) CHR ''.''), ms_of = (\<lambda>s. of_nat (length s) - 1)\<rparr>"

lemma demo_date_laws: "date_laws demo_dates"
  by (auto simp: date_laws_def demo_dates_def is_non_negative_integer_def is_integer_def)

theorem approval_one_shot_witness:
  "acceptances demo_dates (Some 5) ''k'' []
     [Issue ''k'' 1 ''s'' ''p'' 2, Consume ''k'' 3 ''s'' ''p'' 2, Consume ''k'' 4 ''s'' ''p'' 2] = 1"
proof -
  let ?ops = "[Issue ''k'' 1 ''s'' ''p'' 2, Consume ''k'' 3 ''s'' ''p'' 2, Consume ''k'' 4 ''s'' ''p'' (2::number)]"
  have "acceptances demo_dates (Some 5) ''k'' [] ?ops \<le> 1"
    using approval_one_shot [OF demo_date_laws, of ?ops "Some 5" "''k''"]
    by (simp add: issues_def is_non_negative_integer_def)
  moreover have "0 < acceptances demo_dates (Some 5) ''k'' [] ?ops"
    by (simp add: issue_def consume_def consume_problem_of_def obj_get_def demo_dates_def truthy_def
        accepts_def Let_def)
  ultimately show ?thesis by linarith
qed

end
