(* ===== verification/ToolCalls.thy ===== *)
theory ToolCalls
  imports Evidence EventMachine
begin

text \<open>
  The pairing ledger of one batch of tool calls (tools/ToolCallLedger.ts). The \<open>Map\<close> of
  entries is an association list in insertion order. A result id counts as present when it
  is truthy (\<open>if (entry.resultId)\<close>), so an empty id leaves the call open, while
  \<open>isCompleted\<close> only asks whether one was set.
\<close>

datatype ledger_status = Call_accepted | Call_queued | Call_running | Call_completed | Synthetic_error

record ledger_entry =
  le_call :: tool_call
  le_status :: ledger_status
  le_resultId :: "string option"

type_synonym call_ledger = "ledger_entry jsobj"

definition has_result :: "ledger_entry \<Rightarrow> bool" where
  "has_result e \<longleftrightarrow> truthy (le_resultId e) \<noteq> None"

definition accept :: "tool_call \<Rightarrow> call_ledger \<Rightarrow> call_ledger res" where
  "accept c l =
     guard_res (obj_get l (tc_id c) \<noteq> None) (InvariantError ''unique_tool_call_id'')
       (Inr (obj_set l (tc_id c) \<lparr>le_call = c, le_status = Call_accepted, le_resultId = None\<rparr>))"

definition must_get_call :: "call_ledger \<Rightarrow> string \<Rightarrow> ledger_entry res" where
  "must_get_call l k =
     (case obj_get l k of None \<Rightarrow> Inl (InvariantError ''ledger_unknown_call'') | Some e \<Rightarrow> Inr e)"

definition markRunning :: "string \<Rightarrow> call_ledger \<Rightarrow> call_ledger res" where
  "markRunning k l = bind_res (must_get_call l k) (\<lambda>e. Inr (obj_set l k (e\<lparr>le_status := Call_running\<rparr>)))"

definition complete_call :: "string \<Rightarrow> string \<Rightarrow> bool \<Rightarrow> call_ledger \<Rightarrow> call_ledger res" where
  "complete_call k rid synthetic l =
     bind_res (must_get_call l k) (\<lambda>e.
       guard_res (has_result e) (InvariantError ''single_terminal_tool_result'')
         (Inr (obj_set l k (e\<lparr>le_status := if synthetic then Synthetic_error else Call_completed,
                              le_resultId := Some rid\<rparr>))))"

definition isCompleted :: "call_ledger \<Rightarrow> string \<Rightarrow> bool" where
  "isCompleted l k \<longleftrightarrow> (case obj_get l k of None \<Rightarrow> False | Some e \<Rightarrow> le_resultId e \<noteq> None)"

definition openCalls :: "call_ledger \<Rightarrow> tool_call list" where
  "openCalls l = map le_call (filter (\<lambda>e. \<not> has_result e) (map snd l))"

definition synthetic_result :: "string \<Rightarrow> string \<Rightarrow> tool_call \<Rightarrow> tool_call_result" where
  "synthetic_result reason code c =
     \<lparr>tr_callId = tc_id c, tr_toolName = tc_name c, tr_ok = False, tr_content = Text_content reason,
      tr_errorCode = Some code, tr_durationMs = 0, tr_synthetic = Some True, tr_observation = None\<rparr>"

definition synthesize_entry :: "ledger_entry \<Rightarrow> ledger_entry" where
  "synthesize_entry e =
     (if has_result e then e
      else e\<lparr>le_status := Synthetic_error, le_resultId := Some (''synthetic:'' @ tc_id (le_call e))\<rparr>)"

definition synthesizeOpen :: "string \<Rightarrow> string \<Rightarrow> call_ledger \<Rightarrow> tool_call_result list \<times> call_ledger" where
  "synthesizeOpen reason code l =
     (map (synthetic_result reason code) (openCalls l), map (map_prod id synthesize_entry) l)"

subsection \<open>A batch of ledger operations\<close>

text \<open>
  The operations of a batch, and the call ids that received a terminal result in the order
  the results were issued.
\<close>

datatype ledger_op =
    Accept_call tool_call
  | Start_call string
  | Complete_call string string bool
  | Synthesize_open string string

type_synonym ledger_run = "call_ledger \<times> string list"

fun ledger_step :: "ledger_run \<Rightarrow> ledger_op \<Rightarrow> ledger_run res" where
  "ledger_step (l, out) (Accept_call c) = bind_res (accept c l) (\<lambda>l'. Inr (l', out))"
| "ledger_step (l, out) (Start_call k) = bind_res (markRunning k l) (\<lambda>l'. Inr (l', out))"
| "ledger_step (l, out) (Complete_call k rid synthetic) =
     bind_res (complete_call k rid synthetic l) (\<lambda>l'. Inr (l', out @ [k]))"
| "ledger_step (l, out) (Synthesize_open reason code) =
     (case synthesizeOpen reason code l of (rs, l') \<Rightarrow> Inr (l', out @ map tr_callId rs))"

fun accepted_ids :: "ledger_op list \<Rightarrow> string list" where
  "accepted_ids [] = []"
| "accepted_ids (Accept_call c # ops) = tc_id c # accepted_ids ops"
| "accepted_ids (_ # ops) = accepted_ids ops"

fun named_result :: "ledger_op \<Rightarrow> bool" where
  "named_result (Complete_call k rid synthetic) \<longleftrightarrow> rid \<noteq> []"
| "named_result op \<longleftrightarrow> True"

text \<open>
  The invariant: entries are keyed by their call's id, and the ids with a result are those
  that were issued one, each once.
\<close>

definition open_ids :: "call_ledger \<Rightarrow> string list" where
  "open_ids l = map tc_id (openCalls l)"

definition ledger_ok :: "ledger_run \<Rightarrow> bool" where
  "ledger_ok r \<longleftrightarrow>
     distinct (obj_keys (fst r)) \<and> (\<forall>(k, e) \<in> set (fst r). tc_id (le_call e) = k) \<and>
     distinct (snd r) \<and> set (snd r) = {k. \<exists>e. obj_get (fst r) k = Some e \<and> has_result e}"

lemma obj_get_in: "distinct (obj_keys l) \<Longrightarrow> obj_get l k = Some e \<longleftrightarrow> (k, e) \<in> set l"
  by (simp add: obj_get_def obj_keys_def)

lemma keyed_get:
  "distinct (obj_keys l) \<Longrightarrow> (\<forall>(k, e) \<in> set l. Q k e) \<longleftrightarrow> (\<forall>k e. obj_get l k = Some e \<longrightarrow> Q k e)"
  by (auto simp: obj_get_in)

lemma ledger_ok_iff:
  "ledger_ok (l, out) \<longleftrightarrow>
     distinct (obj_keys l) \<and> (\<forall>k e. obj_get l k = Some e \<longrightarrow> tc_id (le_call e) = k) \<and>
     distinct out \<and> set out = {k. \<exists>e. obj_get l k = Some e \<and> has_result e}"
  using keyed_get [of l "\<lambda>k e. tc_id (le_call e) = k"] by (auto simp: ledger_ok_def)

lemma open_ids_iff:
  assumes "distinct (obj_keys l)" "\<forall>k e. obj_get l k = Some e \<longrightarrow> tc_id (le_call e) = k"
  shows "k \<in> set (open_ids l) \<longleftrightarrow> (\<exists>e. obj_get l k = Some e \<and> \<not> has_result e)"
  using assms by (force simp: open_ids_def openCalls_def obj_get_in)

lemma open_ids_eq:
  assumes "\<forall>(k, e) \<in> set l. tc_id (le_call e) = k"
  shows "open_ids l = map fst (filter (\<lambda>p. \<not> has_result (snd p)) l)"
  using assms by (induction l) (auto simp: open_ids_def openCalls_def)

lemma distinct_open_ids:
  assumes "distinct (obj_keys l)" "\<forall>(k, e) \<in> set l. tc_id (le_call e) = k"
  shows "distinct (open_ids l)"
  using assms(1) by (simp add: open_ids_eq [OF assms(2)] obj_keys_def distinct_map_filter)

lemma obj_get_map: "obj_get (map (map_prod id f) l) k = map_option f (obj_get l k)"
  by (induction l) (auto simp: obj_get_def)

lemma has_result_simps [simp]:
  "has_result (e\<lparr>le_status := st\<rparr>) = has_result e" "has_result (e\<lparr>le_resultId := Some rid\<rparr>) \<longleftrightarrow> rid \<noteq> []"
  "\<not> has_result \<lparr>le_call = c, le_status = st, le_resultId = None\<rparr>"
  "has_result (synthesize_entry e)" "le_call (synthesize_entry e) = le_call e"
  by (auto simp: has_result_def truthy_def synthesize_entry_def)

lemma synthesize_ids:
  "synthesizeOpen reason code l = (rs, l') \<Longrightarrow> map tr_callId rs = open_ids l \<and> openCalls l' = []"
  by (auto simp: synthesizeOpen_def open_ids_def synthetic_result_def openCalls_def filter_empty_conv)

lemma ledger_step_ok:
  assumes "ledger_ok r" "named_result op" "ledger_step r op = Inr r'"
  shows "ledger_ok r'"
proof -
  obtain l out where r: "r = (l, out)" by (cases r)
  have ok: "distinct (obj_keys l)" "\<forall>k e. obj_get l k = Some e \<longrightarrow> tc_id (le_call e) = k"
    "distinct out" "set out = {k. \<exists>e. obj_get l k = Some e \<and> has_result e}"
    using assms(1) by (simp_all add: r ledger_ok_iff)
  show ?thesis
  proof (cases op)
    case (Synthesize_open reason code)
    obtain rs l' where sy: "synthesizeOpen reason code l = (rs, l')" by (cases "synthesizeOpen reason code l")
    have l': "l' = map (map_prod id synthesize_entry) l" using sy by (simp add: synthesizeOpen_def)
    have "obj_keys l' = obj_keys l" by (simp add: l' obj_keys_def)
    moreover have "distinct (open_ids l)" by (rule distinct_open_ids [OF ok(1)]) (simp add: keyed_get [OF ok(1)] ok(2))
    moreover have "k \<in> set (open_ids l) \<longleftrightarrow> (\<exists>e. obj_get l k = Some e \<and> \<not> has_result e)" for k
      by (rule open_ids_iff [OF ok(1, 2)])
    ultimately show ?thesis
      using ok assms(3) synthesize_ids [OF sy] by (auto simp: r Synthesize_open sy ledger_ok_iff l' obj_get_map)
  qed (use assms ok in \<open>auto simp: r ledger_ok_iff accept_def markRunning_def complete_call_def
        must_get_call_def bind_res_Inr_iff obj_keys_set split: option.splits if_splits\<close>)
qed

interpretation call_ledgers: invariant_machine ledger_step named_result ledger_ok
  by unfold_locales (rule ledger_step_ok)

lemma keys_synthesized [simp]: "obj_keys (map (map_prod id f) l) = obj_keys l"
  by (simp add: obj_keys_def)

lemma ledger_keys_step:
  assumes "ledger_step r op = Inr r'"
  shows "set (obj_keys (fst r')) = set (obj_keys (fst r)) \<union> set (accepted_ids [op])"
proof -
  obtain l out where r: "r = (l, out)" by (cases r)
  have same: "insert k (set (obj_keys l)) = set (obj_keys l)" if "obj_get l k = Some e" for k e
    using that obj_get_None_iff [of l k] by auto
  show ?thesis
    using assms same
    by (cases op) (auto simp: r accept_def markRunning_def complete_call_def must_get_call_def
        bind_res_Inr_iff obj_keys_set synthesizeOpen_def keys_synthesized split: option.splits)
qed

lemma accepted_ids_Cons: "accepted_ids (op # ops) = accepted_ids [op] @ accepted_ids ops"
  by (cases op) auto

lemma ledger_keys:
  "run_steps ledger_step r ops = Inr r' \<Longrightarrow>
   set (obj_keys (fst r')) = set (obj_keys (fst r)) \<union> set (accepted_ids ops)"
proof (induction ops arbitrary: r)
  case (Cons op ops)
  then obtain m where "ledger_step r op = Inr m" "run_steps ledger_step m ops = Inr r'"
    by (auto simp: bind_res_Inr_iff)
  then show ?case
    using Cons.IH ledger_keys_step [of r op m] by (subst accepted_ids_Cons) (auto simp del: accepted_ids.simps)
qed simp

lemma ledger_empty_ok: "ledger_ok ([], [])"
  by (simp add: ledger_ok_def obj_keys_def obj_get_def)

text \<open>
  Every accepted tool call ends with exactly one terminal result. Over any sequence of
  ledger operations no id receives a second result and none receives one without having been
  accepted; the ids without a result are the open calls; and once the open calls have been
  synthesized, the results are exactly the accepted calls and nothing is open.
\<close>

theorem tool_results_paired:
  assumes "run_steps ledger_step ([], []) ops = Inr (l, out)" "list_all named_result ops"
  shows "distinct out \<and> set out \<inter> set (open_ids l) = {} \<and> set out \<union> set (open_ids l) = set (accepted_ids ops) \<and>
    (case synthesizeOpen reason code l of (rs, l') \<Rightarrow>
       distinct (out @ map tr_callId rs) \<and> set (out @ map tr_callId rs) = set (accepted_ids ops) \<and>
       openCalls l' = [] \<and> (\<forall>k rid s. rid \<noteq> [] \<longrightarrow> (\<exists>e. complete_call k rid s l' = Inl e)))"
proof -
  have ok: "ledger_ok (l, out)" using call_ledgers.inv_run [OF assms(1) ledger_empty_ok assms(2)] .
  have keys: "set (obj_keys l) = set (accepted_ids ops)" using ledger_keys [OF assms(1)] by (simp add: obj_keys_def)
  have d: "distinct (obj_keys l)" and keyed: "\<forall>k e. obj_get l k = Some e \<longrightarrow> tc_id (le_call e) = k"
    and out: "distinct out" "set out = {k. \<exists>e. obj_get l k = Some e \<and> has_result e}"
    using ok by (simp_all add: ledger_ok_iff)
  have opn: "set (open_ids l) = {k. \<exists>e. obj_get l k = Some e \<and> \<not> has_result e}"
    using open_ids_iff [OF d keyed] by blast
  have known: "(\<exists>e. obj_get l k = Some e) \<longleftrightarrow> k \<in> set (accepted_ids ops)" for k
    using obj_get_None_iff [of l k] unfolding keys by (metis not_None_eq)
  have status: "k \<in> set out \<longleftrightarrow> (\<exists>e. obj_get l k = Some e \<and> has_result e)"
    "k \<in> set (open_ids l) \<longleftrightarrow> (\<exists>e. obj_get l k = Some e \<and> \<not> has_result e)" for k
    by (simp_all add: out(2) opn)
  have split: "set out \<inter> set (open_ids l) = {}"
    unfolding disjoint_iff by (metis status option.inject)
  have union: "set out \<union> set (open_ids l) = set (accepted_ids ops)"
    by (rule set_eqI) (metis Un_iff known status)
  have dopen: "distinct (open_ids l)" by (rule distinct_open_ids [OF d]) (simp add: keyed_get [OF d] keyed)
  obtain rs l' where sy: "synthesizeOpen reason code l = (rs, l')" by (cases "synthesizeOpen reason code l")
  have refused: "\<exists>e. complete_call k rid s l' = Inl e" for k rid s
    using sy by (auto simp: synthesizeOpen_def complete_call_def must_get_call_def obj_get_map
        split: option.splits)
  have ids: "map tr_callId rs = open_ids l" "openCalls l' = []" using synthesize_ids [OF sy] by simp_all
  show ?thesis
    unfolding sy prod.case distinct_append set_append ids
    using split union out(1) dopen refused by simp
qed

definition batch_call :: "string \<Rightarrow> tool_call" where
  "batch_call k = \<lparr>tc_id = k, tc_name = ''Read'', tc_input = JNull, tc_parentMessageId = ''m'', tc_receivedIndex = 0\<rparr>"

lemma tool_results_paired_witness:
  "\<exists>l. run_steps ledger_step ([], [])
      [Accept_call (batch_call ''a''), Accept_call (batch_call ''b''), Start_call ''a'', Complete_call ''a'' ''a'' False]
      = Inr (l, [''a'']) \<and>
    (case synthesizeOpen ''interrupted'' ''TOOL_ABORTED'' l of (rs, l') \<Rightarrow>
       set ([''a''] @ map tr_callId rs) = {''a'', ''b''} \<and> openCalls l' = [])"
proof -
  let ?ops = "[Accept_call (batch_call ''a''), Accept_call (batch_call ''b''), Start_call ''a'',
      Complete_call ''a'' ''a'' False]"
  have "\<exists>l. run_steps ledger_step ([], []) ?ops = Inr (l, [''a''])"
    by (simp add: batch_call_def accept_def markRunning_def complete_call_def must_get_call_def obj_get_def
        has_result_def truthy_def)
  then obtain l where run: "run_steps ledger_step ([], []) ?ops = Inr (l, [''a''])" by blast
  show ?thesis
    using tool_results_paired [OF run, of "''interrupted''" "''TOOL_ABORTED''"] run
    by (auto simp: batch_call_def insert_commute split: prod.splits)
qed

end
