(* ===== verification/Idempotency.thy ===== *)
theory Idempotency
  imports ToolCalls CalibrationContract
begin

text \<open>
  The durable side-effect ledger (tools/IdempotencyLedger.ts): operation keys, the status of
  each operation, and loading and writing the ledger document. The file is modelled at the
  level of JSON documents: what a read gives is one of the cases of \<open>ledger_file\<close>, and a
  flush replaces the document or fails and leaves it alone (a temporary file is renamed over
  it). SHA-256 is the host's.
\<close>

datatype execution_status =
    Not_started | Exec_running | Committed | Exec_unknown | Resolved_applied | Resolved_not_applied | Abandoned

record idem_record =
  ir_key :: string
  ir_callId :: string
  ir_toolName :: string
  ir_status :: execution_status
  ir_updatedAt :: string
  ir_proof :: "string option"
  ir_detail :: "string option"

record idem_ledger =
  il_records :: "idem_record jsobj"
  il_dirty :: bool

definition empty_ledger :: idem_ledger where
  "empty_ledger = \<lparr>il_records = [], il_dirty = False\<rparr>"

subsection \<open>Keys\<close>

definition computeOperationKey :: "host \<Rightarrow> string \<Rightarrow> string \<Rightarrow> json \<Rightarrow> string" where
  "computeOperationKey H sessionId toolName args =
     take 16 (h_sha256 H (stable_json (JArr [JStr sessionId, JStr toolName, args])))"

definition computeKey :: "host \<Rightarrow> string \<Rightarrow> string \<Rightarrow> string \<Rightarrow> json \<Rightarrow> string" where
  "computeKey H sessionId callId toolName args =
     take 16 (h_sha256 H (stable_json (JArr [JStr sessionId, JStr callId, JStr toolName, args])))"

subsection \<open>Status\<close>

definition getStatus :: "idem_ledger \<Rightarrow> string \<Rightarrow> execution_status option" where
  "getStatus l k = map_option ir_status (obj_get (il_records l) k)"

definition isCommitted :: "idem_ledger \<Rightarrow> string \<Rightarrow> bool" where
  "isCommitted l k \<longleftrightarrow> getStatus l k = Some Committed"

definition isApplied :: "idem_ledger \<Rightarrow> string \<Rightarrow> bool" where
  "isApplied l k \<longleftrightarrow> getStatus l k = Some Committed \<or> getStatus l k = Some Resolved_applied"

definition needsInspection :: "idem_ledger \<Rightarrow> string \<Rightarrow> bool" where
  "needsInspection l k \<longleftrightarrow> getStatus l k = Some Exec_running \<or> getStatus l k = Some Exec_unknown"

definition put_record :: "idem_record \<Rightarrow> string \<Rightarrow> idem_ledger \<Rightarrow> idem_ledger" where
  "put_record r k l = \<lparr>il_records = obj_set (il_records l) k r, il_dirty = True\<rparr>"

definition mark_running :: "string \<Rightarrow> string \<Rightarrow> string \<Rightarrow> string \<Rightarrow> idem_ledger \<Rightarrow> idem_ledger" where
  "mark_running k callId toolName now l =
     put_record \<lparr>ir_key = k, ir_callId = callId, ir_toolName = toolName, ir_status = Exec_running,
       ir_updatedAt = now, ir_proof = None, ir_detail = None\<rparr> k l"

definition markCommitted :: "string \<Rightarrow> string option \<Rightarrow> string option \<Rightarrow> idem_ledger \<Rightarrow> idem_ledger" where
  "markCommitted k proof now l =
     (case obj_get (il_records l) k of
        None \<Rightarrow> l
      | Some r \<Rightarrow> put_record (r\<lparr>ir_status := Committed, ir_proof := proof,
                              ir_updatedAt := or_else now (ir_updatedAt r)\<rparr>) k l)"

definition markUnknown :: "string \<Rightarrow> string \<Rightarrow> idem_ledger \<Rightarrow> idem_ledger" where
  "markUnknown k now l =
     (case obj_get (il_records l) k of
        None \<Rightarrow> l
      | Some r \<Rightarrow> if ir_status r \<noteq> Exec_running then l
                  else put_record (r\<lparr>ir_status := Exec_unknown, ir_updatedAt := now\<rparr>) k l)"

definition adjudicate ::
    "string \<Rightarrow> execution_status \<Rightarrow> string \<Rightarrow> string \<Rightarrow> idem_ledger \<Rightarrow> execution_status option \<times> idem_ledger" where
  "adjudicate k verdict detail now l =
     (case obj_get (il_records l) k of
        None \<Rightarrow> (None, l)
      | Some r \<Rightarrow> (Some (ir_status r),
          put_record (r\<lparr>ir_status := verdict, ir_detail := Some detail, ir_updatedAt := now\<rparr>) k l))"

definition byStatus :: "execution_status \<Rightarrow> idem_ledger \<Rightarrow> idem_record list" where
  "byStatus st l = filter (\<lambda>r. ir_status r = st) (map snd (il_records l))"

subsection \<open>The document\<close>

definition status_text :: "execution_status \<Rightarrow> string" where
  "status_text st =
     (case st of Not_started \<Rightarrow> ''not_started'' | Exec_running \<Rightarrow> ''running'' | Committed \<Rightarrow> ''committed''
      | Exec_unknown \<Rightarrow> ''unknown'' | Resolved_applied \<Rightarrow> ''resolved_applied''
      | Resolved_not_applied \<Rightarrow> ''resolved_not_applied'' | Abandoned \<Rightarrow> ''abandoned'')"

definition all_statuses :: "execution_status list" where
  "all_statuses = [Not_started, Exec_running, Committed, Exec_unknown, Resolved_applied, Resolved_not_applied, Abandoned]"

definition status_of_text :: "string \<Rightarrow> execution_status option" where
  "status_of_text s = List.find (\<lambda>st. status_text st = s) all_statuses"

definition optional_member :: "string \<Rightarrow> string option \<Rightarrow> (string \<times> json) list" where
  "optional_member k v = (case v of None \<Rightarrow> [] | Some s \<Rightarrow> [(k, JStr s)])"

definition record_json :: "idem_record \<Rightarrow> json" where
  "record_json r = JObj
     ([(''key'', JStr (ir_key r)), (''callId'', JStr (ir_callId r)), (''toolName'', JStr (ir_toolName r)),
       (''status'', JStr (status_text (ir_status r))), (''updatedAt'', JStr (ir_updatedAt r))] @
      optional_member ''proof'' (ir_proof r) @ optional_member ''detail'' (ir_detail r))"

definition ledger_document :: "idem_ledger \<Rightarrow> json" where
  "ledger_document l =
     JObj [(''version'', JNum 1), (''records'', JArr (map (\<lambda>p. record_json (snd p)) (il_records l)))]"

text \<open>
  The zod schemas: \<open>required_text\<close> is \<open>z.string().min(1)\<close>, \<open>optional_text\<close> is
  \<open>z.string().optional()\<close> (the outer option is the failure), and \<open>strict\<close> refuses other members.
\<close>

definition required_text :: "json jsobj \<Rightarrow> string \<Rightarrow> string option" where
  "required_text ob k =
     (case obj_get ob k of Some (JStr s) \<Rightarrow> if s = [] then None else Some s | _ \<Rightarrow> None)"

definition optional_text :: "json jsobj \<Rightarrow> string \<Rightarrow> string option option" where
  "optional_text ob k = (case obj_get ob k of None \<Rightarrow> Some None | Some (JStr s) \<Rightarrow> Some (Some s) | _ \<Rightarrow> None)"

definition parse_record :: "json \<Rightarrow> idem_record option" where
  "parse_record v =
     (case v of
        JObj ob \<Rightarrow>
          if set (obj_keys ob) \<subseteq> {''key'', ''callId'', ''toolName'', ''status'', ''updatedAt'', ''proof'', ''detail''}
          then (case (required_text ob ''key'', required_text ob ''callId'', required_text ob ''toolName'',
                      Option.bind (required_text ob ''status'') status_of_text, required_text ob ''updatedAt'',
                      optional_text ob ''proof'', optional_text ob ''detail'') of
                  (Some k, Some c, Some t, Some st, Some u, Some p, Some d) \<Rightarrow>
                    Some \<lparr>ir_key = k, ir_callId = c, ir_toolName = t, ir_status = st, ir_updatedAt = u,
                          ir_proof = p, ir_detail = d\<rparr>
                | _ \<Rightarrow> None)
          else None
      | _ \<Rightarrow> None)"

definition parse_records :: "json list \<Rightarrow> idem_record list option" where
  "parse_records vs =
     (if list_all (\<lambda>v. parse_record v \<noteq> None) vs
      then let rs = map (\<lambda>v. the (parse_record v)) vs in if distinct (map ir_key rs) then Some rs else None
      else None)"

definition parse_document :: "json \<Rightarrow> idem_record list option" where
  "parse_document v =
     (case v of
        JArr vs \<Rightarrow> parse_records vs
      | JObj ob \<Rightarrow>
          if set (obj_keys ob) \<subseteq> {''version'', ''records''} \<and> obj_get ob ''version'' = Some (JNum 1)
          then (case obj_get ob ''records'' of Some (JArr vs) \<Rightarrow> parse_records vs | _ \<Rightarrow> None)
          else None
      | _ \<Rightarrow> None)"

datatype ledger_file = Missing_file | Unreadable_file | Not_json | Document json

definition load_ledger :: "ledger_file \<Rightarrow> idem_ledger \<Rightarrow> idem_ledger res" where
  "load_ledger file l =
     (case file of
        Missing_file \<Rightarrow> Inr l
      | Unreadable_file \<Rightarrow> Inl (JsError ''IDEMPOTENCY_LEDGER_IO'')
      | Not_json \<Rightarrow> Inl (JsError ''IDEMPOTENCY_LEDGER_CORRUPT'')
      | Document v \<Rightarrow>
          (case parse_document v of
             None \<Rightarrow> Inl (JsError ''IDEMPOTENCY_LEDGER_CORRUPT'')
           | Some rs \<Rightarrow> Inr \<lparr>il_records = fold (\<lambda>r ob. obj_set ob (ir_key r) r) rs [], il_dirty = False\<rparr>))"

text \<open>\<open>written\<close> says whether the write, the sync and the rename all succeed.\<close>

definition flush_ledger :: "bool \<Rightarrow> idem_ledger \<times> ledger_file \<Rightarrow> (idem_ledger \<times> ledger_file) res" where
  "flush_ledger written s =
     (if \<not> il_dirty (fst s) then Inr s
      else if written then Inr ((fst s)\<lparr>il_dirty := False\<rparr>, Document (ledger_document (fst s)))
      else Inl (JsError ''IDEMPOTENCY_LEDGER_IO''))"

subsection \<open>Well-formed ledgers and the document round trip\<close>

definition record_ok :: "string \<Rightarrow> idem_record \<Rightarrow> bool" where
  "record_ok k r \<longleftrightarrow> ir_key r = k \<and> k \<noteq> [] \<and> ir_callId r \<noteq> [] \<and> ir_toolName r \<noteq> [] \<and> ir_updatedAt r \<noteq> []"

definition records_ok :: "idem_record jsobj \<Rightarrow> bool" where
  "records_ok ob \<longleftrightarrow> distinct (obj_keys ob) \<and> (\<forall>k r. obj_get ob k = Some r \<longrightarrow> record_ok k r)"

lemma status_round_trip [simp]: "status_of_text (status_text st) = Some st"
  by (cases st) (simp_all add: status_of_text_def all_statuses_def status_text_def)

lemma status_text_not_Nil [simp]: "status_text st \<noteq> []"
  by (cases st) (simp_all add: status_text_def)

lemma parse_record_json: "record_ok k r \<Longrightarrow> parse_record (record_json r) = Some r"
  by (cases r; cases "ir_proof r"; cases "ir_detail r")
    (simp_all add: record_ok_def record_json_def parse_record_def required_text_def optional_text_def
      optional_member_def obj_get_def obj_keys_def)

lemma fold_obj_set:
  "distinct (obj_keys ob @ map f rs) \<Longrightarrow>
   fold (\<lambda>r ob. obj_set ob (f r) r) rs ob = ob @ map (\<lambda>r. (f r, r)) rs"
proof (induction rs arbitrary: ob)
  case (Cons r rs)
  then have "f r \<notin> set (obj_keys ob)" "distinct (obj_keys (ob @ [(f r, r)]) @ map f rs)"
    by (auto simp: obj_keys_def)
  then show ?case using Cons.IH [of "ob @ [(f r, r)]"] by (simp add: obj_set_new)
qed simp

lemma records_ok_list:
  assumes "records_ok ob"
  shows "map (\<lambda>r. (ir_key r, r)) (map snd ob) = ob" "distinct (map ir_key (map snd ob))"
    "list_all (\<lambda>r. record_ok (ir_key r) r) (map snd ob)"
proof -
  have r: "record_ok k r" if "(k, r) \<in> set ob" for k r
    using that assms by (simp add: records_ok_def obj_get_in)
  then have key: "ir_key r = k" if "(k, r) \<in> set ob" for k r using that by (auto simp: record_ok_def)
  show pairs: "map (\<lambda>r. (ir_key r, r)) (map snd ob) = ob" using key by (auto intro!: map_idI)
  have "map ir_key (map snd ob) = obj_keys ob" using key by (auto simp: obj_keys_def)
  then show "distinct (map ir_key (map snd ob))" using assms by (simp add: records_ok_def)
  show "list_all (\<lambda>r. record_ok (ir_key r) r) (map snd ob)" using r key by (fastforce simp: list_all_iff)
qed

lemma load_document:
  assumes "records_ok (il_records l)"
  shows "load_ledger (Document (ledger_document l)) m = Inr (l\<lparr>il_dirty := False\<rparr>)"
proof -
  note ok = records_ok_list [OF assms]
  have parsed: "list_all (\<lambda>r. parse_record (record_json r) = Some r) (map snd (il_records l))"
    using ok(3) by (auto simp: list_all_iff intro: parse_record_json)
  then have again: "map (\<lambda>v. the (parse_record v)) (map (\<lambda>p. record_json (snd p)) (il_records l)) = map snd (il_records l)"
    by (auto simp: list_all_iff)
  have "list_all (\<lambda>v. parse_record v \<noteq> None) (map (\<lambda>p. record_json (snd p)) (il_records l))"
    using parsed by (auto simp: list_all_iff)
  then have "parse_records (map (\<lambda>p. record_json (snd p)) (il_records l)) = Some (map snd (il_records l))"
    unfolding parse_records_def Let_def again using ok(2) by simp
  then have "parse_document (ledger_document l) = Some (map snd (il_records l))"
    by (simp add: parse_document_def ledger_document_def obj_get_def obj_keys_def)
  moreover have "fold (\<lambda>r ob. obj_set ob (ir_key r) r) (map snd (il_records l)) [] = il_records l"
    using fold_obj_set [of "[]" ir_key "map snd (il_records l)"] ok(1, 2) by (simp add: obj_keys_def)
  ultimately show ?thesis by (simp add: load_ledger_def)
qed

subsection \<open>A session with crashes\<close>

text \<open>
  A process that works on the ledger, writes it (\<open>Flush_ledger False\<close> is a write that fails
  and is reported to the caller), and may die and start again from the file at any time.
\<close>

datatype idem_op =
    Mark_running string string string string
  | Mark_committed string "string option" "string option"
  | Mark_unknown string string
  | Adjudicate string execution_status string string
  | Flush_ledger bool
  | Crash_and_reload

type_synonym idem_system = "idem_ledger \<times> ledger_file"

fun idem_step :: "idem_system \<Rightarrow> idem_op \<Rightarrow> idem_system res" where
  "idem_step (l, file) (Mark_running k c t now) = Inr (mark_running k c t now l, file)"
| "idem_step (l, file) (Mark_committed k proof now) = Inr (markCommitted k proof now l, file)"
| "idem_step (l, file) (Mark_unknown k now) = Inr (markUnknown k now l, file)"
| "idem_step (l, file) (Adjudicate k verdict detail now) = Inr (snd (adjudicate k verdict detail now l), file)"
| "idem_step (l, file) (Flush_ledger written) =
     (case flush_ledger written (l, file) of Inl e \<Rightarrow> Inr (l, file) | Inr s \<Rightarrow> Inr s)"
| "idem_step (l, file) Crash_and_reload = bind_res (load_ledger file empty_ledger) (\<lambda>l'. Inr (l', file))"

fun writable_op :: "idem_op \<Rightarrow> bool" where
  "writable_op (Mark_running k c t now) \<longleftrightarrow> k \<noteq> [] \<and> c \<noteq> [] \<and> t \<noteq> [] \<and> now \<noteq> []"
| "writable_op (Mark_committed k proof now) \<longleftrightarrow> now \<noteq> Some []"
| "writable_op (Mark_unknown k now) \<longleftrightarrow> now \<noteq> []"
| "writable_op (Adjudicate k verdict detail now) \<longleftrightarrow> now \<noteq> []"
| "writable_op op \<longleftrightarrow> True"

definition system_ok :: "idem_system \<Rightarrow> bool" where
  "system_ok s \<longleftrightarrow> records_ok (il_records (fst s)) \<and>
     (\<exists>l. load_ledger (snd s) empty_ledger = Inr l \<and> records_ok (il_records l)) \<and>
     (\<not> il_dirty (fst s) \<longrightarrow> load_ledger (snd s) empty_ledger = Inr (fst s))"

lemma records_ok_set: "records_ok ob \<Longrightarrow> record_ok k r \<Longrightarrow> records_ok (obj_set ob k r)"
  by (auto simp: records_ok_def obj_keys_set)

lemma put_record_ok [intro]:
  "records_ok (il_records l) \<Longrightarrow> record_ok k r \<Longrightarrow> records_ok (il_records (put_record r k l))"
  by (simp add: put_record_def records_ok_set)

lemma records_okD: "records_ok ob \<Longrightarrow> obj_get ob k = Some r \<Longrightarrow> record_ok k r"
  by (simp add: records_ok_def)

lemma put_record_simps [simp]:
  "il_dirty (put_record r k l)" "obj_get (il_records (put_record r k l)) = (obj_get (il_records l))(k \<mapsto> r)"
  by (simp_all add: put_record_def)

lemma updates_ok:
  assumes "records_ok (il_records l)"
  shows "k \<noteq> [] \<Longrightarrow> c \<noteq> [] \<Longrightarrow> t \<noteq> [] \<Longrightarrow> now \<noteq> [] \<Longrightarrow> records_ok (il_records (mark_running k c t now l))"
    "nowo \<noteq> Some [] \<Longrightarrow> records_ok (il_records (markCommitted k p nowo l))"
    "now \<noteq> [] \<Longrightarrow> records_ok (il_records (markUnknown k now l))"
    "now \<noteq> [] \<Longrightarrow> records_ok (il_records (snd (adjudicate k v d now l)))"
  using assms records_okD [OF assms, of k]
  by (auto simp: mark_running_def markCommitted_def markUnknown_def adjudicate_def record_ok_def or_else_def
      split: option.split intro!: put_record_ok)

lemma updates_dirty:
  "il_dirty (mark_running k c t now l)"
  "\<not> il_dirty (markCommitted k p nowo l) \<Longrightarrow> markCommitted k p nowo l = l"
  "\<not> il_dirty (markUnknown k now l) \<Longrightarrow> markUnknown k now l = l"
  "\<not> il_dirty (snd (adjudicate k v d now l)) \<Longrightarrow> snd (adjudicate k v d now l) = l"
  by (auto simp: mark_running_def markCommitted_def markUnknown_def adjudicate_def split: option.splits if_splits)

lemma idem_step_ok:
  assumes "system_ok s" "writable_op op"
  shows "\<exists>s'. idem_step s op = Inr s' \<and> system_ok s'"
proof -
  obtain l doc where s: "s = (l, doc)" by (cases s)
  obtain l' where stored: "load_ledger doc empty_ledger = Inr l'" "records_ok (il_records l')"
    and ok: "records_ok (il_records l)" and clean: "\<not> il_dirty l \<Longrightarrow> l' = l"
    using assms(1) by (auto simp: s system_ok_def)
  have keep: "system_ok (m, doc)" if "records_ok (il_records m)" "\<not> il_dirty m \<Longrightarrow> m = l" for m
    using that stored clean by (auto simp: system_ok_def)
  show ?thesis
  proof (cases op)
    case (Flush_ledger written)
    show ?thesis
      using load_document [OF ok] ok keep [of l]
      by (auto simp: s Flush_ledger flush_ledger_def system_ok_def)
  next
    case Crash_and_reload
    have "\<not> il_dirty l'"
      using stored(1) by (auto simp: load_ledger_def empty_ledger_def split: ledger_file.splits option.splits)
    then show ?thesis using stored by (simp add: s Crash_and_reload system_ok_def)
  qed (use assms(2) in \<open>auto simp: s intro!: keep updates_ok [OF ok] updates_dirty\<close>)
qed

lemma empty_system_ok: "system_ok (empty_ledger, Missing_file)"
  by (simp add: system_ok_def load_ledger_def records_ok_def empty_ledger_def obj_keys_def obj_get_def)

lemma idem_run_ok:
  "system_ok s \<Longrightarrow> list_all writable_op ops \<Longrightarrow> \<exists>s'. run_steps idem_step s ops = Inr s' \<and> system_ok s'"
proof (induction ops arbitrary: s)
  case (Cons op ops)
  then obtain m where "idem_step s op = Inr m" "system_ok m" using idem_step_ok [of s op] by auto
  then show ?case using Cons by simp
qed simp

subsection \<open>What survives a crash\<close>

text \<open>The operations that settle an effect in doubt, and those that reopen a settled one.\<close>

fun settles :: "string \<Rightarrow> idem_op \<Rightarrow> bool" where
  "settles k (Mark_committed j proof now) \<longleftrightarrow> j = k"
| "settles k (Adjudicate j verdict detail now) \<longleftrightarrow> j = k"
| "settles k op \<longleftrightarrow> False"

fun reopens :: "string \<Rightarrow> idem_op \<Rightarrow> bool" where
  "reopens k (Mark_running j c t now) \<longleftrightarrow> j = k"
| "reopens k (Adjudicate j verdict detail now) \<longleftrightarrow> j = k"
| "reopens k op \<longleftrightarrow> False"

definition status_in :: "execution_status set \<Rightarrow> string \<Rightarrow> idem_ledger \<Rightarrow> bool" where
  "status_in S k l \<longleftrightarrow> (\<exists>st \<in> S. getStatus l k = Some st)"

definition durable_in :: "execution_status set \<Rightarrow> string \<Rightarrow> idem_system \<Rightarrow> bool" where
  "durable_in S k s \<longleftrightarrow> system_ok s \<and> status_in S k (fst s) \<and>
     (\<exists>l. load_ledger (snd s) empty_ledger = Inr l \<and> status_in S k l)"

abbreviation in_doubt :: "execution_status set" where
  "in_doubt \<equiv> {Exec_running, Exec_unknown}"

lemma status_in_update:
  "status_in in_doubt k l \<Longrightarrow> \<not> settles k op \<Longrightarrow> idem_step (l, doc) op = Inr s \<Longrightarrow> op \<noteq> Crash_and_reload \<Longrightarrow>
   status_in in_doubt k (fst s)"
  "status_in {Committed} k l \<Longrightarrow> \<not> reopens k op \<Longrightarrow> idem_step (l, doc) op = Inr s \<Longrightarrow> op \<noteq> Crash_and_reload \<Longrightarrow>
   status_in {Committed} k (fst s)"
  by (cases op; auto simp: status_in_def getStatus_def mark_running_def markCommitted_def markUnknown_def
      adjudicate_def flush_ledger_def split: option.splits if_splits)+

lemma file_only_flushed:
  "idem_step (l, doc) op = Inr s \<Longrightarrow> records_ok (il_records l) \<Longrightarrow>
   snd s = doc \<or> load_ledger (snd s) empty_ledger = Inr (l\<lparr>il_dirty := False\<rparr>)"
  by (cases op) (auto simp: flush_ledger_def load_document bind_res_Inr_iff split: if_splits)

lemma durable_step:
  assumes "durable_in S k s" "idem_step s op = Inr s'" "writable_op op"
    and "op \<noteq> Crash_and_reload \<Longrightarrow> status_in S k (fst s')"
  shows "durable_in S k s'"
proof -
  obtain l doc where s: "s = (l, doc)" by (cases s)
  have ok: "system_ok s'" using idem_step_ok [of s op] assms by (auto simp: durable_in_def)
  have l: "records_ok (il_records l)" "status_in S k l"
    and stored: "\<exists>m. load_ledger doc empty_ledger = Inr m \<and> status_in S k m"
    using assms(1) by (auto simp: s durable_in_def system_ok_def)
  have "status_in S k (l\<lparr>il_dirty := False\<rparr>)" using l(2) by (simp add: status_in_def getStatus_def)
  then have "\<exists>m. load_ledger (snd s') empty_ledger = Inr m \<and> status_in S k m"
    using file_only_flushed [OF assms(2) [unfolded s] l(1)] stored by auto
  moreover have "status_in S k (fst s')"
    using assms(2, 4) stored by (cases "op = Crash_and_reload") (auto simp: s)
  ultimately show ?thesis using ok by (simp add: durable_in_def)
qed

interpretation doubts: invariant_machine idem_step "\<lambda>op. writable_op op \<and> \<not> settles k op" "durable_in in_doubt k" for k
proof (unfold_locales, elim conjE)
  fix s op s'
  assume *: "durable_in in_doubt k s" "idem_step s op = Inr s'" "writable_op op" "\<not> settles k op"
  show "durable_in in_doubt k s'"
    using status_in_update(1) [of k "fst s" op "snd s" s'] *
    by (intro durable_step [OF *(1-3)]) (simp add: durable_in_def)
qed

interpretation commitments: invariant_machine idem_step "\<lambda>op. writable_op op \<and> \<not> reopens k op" "durable_in {Committed} k" for k
proof (unfold_locales, elim conjE)
  fix s op s'
  assume *: "durable_in {Committed} k s" "idem_step s op = Inr s'" "writable_op op" "\<not> reopens k op"
  show "durable_in {Committed} k s'"
    using status_in_update(2) [of k "fst s" op "snd s" s'] *
    by (intro durable_step [OF *(1-3)]) (simp add: durable_in_def)
qed

lemma flushed_durable:
  assumes "system_ok (l, doc)" "il_dirty l" "status_in S k l"
  shows "\<exists>s. idem_step (l, doc) (Flush_ledger True) = Inr s \<and> durable_in S k s"
proof -
  have l: "records_ok (il_records l)" using assms(1) by (simp add: system_ok_def)
  have "status_in S k (l\<lparr>il_dirty := False\<rparr>)" using assms(3) by (simp add: status_in_def getStatus_def)
  then show ?thesis
    using assms(2) l load_document [OF l, of empty_ledger] by (simp add: flush_ledger_def durable_in_def system_ok_def)
qed

text \<open>
  C24: a side effect is never forgotten. Once an operation is marked running and the ledger is
  written, then whatever else happens, crashes and reloads at any point included, until it is
  committed or adjudicated the operation needs inspection and does not count as applied; and
  once it is marked committed and written it stays committed until it is started again or
  adjudicated. No reload ever fails.
\<close>

theorem effects_survive_crashes:
  assumes "list_all writable_op (before @ Mark_running k c t now # Mark_committed k proof nowo # later)"
  shows "(list_all (\<lambda>op. \<not> settles k op) later \<longrightarrow>
      (\<exists>s. run_steps idem_step (empty_ledger, Missing_file)
             (before @ Mark_running k c t now # Flush_ledger True # later) = Inr s \<and>
           needsInspection (fst s) k \<and> \<not> isApplied (fst s) k)) \<and>
    (list_all (\<lambda>op. \<not> reopens k op) later \<longrightarrow>
      (\<exists>s. run_steps idem_step (empty_ledger, Missing_file)
             (before @ Mark_running k c t now # Mark_committed k proof nowo # Flush_ledger True # later) = Inr s \<and>
           isCommitted (fst s) k))"
proof -
  have ops: "list_all writable_op before" "list_all writable_op later" "writable_op (Mark_running k c t now)"
    "writable_op (Mark_committed k proof nowo)"
    using assms by simp_all
  obtain m where m: "run_steps idem_step (empty_ledger, Missing_file) before = Inr m" "system_ok m"
    using idem_run_ok [OF empty_system_ok ops(1)] by blast
  define l where "l = mark_running k c t now (fst m)"
  define l2 where "l2 = markCommitted k proof nowo l"
  have l: "system_ok (l, snd m)" using idem_step_ok [OF m(2) ops(3)] by (cases m) (simp add: l_def)
  have l2: "system_ok (l2, snd m)" using idem_step_ok [OF l ops(4)] by (simp add: l2_def)
  have st: "il_dirty l" "status_in in_doubt k l" "il_dirty l2" "status_in {Committed} k l2"
    by (simp_all add: l_def l2_def mark_running_def markCommitted_def status_in_def getStatus_def)
  obtain d1 where d1: "idem_step (l, snd m) (Flush_ledger True) = Inr d1" "durable_in in_doubt k d1"
    using flushed_durable [OF l st(1, 2)] by blast
  obtain d2 where d2: "idem_step (l2, snd m) (Flush_ledger True) = Inr d2" "durable_in {Committed} k d2"
    using flushed_durable [OF l2 st(3, 4)] by blast
  have run1: "run_steps idem_step (empty_ledger, Missing_file) (before @ Mark_running k c t now # Flush_ledger True # later)
      = run_steps idem_step d1 later"
    using m(1) d1(1) by (cases m) (simp add: run_steps_append l_def)
  have run2: "run_steps idem_step (empty_ledger, Missing_file)
      (before @ Mark_running k c t now # Mark_committed k proof nowo # Flush_ledger True # later) = run_steps idem_step d2 later"
    using m(1) d2(1) by (cases m) (simp add: run_steps_append l_def l2_def)
  obtain s1 s2 where s: "run_steps idem_step d1 later = Inr s1" "run_steps idem_step d2 later = Inr s2"
    using idem_run_ok [OF _ ops(2)] d1(2) d2(2) by (metis durable_in_def)
  have "durable_in in_doubt k s1" if "list_all (\<lambda>op. \<not> settles k op) later"
    by (rule doubts.inv_run [OF s(1) d1(2)]) (use that ops(2) in \<open>simp add: list_all_iff\<close>)
  moreover have "durable_in {Committed} k s2" if "list_all (\<lambda>op. \<not> reopens k op) later"
    by (rule commitments.inv_run [OF s(2) d2(2)]) (use that ops(2) in \<open>simp add: list_all_iff\<close>)
  ultimately show ?thesis
    using s by (auto simp: run1 run2 durable_in_def status_in_def needsInspection_def isApplied_def isCommitted_def)
qed

text \<open>
  The run of the witness: another effect is in progress, the process dies after the first
  write, and again after the effect was found in doubt.
\<close>

lemma effects_survive_crashes_witness:
  "\<exists>s. run_steps idem_step (empty_ledger, Missing_file)
      ([Mark_running ''j'' ''c0'' ''Write'' ''t0''] @ Mark_running ''k'' ''c1'' ''Edit'' ''t1'' # Flush_ledger True #
       [Crash_and_reload, Mark_unknown ''k'' ''t2'', Mark_committed ''j'' None None, Flush_ledger True,
        Crash_and_reload]) = Inr s \<and> needsInspection (fst s) ''k''"
  using effects_survive_crashes [of "[Mark_running ''j'' ''c0'' ''Write'' ''t0'']" "''k''" "''c1''" "''Edit''" "''t1''" None
      "Some ''t2''" "[Crash_and_reload, Mark_unknown ''k'' ''t2'', Mark_committed ''j'' None None, Flush_ledger True,
        Crash_and_reload]"]
  by (simp del: run_steps.simps) blast

subsection \<open>Operation keys\<close>

text \<open>The key of an operation does not depend on the order in which its arguments were written.\<close>

lemma same_json_list3:
  "same_json a b \<Longrightarrow> same_json (JArr [JStr x, JStr y, a]) (JArr [JStr x, JStr y, b])"
  "same_json a b \<Longrightarrow> same_json (JArr [JStr x, JStr z, JStr y, a]) (JArr [JStr x, JStr z, JStr y, b])"
  by (rule same_arr; simp add: same_str)+

lemma operation_key_canonical:
  assumes "same_json args args'"
  shows "computeOperationKey H s t args = computeOperationKey H s t args'"
    "computeKey H s c t args = computeKey H s c t args'"
  by (simp_all only: computeOperationKey_def computeKey_def
      stable_json_same [OF same_json_list3(1) [OF assms]] stable_json_same [OF same_json_list3(2) [OF assms]])

end
