(* ===== verification/ToolDefs.thy ===== *)
theory ToolDefs
  imports Idempotency
begin

text \<open>
  Tool definitions (tools/Tool.ts). A tool is a record of functions over its parsed input (a
  JSON value). The outside world that an asynchronous member may consult, and that only
  \<open>execute\<close> changes, is the type variable; a member that throws gives a left value.
  The prose of a structured error (message, hint, issues) is left out.
\<close>

datatype concurrency_class = Shared | Exclusive

datatype access_mode = Read_access | Write_access

datatype idempotency_scope = Operation_scope | Invocation_scope

record resource_claim =
  rc_resource :: string
  rc_mode :: access_mode

datatype mutation_intent =
    Paths_intent "string list" "string option"
  | Workspace_intent string

text \<open>
  What a tool may throw: an error with a \<open>toolErrorCode\<close>, an \<open>AbortError\<close>, or anything else.
\<close>

datatype tool_exception = Coded_error string | Abort_error | Other_error

record structured_error =
  se_code :: string
  se_retryable :: bool

record tool_context =
  cx_sessionId :: string
  cx_callId :: string
  cx_workspaceRoot :: string
  cx_mode :: agent_mode
  cx_artifactDir :: string

record permission_hint =
  hint_behavior :: permission_behavior
  hint_code :: "string option"

record execution_result =
  xr_data :: json
  xr_facts :: "fact_event list option"
  xr_commitProof :: "string option"

record outcome_inspection =
  oi_applied :: bool
  oi_detail :: string

record 'w tool_definition =
  td_name :: string
  td_maxResultChars :: number
  td_idempotencyScope :: idempotency_scope
  td_resourcesExplicit :: bool
  td_safeParse :: "json \<Rightarrow> json option"
  td_readOnly :: "json \<Rightarrow> tool_exception + bool"
  td_destructive :: "json \<Rightarrow> tool_exception + bool"
  td_concurrency :: "json \<Rightarrow> tool_exception + concurrency_class"
  td_resources :: "json \<Rightarrow> tool_context \<Rightarrow> tool_exception + resource_claim list"
  td_workspaceMutation :: "json \<Rightarrow> tool_context \<Rightarrow> tool_exception + mutation_intent option"
  td_validate :: "'w \<Rightarrow> json \<Rightarrow> tool_context \<Rightarrow> tool_exception + structured_error option"
  td_preconditions :: "'w \<Rightarrow> json \<Rightarrow> tool_context \<Rightarrow> tool_exception + contract_check list"
  td_permission :: "'w \<Rightarrow> json \<Rightarrow> tool_context \<Rightarrow> tool_exception + permission_hint"
  td_execute :: "'w \<Rightarrow> json \<Rightarrow> tool_context \<Rightarrow> (tool_exception + execution_result) \<times> 'w"
  td_postconditions :: "'w \<Rightarrow> json \<Rightarrow> json \<Rightarrow> tool_context \<Rightarrow> tool_exception + contract_check list"
  td_observe :: "'w \<Rightarrow> json \<Rightarrow> json \<Rightarrow> tool_context \<Rightarrow> tool_exception + string \<times> json jsobj option"
  td_serialize :: "json \<Rightarrow> string \<Rightarrow> tool_exception + tool_result_content"
  td_inspectOutcome :: "('w \<Rightarrow> json \<Rightarrow> tool_context \<Rightarrow> idem_record \<Rightarrow> tool_exception + outcome_inspection) option"

record 'w tool_spec =
  tsp_name :: string
  tsp_maxResultChars :: "number option"
  tsp_idempotencyScope :: "idempotency_scope option"
  tsp_safeParse :: "json \<Rightarrow> json option"
  tsp_readOnly :: "(json \<Rightarrow> tool_exception + bool) option"
  tsp_destructive :: "(json \<Rightarrow> tool_exception + bool) option"
  tsp_concurrency :: "(json \<Rightarrow> tool_exception + concurrency_class) option"
  tsp_resources :: "(json \<Rightarrow> tool_context \<Rightarrow> tool_exception + resource_claim list) option"
  tsp_workspaceMutation :: "(json \<Rightarrow> tool_context \<Rightarrow> tool_exception + mutation_intent option) option"
  tsp_validate :: "('w \<Rightarrow> json \<Rightarrow> tool_context \<Rightarrow> tool_exception + structured_error option) option"
  tsp_preconditions :: "('w \<Rightarrow> json \<Rightarrow> tool_context \<Rightarrow> tool_exception + contract_check list) option"
  tsp_permission :: "('w \<Rightarrow> json \<Rightarrow> tool_context \<Rightarrow> tool_exception + permission_hint) option"
  tsp_execute :: "'w \<Rightarrow> json \<Rightarrow> tool_context \<Rightarrow> (tool_exception + execution_result) \<times> 'w"
  tsp_postconditions :: "('w \<Rightarrow> json \<Rightarrow> json \<Rightarrow> tool_context \<Rightarrow> tool_exception + contract_check list) option"
  tsp_observe :: "('w \<Rightarrow> json \<Rightarrow> json \<Rightarrow> tool_context \<Rightarrow> tool_exception + string \<times> json jsobj option) option"
  tsp_serialize :: "(json \<Rightarrow> string \<Rightarrow> tool_exception + tool_result_content) option"
  tsp_inspectOutcome :: "('w \<Rightarrow> json \<Rightarrow> tool_context \<Rightarrow> idem_record \<Rightarrow> tool_exception + outcome_inspection) option"

definition whole_workspace :: "resource_claim" where
  "whole_workspace = \<lparr>rc_resource = ''workspace:*'', rc_mode = Write_access\<rparr>"

text \<open>The safe defaults: exclusive, writing, claiming the whole workspace, asking.\<close>

definition defineTool :: "'w tool_spec \<Rightarrow> 'w tool_definition" where
  "defineTool s =
     \<lparr>td_name = tsp_name s,
      td_maxResultChars = or_else (tsp_maxResultChars s) 30000,
      td_idempotencyScope = or_else (tsp_idempotencyScope s) Operation_scope,
      td_resourcesExplicit = (tsp_resources s \<noteq> None),
      td_safeParse = tsp_safeParse s,
      td_readOnly = or_else (tsp_readOnly s) (\<lambda>i. Inr False),
      td_destructive = or_else (tsp_destructive s) (\<lambda>i. Inr False),
      td_concurrency = or_else (tsp_concurrency s) (\<lambda>i. Inr Exclusive),
      td_resources = or_else (tsp_resources s) (\<lambda>i cx. Inr [whole_workspace]),
      td_workspaceMutation = or_else (tsp_workspaceMutation s) (\<lambda>i cx. Inr None),
      td_validate = or_else (tsp_validate s) (\<lambda>w i cx. Inr None),
      td_preconditions = or_else (tsp_preconditions s) (\<lambda>w i cx. Inr []),
      td_permission = or_else (tsp_permission s) (\<lambda>w i cx. Inr \<lparr>hint_behavior = Ask, hint_code = None\<rparr>),
      td_execute = tsp_execute s,
      td_postconditions = or_else (tsp_postconditions s) (\<lambda>w i out cx. Inr []),
      td_observe = or_else (tsp_observe s) (\<lambda>w i out cx. Inr (tsp_name s @ '' completed'', None)),
      td_serialize = or_else (tsp_serialize s) (\<lambda>out callId. Inr (Json_content out)),
      td_inspectOutcome = tsp_inspectOutcome s\<rparr>"

end
