(* ===== verification/StepRelations.thy ===== *)
theory StepRelations
  imports Prelude
begin

text \<open>
  The interface between a nondeterministic step relation and the arguments about its
  executions: an invariant that every step preserves, and a rank that every step lowers, so
  that every execution ends and its length is bounded.
\<close>

locale step_invariant =
  fixes step :: "'s \<Rightarrow> 's \<Rightarrow> bool"
    and inv :: "'s \<Rightarrow> bool"
  assumes step_inv: "inv s \<Longrightarrow> step s s' \<Longrightarrow> inv s'"
begin

lemma reach_inv: "step\<^sup>*\<^sup>* s t \<Longrightarrow> inv s \<Longrightarrow> inv t"
  by (induction rule: rtranclp_induct) (auto intro: step_inv)

end

locale ranked_steps = step_invariant +
  fixes rank :: "'a \<Rightarrow> nat"
  assumes step_rank: "inv s \<Longrightarrow> step s s' \<Longrightarrow> rank s' < rank s"
begin

lemma steps_bounded: "(step ^^ n) s t \<Longrightarrow> inv s \<Longrightarrow> n + rank t \<le> rank s"
proof (induction n arbitrary: t)
  case (Suc n)
  then obtain u where "(step ^^ n) s u" "step u t" by auto
  moreover from this have "inv u" using reach_inv Suc.prems(2) by (metis relpowp_imp_rtranclp)
  ultimately show ?case using Suc step_rank [of u t] by fastforce
qed simp

lemma no_infinite_execution: "inv (f 0) \<Longrightarrow> \<exists>n. \<not> step (f n) (f (Suc n))"
proof (rule ccontr)
  assume inv: "inv (f 0)" and "\<nexists>n. \<not> step (f n) (f (Suc n))"
  then have all: "step (f n) (f (Suc n))" for n by blast
  have "(step ^^ n) (f 0) (f n)" for n by (induction n) (auto intro: all)
  from steps_bounded [OF this inv, of "Suc (rank (f 0))"] show False by simp
qed

lemma reaches_end: "inv s \<Longrightarrow> \<exists>t. step\<^sup>*\<^sup>* s t \<and> (\<nexists>u. step t u)"
proof (induction "rank s" arbitrary: s rule: less_induct)
  case less
  show ?case
  proof (cases "\<exists>u. step s u")
    case True
    then obtain u where u: "step s u" by blast
    then obtain t where "step\<^sup>*\<^sup>* u t" "\<nexists>v. step t v"
      using less step_rank step_inv by blast
    then show ?thesis using u by (meson converse_rtranclp_into_rtranclp)
  qed blast
qed

end

end
