(* ===== verification/Scheduler.thy ===== *)
theory Scheduler
  imports ToolDefs StepRelations
begin

text \<open>
  The tool scheduler (tools/ToolScheduler.ts): which resource claims conflict, how a call is
  prepared, and the execution of a batch as a step relation, in which the scheduler's own
  steps interleave with the completion of the calls in flight. A call's \<open>run\<close> is a promise:
  it is in flight until it settles with its events or a rejection.
\<close>

subsection \<open>Conflicts\<close>

definition overlaps :: "string \<Rightarrow> string \<Rightarrow> bool" where
  "overlaps a b \<longleftrightarrow>
     a = b \<or> (ends_with a ''*'' \<and> starts_with b (butlast a)) \<or> (ends_with b ''*'' \<and> starts_with a (butlast b)) \<or>
     a = ''workspace:*'' \<or> b = ''workspace:*''"

definition conflicts :: "resource_claim list \<Rightarrow> resource_claim list \<Rightarrow> bool" where
  "conflicts xs ys \<longleftrightarrow>
     list_ex (\<lambda>x. list_ex (\<lambda>y. overlaps (rc_resource x) (rc_resource y) \<and>
       (rc_mode x = Write_access \<or> rc_mode y = Write_access)) ys) xs"

lemma overlaps_sym: "overlaps a b \<longleftrightarrow> overlaps b a"
  by (auto simp: overlaps_def)

lemma conflicts_sym: "conflicts xs ys \<longleftrightarrow> conflicts ys xs"
  unfolding conflicts_def list_ex_iff using overlaps_sym by blast

lemma conflicts_concat: "conflicts xs (concat yss) \<longleftrightarrow> (\<exists>ys \<in> set yss. conflicts xs ys)"
  by (auto simp: conflicts_def list_ex_iff)

subsection \<open>Preparing a call\<close>

record prepared_call =
  pr_exclusive :: bool
  pr_claims :: "resource_claim list"

text \<open>
  The scheduler passes a context with the workspace root only; the members the source leaves
  undefined are empty here.
\<close>

definition bare_context :: "string \<Rightarrow> tool_context" where
  "bare_context r =
     \<lparr>cx_sessionId = [], cx_callId = [], cx_workspaceRoot = r, cx_mode = Default_mode, cx_artifactDir = []\<rparr>"

definition prepare :: "(string \<Rightarrow> 'w tool_definition option) \<Rightarrow> string \<Rightarrow> tool_call \<Rightarrow> prepared_call" where
  "prepare resolve workspaceRoot c =
     (case resolve (tc_name c) of
        None \<Rightarrow> \<lparr>pr_exclusive = False, pr_claims = []\<rparr>
      | Some t \<Rightarrow>
          (case td_safeParse t (tc_input c) of
             None \<Rightarrow> \<lparr>pr_exclusive = False, pr_claims = []\<rparr>
           | Some input \<Rightarrow>
               (case (td_resources t input (bare_context workspaceRoot), td_concurrency t input) of
                  (Inr claims, Inr cc) \<Rightarrow> \<lparr>pr_exclusive = (cc = Exclusive), pr_claims = claims\<rparr>
                | _ \<Rightarrow> \<lparr>pr_exclusive = True, pr_claims = [whole_workspace]\<rparr>)))"

subsection \<open>Executing a batch\<close>

type_synonym 'e outcome = "js_error + 'e list"

datatype 'e promise = In_flight | Settled "'e outcome"

text \<open>
  Where \<open>executeBatch\<close> stands: at the head of its loop, in the \<open>drain\<close> before a barrier, in
  the one after an exclusive call, in the last one, or replaying.
\<close>

datatype control =
    Launching nat
  | Draining nat
  | Fencing nat
  | Closing
  | Replaying nat
  | Finished
  | Rejected js_error

record 'e batch =
  bt_control :: control
  bt_running :: "(nat \<times> resource_claim list) list"
  bt_buffers :: "nat \<Rightarrow> 'e promise option"
  bt_out :: "'e list"

definition start_batch :: "'e batch" where
  "start_batch = \<lparr>bt_control = Launching 0, bt_running = [], bt_buffers = (\<lambda>i. None), bt_out = []\<rparr>"

definition barrier :: "prepared_call \<Rightarrow> 'e batch \<Rightarrow> bool" where
  "barrier p b \<longleftrightarrow> pr_exclusive p \<or> conflicts (pr_claims p) (concat (map snd (bt_running b)))"

definition drained :: "'e batch \<Rightarrow> bool" where
  "drained b \<longleftrightarrow> list_all (\<lambda>r. bt_buffers b (fst r) \<noteq> Some In_flight) (bt_running b)"

definition launch :: "prepared_call list \<Rightarrow> nat \<Rightarrow> control \<Rightarrow> 'e batch \<Rightarrow> 'e batch" where
  "launch items i c b =
     b\<lparr>bt_control := c, bt_running := bt_running b @ [(i, pr_claims (items ! i))],
       bt_buffers := (bt_buffers b)(i \<mapsto> In_flight)\<rparr>"

inductive batch_step :: "prepared_call list \<Rightarrow> 'e batch \<Rightarrow> 'e batch \<Rightarrow> bool" for items where
  launch_shared:
    "bt_control b = Launching i \<Longrightarrow> i < length items \<Longrightarrow> \<not> barrier (items ! i) b \<Longrightarrow>
     batch_step items b (launch items i (Launching (Suc i)) b)"
| meet_barrier:
    "bt_control b = Launching i \<Longrightarrow> i < length items \<Longrightarrow> barrier (items ! i) b \<Longrightarrow>
     batch_step items b (b\<lparr>bt_control := Draining i\<rparr>)"
| pass_barrier:
    "bt_control b = Draining i \<Longrightarrow> drained b \<Longrightarrow>
     batch_step items b (launch items i (if pr_exclusive (items ! i) then Fencing i else Launching (Suc i))
       (b\<lparr>bt_running := []\<rparr>))"
| leave_fence:
    "bt_control b = Fencing i \<Longrightarrow> drained b \<Longrightarrow>
     batch_step items b (b\<lparr>bt_control := Launching (Suc i), bt_running := []\<rparr>)"
| all_launched:
    "bt_control b = Launching (length items) \<Longrightarrow> batch_step items b (b\<lparr>bt_control := Closing\<rparr>)"
| close:
    "bt_control b = Closing \<Longrightarrow> drained b \<Longrightarrow>
     batch_step items b (b\<lparr>bt_control := Replaying 0, bt_running := []\<rparr>)"
| settle:
    "bt_buffers b i = Some In_flight \<Longrightarrow>
     batch_step items b (b\<lparr>bt_buffers := (bt_buffers b)(i \<mapsto> Settled res)\<rparr>)"
| replay:
    "bt_control b = Replaying j \<Longrightarrow> j < length items \<Longrightarrow> bt_buffers b j = Some (Settled (Inr es)) \<Longrightarrow>
     batch_step items b (b\<lparr>bt_control := Replaying (Suc j), bt_out := bt_out b @ es\<rparr>)"
| reject:
    "bt_control b = Replaying j \<Longrightarrow> j < length items \<Longrightarrow> bt_buffers b j = Some (Settled (Inl e)) \<Longrightarrow>
     batch_step items b (b\<lparr>bt_control := Rejected e\<rparr>)"
| finish:
    "bt_control b = Replaying (length items) \<Longrightarrow> batch_step items b (b\<lparr>bt_control := Finished\<rparr>)"

inductive_cases batch_stepE: "batch_step items b b'"

subsection \<open>Invariants\<close>

fun launched_to :: "nat \<Rightarrow> control \<Rightarrow> nat" where
  "launched_to n (Launching i) = i"
| "launched_to n (Draining i) = i"
| "launched_to n (Fencing i) = Suc i"
| "launched_to n c = n"

text \<open>The control points at which every call still running is a shared one.\<close>

fun control_ok :: "nat \<Rightarrow> control \<Rightarrow> bool" where
  "control_ok n (Launching i) \<longleftrightarrow> i \<le> n"
| "control_ok n (Draining i) \<longleftrightarrow> i < n"
| "control_ok n (Fencing i) \<longleftrightarrow> i < n"
| "control_ok n (Replaying j) \<longleftrightarrow> j \<le> n"
| "control_ok n c \<longleftrightarrow> True"

fun fencing :: "control \<Rightarrow> bool" where
  "fencing (Fencing i) \<longleftrightarrow> True"
| "fencing c \<longleftrightarrow> False"

definition running_ok :: "prepared_call list \<Rightarrow> 'e batch \<Rightarrow> bool" where
  "running_ok items b \<longleftrightarrow> control_ok (length items) (bt_control b) \<and>
     (\<forall>i. bt_buffers b i \<noteq> None \<longleftrightarrow> i < launched_to (length items) (bt_control b)) \<and>
     (\<forall>i. bt_buffers b i = Some In_flight \<longrightarrow> i \<in> fst ` set (bt_running b)) \<and>
     (\<forall>(i, cs) \<in> set (bt_running b). cs = pr_claims (items ! i) \<and>
        (pr_exclusive (items ! i) \<longrightarrow> fencing (bt_control b)))"

text \<open>Two calls that must not overlap: one of them is exclusive, or their claims conflict.\<close>

definition must_wait :: "prepared_call \<Rightarrow> prepared_call \<Rightarrow> bool" where
  "must_wait p q \<longleftrightarrow> pr_exclusive p \<or> pr_exclusive q \<or> conflicts (pr_claims p) (pr_claims q)"

definition fifo_ok :: "prepared_call list \<Rightarrow> 'e batch \<Rightarrow> bool" where
  "fifo_ok items b \<longleftrightarrow>
     (\<forall>i j. i < j \<and> bt_buffers b j \<noteq> None \<and> must_wait (items ! i) (items ! j) \<longrightarrow> bt_buffers b i \<noteq> Some In_flight)"

definition settled_events :: "'e batch \<Rightarrow> nat \<Rightarrow> 'e list" where
  "settled_events b i = (case bt_buffers b i of Some (Settled (Inr es)) \<Rightarrow> es | _ \<Rightarrow> [])"

definition replayed :: "'e batch \<Rightarrow> nat \<Rightarrow> bool" where
  "replayed b j \<longleftrightarrow>
     (\<forall>i < j. \<exists>es. bt_buffers b i = Some (Settled (Inr es))) \<and> bt_out b = concat (map (settled_events b) [0..<j])"

definition output_ok :: "nat \<Rightarrow> 'e batch \<Rightarrow> bool" where
  "output_ok n b \<longleftrightarrow>
     (case bt_control b of
        Replaying j \<Rightarrow> replayed b j \<and> (\<forall>i. bt_buffers b i \<noteq> Some In_flight)
      | Finished \<Rightarrow> replayed b n \<and> (\<forall>i. bt_buffers b i \<noteq> Some In_flight)
      | Rejected e \<Rightarrow> (\<exists>j < n. replayed b j \<and> bt_buffers b j = Some (Settled (Inl e))) \<and>
          (\<forall>i. bt_buffers b i \<noteq> Some In_flight)
      | _ \<Rightarrow> bt_out b = [])"

definition batch_ok :: "prepared_call list \<Rightarrow> 'e batch \<Rightarrow> bool" where
  "batch_ok items b \<longleftrightarrow> running_ok items b \<and> fifo_ok items b \<and> output_ok (length items) b"

lemma launch_simps [simp]:
  "bt_control (launch items i c b) = c" "bt_out (launch items i c b) = bt_out b"
  "bt_running (launch items i c b) = bt_running b @ [(i, pr_claims (items ! i))]"
  "bt_buffers (launch items i c b) = (bt_buffers b)(i \<mapsto> In_flight)"
  by (simp_all add: launch_def)

lemma nothing_in_flight:
  "running_ok items b \<Longrightarrow> drained b \<Longrightarrow> bt_buffers b i \<noteq> Some In_flight"
  by (force simp: running_ok_def drained_def list_all_iff)

lemma launch_fifo:
  assumes "fifo_ok items b" "\<And>j. bt_buffers b j \<noteq> None \<Longrightarrow> j < i"
    and "\<And>k. bt_buffers b k = Some In_flight \<Longrightarrow> \<not> must_wait (items ! k) (items ! i)"
  shows "fifo_ok items (launch items i c b)"
  using assms unfolding fifo_ok_def by (auto split: if_splits dest!: assms(2))

lemma running_ok_step: "running_ok items b \<Longrightarrow> batch_step items b b' \<Longrightarrow> running_ok items b'"
proof (erule batch_stepE, goal_cases)
  case (1 i)
  then show ?case by (auto simp: running_ok_def barrier_def less_Suc_eq)
next
  case (2 i)
  then show ?case by (auto simp: running_ok_def)
next
  case (3 i)
  then show ?case using nothing_in_flight [OF 3(1, 4)] by (auto simp: running_ok_def less_Suc_eq)
next
  case (4 i)
  then show ?case using nothing_in_flight [OF 4(1, 4)] by (auto simp: running_ok_def)
next
  case 5
  then show ?case by (auto simp: running_ok_def)
next
  case 6
  then show ?case using nothing_in_flight [OF 6(1, 4)] by (auto simp: running_ok_def)
next
  case (7 i res)
  then show ?case by (auto simp: running_ok_def split: if_splits)
next
  case (8 j es)
  then show ?case by (auto simp: running_ok_def)
next
  case (9 j e)
  then show ?case by (auto simp: running_ok_def)
next
  case 10
  then show ?case by (auto simp: running_ok_def)
qed

lemma fifo_ok_step: "running_ok items b \<Longrightarrow> fifo_ok items b \<Longrightarrow> batch_step items b b' \<Longrightarrow> fifo_ok items b'"
proof (erule batch_stepE, goal_cases)
  case (1 i)
  have "\<not> must_wait (items ! k) (items ! i)" if "bt_buffers b k = Some In_flight" for k
  proof -
    obtain cs where "(k, cs) \<in> set (bt_running b)" using 1(1) \<open>bt_buffers b k = _\<close> by (force simp: running_ok_def)
    then have "(k, pr_claims (items ! k)) \<in> set (bt_running b)" "\<not> pr_exclusive (items ! k)"
      using 1(1, 4) by (auto simp: running_ok_def)
    then show ?thesis
      using 1(6) conflicts_sym [of "pr_claims (items ! i)"]
      by (auto simp: must_wait_def barrier_def conflicts_concat)
  qed
  then show ?case using 1 by (auto simp: running_ok_def intro!: launch_fifo)
next
  case (3 i)
  have "fifo_ok items (b\<lparr>bt_running := []\<rparr>)" using 3(2) by (simp add: fifo_ok_def)
  then show ?case
    using 3 nothing_in_flight [OF 3(1, 5)] by (auto simp: running_ok_def intro!: launch_fifo)
qed (auto simp: fifo_ok_def)

lemma settled_events_cong: "bt_buffers b' = bt_buffers b \<Longrightarrow> settled_events b' = settled_events b"
  by (simp add: settled_events_def fun_eq_iff)

lemma replayed_cong: "bt_buffers b' = bt_buffers b \<Longrightarrow> bt_out b' = bt_out b \<Longrightarrow> replayed b' j \<longleftrightarrow> replayed b j"
  by (simp add: replayed_def settled_events_cong [of b' b])

lemma replayed_Suc:
  "replayed b j \<Longrightarrow> bt_buffers b j = Some (Settled (Inr es)) \<Longrightarrow>
   replayed (b\<lparr>bt_control := c, bt_out := bt_out b @ es\<rparr>) (Suc j)"
  using settled_events_cong [of "b\<lparr>bt_control := c, bt_out := bt_out b @ es\<rparr>" b]
  by (simp add: replayed_def less_Suc_eq settled_events_def [of b j])

lemma output_ok_step:
  assumes "running_ok items b" "output_ok (length items) b" "batch_step items b b'"
  shows "output_ok (length items) b'"
  using assms(3, 1, 2)
proof (cases rule: batch_step.cases)
  case close
  then show ?thesis
    using nothing_in_flight [OF assms(1)] assms(2) by (simp add: output_ok_def replayed_def)
next
  case (settle i res)
  then show ?thesis using assms(2) by (auto simp: output_ok_def split: control.splits)
next
  case (replay j es)
  then show ?thesis using assms(2) by (simp add: output_ok_def replayed_Suc)
next
  case (reject j e)
  then have "replayed b' j \<longleftrightarrow> replayed b j" by (intro replayed_cong) simp_all
  then show ?thesis using assms(2) reject by (auto simp: output_ok_def)
next
  case finish
  then have "replayed b' (length items) \<longleftrightarrow> replayed b (length items)" by (intro replayed_cong) simp_all
  then show ?thesis using assms(2) finish by (simp add: output_ok_def)
qed (simp_all add: output_ok_def)

lemma batch_ok_start: "batch_ok items start_batch"
  by (simp add: batch_ok_def running_ok_def fifo_ok_def output_ok_def start_batch_def)

subsection \<open>Every batch ends\<close>

fun control_rank :: "nat \<Rightarrow> control \<Rightarrow> nat" where
  "control_rank n (Launching i) = 4 * (n - i) + n + 4"
| "control_rank n (Draining i) = 4 * (n - i) + n + 3"
| "control_rank n (Fencing i) = 4 * (n - i) + n + 1"
| "control_rank n Closing = n + 3"
| "control_rank n (Replaying j) = n - j + 2"
| "control_rank n c = 0"

definition in_flight :: "'e batch \<Rightarrow> nat set" where
  "in_flight b = {i. bt_buffers b i = Some In_flight}"

definition batch_rank :: "prepared_call list \<Rightarrow> 'e batch \<Rightarrow> nat" where
  "batch_rank items b = control_rank (length items) (bt_control b) + card (in_flight b)"

lemma in_flight_simps [simp]:
  "in_flight (launch items i c b) = insert i (in_flight b)"
  "in_flight (b\<lparr>bt_control := c\<rparr>) = in_flight b" "in_flight (b\<lparr>bt_running := r\<rparr>) = in_flight b"
  "in_flight (b\<lparr>bt_out := out\<rparr>) = in_flight b"
  by (auto simp: in_flight_def)

lemma finite_in_flight: "running_ok items b \<Longrightarrow> finite (in_flight b)"
  by (rule finite_subset [of _ "{..<launched_to (length items) (bt_control b)}"])
    (force simp: in_flight_def running_ok_def)+

lemma card_in_flight_insert: "running_ok items b \<Longrightarrow> card (insert i (in_flight b)) \<le> Suc (card (in_flight b))"
  by (simp add: finite_in_flight card_insert_if)

lemma batch_rank_step: "running_ok items b \<Longrightarrow> batch_step items b b' \<Longrightarrow> batch_rank items b' < batch_rank items b"
proof (erule batch_stepE, goal_cases)
  case (1 i)
  then show ?case using card_in_flight_insert [OF 1(1), of i] by (simp add: batch_rank_def)
next
  case (3 i)
  then show ?case using card_in_flight_insert [OF 3(1), of i] by (auto simp: batch_rank_def running_ok_def)
next
  case (4 i)
  then have "i < length items" by (simp add: running_ok_def)
  then have "4 * (length items - Suc i) + 4 = 4 * (length items - i)" by arith
  then show ?case using 4 by (simp add: batch_rank_def)
next
  case (7 i res)
  have "in_flight b' = in_flight b - {i}" using 7(2) by (auto simp: in_flight_def)
  moreover have "i \<in> in_flight b" using 7(3) by (simp add: in_flight_def)
  ultimately show ?case
    using 7(2) card_Diff1_less [OF finite_in_flight [OF 7(1)]] by (simp add: batch_rank_def)
qed (simp_all add: batch_rank_def)

interpretation batches: ranked_steps "batch_step items" "batch_ok items" "batch_rank items" for items
  by unfold_locales (auto simp: batch_ok_def intro: running_ok_step fifo_ok_step output_ok_step batch_rank_step)

fun ended :: "control \<Rightarrow> bool" where
  "ended Finished \<longleftrightarrow> True"
| "ended (Rejected e) \<longleftrightarrow> True"
| "ended c \<longleftrightarrow> False"

lemma stuck_ended:
  assumes "batch_ok items b" "\<nexists>b'. batch_step items b b'"
  shows "ended (bt_control b)"
proof (cases "\<exists>i. bt_buffers b i = Some In_flight")
  case True
  then show ?thesis using assms(2) batch_step.settle by blast
next
  case False
  then have d: "drained b" by (auto simp: drained_def list_all_iff)
  have ok: "running_ok items b" using assms(1) by (simp add: batch_ok_def)
  show ?thesis
  proof (cases "bt_control b")
    case (Launching i)
    then have "i < length items \<or> i = length items" using ok by (auto simp: running_ok_def)
    then show ?thesis using assms(2) Launching batch_step.intros(1, 2, 5) by blast
  next
    case (Replaying j)
    have "j < length items \<or> j = length items" using ok Replaying by (auto simp: running_ok_def)
    moreover have "\<exists>r. bt_buffers b j = Some (Settled r)" if "j < length items"
    proof -
      have "bt_buffers b j \<noteq> None" using that ok Replaying by (simp add: running_ok_def)
      then show ?thesis using False by (metis not_None_eq promise.exhaust)
    qed
    ultimately show ?thesis
      using assms(2) Replaying batch_step.intros(8-10) by (metis sum.exhaust)
  next
    case (Draining i)
    then show ?thesis using assms(2) batch_step.pass_barrier [OF Draining d, of items] by blast
  next
    case (Fencing i)
    then show ?thesis using assms(2) batch_step.leave_fence [OF Fencing d, of items] by blast
  next
    case Closing
    then show ?thesis using assms(2) batch_step.close [OF Closing d, of items] by blast
  qed simp_all
qed

subsection \<open>The properties of the scheduler\<close>

lemma batch_reachable: "(batch_step items)\<^sup>*\<^sup>* start_batch b \<Longrightarrow> batch_ok items b"
  using batches.reach_inv [OF _ batch_ok_start] .

text \<open>
  C8: exclusive calls and conflicting calls are barriers, first come first served. In every
  reachable state of a batch, where a call has been started, every earlier call that is
  exclusive, or conflicts with it, or precedes it while it is exclusive itself, has settled;
  in particular two calls in flight are both shared and their claims do not conflict.
\<close>

theorem conflicting_calls_serialized:
  assumes "(batch_step items)\<^sup>*\<^sup>* start_batch b" "bt_buffers b j \<noteq> None"
  shows "j < length items \<and>
    (\<forall>i < j. pr_exclusive (items ! i) \<or> pr_exclusive (items ! j) \<or>
       conflicts (pr_claims (items ! i)) (pr_claims (items ! j)) \<longrightarrow> (\<exists>r. bt_buffers b i = Some (Settled r))) \<and>
    (\<forall>i. i \<noteq> j \<and> bt_buffers b i = Some In_flight \<and> bt_buffers b j = Some In_flight \<longrightarrow>
       \<not> pr_exclusive (items ! j) \<and> \<not> conflicts (pr_claims (items ! i)) (pr_claims (items ! j)))"
proof (intro conjI allI impI)
  have ok: "running_ok items b" "fifo_ok items b" using batch_reachable [OF assms(1)] by (simp_all add: batch_ok_def)
  have j: "j < launched_to (length items) (bt_control b)" using ok(1) assms(2) by (auto simp: running_ok_def)
  then show "j < length items" using ok(1) by (cases "bt_control b") (auto simp: running_ok_def)
  fix i
  {
    assume i: "i < j" and wait: "pr_exclusive (items ! i) \<or> pr_exclusive (items ! j) \<or>
      conflicts (pr_claims (items ! i)) (pr_claims (items ! j))"
    have "bt_buffers b i \<noteq> Some In_flight" using ok(2) i wait assms(2) by (auto simp: fifo_ok_def must_wait_def)
    moreover have "bt_buffers b i \<noteq> None" using ok(1) i j by (auto simp: running_ok_def)
    ultimately show "\<exists>r. bt_buffers b i = Some (Settled r)" by (metis not_None_eq promise.exhaust)
  next
    assume *: "i \<noteq> j \<and> bt_buffers b i = Some In_flight \<and> bt_buffers b j = Some In_flight"
    then have "\<not> must_wait (items ! min i j) (items ! max i j)"
      using ok(2) by (auto simp: fifo_ok_def min_def max_def nat_neq_iff)
    then have free: "\<not> pr_exclusive (items ! i)" "\<not> pr_exclusive (items ! j)"
      "\<not> conflicts (pr_claims (items ! i)) (pr_claims (items ! j))"
      using conflicts_sym [of "pr_claims (items ! i)"] by (auto simp: must_wait_def min_def max_def split: if_splits)
    then show "\<not> pr_exclusive (items ! j)" "\<not> conflicts (pr_claims (items ! i)) (pr_claims (items ! j))"
      by blast+
  }
qed

text \<open>
  Results come out in the order the calls were received. Whatever the order of
  completion, a batch that has finished has yielded the events of its calls in received
  order, each call having run exactly once; one that ends with an error has yielded those of
  the calls before the first that was rejected, and the error is that call's.
\<close>

theorem batch_output_in_order:
  assumes "(batch_step items)\<^sup>*\<^sup>* start_batch b" "ended (bt_control b)"
  shows "\<exists>rs. length rs = length items \<and> (\<forall>i < length items. bt_buffers b i = Some (Settled (rs ! i))) \<and>
    (case bt_control b of
       Rejected e \<Rightarrow> \<exists>j < length items. rs ! j = Inl e \<and> (\<forall>i < j. \<exists>es. rs ! i = Inr es) \<and>
         bt_out b = concat (map projr (take j rs))
     | _ \<Rightarrow> (\<forall>r \<in> set rs. \<exists>es. r = Inr es) \<and> bt_out b = concat (map projr rs))"
proof -
  define rs where "rs = map (\<lambda>i. case bt_buffers b i of Some (Settled r) \<Rightarrow> r | _ \<Rightarrow> Inr []) [0..<length items]"
  have ok: "running_ok items b" and out: "output_ok (length items) b"
    using batch_reachable [OF assms(1)] by (simp_all add: batch_ok_def)
  have launched: "bt_buffers b i \<noteq> None" if "i < length items" for i
    using that ok assms(2) by (cases "bt_control b") (auto simp: running_ok_def)
  have landed: "bt_buffers b i \<noteq> Some In_flight" for i
    using out assms(2) by (cases "bt_control b") (auto simp: output_ok_def)
  have nth: "bt_buffers b i = Some (Settled (rs ! i))" if "i < length items" for i
    using launched [OF that] landed [of i] that by (auto simp: rs_def split: promise.splits)
  have events: "map (settled_events b) [0..<j] = map projr (take j rs) \<and> (\<forall>i < j. \<exists>es. rs ! i = Inr es)"
    if "replayed b j" "j \<le> length items" for j
  proof -
    have r: "\<exists>es. rs ! i = Inr es" if ij: "i < j" for i
    proof -
      obtain es where "bt_buffers b i = Some (Settled (Inr es))"
        using \<open>replayed b j\<close> ij by (auto simp: replayed_def)
      then show ?thesis using nth [of i] ij \<open>j \<le> _\<close> by simp
    qed
    have "settled_events b i = projr (rs ! i)" if "i < j" for i
      using nth [of i] r [OF that] that \<open>j \<le> _\<close> by (auto simp: settled_events_def)
    moreover have "take j rs = map (\<lambda>i. rs ! i) [0..<j]"
      using that(2) by (intro nth_equalityI) (simp_all add: rs_def)
    ultimately show ?thesis using r by simp
  qed
  have len: "length rs = length items" by (simp add: rs_def)
  show ?thesis
  proof (cases "bt_control b")
    case Finished
    then have "replayed b (length items)" using out by (simp add: output_ok_def)
    then have "\<forall>i < length items. \<exists>es. rs ! i = Inr es" "bt_out b = concat (map projr rs)"
      using events [of "length items"] len by (simp_all add: replayed_def)
    then have "\<forall>r \<in> set rs. \<exists>es. r = Inr es" "bt_out b = concat (map projr rs)"
      by (metis in_set_conv_nth len)+
    then show ?thesis using nth len Finished by (intro exI [of _ rs]) simp
  next
    case (Rejected e)
    then obtain j where "j < length items" "replayed b j" "bt_buffers b j = Some (Settled (Inl e))"
      using out by (auto simp: output_ok_def)
    then have "rs ! j = Inl e" "\<forall>i < j. \<exists>es. rs ! i = Inr es" "bt_out b = concat (map projr (take j rs))"
      using events [of j] nth [of j] by (simp_all add: replayed_def)
    then show ?thesis using \<open>j < _\<close> nth len Rejected by (intro exI [of _ rs]) auto
  qed (use assms(2) in simp_all)
qed

text \<open>
  C26: a batch cannot hang or run away. From every reachable state the batch can reach an
  end; a reachable state with no step is an end; and no execution has more than
  \<open>5 n + 4\<close> steps for \<open>n\<close> calls, the completions of the calls included.
\<close>

theorem batch_terminates:
  assumes "(batch_step items)\<^sup>*\<^sup>* start_batch b"
  shows "(\<exists>e. (batch_step items)\<^sup>*\<^sup>* b e \<and> ended (bt_control e)) \<and>
    ((\<nexists>b'. batch_step items b b') \<longrightarrow> ended (bt_control b)) \<and>
    (\<forall>n. (batch_step items ^^ n) start_batch b \<longrightarrow> n \<le> 5 * length items + 4)"
proof (intro conjI allI impI)
  have ok: "batch_ok items b" using batch_reachable [OF assms] .
  show "ended (bt_control b)" if "\<nexists>b'. batch_step items b b'" using stuck_ended [OF ok that] .
  show "\<exists>e. (batch_step items)\<^sup>*\<^sup>* b e \<and> ended (bt_control e)"
    using batches.reaches_end [OF ok] batches.reach_inv [OF _ ok] stuck_ended by metis
  show "n \<le> 5 * length items + 4" if "(batch_step items ^^ n) start_batch b" for n
    using batches.steps_bounded [OF that batch_ok_start] by (simp add: batch_rank_def start_batch_def in_flight_def)
qed

subsection \<open>Witnesses\<close>

text \<open>A shared read of a file and an exclusive call after it.\<close>

definition demo_items :: "prepared_call list" where
  "demo_items =
     [\<lparr>pr_exclusive = False, pr_claims = [\<lparr>rc_resource = ''file:a'', rc_mode = Read_access\<rparr>]\<rparr>,
      \<lparr>pr_exclusive = True, pr_claims = [whole_workspace]\<rparr>]"

lemma demo_ends:
  "\<exists>b :: string batch. (batch_step demo_items)\<^sup>*\<^sup>* start_batch b \<and> ended (bt_control b) \<and> bt_buffers b 1 \<noteq> None"
proof -
  obtain b :: "string batch" where b: "(batch_step demo_items)\<^sup>*\<^sup>* start_batch b" "\<nexists>u. batch_step demo_items b u"
    using batches.reaches_end [OF batch_ok_start] by blast
  then have e: "ended (bt_control b)" using stuck_ended batch_reachable by blast
  moreover have "bt_buffers b 1 \<noteq> None"
  proof -
    have "running_ok demo_items b" using batch_reachable [OF b(1)] by (simp add: batch_ok_def)
    then have "bt_buffers b 1 \<noteq> None \<longleftrightarrow> 1 < launched_to (length demo_items) (bt_control b)"
      unfolding running_ok_def by blast
    then show ?thesis using e by (cases "bt_control b") (simp_all add: demo_items_def)
  qed
  ultimately show ?thesis using b(1) by blast
qed

lemma conflicting_calls_serialized_witness:
  "\<exists>b :: string batch. (batch_step demo_items)\<^sup>*\<^sup>* start_batch b \<and> bt_buffers b 1 \<noteq> None \<and>
    (\<exists>r. bt_buffers b 0 = Some (Settled r))"
proof -
  obtain b :: "string batch" where b: "(batch_step demo_items)\<^sup>*\<^sup>* start_batch b" "bt_buffers b 1 \<noteq> None" using demo_ends by blast
  have "\<exists>r. bt_buffers b 0 = Some (Settled r)"
    using conflicting_calls_serialized [OF b] by (simp add: demo_items_def)
  then show ?thesis using b by blast
qed

lemma batch_output_in_order_witness:
  "\<exists>(b :: string batch) rs. (batch_step demo_items)\<^sup>*\<^sup>* start_batch b \<and> ended (bt_control b) \<and> length rs = 2 \<and>
    bt_buffers b 0 = Some (Settled (rs ! 0)) \<and> bt_buffers b 1 = Some (Settled (rs ! 1))"
proof -
  obtain b :: "string batch" where b: "(batch_step demo_items)\<^sup>*\<^sup>* start_batch b" "ended (bt_control b)" using demo_ends by blast
  obtain rs where "length rs = length demo_items" "\<forall>i < length demo_items. bt_buffers b i = Some (Settled (rs ! i))"
    using batch_output_in_order [OF b] by blast
  then have "length rs = 2 \<and> bt_buffers b 0 = Some (Settled (rs ! 0)) \<and> bt_buffers b 1 = Some (Settled (rs ! 1))"
    by (simp add: demo_items_def)
  then show ?thesis using b by blast
qed

lemma batch_terminates_witness:
  "\<exists>e :: string batch. (batch_step demo_items)\<^sup>*\<^sup>* start_batch e \<and> ended (bt_control e)"
  using batch_terminates [of demo_items start_batch] by blast

end
