(* ===== verification/Lane.thy ===== *)
theory Lane
  imports ToolDefs Supervisor
begin

text \<open>
  The action lane (planning/ToolExecutionLane.ts): the projection of the available tools that
  the supervisor's action admits, frozen for one model turn and its batch, and the tool
  registry that projects by mode and write lock (tools/ToolRegistry.ts).
\<close>

definition INSPECTION_TOOLS :: "string list" where
  "INSPECTION_TOOLS =
     [''Read'', ''Glob'', ''Grep'', ''CodeSymbols'', ''FindReferences'', ''CallGraph'', ''CodeDiagnostics'',
      ''SearchCodeIndex'', ''ExpandCodeContext'', ''RefreshCodeIndex'', ''CodeIndexStatus'', ''ShellReadOnly'',
      ''AskUser'', ''TaskList'']"

definition EVIDENCE_TOOLS :: "string list" where
  "EVIDENCE_TOOLS = INSPECTION_TOOLS @ [''Shell'', ''FileAssert'', ''DiffAssert'', ''ManualVerify'', ''TaskUpdate'']"

definition VERIFICATION_TOOLS :: "string list" where
  "VERIFICATION_TOOLS = INSPECTION_TOOLS @ [''Shell'', ''FileAssert'', ''DiffAssert'', ''ManualVerify'']"

definition PLAN_REPAIR_TOOLS :: "string list" where
  "PLAN_REPAIR_TOOLS = INSPECTION_TOOLS @
     [''EnterPlanMode'', ''PlanRepair'', ''PlanPropose'', ''ExitPlanMode'', ''TaskCreate'', ''TaskUpdate'']"

definition PLAN_REPAIR_ACTIVE_TOOLS :: "string list" where
  "PLAN_REPAIR_ACTIVE_TOOLS = INSPECTION_TOOLS @ [''EnterPlanMode'', ''PlanRepair'', ''PlanPropose'', ''ExitPlanMode'']"

definition APPROVAL_TOOLS :: "string list" where
  "APPROVAL_TOOLS = INSPECTION_TOOLS @ [''PlanPropose'', ''ExitPlanMode'']"

definition FINISH_TOOLS :: "string list" where
  "FINISH_TOOLS = INSPECTION_TOOLS @ [''FileAssert'', ''DiffAssert'', ''ManualVerify'']"

record tool_execution_lane =
  ln_action :: supervisor_action
  ln_assessmentSignature :: string
  ln_lane :: tool_lane
  ln_mode :: agent_mode
  ln_writeLocked :: bool
  ln_replanning :: bool
  ln_allowedTools :: "string list"
  ln_blockedTools :: "string list"
  ln_hash :: string
  ln_instruction :: string

record lane_input =
  li_assessment :: "plan_health option"
  li_mode :: agent_mode
  li_writeLocked :: bool
  li_candidateTools :: "string list"
  li_replanning :: bool

text \<open>
  The supervisor's seven actions. For a text that is none of them the caller has thrown
  before these are reached; the equations for it say what a \<open>switch\<close> without a match gives.
\<close>

definition laneFor :: "supervisor_action \<Rightarrow> tool_lane" where
  "laneFor a =
     (case a of
        Gather_evidence \<Rightarrow> Evidence_lane | Run_verification \<Rightarrow> Verification_lane
      | Repair_plan \<Rightarrow> Plan_repair_lane | Request_reapproval \<Rightarrow> Approval_lane | Finish \<Rightarrow> Finish_lane
      | _ \<Rightarrow> Open_lane)"

definition allowSetFor :: "supervisor_action \<Rightarrow> bool \<Rightarrow> string list option" where
  "allowSetFor a replanning =
     (case a of
        Gather_evidence \<Rightarrow> Some EVIDENCE_TOOLS
      | Run_verification \<Rightarrow> Some VERIFICATION_TOOLS
      | Repair_plan \<Rightarrow> Some (if replanning then PLAN_REPAIR_ACTIVE_TOOLS else PLAN_REPAIR_TOOLS)
      | Request_reapproval \<Rightarrow> Some APPROVAL_TOOLS
      | Finish \<Rightarrow> Some FINISH_TOOLS
      | _ \<Rightarrow> None)"

definition instructionFor :: "supervisor_action \<Rightarrow> string \<Rightarrow> string" where
  "instructionFor a h =
     (case a of
        Gather_evidence \<Rightarrow> ''Collect only kind-matched evidence for the uncovered criteria. Shell must include non-empty criterionIds. Direct workspace edit tools are withheld until plan health changes.''
      | Run_verification \<Rightarrow> ''Use inspection or evidence tools only when a prerequisite is genuinely missing; Shell must include non-empty criterionIds. Otherwise return plain text so the engine can invoke its independent verifier.''
      | Repair_plan \<Rightarrow> ''Repair the smallest affected plan step or persist a replacement plan before attempting more workspace writes.''
      | Request_reapproval \<Rightarrow> ''Persist the revised plan with PlanPropose, then call ExitPlanMode. Workspace writes remain locked pending approval.''
      | Finish \<Rightarrow> ''Do not make new workspace changes. Return a fact-grounded final response so the completion gate can decide.''
      | Resolve_blocker \<Rightarrow> ''Obtain one discriminating observation, then update the blocked task honestly. The lane stays open to avoid trapping valid recovery work.''
      | _ \<Rightarrow> ''Continue the targeted step. Projection '' @ h @ '' does not narrow implementation tools; ordinary policy remains authoritative.'')"

definition stableNames :: "string list \<Rightarrow> string list" where
  "stableNames names = sort (js_uniq names)"

definition mode_text :: "agent_mode \<Rightarrow> string" where
  "mode_text m =
     (case m of Default_mode \<Rightarrow> ''default'' | Accept_edits \<Rightarrow> ''acceptEdits'' | Plan_mode \<Rightarrow> ''plan''
      | Dont_ask \<Rightarrow> ''dontAsk'' | Bypass_permissions \<Rightarrow> ''bypassPermissions'')"

definition lane_text :: "tool_lane \<Rightarrow> string" where
  "lane_text l =
     (case l of Open_lane \<Rightarrow> ''open'' | Evidence_lane \<Rightarrow> ''evidence'' | Verification_lane \<Rightarrow> ''verification''
      | Plan_repair_lane \<Rightarrow> ''plan_repair'' | Approval_lane \<Rightarrow> ''approval'' | Finish_lane \<Rightarrow> ''finish'')"

definition lane_payload ::
    "supervisor_action \<Rightarrow> string \<Rightarrow> agent_mode \<Rightarrow> bool \<Rightarrow> bool \<Rightarrow> string list \<Rightarrow> string list \<Rightarrow> json" where
  "lane_payload a signature mode locked replanning allowed blocked = JObj
     [(''version'', JNum 1), (''action'', JStr (action_text a)), (''assessmentSignature'', JStr signature),
      (''lane'', JStr (lane_text (laneFor a))), (''mode'', JStr (mode_text mode)),
      (''writeLocked'', JBool locked), (''replanning'', JBool replanning),
      (''allowedTools'', JArr (map JStr allowed)), (''blockedTools'', JArr (map JStr blocked))]"

text \<open>No lane is \<open>Inr None\<close>: without an assessment, or for a plan that is not applicable.\<close>

definition buildToolExecutionLane :: "host \<Rightarrow> lane_input \<Rightarrow> tool_execution_lane option res" where
  "buildToolExecutionLane H i =
     (case li_assessment i of
        None \<Rightarrow> Inr None
      | Some assessment \<Rightarrow>
          if ph_status assessment = Not_applicable then Inr None
          else let a = sd_action (ph_decision assessment)
               in if \<not> isSupervisorAction a then Inl (InvariantError ''tool_lane_unknown_action'')
                  else let candidates = stableNames (li_candidateTools i);
                           allowed = (case allowSetFor a (li_replanning i) of
                                        None \<Rightarrow> candidates
                                      | Some names \<Rightarrow> filter (\<lambda>n. n \<in> set names) candidates);
                           blocked = filter (\<lambda>n. n \<notin> set allowed) candidates;
                           payload = lane_payload a (ph_signature assessment) (li_mode i) (li_writeLocked i)
                                       (li_replanning i) allowed blocked;
                           h = take 16 (h_sha256 H (json_stringify payload))
                       in Inr (Some \<lparr>ln_action = a, ln_assessmentSignature = ph_signature assessment,
                            ln_lane = laneFor a, ln_mode = li_mode i, ln_writeLocked = li_writeLocked i,
                            ln_replanning = li_replanning i, ln_allowedTools = allowed, ln_blockedTools = blocked,
                            ln_hash = h, ln_instruction = instructionFor a h\<rparr>))"

definition isToolAllowedByLane :: "tool_execution_lane option \<Rightarrow> string \<Rightarrow> bool" where
  "isToolAllowedByLane lane name = (case lane of None \<Rightarrow> True | Some l \<Rightarrow> name \<in> set (ln_allowedTools l))"

definition criterion_ids_ok :: "json \<Rightarrow> bool" where
  "criterion_ids_ok input =
     (case input of
        JObj ob \<Rightarrow>
          (case obj_get ob ''criterionIds'' of
             Some (JArr ids) \<Rightarrow> ids \<noteq> [] \<and>
               list_all (\<lambda>x. case x of JStr s \<Rightarrow> non_blank s | _ \<Rightarrow> False) ids
           | _ \<Rightarrow> False)
      | _ \<Rightarrow> False)"

definition validateToolInputForLane :: "tool_execution_lane option \<Rightarrow> string \<Rightarrow> json \<Rightarrow> structured_error option" where
  "validateToolInputForLane lane name input =
     (case lane of
        None \<Rightarrow> None
      | Some l \<Rightarrow>
          if (ln_action l \<noteq> Gather_evidence \<and> ln_action l \<noteq> Run_verification) \<or> name \<noteq> ''Shell'' then None
          else if \<not> criterion_ids_ok input
          then Some \<lparr>se_code = ''TOOL_NOT_AVAILABLE_FOR_ACTION'', se_retryable = True\<rparr> else None)"

subsection \<open>The tool registry\<close>

definition PLAN_ALLOWED_TOOLS :: "string list" where
  "PLAN_ALLOWED_TOOLS =
     [''Read'', ''Glob'', ''Grep'', ''CodeSymbols'', ''FindReferences'', ''CallGraph'', ''CodeDiagnostics'',
      ''SearchCodeIndex'', ''ExpandCodeContext'', ''RefreshCodeIndex'', ''CodeIndexStatus'', ''ShellReadOnly'',
      ''AskUser'', ''PlanPropose'', ''ExitPlanMode'', ''TaskCreate'', ''TaskUpdate'', ''TaskList'']"

type_synonym 'w tool_registry = "'w tool_definition jsobj"

definition register_tool :: "'w tool_definition \<Rightarrow> 'w tool_registry \<Rightarrow> 'w tool_registry res" where
  "register_tool t reg =
     guard_res (obj_get reg (td_name t) \<noteq> None) (JsError ''duplicate tool'') (Inr (obj_set reg (td_name t) t))"

definition resolve_tool :: "'w tool_registry \<Rightarrow> string \<Rightarrow> 'w tool_definition option" where
  "resolve_tool reg name = obj_get reg name"

definition restricted :: "agent_mode \<Rightarrow> bool \<Rightarrow> bool" where
  "restricted mode writeLocked \<longleftrightarrow> mode = Plan_mode \<or> writeLocked"

text \<open>
  \<open>availableFor\<close> before its final sort by \<open>localeCompare\<close>, whose order the model leaves open:
  the tools that are shown, in the order they were registered.
\<close>

definition available_tools ::
    "'w tool_registry \<Rightarrow> agent_mode \<Rightarrow> bool \<Rightarrow> tool_execution_lane option \<Rightarrow> 'w tool_definition list" where
  "available_tools reg mode writeLocked lane =
     filter (\<lambda>t. isToolAllowedByLane lane (td_name t))
       (filter (\<lambda>t. restricted mode writeLocked \<longrightarrow> td_name t \<in> set PLAN_ALLOWED_TOOLS) (map snd reg))"

definition isAvailableIn :: "'w tool_registry \<Rightarrow> string \<Rightarrow> agent_mode \<Rightarrow> bool \<Rightarrow> tool_execution_lane option \<Rightarrow> bool" where
  "isAvailableIn reg name mode writeLocked lane =
     (if obj_get reg name = None then False
      else if restricted mode writeLocked \<and> name \<notin> set PLAN_ALLOWED_TOOLS then False
      else isToolAllowedByLane lane name)"

definition registered_names :: "'w tool_registry \<Rightarrow> string list" where
  "registered_names reg = sort (obj_keys reg)"

subsection \<open>Rendering\<close>

definition lane_title :: "tool_lane \<Rightarrow> string" where
  "lane_title l =
     (case l of Open_lane \<Rightarrow> ''OPEN'' | Evidence_lane \<Rightarrow> ''EVIDENCE'' | Verification_lane \<Rightarrow> ''VERIFICATION''
      | Plan_repair_lane \<Rightarrow> ''PLAN_REPAIR'' | Approval_lane \<Rightarrow> ''APPROVAL'' | Finish_lane \<Rightarrow> ''FINISH'')"

definition renderToolExecutionLane :: "tool_execution_lane option \<Rightarrow> string option" where
  "renderToolExecutionLane lane =
     map_option (\<lambda>l.
       js_join [CHR 0x0A]
         [''[TOOL EXECUTION LANE: '' @ lane_title (ln_lane l) @ '' / '' @ action_text (ln_action l) @ '']'',
          ''Projection '' @ ln_hash l @ '' is frozen for this model turn and tool batch.'',
          ''Reachable tools: '' @
            (if ln_allowedTools l \<noteq> [] then js_join '', '' (ln_allowedTools l)
             else ''(no tools; return plain text to hand control to the completion gate)'') @ ''.'',
          ln_instruction l,
          ''This lane only removes capabilities. Mode, write lock, permission, contracts, idempotency, evidence and completion gates still apply.'']) lane"

subsection \<open>A lane only narrows\<close>

text \<open>The tools that edit workspace files directly.\<close>

definition EDIT_TOOLS :: "string list" where
  "EDIT_TOOLS = [''Edit'', ''Write'', ''ApplyPatch'']"

lemmas lane_tool_sets =
  INSPECTION_TOOLS_def EVIDENCE_TOOLS_def VERIFICATION_TOOLS_def PLAN_REPAIR_TOOLS_def
  PLAN_REPAIR_ACTIVE_TOOLS_def APPROVAL_TOOLS_def FINISH_TOOLS_def

lemma stableNames_set: "set xs = set ys \<Longrightarrow> stableNames xs = stableNames ys"
  by (simp add: stableNames_def sorted_distinct_set_unique)

lemma set_stableNames [simp]: "set (stableNames xs) = set xs"
  by (simp add: stableNames_def)

lemma allow_set_no_edit:
  assumes "allowSetFor a r = Some names"
  shows "set names \<inter> set EDIT_TOOLS = {}"
proof -
  have "\<forall>n \<in> set EDIT_TOOLS. n \<notin> set INSPECTION_TOOLS" by (simp add: EDIT_TOOLS_def INSPECTION_TOOLS_def)
  then show ?thesis
    using assms
    by (cases a) (auto simp: allowSetFor_def EVIDENCE_TOOLS_def VERIFICATION_TOOLS_def PLAN_REPAIR_TOOLS_def
        PLAN_REPAIR_ACTIVE_TOOLS_def APPROVAL_TOOLS_def FINISH_TOOLS_def EDIT_TOOLS_def split: if_splits)
qed

lemma allow_set_no_shell:
  assumes "allowSetFor a r = Some names" "laneFor a \<in> {Plan_repair_lane, Approval_lane, Finish_lane}"
  shows "''Shell'' \<notin> set names"
proof -
  have "''Shell'' \<notin> set INSPECTION_TOOLS" by (simp add: INSPECTION_TOOLS_def)
  then show ?thesis
    using assms
    by (cases a) (auto simp: allowSetFor_def laneFor_def PLAN_REPAIR_TOOLS_def PLAN_REPAIR_ACTIVE_TOOLS_def
        APPROVAL_TOOLS_def FINISH_TOOLS_def split: if_splits)
qed

lemma laneFor_open: "allowSetFor a r = None \<longleftrightarrow> laneFor a = Open_lane"
  by (cases a) (simp_all add: allowSetFor_def laneFor_def)

lemma lane_shape:
  assumes "buildToolExecutionLane H i = Inr (Some l)"
  shows "ln_lane l = laneFor (ln_action l)"
    "ln_allowedTools l = (case allowSetFor (ln_action l) (li_replanning i) of
       None \<Rightarrow> stableNames (li_candidateTools i)
     | Some names \<Rightarrow> filter (\<lambda>n. n \<in> set names) (stableNames (li_candidateTools i)))"
    "ln_blockedTools l = filter (\<lambda>n. n \<notin> set (ln_allowedTools l)) (stableNames (li_candidateTools i))"
  using assms
  by (auto simp: buildToolExecutionLane_def Let_def split: option.splits if_splits)

lemma lane_candidates:
  assumes "stableNames xs = stableNames (li_candidateTools i)"
  shows "buildToolExecutionLane H (i\<lparr>li_candidateTools := xs\<rparr>) = buildToolExecutionLane H i"
  using assms by (simp add: buildToolExecutionLane_def Let_def cong: option.case_cong if_cong)

lemma names_filtered: "set (map td_name (filter (\<lambda>t. td_name t \<in> A) ts)) = set (map td_name ts) \<inter> A"
  by auto

text \<open>
  A lane only takes tools away, and always the same ones. Of the tools that mode and
  write lock admit it allows a part and blocks the rest; in every lane but the open one no
  tool that edits files is allowed, and while a plan is repaired, approved or finished no
  writing shell either. The lane and its hash do not depend on the order or repetition of the
  candidates, and with the candidates the engine passes the registry shows exactly the
  allowed tools.
\<close>

theorem lane_only_narrows:
  assumes "buildToolExecutionLane H i = Inr (Some l)"
  shows "set (ln_allowedTools l) \<union> set (ln_blockedTools l) = set (li_candidateTools i) \<and>
    set (ln_allowedTools l) \<inter> set (ln_blockedTools l) = {} \<and>
    (ln_lane l \<noteq> Open_lane \<longrightarrow> set (ln_allowedTools l) \<inter> set EDIT_TOOLS = {}) \<and>
    (ln_lane l \<in> {Plan_repair_lane, Approval_lane, Finish_lane} \<longrightarrow> ''Shell'' \<notin> set (ln_allowedTools l)) \<and>
    (\<forall>xs. set xs = set (li_candidateTools i) \<longrightarrow>
       buildToolExecutionLane H (i\<lparr>li_candidateTools := xs\<rparr>) = Inr (Some l)) \<and>
    (\<forall>reg. li_candidateTools i = map td_name (available_tools reg mode locked None) \<longrightarrow>
       set (map td_name (available_tools reg mode locked (Some l))) = set (ln_allowedTools l))"
proof (intro conjI impI allI)
  note shape = lane_shape [OF assms]
  show "set (ln_allowedTools l) \<union> set (ln_blockedTools l) = set (li_candidateTools i)"
    by (auto simp: shape(2, 3) split: option.splits)
  show "set (ln_allowedTools l) \<inter> set (ln_blockedTools l) = {}" by (auto simp: shape(3))
  have sub: "set (ln_allowedTools l) \<subseteq> set (li_candidateTools i)"
    by (auto simp: shape(2) split: option.splits)
  show "set (ln_allowedTools l) \<inter> set EDIT_TOOLS = {}" if "ln_lane l \<noteq> Open_lane"
    using that laneFor_open allow_set_no_edit [of "ln_action l" "li_replanning i"]
    by (auto simp: shape(1, 2) split: option.splits)
  show "''Shell'' \<notin> set (ln_allowedTools l)" if "ln_lane l \<in> {Plan_repair_lane, Approval_lane, Finish_lane}"
    using that laneFor_open allow_set_no_shell [of "ln_action l" "li_replanning i"]
    by (auto simp: shape(1, 2) split: option.splits)
  show "buildToolExecutionLane H (i\<lparr>li_candidateTools := xs\<rparr>) = Inr (Some l)"
    if "set xs = set (li_candidateTools i)" for xs
    using lane_candidates [OF stableNames_set [OF that]] assms by simp
  show "set (map td_name (available_tools reg mode locked (Some l))) = set (ln_allowedTools l)"
    if "li_candidateTools i = map td_name (available_tools reg mode locked None)"
    for reg :: "'b tool_registry"
    using sub unfolding that available_tools_def isToolAllowedByLane_def option.case names_filtered by auto
qed

definition demo_lane_input :: lane_input where
  "demo_lane_input =
     \<lparr>li_assessment = Some (demo_health\<lparr>ph_status := Healthy,
        ph_decision := (ph_decision demo_health)\<lparr>sd_action := Finish\<rparr>\<rparr>),
      li_mode = Default_mode, li_writeLocked = False, li_candidateTools = [''Edit'', ''Read'', ''Shell''], li_replanning = False\<rparr>"

lemma lane_only_narrows_witness:
  "\<exists>l. buildToolExecutionLane demo_host demo_lane_input = Inr (Some l) \<and> ln_allowedTools l = [''Read''] \<and>
     set (ln_allowedTools l) \<union> set (ln_blockedTools l) = {''Edit'', ''Read'', ''Shell''}"
proof -
  obtain l where l: "buildToolExecutionLane demo_host demo_lane_input = Inr (Some l)" "ln_allowedTools l = [''Read'']"
    by (simp add: buildToolExecutionLane_def Let_def demo_lane_input_def allowSetFor_def FINISH_TOOLS_def
        INSPECTION_TOOLS_def stableNames_def js_uniq_def)
  then show ?thesis
    using conjunct1 [OF lane_only_narrows [OF l(1)]] by (intro exI [of _ l]) (simp add: demo_lane_input_def)
qed

end
