(* ===== verification/ShellPolicy.thy ===== *)
theory ShellPolicy
  imports JsData
begin

text \<open>
  The conservative analysis of shell commands (policy/shellPolicy.ts): the quote-aware
  tokenizer, the classification of a command, and the environment a child process inherits.
  A lookup in the plain object of conditional git subcommands also finds the members every
  object inherits; for those the source reads a flag set that does not exist, which throws
  as soon as there is an argument.
\<close>

subsection \<open>Tokens\<close>

definition is_quote :: "char \<Rightarrow> bool" where
  "is_quote c \<longleftrightarrow> c = CHR 0x22 \<or> c = CHR 0x27"

definition is_blank :: "char \<Rightarrow> bool" where
  "is_blank c \<longleftrightarrow> c = CHR 0x20 \<or> c = CHR 0x09"

definition end_token :: "string list \<Rightarrow> string \<Rightarrow> string list" where
  "end_token tokens current = (if current \<noteq> [] then tokens @ [current] else tokens)"

fun tokenize_from :: "string list \<Rightarrow> string \<Rightarrow> char option \<Rightarrow> string \<Rightarrow> string list option" where
  "tokenize_from tokens current (Some q) [] = None"
| "tokenize_from tokens current None [] = Some (end_token tokens current)"
| "tokenize_from tokens current (Some q) (c # cs) =
     (if c = q then tokenize_from tokens current None cs else tokenize_from tokens (current @ [c]) (Some q) cs)"
| "tokenize_from tokens current None (c # cs) =
     (if is_quote c then tokenize_from tokens current (Some c) cs
      else if is_blank c then tokenize_from (end_token tokens current) [] None cs
      else tokenize_from tokens (current @ [c]) None cs)"

definition tokenize :: "string \<Rightarrow> string list option" where
  "tokenize input = tokenize_from [] [] None input"

subsection \<open>Classification\<close>

definition METACHARACTERS :: "string" where
  "METACHARACTERS = ''|&;<>$'' @ [CHR 0x60, CHR 0x5C, CHR 0x0A] @ ''()*?~#{}!''"

definition READONLY_COMMANDS :: "string list" where
  "READONLY_COMMANDS =
     [''ls'', ''dir'', ''cat'', ''type'', ''head'', ''tail'', ''wc'', ''pwd'', ''whoami'', ''echo'', ''date'', ''grep'',
      ''rg'', ''which'', ''where'', ''file'', ''stat'', ''du'', ''df'', ''node'', ''npm'', ''git'']"

definition GIT_READONLY_SUBCOMMANDS :: "string list" where
  "GIT_READONLY_SUBCOMMANDS = [''status'', ''log'', ''diff'', ''show'', ''ls-files'', ''blame'', ''rev-parse'']"

record git_flags =
  gf_safe :: "string list"
  gf_dangerous :: "string list"

definition GIT_CONDITIONAL_SUBCOMMANDS :: "git_flags jsobj" where
  "GIT_CONDITIONAL_SUBCOMMANDS =
     [(''branch'', \<lparr>gf_safe = [''-a'', ''-r'', ''-v'', ''--list'', ''--all'', ''--remotes'', ''--verbose'',
          ''--contains'', ''--merged'', ''--no-merged''],
        gf_dangerous = [''-D'', ''-d'', ''--delete'', ''--force'']\<rparr>),
      (''stash'', \<lparr>gf_safe = [''list'', ''show''], gf_dangerous = [''drop'', ''clear'', ''pop'', ''apply'']\<rparr>),
      (''tag'', \<lparr>gf_safe = [''-l'', ''--list'', ''-n'', ''-v'', ''--verify''], gf_dangerous = [''-d'', ''--delete'']\<rparr>)]"

definition NPM_READONLY_SUBCOMMANDS :: "string list" where
  "NPM_READONLY_SUBCOMMANDS = [''ls'', ''view'', ''outdated'', ''ping'']"

definition DANGEROUS_COMMANDS :: "string list" where
  "DANGEROUS_COMMANDS =
     [''rm'', ''rmdir'', ''del'', ''erase'', ''format'', ''mkfs'', ''dd'', ''shutdown'', ''reboot'', ''chown'', ''chmod'',
      ''icacls'', ''takeown'', ''reg'', ''sc'', ''schtasks'', ''curl'', ''wget'', ''invoke-webrequest'', ''iwr'', ''eval'',
      ''exec'', ''source'', ''rd'', ''move'', ''ren'', ''rename'']"

definition FIND_DANGEROUS :: "string list" where
  "FIND_DANGEROUS = [''-delete'', ''-exec'', ''-execdir'', ''-ok'', ''-okdir'', ''-fprint'', ''-fprint0'', ''-fprintf'', ''-fls'']"

datatype shell_class = Sh_readonly | Sh_write | Sh_dangerous | Sh_unparseable

record shell_analysis =
  sa_class :: shell_class
  sa_argv :: "string list"
  sa_reason :: "string option"

definition sh_result :: "shell_class \<Rightarrow> string list \<Rightarrow> string option \<Rightarrow> shell_analysis" where
  "sh_result c argv reason = \<lparr>sa_class = c, sa_argv = argv, sa_reason = reason\<rparr>"

text \<open>\<open>argv[1]?.toLowerCase()\<close>\<close>

definition subcommand :: "string list \<Rightarrow> string option" where
  "subcommand argv = (case argv of _ # s # _ \<Rightarrow> Some (to_lower s) | _ \<Rightarrow> None)"

definition or_text :: "string option \<Rightarrow> string" where
  "or_text v = (case v of None \<Rightarrow> [] | Some s \<Rightarrow> s)"

definition output_bearing :: "string \<Rightarrow> bool" where
  "output_bearing arg \<longleftrightarrow>
     arg = ''--output'' \<or> starts_with arg ''--output='' \<or> arg = ''--ext-diff'' \<or> arg = ''--textconv''"

definition readonly_remote :: "string list \<Rightarrow> bool" where
  "readonly_remote args \<longleftrightarrow>
     args = [] \<or> args = [''-v''] \<or>
     (case args of a # rest \<Rightarrow> a = ''show'' \<and> list_all (\<lambda>x. \<not> starts_with x ''-'') rest | [] \<Rightarrow> False)"

definition git_conditional :: "string list \<Rightarrow> string \<Rightarrow> string list \<Rightarrow> git_flags \<Rightarrow> shell_analysis" where
  "git_conditional argv sub args flags =
     (if list_ex (\<lambda>a. a \<in> set (gf_dangerous flags)) args
      then sh_result Sh_write argv (Some (''git '' @ sub @ '' with destructive flag''))
      else if (if sub = ''stash'' then (case args of a # _ \<Rightarrow> a = ''list'' \<or> a = ''show'' | [] \<Rightarrow> False)
               else args = [] \<or> list_all (\<lambda>a. a \<in> set (gf_safe flags)) args)
      then sh_result Sh_readonly argv None
      else sh_result Sh_write argv (Some (''git '' @ sub @ '' may mutate refs or state'')))"

definition analyze_git :: "string list \<Rightarrow> js_error + shell_analysis" where
  "analyze_git argv =
     (let sub = subcommand argv; args = drop 2 argv
      in if list_ex output_bearing args
         then Inr (sh_result Sh_write argv (Some (''git '' @ or_text sub @ '' may write output or execute a diff helper'')))
         else (case sub of
                 None \<Rightarrow> Inr (sh_result Sh_write argv (Some ''git  may write''))
               | Some s \<Rightarrow>
                   if s = ''remote''
                   then Inr (if readonly_remote args then sh_result Sh_readonly argv None
                             else sh_result Sh_write argv (Some ''git remote mutation''))
                   else if s \<in> set GIT_READONLY_SUBCOMMANDS then Inr (sh_result Sh_readonly argv None)
                   else (case obj_get GIT_CONDITIONAL_SUBCOMMANDS s of
                           Some flags \<Rightarrow> Inr (git_conditional argv s args flags)
                         | None \<Rightarrow>
                             if obj_defined GIT_CONDITIONAL_SUBCOMMANDS s
                             then (if args = [] then Inr (sh_result Sh_readonly argv None) else Inl (JsError ''TypeError''))
                             else Inr (sh_result Sh_write argv (Some (''git '' @ s @ '' may write''))))))"

definition analyze_npm :: "string list \<Rightarrow> shell_analysis" where
  "analyze_npm argv =
     (case subcommand argv of
        Some s \<Rightarrow> if s \<in> set NPM_READONLY_SUBCOMMANDS then sh_result Sh_readonly argv None
                  else sh_result Sh_write argv (Some (''npm '' @ s @ '' may write''))
      | None \<Rightarrow> sh_result Sh_write argv (Some ''npm  may write''))"

definition analyze_node :: "string list \<Rightarrow> shell_analysis" where
  "analyze_node argv =
     (if subcommand argv = Some ''--version'' \<or> subcommand argv = Some ''-v'' then sh_result Sh_readonly argv None
      else sh_result Sh_write argv (Some ''node executes arbitrary code''))"

definition readonly_date_arg :: "string \<Rightarrow> bool" where
  "readonly_date_arg arg \<longleftrightarrow>
     arg \<in> {''/T'', ''-u'', ''--utc'', ''--universal'', ''-R'', ''--rfc-email''} \<or>
     list_ex (starts_with arg) [''+'', ''--iso-8601='', ''--rfc-3339='', ''--date='', ''--reference='']"

definition file_compile_arg :: "string \<Rightarrow> bool" where
  "file_compile_arg arg \<longleftrightarrow>
     arg = ''--compile'' \<or>
     (case arg of d # body \<Rightarrow> d = CHR ''-'' \<and> body \<noteq> [] \<and> CHR ''-'' \<notin> set body \<and> CHR ''C'' \<in> set body | [] \<Rightarrow> False)"

text \<open>The argument checks of the otherwise read-only commands: the reason to refuse.\<close>

definition dangerous_argument :: "string \<Rightarrow> string list \<Rightarrow> string option" where
  "dangerous_argument head args =
     (if head = ''find'' then
        map_option (\<lambda>a. ''find with destructive argument: '' @ a) (List.find (\<lambda>a. a \<in> set FIND_DANGEROUS) args)
      else if head = ''rg'' then
        map_option (\<lambda>a. ''rg may execute a preprocessor: '' @ a)
          (List.find (\<lambda>a. a = ''--pre'' \<or> starts_with a ''--pre='') args)
      else if head = ''date'' then
        (if list_all readonly_date_arg args then None
         else Some ''date arguments are outside the audited read-only grammar'')
      else if head = ''file'' then
        map_option (\<lambda>a. ''file may compile and write a magic database: '' @ a) (List.find file_compile_arg args)
      else None)"

definition analyze_argv :: "string list \<Rightarrow> js_error + shell_analysis" where
  "analyze_argv argv =
     (let head = to_lower (hd argv)
      in if head \<in> set DANGEROUS_COMMANDS
         then Inr (sh_result Sh_dangerous argv (Some (''dangerous command: '' @ head)))
         else if head = ''git'' then analyze_git argv
         else if head = ''npm'' \<or> head = ''npm.cmd'' then Inr (analyze_npm argv)
         else if head = ''node'' then Inr (analyze_node argv)
         else (case dangerous_argument head (tl argv) of
                 Some reason \<Rightarrow> Inr (sh_result Sh_dangerous argv (Some reason))
               | None \<Rightarrow>
                   if head = ''find'' \<or> head \<in> set READONLY_COMMANDS then Inr (sh_result Sh_readonly argv None)
                   else Inr (sh_result Sh_write argv None)))"

definition analyzeShellCommand :: "string \<Rightarrow> js_error + shell_analysis" where
  "analyzeShellCommand command =
     (let trimmed = js_trim command
      in if trimmed = [] then Inr (sh_result Sh_unparseable [] (Some ''empty command''))
         else if list_ex (\<lambda>c. c \<in> set METACHARACTERS) trimmed
         then Inr (sh_result Sh_unparseable [] (Some ''contains shell metacharacters (pipes, redirects, substitution...)''))
         else (case tokenize trimmed of
                 None \<Rightarrow> Inr (sh_result Sh_unparseable [] (Some ''tokenize failed''))
               | Some argv \<Rightarrow> if argv = [] then Inr (sh_result Sh_unparseable [] (Some ''tokenize failed''))
                              else analyze_argv argv))"

subsection \<open>The environment of a child process\<close>

text \<open>\<open>toUpperCase\<close> within the code units modelled.\<close>

definition to_upper_char :: "char \<Rightarrow> char" where
  "to_upper_char c =
     (let n = (of_char c :: nat)
      in if (97 \<le> n \<and> n \<le> 122) \<or> (224 \<le> n \<and> n \<le> 254 \<and> n \<noteq> 247) then char_of (n - 32) else c)"

definition to_upper :: "string \<Rightarrow> string" where
  "to_upper s = map to_upper_char s"

definition ALLOWED_ENV_VARS :: "string list" where
  "ALLOWED_ENV_VARS =
     [''PATH'', ''PATHEXT'', ''PWD'', ''SYSTEMROOT'', ''SYSTEMDRIVE'', ''COMSPEC'', ''OS'', ''PROCESSOR_ARCHITECTURE'',
      ''NUMBER_OF_PROCESSORS'', ''PROGRAMDATA'', ''PROGRAMFILES'', ''PROGRAMFILES(X86)'', ''APPDATA'', ''LOCALAPPDATA'',
      ''USERPROFILE'', ''HOMEPATH'', ''HOMEDRIVE'', ''TEMP'', ''TMP'', ''USERNAME'', ''USERDOMAIN'', ''WINDIR'', ''HOME'',
      ''USER'', ''LOGNAME'', ''SHELL'', ''TERM'', ''LANG'', ''LC_ALL'', ''LC_CTYPE'', ''TMPDIR'', ''HOSTNAME'', ''CI'',
      ''TZ'', ''EDITOR'', ''SHLVL'']"

definition extra_allow :: "string jsobj \<Rightarrow> string list" where
  "extra_allow base =
     filter (\<lambda>n. n \<noteq> [])
       (map (\<lambda>n. to_upper (js_trim n)) (split_char (CHR '','') (or_text (obj_get base ''AGENT_ENV_ALLOW''))))"

definition sanitizedEnv :: "string jsobj \<Rightarrow> string jsobj" where
  "sanitizedEnv base =
     filter (\<lambda>(k, v). to_upper k \<in> set (ALLOWED_ENV_VARS @ extra_allow base)) (obj_entries base)"

subsection \<open>The shell's own words\<close>

text \<open>
  How a POSIX shell splits a command that holds no metacharacter and no backslash: a word is
  a non-empty sequence of bare characters and quoted pieces, and words are separated by
  blanks. Unlike the tokenizer, the shell keeps a word that quoting makes empty.
\<close>

inductive shell_word :: "string \<Rightarrow> string \<Rightarrow> bool" where
  word_end: "shell_word [] []"
| word_bare: "\<not> is_blank c \<Longrightarrow> \<not> is_quote c \<Longrightarrow> shell_word t v \<Longrightarrow> shell_word (c # t) (c # v)"
| word_quoted: "is_quote q \<Longrightarrow> q \<notin> set body \<Longrightarrow> shell_word t v \<Longrightarrow> shell_word (q # body @ q # t) (body @ v)"

inductive shell_words :: "string \<Rightarrow> string list \<Rightarrow> bool" where
  words_end: "list_all is_blank s \<Longrightarrow> shell_words s []"
| words_more: "list_all is_blank bs \<Longrightarrow> shell_word t v \<Longrightarrow> t \<noteq> [] \<Longrightarrow> rest = [] \<or> is_blank (hd rest) \<Longrightarrow>
     shell_words rest vs \<Longrightarrow> shell_words (bs @ t @ rest) (v # vs)"

inductive_cases shell_words_NilE: "shell_words [] vs"

lemma quote_not_blank: "is_quote c \<Longrightarrow> \<not> is_blank c"
  by (auto simp: is_quote_def is_blank_def)

lemma end_token_Nil [simp]: "end_token tokens [] = tokens"
  by (simp add: end_token_def)

lemma tokenize_blanks:
  "list_all is_blank bs \<Longrightarrow> tokenize_from tokens [] None (bs @ s) = tokenize_from tokens [] None s"
  by (induction bs) (auto dest: quote_not_blank)

lemma tokenize_quoted:
  "q \<notin> set body \<Longrightarrow>
   tokenize_from tokens current (Some q) (body @ q # s) = tokenize_from tokens (current @ body) None s"
  by (induction body arbitrary: current) auto

lemma tokenize_word:
  "shell_word t v \<Longrightarrow> tokenize_from tokens current None (t @ s) = tokenize_from tokens (current @ v) None s"
proof (induction arbitrary: current rule: shell_word.induct)
  case (word_quoted q body t v)
  then show ?case using tokenize_quoted [of q body tokens current "t @ s"] by simp
qed simp_all

lemma tokenize_words:
  "shell_words s vs \<Longrightarrow> tokenize_from tokens [] None s = Some (tokens @ filter (\<lambda>v. v \<noteq> []) vs)"
proof (induction arbitrary: tokens rule: shell_words.induct)
  case (words_end s)
  then show ?case using tokenize_blanks [of s tokens "[]"] by simp
next
  case (words_more bs t v rest vs)
  have split: "tokenize_from tokens [] None (bs @ t @ rest) = tokenize_from tokens v None rest"
    using words_more(1, 2) tokenize_word [of t v tokens "[]" rest] by (simp add: tokenize_blanks)
  show ?case
  proof (cases rest)
    case Nil
    then have "vs = []" using words_more(5) by (auto elim: shell_words_NilE)
    then show ?thesis using split by (simp add: Nil end_token_def)
  next
    case (Cons c cs)
    then have c: "is_blank c" "\<not> is_quote c" using words_more(4) quote_not_blank by auto
    have "tokenize_from tokens v None rest = tokenize_from (end_token tokens v) [] None rest"
      using c by (simp add: Cons)
    then show ?thesis unfolding split using words_more.IH by (simp add: end_token_def)
  qed
qed

lemma tokenize_closes:
  "tokenize_from tokens current (Some q) s \<noteq> None \<Longrightarrow>
   \<exists>body rest current'. s = body @ q # rest \<and> q \<notin> set body \<and> tokenize_from tokens current' None rest \<noteq> None"
proof (induction s arbitrary: current)
  case (Cons c cs)
  show ?case
  proof (cases "c = q")
    case True
    show ?thesis by (rule exI [of _ "[]"]) (use True Cons.prems in auto)
  next
    case False
    then obtain body rest current' where *: "cs = body @ q # rest" "q \<notin> set body"
      "tokenize_from tokens current' None rest \<noteq> None"
      using Cons.IH [of "current @ [c]"] Cons.prems by auto
    show ?thesis by (rule exI [of _ "c # body"]) (use * False in auto)
  qed
qed simp

lemma shell_words_blank: "is_blank c \<Longrightarrow> shell_words cs vs \<Longrightarrow> shell_words (c # cs) vs"
proof (erule shell_words.cases, goal_cases)
  case (1 s)
  then show ?case by (simp add: words_end)
next
  case (2 bs t v rest vs)
  then show ?case using shell_words.words_more [of "c # bs" t v rest vs] by simp
qed

lemma tokenize_splits:
  "tokenize_from tokens current None s \<noteq> None \<Longrightarrow>
   \<exists>t v rest vs. s = t @ rest \<and> shell_word t v \<and> (rest = [] \<or> is_blank (hd rest)) \<and> shell_words rest vs"
proof (induction "length s" arbitrary: tokens current s rule: less_induct)
  case less
  show ?case
  proof (cases s)
    case Nil
    then show ?thesis by (intro exI [of _ "[]"]) (auto intro: word_end words_end)
  next
    case (Cons c cs)
    consider (quote) "is_quote c" | (blank) "is_blank c" "\<not> is_quote c" | (bare) "\<not> is_quote c" "\<not> is_blank c"
      by blast
    then show ?thesis
    proof cases
      case quote
      then obtain body r current' where cs: "cs = body @ c # r" "c \<notin> set body"
        "tokenize_from tokens current' None r \<noteq> None"
        using tokenize_closes [of tokens current c cs] less.prems by (auto simp: Cons)
      then obtain t v rest vs where w: "r = t @ rest" "shell_word t v" "rest = [] \<or> is_blank (hd rest)"
        "shell_words rest vs"
        using less.hyps [of r tokens current'] by (auto simp: Cons)
      show ?thesis
        by (rule exI [of _ "c # body @ c # t"], rule exI [of _ "body @ v"], rule exI [of _ rest])
          (use quote cs w in \<open>auto simp: Cons intro: word_quoted\<close>)
    next
      case blank
      then have "tokenize_from (end_token tokens current) [] None cs \<noteq> None" using less.prems by (simp add: Cons)
      then obtain t v rest vs where w: "cs = t @ rest" "shell_word t v" "rest = [] \<or> is_blank (hd rest)"
        "shell_words rest vs"
        using less.hyps [of cs "end_token tokens current" "[]"] by (auto simp: Cons)
      have all: "\<exists>vs. shell_words s vs"
      proof (cases "t = []")
        case True
        then show ?thesis using w blank shell_words_blank by (auto simp: Cons)
      next
        case False
        then show ?thesis
          using w blank shell_words.words_more [of "[c]" t v rest vs] by (auto simp: Cons)
      qed
      show ?thesis
        by (rule exI [of _ "[]"], rule exI [of _ "[]"], rule exI [of _ s]) (use blank all in \<open>auto simp: Cons intro: word_end\<close>)
    next
      case bare
      then have "tokenize_from tokens (current @ [c]) None cs \<noteq> None" using less.prems by (simp add: Cons)
      then obtain t v rest vs where w: "cs = t @ rest" "shell_word t v" "rest = [] \<or> is_blank (hd rest)"
        "shell_words rest vs"
        using less.hyps [of cs tokens "current @ [c]"] by (auto simp: Cons)
      show ?thesis
        by (rule exI [of _ "c # t"], rule exI [of _ "c # v"], rule exI [of _ rest]) (use bare w in \<open>auto simp: Cons intro: word_bare\<close>)
    qed
  qed
qed

lemma tokenize_complete: "tokenize s \<noteq> None \<Longrightarrow> \<exists>vs. shell_words s vs"
proof -
  assume "tokenize s \<noteq> None"
  then obtain t v rest vs where "s = t @ rest" "shell_word t v" "rest = [] \<or> is_blank (hd rest)" "shell_words rest vs"
    using tokenize_splits unfolding tokenize_def by blast
  then show ?thesis using shell_words.words_more [of "[]" t v rest vs] by (cases "t = []") auto
qed

text \<open>
  The tokenizer reads a command as the shell will. It accepts exactly the texts with
  balanced quotes, and its tokens are the words the shell will see, without the empty ones.
\<close>

theorem tokens_are_shell_words:
  "tokenize s = Some ts \<longleftrightarrow> (\<exists>ws. shell_words s ws \<and> ts = filter (\<lambda>w. w \<noteq> []) ws)"
proof
  assume t: "tokenize s = Some ts"
  then obtain ws where "shell_words s ws" using tokenize_complete [of s] by auto
  then show "\<exists>ws. shell_words s ws \<and> ts = filter (\<lambda>w. w \<noteq> []) ws"
    using t tokenize_words [of s ws "[]"] by (auto simp: tokenize_def)
next
  assume "\<exists>ws. shell_words s ws \<and> ts = filter (\<lambda>w. w \<noteq> []) ws"
  then show "tokenize s = Some ts" using tokenize_words [of s _ "[]"] by (auto simp: tokenize_def)
qed

text \<open>
  A read-only command, declaratively: which programs, and which of their arguments. The git
  subcommands that an object inherits are the ones the source finds by accident.
\<close>

definition audited_git :: "string list \<Rightarrow> bool" where
  "audited_git argv \<longleftrightarrow>
     \<not> list_ex output_bearing (drop 2 argv) \<and>
     (\<exists>sub. subcommand argv = Some sub \<and>
        (sub \<in> set GIT_READONLY_SUBCOMMANDS \<or>
         (sub = ''remote'' \<and> readonly_remote (drop 2 argv)) \<or>
         (\<exists>flags. obj_get GIT_CONDITIONAL_SUBCOMMANDS sub = Some flags \<and>
            (\<forall>a \<in> set (drop 2 argv). a \<notin> set (gf_dangerous flags)) \<and>
            (sub \<noteq> ''stash'' \<longrightarrow> (\<forall>a \<in> set (drop 2 argv). a \<in> set (gf_safe flags)))) \<or>
         (sub \<in> set object_prototype_keys \<and> drop 2 argv = [])))"

definition audited :: "string list \<Rightarrow> bool" where
  "audited argv \<longleftrightarrow> argv \<noteq> [] \<and>
     (let head = to_lower (hd argv)
      in head \<notin> set DANGEROUS_COMMANDS \<and> dangerous_argument head (tl argv) = None \<and>
         (if head = ''git'' then audited_git argv
          else if head = ''npm'' \<or> head = ''npm.cmd'' then \<exists>s \<in> set NPM_READONLY_SUBCOMMANDS. subcommand argv = Some s
          else if head = ''node'' then subcommand argv = Some ''--version'' \<or> subcommand argv = Some ''-v''
          else head = ''find'' \<or> head \<in> set READONLY_COMMANDS))"

lemma sh_result_simps [simp]:
  "sa_class (sh_result c argv reason) = c" "sa_argv (sh_result c argv reason) = argv"
  "sa_reason (sh_result c argv reason) = reason"
  by (simp_all add: sh_result_def)

lemma git_readonly:
  assumes "analyze_git argv = Inr a" "sa_class a = Sh_readonly"
  shows "audited_git argv \<and> sa_argv a = argv"
proof -
  have "sa_class (git_conditional argv s args flags) = Sh_readonly \<Longrightarrow>
      sa_argv (git_conditional argv s args flags) = argv \<and> (\<forall>x \<in> set args. x \<notin> set (gf_dangerous flags)) \<and>
      (s \<noteq> ''stash'' \<longrightarrow> (\<forall>x \<in> set args. x \<in> set (gf_safe flags)))" for s args flags
    by (auto simp: git_conditional_def list_ex_iff list_all_iff split: if_splits)
  then show ?thesis
    using assms
    by (auto simp: analyze_git_def audited_git_def Let_def obj_defined_def split: if_splits option.splits)
qed

lemma argv_readonly:
  assumes "analyze_argv argv = Inr a" "sa_class a = Sh_readonly" "argv \<noteq> []"
  shows "audited argv \<and> sa_argv a = argv"
proof (cases "to_lower (hd argv) = ''git''")
  case True
  then show ?thesis
    using assms git_readonly [of argv a]
    by (simp add: analyze_argv_def audited_def DANGEROUS_COMMANDS_def dangerous_argument_def)
next
  case False
  then show ?thesis
    using assms
    by (auto simp: analyze_argv_def audited_def Let_def analyze_npm_def analyze_node_def dangerous_argument_def
        split: if_splits option.splits)
qed



text \<open>A subcommand every object inherits passes without arguments, and throws with one.\<close>

lemma inherited_subcommand:
  "analyzeShellCommand ''git constructor'' = Inr (sh_result Sh_readonly [''git'', ''constructor''] None)"
  "analyzeShellCommand ''git constructor x'' = Inl (JsError ''TypeError'')"
  by code_simp+

text \<open>An empty quoted argument is dropped, so the analysis sees another command than the shell.\<close>

lemma empty_argument_dropped:
  "analyzeShellCommand ([CHR ''n'', CHR ''o'', CHR ''d'', CHR ''e'', CHR '' '', CHR 0x22, CHR 0x22] @ '' -v'')
     = Inr (sh_result Sh_readonly [''node'', ''-v''] None)"
  by code_simp

subsection \<open>What a child process inherits\<close>

lemma sanitized_env_allowlist:
  "set (sanitizedEnv base) = {(k, v) \<in> set base. to_upper k \<in> set (ALLOWED_ENV_VARS @ extra_allow base)}"
  by (auto simp: sanitizedEnv_def)

end
