(* ===== verification/Policy.thy ===== *)
theory Policy
  imports Lane ShellPolicy
begin

text \<open>
  The permission engine (policy/PolicyEngine.ts). The user behind the ask handler, the tool's
  own \<open>permission\<close> and the clock are parameters; a left value is an exception that leaves
  \<open>decide\<close>.
\<close>

datatype matcher_kind = Exact_match | Prefix_match | Path_match | Argv_match

datatype matcher_value = One_value string | Many_values "string list"

datatype rule_scope = Once_scope | Session_scope | Project_scope | User_scope

record permission_rule =
  ru_id :: string
  ru_effect :: permission_behavior
  ru_tool :: string
  ru_matcher :: "(matcher_kind \<times> matcher_value) option"
  ru_scope :: rule_scope
  ru_source :: rule_source

record 'w policy_request =
  rq_tool :: "'w tool_definition"
  rq_input :: json
  rq_callId :: string
  rq_mode :: agent_mode
  rq_context :: tool_context

text \<open>The user's answer: whether to allow.\<close>

type_synonym 'w ask_handler = "'w policy_request \<Rightarrow> permission_reason \<Rightarrow> bool"

text \<open>\<open>typeof input?.k === 'string' ? input.k : undefined\<close>\<close>

definition text_field :: "json \<Rightarrow> string \<Rightarrow> string option" where
  "text_field input k =
     (case input of
        JObj ob \<Rightarrow> (case obj_get ob k of Some (JStr s) \<Rightarrow> Some s | _ \<Rightarrow> None)
      | _ \<Rightarrow> None)"

definition shell_analysis_of :: "string \<Rightarrow> tool_exception + shell_analysis" where
  "shell_analysis_of command = (case analyzeShellCommand command of Inl e \<Rightarrow> Inl Other_error | Inr a \<Rightarrow> Inr a)"

definition workspace_write_claim :: "resource_claim \<Rightarrow> bool" where
  "workspace_write_claim c \<longleftrightarrow>
     rc_mode c = Write_access \<and> (rc_resource c = ''workspace:*'' \<or> starts_with (rc_resource c) ''file:'')"

definition isEffectivelyReadOnly :: "'w policy_request \<Rightarrow> bool" where
  "isEffectivelyReadOnly q =
     (case td_readOnly (rq_tool q) (rq_input q) of
        Inr True \<Rightarrow>
          (case td_resources (rq_tool q) (rq_input q) (rq_context q) of
             Inr claims \<Rightarrow> \<not> (td_resourcesExplicit (rq_tool q) \<and> list_ex workspace_write_claim claims)
           | Inl e \<Rightarrow> False)
      | _ \<Rightarrow> False)"

definition path_reason_text :: "path_reason \<Rightarrow> string" where
  "path_reason_text r =
     (case r of Outside_workspace \<Rightarrow> ''outside_workspace'' | Sensitive_path \<Rightarrow> ''sensitive_path''
      | Invalid_path \<Rightarrow> ''invalid_path'' | Symlink_escape \<Rightarrow> ''symlink_escape'')"

definition class_text :: "shell_class \<Rightarrow> string" where
  "class_text c =
     (case c of Sh_readonly \<Rightarrow> ''readonly'' | Sh_write \<Rightarrow> ''write'' | Sh_dangerous \<Rightarrow> ''dangerous''
      | Sh_unparseable \<Rightarrow> ''unparseable'')"

definition write_path_rule :: "host \<Rightarrow> 'w policy_request \<Rightarrow> bool \<Rightarrow> string option" where
  "write_path_rule H q effectiveReadOnly =
     (case truthy (text_field (rq_input q) ''path'') of
        Some path \<Rightarrow>
          if effectiveReadOnly then None
          else let check = checkPath H path (cx_workspaceRoot (rq_context q))
               in if pc_ok check then None
                  else Some (''write_path_'' @ or_text (map_option path_reason_text (pc_reason check)))
      | None \<Rightarrow> None)"

definition shell_rule :: "'w policy_request \<Rightarrow> tool_exception + string option" where
  "shell_rule q =
     (case truthy (text_field (rq_input q) ''command'') of
        Some command \<Rightarrow>
          if td_name (rq_tool q) = ''Shell'' \<or> td_name (rq_tool q) = ''ShellReadOnly''
          then (case shell_analysis_of command of
                  Inl e \<Rightarrow> Inl e
                | Inr a \<Rightarrow> Inr
                    (if sa_class a = Sh_dangerous then Some (''shell_dangerous:'' @ or_text (sa_reason a))
                     else if td_name (rq_tool q) = ''ShellReadOnly'' \<and> sa_class a \<noteq> Sh_readonly
                     then Some (''shell_readonly_violation:'' @ class_text (sa_class a)) else None))
          else Inr None
      | None \<Rightarrow> Inr None)"

definition hardSafetyCheck :: "host \<Rightarrow> 'w policy_request \<Rightarrow> bool \<Rightarrow> tool_exception + string option" where
  "hardSafetyCheck H q effectiveReadOnly =
     (case write_path_rule H q effectiveReadOnly of Some r \<Rightarrow> Inr (Some r) | None \<Rightarrow> shell_rule q)"

definition value_list :: "matcher_value \<Rightarrow> string list" where
  "value_list v = (case v of One_value s \<Rightarrow> [s] | Many_values ss \<Rightarrow> ss)"

definition value_text :: "matcher_value \<Rightarrow> string" where
  "value_text v = (case v of One_value s \<Rightarrow> s | Many_values ss \<Rightarrow> js_join '' '' ss)"

text \<open>The specificity of a match, \<open>None\<close> when the rule does not match.\<close>

definition ruleMatches :: "permission_rule \<Rightarrow> json \<Rightarrow> tool_exception + nat option" where
  "ruleMatches r input =
     (case ru_matcher r of
        None \<Rightarrow> Inr (Some 0)
      | Some (kind, value) \<Rightarrow>
          if kind = Argv_match
          then (case shell_analysis_of (or_text (text_field input ''command'')) of
                  Inl e \<Rightarrow> Inl e
                | Inr a \<Rightarrow>
                    if sa_class a = Sh_unparseable then Inr None
                    else let prefix = value_list value
                         in if length (sa_argv a) < length prefix then Inr None
                            else if take (length prefix) (sa_argv a) = prefix then Inr (Some (length prefix * 10))
                            else Inr None)
          else let target = (case text_field input ''path'' of Some p \<Rightarrow> p | None \<Rightarrow> or_text (text_field input ''command''));
                   pattern = value_text value
               in Inr (if kind = Exact_match then (if target = pattern then Some 100 else None)
                       else if starts_with target pattern then Some (length pattern) else None))"

fun best_rule ::
    "json \<Rightarrow> (permission_rule \<times> nat) option \<Rightarrow> permission_rule list \<Rightarrow> tool_exception + permission_rule option" where
  "best_rule input best [] = Inr (map_option fst best)"
| "best_rule input best (r # rs) =
     (case ruleMatches r input of
        Inl e \<Rightarrow> Inl e
      | Inr None \<Rightarrow> best_rule input best rs
      | Inr (Some spec) \<Rightarrow>
          (case best of
             Some (b, n) \<Rightarrow> best_rule input (if n < spec then Some (r, spec) else best) rs
           | None \<Rightarrow> best_rule input (Some (r, spec)) rs))"

definition matchRules ::
    "permission_rule list \<Rightarrow> 'w policy_request \<Rightarrow> permission_behavior \<Rightarrow> tool_exception + permission_rule option" where
  "matchRules rules q effect =
     best_rule (rq_input q) None
       (filter (\<lambda>r. ru_effect r = effect \<and> ru_tool r = td_name (rq_tool q)) rules)"

definition applyMode :: "'w policy_request \<Rightarrow> bool \<Rightarrow> permission_behavior option" where
  "applyMode q readOnly =
     (case rq_mode q of
        Default_mode \<Rightarrow> if readOnly then Some Allow else None
      | Accept_edits \<Rightarrow>
          if readOnly then Some Allow
          else if td_name (rq_tool q) = ''Edit'' \<or> td_name (rq_tool q) = ''Write'' \<or> td_name (rq_tool q) = ''ApplyPatch''
          then Some Allow else None
      | Plan_mode \<Rightarrow> if readOnly then Some Allow else Some Deny
      | Dont_ask \<Rightarrow> if readOnly then Some Allow else Some Deny
      | Bypass_permissions \<Rightarrow> Some Allow)"

definition behavior_text :: "permission_behavior \<Rightarrow> string" where
  "behavior_text b = (case b of Allow \<Rightarrow> ''allow'' | Ask \<Rightarrow> ''ask'' | Deny \<Rightarrow> ''deny'')"

definition trace_entry :: "string \<Rightarrow> string \<Rightarrow> trace_step" where
  "trace_entry stage detail = \<lparr>ts_stage = stage, ts_detail = Some detail\<rparr>"

text \<open>The id and the time of the decision come from the runtime's generators.\<close>

record decision_stamp =
  dst_id :: string
  dst_now :: string

definition finish_decision ::
    "decision_stamp \<Rightarrow> 'w policy_request \<Rightarrow> permission_behavior \<Rightarrow> permission_reason \<Rightarrow> trace_step list \<Rightarrow> permission_decision" where
  "finish_decision st q b reason trace =
     \<lparr>dec_id = dst_id st, dec_callId = rq_callId q, dec_toolName = td_name (rq_tool q), dec_behavior = b,
      dec_reason = reason, dec_updatedInput = None, dec_decidedAt = dst_now st, dec_trace = trace\<rparr>"

definition resolveAsk ::
    "decision_stamp \<Rightarrow> 'w ask_handler option \<Rightarrow> 'w policy_request \<Rightarrow> permission_reason \<Rightarrow> trace_step list \<Rightarrow>
     permission_decision" where
  "resolveAsk st handler q reason trace =
     (if rq_mode q = Dont_ask
      then finish_decision st q Deny (Mode_reason Dont_ask) (trace @ [trace_entry ''ask'' ''dontAsk mode -> deny''])
      else (case handler of
              None \<Rightarrow> finish_decision st q Deny reason (trace @ [trace_entry ''ask'' ''no ask handler -> deny''])
            | Some h \<Rightarrow> let answer = (if h q reason then Allow else Deny)
                        in finish_decision st q answer reason (trace @ [trace_entry ''ask'' (''user:'' @ behavior_text answer)])))"

definition UNBYPASSABLE_ASK_CODES :: "string list" where
  "UNBYPASSABLE_ASK_CODES = [''shell_unparseable'']"

definition ask_unbypassable :: "permission_hint \<Rightarrow> bool" where
  "ask_unbypassable own \<longleftrightarrow>
     hint_behavior own = Ask \<and>
     (case hint_code own of None \<Rightarrow> False | Some c \<Rightarrow> c \<in> set UNBYPASSABLE_ASK_CODES)"

definition rule_detail :: "permission_rule option \<Rightarrow> string" where
  "rule_detail r = (case r of None \<Rightarrow> ''no match'' | Some r \<Rightarrow> ru_id r)"

text \<open>Stages 5 to 7: mode, allow rules, default ask.\<close>

definition decide_by_mode ::
    "decision_stamp \<Rightarrow> permission_rule list \<Rightarrow> 'w ask_handler option \<Rightarrow> 'w policy_request \<Rightarrow> bool \<Rightarrow> permission_hint \<Rightarrow>
     trace_step list \<Rightarrow> tool_exception + permission_decision" where
  "decide_by_mode st rules handler q effectiveReadOnly own trace =
     (let mode = applyMode q effectiveReadOnly;
          trace = trace @ [trace_entry ''mode'' (mode_text (rq_mode q) @ '':'' @
                     (case mode of None \<Rightarrow> ''no decision'' | Some b \<Rightarrow> behavior_text b))]
      in if mode = Some Allow then Inr (finish_decision st q Allow (Mode_reason (rq_mode q)) trace)
         else if mode = Some Deny then Inr (finish_decision st q Deny (Mode_reason (rq_mode q)) trace)
         else (case matchRules rules q Allow of
                 Inl e \<Rightarrow> Inl e
               | Inr rule \<Rightarrow>
                   let trace = trace @ [trace_entry ''allow_rules'' (rule_detail rule)]
                   in (case rule of
                         Some r \<Rightarrow>
                           if ask_unbypassable own
                           then Inr (resolveAsk st handler q
                             (if hint_behavior own = Ask then Tool_policy (or_else (hint_code own) ''tool_ask'') else Default_reason)
                             trace)
                           else Inr (finish_decision st q Allow (User_rule (ru_id r) (ru_source r)) trace)
                       | None \<Rightarrow> Inr (resolveAsk st handler q
                             (if hint_behavior own = Ask then Tool_policy (or_else (hint_code own) ''tool_ask'') else Default_reason)
                             trace))))"

text \<open>Stage 4: the tool's own policy.\<close>

definition decide_by_tool ::
    "decision_stamp \<Rightarrow> permission_rule list \<Rightarrow> 'w ask_handler option \<Rightarrow> 'w \<Rightarrow> 'w policy_request \<Rightarrow> bool \<Rightarrow>
     trace_step list \<Rightarrow> tool_exception + permission_decision" where
  "decide_by_tool st rules handler w q effectiveReadOnly trace =
     (case td_permission (rq_tool q) w (rq_input q) (rq_context q) of
        Inl e \<Rightarrow> Inl e
      | Inr own \<Rightarrow>
          let trace = trace @ [trace_entry ''tool_policy'' (behavior_text (hint_behavior own) @
                        (case truthy (hint_code own) of None \<Rightarrow> [] | Some c \<Rightarrow> '':'' @ c))]
          in if hint_behavior own = Deny
             then Inr (finish_decision st q Deny (Tool_policy (or_else (hint_code own) ''tool_deny'')) trace)
             else decide_by_mode st rules handler q effectiveReadOnly own trace)"

definition decide_permission ::
    "host \<Rightarrow> decision_stamp \<Rightarrow> permission_rule list \<Rightarrow> 'w ask_handler option \<Rightarrow> 'w \<Rightarrow> 'w policy_request \<Rightarrow>
     tool_exception + permission_decision" where
  "decide_permission H st rules handler w q =
     (let effectiveReadOnly = isEffectivelyReadOnly q
      in case hardSafetyCheck H q effectiveReadOnly of
           Inl e \<Rightarrow> Inl e
         | Inr (Some rule) \<Rightarrow> Inr (finish_decision st q Deny (Hard_safety rule) [trace_entry ''hard_safety'' rule])
         | Inr None \<Rightarrow>
             (case matchRules rules q Deny of
                Inl e \<Rightarrow> Inl e
              | Inr (Some r) \<Rightarrow> Inr (finish_decision st q Deny (User_rule (ru_id r) (ru_source r))
                  [trace_entry ''hard_safety'' ''pass'', trace_entry ''deny_rules'' (ru_id r)])
              | Inr None \<Rightarrow>
                  (case matchRules rules q Ask of
                     Inl e \<Rightarrow> Inl e
                   | Inr ask \<Rightarrow>
                       let trace = [trace_entry ''hard_safety'' ''pass'', trace_entry ''deny_rules'' ''no match'',
                                    trace_entry ''ask_rules'' (rule_detail ask)]
                       in (case ask of
                             Some r \<Rightarrow>
                               if rq_mode q \<noteq> Bypass_permissions
                               then Inr (resolveAsk st handler q (User_rule (ru_id r) (ru_source r)) trace)
                               else decide_by_tool st rules handler w q effectiveReadOnly trace
                           | None \<Rightarrow> decide_by_tool st rules handler w q effectiveReadOnly trace))))"

definition addSessionRule ::
    "string \<Rightarrow> permission_behavior \<Rightarrow> string \<Rightarrow> (matcher_kind \<times> matcher_value) option \<Rightarrow> permission_rule list \<Rightarrow>
     permission_rule list" where
  "addSessionRule rid effect toolName matcher rules =
     rules @ [\<lparr>ru_id = rid, ru_effect = effect, ru_tool = toolName, ru_matcher = matcher,
               ru_scope = Session_scope, ru_source = Session_source\<rparr>]"

subsection \<open>What a write path must satisfy\<close>

text \<open>The path lies in the workspace, and no segment below its root is sensitive.\<close>

definition confined :: "host \<Rightarrow> string \<Rightarrow> string \<Rightarrow> bool" where
  "confined H workspaceRoot p \<longleftrightarrow>
     (\<exists>rest. resolve_under (resolve_path H workspaceRoot) p = resolve_path H workspaceRoot @ rest \<and>
        (\<forall>s \<in> set rest. to_lower s \<notin> set SENSITIVE_SEGMENTS))"

lemma split_char_snoc: "split_char c (s @ [c]) = split_char c s @ [[]]"
  by (induction s) (auto split: list.split)

lemma path_segments_slash: "path_segments (p @ ''/'') = path_segments p"
  by (simp add: path_segments_def split_char_snoc)

lemma clean_norm: "list_all clean_segment (norm_segments [] (path_segments p))"
  using norm_segments_clean [of "[]" "path_segments p"] by simp

lemma resolve_resolved:
  "resolve_path H (resolved_text (resolve_path H r) p) = resolve_under (resolve_path H r) p"
proof (cases "is_absolute p")
  case True
  let ?ss = "norm_segments [] (path_segments p)"
  have abs: "is_absolute (abs_text ?ss @ x)" for x by (simp add: is_absolute_def abs_text_def starts_with_def)
  have "path_segments (abs_text ?ss @ (if b then ''/'' else [])) = ?ss" for b
    using clean_plain [OF clean_norm, of p] by (simp add: path_segments_slash)
  then show ?thesis
    using True abs clean_norm [of p]
    by (simp add: resolved_text_def normalize_abs_def Let_def resolve_path_def resolve_under_def norm_segments_id)
next
  case False
  then show ?thesis by (simp add: resolved_text_def resolve_under_clean)
qed

lemma starts_dotdot:
  assumes "relative_segments src dst = ''..'' # xs"
  shows "starts_with (relative_text src dst) ''..''"
  using relative_dotdot [OF assms] by (auto simp: starts_with_iff)

lemma checkPath_confined: "pc_ok (checkPath H p r) \<Longrightarrow> confined H r p"
proof -
  let ?r = "resolve_path H r"
  let ?a = "resolve_under ?r p"
  assume ok: "pc_ok (checkPath H p r)"
  have near: "\<not> starts_with (relative_text ?r ?a) ''..''"
    and safe: "\<forall>s \<in> set (path_segments (relative_text ?r ?a)). to_lower s \<notin> set SENSITIVE_SEGMENTS"
    using ok by (auto simp: checkPath_def Let_def resolve_resolved path_fail_def list_ex_iff split: if_splits)
  show ?thesis
  proof (cases rule: relative_segments_cases [of ?a ?r])
    case (inside rest)
    have "list_all clean_segment rest" using inside(1) resolve_under_clean [of ?r p] by simp
    then have "path_segments (relative_text ?r ?a) = rest" using inside(2) by (simp add: relative_text_def clean_plain)
    then show ?thesis using safe inside(1) by (auto simp: confined_def)
  next
    case (outside n rest)
    then show ?thesis using near starts_dotdot by blast
  qed
qed

subsection \<open>When a call is allowed\<close>

definition rule_applies :: "permission_behavior \<Rightarrow> 'w policy_request \<Rightarrow> permission_rule \<Rightarrow> bool" where
  "rule_applies effect q r \<longleftrightarrow>
     ru_effect r = effect \<and> ru_tool r = td_name (rq_tool q) \<and> (\<exists>n. ruleMatches r (rq_input q) = Inr (Some n))"

lemma best_rule_keeps: "best_rule input (Some b) rs = Inr r \<Longrightarrow> r \<noteq> None"
  by (induction rs arbitrary: b) (auto split: sum.splits option.splits prod.splits if_splits)

lemma best_rule_None:
  "best_rule input None rs = Inr None \<Longrightarrow> \<forall>r \<in> set rs. ruleMatches r input = Inr None"
  by (induction rs) (auto split: sum.splits option.splits dest: best_rule_keeps)

lemma best_rule_mem:
  "best_rule input best rs = Inr (Some r) \<Longrightarrow>
   (\<exists>n. best = Some (r, n)) \<or> (r \<in> set rs \<and> (\<exists>n. ruleMatches r input = Inr (Some n)))"
proof (induction rs arbitrary: best)
  case (Cons x xs)
  show ?case
  proof (cases "ruleMatches x input")
    case (Inr m)
    show ?thesis
    proof (cases m)
      case None
      then show ?thesis using Cons Inr by auto
    next
      case (Some spec)
      then obtain b where "best_rule input b xs = Inr (Some r)" "b = Some (x, spec) \<or> b = best"
        using Cons.prems Inr by (auto split: option.splits prod.splits if_splits)
      then show ?thesis using Cons.IH [of b] Some Inr by auto
    qed
  qed (use Cons.prems in simp)
qed auto

lemma matchRules_None:
  "matchRules rules q effect = Inr None \<Longrightarrow> r \<in> set rules \<Longrightarrow> \<not> rule_applies effect q r"
  by (auto simp: matchRules_def rule_applies_def dest: best_rule_None)

lemma matchRules_Some:
  "matchRules rules q effect = Inr (Some r) \<Longrightarrow> r \<in> set rules \<and> rule_applies effect q r"
  unfolding matchRules_def by (drule best_rule_mem) (auto simp: rule_applies_def)

definition user_allows :: "'w ask_handler option \<Rightarrow> 'w policy_request \<Rightarrow> bool" where
  "user_allows handler q \<longleftrightarrow> rq_mode q \<noteq> Dont_ask \<and> (\<exists>h reason. handler = Some h \<and> h q reason)"

lemma resolveAsk_allow: "dec_behavior (resolveAsk st handler q reason trace) = Allow \<Longrightarrow> user_allows handler q"
  by (auto simp: resolveAsk_def user_allows_def finish_decision_def Let_def split: if_splits option.splits)

text \<open>How a call is allowed without asking: by its mode, or by an allow rule its tool accepts.\<close>

definition allowed_unasked :: "permission_rule list \<Rightarrow> 'w \<Rightarrow> 'w policy_request \<Rightarrow> bool" where
  "allowed_unasked rules w q \<longleftrightarrow>
     (\<exists>own. td_permission (rq_tool q) w (rq_input q) (rq_context q) = Inr own \<and> hint_behavior own \<noteq> Deny \<and>
        (applyMode q (isEffectivelyReadOnly q) = Some Allow \<or>
         (applyMode q (isEffectivelyReadOnly q) = None \<and> \<not> ask_unbypassable own \<and> (\<exists>r \<in> set rules. rule_applies Allow q r))))"

lemma by_mode_allow:
  assumes "decide_by_mode st rules handler q (isEffectivelyReadOnly q) own trace = Inr d" "dec_behavior d = Allow"
    "td_permission (rq_tool q) w (rq_input q) (rq_context q) = Inr own" "hint_behavior own \<noteq> Deny"
  shows "user_allows handler q \<or> allowed_unasked rules w q"
proof (cases "applyMode q (isEffectivelyReadOnly q) = Some Allow")
  case True
  then show ?thesis using assms by (auto simp: allowed_unasked_def)
next
  case False
  then have none: "applyMode q (isEffectivelyReadOnly q) = None"
    using assms(1, 2)
    by (cases "applyMode q (isEffectivelyReadOnly q)"; cases "the (applyMode q (isEffectivelyReadOnly q))")
      (auto simp: decide_by_mode_def Let_def finish_decision_def applyMode_def split: agent_mode.splits if_splits)
  show ?thesis
  proof (cases "\<exists>r. matchRules rules q Allow = Inr (Some r) \<and> \<not> ask_unbypassable own")
    case True
    then show ?thesis using assms(3, 4) none matchRules_Some [of rules q Allow] by (auto simp: allowed_unasked_def)
  next
    case False
    then show ?thesis
      using assms(1, 2) none
      by (auto simp: decide_by_mode_def Let_def split: sum.splits option.splits if_splits dest!: resolveAsk_allow)
  qed
qed

lemma by_tool_allow:
  assumes "decide_by_tool st rules handler w q (isEffectivelyReadOnly q) trace = Inr d" "dec_behavior d = Allow"
  shows "user_allows handler q \<or> allowed_unasked rules w q"
proof -
  obtain own trace' where own: "td_permission (rq_tool q) w (rq_input q) (rq_context q) = Inr own"
    "hint_behavior own \<noteq> Deny" and d: "decide_by_mode st rules handler q (isEffectivelyReadOnly q) own trace' = Inr d"
    using assms by (auto simp: decide_by_tool_def Let_def finish_decision_def split: sum.splits if_splits)
  show ?thesis by (rule by_mode_allow [OF d assms(2) own])
qed

lemma allow_stages:
  assumes "decide_permission H st rules handler w q = Inr d" "dec_behavior d = Allow"
  shows "hardSafetyCheck H q (isEffectivelyReadOnly q) = Inr None" "matchRules rules q Deny = Inr None"
    "user_allows handler q \<or> allowed_unasked rules w q"
proof -
  have *: "hardSafetyCheck H q (isEffectivelyReadOnly q) = Inr None \<and> matchRules rules q Deny = Inr None \<and>
      (user_allows handler q \<or> (\<exists>trace. decide_by_tool st rules handler w q (isEffectivelyReadOnly q) trace = Inr d))"
    using assms
    by (auto simp: decide_permission_def Let_def finish_decision_def split: sum.splits option.splits if_splits
        dest: resolveAsk_allow)
  then show "hardSafetyCheck H q (isEffectivelyReadOnly q) = Inr None" "matchRules rules q Deny = Inr None" by simp_all
  show "user_allows handler q \<or> allowed_unasked rules w q" using * by_tool_allow [OF _ assms(2)] by metis
qed


text \<open>An edit of a source file in the mode that accepts edits.\<close>

definition demo_edit_tool :: "unit tool_definition" where
  "demo_edit_tool = defineTool
     \<lparr>tsp_name = ''Edit'', tsp_maxResultChars = None, tsp_idempotencyScope = None, tsp_safeParse = Some,
      tsp_readOnly = None, tsp_destructive = None, tsp_concurrency = None, tsp_resources = None,
      tsp_workspaceMutation = None, tsp_validate = None, tsp_preconditions = None, tsp_permission = None,
      tsp_execute = (\<lambda>w i cx. (Inr \<lparr>xr_data = JNull, xr_facts = None, xr_commitProof = None\<rparr>, w)),
      tsp_postconditions = None, tsp_observe = None, tsp_serialize = None, tsp_inspectOutcome = None\<rparr>"

definition demo_edit_request :: "unit policy_request" where
  "demo_edit_request =
     \<lparr>rq_tool = demo_edit_tool, rq_input = JObj [(''path'', JStr ''src/a.ts'')], rq_callId = ''c1'', rq_mode = Accept_edits,
      rq_context = \<lparr>cx_sessionId = ''s'', cx_callId = ''c1'', cx_workspaceRoot = ''/w'', cx_mode = Accept_edits,
        cx_artifactDir = ''/a''\<rparr>\<rparr>"

definition demo_stamp :: decision_stamp where
  "demo_stamp = \<lparr>dst_id = ''p1'', dst_now = ''now''\<rparr>"


end
