(* ===== verification/ToolRuntime.thy ===== *)
theory ToolRuntime
  imports Policy
begin

text \<open>
  The single side-effect entry point (tools/ToolRuntime.ts). \<open>executeOne\<close> is an asynchronous
  generator; the model returns the state after it and the exception that left it, if any. The
  state keeps a trace of the effects in the order they happen: events yielded, ledger
  documents written, mutation facts persisted ahead of the effect, evidence aged, and the
  execution of the tool. The clock, the ids, the user, whether a write succeeds and the
  redaction of secrets are parameters; live progress and the invalidation of the source
  indexes are left out, as they touch nothing modelled here.
\<close>

datatype effect =
    Emitted fact_event
  | Flushed idem_ledger
  | Persisted mutation_started
  | Aged path_arg
  | Executed

record 'w runtime =
  rn_ledger :: idem_ledger
  rn_file :: ledger_file
  rn_evidence :: "evidence_store option"
  rn_world :: 'w
  rn_trace :: "effect list"

datatype mutation_hook = No_hook | Hook_persists | Hook_fails

text \<open>The readings of the clock and of the id generator in one call, and which writes succeed.\<close>

record call_stamps =
  cst_startedAt :: number
  cst_durationMs :: number
  cst_decision :: decision_stamp
  cst_adjudicated :: string
  cst_running :: string
  cst_settled :: string
  cst_caught :: string

record write_outcomes =
  wo_adjudicated :: bool
  wo_running :: bool
  wo_settled :: bool
  wo_caught :: bool

record 'w runtime_deps =
  rd_host :: host
  rd_registry :: "'w tool_registry"
  rd_rules :: "permission_rule list"
  rd_ask :: "'w ask_handler option"
  rd_writeLock :: bool
  rd_hook :: mutation_hook
  rd_writes :: write_outcomes
  rd_redact :: "tool_observation \<Rightarrow> tool_observation"
  rd_bound :: "tool_result_content \<Rightarrow> number \<Rightarrow> tool_exception + tool_result_content"
  rd_errorText :: "tool_exception \<Rightarrow> string"

record tool_request =
  tq_call :: tool_call
  tq_mode :: agent_mode
  tq_sessionId :: string
  tq_workspaceRoot :: string
  tq_artifactDir :: string
  tq_aborted :: bool
  tq_lane :: "tool_execution_lane option"
  tq_writeLocked :: bool
  tq_stamps :: call_stamps

definition log_effect :: "effect \<Rightarrow> 'w runtime \<Rightarrow> 'w runtime" where
  "log_effect e s = s\<lparr>rn_trace := rn_trace s @ [e]\<rparr>"

definition emit :: "fact_event \<Rightarrow> 'w runtime \<Rightarrow> 'w runtime" where
  "emit f = log_effect (Emitted f)"

text \<open>The outcome of a step: an exception, or a value.\<close>

definition bind_step ::
    "(tool_exception + 'a) \<times> 'w runtime \<Rightarrow> ('a \<Rightarrow> 'w runtime \<Rightarrow> (tool_exception + 'b) \<times> 'w runtime) \<Rightarrow>
     (tool_exception + 'b) \<times> 'w runtime" where
  "bind_step m f = (case m of (Inl e, s) \<Rightarrow> (Inl e, s) | (Inr x, s) \<Rightarrow> f x s)"

lemma bind_step_simps [simp]:
  "bind_step (Inl e, s) f = (Inl e, s)" "bind_step (Inr x, s) f = f x s"
  by (simp_all add: bind_step_def)

text \<open>\<open>await this.idempotency.flush()\<close>\<close>

definition flush_step :: "bool \<Rightarrow> 'w runtime \<Rightarrow> (tool_exception + unit) \<times> 'w runtime" where
  "flush_step written s =
     (case flush_ledger written (rn_ledger s, rn_file s) of
        Inl e \<Rightarrow> (Inl Other_error, s)
      | Inr (l, doc) \<Rightarrow> (Inr (), log_effect (Flushed l) (s\<lparr>rn_ledger := l, rn_file := doc\<rparr>)))"

definition age_evidence :: "host \<Rightarrow> path_arg \<Rightarrow> 'w runtime \<Rightarrow> 'w runtime" where
  "age_evidence H a s =
     log_effect (Aged a) (s\<lparr>rn_evidence := map_option (bumpWorkspaceRevision H a) (rn_evidence s)\<rparr>)"

subsection \<open>Results and errors\<close>

definition error_json :: "structured_error \<Rightarrow> json" where
  "error_json e =
     JObj [(''ok'', JBool False), (''error'', JObj [(''code'', JStr (se_code e)), (''retryable'', JBool (se_retryable e))])]"

definition failed_result :: "tool_request \<Rightarrow> structured_error \<Rightarrow> tool_observation option \<Rightarrow> tool_call_result" where
  "failed_result q e obs =
     \<lparr>tr_callId = tc_id (tq_call q), tr_toolName = tc_name (tq_call q), tr_ok = False,
      tr_content = Json_content (error_json e), tr_errorCode = Some (se_code e),
      tr_durationMs = cst_durationMs (tq_stamps q), tr_synthetic = None, tr_observation = obs\<rparr>"

text \<open>\<open>yield this.completed(...)\<close> with an error of the given code.\<close>

definition refuse ::
    "tool_request \<Rightarrow> string \<Rightarrow> bool \<Rightarrow> tool_observation option \<Rightarrow> 'w runtime \<Rightarrow> (tool_exception + unit) \<times> 'w runtime" where
  "refuse q code retryable obs s =
     (Inr (), emit (Tool_call_completed (failed_result q \<lparr>se_code = code, se_retryable = retryable\<rparr> obs)) s)"

definition deduplicated :: "tool_request \<Rightarrow> string \<Rightarrow> tool_call_result" where
  "deduplicated q detail =
     \<lparr>tr_callId = tc_id (tq_call q), tr_toolName = tc_name (tq_call q), tr_ok = True,
      tr_content = Text_content (''deduplicated: this '' @ tc_name (tq_call q) @
        '' operation was already applied (verified against current state: '' @ detail @ ''). No side effect was repeated.''),
      tr_errorCode = None, tr_durationMs = cst_durationMs (tq_stamps q), tr_synthetic = None, tr_observation = None\<rparr>"

definition classifyToolError :: "tool_exception \<Rightarrow> structured_error" where
  "classifyToolError e =
     (case e of
        Coded_error code \<Rightarrow> \<lparr>se_code = code, se_retryable = code \<in>
          {''FILE_VERSION_CONFLICT'', ''SEMANTIC_VALIDATION_ERROR'', ''PRECONDITION_FAILED'', ''POSTCONDITION_FAILED''}\<rparr>
      | Abort_error \<Rightarrow> \<lparr>se_code = ''TOOL_ABORTED'', se_retryable = False\<rparr>
      | Other_error \<Rightarrow> \<lparr>se_code = ''INTERNAL_TOOL_ERROR'', se_retryable = False\<rparr>)"

definition refuse_error :: "tool_request \<Rightarrow> tool_exception \<Rightarrow> 'w runtime \<Rightarrow> (tool_exception + unit) \<times> 'w runtime" where
  "refuse_error q e s = (Inr (), emit (Tool_call_completed (failed_result q (classifyToolError e) None)) s)"

definition failedChecks :: "contract_check list \<Rightarrow> contract_check list" where
  "failedChecks cs = filter (\<lambda>c. \<not> cc_passed c) cs"

definition check_json :: "contract_check \<Rightarrow> json" where
  "check_json c =
     JObj ([(''id'', JStr (cc_id c)), (''passed'', JBool (cc_passed c))] @ optional_member ''detail'' (cc_detail c))"

definition observation_json :: "tool_observation \<Rightarrow> json" where
  "observation_json ob =
     JObj ([(''summary'', JStr (ob_summary ob)), (''preconditions'', JArr (map check_json (ob_preconditions ob))),
            (''postconditions'', JArr (map check_json (ob_postconditions ob)))] @
           (case ob_fields ob of None \<Rightarrow> [] | Some fs \<Rightarrow> [(''fields'', JObj (obj_entries fs))]))"

definition boundCheck :: "contract_check \<Rightarrow> contract_check" where
  "boundCheck c =
     \<lparr>cc_id = take 200 (cc_id c), cc_passed = cc_passed c, cc_detail = map_option (take 500) (truthy (cc_detail c))\<rparr>"

definition contractObservation ::
    "(tool_observation \<Rightarrow> tool_observation) \<Rightarrow> string \<Rightarrow> contract_check list \<Rightarrow> contract_check list \<Rightarrow> json jsobj option \<Rightarrow>
     tool_observation" where
  "contractObservation redact summary pre post flds =
     (let ob = redact \<lparr>ob_summary = summary, ob_preconditions = pre, ob_postconditions = post, ob_fields = flds\<rparr>;
          encoded = json_stringify (observation_json ob)
      in if length encoded \<le> 16000 then ob
         else \<lparr>ob_summary = take 1000 (ob_summary ob), ob_preconditions = map boundCheck (ob_preconditions ob),
               ob_postconditions = map boundCheck (ob_postconditions ob),
               ob_fields = Some [(''observationTruncated'', JBool True), (''originalChars'', JNum (of_nat (length encoded)))]\<rparr>)"

subsection \<open>Which calls have side effects\<close>

record side_effects =
  sx_effects :: bool
  sx_intent :: "mutation_intent option"

definition exn_option :: "tool_exception + 'a \<Rightarrow> 'a option" where
  "exn_option r = (case r of Inl e \<Rightarrow> None | Inr x \<Rightarrow> Some x)"

definition exn_text :: "(tool_exception \<Rightarrow> string) \<Rightarrow> tool_exception + 'a \<Rightarrow> string option" where
  "exn_text errorText r = (case r of Inl e \<Rightarrow> Some (errorText e) | Inr x \<Rightarrow> None)"

text \<open>
  The declarations are inspected before anything happens. A declaration that throws counts as
  a side effect on the whole workspace; only \<open>readOnly\<close> throws through.
\<close>

definition process_write_claim :: "resource_claim \<Rightarrow> bool" where
  "process_write_claim c \<longleftrightarrow> rc_mode c = Write_access \<and> rc_resource c = ''process:workspace''"

definition inspect_effects :: "(tool_exception \<Rightarrow> string) \<Rightarrow> 'w tool_definition \<Rightarrow> json \<Rightarrow> tool_context \<Rightarrow> tool_exception + side_effects" where
  "inspect_effects errorText t input cx =
     (let claims = exn_option (td_resources t input cx);
          declared = exn_option (td_workspaceMutation t input cx);
          inspectionFailed = (claims = None); declarationFailed = (declared = None);
          failure = (case td_workspaceMutation t input cx of Inl e \<Rightarrow> Some (errorText e)
                     | Inr i \<Rightarrow> (case td_resources t input cx of Inl e \<Rightarrow> Some (errorText e) | Inr cs \<Rightarrow> None));
          failureText = (if truthy (exn_text errorText (td_workspaceMutation t input cx)) \<noteq> None \<or>
                            truthy (exn_text errorText (td_resources t input cx)) \<noteq> None
                         then '' ('' @ or_else failure [] @ '')'' else []);
          workspaceWrite = list_ex workspace_write_claim (or_else claims []);
          processWrite = list_ex process_write_claim (or_else claims []);
          declaredIntent = or_else declared None
      in case td_readOnly t input of
           Inl e \<Rightarrow> Inl e
         | Inr declaredReadOnly \<Rightarrow>
             let effects = (\<not> declaredReadOnly \<or> declaredIntent \<noteq> None \<or> (td_resourcesExplicit t \<and> workspaceWrite) \<or>
                            inspectionFailed \<or> declarationFailed);
                 workspaceClaim = (declarationFailed \<or> inspectionFailed \<or> workspaceWrite \<or>
                            (\<not> declaredReadOnly \<and> processWrite));
                 fallback = Workspace_intent (td_name t @
                   '' has a workspace write resource but did not declare an exact mutation scope; runtime opened a fail-closed obligation'' @ failureText)
             in Inr \<lparr>sx_effects = effects,
                  sx_intent = (if \<not> effects then None
                               else case declaredIntent of
                                 Some i \<Rightarrow> Some i
                               | None \<Rightarrow> if workspaceClaim then Some fallback else None)\<rparr>)"

subsection \<open>The idempotency guard\<close>

definition operation_key :: "host \<Rightarrow> tool_request \<Rightarrow> 'w tool_definition \<Rightarrow> json \<Rightarrow> string" where
  "operation_key H q t input =
     (case td_idempotencyScope t of
        Invocation_scope \<Rightarrow> computeKey H (tq_sessionId q) (tc_id (tq_call q)) (td_name t) input
      | Operation_scope \<Rightarrow> computeOperationKey H (tq_sessionId q) (td_name t) input)"

text \<open>
  A guard gives \<open>Some\<close> when the call goes on, and \<open>None\<close> when it has been answered.
\<close>

type_synonym ('a, 'w) guarded = "(tool_exception + 'a option) \<times> 'w runtime"

definition answered :: "(tool_exception + unit) \<times> 'w runtime \<Rightarrow> ('a, 'w) guarded" where
  "answered m = bind_step m (\<lambda>_ s. (Inr None, s))"

definition adjudicate_step ::
    "'w runtime_deps \<Rightarrow> tool_request \<Rightarrow> string \<Rightarrow> execution_status \<Rightarrow> string \<Rightarrow> idem_record \<Rightarrow> 'w runtime \<Rightarrow>
     (tool_exception + unit) \<times> 'w runtime" where
  "adjudicate_step d q k verdict detail record s =
     (case adjudicate k verdict detail (cst_adjudicated (tq_stamps q)) (rn_ledger s) of
        (src, l) \<Rightarrow>
          bind_step (flush_step (wo_adjudicated (rd_writes d)) (s\<lparr>rn_ledger := l\<rparr>)) (\<lambda>_ s.
            (Inr (), emit (Idempotency_adjudicated (tc_name (tq_call q)) (tc_id (tq_call q))
               (status_text (or_else src (ir_status record))) (status_text verdict) detail) s)))"

definition start_running ::
    "'w runtime_deps \<Rightarrow> tool_request \<Rightarrow> 'w tool_definition \<Rightarrow> string \<Rightarrow> 'w runtime \<Rightarrow> (unit, 'w) guarded" where
  "start_running d q t k s =
     bind_step
       (flush_step (wo_running (rd_writes d))
         (s\<lparr>rn_ledger := mark_running k (tc_id (tq_call q)) (td_name t) (cst_running (tq_stamps q)) (rn_ledger s)\<rparr>))
       (\<lambda>_ s. (Inr (Some ()), s))"

definition idempotency_guard ::
    "'w runtime_deps \<Rightarrow> tool_request \<Rightarrow> 'w tool_definition \<Rightarrow> json \<Rightarrow> tool_context \<Rightarrow> string \<Rightarrow> 'w runtime \<Rightarrow>
     (unit, 'w) guarded" where
  "idempotency_guard d q t input cx k s =
     (case obj_get (il_records (rn_ledger s)) k of
        None \<Rightarrow> start_running d q t k s
      | Some record \<Rightarrow>
          if isApplied (rn_ledger s) k
          then (case td_inspectOutcome t of
                  None \<Rightarrow> answered (refuse q ''ALREADY_COMMITTED'' False None s)
                | Some inspect \<Rightarrow>
                    (case inspect (rn_world s) input cx record of
                       Inl e \<Rightarrow> (Inl e, s)
                     | Inr i \<Rightarrow>
                         if oi_applied i then (Inr None, emit (Tool_call_completed (deduplicated q (oi_detail i))) s)
                         else bind_step (adjudicate_step d q k Resolved_not_applied (oi_detail i) record s)
                                (\<lambda>_ s. start_running d q t k s)))
          else if needsInspection (rn_ledger s) k
          then (case td_inspectOutcome t of
                  None \<Rightarrow> answered (refuse q ''UNKNOWN_OUTCOME_REQUIRES_INSPECTION'' True None s)
                | Some inspect \<Rightarrow>
                    (case inspect (rn_world s) input cx record of
                       Inl e \<Rightarrow> (Inl e, s)
                     | Inr i \<Rightarrow>
                         bind_step
                           (adjudicate_step d q k (if oi_applied i then Resolved_applied else Resolved_not_applied)
                             (oi_detail i) record s)
                           (\<lambda>_ s. if oi_applied i then (Inr None, emit (Tool_call_completed (deduplicated q (oi_detail i))) s)
                                  else start_running d q t k s)))
          else start_running d q t k s)"

subsection \<open>The mutation intent\<close>

definition mutation_fact ::
    "tool_request \<Rightarrow> 'w tool_definition \<Rightarrow> mutation_hook \<Rightarrow> mutation_intent \<Rightarrow> mutation_started" where
  "mutation_fact q t hook intent =
     \<lparr>mst_mutationId = ''mutation:'' @ tc_id (tq_call q) @ '':'' @ show_num (cst_startedAt (tq_stamps q)),
      mst_callId = tc_id (tq_call q), mst_toolName = td_name t,
      mst_scope = (case intent of Paths_intent ps r \<Rightarrow> Paths_scope | Workspace_intent r \<Rightarrow> Workspace_scope),
      mst_paths = (case intent of Paths_intent ps r \<Rightarrow> ps | Workspace_intent r \<Rightarrow> []),
      mst_reason = (case intent of
          Paths_intent ps r \<Rightarrow> or_else r (td_name t @ '' declared a workspace side effect before execution'')
        | Workspace_intent r \<Rightarrow> r),
      mst_durableBeforeExecution = Some (hook \<noteq> No_hook)\<rparr>"

definition announce_mutation ::
    "'w runtime_deps \<Rightarrow> mutation_started \<Rightarrow> 'w runtime \<Rightarrow> (tool_exception + unit) \<times> 'w runtime" where
  "announce_mutation d m s =
     (let announced = (\<lambda>s. age_evidence (rd_host d)
            (if mst_scope m = Paths_scope then Many_paths (mst_paths m) else No_path) (emit (Workspace_mutation_started m) s))
      in case rd_hook d of
           No_hook \<Rightarrow> (Inr (), announced s)
         | Hook_fails \<Rightarrow> (Inl Other_error, s)
         | Hook_persists \<Rightarrow> (Inr (), announced (log_effect (Persisted m) s)))"

subsection \<open>Execution\<close>

text \<open>The facts a tool returns: forged preparation facts are dropped, changes are attributed.\<close>

definition yield_fact :: "host \<Rightarrow> tool_request \<Rightarrow> string \<Rightarrow> mutation_started option \<Rightarrow> fact_event \<Rightarrow> 'w runtime \<Rightarrow> 'w runtime" where
  "yield_fact H q toolName m f s =
     (case f of
        Workspace_mutation_started x \<Rightarrow> s
      | Workspace_changed c \<Rightarrow>
          emit (Workspace_changed (c\<lparr>wc_mutationId := map_option mst_mutationId m,
                  wc_callId := Some (tc_id (tq_call q)), wc_toolName := Some toolName\<rparr>))
            (if m = None then age_evidence H (One_path (wc_path c)) s else s)
      | _ \<Rightarrow> emit f s)"

definition yield_facts ::
    "host \<Rightarrow> tool_request \<Rightarrow> string \<Rightarrow> mutation_started option \<Rightarrow> fact_event list option \<Rightarrow> 'w runtime \<Rightarrow> 'w runtime" where
  "yield_facts H q toolName m fs s = fold (yield_fact H q toolName m) (or_else fs []) s"

text \<open>Settle the ledger entry, if the call has one, and write it.\<close>

definition settle_ledger ::
    "(string \<Rightarrow> idem_ledger \<Rightarrow> idem_ledger) \<Rightarrow> bool \<Rightarrow> string option \<Rightarrow> 'w runtime \<Rightarrow> (tool_exception + unit) \<times> 'w runtime" where
  "settle_ledger f written key s =
     (case key of
        None \<Rightarrow> (Inr (), s)
      | Some k \<Rightarrow> flush_step written (s\<lparr>rn_ledger := f k (rn_ledger s)\<rparr>))"

definition observed_fields ::
    "'w runtime_deps \<Rightarrow> 'w tool_definition \<Rightarrow> 'w \<Rightarrow> json \<Rightarrow> json \<Rightarrow> tool_context \<Rightarrow> string \<times> json jsobj option" where
  "observed_fields d t w input out cx =
     (case td_observe t w input out cx of
        Inl e \<Rightarrow> (td_name t @ '' completed; structured observation failed'',
                   Some [(''observationError'', JStr (rd_errorText d e))])
      | Inr ob \<Rightarrow> ob)"

definition success_result :: "tool_request \<Rightarrow> 'w tool_definition \<Rightarrow> tool_result_content \<Rightarrow> tool_observation \<Rightarrow> tool_call_result" where
  "success_result q t content obs =
     \<lparr>tr_callId = tc_id (tq_call q), tr_toolName = td_name t, tr_ok = True, tr_content = content,
      tr_errorCode = None, tr_durationMs = cst_durationMs (tq_stamps q), tr_synthetic = None, tr_observation = Some obs\<rparr>"

text \<open>What follows a successful \<open>execute\<close>, inside the \<open>try\<close> block.\<close>

definition after_execute ::
    "'w runtime_deps \<Rightarrow> tool_request \<Rightarrow> 'w tool_definition \<Rightarrow> json \<Rightarrow> tool_context \<Rightarrow> contract_check list \<Rightarrow> string option \<Rightarrow>
     mutation_started option \<Rightarrow> execution_result \<Rightarrow> 'w runtime \<Rightarrow> (tool_exception + unit) \<times> 'w runtime" where
  "after_execute d q t input cx pre key m output s =
     (case td_postconditions t (rn_world s) input (xr_data output) cx of
        Inl e \<Rightarrow> (Inl e, s)
      | Inr post \<Rightarrow>
          let ob = observed_fields d t (rn_world s) input (xr_data output) cx;
              obs = contractObservation (rd_redact d) (fst ob) pre post (snd ob);
              now = cst_settled (tq_stamps q); written = wo_settled (rd_writes d);
              facts = yield_facts (rd_host d) q (td_name t) m (xr_facts output)
          in if failedChecks post \<noteq> []
             then bind_step (settle_ledger (\<lambda>k. markUnknown k now) written key s)
                    (\<lambda>_ s. refuse q ''POSTCONDITION_FAILED'' True (Some obs) (facts s))
             else (case td_serialize t (xr_data output) (tc_id (tq_call q)) of
                     Inl e \<Rightarrow> (Inl e, s)
                   | Inr content \<Rightarrow>
                       (case rd_bound d content (td_maxResultChars t) of
                          Inl e \<Rightarrow> (Inl e, s)
                        | Inr bounded \<Rightarrow>
                            bind_step (settle_ledger (\<lambda>k. markCommitted k (xr_commitProof output) (Some now)) written key s)
                              (\<lambda>_ s. (Inr (), emit (Tool_call_completed (success_result q t bounded obs)) (facts s))))))"

text \<open>The \<open>catch\<close> block.\<close>

definition caught ::
    "'w runtime_deps \<Rightarrow> tool_request \<Rightarrow> string option \<Rightarrow> (tool_exception + unit) \<times> 'w runtime \<Rightarrow>
     (tool_exception + unit) \<times> 'w runtime" where
  "caught d q key m =
     (case m of
        (Inr u, s) \<Rightarrow> (Inr u, s)
      | (Inl e, s) \<Rightarrow>
          bind_step (settle_ledger (\<lambda>k. markUnknown k (cst_caught (tq_stamps q))) (wo_caught (rd_writes d)) key s)
            (\<lambda>_ s. refuse_error q e s))"

definition run_tool ::
    "'w runtime_deps \<Rightarrow> tool_request \<Rightarrow> 'w tool_definition \<Rightarrow> json \<Rightarrow> tool_context \<Rightarrow> contract_check list \<Rightarrow> string option \<Rightarrow>
     mutation_started option \<Rightarrow> 'w runtime \<Rightarrow> (tool_exception + unit) \<times> 'w runtime" where
  "run_tool d q t input cx pre key m s =
     (case td_execute t (rn_world s) input cx of
        (out, w) \<Rightarrow>
          let s = log_effect Executed (s\<lparr>rn_world := w\<rparr>)
          in caught d q key
               (case out of Inl e \<Rightarrow> (Inl e, s) | Inr output \<Rightarrow> after_execute d q t input cx pre key m output s))"

subsection \<open>The pipeline\<close>

text \<open>A call with side effects, from the idempotency guard on.\<close>

definition run_effects ::
    "'w runtime_deps \<Rightarrow> tool_request \<Rightarrow> 'w tool_definition \<Rightarrow> json \<Rightarrow> tool_context \<Rightarrow> contract_check list \<Rightarrow>
     mutation_intent option \<Rightarrow> 'w runtime \<Rightarrow> (tool_exception + unit) \<times> 'w runtime" where
  "run_effects d q t input cx pre intent s =
     (let k = operation_key (rd_host d) q t input
      in bind_step (idempotency_guard d q t input cx k s) (\<lambda>go s.
           case go of
             None \<Rightarrow> (Inr (), s)
           | Some _ \<Rightarrow>
               (case intent of
                  None \<Rightarrow> run_tool d q t input cx pre (Some k) None s
                | Some i \<Rightarrow>
                    let m = mutation_fact q t (rd_hook d) i
                    in bind_step (announce_mutation d m s) (\<lambda>_ s.
                         run_tool d q t input cx pre (Some k) (Some m) s))))"

text \<open>From the live preconditions on.\<close>

definition run_admitted ::
    "'w runtime_deps \<Rightarrow> tool_request \<Rightarrow> 'w tool_definition \<Rightarrow> json \<Rightarrow> tool_context \<Rightarrow> 'w runtime \<Rightarrow>
     (tool_exception + unit) \<times> 'w runtime" where
  "run_admitted d q t input cx s =
     (case td_preconditions t (rn_world s) input cx of
        Inl e \<Rightarrow> refuse_error q e s
      | Inr pre \<Rightarrow>
          if failedChecks pre \<noteq> []
          then refuse q ''PRECONDITION_FAILED'' True
                 (Some (contractObservation (rd_redact d)
                   (td_name t @ '' was not executed because its preconditions failed'') pre [] None)) s
          else if tq_aborted q then refuse q ''TOOL_ABORTED'' False None s
          else (case inspect_effects (rd_errorText d) t input cx of
                  Inl e \<Rightarrow> (Inl e, s)
                | Inr sx \<Rightarrow>
                    if \<not> sx_effects sx then run_tool d q t input cx pre None None s
                    else if rd_writeLock d then refuse q ''REPLAN_APPROVAL_PENDING'' True None s
                    else run_effects d q t input cx pre (sx_intent sx) s))"

definition projection_refusal :: "'w runtime_deps \<Rightarrow> tool_request \<Rightarrow> string \<Rightarrow> (string \<times> bool) option" where
  "projection_refusal d q name =
     (let modeAvailable = isAvailableIn (rd_registry d) name (tq_mode q) False None;
          lockedAvailable = isAvailableIn (rd_registry d) name (tq_mode q) (tq_writeLocked q) None;
          actionRefused = \<not> isToolAllowedByLane (tq_lane q) name
      in if modeAvailable \<and> lockedAvailable \<and> \<not> actionRefused then None
         else Some (if \<not> modeAvailable then ''TOOL_NOT_AVAILABLE_IN_MODE''
                    else if \<not> lockedAvailable then ''REPLAN_APPROVAL_PENDING'' else ''TOOL_NOT_AVAILABLE_FOR_ACTION'',
                    modeAvailable))"

definition request_context :: "tool_request \<Rightarrow> tool_context" where
  "request_context q =
     \<lparr>cx_sessionId = tq_sessionId q, cx_callId = tc_id (tq_call q), cx_workspaceRoot = tq_workspaceRoot q,
      cx_mode = tq_mode q, cx_artifactDir = tq_artifactDir q\<rparr>"

definition permission_stage ::
    "'w runtime_deps \<Rightarrow> tool_request \<Rightarrow> 'w tool_definition \<Rightarrow> json \<Rightarrow> 'w runtime \<Rightarrow> (tool_exception + unit) \<times> 'w runtime" where
  "permission_stage d q t input s =
     (let cx = request_context q
      in case decide_permission (rd_host d) (cst_decision (tq_stamps q)) (rd_rules d) (rd_ask d) (rn_world s)
           \<lparr>rq_tool = t, rq_input = input, rq_callId = tc_id (tq_call q), rq_mode = tq_mode q, rq_context = cx\<rparr> of
           Inl e \<Rightarrow> (Inl e, s)
         | Inr decision \<Rightarrow>
             let s = emit (Permission_decided decision) s
             in if dec_behavior decision \<noteq> Allow then refuse q ''PERMISSION_DENIED'' False None s
                else run_admitted d q t (or_else (dec_updatedInput decision) input) cx s)"

definition executeOne :: "'w runtime_deps \<Rightarrow> tool_request \<Rightarrow> 'w runtime \<Rightarrow> (tool_exception + unit) \<times> 'w runtime" where
  "executeOne d q s =
     (case resolve_tool (rd_registry d) (tc_name (tq_call q)) of
        None \<Rightarrow> refuse q ''UNKNOWN_TOOL'' True None s
      | Some t \<Rightarrow>
          (case projection_refusal d q (td_name t) of
             Some (code, retryable) \<Rightarrow> refuse q code retryable None s
           | None \<Rightarrow>
               (case td_safeParse t (tc_input (tq_call q)) of
                  None \<Rightarrow> refuse q ''INPUT_VALIDATION_ERROR'' True None s
                | Some input \<Rightarrow>
                    (case validateToolInputForLane (tq_lane q) (td_name t) input of
                       Some e \<Rightarrow> refuse q (se_code e) (se_retryable e) None s
                     | None \<Rightarrow>
                         (case td_validate t (rn_world s) input (request_context q) of
                            Inl e \<Rightarrow> (Inl e, s)
                          | Inr (Some e) \<Rightarrow> refuse q (se_code e) (se_retryable e) None s
                          | Inr None \<Rightarrow> permission_stage d q t input s)))))"

end
