(* ===== verification/ToolGuard.thy ===== *)
theory ToolGuard
  imports ToolRuntime
begin

text \<open>
  What one call of a tool promises: exactly one terminal result, which closes the call, and no
  execution that was not permitted, recorded in the idempotency ledger and announced first.
\<close>

subsection \<open>Terminal results\<close>

fun completion :: "effect \<Rightarrow> tool_call_result list" where
  "completion (Emitted (Tool_call_completed r)) = [r]"
| "completion e = []"

definition completions :: "effect list \<Rightarrow> tool_call_result list" where
  "completions tr = concat (map completion tr)"

lemma completions_simps [simp]:
  "completions [] = []" "completions (e # tr) = completion e @ completions tr"
  "completions (tr @ tr') = completions tr @ completions tr'"
  by (simp_all add: completions_def)

text \<open>What a step appends to the trace.\<close>

definition appends :: "'w runtime \<Rightarrow> 'w runtime \<Rightarrow> effect list \<Rightarrow> bool" where
  "appends s s' tr \<longleftrightarrow> rn_trace s' = rn_trace s @ tr"

lemma appends_refl [simp]: "rn_trace s' = rn_trace s \<Longrightarrow> appends s s' []"
  by (simp add: appends_def)

lemma appends_trans: "appends s s' tr \<Longrightarrow> appends s' s'' tr' \<Longrightarrow> appends s s'' (tr @ tr')"
  by (simp add: appends_def)

lemma trace_simps [simp]:
  "rn_trace (log_effect e s) = rn_trace s @ [e]" "rn_trace (emit f s) = rn_trace s @ [Emitted f]"
  "rn_trace (age_evidence H a s) = rn_trace s @ [Aged a]"
  "rn_ledger (log_effect e s) = rn_ledger s" "rn_ledger (emit f s) = rn_ledger s"
  "rn_ledger (age_evidence H a s) = rn_ledger s" "rn_world (emit f s) = rn_world s"
  by (simp_all add: log_effect_def emit_def age_evidence_def)

text \<open>A step that answers nothing, and a step that answers the call once and last.\<close>

definition quiet :: "'w runtime \<Rightarrow> 'w runtime \<Rightarrow> bool" where
  "quiet s s' \<longleftrightarrow> (\<exists>tr. appends s s' tr \<and> completions tr = [])"

definition answers :: "string \<Rightarrow> 'w runtime \<Rightarrow> (tool_exception + unit) \<times> 'w runtime \<Rightarrow> bool" where
  "answers c s m \<longleftrightarrow>
     (case fst m of
        Inl e \<Rightarrow> quiet s (snd m)
      | Inr u \<Rightarrow> \<exists>tr r. appends s (snd m) (tr @ [Emitted (Tool_call_completed r)]) \<and> completions tr = [] \<and> tr_callId r = c)"

lemma quiet_trans: "quiet s s' \<Longrightarrow> quiet s' s'' \<Longrightarrow> quiet s s''"
  unfolding quiet_def by (metis append_Nil appends_trans completions_simps(3))

lemma answers_after: "quiet s s' \<Longrightarrow> answers c s' m \<Longrightarrow> answers c s m"
proof -
  assume q: "quiet s s'" and a: "answers c s' m"
  obtain t where t: "appends s s' t" "completions t = []" using q by (auto simp: quiet_def)
  show "answers c s m"
  proof (cases "fst m")
    case (Inl e)
    then show ?thesis using a quiet_trans [OF q] by (simp add: answers_def)
  next
    case (Inr u)
    then obtain tr r where "appends s' (snd m) (tr @ [Emitted (Tool_call_completed r)])" "completions tr = []" "tr_callId r = c"
      using a by (auto simp: answers_def)
    then have "appends s (snd m) ((t @ tr) @ [Emitted (Tool_call_completed r)])" "completions (t @ tr) = []" "tr_callId r = c"
      using t appends_trans [OF t(1)] by simp_all
    then show ?thesis using Inr unfolding answers_def by (simp only: sum.case) blast
  qed
qed

lemma answers_bind:
  assumes "quiet s (snd m)" "\<And>x s'. m = (Inr x, s') \<Longrightarrow> answers c s' (f x s')"
  shows "answers c s (bind_step m f)"
proof (cases m)
  case (Pair r s')
  then show ?thesis using assms answers_after [of s s' c] by (cases r) (auto simp: answers_def)
qed

lemma quiet_bind:
  assumes "quiet s (snd m)" "\<And>x s'. m = (Inr x, s') \<Longrightarrow> quiet s' (snd (f x s'))"
  shows "quiet s (snd (bind_step m f))"
proof (cases m)
  case (Pair r s')
  then show ?thesis using assms quiet_trans [of s s'] by (cases r) auto
qed

lemma quiet_same: "rn_trace s' = rn_trace s \<Longrightarrow> quiet s s'"
  by (auto simp: quiet_def appends_def)

lemma quiet_log: "completion e = [] \<Longrightarrow> quiet s (log_effect e s)"
  by (auto simp: quiet_def appends_def)

lemma quiet_emit: "completion (Emitted f) = [] \<Longrightarrow> quiet s (emit f s)"
  by (simp add: emit_def quiet_log)

lemma answers_inl: "rn_trace s' = rn_trace s \<Longrightarrow> answers c s (Inl e, s')"
  by (simp add: answers_def quiet_same)

lemma answers_emit: "tr_callId r = c \<Longrightarrow> answers c s (Inr (), emit (Tool_call_completed r) s)"
  by (simp add: answers_def appends_def)

lemma answers_refuse [simp]: "answers (tc_id (tq_call q)) s (refuse q code rt obs s)"
  by (simp add: refuse_def answers_emit failed_result_def)

lemma answers_refuse_error [simp]: "answers (tc_id (tq_call q)) s (refuse_error q e s)"
  by (simp add: refuse_error_def answers_emit failed_result_def)

lemma quiet_flush: "rn_trace s0 = rn_trace s \<Longrightarrow> quiet s (snd (flush_step w s0))"
  by (auto simp: flush_step_def quiet_def appends_def split: sum.splits)

lemma quiet_settle: "quiet s (snd (settle_ledger f w key s))"
  by (cases key) (auto simp: settle_ledger_def intro: quiet_flush quiet_same)

text \<open>A tool whose facts never close a call; ToolRuntime does not check that they do not.\<close>

definition no_completions :: "fact_event list option \<Rightarrow> bool" where
  "no_completions fs \<longleftrightarrow> list_all (\<lambda>f. completion (Emitted f) = []) (or_else fs [])"

definition leaves_results :: "'w tool_definition \<Rightarrow> bool" where
  "leaves_results t \<longleftrightarrow> (\<forall>w i cx out. fst (td_execute t w i cx) = Inr out \<longrightarrow> no_completions (xr_facts out))"

lemma quiet_yield_fact: "completion (Emitted f) = [] \<Longrightarrow> quiet s (yield_fact H q n m f s)"
  by (cases f) (auto simp: yield_fact_def quiet_def appends_def)

lemma quiet_fold: "(\<And>f s. f \<in> set fs \<Longrightarrow> quiet s (g f s)) \<Longrightarrow> quiet s (fold g fs s)"
proof (induction fs arbitrary: s)
  case (Cons f fs)
  then have "quiet s (g f s)" "quiet (g f s) (fold g fs (g f s))" by simp_all
  then show ?case using quiet_trans by simp
qed (simp add: quiet_same)

lemma quiet_yield_facts: "no_completions fs \<Longrightarrow> quiet s (yield_facts H q n m fs s)"
  unfolding yield_facts_def by (rule quiet_fold) (auto simp: no_completions_def list_all_iff intro: quiet_yield_fact)

lemma answers_after_execute:
  assumes "no_completions (xr_facts out)"
  shows "answers (tc_id (tq_call q)) s (after_execute d q t input cx pre key m out s)"
proof -
  have ok: "answers (tc_id (tq_call q)) s' (Inr (), emit (Tool_call_completed (success_result q t content obs))
      (yield_facts H q n mf (xr_facts out) s'))" for s' :: "'a runtime" and content obs H n mf
    by (rule answers_after [OF quiet_yield_facts [OF assms]], rule answers_emit) (simp add: success_result_def)
  have bad: "answers (tc_id (tq_call q)) s' (refuse q code rt obs (yield_facts H q n mf (xr_facts out) s'))"
    for s' :: "'a runtime" and code rt obs H n mf
    by (rule answers_after [OF quiet_yield_facts [OF assms]], rule answers_refuse)
  show ?thesis
    unfolding after_execute_def Let_def
    by (auto intro!: answers_bind quiet_settle ok bad answers_inl split: sum.splits)
qed

lemma answers_caught:
  assumes "answers (tc_id (tq_call q)) s m"
  shows "answers (tc_id (tq_call q)) s (caught d q key m)"
proof (cases m)
  case (Pair r s')
  show ?thesis
  proof (cases r)
    case (Inl e)
    then have "quiet s s'" using assms Pair by (simp add: answers_def)
    then show ?thesis
      by (rule answers_after) (auto simp: caught_def Pair Inl intro!: answers_bind quiet_settle)
  next
    case (Inr u)
    then show ?thesis using assms Pair by (simp add: caught_def)
  qed
qed

lemma answers_run_tool:
  assumes "leaves_results t"
  shows "answers (tc_id (tq_call q)) s (run_tool d q t input cx pre key m s)"
proof -
  obtain out w where ex: "td_execute t (rn_world s) input cx = (out, w)" by fastforce
  define s0 where "s0 = log_effect Executed (s\<lparr>rn_world := w\<rparr>)"
  have clean: "no_completions (xr_facts x)" if "out = Inr x" for x
    using assms ex that unfolding leaves_results_def by (metis fst_conv)
  have "answers (tc_id (tq_call q)) s0
      (case out of Inl e \<Rightarrow> (Inl e, s0) | Inr output \<Rightarrow> after_execute d q t input cx pre key m output s0)"
    by (cases out) (auto intro!: answers_inl answers_after_execute clean)
  then have "answers (tc_id (tq_call q)) s0 (run_tool d q t input cx pre key m s)"
    unfolding run_tool_def ex Let_def prod.case s0_def [symmetric] by (rule answers_caught)
  then show ?thesis by (rule answers_after [rotated]) (simp add: s0_def quiet_def appends_def)
qed


text \<open>A guard answers the call, or says nothing and lets it pass.\<close>

definition gates :: "string \<Rightarrow> 'w runtime \<Rightarrow> ('a, 'w) guarded \<Rightarrow> bool" where
  "gates c s m \<longleftrightarrow> (if fst m = Inr None then answers c s (Inr (), snd m) else quiet s (snd m))"

lemma gates_answered: "answers c s m \<Longrightarrow> gates c s (answered m)"
  by (cases m; cases "fst m") (auto simp: gates_def answered_def answers_def)

lemma gates_quiet: "quiet s s' \<Longrightarrow> gates c s' m \<Longrightarrow> gates c s m"
  unfolding gates_def by (auto intro: quiet_trans answers_after)

lemma gates_bind:
  assumes "quiet s (snd m)" "\<And>x s'. m = (Inr x, s') \<Longrightarrow> gates c s' (f x s')"
  shows "gates c s (bind_step m f)"
proof (cases m)
  case (Pair r s')
  show ?thesis
  proof (cases r)
    case (Inl e)
    then show ?thesis using assms(1) Pair by (simp add: gates_def)
  next
    case (Inr x)
    then show ?thesis using gates_quiet [of s s' c "f x s'"] assms(1) assms(2) [of x s'] Pair by simp
  qed
qed

lemma gates_start: "gates c s (start_running d q t k s)"
  unfolding start_running_def
  by (rule gates_bind) (auto simp: gates_def intro: quiet_flush quiet_same)

lemma gates_inl: "rn_trace s' = rn_trace s \<Longrightarrow> gates c s (Inl e, s')"
  by (simp add: gates_def quiet_same)

lemma gates_deduplicated: "gates (tc_id (tq_call q)) s (Inr None, emit (Tool_call_completed (deduplicated q x)) s)"
  unfolding gates_def fst_conv snd_conv by (simp add: deduplicated_def answers_emit)

lemma quiet_adjudicate: "quiet s (snd (adjudicate_step d q k v x r s))"
  unfolding adjudicate_step_def
  by (cases "adjudicate k v x (cst_adjudicated (tq_stamps q)) (rn_ledger s)")
    (auto intro!: quiet_bind quiet_flush quiet_emit)

lemma gates_guard: "gates (tc_id (tq_call q)) s (idempotency_guard d q t input cx k s)"
  unfolding idempotency_guard_def
  by (auto intro!: gates_start gates_answered gates_inl gates_deduplicated gates_bind quiet_adjudicate
      split: option.split sum.split)

lemma quiet_announce: "quiet s (snd (announce_mutation d m s))"
  by (auto simp: announce_mutation_def quiet_def appends_def Let_def split: mutation_hook.split)

lemma answers_gate:
  assumes "gates c s m" "\<And>x s'. m = (Inr (Some x), s') \<Longrightarrow> answers c s' (f x s')"
  shows "answers c s (bind_step m (\<lambda>go s. case go of None \<Rightarrow> (Inr (), s) | Some x \<Rightarrow> f x s))"
proof (cases m)
  case (Pair r s')
  consider (err) e where "r = Inl e" | (stop) "r = Inr None" | (go) x where "r = Inr (Some x)"
    by (cases r) auto
  then show ?thesis
  proof cases
    case go
    then have "quiet s s'" "answers c s' (f x s')" using assms Pair by (simp_all add: gates_def)
    then have "answers c s (f x s')" by (rule answers_after)
    then show ?thesis using go Pair by simp
  qed (use assms(1) Pair in \<open>simp_all add: gates_def answers_def\<close>)
qed

lemma answers_run_effects:
  assumes "leaves_results t"
  shows "answers (tc_id (tq_call q)) s (run_effects d q t input cx pre intent s)"
  unfolding run_effects_def Let_def
  by (rule answers_gate [OF gates_guard])
    (auto intro!: answers_run_tool [OF assms] answers_bind quiet_announce split: option.split)

lemma answers_run_admitted:
  assumes "leaves_results t"
  shows "answers (tc_id (tq_call q)) s (run_admitted d q t input cx s)"
  unfolding run_admitted_def Let_def
  by (auto intro!: answers_run_tool [OF assms] answers_run_effects [OF assms] answers_inl split: sum.split)

lemma answers_permission_stage:
  assumes "leaves_results t"
  shows "answers (tc_id (tq_call q)) s (permission_stage d q t input s)"
proof -
  have "answers (tc_id (tq_call q)) s (if p then refuse q c b None (emit (Permission_decided dec) s)
      else run_admitted d q t i cx (emit (Permission_decided dec) s))" for p c b dec i cx
    by (rule answers_after [OF quiet_emit [of "Permission_decided dec"]]) (simp_all add: answers_run_admitted [OF assms])
  then show ?thesis
    unfolding permission_stage_def Let_def by (auto simp only: sum.case intro!: answers_inl split: sum.split)
qed

text \<open>
  C12: a call is closed exactly once. Unless an exception leaves the pipeline, what
  \<open>executeOne\<close> yields ends with the completion of the call, under the call's own id, and holds
  no other completion; when an exception leaves it, no completion was yielded. The tools are
  relied on not to return completions among their own facts, which the runtime passes on.
\<close>

theorem call_closed_once:
  assumes "executeOne d q s = (r, s')" "\<And>t. resolve_tool (rd_registry d) (tc_name (tq_call q)) = Some t \<Longrightarrow> leaves_results t"
  shows "\<exists>tr. rn_trace s' = rn_trace s @ tr \<and>
    (case r of
       Inl e \<Rightarrow> completions tr = []
     | Inr u \<Rightarrow> \<exists>before result. tr = before @ [Emitted (Tool_call_completed result)] \<and> completions before = [] \<and>
         tr_callId result = tc_id (tq_call q))"
proof -
  have "answers (tc_id (tq_call q)) s (executeOne d q s)"
    unfolding executeOne_def
    by (auto intro!: answers_inl answers_permission_stage assms(2) split: option.split sum.split)
  then show ?thesis using assms(1) by (cases r) (auto simp: answers_def quiet_def appends_def)
qed

subsection \<open>Guarded execution\<close>

text \<open>Steps that do not run the tool, and what precedes the run in a step that does.\<close>

definition idle :: "'w runtime \<Rightarrow> 'w runtime \<Rightarrow> effect list \<Rightarrow> bool" where
  "idle s s' tr \<longleftrightarrow> appends s s' tr \<and> Executed \<notin> set tr"

definition runs_after :: "'w runtime \<Rightarrow> 'w runtime \<Rightarrow> (effect list \<Rightarrow> bool) \<Rightarrow> bool" where
  "runs_after s s' Q \<longleftrightarrow>
     (\<exists>tr. appends s s' tr \<and> (Executed \<in> set tr \<longrightarrow>
        (\<exists>pre post. tr = pre @ Executed # post \<and> Executed \<notin> set pre \<and> Executed \<notin> set post \<and> Q pre)))"

lemma idle_trans: "idle s s' tr \<Longrightarrow> idle s' s'' tr' \<Longrightarrow> idle s s'' (tr @ tr')"
  by (auto simp: idle_def dest: appends_trans)

lemma idle_runs: "idle s s' tr \<Longrightarrow> runs_after s s' Q"
  by (auto simp: idle_def runs_after_def)

lemma runs_idle:
  assumes "idle s s' t" "runs_after s' s'' (\<lambda>pre. Q (t @ pre))"
  shows "runs_after s s'' Q"
proof -
  obtain tr where tr: "appends s' s'' tr" "Executed \<in> set tr \<Longrightarrow>
      (\<exists>pre post. tr = pre @ Executed # post \<and> Executed \<notin> set pre \<and> Executed \<notin> set post \<and> Q (t @ pre))"
    using assms(2) by (auto simp: runs_after_def)
  have "appends s s'' (t @ tr)" "Executed \<notin> set t" using assms(1) appends_trans [OF _ tr(1)] by (auto simp: idle_def)
  moreover have "\<exists>pre post. t @ tr = pre @ Executed # post \<and> Executed \<notin> set pre \<and> Executed \<notin> set post \<and> Q pre"
    if ex: "Executed \<in> set (t @ tr)"
  proof -
    obtain pre post where p: "tr = pre @ Executed # post" "Executed \<notin> set pre" "Executed \<notin> set post" "Q (t @ pre)"
      using ex tr(2) calculation(2) by auto
    show ?thesis using p calculation(2) by (intro exI [of _ "t @ pre"] exI [of _ post]) simp
  qed
  ultimately show ?thesis unfolding runs_after_def by blast
qed

lemma runs_mono: "runs_after s s' Q \<Longrightarrow> (\<And>pre. Q pre \<Longrightarrow> R pre) \<Longrightarrow> runs_after s s' R"
  unfolding runs_after_def by blast

definition still :: "'w runtime \<Rightarrow> 'w runtime \<Rightarrow> bool" where
  "still s s' \<longleftrightarrow> (\<exists>tr. idle s s' tr)"

lemma still_trans: "still s s' \<Longrightarrow> still s' s'' \<Longrightarrow> still s s''"
  unfolding still_def using idle_trans by blast

lemma still_same: "rn_trace s' = rn_trace s \<Longrightarrow> still s s'"
  by (auto simp: still_def idle_def intro!: exI [of _ "[]"])

lemma still_emit [simp]: "still s (emit f s)" "still s (age_evidence H a s)" "e \<noteq> Executed \<Longrightarrow> still s (log_effect e s)"
  by (simp_all add: still_def idle_def appends_def)

lemma still_refuse [simp]: "still s (snd (refuse q c rt obs s))" "still s (snd (refuse_error q e s))"
  by (simp_all add: refuse_def refuse_error_def)

lemma still_bind:
  assumes "still s (snd m)" "\<And>x s'. m = (Inr x, s') \<Longrightarrow> still s' (snd (f x s'))"
  shows "still s (snd (bind_step m f))"
proof (cases m)
  case (Pair r s')
  then show ?thesis using assms still_trans [of s s'] by (cases r) auto
qed

lemma still_flush: "rn_trace s0 = rn_trace s \<Longrightarrow> still s (snd (flush_step w s0))"
  by (auto simp: flush_step_def still_def idle_def appends_def split: sum.splits)

lemma still_settle: "still s (snd (settle_ledger f w key s))"
  by (cases key) (auto simp: settle_ledger_def intro: still_flush still_same)

lemma still_fold: "(\<And>f s. still s (g f s)) \<Longrightarrow> still s (fold g fs s)"
proof (induction fs arbitrary: s)
  case (Cons f fs)
  then have "still s (g f s)" "still (g f s) (fold g fs (g f s))" by simp_all
  then show ?case using still_trans by simp
qed (simp add: still_same)

lemma still_yield: "still s (yield_facts H q n m fs s)"
proof -
  have "still s (yield_fact H q n m f s)" for f and s :: "'a runtime"
  proof (cases f)
    case (Workspace_changed c)
    show ?thesis
      by (simp add: yield_fact_def Workspace_changed)
        (meson still_emit still_trans)
  qed (simp_all add: yield_fact_def still_same)
  then show ?thesis unfolding yield_facts_def by (rule still_fold)
qed

lemma still_after_execute: "still s (snd (after_execute d q t input cx pre key m out s))"
proof -
  have ok: "still s' (emit f (yield_facts H q n mf fs s'))" for f H n mf fs and s' :: "'a runtime"
    by (rule still_trans [OF still_yield still_emit(1)])
  have bad: "still s' (snd (refuse q c b obs (yield_facts H q n mf fs s')))" for c b obs H n mf fs and s' :: "'a runtime"
    by (rule still_trans [OF still_yield still_refuse(1)])
  show ?thesis
    unfolding after_execute_def Let_def
    by (auto intro!: still_bind still_settle still_same [OF refl] ok bad split: sum.split)
qed

lemma still_caught: "still s (snd m) \<Longrightarrow> still s (snd (caught d q key m))"
proof (cases m)
  case (Pair r s')
  assume "still s (snd m)"
  then have s': "still s s'" using Pair by simp
  show ?thesis
  proof (cases r)
    case (Inl e)
    have "still s' (snd (caught d q key m))"
      unfolding caught_def Pair Inl by (auto intro!: still_bind still_settle)
    then show ?thesis by (rule still_trans [OF s'])
  qed (simp add: caught_def Pair s')
qed

lemma run_tool_runs: "Q [] \<Longrightarrow> runs_after s (snd (run_tool d q t input cx pre key m s)) Q"
proof -
  assume Q: "Q []"
  obtain out w where ex: "td_execute t (rn_world s) input cx = (out, w)" by fastforce
  define s0 where "s0 = log_effect Executed (s\<lparr>rn_world := w\<rparr>)"
  have "still s0 (snd (case out of Inl e \<Rightarrow> (Inl e, s0) | Inr output \<Rightarrow> after_execute d q t input cx pre key m output s0))"
    by (cases out) (auto intro!: still_same still_after_execute)
  then have "still s0 (snd (run_tool d q t input cx pre key m s))"
    unfolding run_tool_def ex Let_def prod.case s0_def [symmetric] by (rule still_caught)
  then obtain tr where "appends s0 (snd (run_tool d q t input cx pre key m s)) tr" "Executed \<notin> set tr"
    by (auto simp: still_def idle_def)
  then have tr: "appends s (snd (run_tool d q t input cx pre key m s)) (Executed # tr)" "Executed \<notin> set tr"
    by (simp_all add: s0_def appends_def)
  show ?thesis unfolding runs_after_def
    by (rule exI [of _ "Executed # tr"], rule conjI [OF tr(1)], rule impI, rule exI [of _ "[]"], rule exI [of _ tr])
      (simp add: tr(2) Q)
qed

text \<open>
  Why a key may be executed: no earlier attempt left it applied or in doubt, or the tool has
  looked at the world and found the earlier effect absent.
\<close>

definition reexecutable :: "'w tool_definition \<Rightarrow> json \<Rightarrow> tool_context \<Rightarrow> string \<Rightarrow> 'w runtime \<Rightarrow> bool" where
  "reexecutable t input cx k s \<longleftrightarrow>
     \<not> isApplied (rn_ledger s) k \<and> \<not> needsInspection (rn_ledger s) k \<or>
     (\<exists>record inspect i. obj_get (il_records (rn_ledger s)) k = Some record \<and> td_inspectOutcome t = Some inspect \<and>
        inspect (rn_world s) input cx record = Inr i \<and> \<not> oi_applied i)"

definition doubt_recorded :: "string \<Rightarrow> effect list \<Rightarrow> bool" where
  "doubt_recorded k pre \<longleftrightarrow> (\<exists>l. Flushed l \<in> set pre \<and> needsInspection l k)"

lemma start_running_go:
  assumes "start_running d q t k s = (Inr (Some x), s')"
  shows "\<exists>tr. idle s s' tr \<and> doubt_recorded k tr"
proof -
  define l where "l = mark_running k (tc_id (tq_call q)) (td_name t) (cst_running (tq_stamps q)) (rn_ledger s)"
  have "needsInspection (l\<lparr>il_dirty := False\<rparr>) k" "il_dirty l"
    by (simp_all add: l_def mark_running_def put_record_def needsInspection_def getStatus_def)
  then have "idle s s' [Flushed (l\<lparr>il_dirty := False\<rparr>)]" "needsInspection (l\<lparr>il_dirty := False\<rparr>) k"
    using assms
    by (auto simp: start_running_def flush_step_def flush_ledger_def idle_def appends_def bind_step_def
        simp flip: l_def split: sum.splits if_splits)
  then show ?thesis unfolding doubt_recorded_def by (intro exI [of _ "[Flushed (l\<lparr>il_dirty := False\<rparr>)]"]) auto
qed

lemma start_running_still: "still s (snd (start_running d q t k s))"
  unfolding start_running_def by (auto intro!: still_bind still_flush still_same [OF refl])

lemma adjudicate_still: "still s (snd (adjudicate_step d q k v x r s))"
  unfolding adjudicate_step_def
  by (cases "adjudicate k v x (cst_adjudicated (tq_stamps q)) (rn_ledger s)")
    (auto intro!: still_bind still_flush)

lemma answered_still: "still s (snd m) \<Longrightarrow> still s (snd (answered m))"
  unfolding answered_def by (auto intro!: still_bind still_same [OF refl])

lemma guard_still: "still s (snd (idempotency_guard d q t input cx k s))"
  unfolding idempotency_guard_def
  by (auto intro!: start_running_still answered_still still_bind adjudicate_still still_same [OF refl]
      split: option.split sum.split)

lemma start_after:
  assumes "bind_step (adjudicate_step d q k v x r s) (\<lambda>_ s. start_running d q t k s) = (Inr (Some y), s')"
  shows "\<exists>tr. idle s s' tr \<and> doubt_recorded k tr"
proof -
  obtain a s1 where m: "adjudicate_step d q k v x r s = (a, s1)" by fastforce
  obtain t1 where t1: "idle s s1 t1" using adjudicate_still [of s d q k v x r] m by (auto simp: still_def)
  obtain b where a: "a = Inr b" and st: "start_running d q t k s1 = (Inr (Some y), s')"
    using assms m by (cases a) auto
  obtain t2 where "idle s1 s' t2" "doubt_recorded k t2" using start_running_go [OF st] by blast
  then show ?thesis using idle_trans [OF t1] by (intro exI [of _ "t1 @ t2"]) (auto simp: doubt_recorded_def)
qed

lemma guard_go:
  assumes "idempotency_guard d q t input cx k s = (Inr (Some x), s')"
  shows "(\<exists>tr. idle s s' tr \<and> doubt_recorded k tr) \<and> reexecutable t input cx k s"
proof (cases "obj_get (il_records (rn_ledger s)) k")
  case None
  then show ?thesis
    using assms start_running_go by (auto simp: idempotency_guard_def reexecutable_def isApplied_def needsInspection_def getStatus_def)
next
  case (Some old)
  note unfold = idempotency_guard_def Some option.case
  consider (clean) "\<not> isApplied (rn_ledger s) k" "\<not> needsInspection (rn_ledger s) k"
    | (applied) "isApplied (rn_ledger s) k" | (doubt) "\<not> isApplied (rn_ledger s) k" "needsInspection (rn_ledger s) k"
    by blast
  then show ?thesis
  proof cases
    case clean
    then show ?thesis using assms start_running_go by (simp add: unfold reexecutable_def)
  next
    case applied
    obtain f i where f: "td_inspectOutcome t = Some f" "f (rn_world s) input cx old = Inr i" "\<not> oi_applied i"
      and go: "bind_step (adjudicate_step d q k Resolved_not_applied (oi_detail i) old s) (\<lambda>_ s. start_running d q t k s)
        = (Inr (Some x), s')"
      using assms applied
      by (auto simp: unfold answered_def refuse_def split: option.splits sum.splits if_splits)
    show ?thesis using start_after [OF go] f Some by (auto simp: reexecutable_def)
  next
    case doubt
    obtain f i where f: "td_inspectOutcome t = Some f" "f (rn_world s) input cx old = Inr i" "\<not> oi_applied i"
      and go: "bind_step (adjudicate_step d q k Resolved_not_applied (oi_detail i) old s) (\<lambda>_ s. start_running d q t k s)
        = (Inr (Some x), s')"
      using assms doubt
      by (auto simp: unfold answered_def refuse_def bind_step_def split: option.splits sum.splits if_splits prod.splits)
    show ?thesis using start_after [OF go] f Some by (auto simp: reexecutable_def)
  qed
qed

text \<open>The intent is announced; with a journal hook it is persisted first.\<close>

definition announced :: "'w runtime_deps \<Rightarrow> mutation_started \<Rightarrow> effect list \<Rightarrow> bool" where
  "announced d m pre \<longleftrightarrow> rd_hook d \<noteq> Hook_fails \<and>
     (\<exists>a b. pre = a @ Emitted (Workspace_mutation_started m) # b \<and> (rd_hook d = Hook_persists \<longrightarrow> Persisted m \<in> set a))"

lemma announced_after: "announced d m tr \<Longrightarrow> announced d m (t @ tr)"
  unfolding announced_def by (metis Un_iff append.assoc set_append)

lemma doubt_recorded_append: "doubt_recorded k (t @ tr) \<longleftrightarrow> doubt_recorded k t \<or> doubt_recorded k tr"
  by (auto simp: doubt_recorded_def)

lemma announce_go:
  assumes "announce_mutation d m s = (Inr u, s')"
  shows "\<exists>tr. idle s s' tr \<and> announced d m tr"
proof (cases "rd_hook d")
  case No_hook
  then show ?thesis
    using assms by (auto simp: announce_mutation_def announced_def idle_def appends_def Let_def Cons_eq_append_conv)
next
  case Hook_persists
  have "\<exists>a b. [Persisted m, Emitted (Workspace_mutation_started m), Aged x] = a @ Emitted (Workspace_mutation_started m) # b \<and>
      Persisted m \<in> set a" for x
    by (rule exI [of _ "[Persisted m]"]) simp
  then show ?thesis
    using assms Hook_persists by (auto simp: announce_mutation_def announced_def idle_def appends_def Let_def)
next
  case Hook_fails
  then show ?thesis using assms by (simp add: announce_mutation_def Let_def)
qed

definition prepared ::
    "'w runtime_deps \<Rightarrow> tool_request \<Rightarrow> 'w tool_definition \<Rightarrow> json \<Rightarrow> 'w runtime \<Rightarrow> mutation_intent option \<Rightarrow> effect list \<Rightarrow> bool"
  where
  "prepared d q t input s intent pre \<longleftrightarrow>
     doubt_recorded (operation_key (rd_host d) q t input) pre \<and>
     (\<forall>i. intent = Some i \<longrightarrow> announced d (mutation_fact q t (rd_hook d) i) pre)"

lemma run_effects_runs:
  "runs_after s (snd (run_effects d q t input cx pre intent s))
     (\<lambda>tr. prepared d q t input s intent tr \<and> reexecutable t input cx (operation_key (rd_host d) q t input) s)"
proof -
  define k where "k = operation_key (rd_host d) q t input"
  obtain g s1 where g: "idempotency_guard d q t input cx k s = (g, s1)" by fastforce
  obtain t1 where t1: "idle s s1 t1" using guard_still [of s d q t input cx k] g by (auto simp: still_def)
  consider (stop) "\<forall>x. g \<noteq> Inr (Some x)" | (go) x where "g = Inr (Some x)" by blast
  then show ?thesis
  proof cases
    case stop
    then have "snd (run_effects d q t input cx pre intent s) = s1"
      by (cases g) (auto simp: run_effects_def g simp flip: k_def split: option.split)
    then show ?thesis using idle_runs [OF t1] by simp
  next
    case go
    obtain tr where tr: "idle s s1 tr" "doubt_recorded k tr" and re: "reexecutable t input cx k s"
      using guard_go [of d q t input cx k s x s1] g go by blast
    show ?thesis
    proof (cases intent)
      case None
      then have run: "run_effects d q t input cx pre intent s = run_tool d q t input cx pre (Some k) None s1"
        by (simp add: run_effects_def g go flip: k_def)
      show ?thesis unfolding run
        by (rule runs_idle [OF tr(1)], rule run_tool_runs) (simp add: prepared_def None tr(2) re flip: k_def)
    next
      case (Some i)
      define m where "m = mutation_fact q t (rd_hook d) i"
      have run: "run_effects d q t input cx pre intent s =
          bind_step (announce_mutation d m s1) (\<lambda>_ s. run_tool d q t input cx pre (Some k) (Some m) s)"
        by (simp add: run_effects_def g go Some m_def Let_def flip: k_def)
      obtain u s2 where u: "announce_mutation d m s1 = (u, s2)" by fastforce
      show ?thesis
      proof (cases u)
        case (Inl e)
        have "snd (announce_mutation d m s1) = s1"
          using Inl u by (auto simp: announce_mutation_def Let_def split: mutation_hook.splits)
        then have "s2 = s1" using u by simp
        then show ?thesis using idle_runs [OF t1] by (simp add: run u Inl)
      next
        case (Inr x)
        then obtain t2 where t2: "idle s1 s2 t2" "announced d m t2" using announce_go [of d m s1 x s2] u by blast
        have "prepared d q t input s intent (tr @ t2 @ [])"
          using tr(2) announced_after [OF t2(2)]
          by (simp add: prepared_def Some doubt_recorded_append flip: k_def m_def)
        then show ?thesis
          unfolding run u Inr bind_step_simps
          by (intro runs_idle [OF tr(1)] runs_idle [OF t2(1)] run_tool_runs) (simp add: re flip: k_def)
      qed
    qed
  qed
qed

definition ready ::
    "'w runtime_deps \<Rightarrow> tool_request \<Rightarrow> 'w tool_definition \<Rightarrow> json \<Rightarrow> tool_context \<Rightarrow> 'w runtime \<Rightarrow> effect list \<Rightarrow> bool" where
  "ready d q t input cx s tr \<longleftrightarrow> \<not> tq_aborted q \<and>
     (\<exists>checks. td_preconditions t (rn_world s) input cx = Inr checks \<and> failedChecks checks = []) \<and>
     (\<exists>sx. inspect_effects (rd_errorText d) t input cx = Inr sx \<and>
        (sx_effects sx \<longrightarrow> \<not> rd_writeLock d \<and> prepared d q t input s (sx_intent sx) tr \<and>
           reexecutable t input cx (operation_key (rd_host d) q t input) s))"

lemma run_admitted_runs: "runs_after s (snd (run_admitted d q t input cx s)) (ready d q t input cx s)"
proof -
  have quiet: "runs_after s s' Q" if "still s s'" for s' :: "'a runtime" and Q
    using that idle_runs by (auto simp: still_def)
  show ?thesis
  proof (cases "td_preconditions t (rn_world s) input cx")
    case (Inl e)
    then show ?thesis by (simp add: run_admitted_def quiet)
  next
    case (Inr checks)
    show ?thesis
    proof (cases "failedChecks checks = [] \<and> \<not> tq_aborted q")
      case False
      then show ?thesis by (auto simp: run_admitted_def Inr intro: quiet)
    next
      case ok: True
      show ?thesis
      proof (cases "inspect_effects (rd_errorText d) t input cx")
        case (Inl e)
        then show ?thesis by (auto simp: run_admitted_def Inr ok intro: quiet still_same [OF refl])
      next
        case sx: (Inr sx)
        consider (pure) "\<not> sx_effects sx" | (locked) "sx_effects sx" "rd_writeLock d" | (run) "sx_effects sx" "\<not> rd_writeLock d" by blast
        then show ?thesis
        proof cases
          case pure
          have "run_admitted d q t input cx s = run_tool d q t input cx checks None None s"
            by (simp add: run_admitted_def Inr ok sx pure)
          then show ?thesis by (simp only:) (rule run_tool_runs, simp add: ready_def ok sx pure Inr)
        next
          case run
          have "run_admitted d q t input cx s = run_effects d q t input cx checks (sx_intent sx) s"
            by (simp add: run_admitted_def Inr ok sx run)
          then show ?thesis
            by (simp only:) (rule runs_mono [OF run_effects_runs], simp add: ready_def ok sx run Inr)
        qed (simp add: run_admitted_def Inr ok sx quiet)
      qed
    qed
  qed
qed

text \<open>The decision that lets a call with parsed input through.\<close>

definition decision_of :: "'w runtime_deps \<Rightarrow> tool_request \<Rightarrow> 'w tool_definition \<Rightarrow> json \<Rightarrow> 'w runtime \<Rightarrow>
    tool_exception + permission_decision" where
  "decision_of d q t parsed s =
     decide_permission (rd_host d) (cst_decision (tq_stamps q)) (rd_rules d) (rd_ask d) (rn_world s)
       \<lparr>rq_tool = t, rq_input = parsed, rq_callId = tc_id (tq_call q), rq_mode = tq_mode q, rq_context = request_context q\<rparr>"

text \<open>Everything that holds when the tool runs, after the effects \<open>pre\<close>.\<close>

definition admitted :: "'w runtime_deps \<Rightarrow> tool_request \<Rightarrow> 'w runtime \<Rightarrow> 'w tool_definition \<Rightarrow> permission_decision \<Rightarrow> json \<Rightarrow>
    side_effects \<Rightarrow> effect list \<Rightarrow> bool" where
  "admitted d q s t dec input sx pre \<longleftrightarrow>
     resolve_tool (rd_registry d) (tc_name (tq_call q)) = Some t \<and> projection_refusal d q (td_name t) = None \<and>
     \<not> tq_aborted q \<and> Emitted (Permission_decided dec) \<in> set pre \<and> dec_behavior dec = Allow \<and>
     (\<exists>parsed. td_safeParse t (tc_input (tq_call q)) = Some parsed \<and> decision_of d q t parsed s = Inr dec \<and>
        input = or_else (dec_updatedInput dec) parsed) \<and>
     inspect_effects (rd_errorText d) t input (request_context q) = Inr sx \<and>
     (sx_effects sx \<longrightarrow> \<not> rd_writeLock d \<and> prepared d q t input s (sx_intent sx) pre \<and>
        reexecutable t input (request_context q) (operation_key (rd_host d) q t input) s)"

lemma permission_stage_runs:
  assumes "resolve_tool (rd_registry d) (tc_name (tq_call q)) = Some t" "projection_refusal d q (td_name t) = None"
    "td_safeParse t (tc_input (tq_call q)) = Some parsed"
  shows "runs_after s (snd (permission_stage d q t parsed s)) (\<lambda>tr. \<exists>t dec input sx. admitted d q s t dec input sx tr)"
proof (cases "decision_of d q t parsed s")
  case (Inl e)
  then have "snd (permission_stage d q t parsed s) = s"
    by (simp add: permission_stage_def decision_of_def Let_def)
  then show ?thesis using idle_runs [of s s "[]"] by (simp add: idle_def)
next
  case (Inr dec)
  define s1 where "s1 = emit (Permission_decided dec) s"
  have i1: "idle s s1 [Emitted (Permission_decided dec)]" by (simp add: s1_def idle_def appends_def)
  have same: "rn_ledger s1 = rn_ledger s" "rn_world s1 = rn_world s" by (simp_all add: s1_def)
  show ?thesis
  proof (cases "dec_behavior dec = Allow")
    case False
    then have "snd (permission_stage d q t parsed s) = snd (refuse q ''PERMISSION_DENIED'' False None s1)"
      using Inr by (simp add: permission_stage_def decision_of_def Let_def s1_def)
    moreover have "still s (snd (refuse q ''PERMISSION_DENIED'' False None s1))"
      by (rule still_trans [OF _ still_refuse(1)]) (use i1 in \<open>auto simp: still_def\<close>)
    ultimately have "still s (snd (permission_stage d q t parsed s))" by simp
    then show ?thesis using idle_runs by (auto simp: still_def)
  next
    case True
    define input where "input = or_else (dec_updatedInput dec) parsed"
    have run: "permission_stage d q t parsed s = run_admitted d q t input (request_context q) s1"
      using Inr True by (simp add: permission_stage_def decision_of_def Let_def s1_def input_def)
    have imp: "\<exists>t d' input sx. admitted d q s t d' input sx ([Emitted (Permission_decided dec)] @ pre)"
      if ready: "ready d q t input (request_context q) s1 pre" for pre
    proof -
      obtain sx where "\<not> tq_aborted q" "inspect_effects (rd_errorText d) t input (request_context q) = Inr sx"
        "sx_effects sx \<longrightarrow> \<not> rd_writeLock d \<and> prepared d q t input s1 (sx_intent sx) pre \<and>
           reexecutable t input (request_context q) (operation_key (rd_host d) q t input) s1"
        using ready by (auto simp: ready_def)
      then have "admitted d q s t dec input sx ([Emitted (Permission_decided dec)] @ pre)"
        using assms Inr True same announced_after [of d _ pre "[Emitted (Permission_decided dec)]"]
        by (auto simp: admitted_def input_def prepared_def doubt_recorded_def reexecutable_def)
      then show ?thesis by blast
    qed
    have "runs_after s1 (snd (permission_stage d q t parsed s))
        (\<lambda>pre. \<exists>t d' input sx. admitted d q s t d' input sx ([Emitted (Permission_decided dec)] @ pre))"
      unfolding run using imp by (rule runs_mono [OF run_admitted_runs])
    then show ?thesis by (rule runs_idle [OF i1])
  qed
qed

lemma execution_admitted:
  assumes "executeOne d q s = (r, s')"
  shows "runs_after s s' (\<lambda>tr. \<exists>t dec input sx. admitted d q s t dec input sx tr)"
proof -
  have refused: "runs_after s (snd (refuse q c rt obs s)) Q" "runs_after s s Q" for c rt obs Q
    using still_refuse(1) [of s q c rt obs] still_same [OF refl, of s] idle_runs by (auto simp: still_def)
  have "runs_after s (snd (executeOne d q s)) (\<lambda>tr. \<exists>t dec input sx. admitted d q s t dec input sx tr)"
    unfolding executeOne_def
    by (auto intro!: refused permission_stage_runs split: option.split sum.split)
  then show ?thesis by (simp add: assms)
qed



text \<open>A registered edit of a source file, in the mode that accepts edits.\<close>

definition demo_deps :: "unit runtime_deps" where
  "demo_deps =
     \<lparr>rd_host = demo_host\<lparr>h_sha256 := (\<lambda>s. ''0123456789abcdef'')\<rparr>, rd_registry = [(''Edit'', demo_edit_tool)], rd_rules = [], rd_ask = None, rd_writeLock = False,
      rd_hook = Hook_persists,
      rd_writes = \<lparr>wo_adjudicated = True, wo_running = True, wo_settled = True, wo_caught = True\<rparr>,
      rd_redact = (\<lambda>ob. ob), rd_bound = (\<lambda>c n. Inr c), rd_errorText = (\<lambda>e. ''error'')\<rparr>"

definition demo_tool_request :: tool_request where
  "demo_tool_request =
     \<lparr>tq_call = \<lparr>tc_id = ''c1'', tc_name = ''Edit'', tc_input = JObj [(''path'', JStr ''a'')],
        tc_parentMessageId = ''m1'', tc_receivedIndex = 0\<rparr>,
      tq_mode = Accept_edits, tq_sessionId = ''s'', tq_workspaceRoot = ''/w'', tq_artifactDir = ''/a'', tq_aborted = False,
      tq_lane = None, tq_writeLocked = False,
      tq_stamps = \<lparr>cst_startedAt = 1, cst_durationMs = 2, cst_decision = demo_stamp, cst_adjudicated = ''t'',
        cst_running = ''t'', cst_settled = ''t'', cst_caught = ''t''\<rparr>\<rparr>"

definition demo_runtime :: "unit runtime" where
  "demo_runtime = \<lparr>rn_ledger = empty_ledger, rn_file = Missing_file, rn_evidence = None, rn_world = (), rn_trace = []\<rparr>"

definition demo_execution :: "(tool_exception + unit) \<times> unit runtime" where
  "demo_execution = executeOne demo_deps demo_tool_request demo_runtime"

lemma demo_evaluated: "case demo_execution of (Inr u, s) \<Rightarrow> Executed \<in> set (rn_trace s) | (Inl e, s) \<Rightarrow> False"
  by code_simp

lemma returned: "(case m of (Inr u, s) \<Rightarrow> P s | (Inl e, s) \<Rightarrow> False) \<Longrightarrow> fst m = Inr () \<and> P (snd m)"
  by (auto split: prod.splits sum.splits)

lemma demo_executed: "fst demo_execution = Inr () \<and> Executed \<in> set (rn_trace (snd demo_execution))"
  by (rule returned) (rule demo_evaluated)

lemma demo_execution_run: "executeOne demo_deps demo_tool_request demo_runtime = (Inr (), snd demo_execution)"
  using demo_executed by (metis demo_execution_def prod.collapse)

lemma demo_leaves_results: "leaves_results demo_edit_tool"
  by (simp add: leaves_results_def demo_edit_tool_def defineTool_def no_completions_def or_else_def)

lemma demo_resolved: "resolve_tool (rd_registry demo_deps) (tc_name (tq_call demo_tool_request)) = Some t \<Longrightarrow> t = demo_edit_tool"
  by (simp add: resolve_tool_def demo_deps_def demo_tool_request_def obj_get_def)

lemma call_closed_once_witness:
  "\<exists>before result. rn_trace (snd demo_execution) = before @ [Emitted (Tool_call_completed result)] \<and>
     tr_callId result = ''c1''"
proof -
  have "leaves_results t" if "resolve_tool (rd_registry demo_deps) (tc_name (tq_call demo_tool_request)) = Some t" for t
    using demo_resolved [OF that] demo_leaves_results by simp
  from call_closed_once [OF demo_execution_run this] show ?thesis by (auto simp: demo_runtime_def demo_tool_request_def)
qed


lemma demo_effects: "inspect_effects err demo_edit_tool input cx = Inr sx \<Longrightarrow> sx_effects sx"
  by (auto simp: inspect_effects_def demo_edit_tool_def defineTool_def or_else_def Let_def)


end
