(* ===== verification/Journal.thy ===== *)
theory Journal
  imports Calibration
begin

text \<open>
  The session journal (session/SessionJournal.ts) and its loader (session/SessionLoader.ts).
  A file is the list of its non-blank lines. Envelopes are typed records, so the \<open>typeof\<close>
  guards on them hold; the checksum of an envelope, a hash of the JSON text of its number and
  fact, is a parameter, and so is the redaction of secrets. The loader keeps the plans of the
  journal by reference and writes the status of a superseded plan into the loaded fact itself;
  \<open>superseded_in\<close> has that effect on the envelopes it returns.
\<close>

record journal_envelope = envelope +
  env_eventId :: string
  env_runId :: string
  env_turnId :: string
  env_parentEventId :: "string option"

datatype journal_line = Unparseable_line | Null_line | Envelope_line journal_envelope

datatype journal_source = No_journal | Journal_read_error | Journal_lines "journal_line list"

type_synonym checksum = "number \<Rightarrow> fact_event \<Rightarrow> string"

subsection \<open>Writing\<close>

record journal =
  jn_nextSeq :: number
  jn_lastEventId :: "string option"
  jn_queue :: "journal_envelope list"
  jn_file :: "journal_line list"

record journal_ids =
  ji_sessionId :: string
  ji_runId :: string

record append_stamp =
  as_eventId :: string
  as_now :: string

definition adopt :: "number \<Rightarrow> string option \<Rightarrow> journal \<Rightarrow> journal" where
  "adopt nextSeq lastEventId j = j\<lparr>jn_nextSeq := nextSeq, jn_lastEventId := lastEventId\<rparr>"

definition currentSeq :: "journal \<Rightarrow> number" where
  "currentSeq j = jn_nextSeq j - 1"

definition fact_envelope ::
    "checksum \<Rightarrow> (fact_event \<Rightarrow> fact_event) \<Rightarrow> journal_ids \<Rightarrow> append_stamp \<Rightarrow> string \<Rightarrow> fact_event \<Rightarrow> journal \<Rightarrow> journal_envelope"
  where
  "fact_envelope ck redactDeep I st turnId f j =
     \<lparr>env_schemaVersion = 1, env_seq = jn_nextSeq j, env_sessionId = ji_sessionId I, env_timestamp = as_now st,
      env_checksum = ck (jn_nextSeq j) (redactDeep f), env_event = redactDeep f,
      env_eventId = as_eventId st, env_runId = ji_runId I, env_turnId = turnId, env_parentEventId = jn_lastEventId j\<rparr>"

definition append_fact ::
    "checksum \<Rightarrow> (fact_event \<Rightarrow> fact_event) \<Rightarrow> journal_ids \<Rightarrow> append_stamp \<Rightarrow> string \<Rightarrow> fact_event \<Rightarrow> journal \<Rightarrow>
     journal_envelope \<times> journal" where
  "append_fact ck redactDeep I st turnId f j =
     (let e = fact_envelope ck redactDeep I st turnId f j
      in (e, j\<lparr>jn_nextSeq := jn_nextSeq j + 1, jn_lastEventId := Some (env_eventId e), jn_queue := jn_queue j @ [e]\<rparr>))"

text \<open>One round of the flush loop: the whole queue is one write, which succeeds or fails as one.\<close>

definition write_queue :: "bool \<Rightarrow> journal \<Rightarrow> journal" where
  "write_queue written j =
     j\<lparr>jn_queue := [], jn_file := (if written then jn_file j @ map Envelope_line (jn_queue j) else jn_file j)\<rparr>"

subsection \<open>Trusted lines\<close>

datatype diagnostic =
    Journal_not_found
  | Unparseable_json nat
  | Unknown_schema nat
  | Seq_gap nat
  | Invalid_timestamp nat
  | Checksum_mismatch nat
  | Unknown_fact_type nat

definition isFactEvent :: "fact_event \<Rightarrow> bool" where
  "isFactEvent f = (case f of Unknown_fact t \<Rightarrow> False | _ \<Rightarrow> True)"

definition line_problem :: "checksum \<Rightarrow> nat \<Rightarrow> number \<Rightarrow> journal_envelope \<Rightarrow> diagnostic option" where
  "line_problem ck lineNo expectedSeq e =
     (if env_schemaVersion e \<noteq> 1 then Some (Unknown_schema lineNo)
      else if env_seq e \<noteq> expectedSeq then Some (Seq_gap lineNo)
      else if \<not> isCanonicalIso (env_timestamp e) then Some (Invalid_timestamp lineNo)
      else if ck (env_seq e) (env_event e) \<noteq> env_checksum e then Some (Checksum_mismatch lineNo)
      else if \<not> isFactEvent (env_event e) then Some (Unknown_fact_type lineNo)
      else None)"

text \<open>
  The reading stops at the first line that fails a check. A line that is the JSON value
  \<open>null\<close> has no members, and reading one throws out of the loader.
\<close>

fun read_lines :: "checksum \<Rightarrow> nat \<Rightarrow> number \<Rightarrow> journal_line list \<Rightarrow> (journal_envelope list \<times> diagnostic list) res" where
  "read_lines ck lineNo expectedSeq [] = Inr ([], [])"
| "read_lines ck lineNo expectedSeq (l # ls) =
     (case l of
        Unparseable_line \<Rightarrow> Inr ([], [Unparseable_json lineNo])
      | Null_line \<Rightarrow> Inl (JsError ''TypeError'')
      | Envelope_line e \<Rightarrow>
          (case line_problem ck lineNo expectedSeq e of
             Some p \<Rightarrow> Inr ([], [p])
           | None \<Rightarrow> bind_res (read_lines ck (lineNo + 1) (expectedSeq + 1) ls) (\<lambda>(es, ds). Inr (e # es, ds))))"

subsection \<open>The replayed view\<close>

record loader_view =
  lv_messages :: "conversation_message list"
  lv_accepted :: "tool_call jsobj"
  lv_completed :: "tool_call_result list"
  lv_messaged :: "string list"
  lv_tasks :: "plan_task jsobj"
  lv_evidence :: "evidence_receipt jsobj"
  lv_plans :: "plan_version jsobj"
  lv_snapshot :: "state_snapshot option"

definition empty_view :: loader_view where
  "empty_view = \<lparr>lv_messages = [], lv_accepted = [], lv_completed = [], lv_messaged = [], lv_tasks = [],
     lv_evidence = [], lv_plans = [], lv_snapshot = None\<rparr>"

fun splice_compacted ::
    "string list \<Rightarrow> conversation_message list \<Rightarrow> bool \<Rightarrow> conversation_message list \<Rightarrow> conversation_message list" where
  "splice_compacted cleared replacements inserted [] = []"
| "splice_compacted cleared replacements inserted (m # ms) =
     (if msg_id m \<in> set cleared
      then (if inserted then [] else replacements) @ splice_compacted cleared replacements True ms
      else m # splice_compacted cleared replacements inserted ms)"

definition result_ids :: "conversation_message \<Rightarrow> string list" where
  "result_ids m = List.map_filter (\<lambda>b. case b of Tool_result_block c ok ct e ob \<Rightarrow> Some c | _ \<Rightarrow> None) (msg_content m)"

definition plan_key :: "string \<Rightarrow> number \<Rightarrow> string" where
  "plan_key planId version = planId @ ''@'' @ show_num version"

definition view_fact :: "fact_event \<Rightarrow> loader_view \<Rightarrow> loader_view" where
  "view_fact f v =
     (case f of
        User_message_accepted m \<Rightarrow> v\<lparr>lv_messages := lv_messages v @ [m]\<rparr>
      | Assistant_message_completed m usage \<Rightarrow> v\<lparr>lv_messages := lv_messages v @ [m]\<rparr>
      | Tool_result_message m \<Rightarrow>
          v\<lparr>lv_messages := lv_messages v @ [m], lv_messaged := lv_messaged v @ result_ids m\<rparr>
      | Tool_call_accepted c \<Rightarrow> v\<lparr>lv_accepted := obj_set (lv_accepted v) (tc_id c) c\<rparr>
      | Tool_call_completed r \<Rightarrow>
          v\<lparr>lv_accepted := obj_delete (lv_accepted v) (tr_callId r), lv_completed := lv_completed v @ [r]\<rparr>
      | Context_compacted r \<Rightarrow>
          v\<lparr>lv_messages := splice_compacted (cr_clearedMessageIds r) (or_else (cr_replacements r) []) False (lv_messages v)\<rparr>
      | Task_changed t \<Rightarrow> v\<lparr>lv_tasks := obj_set (lv_tasks v) (tk_id t) t\<rparr>
      | Evidence_recorded r \<Rightarrow> v\<lparr>lv_evidence := obj_set (lv_evidence v) (er_id r) r\<rparr>
      | Plan_version_created p \<Rightarrow> v\<lparr>lv_plans := obj_set (lv_plans v) (plan_key (pl_planId p) (pl_version p)) p\<rparr>
      | Plan_status_changed planId version \<Rightarrow>
          (let k = plan_key planId version
           in case obj_get (lv_plans v) k of
                None \<Rightarrow> v
              | Some p \<Rightarrow> v\<lparr>lv_plans := obj_set (lv_plans v) k (p\<lparr>pl_status := Superseded\<rparr>)\<rparr>)
      | State_snapshot sn \<Rightarrow> v\<lparr>lv_snapshot := Some sn\<rparr>
      | _ \<Rightarrow> v)"

definition loader_view_of :: "fact_event list \<Rightarrow> loader_view" where
  "loader_view_of fs = fold view_fact fs empty_view"

text \<open>The plan objects in the map are those of the loaded facts.\<close>

fun plan_created_as :: "string \<Rightarrow> fact_event \<Rightarrow> bool" where
  "plan_created_as k (Plan_version_created p) = (plan_key (pl_planId p) (pl_version p) = k)"
| "plan_created_as k f = False"

fun superseded_fact :: "fact_event \<Rightarrow> fact_event" where
  "superseded_fact (Plan_version_created p) = Plan_version_created (p\<lparr>pl_status := Superseded\<rparr>)"
| "superseded_fact f = f"

definition superseded_in :: "string \<Rightarrow> journal_envelope list \<Rightarrow> journal_envelope list" where
  "superseded_in k es =
     rev (update_first (\<lambda>e. plan_created_as k (env_event e)) (\<lambda>e. e\<lparr>env_event := superseded_fact (env_event e)\<rparr>) (rev es))"

definition settle_envelope :: "journal_envelope \<Rightarrow> journal_envelope list \<Rightarrow> journal_envelope list" where
  "settle_envelope e es =
     (case env_event e of
        Plan_status_changed planId version \<Rightarrow> superseded_in (plan_key planId version) es
      | _ \<Rightarrow> es) @ [e]"

definition settled_envelopes :: "journal_envelope list \<Rightarrow> journal_envelope list" where
  "settled_envelopes es = fold settle_envelope es []"

subsection \<open>Crash reconciliation\<close>

fun reconcile_blocks ::
    "string list \<Rightarrow> string \<Rightarrow> nat \<Rightarrow> content_block list \<Rightarrow> tool_call jsobj \<Rightarrow> tool_call jsobj" where
  "reconcile_blocks terminal mid i [] acc = acc"
| "reconcile_blocks terminal mid i (Tool_call_block c n input # bs) acc =
     reconcile_blocks terminal mid (i + 1) bs
       (if c \<notin> set terminal \<and> obj_get acc c = None
        then obj_set acc c \<lparr>tc_id = c, tc_name = n, tc_input = input, tc_parentMessageId = mid, tc_receivedIndex = of_nat i\<rparr>
        else acc)"
| "reconcile_blocks terminal mid i (b # bs) acc = reconcile_blocks terminal mid i bs acc"

definition reconcile_message :: "string list \<Rightarrow> conversation_message \<Rightarrow> tool_call jsobj \<Rightarrow> tool_call jsobj" where
  "reconcile_message terminal m acc =
     (if msg_role m \<noteq> Assistant_role then acc else reconcile_blocks terminal (msg_id m) 0 (msg_content m) acc)"

definition reconciled_calls :: "loader_view \<Rightarrow> tool_call jsobj" where
  "reconciled_calls v = fold (reconcile_message (map tr_callId (lv_completed v))) (lv_messages v) (lv_accepted v)"

subsection \<open>The loaded session\<close>

record loaded_session =
  ls_ok :: bool
  ls_diagnostics :: "diagnostic list"
  ls_envelopes :: "journal_envelope list"
  ls_nextSeq :: number
  ls_lastEventId :: "string option"
  ls_messages :: "conversation_message list"
  ls_openToolCalls :: "tool_call list"
  ls_completedResults :: "tool_call_result list"
  ls_unmessagedResults :: "tool_call_result list"
  ls_tasks :: "plan_task list"
  ls_evidence :: "evidence_receipt list"
  ls_plans :: "plan_version list"
  ls_lastSnapshot :: "state_snapshot option"
  ls_tailStartIndex :: nat
  ls_tailEvents :: "fact_event list"

definition is_snapshot :: "fact_event \<Rightarrow> bool" where
  "is_snapshot f = (case f of State_snapshot sn \<Rightarrow> True | _ \<Rightarrow> False)"

text \<open>The facts after the last snapshot.\<close>

definition tail_start :: "fact_event list \<Rightarrow> nat" where
  "tail_start fs = length fs - length (takeWhile (\<lambda>f. \<not> is_snapshot f) (rev fs))"

definition loaded_from :: "journal_envelope list \<Rightarrow> diagnostic list \<Rightarrow> loaded_session" where
  "loaded_from raw ds =
     (let v = loader_view_of (map env_event raw);
          es = settled_envelopes raw;
          start = (if list_ex is_snapshot (map env_event raw) then tail_start (map env_event raw) else 0)
      in \<lparr>ls_ok = (ds = []), ls_diagnostics = ds, ls_envelopes = es, ls_nextSeq = of_nat (length raw) + 1,
          ls_lastEventId = (if raw = [] then None else Some (env_eventId (last raw))),
          ls_messages = lv_messages v, ls_openToolCalls = map snd (reconciled_calls v),
          ls_completedResults = lv_completed v,
          ls_unmessagedResults = filter (\<lambda>r. tr_callId r \<notin> set (lv_messaged v)) (lv_completed v),
          ls_tasks = map snd (lv_tasks v), ls_evidence = map snd (lv_evidence v), ls_plans = map snd (lv_plans v),
          ls_lastSnapshot = lv_snapshot v, ls_tailStartIndex = start,
          ls_tailEvents = map env_event (drop start es)\<rparr>)"

definition loadSession :: "checksum \<Rightarrow> journal_source \<Rightarrow> loaded_session res" where
  "loadSession ck src =
     (case src of
        No_journal \<Rightarrow> Inr ((loaded_from [] [Journal_not_found])\<lparr>ls_ok := True\<rparr>)
      | Journal_read_error \<Rightarrow> Inl (JsError ''EIO'')
      | Journal_lines ls \<Rightarrow> bind_res (read_lines ck 1 1 ls) (\<lambda>(es, ds). Inr (loaded_from es ds)))"

end
