(* ===== verification/JournalProps.thy ===== *)
theory JournalProps
  imports Journal
begin

text \<open>
  What the journal promises: the loader trusts exactly the longest sound prefix of a file, and
  a journal that is appended to, written and reopened in any order is the log of its written
  facts (an abstract log is the specification, the envelopes refine it).
\<close>

subsection \<open>The loader\<close>

definition trusted :: "checksum \<Rightarrow> number \<Rightarrow> journal_envelope \<Rightarrow> bool" where
  "trusted ck k e \<longleftrightarrow>
     env_schemaVersion e = 1 \<and> env_seq e = k \<and> isCanonicalIso (env_timestamp e) \<and>
     env_checksum e = ck k (env_event e) \<and> isFactEvent (env_event e)"

lemma line_problem_None_iff: "line_problem ck n k e = None \<longleftrightarrow> trusted ck k e"
  by (auto simp: line_problem_def trusted_def)

fun trusted_from :: "checksum \<Rightarrow> number \<Rightarrow> journal_envelope list \<Rightarrow> bool" where
  "trusted_from ck k [] = True"
| "trusted_from ck k (e # es) = (trusted ck k e \<and> trusted_from ck (k + 1) es)"

lemma trusted_from_append:
  "trusted_from ck k (es @ es') \<longleftrightarrow> trusted_from ck k es \<and> trusted_from ck (k + of_nat (length es)) es'"
  by (induction es arbitrary: k) (auto simp: algebra_simps)

lemma trusted_from_nth: "trusted_from ck k es \<Longrightarrow> i < length es \<Longrightarrow> trusted ck (k + of_nat i) (es ! i)"
proof (induction es arbitrary: k i)
  case (Cons e es)
  show ?case
  proof (cases i)
    case (Suc j)
    then show ?thesis using Cons.IH [of "k + 1" j] Cons.prems by (simp add: algebra_simps)
  qed (use Cons.prems in simp)
qed simp

lemma read_lines_complete:
  "trusted_from ck k es \<Longrightarrow> read_lines ck n k (map Envelope_line es) = Inr (es, [])"
proof (induction es arbitrary: k n)
  case (Cons e es)
  then have "line_problem ck n k e = None" by (simp add: line_problem_None_iff)
  then show ?case using Cons by simp
qed simp

lemma read_lines_prefix:
  "read_lines ck n k ls = Inr (es, ds) \<Longrightarrow>
   trusted_from ck k es \<and> take (length es) ls = map Envelope_line es \<and> length es \<le> length ls \<and>
   (length es = length ls \<longrightarrow> ds = []) \<and>
   (length es < length ls \<longrightarrow> length ds = 1 \<and> (\<forall>e. ls ! length es = Envelope_line e \<longrightarrow> \<not> trusted ck (k + of_nat (length es)) e))"
proof (induction ls arbitrary: n k es ds)
  case (Cons l ls)
  show ?case
  proof (cases l)
    case Unparseable_line
    then show ?thesis using Cons.prems by auto
  next
    case Null_line
    then show ?thesis using Cons.prems by simp
  next
    case (Envelope_line e)
    show ?thesis
    proof (cases "line_problem ck n k e")
      case None
      then obtain es' where rest: "read_lines ck (n + 1) (k + 1) ls = Inr (es', ds)" and es: "es = e # es'"
        using Cons.prems Envelope_line by (auto simp: bind_res_Inr_iff)
      show ?thesis using Cons.IH [OF rest] None Envelope_line es by (auto simp: line_problem_None_iff algebra_simps)
    next
      case (Some p)
      then have "\<not> trusted ck k e" using line_problem_None_iff by (metis option.distinct(1))
      then show ?thesis using Some Cons.prems Envelope_line by auto
    qed
  qed
qed simp

text \<open>
  The loader trusts the longest sound prefix, and says so. Of any file that it can read, it
  keeps the leading lines that carry schema 1, their own position as number, a canonical
  timestamp, the checksum of their content and a known fact; the line after them, if there is
  one, fails one of these checks and gives the only diagnostic; the session is reported whole
  exactly when every line was kept; and writing continues after the last kept number.
\<close>

theorem loader_trusts_prefix:
  assumes "loadSession ck (Journal_lines ls) = Inr L"
  shows "\<exists>raw. take (length raw) ls = map Envelope_line raw \<and> ls_envelopes L = settled_envelopes raw \<and>
    (\<forall>i < length raw. trusted ck (of_nat (i + 1)) (raw ! i)) \<and>
    ls_nextSeq L = of_nat (length raw) + 1 \<and>
    (ls_ok L \<longleftrightarrow> length raw = length ls) \<and>
    (\<not> ls_ok L \<longrightarrow> length (ls_diagnostics L) = 1 \<and> length raw < length ls \<and>
       (\<forall>e. ls ! length raw = Envelope_line e \<longrightarrow> \<not> trusted ck (of_nat (length raw + 1)) e))"
proof -
  obtain raw ds where r: "read_lines ck 1 1 ls = Inr (raw, ds)" and L: "L = loaded_from raw ds"
    using assms by (auto simp: loadSession_def bind_res_Inr_iff)
  note p = read_lines_prefix [OF r]
  have "ds = [] \<longleftrightarrow> length raw = length ls"
    using p by (cases "length raw = length ls") auto
  then show ?thesis
    using p trusted_from_nth [of ck 1 raw]
    by (intro exI [of _ raw]) (auto simp: L loaded_from_def Let_def algebra_simps)
qed

subsection \<open>The journal as a log\<close>

datatype journal_op =
    Append_op append_stamp string fact_event
  | Write_op bool
  | Reopen_op

definition reopened :: "journal \<Rightarrow> loaded_session \<Rightarrow> journal" where
  "reopened j L = adopt (ls_nextSeq L) (ls_lastEventId L)
     \<lparr>jn_nextSeq = 1, jn_lastEventId = None, jn_queue = [], jn_file = jn_file j\<rparr>"

fun journal_step ::
    "checksum \<Rightarrow> (fact_event \<Rightarrow> fact_event) \<Rightarrow> journal_ids \<Rightarrow> journal \<Rightarrow> journal_op \<Rightarrow> journal res" where
  "journal_step ck redactDeep I j (Append_op st turn f) = Inr (snd (append_fact ck redactDeep I st turn f j))"
| "journal_step ck redactDeep I j (Write_op ok) = Inr (write_queue ok j)"
| "journal_step ck redactDeep I j Reopen_op =
     bind_res (loadSession ck (Journal_lines (jn_file j))) (\<lambda>L. Inr (reopened j L))"

definition empty_journal :: journal where
  "empty_journal = \<lparr>jn_nextSeq = 1, jn_lastEventId = None, jn_queue = [], jn_file = []\<rparr>"

text \<open>The specification: the facts that are safe, and those that a crash would lose.\<close>

record fact_log =
  fl_durable :: "fact_event list"
  fl_buffered :: "fact_event list"

fun log_step :: "(fact_event \<Rightarrow> fact_event) \<Rightarrow> fact_log \<Rightarrow> journal_op \<Rightarrow> fact_log" where
  "log_step redactDeep g (Append_op st turn f) = g\<lparr>fl_buffered := fl_buffered g @ [redactDeep f]\<rparr>"
| "log_step redactDeep g (Write_op ok) =
     (if ok then \<lparr>fl_durable = fl_durable g @ fl_buffered g, fl_buffered = []\<rparr> else g\<lparr>fl_buffered := []\<rparr>)"
| "log_step redactDeep g Reopen_op = g\<lparr>fl_buffered := []\<rparr>"

definition log_of :: "(fact_event \<Rightarrow> fact_event) \<Rightarrow> journal_op list \<Rightarrow> fact_log" where
  "log_of redactDeep ops = foldl (log_step redactDeep) \<lparr>fl_durable = [], fl_buffered = []\<rparr> ops"

fun op_ok :: "(fact_event \<Rightarrow> fact_event) \<Rightarrow> journal_op \<Rightarrow> bool" where
  "op_ok redactDeep (Append_op st turn f) = (isCanonicalIso (as_now st) \<and> isFactEvent (redactDeep f))"
| "op_ok redactDeep (Write_op ok) = ok"
| "op_ok redactDeep Reopen_op = True"

text \<open>Each event names the one before it.\<close>

definition last_id :: "journal_envelope list \<Rightarrow> string option" where
  "last_id es = (if es = [] then None else Some (env_eventId (last es)))"

definition linked :: "journal_envelope list \<Rightarrow> bool" where
  "linked es \<longleftrightarrow> (\<forall>i < length es. env_parentEventId (es ! i) = last_id (take i es))"

lemma linked_snoc: "linked (es @ [e]) \<longleftrightarrow> linked es \<and> env_parentEventId e = last_id es"
  by (auto simp: linked_def less_Suc_eq nth_append)

lemma linked_prefix: "linked (es @ es') \<Longrightarrow> linked es"
  by (induction es' rule: rev_induct) (auto simp: linked_snoc simp flip: append_assoc)

definition journal_for :: "checksum \<Rightarrow> fact_log \<Rightarrow> journal_envelope list \<Rightarrow> journal \<Rightarrow> bool" where
  "journal_for ck g es j \<longleftrightarrow>
     jn_file j = map Envelope_line es \<and> trusted_from ck 1 (es @ jn_queue j) \<and> linked (es @ jn_queue j) \<and>
     jn_nextSeq j = of_nat (length (es @ jn_queue j)) + 1 \<and> jn_lastEventId j = last_id (es @ jn_queue j) \<and>
     map env_event es = fl_durable g \<and> map env_event (jn_queue j) = fl_buffered g"

lemma load_written:
  assumes "trusted_from ck 1 es"
  shows "loadSession ck (Journal_lines (map Envelope_line es)) = Inr (loaded_from es [])"
  using read_lines_complete [OF assms] by (simp add: loadSession_def)

lemma journal_simulates:
  assumes "journal_for ck g es j" "op_ok redactDeep p"
  shows "\<exists>es' j'. journal_step ck redactDeep I j p = Inr j' \<and> journal_for ck (log_step redactDeep g p) es' j'"
proof (cases p)
  case (Append_op st turn f)
  define e where "e = fact_envelope ck redactDeep I st turn f j"
  have new: "trusted ck (1 + of_nat (length (es @ jn_queue j))) e" "env_parentEventId e = last_id (es @ jn_queue j)"
    "env_event e = redactDeep f"
    using assms by (auto simp: e_def fact_envelope_def trusted_def journal_for_def Append_op add.commute)
  have "journal_for ck (log_step redactDeep g p) es
      (j\<lparr>jn_nextSeq := jn_nextSeq j + 1, jn_lastEventId := Some (env_eventId e), jn_queue := jn_queue j @ [e]\<rparr>)"
    using assms(1) new linked_snoc [of "es @ jn_queue j" e] trusted_from_append [of ck 1 "es @ jn_queue j" "[e]"]
    by (simp add: journal_for_def Append_op last_id_def)
  then show ?thesis by (auto simp: Append_op append_fact_def Let_def simp flip: e_def)
next
  case (Write_op ok)
  have "journal_for ck (log_step redactDeep g p) (es @ jn_queue j) (write_queue True j)"
    using assms by (simp add: journal_for_def write_queue_def Write_op)
  then show ?thesis using assms(2) by (auto simp: Write_op)
next
  case Reopen_op
  have *: "trusted_from ck 1 es" "linked es" "jn_file j = map Envelope_line es" "map env_event es = fl_durable g"
    using assms(1) linked_prefix by (auto simp: journal_for_def trusted_from_append)
  have "journal_for ck (log_step redactDeep g p) es (reopened j (loaded_from es []))"
    using * by (simp add: journal_for_def reopened_def adopt_def loaded_from_def Let_def Reopen_op last_id_def)
  then show ?thesis using load_written [OF *(1)] *(3) by (auto simp: Reopen_op)
qed

lemma journal_runs:
  assumes "journal_for ck g es j" "list_all (op_ok redactDeep) ops"
  shows "\<exists>es' j'. run_steps (journal_step ck redactDeep I) j ops = Inr j' \<and>
    journal_for ck (foldl (log_step redactDeep) g ops) es' j'"
  using assms
proof (induction ops arbitrary: g es j)
  case (Cons p ops)
  obtain es1 j1 where s: "journal_step ck redactDeep I j p = Inr j1" "journal_for ck (log_step redactDeep g p) es1 j1"
    using journal_simulates [OF Cons.prems(1), of redactDeep p I] Cons.prems(2) by auto
  show ?case using Cons.IH [OF s(2)] Cons.prems(2) s(1) by simp
qed auto


text \<open>
  A failed write is not recovered from: its numbers are used up, so whatever the same process
  writes later comes after a gap, and a loader stops there.
\<close>

lemma failed_write_hides_the_rest:
  assumes "journal_for ck g es j" "jn_queue j \<noteq> []" "isCanonicalIso (as_now st)"
  shows "\<exists>j'. run_steps (journal_step ck redactDeep I) j [Write_op False, Append_op st turn f, Write_op True] = Inr j' \<and>
    loadSession ck (Journal_lines (jn_file j')) = Inr (loaded_from es [Seq_gap (length es + 1)])"
proof -
  define e where "e = fact_envelope ck redactDeep I st turn f (write_queue False j)"
  have "read_lines ck n k (map Envelope_line es @ [Envelope_line e]) = Inr (es, [Seq_gap (n + length es)])"
    if "trusted_from ck k es" "env_seq e \<noteq> k + of_nat (length es)" for n k
    using that
  proof (induction es arbitrary: n k)
    case Nil
    then show ?case by (simp add: line_problem_def e_def fact_envelope_def)
  next
    case (Cons x es)
    then show ?case using Cons.IH [of "k + 1" "n + 1"] line_problem_None_iff [of ck n k x] by (simp add: algebra_simps)
  qed
  moreover have "trusted_from ck 1 es" "env_seq e \<noteq> 1 + of_nat (length es)"
    using assms by (auto simp: journal_for_def trusted_from_append e_def fact_envelope_def write_queue_def)
  ultimately have "read_lines ck 1 1 (map Envelope_line es @ [Envelope_line e]) = Inr (es, [Seq_gap (1 + length es)])"
    by blast
  moreover have "jn_file (snd (append_fact ck redactDeep I st turn f (write_queue False j))) = map Envelope_line es"
    "jn_queue (snd (append_fact ck redactDeep I st turn f (write_queue False j))) = [e]"
    using assms(1) by (simp_all add: append_fact_def write_queue_def journal_for_def Let_def e_def)
  ultimately show ?thesis by (simp add: loadSession_def write_queue_def [of True])
qed

subsection \<open>A concrete journal\<close>

definition demo_stamp :: "string \<Rightarrow> append_stamp" where
  "demo_stamp i = \<lparr>as_eventId = i, as_now = ''2025-06-01T10:20:30.400Z''\<rparr>"

definition demo_ids :: journal_ids where
  "demo_ids = \<lparr>ji_sessionId = ''s'', ji_runId = ''r''\<rparr>"

definition demo_checksum :: checksum where
  "demo_checksum n f = ''sum''"

definition demo_ops :: "journal_op list" where
  "demo_ops = [Append_op (demo_stamp ''e1'') ''t'' (Run_started ''r'' ''h''), Write_op True,
     Append_op (demo_stamp ''e2'') ''t'' (Replan_requested ''cause'' True), Reopen_op,
     Append_op (demo_stamp ''e3'') ''t'' (Plan_status_changed ''p'' 1), Write_op True]"

lemma demo_now: "isCanonicalIso (as_now (demo_stamp i))"
  unfolding demo_stamp_def by code_simp


text \<open>A file whose second line was cut off by a crash.\<close>

definition demo_line :: journal_envelope where
  "demo_line = fact_envelope demo_checksum (\<lambda>f. f) demo_ids (demo_stamp ''e1'') ''t'' (Run_started ''r'' ''h'') empty_journal"

lemma demo_line_trusted: "trusted demo_checksum 1 demo_line"
  by (simp add: trusted_def demo_line_def fact_envelope_def empty_journal_def demo_now isFactEvent_def)

lemma loader_trusts_prefix_witness:
  "\<exists>L raw. loadSession demo_checksum (Journal_lines [Envelope_line demo_line, Unparseable_line]) = Inr L \<and>
    take (length raw) [Envelope_line demo_line, Unparseable_line] = map Envelope_line raw \<and>
    ls_nextSeq L = of_nat (length raw) + 1 \<and> \<not> ls_ok L \<and> length (ls_diagnostics L) = 1 \<and> length raw < 2"
proof -
  have "read_lines demo_checksum 1 1 [Envelope_line demo_line, Unparseable_line] = Inr ([demo_line], [Unparseable_json 2])"
    using demo_line_trusted line_problem_None_iff [of demo_checksum 1 1 demo_line] by simp
  then have L: "loadSession demo_checksum (Journal_lines [Envelope_line demo_line, Unparseable_line]) =
      Inr (loaded_from [demo_line] [Unparseable_json 2])"
    by (simp add: loadSession_def)
  have "\<not> ls_ok (loaded_from [demo_line] [Unparseable_json 2])" by (simp add: loaded_from_def Let_def)
  then show ?thesis using loader_trusts_prefix [OF L] L by auto
qed

end
