(* ===== verification/Resume.thy ===== *)
theory Resume
  imports Journal Idempotency Tasks Plans Evidence
begin

text \<open>
  Recovery of a session: the replay of a journal through the reducer and the resumption of a
  run (app/createRuntime.ts, \<open>replayEnvelopes\<close>, \<open>calibrationSelectionFromLoaded\<close> and
  \<open>resumeState\<close>), and the diagnosis that the command line shows first
  (session/recoveryCheck.ts). The stores of the runtime are those of the other theories; the
  clock, the ids and the initial state of the runtime are arguments. The circuit breaker of
  the context manager, which resumption also restores, is not part of the model.
\<close>

subsection \<open>Replay\<close>

record replay_failure =
  pf_seq :: number
  pf_eventId :: string
  pf_invariant :: string
  pf_lastTrustedSeq :: number
  pf_allowDegraded :: bool

definition error_invariant :: "js_error \<Rightarrow> string" where
  "error_invariant e = (case e of InvariantError n \<Rightarrow> n | JsError n \<Rightarrow> ''reducer_error'')"

definition recovery_noop :: "fact_event \<Rightarrow> bool" where
  "recovery_noop f = (case f of Run_started r c \<Rightarrow> True | State_snapshot sn \<Rightarrow> True | _ \<Rightarrow> False)"

fun replay_from ::
    "host \<Rightarrow> bool \<Rightarrow> number \<Rightarrow> replay_failure option \<Rightarrow> agent_state \<Rightarrow> journal_envelope list \<Rightarrow>
     agent_state \<times> replay_failure option" where
  "replay_from H degraded trusted_seq fail s [] = (s, fail)"
| "replay_from H degraded trusted_seq fail s (e # es) =
     (if recovery_noop (env_event e) then replay_from H degraded trusted_seq fail s es
      else (case reduce H s (env_event e) of
              Inr s' \<Rightarrow> replay_from H degraded (env_seq e) fail s' es
            | Inl err \<Rightarrow>
                let f = Some \<lparr>pf_seq = env_seq e, pf_eventId = env_eventId e, pf_invariant = error_invariant err,
                              pf_lastTrustedSeq = trusted_seq, pf_allowDegraded = degraded\<rparr>
                in if degraded then replay_from H degraded trusted_seq f s es else (s, f)))"

definition replayEnvelopes :: "host \<Rightarrow> agent_state \<Rightarrow> journal_envelope list \<Rightarrow> bool \<Rightarrow> agent_state \<times> replay_failure option" where
  "replayEnvelopes H s es degraded = replay_from H degraded 0 None s es"

subsection \<open>The calibration selection of a journal\<close>

fun journal_selection ::
    "host \<Rightarrow> (calibration_selection \<times> number) option \<Rightarrow> journal_envelope list \<Rightarrow> (calibration_selection \<times> number) option res" where
  "journal_selection H sel [] = Inr sel"
| "journal_selection H sel (e # es) =
     (case env_event e of
        Outcome_calibration_selected c \<Rightarrow>
          if sel \<noteq> None then Inl (InvariantError ''outcome_calibration_duplicate_selection'')
          else if \<not> isOutcomeCalibrationSelection H c then Inl (InvariantError ''outcome_calibration_invalid_selection'')
          else journal_selection H (Some (c, env_seq e)) es
      | _ \<Rightarrow> journal_selection H sel es)"

definition snapshot_envelope :: "journal_envelope list \<Rightarrow> journal_envelope option" where
  "snapshot_envelope es = find (\<lambda>e. is_snapshot (env_event e)) (rev es)"

definition snapshot_last_seq :: "journal_envelope list \<Rightarrow> state_snapshot \<Rightarrow> number" where
  "snapshot_last_seq es sn =
     (case sn_lastSeq sn of
        Some n \<Rightarrow> n
      | None \<Rightarrow> (case snapshot_envelope es of None \<Rightarrow> 0 | Some e \<Rightarrow> env_seq e - 1))"

definition expected_selection_hash :: "(calibration_selection \<times> number) option \<Rightarrow> number \<Rightarrow> string option" where
  "expected_selection_hash sel lastSeq =
     (case sel of None \<Rightarrow> None | Some (c, n) \<Rightarrow> if n \<le> lastSeq then Some (sel_hash c) else None)"

definition calibrationSelectionFromLoaded :: "host \<Rightarrow> loaded_session \<Rightarrow> calibration_selection option res" where
  "calibrationSelectionFromLoaded H L =
     bind_res (journal_selection H None (ls_envelopes L)) (\<lambda>sel.
       case ls_lastSnapshot L of
         None \<Rightarrow> Inr (map_option fst sel)
       | Some sn \<Rightarrow>
           if sn_version sn \<notin> {Some 4, Some 5} then Inr (map_option fst sel)
           else if pred_option (\<lambda>c. \<not> isOutcomeCalibrationSelection H c) (sn_selection sn) \<and> sn_selection sn \<noteq> None \<or>
                   map_option sel_hash (sn_selection sn) \<noteq>
                     expected_selection_hash sel (snapshot_last_seq (ls_envelopes L) sn)
           then Inl (InvariantError ''outcome_calibration_snapshot_mismatch'')
           else Inr (map_option fst sel))"

subsection \<open>Resumption\<close>

record resume_runtime =
  rr_sessionId :: string
  rr_selection :: "calibration_selection option"
  rr_ledger :: idem_ledger
  rr_ledgerFile :: ledger_file
  rr_tasks :: task_map
  rr_evidence :: evidence_store
  rr_plans :: plan_store
  rr_journal :: "journal option"

record resume_stamps =
  rst_messageId :: string
  rst_now :: string
  rst_append :: "nat \<Rightarrow> append_stamp"

definition seqs_after :: "number \<Rightarrow> journal_envelope list \<Rightarrow> journal_envelope list" where
  "seqs_after n es = filter (\<lambda>e. n < env_seq e) es"

text \<open>Phase 1: the snapshot and its tail, or every fact.\<close>

definition recovered_state :: "host \<Rightarrow> loaded_session \<Rightarrow> bool \<Rightarrow> agent_state \<Rightarrow> (agent_state \<times> replay_failure option) res" where
  "recovered_state H L degraded s =
     (case ls_lastSnapshot L of
        None \<Rightarrow> Inr (replayEnvelopes H s (ls_envelopes L) degraded)
      | Some sn \<Rightarrow>
          if sn_version sn = Some 5
          then bind_res (restoreFromSnapshot H s sn) (\<lambda>s'.
                 Inr (replayEnvelopes H s'
                   (case sn_lastSeq sn of
                      Some n \<Rightarrow> seqs_after n (ls_envelopes L)
                    | None \<Rightarrow> drop (ls_tailStartIndex L) (ls_envelopes L)) degraded))
          else Inr (replayEnvelopes H s (ls_envelopes L) degraded))"

definition pinned_selection :: "host \<Rightarrow> calibration_selection option \<Rightarrow> agent_state \<Rightarrow> agent_state res" where
  "pinned_selection H sel s =
     (case sel of
        None \<Rightarrow> Inr s
      | Some c \<Rightarrow>
          (case ag_selection s of
             None \<Rightarrow> reduce H s (Outcome_calibration_selected c)
           | Some d \<Rightarrow> if sel_hash d \<noteq> sel_hash c then Inl (InvariantError ''outcome_calibration_runtime_mismatch'') else Inr s))"

text \<open>Phase 2: the stores.\<close>

definition missing_task :: "plan_task \<Rightarrow> agent_state \<Rightarrow> agent_state" where
  "missing_task t s = (if list_ex (\<lambda>u. tk_id u = tk_id t) (ag_tasks s) then s else s\<lparr>ag_tasks := ag_tasks s @ [t]\<rparr>)"

definition missing_evidence :: "evidence_receipt \<Rightarrow> agent_state \<Rightarrow> agent_state" where
  "missing_evidence r s =
     (if er_id r \<in> set (ag_evidenceIds s) then s else s\<lparr>ag_evidenceIds := ag_evidenceIds s @ [er_id r]\<rparr>)"

definition with_stores :: "loaded_session \<Rightarrow> agent_state \<Rightarrow> agent_state" where
  "with_stores L s = fold missing_evidence (ls_evidence L) (fold missing_task (ls_tasks L) s)"

definition aged_paths :: "agent_state \<Rightarrow> string list" where
  "aged_paths s =
     ws_touchedFiles (ag_workspace s) @
     (case ws_pendingVerification (ag_workspace s) of None \<Rightarrow> [] | Some v \<Rightarrow> pv_changedPaths v)"

definition restored_stores :: "host \<Rightarrow> loaded_session \<Rightarrow> agent_state \<Rightarrow> resume_runtime \<Rightarrow> resume_runtime" where
  "restored_stores H L s rt =
     rt\<lparr>rr_tasks := fold restore_task (ls_tasks L) (rr_tasks rt),
        rr_evidence := setWorkspaceRevision H (ws_revision (ag_workspace s)) (aged_paths s)
          (fold (restore_receipt H) (ls_evidence L) (rr_evidence rt)),
        rr_plans := fold restore_plan (ls_plans L) (rr_plans rt)\<rparr>"

text \<open>Phase 3: the calls that the crash left open, and the results that no message carries.\<close>

definition INTERRUPTED :: string where
  "INTERRUPTED = ''INTERRUPTED_DURING_PREVIOUS_RUN''"

definition interrupted_result :: "tool_call \<Rightarrow> tool_call_result" where
  "interrupted_result c =
     \<lparr>tr_callId = tc_id c, tr_toolName = tc_name c, tr_ok = False, tr_content = Text_content INTERRUPTED,
      tr_errorCode = Some INTERRUPTED, tr_durationMs = 0, tr_synthetic = Some True, tr_observation = None\<rparr>"

definition lifecycle_missing :: "agent_state \<Rightarrow> tool_call \<Rightarrow> bool" where
  "lifecycle_missing s c \<longleftrightarrow>
     \<not> list_ex (\<lambda>p. tc_id p = tc_id c) (ag_pendingToolCalls s) \<and> \<not> obj_defined (ag_toolResults s) (tc_id c)"

definition closing_facts :: "agent_state \<Rightarrow> tool_call \<Rightarrow> fact_event list" where
  "closing_facts s c =
     (if lifecycle_missing s c then [Tool_call_accepted c] else []) @ [Tool_call_completed (interrupted_result c)]"

definition interrupted_block :: "tool_call \<Rightarrow> content_block" where
  "interrupted_block c = Tool_result_block (tc_id c) False
     (Text_content (INTERRUPTED @ '': this tool call did not complete. '' @
        ''If it may have had side effects, inspect current state before retrying.''))
     (Some INTERRUPTED) None"

definition delivered_block :: "tool_call_result \<Rightarrow> content_block" where
  "delivered_block r = Tool_result_block (tr_callId r) (tr_ok r) (tr_content r) (tr_errorCode r) (tr_observation r)"

definition recovery_message :: "resume_runtime \<Rightarrow> resume_stamps \<Rightarrow> agent_state \<Rightarrow> content_block list \<Rightarrow> conversation_message" where
  "recovery_message rt st s blocks =
     \<lparr>msg_id = rst_messageId st,
      msg_parentId = (if ag_messages s = [] then None else Some (msg_id (last (ag_messages s)))),
      msg_sessionId = rr_sessionId rt, msg_turnId = ag_turnId s, msg_role = User_role, msg_content = blocks,
      msg_createdAt = rst_now st,
      msg_meta = Some \<lparr>mm_model = None, mm_usage = None, mm_source = Some Recovery_source, mm_synthetic = Some True\<rparr>\<rparr>"

definition recovery_facts :: "resume_runtime \<Rightarrow> resume_stamps \<Rightarrow> loaded_session \<Rightarrow> agent_state \<Rightarrow> fact_event list" where
  "recovery_facts rt st L s =
     (let blocks = map interrupted_block (ls_openToolCalls L) @ map delivered_block (ls_unmessagedResults L)
      in concat (map (closing_facts s) (ls_openToolCalls L)) @
         (if blocks = [] then [] else [Tool_result_message (recovery_message rt st s blocks)]))"

definition append_all ::
    "checksum \<Rightarrow> (fact_event \<Rightarrow> fact_event) \<Rightarrow> journal_ids \<Rightarrow> (nat \<Rightarrow> append_stamp) \<Rightarrow> string \<Rightarrow> fact_event list \<Rightarrow> journal \<Rightarrow> journal"
  where
  "append_all ck redactDeep I stamps turnId fs j =
     fold (\<lambda>(i, f) j. write_queue True (snd (append_fact ck redactDeep I (stamps i) turnId f j)))
       (enumerate 0 fs) j"

record resumed =
  rsm_state :: agent_state
  rsm_facts :: "fact_event list"
  rsm_failure :: "replay_failure option"
  rsm_runtime :: resume_runtime

definition resumeState ::
    "host \<Rightarrow> checksum \<Rightarrow> (fact_event \<Rightarrow> fact_event) \<Rightarrow> journal_ids \<Rightarrow> resume_stamps \<Rightarrow> resume_runtime \<Rightarrow> agent_state \<Rightarrow>
     loaded_session \<Rightarrow> bool \<Rightarrow> resumed res" where
  "resumeState H ck redactDeep I st rt initial L degraded =
     bind_res (load_ledger (rr_ledgerFile rt) (rr_ledger rt)) (\<lambda>ledger.
     bind_res (recovered_state H L degraded initial) (\<lambda>(s1, fail).
     bind_res (pinned_selection H (rr_selection rt) s1) (\<lambda>s2.
       let s3 = with_stores L s2;
           rt' = restored_stores H L s3 (rt\<lparr>rr_ledger := ledger\<rparr>);
           facts = recovery_facts rt' st L s3
       in bind_res (applyFacts H s3 facts) (\<lambda>s4.
            Inr \<lparr>rsm_state = s4, rsm_facts = facts, rsm_failure = fail,
                 rsm_runtime = rt'\<lparr>rr_journal :=
                   map_option (append_all ck redactDeep I (rst_append st) (ag_turnId s4) facts) (rr_journal rt')\<rparr>\<rparr>))))"

subsection \<open>Diagnosis\<close>

datatype issue_kind = Journal_issue | Reducer_issue

record recovery_issue =
  iss_kind :: issue_kind
  iss_invariant :: string
  iss_location :: string

record recovery_diagnosis =
  dg_ok :: bool
  dg_issues :: "recovery_issue list"
  dg_lastTrustedSeq :: number

definition journalInvariant :: "diagnostic \<Rightarrow> string" where
  "journalInvariant d =
     (case d of
        Journal_not_found \<Rightarrow> ''journal_error''
      | Unparseable_json n \<Rightarrow> ''unparseable_json''
      | Unknown_schema n \<Rightarrow> ''unknown_schema_version''
      | Seq_gap n \<Rightarrow> ''seq_gap_or_duplicate''
      | Invalid_timestamp n \<Rightarrow> ''invalid_timestamp''
      | Checksum_mismatch n \<Rightarrow> ''checksum_mismatch''
      | Unknown_fact_type n \<Rightarrow> ''unknown_fact_event'')"

definition diagnostic_line :: "diagnostic \<Rightarrow> nat" where
  "diagnostic_line d =
     (case d of Journal_not_found \<Rightarrow> 0 | Unparseable_json n \<Rightarrow> n | Unknown_schema n \<Rightarrow> n | Seq_gap n \<Rightarrow> n
      | Invalid_timestamp n \<Rightarrow> n | Checksum_mismatch n \<Rightarrow> n | Unknown_fact_type n \<Rightarrow> n)"

definition journal_issue :: "diagnostic \<Rightarrow> recovery_issue" where
  "journal_issue d =
     \<lparr>iss_kind = Journal_issue, iss_invariant = journalInvariant d,
      iss_location = ''line '' @ show_num (of_nat (diagnostic_line d))\<rparr>"

definition envelope_location :: "journal_envelope \<Rightarrow> string" where
  "envelope_location e = ''seq '' @ show_num (env_seq e) @ '' / '' @ env_eventId e"

definition reducer_issue :: "string \<Rightarrow> string \<Rightarrow> recovery_issue" where
  "reducer_issue iname loc = \<lparr>iss_kind = Reducer_issue, iss_invariant = iname, iss_location = loc\<rparr>"

definition diagnosis_input :: "string \<Rightarrow> initial_input" where
  "diagnosis_input workspaceRoot =
     \<lparr>in_sessionId = ''diagnosis'', in_runId = ''diagnosis'', in_turnId = ''diagnosis'', in_workspaceRoot = workspaceRoot,
      in_mode = None, in_maxTurns = 1, in_maxModelCalls = 1, in_maxToolCalls = 1, in_maxWallTimeMs = 1, in_now = 0\<rparr>"

text \<open>
  The selections are checked over the whole journal. A problem comes with the number of the
  envelope before it.
\<close>

fun check_selections ::
    "host \<Rightarrow> (calibration_selection \<times> number) option \<Rightarrow> number \<Rightarrow> journal_envelope list \<Rightarrow>
     recovery_issue \<times> number + (calibration_selection \<times> number) option" where
  "check_selections H sel previous [] = Inr sel"
| "check_selections H sel previous (e # es) =
     (case env_event e of
        Outcome_calibration_selected c \<Rightarrow>
          if sel \<noteq> None
          then Inl (reducer_issue ''outcome_calibration_duplicate_selection'' (envelope_location e), previous)
          else if \<not> isOutcomeCalibrationSelection H c
          then Inl (reducer_issue ''outcome_calibration_invalid_selection'' (envelope_location e), previous)
          else check_selections H (Some (c, env_seq e)) (env_seq e) es
      | _ \<Rightarrow> check_selections H sel (env_seq e) es)"

text \<open>The number before the last snapshot of the journal.\<close>

definition seq_before_snapshot :: "journal_envelope list \<Rightarrow> number" where
  "seq_before_snapshot es =
     (let before = tl (dropWhile (\<lambda>e. \<not> is_snapshot (env_event e)) (rev es))
      in if before = [] then 0 else env_seq (hd before))"

definition snapshot_location :: "journal_envelope list \<Rightarrow> string" where
  "snapshot_location es = (case snapshot_envelope es of None \<Rightarrow> ''state.snapshot'' | Some e \<Rightarrow> envelope_location e)"

fun dry_replay ::
    "host \<Rightarrow> number \<Rightarrow> agent_state \<Rightarrow> journal_envelope list \<Rightarrow> recovery_issue list \<times> number" where
  "dry_replay H trusted_seq s [] = ([], trusted_seq)"
| "dry_replay H trusted_seq s (e # es) =
     (if recovery_noop (env_event e) then dry_replay H (env_seq e) s es
      else (case reduce H s (env_event e) of
              Inr s' \<Rightarrow> dry_replay H (env_seq e) s' es
            | Inl err \<Rightarrow> ([reducer_issue (error_invariant err) (envelope_location e)], trusted_seq)))"

definition diagnosis :: "recovery_issue list \<Rightarrow> number \<Rightarrow> recovery_diagnosis" where
  "diagnosis issues trusted_seq = \<lparr>dg_ok = (issues = []), dg_issues = issues, dg_lastTrustedSeq = trusted_seq\<rparr>"

definition diagnose_replay ::
    "host \<Rightarrow> recovery_issue list \<Rightarrow> number \<Rightarrow> agent_state \<Rightarrow> journal_envelope list \<Rightarrow> recovery_diagnosis" where
  "diagnose_replay H issues trusted_seq s es =
     (case dry_replay H trusted_seq s es of (found, n) \<Rightarrow> diagnosis (issues @ found) n)"

definition diagnose_snapshot ::
    "host \<Rightarrow> recovery_issue list \<Rightarrow> (calibration_selection \<times> number) option \<Rightarrow> agent_state \<Rightarrow> state_snapshot \<Rightarrow> loaded_session \<Rightarrow>
     recovery_diagnosis" where
  "diagnose_snapshot H issues sel initial sn L =
     (let es = ls_envelopes L;
          refuse = (\<lambda>iname. diagnosis (issues @ [reducer_issue iname (snapshot_location es)]) (seq_before_snapshot es))
      in case restoreFromSnapshot H initial sn of
           Inl (InvariantError n) \<Rightarrow> refuse n
         | Inl (JsError n) \<Rightarrow> refuse ''snapshot_restore_error''
         | Inr s \<Rightarrow>
             if map_option sel_hash (ag_selection s) \<noteq> expected_selection_hash sel (snapshot_last_seq es sn)
             then refuse ''outcome_calibration_snapshot_mismatch''
             else (case sn_lastSeq sn of
                     Some n \<Rightarrow> diagnose_replay H issues n s (seqs_after n es)
                   | None \<Rightarrow>
                       diagnose_replay H issues
                         (if ls_tailStartIndex L > 0 then env_seq (es ! (ls_tailStartIndex L - 1)) else 0)
                         s (drop (ls_tailStartIndex L) es)))"

definition diagnoseSession :: "host \<Rightarrow> loaded_session \<Rightarrow> string \<Rightarrow> recovery_diagnosis" where
  "diagnoseSession H L workspaceRoot =
     (let issues = map journal_issue (filter (\<lambda>d. d \<noteq> Journal_not_found) (ls_diagnostics L));
          initial = createInitialState (diagnosis_input workspaceRoot)
      in case check_selections H None 0 (ls_envelopes L) of
           Inl (i, n) \<Rightarrow> \<lparr>dg_ok = False, dg_issues = issues @ [i], dg_lastTrustedSeq = n\<rparr>
         | Inr sel \<Rightarrow>
             (case ls_lastSnapshot L of
                None \<Rightarrow> diagnose_replay H issues 0 initial (ls_envelopes L)
              | Some sn \<Rightarrow>
                  if sn_version sn = Some 5 then diagnose_snapshot H issues sel initial sn L
                  else diagnose_replay H issues 0 initial (ls_envelopes L)))"

end
