(* ===== verification/ResumeProps.thy ===== *)
theory ResumeProps
  imports Resume StateProperties
begin

text \<open>
  What recovery promises: the view that the loader computes is the one the reducer reaches,
  and a resumed session has no open call left.
\<close>

subsection \<open>The loader and the reducer\<close>

lemma replay_failed [simp]: "replay_from H degraded n (Some f) s es \<noteq> (s', None)"
  by (induction es arbitrary: n f s) (auto simp: Let_def split: sum.split)

text \<open>
  A compaction takes effect in the loader as in the reducer when it clears some message, or
  inserts nothing.
\<close>

fun compaction_lands :: "conversation_message list \<Rightarrow> fact_event \<Rightarrow> bool" where
  "compaction_lands ms (Context_compacted r) \<longleftrightarrow>
     or_else (cr_replacements r) [] = [] \<or> (\<exists>m \<in> set ms. msg_id m \<in> set (cr_clearedMessageIds r))"
| "compaction_lands ms f \<longleftrightarrow> True"

fun all_land :: "(loader_view \<Rightarrow> fact_event \<Rightarrow> bool) \<Rightarrow> loader_view \<Rightarrow> fact_event list \<Rightarrow> bool" where
  "all_land lands v [] \<longleftrightarrow> True"
| "all_land lands v (f # fs) \<longleftrightarrow> lands v f \<and> all_land lands (view_fact f v) fs"

definition compactions_land :: "fact_event list \<Rightarrow> bool" where
  "compactions_land fs = all_land (\<lambda>v. compaction_lands (lv_messages v)) empty_view fs"

lemma splice_compact_inserted: "splice_compacted cl rs True ms = compact_messages cl rs True ms"
  by (induction ms) auto

lemma splice_compact:
  "rs = [] \<or> (\<exists>m \<in> set ms. msg_id m \<in> set cl) \<Longrightarrow> splice_compacted cl rs False ms = compact_messages cl rs False ms"
  by (induction ms) (auto simp: splice_compact_inserted)

text \<open>The map that files each entry under its own key.\<close>

definition table :: "('a \<Rightarrow> string) \<Rightarrow> 'a list \<Rightarrow> 'a jsobj" where
  "table key xs = map (\<lambda>x. (key x, x)) xs"

lemma table_simps [simp]:
  "table key [] = []" "map snd (table key xs) = xs" "obj_keys (table key xs) = map key xs" "snd ` set (table key xs) = set xs"
  by (simp_all add: table_def obj_keys_def comp_def image_image)

definition put_entry :: "('a \<Rightarrow> string) \<Rightarrow> 'a \<Rightarrow> 'a list \<Rightarrow> 'a list" where
  "put_entry key y xs =
     (if key y \<in> key ` set xs then map (\<lambda>x. if key x = key y then y else x) xs else xs @ [y])"

lemma put_entry_absent: "key y \<notin> key ` set xs \<Longrightarrow> map (\<lambda>x. if key x = key y then y else x) xs = xs"
  by (induction xs) auto

lemma table_set: "distinct (map key xs) \<Longrightarrow> obj_set (table key xs) (key y) y = table key (put_entry key y xs)"
proof (induction xs)
  case (Cons x xs)
  show ?case
  proof (cases "key x = key y")
    case True
    then have "key y \<notin> key ` set xs" using Cons.prems by auto
    then show ?thesis using True put_entry_absent [of key y xs] by (simp add: table_def put_entry_def)
  next
    case False
    then show ?thesis using Cons by (simp add: table_def put_entry_def split: if_splits)
  qed
qed (simp add: table_def put_entry_def)

lemma keys_put_entry:
  "map key (put_entry key y xs) = (if key y \<in> key ` set xs then map key xs else map key xs @ [key y])"
  by (auto simp: put_entry_def)

lemma distinct_put_entry: "distinct (map key xs) \<Longrightarrow> distinct (map key (put_entry key y xs))"
  unfolding keys_put_entry by auto

lemma table_delete: "obj_delete (table key xs) k = table key (filter (\<lambda>x. key x \<noteq> k) xs)"
  by (simp add: table_def obj_delete_def filter_map comp_def)

text \<open>The abstraction: what a reducer state says in the loader's terms.\<close>

definition view_agrees :: "loader_view \<Rightarrow> agent_state \<Rightarrow> bool" where
  "view_agrees v s \<longleftrightarrow>
     lv_messages v = ag_messages s \<and>
     lv_accepted v = table tc_id (ag_pendingToolCalls s) \<and> distinct (map tc_id (ag_pendingToolCalls s)) \<and>
     lv_tasks v = table tk_id (ag_tasks s) \<and> distinct (map tk_id (ag_tasks s)) \<and>
     (\<exists>rs. lv_evidence v = table er_id rs \<and> distinct (map er_id rs) \<and> er_id ` set rs = set (ag_evidenceIds s))"

definition calls_agree :: "loader_view \<Rightarrow> agent_state \<Rightarrow> bool" where
  "calls_agree v s \<longleftrightarrow>
     lv_accepted v = table tc_id (ag_pendingToolCalls s) \<and> distinct (map tc_id (ag_pendingToolCalls s)) \<and>
     tr_callId ` set (lv_completed v) \<subseteq> set (obj_keys (ag_toolResults s)) \<union> tc_id ` set (ag_pendingToolCalls s) \<and>
     set (obj_keys (ag_toolResults s)) \<subseteq> tr_callId ` set (lv_completed v)"

fun touches_view :: "fact_event \<Rightarrow> bool" where
  "touches_view (User_message_accepted m) = True"
| "touches_view (Assistant_message_completed m u) = True"
| "touches_view (Tool_result_message m) = True"
| "touches_view (Tool_call_accepted c) = True"
| "touches_view (Tool_call_completed r) = True"
| "touches_view (Context_compacted r) = True"
| "touches_view (Task_changed t) = True"
| "touches_view (Evidence_recorded r) = True"
| "touches_view f = False"

lemma view_untouched:
  "\<not> touches_view f \<Longrightarrow>
   lv_messages (view_fact f v) = lv_messages v \<and> lv_accepted (view_fact f v) = lv_accepted v \<and>
   lv_completed (view_fact f v) = lv_completed v \<and>
   lv_tasks (view_fact f v) = lv_tasks v \<and> lv_evidence (view_fact f v) = lv_evidence v"
  by (cases f) (auto simp: view_fact_def Let_def split: option.split)

lemma reduce_untouched:
  "reduce H s f = Inr s' \<Longrightarrow> \<not> touches_view f \<Longrightarrow>
   ag_messages s' = ag_messages s \<and> ag_tasks s' = ag_tasks s \<and> ag_evidenceIds s' = ag_evidenceIds s"
  by (cases f)
    (auto simp: handler_defs bind_res_Inr_iff
      split: if_splits option.splits sum.splits continue_transition.splits)

lemma view_agrees_step:
  assumes "view_agrees v s" "reduce H s f = Inr s'" "compaction_lands (lv_messages v) f"
  shows "view_agrees (view_fact f v) s'"
proof (cases "touches_view f")
  case False
  have "\<not> touches_calls f" using False by (cases f) simp_all
  then have "ag_pendingToolCalls s' = ag_pendingToolCalls s" using calls_frame [OF assms(2)] by simp
  then show ?thesis
    using reduce_untouched [OF assms(2) False] view_untouched [OF False, of v] assms(1) by (simp add: view_agrees_def)
next
  case True
  show ?thesis
  proof (cases f)
    case (Tool_call_accepted c)
    then have e: "tc_id c \<notin> tc_id ` set (ag_pendingToolCalls s)"
      "s' = s\<lparr>ag_pendingToolCalls := ag_pendingToolCalls s @ [c], ag_toolResults := ag_toolResults s',
              ag_recovery := ag_recovery s'\<rparr>"
      using assms(2) by (auto simp: call_accepted_effect list_ex_iff image_iff)
    have "view_agrees (view_fact f v) (s\<lparr>ag_pendingToolCalls := ag_pendingToolCalls s @ [c], ag_toolResults := ag_toolResults s',
              ag_recovery := ag_recovery s'\<rparr>)"
      using assms(1) e(1) table_set [of tc_id "ag_pendingToolCalls s" c]
      by (auto simp: view_agrees_def view_fact_def Tool_call_accepted put_entry_def)
    then show ?thesis using e(2) by simp
  next
    case (Tool_call_completed r)
    then have e: "ag_pendingToolCalls s' = filter (\<lambda>c. tc_id c \<noteq> tr_callId r) (ag_pendingToolCalls s)"
      "ag_messages s' = ag_messages s" "ag_tasks s' = ag_tasks s" "ag_evidenceIds s' = ag_evidenceIds s"
      using assms(2) by (auto simp: reduce_call_completed_def set_used_def split: if_splits)
    show ?thesis
      using assms(1) distinct_map_filter [of tc_id "ag_pendingToolCalls s"]
      unfolding view_agrees_def e by (simp add: view_fact_def Tool_call_completed table_delete)
  next
    case (Context_compacted r)
    have eq: "splice_compacted (cr_clearedMessageIds r) (or_else (cr_replacements r) []) False (ag_messages s) =
        compact_messages (cr_clearedMessageIds r) (or_else (cr_replacements r) []) False (ag_messages s)"
      using assms(1, 3) by (intro splice_compact) (simp add: Context_compacted view_agrees_def)
    have s': "s' = reduce_compacted s r" using assms(2) by (simp add: Context_compacted)
    show ?thesis
      using assms(1) eq unfolding view_agrees_def s'
      by (simp add: view_fact_def Context_compacted reduce_compacted_def or_else_def)
  next
    case (Task_changed t)
    have put: "put_entry tk_id t (ag_tasks s) =
        (if list_ex (\<lambda>u. tk_id u = tk_id t) (ag_tasks s) then map (\<lambda>u. if tk_id u = tk_id t then t else u) (ag_tasks s)
         else ag_tasks s @ [t])"
      by (auto simp: put_entry_def list_ex_iff image_iff)
    have s': "s' = bump_progress (s\<lparr>ag_tasks := put_entry tk_id t (ag_tasks s)\<rparr>)"
      using assms(2) unfolding put by (simp add: Task_changed reduce_task_def)
    show ?thesis
      using assms(1) table_set [of tk_id "ag_tasks s" t] distinct_put_entry [of tk_id "ag_tasks s" t]
      unfolding view_agrees_def s' by (simp add: view_fact_def Task_changed bump_progress_def)
  next
    case (Evidence_recorded r)
    have s': "s' = bump_progress (s\<lparr>ag_evidenceIds := ag_evidenceIds s @ [er_id r]\<rparr>)"
      using assms(2) by (simp add: Evidence_recorded reduce_evidence_def)
    obtain rs where rs: "lv_evidence v = table er_id rs" "distinct (map er_id rs)" "er_id ` set rs = set (ag_evidenceIds s)"
      using assms(1) by (auto simp: view_agrees_def)
    have "er_id ` set (put_entry er_id r rs) = insert (er_id r) (er_id ` set rs)"
      using keys_put_entry [of er_id r rs] by (metis (no_types) image_set insert_absorb list.set(1) list.simps(15) set_append
        sup_bot.right_neutral Un_insert_right)
    then have "\<exists>rs'. obj_set (lv_evidence v) (er_id r) r = table er_id rs' \<and> distinct (map er_id rs') \<and>
        er_id ` set rs' = set (ag_evidenceIds s @ [er_id r])"
      using rs table_set [OF rs(2), of r] distinct_put_entry [OF rs(2), of r]
      by (intro exI [of _ "put_entry er_id r rs"]) simp
    then show ?thesis
      using assms(1) unfolding view_agrees_def s'
      by (simp add: view_fact_def Evidence_recorded bump_progress_def)
  next
    case (User_message_accepted m)
    have "ag_messages s' = ag_messages s @ [m]" "ag_pendingToolCalls s' = ag_pendingToolCalls s" "ag_tasks s' = ag_tasks s"
      "ag_evidenceIds s' = ag_evidenceIds s"
      using assms(2) by (auto simp: User_message_accepted reduce_user_message_def Let_def split: option.splits if_splits)
    then show ?thesis using assms(1) unfolding view_agrees_def by (simp add: view_fact_def User_message_accepted)
  next
    case (Assistant_message_completed m u)
    have "ag_messages s' = ag_messages s @ [m]" "ag_pendingToolCalls s' = ag_pendingToolCalls s" "ag_tasks s' = ag_tasks s"
      "ag_evidenceIds s' = ag_evidenceIds s"
      using assms(2) by (auto simp: Assistant_message_completed reduce_assistant_def set_used_def)
    then show ?thesis using assms(1) unfolding view_agrees_def by (simp add: view_fact_def Assistant_message_completed)
  next
    case (Tool_result_message m)
    have "s' = reduce_message s m" using assms(2) by (simp add: Tool_result_message)
    then show ?thesis using assms(1) unfolding view_agrees_def by (simp add: view_fact_def Tool_result_message reduce_message_def)
  qed (use True in simp_all)
qed

lemma calls_agree_step:
  assumes "calls_agree v s" "reduce H s f = Inr s'"
  shows "calls_agree (view_fact f v) s'"
proof (cases "touches_calls f")
  case False
  have "lv_accepted (view_fact f v) = lv_accepted v \<and> lv_completed (view_fact f v) = lv_completed v"
    using False by (cases f) (auto simp: view_fact_def Let_def split: option.split)
  then show ?thesis using calls_frame [OF assms(2) False] assms(1) unfolding calls_agree_def by simp
next
  case True
  show ?thesis
  proof (cases f)
    case (Tool_call_accepted c)
    then have new: "tc_id c \<notin> tc_id ` set (ag_pendingToolCalls s)"
      and e: "ag_pendingToolCalls s' = ag_pendingToolCalls s @ [c]" "ag_toolResults s' = obj_delete (ag_toolResults s) (tc_id c)"
      using assms(2) by (auto simp: call_accepted_effect list_ex_iff image_iff)
    show ?thesis
      using assms(1) new table_set [of tc_id "ag_pendingToolCalls s" c]
      unfolding calls_agree_def e
      by (auto simp: view_fact_def Tool_call_accepted put_entry_def obj_keys_delete)
  next
    case (Tool_call_completed r)
    then have e: "ag_pendingToolCalls s' = filter (\<lambda>c. tc_id c \<noteq> tr_callId r) (ag_pendingToolCalls s)"
      "ag_toolResults s' = obj_set (ag_toolResults s) (tr_callId r) r"
      using assms(2) by (auto simp: reduce_call_completed_def set_used_def split: if_splits)
    show ?thesis
      using assms(1) distinct_map_filter [of tc_id "ag_pendingToolCalls s"]
      unfolding calls_agree_def e by (auto simp: view_fact_def Tool_call_completed table_delete obj_keys_set)
  qed (use True in simp_all)
qed

subsection \<open>Replay as a refinement\<close>

text \<open>Two facts are alike when they differ in a plan at most, which the loader settles.\<close>

definition alike :: "fact_event \<Rightarrow> fact_event \<Rightarrow> bool" where
  "alike f g \<longleftrightarrow> f = g \<or> (\<exists>p q. f = Plan_version_created p \<and> g = Plan_version_created q)"

definition same_view :: "loader_view \<Rightarrow> loader_view \<Rightarrow> bool" where
  "same_view v w \<longleftrightarrow> lv_messages v = lv_messages w \<and> lv_accepted v = lv_accepted w \<and>
     lv_completed v = lv_completed w \<and> lv_tasks v = lv_tasks w \<and> lv_evidence v = lv_evidence w"

text \<open>A relation between the loader's view and the reducer's state that every fact keeps.\<close>

locale loader_simulation =
  fixes H :: host
    and rel :: "loader_view \<Rightarrow> agent_state \<Rightarrow> bool"
    and lands :: "loader_view \<Rightarrow> fact_event \<Rightarrow> bool"
  assumes simulates: "rel v s \<Longrightarrow> lands v f \<Longrightarrow> reduce H s f = Inr s' \<Longrightarrow> rel (view_fact f v) s'"
    and respects: "same_view v w \<Longrightarrow> rel v s \<Longrightarrow> rel w s"
    and lands_plan: "lands v (Plan_version_created p)"
begin

lemma replay_simulates:
  assumes "list_all2 (\<lambda>a b. alike (env_event a) (env_event b)) raw es"
    "replay_from H degraded n None s es = (s', None)" "rel v s" "all_land lands v (map env_event raw)"
  shows "rel (fold view_fact (map env_event raw) v) s'"
  using assms
proof (induction raw es arbitrary: n s v rule: list_all2_induct)
  case (Cons a raw e es)
  have land: "lands v (env_event a)" "all_land lands (view_fact (env_event a) v) (map env_event raw)" using Cons.prems(3) by simp_all
  have plan: "same_view (view_fact (Plan_version_created p) v) (view_fact (Plan_version_created q) v)" for p q
    by (simp add: same_view_def view_fact_def)
  show ?case
  proof (cases "recovery_noop (env_event e)")
    case True
    then have "env_event a = env_event e" using Cons.hyps by (auto simp: alike_def recovery_noop_def)
    then have "same_view v (view_fact (env_event a) v)"
      using True by (cases "env_event e") (simp_all add: recovery_noop_def same_view_def view_fact_def)
    then have "rel (view_fact (env_event a) v) s" using respects Cons.prems(2) by blast
    then show ?thesis using Cons.IH Cons.prems(1) True land(2) by simp
  next
    case False
    then obtain t where t: "reduce H s (env_event e) = Inr t"
      using Cons.prems(1) by (cases "reduce H s (env_event e)") (auto simp: Let_def split: if_splits)
    have "rel (view_fact (env_event a) v) t"
    proof (cases "env_event a = env_event e")
      case True
      then show ?thesis using simulates [OF Cons.prems(2) land(1)] t by simp
    next
      case False
      then obtain p q where pq: "env_event a = Plan_version_created p" "env_event e = Plan_version_created q"
        using Cons.hyps by (auto simp: alike_def)
      have "rel (view_fact (Plan_version_created q) v) t"
        by (rule simulates [OF Cons.prems(2) lands_plan]) (use t pq(2) in simp)
      then show ?thesis unfolding pq(1) by (rule respects [OF plan])
    qed
    then show ?thesis using Cons.IH Cons.prems(1) False t land(2) by simp
  qed
qed simp

end

interpretation whole_view: loader_simulation H view_agrees "\<lambda>v. compaction_lands (lv_messages v)" for H
proof unfold_locales
  fix v w s assume "same_view v w" "view_agrees v s"
  then show "view_agrees w s" by (simp add: same_view_def view_agrees_def)
qed (simp_all add: view_agrees_step)

definition sound_calls :: "loader_view \<Rightarrow> agent_state \<Rightarrow> bool" where
  "sound_calls v s \<longleftrightarrow> calls_agree v s \<and> lifecycle_ok s"

interpretation call_view: loader_simulation H sound_calls "\<lambda>v f. True" for H
proof unfold_locales
  fix v w s assume "same_view v w" "sound_calls v s"
  then show "sound_calls w s" by (simp add: same_view_def calls_agree_def sound_calls_def)
qed (auto simp: sound_calls_def intro: calls_agree_step lifecycle_step)

text \<open>The envelopes that the loader returns are those of the file, up to the settled plans.\<close>

lemma alike_refl [simp]: "alike f f"
  by (simp add: alike_def)

lemma update_first_related:
  "(\<And>x. P x \<Longrightarrow> R x (g x)) \<Longrightarrow> (\<And>x. R x x) \<Longrightarrow> list_all2 R xs (update_first P g xs)"
  by (induction P g xs rule: update_first.induct) (auto simp: list_all2_refl)

definition settles_to :: "journal_envelope \<Rightarrow> journal_envelope \<Rightarrow> bool" where
  "settles_to a b \<longleftrightarrow> alike (env_event a) (env_event b) \<and> env_seq b = env_seq a \<and> env_eventId b = env_eventId a"

lemma settles_to_trans: "settles_to a b \<Longrightarrow> settles_to b c \<Longrightarrow> settles_to a c"
  by (auto simp: settles_to_def alike_def)

lemma superseded_settles: "list_all2 settles_to es (superseded_in k es)"
proof -
  have "settles_to e (e\<lparr>env_event := superseded_fact (env_event e)\<rparr>)" if "plan_created_as k (env_event e)" for e
    using that by (cases "env_event e") (auto simp: settles_to_def alike_def)
  then have "list_all2 settles_to (rev es)
      (update_first (\<lambda>e. plan_created_as k (env_event e)) (\<lambda>e. e\<lparr>env_event := superseded_fact (env_event e)\<rparr>) (rev es))"
    by (rule update_first_related) (simp_all add: settles_to_def)
  then show ?thesis unfolding superseded_in_def by (simp add: list_all2_rev1)
qed

lemma settle_step:
  assumes "list_all2 settles_to done0 done1"
  shows "list_all2 settles_to (done0 @ [e]) (settle_envelope e done1)"
proof -
  have one: "list_all2 settles_to [e] [e]" by (simp add: settles_to_def)
  have "list_all2 settles_to done0 (superseded_in k done1)" for k
    using list_all2_trans [OF _ assms superseded_settles] settles_to_trans by blast
  moreover have "settle_envelope e done1 = done1 @ [e] \<or> (\<exists>k. settle_envelope e done1 = superseded_in k done1 @ [e])"
    by (cases "env_event e") (auto simp: settle_envelope_def)
  ultimately show ?thesis using list_all2_appendI [OF _ one] assms by metis
qed

lemma settled_settles: "list_all2 settles_to raw (settled_envelopes raw)"
proof -
  have "list_all2 settles_to (done0 @ raw) (fold settle_envelope raw done1)" if "list_all2 settles_to done0 done1" for done0 done1
    using that
  proof (induction raw arbitrary: done0 done1)
    case (Cons e raw)
    show ?case using Cons.IH [OF settle_step [OF Cons.prems, of e]] by simp
  qed simp
  from this [of "[]" "[]"] show ?thesis by (simp add: settled_envelopes_def)
qed

lemma settled_alike: "list_all2 (\<lambda>a b. alike (env_event a) (env_event b)) raw (settled_envelopes raw)"
  by (rule list_all2_mono [OF settled_settles]) (simp add: settles_to_def)


subsection \<open>Crash reconciliation\<close>

text \<open>What reconciliation adds: calls under new ids that have no result.\<close>

definition reconciles :: "string list \<Rightarrow> tool_call list \<Rightarrow> tool_call jsobj \<Rightarrow> tool_call list \<Rightarrow> bool" where
  "reconciles terminal cs acc xs \<longleftrightarrow> acc = table tc_id (cs @ xs) \<and> distinct (map tc_id (cs @ xs)) \<and>
     (\<forall>x \<in> set xs. tc_id x \<notin> set terminal)"

definition known_call :: "string list \<Rightarrow> tool_call jsobj \<Rightarrow> string \<Rightarrow> bool" where
  "known_call terminal acc c \<longleftrightarrow> c \<in> set terminal \<or> c \<in> set (obj_keys acc)"

lemma table_get_None: "obj_get (table key xs) k = None \<longleftrightarrow> k \<notin> key ` set xs"
  by (auto simp: obj_get_None_iff)

lemma reconcile_blocks_ok:
  "reconciles terminal cs acc xs \<Longrightarrow>
   \<exists>ys. reconciles terminal cs (reconcile_blocks terminal mid i bs acc) ys \<and>
     (\<forall>k. known_call terminal acc k \<longrightarrow> known_call terminal (reconcile_blocks terminal mid i bs acc) k) \<and>
     (\<forall>c n input. Tool_call_block c n input \<in> set bs \<longrightarrow> known_call terminal (reconcile_blocks terminal mid i bs acc) c)"
proof (induction terminal mid i bs acc arbitrary: xs rule: reconcile_blocks.induct)
  case (1 terminal mid i acc)
  then show ?case by auto
next
  case (2 terminal mid i c n input bs acc)
  define call where "call = \<lparr>tc_id = c, tc_name = n, tc_input = input, tc_parentMessageId = mid, tc_receivedIndex = of_nat i\<rparr>"
  define acc1 where "acc1 = (if c \<notin> set terminal \<and> obj_get acc c = None then obj_set acc c call else acc)"
  have "\<exists>ys. reconciles terminal cs acc1 ys \<and> known_call terminal acc1 c \<and> (\<forall>k. known_call terminal acc k \<longrightarrow> known_call terminal acc1 k)"
  proof (cases "c \<notin> set terminal \<and> obj_get acc c = None")
    case True
    then have new: "tc_id call \<notin> tc_id ` set (cs @ xs)" "c = tc_id call"
      using 2(2) by (auto simp: reconciles_def table_get_None call_def)
    have "acc1 = table tc_id (cs @ xs @ [call])"
      using True 2(2) table_set [of tc_id "cs @ xs" call] new by (simp add: acc1_def reconciles_def put_entry_def)
    then have "reconciles terminal cs acc1 (xs @ [call])" "known_call terminal acc1 c"
      using 2(2) new True by (auto simp: reconciles_def known_call_def)
    moreover have "known_call terminal acc k \<longrightarrow> known_call terminal acc1 k" for k
      using True by (auto simp: known_call_def acc1_def obj_keys_set)
    ultimately show ?thesis by blast
  next
    case False
    then have "known_call terminal acc1 c" "acc1 = acc" by (auto simp: known_call_def acc1_def obj_get_None_iff)
    then show ?thesis using 2(2) by auto
  qed
  then obtain ys where ys: "reconciles terminal cs acc1 ys" "known_call terminal acc1 c"
    "\<And>k. known_call terminal acc k \<Longrightarrow> known_call terminal acc1 k" by blast
  have step: "reconcile_blocks terminal mid i (Tool_call_block c n input # bs) acc = reconcile_blocks terminal mid (i + 1) bs acc1"
    by (simp add: acc1_def call_def)
  obtain zs where zs: "reconciles terminal cs (reconcile_blocks terminal mid (i + 1) bs acc1) zs"
    "\<forall>k. known_call terminal acc1 k \<longrightarrow> known_call terminal (reconcile_blocks terminal mid (i + 1) bs acc1) k"
    "\<forall>c n input. Tool_call_block c n input \<in> set bs \<longrightarrow> known_call terminal (reconcile_blocks terminal mid (i + 1) bs acc1) c"
    using 2(1) ys(1) unfolding acc1_def call_def by blast
  show ?case unfolding step using zs ys by (intro exI [of _ zs]) auto
qed auto

lemma reconcile_messages_ok:
  "reconciles terminal cs acc xs \<Longrightarrow>
   \<exists>ys. reconciles terminal cs (fold (reconcile_message terminal) ms acc) ys \<and>
     (\<forall>k. known_call terminal acc k \<longrightarrow> known_call terminal (fold (reconcile_message terminal) ms acc) k) \<and>
     (\<forall>m \<in> set ms. msg_role m = Assistant_role \<longrightarrow> (\<forall>c n input. Tool_call_block c n input \<in> set (msg_content m) \<longrightarrow>
        known_call terminal (fold (reconcile_message terminal) ms acc) c))"
proof (induction ms arbitrary: acc xs)
  case (Cons m ms)
  define acc1 where "acc1 = reconcile_message terminal m acc"
  have "\<exists>ys. reconciles terminal cs acc1 ys \<and> (\<forall>k. known_call terminal acc k \<longrightarrow> known_call terminal acc1 k) \<and>
      (msg_role m = Assistant_role \<longrightarrow> (\<forall>c n input. Tool_call_block c n input \<in> set (msg_content m) \<longrightarrow> known_call terminal acc1 c))"
    using reconcile_blocks_ok [OF Cons.prems, of "msg_id m" 0 "msg_content m"] Cons.prems
    by (cases "msg_role m = Assistant_role") (auto simp: acc1_def reconcile_message_def)
  then obtain ys where ys: "reconciles terminal cs acc1 ys" "\<forall>k. known_call terminal acc k \<longrightarrow> known_call terminal acc1 k"
    "msg_role m = Assistant_role \<longrightarrow> (\<forall>c n input. Tool_call_block c n input \<in> set (msg_content m) \<longrightarrow> known_call terminal acc1 c)"
    by blast
  show ?case using Cons.IH [OF ys(1)] ys(2, 3) by (auto simp flip: acc1_def)
qed auto

subsection \<open>Closing the open calls\<close>

definition closable :: "agent_state \<Rightarrow> agent_state \<Rightarrow> tool_call \<Rightarrow> bool" where
  "closable s0 s c \<longleftrightarrow> \<not> obj_defined (ag_toolResults s) (tc_id c) \<and>
     (lifecycle_missing s0 c \<longleftrightarrow> tc_id c \<notin> tc_id ` set (ag_pendingToolCalls s))"

lemma close_one:
  assumes "closable s0 s c"
  shows "\<exists>s'. applyFacts H s (closing_facts s0 c) = Inr s' \<and>
    ag_pendingToolCalls s' = filter (\<lambda>p. tc_id p \<noteq> tc_id c) (ag_pendingToolCalls s) \<and>
    ag_toolResults s' = obj_set (ag_toolResults s) (tc_id c) (interrupted_result c)"
proof -
  have accepted: "\<exists>s1. applyFacts H s (if lifecycle_missing s0 c then [Tool_call_accepted c] else []) = Inr s1 \<and>
      filter (\<lambda>p. tc_id p \<noteq> tc_id c) (ag_pendingToolCalls s1) = filter (\<lambda>p. tc_id p \<noteq> tc_id c) (ag_pendingToolCalls s) \<and>
      ag_toolResults s1 = ag_toolResults s"
    using assms by (auto simp: closable_def reduce_call_accepted_def list_ex_iff image_iff Let_def)
  then obtain s1 where s1: "applyFacts H s (if lifecycle_missing s0 c then [Tool_call_accepted c] else []) = Inr s1"
    "filter (\<lambda>p. tc_id p \<noteq> tc_id c) (ag_pendingToolCalls s1) = filter (\<lambda>p. tc_id p \<noteq> tc_id c) (ag_pendingToolCalls s)"
    "ag_toolResults s1 = ag_toolResults s" by blast
  have "\<not> obj_defined (ag_toolResults s1) (tr_callId (interrupted_result c))"
    using assms s1(3) by (simp add: closable_def interrupted_result_def)
  then have "\<exists>s'. reduce H s1 (Tool_call_completed (interrupted_result c)) = Inr s' \<and>
      ag_pendingToolCalls s' = filter (\<lambda>p. tc_id p \<noteq> tc_id c) (ag_pendingToolCalls s1) \<and>
      ag_toolResults s' = obj_set (ag_toolResults s1) (tc_id c) (interrupted_result c)"
    by (simp add: reduce_call_completed_def set_used_def interrupted_result_def)
  then show ?thesis using s1 by (auto simp: closing_facts_def applyFacts_append simp del: reduce.simps)
qed

lemma obj_defined_set: "k \<noteq> k' \<Longrightarrow> obj_defined (obj_set ob k v) k' = obj_defined ob k'"
  by (simp add: obj_defined_def)

lemma close_all:
  assumes "distinct (map tc_id cs)" "\<forall>c \<in> set cs. closable s0 s c"
  shows "\<exists>s'. applyFacts H s (concat (map (closing_facts s0) cs)) = Inr s' \<and>
    ag_pendingToolCalls s' = filter (\<lambda>p. tc_id p \<notin> tc_id ` set cs) (ag_pendingToolCalls s) \<and>
    set (obj_keys (ag_toolResults s')) = set (obj_keys (ag_toolResults s)) \<union> tc_id ` set cs \<and>
    (\<forall>k. k \<notin> tc_id ` set cs \<longrightarrow> obj_get (ag_toolResults s') k = obj_get (ag_toolResults s) k) \<and>
    (\<forall>c \<in> set cs. obj_get (ag_toolResults s') (tc_id c) = Some (interrupted_result c))"
  using assms
proof (induction cs arbitrary: s)
  case (Cons c cs)
  obtain s1 where s1: "applyFacts H s (closing_facts s0 c) = Inr s1"
    "ag_pendingToolCalls s1 = filter (\<lambda>p. tc_id p \<noteq> tc_id c) (ag_pendingToolCalls s)"
    "ag_toolResults s1 = obj_set (ag_toolResults s) (tc_id c) (interrupted_result c)"
    using close_one [of s0 s c H] Cons.prems(2) by auto
  have "closable s0 s1 d" if d: "d \<in> set cs" for d
  proof -
    have ne: "tc_id c \<noteq> tc_id d" using Cons.prems(1) d by auto
    then have "tc_id d \<in> tc_id ` set (ag_pendingToolCalls s1) \<longleftrightarrow> tc_id d \<in> tc_id ` set (ag_pendingToolCalls s)"
      by (auto simp: s1(2) image_iff)
    then show ?thesis using Cons.prems(2) d ne by (simp add: closable_def s1(3) obj_defined_set)
  qed
  then obtain s2 where s2: "applyFacts H s1 (concat (map (closing_facts s0) cs)) = Inr s2"
    "ag_pendingToolCalls s2 = filter (\<lambda>p. tc_id p \<notin> tc_id ` set cs) (ag_pendingToolCalls s1)"
    "set (obj_keys (ag_toolResults s2)) = set (obj_keys (ag_toolResults s1)) \<union> tc_id ` set cs"
    "\<forall>k. k \<notin> tc_id ` set cs \<longrightarrow> obj_get (ag_toolResults s2) k = obj_get (ag_toolResults s1) k"
    "\<forall>c \<in> set cs. obj_get (ag_toolResults s2) (tc_id c) = Some (interrupted_result c)"
    using Cons.IH [of s1] Cons.prems(1) by auto
  have "tc_id c \<notin> tc_id ` set cs" using Cons.prems(1) by simp
  then show ?case
    using s1 s2 by (intro exI [of _ s2]) (auto simp: applyFacts_append obj_keys_set obj_get_set filter_filter intro: filter_cong)
qed simp

text \<open>The calls and results of a state, which the phases after the replay leave alone.\<close>

lemma stores_keep_calls [simp]:
  "ag_pendingToolCalls (with_stores L s) = ag_pendingToolCalls s"
  "ag_toolResults (with_stores L s) = ag_toolResults s"
proof -
  have "ag_pendingToolCalls (fold missing_task ts s) = ag_pendingToolCalls s \<and>
      ag_toolResults (fold missing_task ts s) = ag_toolResults s" for ts s
    by (induction ts arbitrary: s) (auto simp: missing_task_def)
  moreover have "ag_pendingToolCalls (fold missing_evidence rs s) = ag_pendingToolCalls s \<and>
      ag_toolResults (fold missing_evidence rs s) = ag_toolResults s" for rs s
    by (induction rs arbitrary: s) (auto simp: missing_evidence_def)
  ultimately show "ag_pendingToolCalls (with_stores L s) = ag_pendingToolCalls s"
    "ag_toolResults (with_stores L s) = ag_toolResults s"
    by (simp_all add: with_stores_def)
qed

lemma pinned_keeps_calls:
  "pinned_selection H sel s = Inr s' \<Longrightarrow>
   ag_pendingToolCalls s' = ag_pendingToolCalls s \<and> ag_toolResults s' = ag_toolResults s"
  using calls_frame [of H s "Outcome_calibration_selected (the sel)" s']
  by (auto simp: pinned_selection_def simp del: reduce.simps split: option.splits if_splits)

text \<open>The calls that are open when the state agrees with the loader can all be closed.\<close>

definition no_prototype_ids :: "loaded_session \<Rightarrow> bool" where
  "no_prototype_ids L \<longleftrightarrow> list_all (\<lambda>c. tc_id c \<notin> set object_prototype_keys) (ls_openToolCalls L)"

lemma open_calls:
  assumes "calls_agree (loader_view_of (map env_event raw)) s"
  shows "\<exists>xs. ls_openToolCalls (loaded_from raw ds) = ag_pendingToolCalls s @ xs \<and>
      distinct (map tc_id (ag_pendingToolCalls s @ xs)) \<and>
      (\<forall>x \<in> set xs. tc_id x \<notin> set (obj_keys (ag_toolResults s))) \<and>
      (\<forall>m \<in> set (ls_messages (loaded_from raw ds)). msg_role m = Assistant_role \<longrightarrow>
         (\<forall>c n input. Tool_call_block c n input \<in> set (msg_content m) \<longrightarrow>
            c \<in> set (obj_keys (ag_toolResults s)) \<union> tc_id ` set (ag_pendingToolCalls s @ xs)))"
proof -
  define v where "v = loader_view_of (map env_event raw)"
  define terminal where "terminal = map tr_callId (lv_completed v)"
  have agree: "lv_accepted v = table tc_id (ag_pendingToolCalls s)" "distinct (map tc_id (ag_pendingToolCalls s))"
    "set terminal \<subseteq> set (obj_keys (ag_toolResults s)) \<union> tc_id ` set (ag_pendingToolCalls s)"
    "set (obj_keys (ag_toolResults s)) \<subseteq> set terminal"
    using assms by (auto simp: calls_agree_def v_def terminal_def)
  have "reconciles terminal (ag_pendingToolCalls s) (lv_accepted v) []"
    using agree by (simp add: reconciles_def)
  then obtain xs where xs: "reconciles terminal (ag_pendingToolCalls s) (reconciled_calls v) xs"
    "\<forall>m \<in> set (lv_messages v). msg_role m = Assistant_role \<longrightarrow>
       (\<forall>c n input. Tool_call_block c n input \<in> set (msg_content m) \<longrightarrow> known_call terminal (reconciled_calls v) c)"
    using reconcile_messages_ok unfolding reconciled_calls_def terminal_def by blast
  have "c \<in> set (obj_keys (ag_toolResults s)) \<union> tc_id ` set (ag_pendingToolCalls s @ xs)"
    if "known_call terminal (reconciled_calls v) c" for c
    using that xs(1) agree(3) by (auto simp: known_call_def reconciles_def)
  then show ?thesis
    using xs agree(4)
    by (intro exI [of _ xs]) (auto simp: reconciles_def loaded_from_def Let_def simp flip: v_def)
qed


subsection \<open>A crashed session\<close>

text \<open>The model asked for two calls; the process died when only the first had been accepted.\<close>

definition demo_message :: "string \<Rightarrow> role \<Rightarrow> content_block list \<Rightarrow> conversation_message" where
  "demo_message i role bs =
     \<lparr>msg_id = i, msg_parentId = None, msg_sessionId = ''s'', msg_turnId = ''t'', msg_role = role, msg_content = bs,
      msg_createdAt = ''2025-06-01T10:20:30.400Z'', msg_meta = None\<rparr>"

definition demo_envelope :: "nat \<Rightarrow> fact_event \<Rightarrow> journal_envelope" where
  "demo_envelope n f =
     \<lparr>env_schemaVersion = 1, env_seq = of_nat n, env_sessionId = ''s'', env_timestamp = ''2025-06-01T10:20:30.400Z'',
      env_checksum = ''sum'', env_event = f, env_eventId = ''e'', env_runId = ''r'', env_turnId = ''t'', env_parentEventId = None\<rparr>"

definition demo_crash :: "journal_envelope list" where
  "demo_crash =
     [demo_envelope 1 (User_message_accepted (demo_message ''u'' User_role [Text_block ''hi''])),
      demo_envelope 2 (Assistant_message_completed (demo_message ''a'' Assistant_role
        [Tool_call_block ''c1'' ''Write'' JNull, Tool_call_block ''c2'' ''Write'' JNull]) None),
      demo_envelope 3 (Tool_call_accepted demo_call)]"

definition demo_runtime :: resume_runtime where
  "demo_runtime =
     \<lparr>rr_sessionId = ''s'', rr_selection = None, rr_ledger = empty_ledger, rr_ledgerFile = Missing_file, rr_tasks = [],
      rr_evidence = \<lparr>es_receipts = [], es_revision = 0, es_changedPaths = [], es_sessionId = ''s'', es_runId = ''r'',
        es_workspaceRoot = Some ''/w''\<rparr>, rr_plans = empty_plans, rr_journal = None\<rparr>"

definition demo_stamps :: resume_stamps where
  "demo_stamps = \<lparr>rst_messageId = ''m9'', rst_now = ''2025-06-02T10:20:30.400Z'', rst_append = (\<lambda>n. \<lparr>as_eventId = ''e9'', as_now = ''2025-06-02T10:20:30.400Z''\<rparr>)\<rparr>"

definition demo_recovered :: agent_state where
  "demo_recovered = fst (projr (recovered_state demo_host (loaded_from demo_crash []) False (createInitialState demo_input)))"

lemma demo_open:
  "ls_openToolCalls (loaded_from demo_crash []) =
     [demo_call, \<lparr>tc_id = ''c2'', tc_name = ''Write'', tc_input = JNull, tc_parentMessageId = ''a'', tc_receivedIndex = 1\<rparr>]"
  by code_simp

lemma demo_envelopes: "ls_envelopes (loaded_from demo_crash []) = demo_crash" "ls_lastSnapshot (loaded_from demo_crash []) = None"
  by code_simp+

lemma demo_replays: "snd (replayEnvelopes demo_host (createInitialState demo_input) demo_crash False) = None"
  by code_simp

lemma demo_replayed:
  "replayEnvelopes demo_host (createInitialState demo_input) (ls_envelopes (loaded_from demo_crash [])) False = (demo_recovered, None)"
  using demo_replays by (simp add: demo_recovered_def recovered_state_def demo_envelopes prod_eq_iff)



end
