(* ===== verification/Replan.thy ===== *)
theory Replan
  imports Supervisor
begin

text \<open>
  Replan detection and plan constraints (planning/ReplanDetector.ts). A decision keeps its
  structured cause and its message; the text of a ratio is that of \<open>toFixed\<close>.
\<close>

subsection \<open>Decisions\<close>

datatype replan_cause =
    Consecutive_failures number number
  | Assumption_falsified string string
  | Version_conflict_threshold number number
  | Scope_exceeded "string list" "string list"
  | Verification_failed_cause "string list"
  | Reflection_ineffective number number
  | Budget_pressure number string

fun cause_text :: "replan_cause \<Rightarrow> string" where
  "cause_text (Consecutive_failures n t) = ''consecutive_failures''"
| "cause_text (Assumption_falsified a e) = ''assumption_falsified''"
| "cause_text (Version_conflict_threshold n t) = ''version_conflict_threshold''"
| "cause_text (Scope_exceeded ps fs) = ''scope_exceeded''"
| "cause_text (Verification_failed_cause fs) = ''verification_failed''"
| "cause_text (Reflection_ineffective n t) = ''reflection_ineffective''"
| "cause_text (Budget_pressure r k) = ''budget_pressure''"

record replan_decision =
  rpd_required :: bool
  rpd_cause :: "replan_cause option"
  rpd_requiresReapproval :: bool
  rpd_message :: string

record replan_config =
  rpc_failureThreshold :: number
  rpc_conflictThreshold :: number
  rpc_scopeRatio :: number
  rpc_budgetPressureRatio :: number
  rpc_ineffectiveReflectionThreshold :: number

definition DEFAULT_REPLAN_CONFIG :: replan_config where
  "DEFAULT_REPLAN_CONFIG =
     \<lparr>rpc_failureThreshold = 3, rpc_conflictThreshold = 3, rpc_scopeRatio = 2,
      rpc_budgetPressureRatio = rnd64 (15 / 100), rpc_ineffectiveReflectionThreshold = 2\<rparr>"

text \<open>The input; \<open>rpi_config\<close> is the default configuration with the given members replaced.\<close>

record replan_input =
  rpi_state :: agent_state
  rpi_approvedPlan :: "plan_version option"
  rpi_config :: replan_config
  rpi_consecutiveFailures :: number
  rpi_versionConflicts :: number
  rpi_verificationFailures :: "string list option"
  rpi_ineffectiveReflections :: "number option"

definition replan_needed :: "replan_cause \<Rightarrow> bool \<Rightarrow> string \<Rightarrow> replan_decision" where
  "replan_needed c reapproval msg =
     \<lparr>rpd_required = True, rpd_cause = Some c, rpd_requiresReapproval = reapproval, rpd_message = msg\<rparr>"

definition no_replan :: replan_decision where
  "no_replan = \<lparr>rpd_required = False, rpd_cause = None, rpd_requiresReapproval = False, rpd_message = []\<rparr>"

text \<open>\<open>x.toFixed(d)\<close>, for the magnitudes that are written without an exponent.\<close>

definition to_fixed :: "nat \<Rightarrow> number \<Rightarrow> string" where
  "to_fixed d x =
     (let n = nat \<lfloor>\<bar>x\<bar> * 10 ^ d + 1 / 2\<rfloor>
      in (if x < 0 then ''-'' else []) @ show_nat (n div 10 ^ d) @
         (if d = 0 then [] else ''.'' @ pad_zeros d (show_nat (n mod 10 ^ d))))"

subsection \<open>Triggers, in order of priority\<close>

definition failure_trigger :: "replan_input \<Rightarrow> replan_decision option" where
  "failure_trigger i =
     (let n = rpi_consecutiveFailures i; t = rpc_failureThreshold (rpi_config i)
      in if t \<le> n
         then Some (replan_needed (Consecutive_failures n t) True
           (show_num n @ '' consecutive tool failures detected. '' @
            ''The current approach is not working. Create a revised plan with a different strategy.''))
         else None)"

definition conflict_trigger :: "replan_input \<Rightarrow> replan_decision option" where
  "conflict_trigger i =
     (let n = rpi_versionConflicts i; t = rpc_conflictThreshold (rpi_config i)
      in if t \<le> n
         then Some (replan_needed (Version_conflict_threshold n t) False
           (show_num n @ '' file version conflicts detected. '' @
            ''Files are being modified concurrently or the plan ordering is wrong. '' @
            ''Revise the plan to sequence edits correctly.''))
         else None)"

definition scope_trigger :: "host \<Rightarrow> replan_input \<Rightarrow> replan_decision option" where
  "scope_trigger H i =
     (let ws = ag_workspace (rpi_state i); plan = rpi_approvedPlan i;
          planned = planned_files H (ws_root ws) plan;
          invalid = invalid_plan_files H (ws_root ws) plan;
          actual = ws_planScopedTouchedFiles ws;
          unplanned = filter (\<lambda>f. f \<notin> set planned) actual;
          ratio = fdiv (of_nat (length unplanned)) (of_nat (length planned))
      in if invalid \<noteq> []
         then Some (replan_needed (Scope_exceeded invalid actual) True
           (''Approved plan contains invalid workspace file paths: '' @ js_join '', '' (take 5 invalid) @
            ''. Persist a validated replacement plan.''))
         else if planned \<noteq> [] \<and> rpc_scopeRatio (rpi_config i) \<le> ratio
         then Some (replan_needed (Scope_exceeded planned actual) True
           (''Modification scope exceeded plan: '' @ show_num (of_nat (length unplanned)) @ '' unplanned files '' @
            ''(ratio '' @ to_fixed 1 ratio @ ''x). Unplanned: '' @ js_join '', '' (take 5 unplanned) @ ''. '' @
            ''Revise the plan to reflect actual scope.''))
         else None)"

definition verification_trigger :: "replan_input \<Rightarrow> replan_decision option" where
  "verification_trigger i =
     (case rpi_verificationFailures i of
        None \<Rightarrow> None
      | Some fs \<Rightarrow>
          if fs = [] then None
          else Some (replan_needed (Verification_failed_cause fs) False
            (''Independent verification failed: '' @ js_join ''; '' fs @ ''. '' @
             ''Revise the plan to address the findings.'')))"

definition reflection_trigger :: "replan_input \<Rightarrow> replan_decision option" where
  "reflection_trigger i =
     (let n = or_else (rpi_ineffectiveReflections i) 0; t = rpc_ineffectiveReflectionThreshold (rpi_config i)
      in if rpi_approvedPlan i \<noteq> None \<and> t \<le> n
         then Some (replan_needed (Reflection_ineffective n t) False
           (show_num n @ '' consecutive reflection recommendations '' @
            ''produced no measurable task, evidence, or workspace progress. '' @
            ''Repair the smallest affected plan step and change the working hypothesis.''))
         else None)"

text \<open>Without a positive limit the quotient is not a number or infinite, and the guard fails anyway.\<close>

definition budget_trigger :: "replan_input \<Rightarrow> replan_decision option" where
  "budget_trigger i =
     (let b = ag_budget (rpi_state i);
          remaining = fsub 1 (fdiv (bu_modelCalls (rb_used b)) (rb_maxModelCalls b))
      in if 0 < rb_maxModelCalls b \<and> remaining \<le> rpc_budgetPressureRatio (rpi_config i)
         then Some (replan_needed (Budget_pressure remaining ''model_calls'') False
           (''Budget pressure: only '' @ to_fixed 0 (fmul remaining 100) @ ''% of model calls remaining. '' @
            ''Simplify the plan to fit within budget, or mark remaining work as blocked.''))
         else None)"

definition detectReplanTrigger :: "host \<Rightarrow> replan_input \<Rightarrow> replan_decision" where
  "detectReplanTrigger H i =
     (let scope = (case rpi_approvedPlan i of
            None \<Rightarrow> None
          | Some p \<Rightarrow> if pl_steps p = [] then None else scope_trigger H i)
      in case then_check (failure_trigger i) (then_check (conflict_trigger i) (then_check scope
           (then_check (verification_trigger i) (then_check (reflection_trigger i) (budget_trigger i))))) of
           Some d \<Rightarrow> d
         | None \<Rightarrow> no_replan)"

subsection \<open>Plan constraints\<close>

datatype violation_kind = Unplanned_file | Task_without_step | Uncovered_criterion | Plan_stale

record plan_violation =
  vio_kind :: violation_kind
  vio_detail :: string
  vio_error :: bool

definition violation :: "violation_kind \<Rightarrow> bool \<Rightarrow> string \<Rightarrow> plan_violation" where
  "violation k e detail = \<lparr>vio_kind = k, vio_detail = detail, vio_error = e\<rparr>"

definition quoted :: "string \<Rightarrow> string" where
  "quoted s = [CHR 0x22] @ s @ [CHR 0x22]"

definition file_violations :: "host \<Rightarrow> agent_state \<Rightarrow> plan_version \<Rightarrow> plan_violation list" where
  "file_violations H s p =
     (let ws = ag_workspace s; planned = planned_files H (ws_root ws) (Some p)
      in map (\<lambda>f. violation Plan_stale True (''approved plan contains invalid workspace file path '' @ quoted f))
           (invalid_plan_files H (ws_root ws) (Some p)) @
         (if planned = [] then []
          else map (\<lambda>f. violation Unplanned_file False (''file '' @ quoted f @ '' is not in any plan step''))
            (filter (\<lambda>f. f \<notin> set planned) (ws_planScopedTouchedFiles ws))))"

definition foreign_task :: "plan_version \<Rightarrow> plan_task \<Rightarrow> bool" where
  "foreign_task p t \<longleftrightarrow>
     \<not> (tk_planId t = Some (pl_planId p) \<and> tk_planVersion t = Some (pl_version p)) \<and>
     truthy (tk_planId t) \<noteq> None \<and> tk_planId t \<noteq> Some (pl_planId p)"

definition task_violations :: "plan_version \<Rightarrow> plan_task list \<Rightarrow> plan_violation list" where
  "task_violations p ts =
     map (\<lambda>t. violation Task_without_step True
            (''task '' @ tk_id t @ '' references plan '' @ or_else (tk_planId t) [] @ '' but active plan is '' @ pl_planId p))
       (filter (foreign_task p) ts)"

definition criterion_violations :: "plan_version \<Rightarrow> plan_task list \<Rightarrow> plan_violation list" where
  "criterion_violations p ts =
     map (\<lambda>c. violation Uncovered_criterion False
            (''required criterion '' @ quoted (ac_id c) @ '' ('' @ ac_statement c @ '') is not referenced by any task''))
       (filter (\<lambda>c. ac_id c \<notin> set (concat (map tk_acceptanceCriteria ts)))
          (filter ac_required (pl_acceptanceCriteria p)))"

definition checkPlanConstraints :: "host \<Rightarrow> agent_state \<Rightarrow> plan_version option \<Rightarrow> plan_task list \<Rightarrow> plan_violation list" where
  "checkPlanConstraints H s plan ts =
     (case plan of
        None \<Rightarrow> []
      | Some p \<Rightarrow> file_violations H s p @ task_violations p ts @ criterion_violations p ts)"

subsection \<open>What a trigger means\<close>

lemmas trigger_defs = failure_trigger_def conflict_trigger_def scope_trigger_def verification_trigger_def
  reflection_trigger_def budget_trigger_def

lemma then_check_Some: "then_check p q = Some d \<longleftrightarrow> p = Some d \<or> (p = None \<and> q = Some d)"
  by (auto simp: then_check_def split: option.split)

lemma triggers_required:
  "failure_trigger i = Some d \<Longrightarrow> rpd_required d" "conflict_trigger i = Some d \<Longrightarrow> rpd_required d"
  "scope_trigger H i = Some d \<Longrightarrow> rpd_required d" "verification_trigger i = Some d \<Longrightarrow> rpd_required d"
  "reflection_trigger i = Some d \<Longrightarrow> rpd_required d" "budget_trigger i = Some d \<Longrightarrow> rpd_required d"
  by (auto simp: trigger_defs Let_def replan_needed_def split: if_splits option.splits)

definition scope_broken :: "host \<Rightarrow> replan_input \<Rightarrow> bool" where
  "scope_broken H i \<longleftrightarrow>
     (\<exists>p. rpi_approvedPlan i = Some p \<and> pl_steps p \<noteq> [] \<and>
        (let ws = ag_workspace (rpi_state i); planned = planned_files H (ws_root ws) (Some p)
         in invalid_plan_files H (ws_root ws) (Some p) \<noteq> [] \<or>
            (planned \<noteq> [] \<and> rpc_scopeRatio (rpi_config i) \<le>
               fdiv (of_nat (length (filter (\<lambda>f. f \<notin> set planned) (ws_planScopedTouchedFiles ws)))) (of_nat (length planned)))))"

lemma scope_trigger_iff:
  assumes "rpi_approvedPlan i = Some p" "pl_steps p \<noteq> []"
  shows "scope_trigger H i = None \<longleftrightarrow> \<not> scope_broken H i"
  using assms by (simp add: scope_trigger_def scope_broken_def Let_def)

text \<open>
  Write access is withdrawn for two reasons only: the run fails over and over, or it left the
  scope of its approved plan. A detected replan asks for a new approval exactly when the
  failures reached their threshold, or the plan has invalid or too many unplanned files and
  the file version conflicts are below theirs.
\<close>

theorem replan_reapproval_exact:
  "rpd_requiresReapproval (detectReplanTrigger H i) \<longleftrightarrow>
     rpc_failureThreshold (rpi_config i) \<le> rpi_consecutiveFailures i \<or>
     (\<not> rpc_conflictThreshold (rpi_config i) \<le> rpi_versionConflicts i \<and> scope_broken H i)"
proof -
  have rest: "verification_trigger i = Some d \<Longrightarrow> \<not> rpd_requiresReapproval d" "reflection_trigger i = Some d \<Longrightarrow> \<not> rpd_requiresReapproval d"
    "budget_trigger i = Some d \<Longrightarrow> \<not> rpd_requiresReapproval d" "conflict_trigger i = Some d \<Longrightarrow> \<not> rpd_requiresReapproval d"
    "failure_trigger i = Some d \<Longrightarrow> rpd_requiresReapproval d" "scope_trigger H i = Some d \<Longrightarrow> rpd_requiresReapproval d" for d
    by (auto simp: trigger_defs Let_def replan_needed_def split: if_splits option.splits)
  have fires: "failure_trigger i = None \<longleftrightarrow> \<not> rpc_failureThreshold (rpi_config i) \<le> rpi_consecutiveFailures i"
    "conflict_trigger i = None \<longleftrightarrow> \<not> rpc_conflictThreshold (rpi_config i) \<le> rpi_versionConflicts i"
    by (simp_all add: failure_trigger_def conflict_trigger_def Let_def)
  define scope where "scope = (case rpi_approvedPlan i of None \<Rightarrow> None
    | Some p \<Rightarrow> if pl_steps p = [] then None else scope_trigger H i)"
  have scope: "scope = None \<longleftrightarrow> \<not> scope_broken H i" "scope = Some d \<Longrightarrow> rpd_requiresReapproval d" for d
    using scope_trigger_iff [of i _ H] rest(6) by (auto simp: scope_def scope_broken_def split: option.splits if_splits)
  show ?thesis
    unfolding detectReplanTrigger_def Let_def scope_def [symmetric]
    using rest fires scope
    by (auto simp: then_check_Some no_replan_def split: option.splits)
qed

text \<open>
  The three views of the plan's scope agree. A run without plan-constraint violations has, for
  the supervisor, no scope drift and, for the detector, no scope trigger, when the
  configured ratio is positive.
\<close>

theorem compliant_run_has_no_drift:
  assumes "checkPlanConstraints H (rpi_state i) (rpi_approvedPlan i) ts = []" "0 < rpc_scopeRatio (rpi_config i)"
    "pi_state j = rpi_state i" "pi_approvedPlan j = rpi_approvedPlan i"
  shows "\<not> scope_broken H i \<and> scope_drift H j = []"
proof (cases "rpi_approvedPlan i")
  case None
  then show ?thesis using assms(3, 4) by (simp add: scope_broken_def scope_drift_def invalid_plan_files_def planned_files_def)
next
  case (Some p)
  define ws where "ws = ag_workspace (rpi_state i)"
  define planned where "planned = planned_files H (ws_root ws) (Some p)"
  have none: "invalid_plan_files H (ws_root ws) (Some p) = []"
    "planned = [] \<or> filter (\<lambda>f. f \<notin> set planned) (ws_planScopedTouchedFiles ws) = []"
    using assms(1) Some
    by (auto simp: checkPlanConstraints_def file_violations_def Let_def ws_def planned_def split: if_splits simp del: filter_False)
  then have "\<not> scope_broken H i"
    using assms(2) Some by (auto simp: scope_broken_def Let_def fdiv_def rnd64_def simp flip: ws_def planned_def)
  moreover have "scope_drift H j = []"
    using none assms(3, 4) Some by (auto simp: scope_drift_def Let_def simp flip: ws_def planned_def)
  ultimately show ?thesis by blast
qed

text \<open>A plan with one step, whose only file was changed.\<close>

definition demo_step :: plan_step where
  "demo_step = \<lparr>ps_id = ''s1'', ps_title = ''t'', ps_description = ''d'', ps_files = [''./src/a.ts''], ps_dependsOn = [],
     ps_expectedOutcome = ''o''\<rparr>"

definition demo_plan :: plan_version where
  "demo_plan = (the (pi_approvedPlan demo_supervised))\<lparr>pl_steps := [demo_step]\<rparr>"

definition demo_changed :: agent_state where
  "demo_changed = (pi_state demo_supervised)\<lparr>ag_workspace :=
     (ag_workspace (pi_state demo_supervised))\<lparr>ws_planScopedTouchedFiles := [''src/a.ts'']\<rparr>\<rparr>"

definition demo_replan :: replan_input where
  "demo_replan = \<lparr>rpi_state = demo_changed, rpi_approvedPlan = Some demo_plan,
     rpi_config = DEFAULT_REPLAN_CONFIG, rpi_consecutiveFailures = 0, rpi_versionConflicts = 0,
     rpi_verificationFailures = None, rpi_ineffectiveReflections = None\<rparr>"

lemma compliant_run_has_no_drift_witness:
  "checkPlanConstraints demo_host demo_changed (Some demo_plan) [] = [] \<and>
   \<not> scope_broken demo_host demo_replan \<and>
   scope_drift demo_host (demo_supervised\<lparr>pi_state := demo_changed, pi_approvedPlan := Some demo_plan\<rparr>) = []"
proof -
  have c: "checkPlanConstraints demo_host demo_changed (Some demo_plan) [] = []"
    by code_simp
  show ?thesis
    using c compliant_run_has_no_drift [of demo_host demo_replan "[]" "demo_supervised\<lparr>pi_state := demo_changed, pi_approvedPlan := Some demo_plan\<rparr>"]
    by (simp add: demo_replan_def DEFAULT_REPLAN_CONFIG_def)
qed

end
