(* ===== verification/JsonText.thy ===== *)
theory JsonText
  imports Json
begin

text \<open>
  \<open>JSON.parse\<close>: the JSON value that a text denotes, \<open>None\<close> where it throws. Strings hold code
  units up to 255, so an escape for a larger one is outside the model and refused. The depth
  of the recursion is bounded by fuel; every two steps consume a character, so twice the
  length of the text is enough.
\<close>

definition json_ws :: "char \<Rightarrow> bool" where
  "json_ws c \<longleftrightarrow> (let n = (of_char c :: nat) in n = 32 \<or> n = 9 \<or> n = 10 \<or> n = 13)"

definition skip_ws :: "string \<Rightarrow> string" where
  "skip_ws s = dropWhile json_ws s"

definition is_digit :: "char \<Rightarrow> bool" where
  "is_digit c \<longleftrightarrow> (let n = (of_char c :: nat) in 48 \<le> n \<and> n \<le> 57)"

definition digits_value :: "string \<Rightarrow> nat" where
  "digits_value s = foldl (\<lambda>v c. v * 10 + (of_char c - 48)) 0 s"

definition hex_value :: "char \<Rightarrow> nat option" where
  "hex_value c =
     (let n = (of_char c :: nat)
      in if 48 \<le> n \<and> n \<le> 57 then Some (n - 48)
         else if 97 \<le> n \<and> n \<le> 102 then Some (n - 87)
         else if 65 \<le> n \<and> n \<le> 70 then Some (n - 55)
         else None)"

subsection \<open>Strings\<close>

definition simple_escape :: "char \<Rightarrow> char option" where
  "simple_escape c = map_of
     [(CHR 0x22, CHR 0x22), (CHR 0x5C, CHR 0x5C), (CHR ''/'', CHR ''/''), (CHR ''b'', CHR 0x08), (CHR ''f'', CHR 0x0C),
      (CHR ''n'', CHR 0x0A), (CHR ''r'', CHR 0x0D), (CHR ''t'', CHR 0x09)] c"

definition unicode_escape :: "string \<Rightarrow> (char \<times> string) option" where
  "unicode_escape s =
     (case s of
        a # b # c # d # r \<Rightarrow>
          (case (hex_value a, hex_value b, hex_value c, hex_value d) of
             (Some 0, Some 0, Some m, Some n) \<Rightarrow> Some (char_of (16 * m + n), r)
           | _ \<Rightarrow> None)
      | _ \<Rightarrow> None)"

lemma unicode_escape_shorter: "unicode_escape s = Some (c, r) \<Longrightarrow> length r < length s"
  by (auto simp: unicode_escape_def split: list.splits option.splits nat.splits)

text \<open>The string after its opening quote, and the text after its closing one.\<close>

function parse_string :: "string \<Rightarrow> (string \<times> string) option" where
  "parse_string [] = None"
| "parse_string (c # s) =
     (if c = CHR 0x22 then Some ([], s)
      else if c = CHR 0x5C
      then (case s of
              [] \<Rightarrow> None
            | e # r \<Rightarrow>
                (case simple_escape e of
                   Some x \<Rightarrow> map_option (map_prod ((#) x) id) (parse_string r)
                 | None \<Rightarrow>
                     if e \<noteq> CHR ''u'' then None
                     else (case unicode_escape r of
                             None \<Rightarrow> None
                           | Some (x, r') \<Rightarrow> map_option (map_prod ((#) x) id) (parse_string r'))))
      else if (of_char c :: nat) < 32 then None
      else map_option (map_prod ((#) c) id) (parse_string s))"
  by pat_completeness auto
termination
  by (relation "measure length") (auto dest: unicode_escape_shorter)

subsection \<open>Numbers\<close>

definition digits_of :: "string \<Rightarrow> (string \<times> string) option" where
  "digits_of s = (let ds = takeWhile is_digit s in if ds = [] then None else Some (ds, dropWhile is_digit s))"

definition parse_fraction :: "string \<Rightarrow> (string \<times> string) option" where
  "parse_fraction s = (case s of c # r \<Rightarrow> if c = CHR ''.'' then digits_of r else Some ([], s) | [] \<Rightarrow> Some ([], s))"

definition parse_exponent :: "string \<Rightarrow> (int \<times> string) option" where
  "parse_exponent s =
     (case s of
        [] \<Rightarrow> Some (0, s)
      | c # r \<Rightarrow>
          if c \<noteq> CHR ''e'' \<and> c \<noteq> CHR ''E'' then Some (0, s)
          else (case r of
                  [] \<Rightarrow> None
                | d # r' \<Rightarrow>
                    if d = CHR ''-'' then map_option (map_prod (\<lambda>ds. - int (digits_value ds)) id) (digits_of r')
                    else map_option (map_prod (\<lambda>ds. int (digits_value ds)) id) (digits_of (if d = CHR ''+'' then r' else r))))"

definition parse_number :: "string \<Rightarrow> (json \<times> string) option" where
  "parse_number s =
     (let neg = (take 1 s = ''-'')
      in case digits_of (if neg then drop 1 s else s) of
           None \<Rightarrow> None
         | Some (ip, r1) \<Rightarrow>
             if 1 < length ip \<and> hd ip = CHR ''0'' then None
             else (case parse_fraction r1 of
                     None \<Rightarrow> None
                   | Some (fp, r2) \<Rightarrow>
                       (case parse_exponent r2 of
                          None \<Rightarrow> None
                        | Some (e, r3) \<Rightarrow>
                            let m = of_nat (digits_value (ip @ fp)) * 10 powi (e - int (length fp))
                            in Some (JNum (rnd64 (if neg then - m else m)), r3))))"

subsection \<open>Values\<close>

definition literal :: "string \<Rightarrow> json \<Rightarrow> string \<Rightarrow> (json \<times> string) option" where
  "literal w v s = (if starts_with s w then Some (v, drop (length w) s) else None)"

fun parse_value :: "nat \<Rightarrow> string \<Rightarrow> (json \<times> string) option"
  and parse_elements :: "nat \<Rightarrow> json list \<Rightarrow> string \<Rightarrow> (json \<times> string) option"
  and parse_members :: "nat \<Rightarrow> json jsobj \<Rightarrow> string \<Rightarrow> (json \<times> string) option" where
  "parse_value 0 s = None"
| "parse_value (Suc n) s =
     (case skip_ws s of
        [] \<Rightarrow> None
      | c # r \<Rightarrow>
          if c = CHR ''n'' then literal ''null'' JNull (c # r)
          else if c = CHR ''t'' then literal ''true'' (JBool True) (c # r)
          else if c = CHR ''f'' then literal ''false'' (JBool False) (c # r)
          else if c = CHR 0x22 then map_option (map_prod JStr id) (parse_string r)
          else if c = CHR ''['' then
            (case skip_ws r of d # r' \<Rightarrow> if d = CHR '']'' then Some (JArr [], r') else parse_elements n [] r | [] \<Rightarrow> None)
          else if c = CHR ''{'' then
            (case skip_ws r of d # r' \<Rightarrow> if d = CHR ''}'' then Some (JObj [], r') else parse_members n [] r | [] \<Rightarrow> None)
          else parse_number (c # r))"
| "parse_elements 0 vs s = None"
| "parse_elements (Suc n) vs s =
     (case parse_value n s of
        None \<Rightarrow> None
      | Some (v, r) \<Rightarrow>
          (case skip_ws r of
             [] \<Rightarrow> None
           | d # r' \<Rightarrow>
               if d = CHR '','' then parse_elements n (vs @ [v]) r'
               else if d = CHR '']'' then Some (JArr (vs @ [v]), r')
               else None))"
| "parse_members 0 kvs s = None"
| "parse_members (Suc n) kvs s =
     (case skip_ws s of
        [] \<Rightarrow> None
      | q # s' \<Rightarrow>
          if q \<noteq> CHR 0x22 then None
          else (case parse_string s' of
                  None \<Rightarrow> None
                | Some (k, r) \<Rightarrow>
                    (case skip_ws r of
                       [] \<Rightarrow> None
                     | d # r' \<Rightarrow>
                         if d \<noteq> CHR '':'' then None
                         else (case parse_value n r' of
                                 None \<Rightarrow> None
                               | Some (v, t) \<Rightarrow>
                                   (case skip_ws t of
                                      [] \<Rightarrow> None
                                    | x # t' \<Rightarrow>
                                        if x = CHR '','' then parse_members n (obj_set kvs k v) t'
                                        else if x = CHR ''}'' then Some (JObj (obj_entries (obj_set kvs k v)), t')
                                        else None)))))"

definition json_parse :: "string \<Rightarrow> json option" where
  "json_parse s =
     (case parse_value (2 * length s + 2) s of
        None \<Rightarrow> None
      | Some (v, r) \<Rightarrow> if skip_ws r = [] then Some v else None)"

end
