(* ===== verification/Model.thy ===== *)
theory Model
  imports Snapshot JsonText "HOL-Library.Sublist"
begin

text \<open>
  Model access: the assembly of a provider's stream into one message
  (model/StreamAssembler.ts), the classified errors (model/types.ts) and the retry policy
  (model/retryPolicy.ts). A stream is a list of unified events; a \<open>throw\<close> is a left value.
  A block that only ever gets input deltas has no id and no name (\<open>undefined\<close> in the source);
  the model writes the empty text for both.
\<close>

subsection \<open>Streams\<close>

datatype model_event =
    Message_start string
  | Text_delta number string
  | Thinking_delta number string
  | Tool_call_start number string string
  | Tool_call_input_delta number string
  | Block_end number
  | Usage_event token_usage
  | Message_end "string option"

datatype block_kind = Text_kind | Thinking_kind | Tool_call_kind

record open_block =
  opb_kind :: block_kind
  opb_text :: string
  opb_toolId :: "string option"
  opb_toolName :: "string option"
  opb_inputJson :: string
  opb_closed :: bool

text \<open>The blocks in the order in which they were opened.\<close>

record assembler =
  sa_blocks :: "(number \<times> open_block) list"
  sa_seenToolIds :: "string list"
  sa_usage :: "token_usage option"
  sa_stopReason :: "string option"
  sa_ended :: bool

record assembled_turn =
  at_message :: conversation_message
  at_usage :: "token_usage option"
  at_stopReason :: "string option"
  at_toolCallCount :: nat

definition new_assembler :: assembler where
  "new_assembler = \<lparr>sa_blocks = [], sa_seenToolIds = [], sa_usage = None, sa_stopReason = None, sa_ended = False\<rparr>"

definition fresh_block :: "block_kind \<Rightarrow> open_block" where
  "fresh_block k = \<lparr>opb_kind = k, opb_text = [], opb_toolId = None, opb_toolName = None, opb_inputJson = [], opb_closed = False\<rparr>"

fun on_block :: "number \<Rightarrow> (open_block \<Rightarrow> open_block) \<Rightarrow> (number \<times> open_block) list \<Rightarrow> (number \<times> open_block) list" where
  "on_block i f [] = []"
| "on_block i f ((j, b) # bs) = (if j = i then (j, f b) # bs else (j, b) # on_block i f bs)"

text \<open>The private \<open>open\<close>: an index that is already open keeps its kind.\<close>

definition open_at :: "number \<Rightarrow> block_kind \<Rightarrow> (number \<times> open_block) list \<Rightarrow> (number \<times> open_block) list" where
  "open_at i k bs = (if i \<in> fst ` set bs then bs else bs @ [(i, fresh_block k)])"

definition write_block :: "number \<Rightarrow> block_kind \<Rightarrow> (open_block \<Rightarrow> open_block) \<Rightarrow> assembler \<Rightarrow> assembler" where
  "write_block i k f sa = sa\<lparr>sa_blocks := on_block i f (open_at i k (sa_blocks sa))\<rparr>"

definition push_event :: "assembler \<Rightarrow> model_event \<Rightarrow> assembler res" where
  "push_event sa e =
     (if sa_ended sa then Inl (InvariantError ''stream_after_end'')
      else (case e of
        Message_start pid \<Rightarrow> Inr sa
      | Text_delta i t \<Rightarrow> Inr (write_block i Text_kind (\<lambda>b. b\<lparr>opb_text := opb_text b @ t\<rparr>) sa)
      | Thinking_delta i t \<Rightarrow> Inr (write_block i Thinking_kind (\<lambda>b. b\<lparr>opb_text := opb_text b @ t\<rparr>) sa)
      | Tool_call_start i tid name \<Rightarrow>
          if tid \<in> set (sa_seenToolIds sa) then Inl (InvariantError ''unique_tool_call_id'')
          else Inr (write_block i Tool_call_kind (\<lambda>b. b\<lparr>opb_toolId := Some tid, opb_toolName := Some name\<rparr>)
                     (sa\<lparr>sa_seenToolIds := sa_seenToolIds sa @ [tid]\<rparr>))
      | Tool_call_input_delta i j \<Rightarrow> Inr (write_block i Tool_call_kind (\<lambda>b. b\<lparr>opb_inputJson := opb_inputJson b @ j\<rparr>) sa)
      | Block_end i \<Rightarrow> Inr (sa\<lparr>sa_blocks := on_block i (\<lambda>b. b\<lparr>opb_closed := True\<rparr>) (sa_blocks sa)\<rparr>)
      | Usage_event u \<Rightarrow> Inr (sa\<lparr>sa_usage := Some u\<rparr>)
      | Message_end r \<Rightarrow> Inr (sa\<lparr>sa_stopReason := r, sa_ended := True\<rparr>)))"

fun push_all :: "assembler \<Rightarrow> model_event list \<Rightarrow> assembler res" where
  "push_all sa [] = Inr sa"
| "push_all sa (e # es) = bind_res (push_event sa e) (\<lambda>sa'. push_all sa' es)"

subsection \<open>The assembled message\<close>

definition call_input :: "string \<Rightarrow> json" where
  "call_input inputJson =
     (let raw = js_trim inputJson
      in if raw = [] then JObj []
         else (case json_parse raw of Some v \<Rightarrow> v | None \<Rightarrow> JObj [(''__malformedJson'', JStr raw)]))"

definition block_content :: "open_block \<Rightarrow> content_block list" where
  "block_content b =
     (case opb_kind b of
        Text_kind \<Rightarrow> if opb_text b = [] then [] else [Text_block (opb_text b)]
      | Thinking_kind \<Rightarrow> if opb_text b = [] then [] else [Thinking_block (opb_text b) None]
      | Tool_call_kind \<Rightarrow>
          [Tool_call_block (or_else (opb_toolId b) []) (or_else (opb_toolName b) []) (call_input (opb_inputJson b))])"

record assembler_deps =
  sd_sessionId :: string
  sd_turnId :: string
  sd_parentId :: "string option"
  sd_model :: string
  sd_messageId :: string
  sd_now :: string

definition assembled_message :: "assembler_deps \<Rightarrow> assembler \<Rightarrow> conversation_message" where
  "assembled_message d sa =
     \<lparr>msg_id = sd_messageId d, msg_parentId = sd_parentId d, msg_sessionId = sd_sessionId d, msg_turnId = sd_turnId d,
      msg_role = Assistant_role, msg_content = concat (map (\<lambda>p. block_content (snd p)) (sa_blocks sa)),
      msg_createdAt = sd_now d,
      msg_meta = Some \<lparr>mm_model = Some (sd_model d), mm_usage = sa_usage sa, mm_source = None, mm_synthetic = None\<rparr>\<rparr>"

definition finish_turn :: "assembler_deps \<Rightarrow> assembler \<Rightarrow> assembled_turn res" where
  "finish_turn d sa =
     (if \<not> sa_ended sa \<and> list_ex (\<lambda>p. \<not> opb_closed (snd p)) (sa_blocks sa)
      then Inl (InvariantError ''unclosed_block'')
      else Inr \<lparr>at_message = assembled_message d sa, at_usage = sa_usage sa, at_stopReason = sa_stopReason sa,
                at_toolCallCount = length (filter (\<lambda>p. opb_kind (snd p) = Tool_call_kind) (sa_blocks sa))\<rparr>)"

definition assemble :: "assembler_deps \<Rightarrow> model_event list \<Rightarrow> assembled_turn res" where
  "assemble d es = bind_res (push_all new_assembler es) (finish_turn d)"

subsection \<open>Errors and retries\<close>

datatype model_error =
    Rate_limit "number option"
  | Overloaded "number option"
  | Auth_error bool
  | Prompt_too_long_error "number option" "number option"
  | Max_output_error
  | Invalid_request
  | Connection_error
  | Unknown_error

fun error_code :: "model_error \<Rightarrow> string" where
  "error_code (Rate_limit r) = ''RATE_LIMIT''"
| "error_code (Overloaded r) = ''OVERLOADED''"
| "error_code (Auth_error b) = ''AUTH''"
| "error_code (Prompt_too_long_error a l) = ''PROMPT_TOO_LONG''"
| "error_code Max_output_error = ''MAX_OUTPUT''"
| "error_code Invalid_request = ''INVALID_REQUEST''"
| "error_code Connection_error = ''CONNECTION''"
| "error_code Unknown_error = ''UNKNOWN''"

fun error_retryable :: "model_error \<Rightarrow> bool" where
  "error_retryable (Auth_error b) = b"
| "error_retryable Invalid_request = False"
| "error_retryable Unknown_error = False"
| "error_retryable e = True"

fun error_retryAfter :: "model_error \<Rightarrow> number option" where
  "error_retryAfter (Rate_limit r) = r"
| "error_retryAfter (Overloaded r) = r"
| "error_retryAfter e = None"

record retry_options =
  ro_maxAttempts :: nat
  ro_baseDelayMs :: number
  ro_capDelayMs :: number

definition RETRY_DEFAULTS :: retry_options where
  "RETRY_DEFAULTS = \<lparr>ro_maxAttempts = 3, ro_baseDelayMs = 500, ro_capDelayMs = 15000\<rparr>"

text \<open>\<open>None\<close> surfaces the error, \<open>Some\<close> retries after a delay. The number drawn by \<open>random\<close> is an argument.\<close>

definition jitter :: "number \<Rightarrow> number" where
  "jitter random = rnd64 (rnd64 (8 / 10) + fmul random (rnd64 (4 / 10)))"

definition decide_retry :: "retry_options \<Rightarrow> number \<Rightarrow> model_error \<Rightarrow> nat \<Rightarrow> number option" where
  "decide_retry opts random err attempt =
     (if \<not> error_retryable err then None
      else if ro_maxAttempts opts \<le> attempt then None
      else if error_code err = ''PROMPT_TOO_LONG'' \<or> error_code err = ''MAX_OUTPUT'' then None
      else (case error_retryAfter err of
              Some ms \<Rightarrow> Some (max 0 (min (ro_capDelayMs opts) ms))
            | None \<Rightarrow>
                let exp = min (ro_capDelayMs opts) (fmul (ro_baseDelayMs opts) (2 ^ attempt))
                in Some (math_round (fmul exp (jitter random)))))"

subsection \<open>Blocks by index\<close>

text \<open>
  The reference: what a block is, read off the whole stream for one index at a time. The
  blocks of different indexes may be interleaved in any way.
\<close>

fun written_at :: "model_event \<Rightarrow> (number \<times> block_kind) option" where
  "written_at (Text_delta i t) = Some (i, Text_kind)"
| "written_at (Thinking_delta i t) = Some (i, Thinking_kind)"
| "written_at (Tool_call_start i tid name) = Some (i, Tool_call_kind)"
| "written_at (Tool_call_input_delta i j) = Some (i, Tool_call_kind)"
| "written_at e = None"

fun text_piece :: "number \<Rightarrow> model_event \<Rightarrow> string" where
  "text_piece i (Text_delta j t) = (if j = i then t else [])"
| "text_piece i (Thinking_delta j t) = (if j = i then t else [])"
| "text_piece i e = []"

fun input_piece :: "number \<Rightarrow> model_event \<Rightarrow> string" where
  "input_piece i (Tool_call_input_delta j t) = (if j = i then t else [])"
| "input_piece i e = []"

fun start_piece :: "number \<Rightarrow> model_event \<Rightarrow> (string \<times> string) list" where
  "start_piece i (Tool_call_start j tid name) = (if j = i then [(tid, name)] else [])"
| "start_piece i e = []"

definition written_kinds :: "model_event list \<Rightarrow> (number \<times> block_kind) list" where
  "written_kinds es = List.map_filter written_at es"

definition written_indexes :: "model_event list \<Rightarrow> number list" where
  "written_indexes es = js_uniq (map fst (written_kinds es))"

definition last_opt :: "'a list \<Rightarrow> 'a option" where
  "last_opt xs = (if xs = [] then None else Some (last xs))"

definition block_of :: "block_kind \<Rightarrow> model_event list \<Rightarrow> number \<Rightarrow> open_block" where
  "block_of k es i =
     \<lparr>opb_kind = k, opb_text = concat (map (text_piece i) es),
      opb_toolId = last_opt (map fst (concat (map (start_piece i) es))),
      opb_toolName = last_opt (map snd (concat (map (start_piece i) es))),
      opb_inputJson = concat (map (input_piece i) es), opb_closed = False\<rparr>"

definition reference_block :: "model_event list \<Rightarrow> number \<Rightarrow> open_block" where
  "reference_block es i = block_of (the (map_of (written_kinds es) i)) es i"

definition reopened_block :: "open_block \<Rightarrow> open_block" where
  "reopened_block b = b\<lparr>opb_closed := False\<rparr>"

definition reopened_pair :: "number \<times> open_block \<Rightarrow> number \<times> open_block" where
  "reopened_pair p = (fst p, reopened_block (snd p))"

definition blocks_by_index :: "model_event list \<Rightarrow> (number \<times> open_block) list \<Rightarrow> bool" where
  "blocks_by_index es bs \<longleftrightarrow> map reopened_pair bs = map (\<lambda>i. (i, reference_block es i)) (written_indexes es)"

lemma push_all_append: "push_all sa (es @ es') = bind_res (push_all sa es) (\<lambda>sa'. push_all sa' es')"
  by (induction es arbitrary: sa) (auto simp: bind_res_def split: sum.split)

lemma js_uniq_snoc: "js_uniq (xs @ [x]) = (if x \<in> set xs then js_uniq xs else js_uniq xs @ [x])"
  by (simp add: js_uniq_def)

lemma map_on_block:
  "(\<And>b. reopened_block (f b) = g (reopened_block b)) \<Longrightarrow> distinct (map fst bs) \<Longrightarrow>
   map reopened_pair (on_block i f bs) =
   map (\<lambda>p. if fst p = i then (i, g (snd p)) else p) (map reopened_pair bs)"
proof (induction bs)
  case (Cons p bs)
  show ?case
  proof (cases "fst p = i")
    case True
    have "i \<notin> set (map fst bs)" using Cons.prems(2) True by simp
    then have "\<forall>q \<in> set bs. fst q \<noteq> i" by force
    then show ?thesis using Cons.prems(1) True by (cases p) (auto simp: reopened_pair_def)
  next
    case False
    then show ?thesis using Cons by (cases p) (auto simp: reopened_pair_def)
  qed
qed simp

lemma on_block_keys [simp]: "map fst (on_block i f bs) = map fst bs"
  by (induction i f bs rule: on_block.induct) auto

lemma written_indexes_iff: "i \<in> set (written_indexes es) \<longleftrightarrow> (\<exists>e \<in> set es. \<exists>k. written_at e = Some (i, k))"
  by (force simp: written_indexes_def written_kinds_def List.map_filter_def image_iff split: option.splits)

lemma written_kinds_snoc:
  "written_kinds (es @ [e]) = written_kinds es @ (case written_at e of None \<Rightarrow> [] | Some p \<Rightarrow> [p])"
  by (auto simp: written_kinds_def List.map_filter_def split: option.split)

lemma written_indexes_snoc:
  "written_indexes (es @ [e]) =
     (case written_at e of None \<Rightarrow> written_indexes es
      | Some (i, k) \<Rightarrow> if i \<in> set (written_indexes es) then written_indexes es else written_indexes es @ [i])"
  by (auto simp: written_indexes_def written_kinds_snoc js_uniq_snoc split: option.split)

lemma block_of_elsewhere:
  "(\<forall>k. written_at e \<noteq> Some (i, k)) \<Longrightarrow> block_of K (es @ [e]) i = block_of K es i"
  by (cases e) (auto simp: block_of_def)

lemma block_of_fresh: "i \<notin> set (written_indexes es) \<Longrightarrow> block_of k es i = fresh_block k"
proof (induction es rule: rev_induct)
  case Nil
  then show ?case by (simp add: block_of_def fresh_block_def last_opt_def)
next
  case (snoc e es)
  then have "\<forall>k. written_at e \<noteq> Some (i, k)" "i \<notin> set (written_indexes es)"
    by (auto simp: written_indexes_iff)
  then show ?case using snoc.IH block_of_elsewhere by simp
qed

lemma kind_stays:
  "i \<in> set (written_indexes es) \<Longrightarrow> map_of (written_kinds (es @ [e])) i = map_of (written_kinds es) i"
proof -
  assume "i \<in> set (written_indexes es)"
  then have "map_of (written_kinds es) i \<noteq> None" by (simp add: written_indexes_def map_of_eq_None_iff)
  then show ?thesis by (auto simp: written_kinds_snoc map_add_def split: option.split)
qed

lemma write_step:
  assumes inv: "blocks_by_index es bs" and w: "written_at e = Some (i, k)"
    and f: "\<And>b. reopened_block (f b) = g (reopened_block b)"
    and g: "\<And>K. g (block_of K es i) = block_of K (es @ [e]) i"
  shows "blocks_by_index (es @ [e]) (on_block i f (open_at i k bs))"
proof -
  have keys: "map fst bs = written_indexes es"
    using arg_cong [OF inv [unfolded blocks_by_index_def], of "map fst"] by (simp add: comp_def reopened_pair_def)
  have mem: "i \<in> fst ` set bs \<longleftrightarrow> i \<in> set (written_indexes es)" using arg_cong [OF keys, of set] by simp
  have elsewhere: "reference_block (es @ [e]) j = reference_block es j" if "j \<in> set (written_indexes es)" "j \<noteq> i" for j
    using that w block_of_elsewhere [of e j] kind_stays [of j es e] by (simp add: reference_block_def)
  have dist: "distinct (map fst (open_at i k bs))"
  proof -
    have "distinct (map fst bs)" unfolding keys by (simp add: written_indexes_def)
    then show ?thesis by (simp add: open_at_def)
  qed
  note step = map_on_block [where f = f and g = g and i = i and bs = "open_at i k bs", OF f dist]
  show ?thesis
  proof (cases "i \<in> set (written_indexes es)")
    case True
    then have "open_at i k bs = bs" using mem by (simp add: open_at_def)
    moreover have "reference_block (es @ [e]) i = g (reference_block es i)"
      using True g kind_stays [of i es e] by (simp add: reference_block_def)
    ultimately show ?thesis
      using inv step elsewhere True w unfolding blocks_by_index_def by (auto simp: written_indexes_snoc)
  next
    case False
    then have "open_at i k bs = bs @ [(i, fresh_block k)]" using mem by (simp add: open_at_def)
    moreover have "map_of (written_kinds es) i = None"
      using False by (simp add: written_indexes_def map_of_eq_None_iff)
    then have "reference_block (es @ [e]) i = g (fresh_block k)"
      using g [of k] block_of_fresh [OF False, of k] w
      by (simp add: reference_block_def written_kinds_snoc map_add_def)
    moreover have "reopened_pair (i, fresh_block k) = (i, fresh_block k)" by (simp add: reopened_pair_def reopened_block_def fresh_block_def)
    ultimately show ?thesis
      using inv step elsewhere False w unfolding blocks_by_index_def by (auto simp: written_indexes_snoc)
  qed
qed

lemma content_reopened [simp]: "block_content (snd (reopened_pair p)) = block_content (snd p)"
  by (simp add: reopened_pair_def reopened_block_def block_content_def split: block_kind.split)

lemma push_blocks:
  "push_all new_assembler es = Inr sa \<Longrightarrow> blocks_by_index es (sa_blocks sa)"
proof (induction es arbitrary: sa rule: rev_induct)
  case Nil
  then show ?case by (auto simp: blocks_by_index_def new_assembler_def written_indexes_def written_kinds_def List.map_filter_def js_uniq_def)
next
  case (snoc e es)
  obtain sa1 where pre: "push_all new_assembler es = Inr sa1" and push: "push_event sa1 e = Inr sa"
    using snoc.prems by (auto simp: push_all_append bind_res_Inr_iff)
  note inv = snoc.IH [OF pre]
  have quiet: "blocks_by_index (es @ [e]) bs" if "written_at e = None" "blocks_by_index es bs" for bs
  proof -
    have "reference_block (es @ [e]) i = reference_block es i" for i
      using that(1) block_of_elsewhere [of e i] by (simp add: reference_block_def written_kinds_snoc)
    then show ?thesis using that by (simp add: blocks_by_index_def written_indexes_snoc)
  qed
  show ?case
  proof (cases e)
    case (Text_delta i t)
    show ?thesis
      using push write_step [OF inv, of e i Text_kind "\<lambda>b. b\<lparr>opb_text := opb_text b @ t\<rparr>" "\<lambda>b. b\<lparr>opb_text := opb_text b @ t\<rparr>"]
      by (auto simp: Text_delta push_event_def write_block_def reopened_block_def block_of_def split: if_splits)
  next
    case (Thinking_delta i t)
    show ?thesis
      using push write_step [OF inv, of e i Thinking_kind "\<lambda>b. b\<lparr>opb_text := opb_text b @ t\<rparr>" "\<lambda>b. b\<lparr>opb_text := opb_text b @ t\<rparr>"]
      by (auto simp: Thinking_delta push_event_def write_block_def reopened_block_def block_of_def split: if_splits)
  next
    case (Tool_call_start i tid name)
    show ?thesis
      using push write_step [OF inv, of e i Tool_call_kind "\<lambda>b. b\<lparr>opb_toolId := Some tid, opb_toolName := Some name\<rparr>"
          "\<lambda>b. b\<lparr>opb_toolId := Some tid, opb_toolName := Some name\<rparr>"]
      by (auto simp: Tool_call_start push_event_def write_block_def reopened_block_def block_of_def last_opt_def split: if_splits)
  next
    case (Tool_call_input_delta i t)
    show ?thesis
      using push write_step [OF inv, of e i Tool_call_kind "\<lambda>b. b\<lparr>opb_inputJson := opb_inputJson b @ t\<rparr>"
          "\<lambda>b. b\<lparr>opb_inputJson := opb_inputJson b @ t\<rparr>"]
      by (auto simp: Tool_call_input_delta push_event_def write_block_def reopened_block_def block_of_def split: if_splits)
  next
    case (Block_end i)
    have "map reopened_pair (on_block i (\<lambda>b. b\<lparr>opb_closed := True\<rparr>) bs) = map reopened_pair bs" for bs
      by (induction bs) (auto simp: reopened_pair_def reopened_block_def)
    then show ?thesis using push quiet inv by (auto simp: Block_end push_event_def blocks_by_index_def split: if_splits)
  qed (use push quiet inv in \<open>auto simp: push_event_def split: if_splits\<close>)
qed

text \<open>
  C28: a streamed message depends on each block alone. Whatever the interleaving of blocks in
  the stream, the assembled message has one block per index, in the order in which the indexes
  first appear: its kind is that of the first event for the index, its text the concatenation
  of the deltas for the index, its tool call the last one started there with the JSON of its
  concatenated input deltas.
\<close>

theorem assembly_is_by_index:
  assumes "assemble d es = Inr t"
  shows "msg_content (at_message t) = concat (map (\<lambda>i. block_content (reference_block es i)) (written_indexes es)) \<and>
    at_toolCallCount t = length (filter (\<lambda>b. is_Tool_call_block b) (msg_content (at_message t)))"
proof -
  obtain sa where sa: "push_all new_assembler es = Inr sa" and t: "finish_turn d sa = Inr t"
    using assms by (auto simp: assemble_def bind_res_Inr_iff)
  have by_index: "map reopened_pair (sa_blocks sa) = map (\<lambda>i. (i, reference_block es i)) (written_indexes es)"
    using push_blocks [OF sa] by (simp add: blocks_by_index_def)
  have content: "msg_content (at_message t) = concat (map (\<lambda>p. block_content (snd p)) (sa_blocks sa))"
    and count: "at_toolCallCount t = length (filter (\<lambda>p. opb_kind (snd p) = Tool_call_kind) (sa_blocks sa))"
    using t by (auto simp: finish_turn_def assembled_message_def split: if_splits)
  have "map (\<lambda>p. block_content (snd p)) (sa_blocks sa) = map (\<lambda>p. block_content (snd p)) (map reopened_pair (sa_blocks sa))"
    by (simp add: comp_def)
  then have "map (\<lambda>p. block_content (snd p)) (sa_blocks sa) = map (\<lambda>i. block_content (reference_block es i)) (written_indexes es)"
    unfolding by_index by (simp add: comp_def)
  moreover have "length (filter is_Tool_call_block (concat (map (\<lambda>p. block_content (snd p)) bs))) =
      length (filter (\<lambda>p. opb_kind (snd p) = Tool_call_kind) bs)" for bs :: "(number \<times> open_block) list"
    by (induction bs) (auto simp: block_content_def split: block_kind.splits)
  ultimately show ?thesis unfolding content count by metis
qed

text \<open>No two tool calls of a message share an id: a repeated id is refused while streaming.\<close>

definition block_ids :: "(number \<times> open_block) list \<Rightarrow> string list" where
  "block_ids bs = List.map_filter (\<lambda>p. opb_toolId (snd p)) bs"

definition ids_ok :: "assembler \<Rightarrow> bool" where
  "ids_ok sa \<longleftrightarrow> distinct (block_ids (sa_blocks sa)) \<and> set (block_ids (sa_blocks sa)) \<subseteq> set (sa_seenToolIds sa)"

lemma block_ids_same:
  "(\<And>b. opb_toolId (f b) = opb_toolId b) \<Longrightarrow> block_ids (on_block i f bs) = block_ids bs"
  by (induction i f bs rule: on_block.induct) (auto simp: block_ids_def List.map_filter_simps split: option.split)

lemma block_ids_open [simp]: "block_ids (open_at i k bs) = block_ids bs"
  by (simp add: open_at_def block_ids_def fresh_block_def List.map_filter_def)

lemma block_ids_started:
  assumes "\<And>b. opb_toolId (f b) = Some tid" "distinct (block_ids bs)" "tid \<notin> set (block_ids bs)"
  shows "distinct (block_ids (on_block i f bs)) \<and> set (block_ids (on_block i f bs)) \<subseteq> insert tid (set (block_ids bs))"
  using assms
  by (induction i f bs rule: on_block.induct)
    (auto simp: block_ids_def List.map_filter_simps split: option.splits)

lemma push_ids: "ids_ok sa \<Longrightarrow> push_event sa e = Inr sa' \<Longrightarrow> ids_ok sa'"
proof (cases e)
  case (Tool_call_start i tid name)
  assume "ids_ok sa" "push_event sa e = Inr sa'"
  moreover from this have "tid \<notin> set (block_ids (open_at i Tool_call_kind (sa_blocks sa)))"
    by (auto simp: ids_ok_def push_event_def Tool_call_start split: if_splits)
  ultimately show ?thesis
    using block_ids_started [of "\<lambda>b. b\<lparr>opb_toolId := Some tid, opb_toolName := Some name\<rparr>" tid
        "open_at i Tool_call_kind (sa_blocks sa)" i]
    by (clarsimp simp: ids_ok_def push_event_def Tool_call_start write_block_def split: if_splits) blast
qed (auto simp: ids_ok_def push_event_def write_block_def block_ids_same split: if_splits)

lemma push_all_ids: "ids_ok sa \<Longrightarrow> push_all sa es = Inr sa' \<Longrightarrow> ids_ok sa'"
  by (induction es arbitrary: sa) (auto simp: bind_res_Inr_iff dest: push_ids)

definition requested_ids :: "content_block list \<Rightarrow> string list" where
  "requested_ids bs = map tcb_id (filter is_Tool_call_block bs)"

lemma requested_ids_append [simp]: "requested_ids (xs @ ys) = requested_ids xs @ requested_ids ys"
  by (simp add: requested_ids_def)

lemma requested_of_blocks:
  "\<forall>p \<in> set bs. opb_kind (snd p) = Tool_call_kind \<longrightarrow> opb_toolId (snd p) \<noteq> None \<Longrightarrow>
   \<exists>zs. requested_ids (concat (map (\<lambda>p. block_content (snd p)) bs)) = zs \<and> subseq zs (block_ids bs)"
proof (induction bs)
  case (Cons p bs)
  have "requested_ids (block_content (snd p)) = [] \<or>
      (\<exists>tid. opb_toolId (snd p) = Some tid \<and> requested_ids (block_content (snd p)) = [tid])"
    using Cons.prems by (auto simp: block_content_def requested_ids_def or_else_def split: block_kind.splits)
  then show ?case using Cons by (auto simp: block_ids_def List.map_filter_simps split: option.split)
qed (simp add: requested_ids_def block_ids_def List.map_filter_simps)

lemma subseq_distinct: "subseq xs ys \<Longrightarrow> distinct ys \<Longrightarrow> distinct xs"
  by (induction pred: list_emb) (auto dest: list_emb_set)

text \<open>
  The tool calls of a streamed message have distinct ids, so that a batch is accepted as a
  whole: when each call of the stream was started by a start event, no two calls of the
  assembled message share an id.
\<close>

theorem assembled_calls_distinct:
  assumes "assemble d es = Inr t"
    "\<forall>i \<in> set (written_indexes es). opb_kind (reference_block es i) = Tool_call_kind \<longrightarrow> opb_toolId (reference_block es i) \<noteq> None"
  shows "distinct (requested_ids (msg_content (at_message t)))"
proof -
  obtain sa where sa: "push_all new_assembler es = Inr sa" and t: "finish_turn d sa = Inr t"
    using assms(1) by (auto simp: assemble_def bind_res_Inr_iff)
  have "ids_ok new_assembler" by (simp add: ids_ok_def new_assembler_def block_ids_def List.map_filter_simps)
  then have ids: "ids_ok sa" using push_all_ids sa by blast
  have by_index: "map reopened_pair (sa_blocks sa) = map (\<lambda>i. (i, reference_block es i)) (written_indexes es)"
    using push_blocks [OF sa] by (simp add: blocks_by_index_def)
  have "\<forall>q \<in> set (map reopened_pair (sa_blocks sa)). opb_kind (snd q) = Tool_call_kind \<longrightarrow> opb_toolId (snd q) \<noteq> None"
    unfolding by_index using assms(2) by simp
  then have "\<forall>p \<in> set (sa_blocks sa). opb_kind (snd p) = Tool_call_kind \<longrightarrow> opb_toolId (snd p) \<noteq> None"
    by (simp add: reopened_pair_def reopened_block_def)
  then have "subseq (requested_ids (concat (map (\<lambda>p. block_content (snd p)) (sa_blocks sa)))) (block_ids (sa_blocks sa))"
    using requested_of_blocks by blast
  then show ?thesis
    using ids t by (auto simp: ids_ok_def finish_turn_def assembled_message_def split: if_splits dest: subseq_distinct)
qed

subsection \<open>Retries are bounded\<close>

lemma math_round_le: "x \<le> of_int n \<Longrightarrow> math_round x \<le> of_int n"
  by (simp add: math_round_def floor_le_iff)

lemma math_round_nonneg: "0 \<le> x \<Longrightarrow> 0 \<le> math_round x"
  by (simp add: math_round_def)

lemma jitter_bounds:
  assumes "0 \<le> random" "random \<le> 1"
  shows "0 \<le> jitter random \<and> jitter random \<le> 2"
proof -
  have c: "0 \<le> rnd64 (8 / 10)" "rnd64 (8 / 10) \<le> 1" "0 \<le> rnd64 (4 / 10)" "rnd64 (4 / 10) \<le> 1"
    by (simp_all add: rnd64_nonneg rnd64_le_1)
  have m: "0 \<le> fmul random (rnd64 (4 / 10))" "fmul random (rnd64 (4 / 10)) \<le> 1"
    using assms c mult_mono [of random 1 "rnd64 (4 / 10)" 1]
    by (auto simp: fmul_def intro: rnd64_nonneg rnd64_le_1)
  have "rnd64 (rnd64 (8 / 10) + fmul random (rnd64 (4 / 10))) \<le> 2 ^ 1"
    using c m by (intro rnd64_le_power) auto
  then show ?thesis using c m by (simp add: jitter_def rnd64_nonneg)
qed

text \<open>
  No unbounded retry anywhere. A retry is decided only for a retryable error that has no
  recovery path of its own, while fewer than the maximum of retries were made, and the delay
  is never negative and at most twice the cap, whatever a server asks for.
\<close>

theorem retry_is_bounded:
  assumes "decide_retry opts random err attempt = Some delay" "0 \<le> random" "random \<le> 1"
    "0 \<le> ro_baseDelayMs opts" "ro_capDelayMs opts = of_int cap" "0 \<le> cap" "2 * cap < 2 ^ 53"
  shows "attempt < ro_maxAttempts opts \<and> error_retryable err \<and>
    error_code err \<notin> {''PROMPT_TOO_LONG'', ''MAX_OUTPUT''} \<and> 0 \<le> delay \<and> delay \<le> 2 * ro_capDelayMs opts"
proof -
  define e where "e = min (ro_capDelayMs opts) (fmul (ro_baseDelayMs opts) (2 ^ attempt))"
  have e: "0 \<le> e" "e \<le> of_int cap"
    using assms(4-6) by (auto simp: e_def fmul_def rnd64_nonneg)
  note j = jitter_bounds [OF assms(2, 3)]
  have "e * jitter random \<le> of_int cap * 2" using e j by (intro mult_mono) auto
  then have "fmul e (jitter random) \<le> of_int (2 * cap)"
    unfolding fmul_def using e j assms(7) by (intro rnd64_le_int) auto
  then have "math_round (fmul e (jitter random)) \<le> of_int (2 * cap)" by (rule math_round_le)
  moreover have "0 \<le> math_round (fmul e (jitter random))"
    using e j by (simp add: math_round_nonneg fmul_def rnd64_nonneg)
  moreover have "decide_retry opts random err attempt = Some delay \<Longrightarrow> error_retryAfter err = None \<Longrightarrow>
      delay = math_round (fmul e (jitter random))"
    by (simp add: decide_retry_def Let_def e_def split: if_splits)
  moreover have "error_retryAfter err = Some ms \<Longrightarrow> delay = max 0 (min (ro_capDelayMs opts) ms)" for ms
    using assms(1) by (simp add: decide_retry_def split: if_splits)
  moreover have "attempt < ro_maxAttempts opts \<and> error_retryable err \<and> error_code err \<notin> {''PROMPT_TOO_LONG'', ''MAX_OUTPUT''}"
    using assms(1) by (auto simp: decide_retry_def split: if_splits)
  ultimately show ?thesis
    using assms(1, 5, 6) by (cases "error_retryAfter err") (simp_all add: max_def min_def)
qed

subsection \<open>A concrete stream\<close>

text \<open>Two blocks whose events are interleaved; the input of the call comes in two pieces.\<close>

definition demo_stream :: "model_event list" where
  "demo_stream =
     [Message_start ''p'', Text_delta 0 ''a'', Tool_call_start 1 ''c1'' ''Read'', Tool_call_input_delta 1 ''[1,'',
      Text_delta 0 ''b'', Tool_call_input_delta 1 '' null]'', Block_end 0, Block_end 1, Message_end (Some ''tool_use'')]"

definition demo_deps :: assembler_deps where
  "demo_deps = \<lparr>sd_sessionId = ''s'', sd_turnId = ''t'', sd_parentId = None, sd_model = ''m'', sd_messageId = ''m1'', sd_now = ''now''\<rparr>"

definition demo_turn :: assembled_turn where
  "demo_turn = projr (assemble demo_deps demo_stream)"

lemma demo_assembled: "assemble demo_deps demo_stream = Inr demo_turn"
proof -
  have "\<exists>t. assemble demo_deps demo_stream = Inr t"
    by (simp add: assemble_def demo_stream_def new_assembler_def push_event_def finish_turn_def write_block_def open_at_def fresh_block_def)
  then show ?thesis by (auto simp: demo_turn_def)
qed

lemma demo_reference:
  "map (\<lambda>i. block_content (reference_block demo_stream i)) (written_indexes demo_stream) =
     [[Text_block ''ab''], [Tool_call_block ''c1'' ''Read'' (JArr [JNum 1, JNull])]]"
  by code_simp

lemma assembly_is_by_index_witness:
  "msg_content (at_message demo_turn) = [Text_block ''ab'', Tool_call_block ''c1'' ''Read'' (JArr [JNum 1, JNull])] \<and>
   at_toolCallCount demo_turn = 1"
  using assembly_is_by_index [OF demo_assembled] unfolding demo_reference by simp

lemma assembled_calls_distinct_witness:
  "distinct (requested_ids (msg_content (at_message demo_turn)))"
proof (rule assembled_calls_distinct [OF demo_assembled])
  show "\<forall>i \<in> set (written_indexes demo_stream). opb_kind (reference_block demo_stream i) = Tool_call_kind \<longrightarrow>
      opb_toolId (reference_block demo_stream i) \<noteq> None"
    by code_simp
qed

lemma demo_retry: "decide_retry RETRY_DEFAULTS 1 (Rate_limit (Some 999999)) 2 = Some 15000"
  by code_simp

lemma retry_is_bounded_witness:
  "2 < ro_maxAttempts RETRY_DEFAULTS \<and> error_retryable (Rate_limit (Some 999999)) \<and>
   error_code (Rate_limit (Some 999999)) \<notin> {''PROMPT_TOO_LONG'', ''MAX_OUTPUT''} \<and> (0::number) \<le> 15000 \<and>
   15000 \<le> 2 * ro_capDelayMs RETRY_DEFAULTS"
  by (rule retry_is_bounded [OF demo_retry, of 15000]) (simp_all add: RETRY_DEFAULTS_def)

end
