(* ===== verification/ToolOutput.thy ===== *)
theory ToolOutput
  imports ToolRuntime "HOL-Library.Sublist"
begin

text \<open>
  Tool output: the store that externalizes large results (tools/ToolOutputStore.ts) and the
  throttle of live progress (tools/toolProgress.ts). Files are a map from paths to texts,
  whether a write succeeds and the redaction of secrets are parameters, the artifact directory
  is absolute. Sizes are natural numbers.
\<close>

subsection \<open>Rendering\<close>

text \<open>\<open>JSON.stringify(value, null, 2)\<close>\<close>

definition newline_indent :: "nat \<Rightarrow> string" where
  "newline_indent n = CHR 0x0A # replicate n (CHR '' '')"

fun json_pretty :: "nat \<Rightarrow> json \<Rightarrow> string" where
  "json_pretty n (JArr xs) =
     (if xs = [] then ''[]''
      else ''['' @ js_join '','' (map (\<lambda>x. newline_indent (n + 2) @ json_pretty (n + 2) x) xs) @ newline_indent n @ '']'')"
| "json_pretty n (JObj kvs) =
     (if kvs = [] then ''{}''
      else ''{'' @ js_join '','' (map (\<lambda>(k, x). newline_indent (n + 2) @ json_quote k @ '': '' @ json_pretty (n + 2) x) kvs) @
           newline_indent n @ ''}'')"
| "json_pretty n v = json_stringify v"

fun renderText :: "tool_result_content \<Rightarrow> string" where
  "renderText (Text_content t) = t"
| "renderText (Json_content v) = json_pretty 0 v"
| "renderText (Externalized i path chars sha previewHead previewTail) =
     js_join [CHR 0x0A]
       [''Output is '' @ show_num chars @ '' characters and was stored at:'', path, [], ''Preview (head):'', previewHead, [],
        ''Preview (tail):'', previewTail, [], ''Use Read with offset/limit to inspect the complete output.'', ''sha256: '' @ sha]"

definition renderModelToolResult :: "tool_result_content \<Rightarrow> tool_observation option \<Rightarrow> string" where
  "renderModelToolResult content obs =
     (case obs of
        None \<Rightarrow> renderText content
      | Some ob \<Rightarrow> json_stringify (JObj [(''observation'', observation_json ob), (''output'', JStr (renderText content))]))"

subsection \<open>The output store\<close>

record output_store =
  os_frozen :: "tool_result_content jsobj"
  os_files :: "string jsobj"

definition file_char :: "char \<Rightarrow> bool" where
  "file_char c \<longleftrightarrow> (let n = (of_char c :: nat)
     in (97 \<le> n \<and> n \<le> 122) \<or> (65 \<le> n \<and> n \<le> 90) \<or> (48 \<le> n \<and> n \<le> 57) \<or> n = 95 \<or> n = 45)"

definition sanitizeFileName :: "string \<Rightarrow> string" where
  "sanitizeFileName name = map (\<lambda>c. if file_char c then c else CHR ''_'') name"

definition artifact_path :: "string \<Rightarrow> string \<Rightarrow> string" where
  "artifact_path dir callId =
     abs_text (norm_segments [] (path_segments dir @ [''tool-results'', sanitizeFileName callId @ ''.txt'']))"

definition externalized :: "host \<Rightarrow> string \<Rightarrow> string \<Rightarrow> nat \<Rightarrow> string \<Rightarrow> tool_result_content" where
  "externalized H dir callId maxChars redacted =
     (let n = max 200 (maxChars div 4)
      in Externalized callId (artifact_path dir callId) (of_nat (length redacted)) (h_sha256 H redacted)
           (take n redacted) (slice_last n redacted))"

definition bound_output ::
    "host \<Rightarrow> (string \<Rightarrow> string) \<Rightarrow> string \<Rightarrow> bool \<Rightarrow> string \<Rightarrow> nat \<Rightarrow> tool_result_content \<Rightarrow> output_store \<Rightarrow>
     (tool_exception + tool_result_content) \<times> output_store" where
  "bound_output H redact dir written callId maxChars content st =
     (case obj_get (os_frozen st) callId of
        Some c \<Rightarrow> (Inr c, st)
      | None \<Rightarrow>
          let text = renderText content
          in if length text \<le> maxChars then (Inr content, st\<lparr>os_frozen := obj_set (os_frozen st) callId content\<rparr>)
             else if \<not> written then (Inl Other_error, st)
             else let redacted = redact text; ext = externalized H dir callId maxChars redacted
                  in (Inr ext, st\<lparr>os_frozen := obj_set (os_frozen st) callId ext,
                                  os_files := obj_set (os_files st) (artifact_path dir callId) redacted\<rparr>))"

definition restoreFrozen :: "string \<Rightarrow> tool_result_content \<Rightarrow> output_store \<Rightarrow> output_store" where
  "restoreFrozen callId content st = st\<lparr>os_frozen := obj_set (os_frozen st) callId content\<rparr>"

text \<open>A session of the store, without resumption.\<close>

record bound_op =
  bo_callId :: string
  bo_maxChars :: nat
  bo_content :: tool_result_content
  bo_written :: bool

definition bound_step :: "host \<Rightarrow> (string \<Rightarrow> string) \<Rightarrow> string \<Rightarrow> bound_op \<Rightarrow> output_store \<Rightarrow> output_store" where
  "bound_step H redact dir p st = snd (bound_output H redact dir (bo_written p) (bo_callId p) (bo_maxChars p) (bo_content p) st)"

definition empty_outputs :: output_store where
  "empty_outputs = \<lparr>os_frozen = [], os_files = []\<rparr>"

text \<open>A reference holds when the file it names has the text it describes.\<close>

definition reference_holds :: "host \<Rightarrow> output_store \<Rightarrow> tool_result_content \<Rightarrow> bool" where
  "reference_holds H st c \<longleftrightarrow>
     (case c of
        Externalized i path chars sha ph pt \<Rightarrow>
          (\<exists>text. obj_get (os_files st) path = Some text \<and> chars = of_nat (length text) \<and> sha = h_sha256 H text \<and>
             prefix ph text \<and> suffix pt text)
      | _ \<Rightarrow> True)"

definition plain_output :: "tool_result_content \<Rightarrow> bool" where
  "plain_output c \<longleftrightarrow> (case c of Externalized i path chars sha ph pt \<Rightarrow> False | _ \<Rightarrow> True)"

definition outputs_ok :: "host \<Rightarrow> string \<Rightarrow> string set \<Rightarrow> output_store \<Rightarrow> bool" where
  "outputs_ok H dir ids st \<longleftrightarrow>
     (\<forall>k c. obj_get (os_frozen st) k = Some c \<longrightarrow> k \<in> ids \<and> reference_holds H st c \<and>
        (\<forall>i path chars sha ph pt. c = Externalized i path chars sha ph pt \<longrightarrow> i = k \<and> path = artifact_path dir k))"

lemma slice_last_suffix: "suffix (slice_last n xs) xs"
  by (simp add: slice_last_def suffix_drop)

lemma norm_segments_same:
  "norm_segments [] (xs @ [a, b @ ''.txt'']) = norm_segments [] (xs @ [a, c @ ''.txt'']) \<Longrightarrow>
   a = ''tool-results'' \<Longrightarrow> b = c"
proof -
  have run: "norm_segments st (xs @ ys) = norm_segments (rev (norm_segments st xs)) ys" for st ys
    by (induction st xs rule: norm_segments.induct) auto
  have plain: "d @ ''.txt'' \<noteq> ''.'' \<and> d @ ''.txt'' \<noteq> ''..''" for d :: string
    by (cases d) auto
  assume "norm_segments [] (xs @ [a, b @ ''.txt'']) = norm_segments [] (xs @ [a, c @ ''.txt''])" "a = ''tool-results''"
  then show "b = c" unfolding run using plain [of b] plain [of c] by simp
qed

lemma artifact_path_inj: "artifact_path dir a = artifact_path dir b \<Longrightarrow> sanitizeFileName a = sanitizeFileName b"
proof -
  define S where "S = (\<lambda>k. norm_segments [] (path_segments dir @ [''tool-results'', sanitizeFileName k @ ''.txt'']))"
  assume "artifact_path dir a = artifact_path dir b"
  then have "abs_text (S a) = abs_text (S b)" by (simp add: artifact_path_def S_def)
  moreover have "list_all plain_segment (S k)" for k
  proof -
    have "CHR ''/'' \<notin> set (sanitizeFileName k @ ''.txt'')"
      by (auto simp: sanitizeFileName_def file_char_def Let_def)
    then have "list_all plain_segment (path_segments dir @ [''tool-results'', sanitizeFileName k @ ''.txt''])"
      by (simp add: plain_segment_def)
    then show ?thesis unfolding S_def using norm_segments_clean [of "[]"] clean_plain by simp
  qed
  ultimately have "S a = S b" by (metis path_segments_abs)
  then show ?thesis unfolding S_def using norm_segments_same by blast
qed

lemma bound_outputs_ok:
  assumes "outputs_ok H dir ids st" "bo_callId p \<in> ids" "inj_on sanitizeFileName ids" "plain_output (bo_content p)"
  shows "outputs_ok H dir ids (bound_step H redact dir p st)"
proof (cases "obj_get (os_frozen st) (bo_callId p)")
  case (Some c)
  then show ?thesis using assms(1) by (simp add: bound_step_def bound_output_def)
next
  case new: None
  define body where "body = renderText (bo_content p)"
  show ?thesis
  proof (cases "length body \<le> bo_maxChars p \<or> \<not> bo_written p")
    case True
    have "reference_holds H (st\<lparr>os_frozen := F\<rparr>) c = reference_holds H st c" for F c
      by (simp add: reference_holds_def split: tool_result_content.split)
    moreover have "reference_holds H st (bo_content p)" "\<not> (\<exists>i path chars sha ph pt. bo_content p = Externalized i path chars sha ph pt)"
      using assms(4) by (auto simp: plain_output_def reference_holds_def split: tool_result_content.splits)
    ultimately show ?thesis
      using assms(1, 2) new True by (auto simp: bound_step_def bound_output_def outputs_ok_def Let_def simp flip: body_def)
  next
    case False
    define ext where "ext = externalized H dir (bo_callId p) (bo_maxChars p) (redact body)"
    define st' where "st' = st\<lparr>os_frozen := obj_set (os_frozen st) (bo_callId p) ext,
      os_files := obj_set (os_files st) (artifact_path dir (bo_callId p)) (redact body)\<rparr>"
    have step: "bound_step H redact dir p st = st'"
      using new False by (simp add: bound_step_def bound_output_def Let_def st'_def ext_def flip: body_def)
    have here: "reference_holds H st' ext"
      by (simp add: reference_holds_def ext_def externalized_def Let_def st'_def take_is_prefix slice_last_suffix)
    have there: "reference_holds H st' c" if c: "obj_get (os_frozen st) k = Some c" for k c
    proof (cases c)
      case (Externalized i path chars sha ph pt)
      have k: "k \<in> ids" "path = artifact_path dir k" "reference_holds H st c" 
        using assms(1) c unfolding outputs_ok_def Externalized by blast+
      have "path \<noteq> artifact_path dir (bo_callId p)"
      proof
        assume "path = artifact_path dir (bo_callId p)"
        then have "sanitizeFileName k = sanitizeFileName (bo_callId p)" using k(2) artifact_path_inj by metis
        then have "k = bo_callId p" using inj_onD [OF assms(3)] k(1) assms(2) by blast
        then show False using c new by simp
      qed
      then show ?thesis using k(3) by (simp add: reference_holds_def Externalized st'_def)
    qed (simp_all add: reference_holds_def)
    show ?thesis
      unfolding step outputs_ok_def
      using assms(1, 2) here there
      by (auto simp: st'_def ext_def externalized_def Let_def outputs_ok_def)
  qed
qed

lemma bound_step_keeps:
  "obj_get (os_frozen st) k = Some c \<Longrightarrow> obj_get (os_frozen (bound_step H redact dir p st)) k = Some c"
  by (auto simp: bound_step_def bound_output_def Let_def split: option.split)

text \<open>
  An externalized result never points at the wrong text. In any session of the store
  whose call ids stay distinct as file names, every reference it handed out keeps naming a
  file with exactly the text it describes: its length, its hash, and the previews of its head
  and tail; and what was handed out for a call is handed out for ever.
\<close>

theorem artifacts_match_references:
  assumes "inj_on sanitizeFileName (bo_callId ` set ps)" "\<forall>p \<in> set ps. plain_output (bo_content p)"
    "obj_get (os_frozen (fold (bound_step H redact dir) (take n ps) empty_outputs)) k = Some c"
  shows "obj_get (os_frozen (fold (bound_step H redact dir) ps empty_outputs)) k = Some c \<and>
    reference_holds H (fold (bound_step H redact dir) ps empty_outputs) c"
proof -
  have run: "outputs_ok H dir ids st \<Longrightarrow> bo_callId ` set qs \<subseteq> ids \<Longrightarrow> inj_on sanitizeFileName ids \<Longrightarrow>
      \<forall>p \<in> set qs. plain_output (bo_content p) \<Longrightarrow> outputs_ok H dir ids (fold (bound_step H redact dir) qs st)" for qs ids st
    by (induction qs arbitrary: st) (auto intro: bound_outputs_ok)
  have frozen: "obj_get (os_frozen st) k = Some c \<Longrightarrow> obj_get (os_frozen (fold (bound_step H redact dir) qs st)) k = Some c" for qs st
    by (induction qs arbitrary: st) (auto intro: bound_step_keeps)
  have "outputs_ok H dir (bo_callId ` set ps) empty_outputs"
    by (simp add: outputs_ok_def empty_outputs_def obj_get_def)
  then have ok: "outputs_ok H dir (bo_callId ` set ps) (fold (bound_step H redact dir) ps empty_outputs)"
    using run assms(1, 2) by blast
  have "fold (bound_step H redact dir) ps empty_outputs =
      fold (bound_step H redact dir) (drop n ps) (fold (bound_step H redact dir) (take n ps) empty_outputs)"
    by (metis append_take_drop_id comp_apply fold_append)
  then have "obj_get (os_frozen (fold (bound_step H redact dir) ps empty_outputs)) k = Some c"
    using frozen assms(3) by simp
  then show ?thesis using ok by (auto simp: outputs_ok_def)
qed

text \<open>Without the condition on the names a later call overwrites the file of an earlier one.\<close>

lemma file_names_collide: "sanitizeFileName ''call.1'' = sanitizeFileName ''call:1''"
  by code_simp

subsection \<open>Live progress\<close>

datatype progress_stream = Stdout | Stderr

datatype progress_event = Progress_text progress_stream string | Progress_dropped nat

record progress_limits =
  pl_minIntervalMs :: number
  pl_mergeChars :: nat
  pl_maxCharsPerCall :: nat

definition DEFAULT_PROGRESS_LIMITS :: progress_limits where
  "DEFAULT_PROGRESS_LIMITS = \<lparr>pl_minIntervalMs = 50, pl_mergeChars = 256, pl_maxCharsPerCall = 20000\<rparr>"

text \<open>\<open>lastEmitAt\<close> is \<open>None\<close> for minus infinity; what \<open>emit\<close> was given is kept in order.\<close>

record throttle =
  th_stdout :: string
  th_stderr :: string
  th_lastEmitAt :: "number option"
  th_emittedChars :: nat
  th_dropped :: nat
  th_emitted :: "progress_event list"

definition new_throttle :: throttle where
  "new_throttle = \<lparr>th_stdout = [], th_stderr = [], th_lastEmitAt = None, th_emittedChars = 0, th_dropped = 0, th_emitted = []\<rparr>"

definition th_pending :: "progress_stream \<Rightarrow> throttle \<Rightarrow> string" where
  "th_pending s t = (case s of Stdout \<Rightarrow> th_stdout t | Stderr \<Rightarrow> th_stderr t)"

definition set_pending :: "progress_stream \<Rightarrow> string \<Rightarrow> throttle \<Rightarrow> throttle" where
  "set_pending s text t = (case s of Stdout \<Rightarrow> t\<lparr>th_stdout := text\<rparr> | Stderr \<Rightarrow> t\<lparr>th_stderr := text\<rparr>)"

definition emit_stream :: "progress_stream \<Rightarrow> throttle \<Rightarrow> throttle" where
  "emit_stream s t =
     (let text = th_pending s t
      in if text = [] then t
         else (set_pending s [] t)\<lparr>th_emittedChars := th_emittedChars t + length text,
                                  th_emitted := th_emitted t @ [Progress_text s text]\<rparr>)"

definition maybeEmit :: "progress_limits \<Rightarrow> bool \<Rightarrow> number \<Rightarrow> throttle \<Rightarrow> throttle" where
  "maybeEmit lims force now t =
     (let buffered = length (th_stdout t) + length (th_stderr t);
          intervalOk = (case th_lastEmitAt t of None \<Rightarrow> True | Some l \<Rightarrow> pl_minIntervalMs lims \<le> now - l)
      in if buffered = 0 then t
         else if \<not> force \<and> (\<not> intervalOk \<or> buffered < pl_mergeChars lims) then t
         else (emit_stream Stderr (emit_stream Stdout t))\<lparr>th_lastEmitAt := Some now\<rparr>)"

definition push_progress :: "progress_limits \<Rightarrow> number \<Rightarrow> progress_stream \<Rightarrow> string \<Rightarrow> throttle \<Rightarrow> throttle" where
  "push_progress lims now s text t =
     (let room = int (pl_maxCharsPerCall lims) - int (th_emittedChars t) - int (length (th_pending s t))
      in if room \<le> 0 then t\<lparr>th_dropped := th_dropped t + length text\<rparr>
         else let kept = take (nat room) text
              in maybeEmit lims False now
                   (set_pending s (th_pending s t @ kept) (t\<lparr>th_dropped := th_dropped t + (length text - length kept)\<rparr>)))"

definition flush_progress :: "progress_limits \<Rightarrow> number \<Rightarrow> throttle \<Rightarrow> throttle" where
  "flush_progress lims now t =
     (let t' = maybeEmit lims True now t
      in if th_dropped t' = 0 then t'
         else t'\<lparr>th_dropped := 0, th_emitted := th_emitted t' @ [Progress_dropped (th_dropped t')]\<rparr>)"

definition emitted_text :: "progress_stream \<Rightarrow> progress_event list \<Rightarrow> string" where
  "emitted_text s es = concat (map (\<lambda>e. case e of Progress_text r x \<Rightarrow> if r = s then x else [] | Progress_dropped n \<Rightarrow> []) es)"

definition shown :: "progress_stream \<Rightarrow> throttle \<Rightarrow> string" where
  "shown s t = emitted_text s (th_emitted t) @ th_pending s t"

definition emitted_length :: "throttle \<Rightarrow> nat" where
  "emitted_length t = length (emitted_text Stdout (th_emitted t)) + length (emitted_text Stderr (th_emitted t))"

text \<open>
  The invariant, with what was pushed on each stream so far: what is shown is a prefix of it,
  a stream that lost text is full, and nothing but the lost text is missing.
\<close>

definition throttle_ok :: "progress_limits \<Rightarrow> (progress_stream \<Rightarrow> string) \<Rightarrow> throttle \<Rightarrow> bool" where
  "throttle_ok lims pushed t \<longleftrightarrow>
     emitted_length t = th_emittedChars t \<and>
     (\<forall>s. prefix (shown s t) (pushed s)) \<and>
     (\<forall>s. shown s t \<noteq> pushed s \<longrightarrow> pl_maxCharsPerCall lims \<le> th_emittedChars t + length (th_pending s t)) \<and>
     ((\<forall>s. th_emittedChars t + length (th_pending s t) \<le> pl_maxCharsPerCall lims) \<or>
      ((\<forall>s. th_pending s t = []) \<and> th_emittedChars t \<le> 2 * pl_maxCharsPerCall lims)) \<and>
     th_dropped t + length (shown Stdout t) + length (shown Stderr t) = length (pushed Stdout) + length (pushed Stderr)"

lemma emitted_text_append [simp]: "emitted_text s (es @ es') = emitted_text s es @ emitted_text s es'"
  by (simp add: emitted_text_def)

lemma emitted_text_one [simp]:
  "emitted_text s [Progress_text r x] = (if r = s then x else [])" "emitted_text s [Progress_dropped n] = []"
  by (simp_all add: emitted_text_def)

lemma all_streams: "(\<forall>s. P s) \<longleftrightarrow> P Stdout \<and> P Stderr"
  by (metis progress_stream.exhaust)

lemma emit_stream_effect:
  "shown r (emit_stream s t) = shown r t" "th_dropped (emit_stream s t) = th_dropped t"
  "th_pending r (emit_stream s t) = (if r = s then [] else th_pending r t)"
  "th_emittedChars (emit_stream s t) = th_emittedChars t + length (th_pending s t)"
  "emitted_length t = th_emittedChars t \<Longrightarrow> emitted_length (emit_stream s t) = th_emittedChars (emit_stream s t)"
  by (cases s; cases r; auto simp: emit_stream_def Let_def shown_def th_pending_def set_pending_def emitted_length_def)+

lemma maybeEmit_effect:
  "maybeEmit lims force now t = t \<or>
   (\<exists>t'. maybeEmit lims force now t = t'\<lparr>th_lastEmitAt := Some now\<rparr> \<and> t' = emit_stream Stderr (emit_stream Stdout t))"
  by (auto simp: maybeEmit_def Let_def)

lemma set_lastEmit [simp]:
  "shown s (t\<lparr>th_lastEmitAt := x\<rparr>) = shown s t" "th_pending s (t\<lparr>th_lastEmitAt := x\<rparr>) = th_pending s t"
  "emitted_length (t\<lparr>th_lastEmitAt := x\<rparr>) = emitted_length t"
  by (simp_all add: shown_def th_pending_def emitted_length_def split: progress_stream.split)

lemma maybeEmit_ok:
  assumes "throttle_ok lims pushed t"
  shows "throttle_ok lims pushed (maybeEmit lims force now t)"
proof -
  define t' where "t' = emit_stream Stderr (emit_stream Stdout t)"
  have chars: "emitted_length t = th_emittedChars t" using assms unfolding throttle_ok_def by blast
  have e: "shown s t' = shown s t" "th_dropped t' = th_dropped t" "th_pending s t' = []"
    "th_emittedChars t' = th_emittedChars t + length (th_pending Stdout t) + length (th_pending Stderr t)"
    "emitted_length t' = th_emittedChars t'" for s
    using chars by (cases s; simp add: t'_def emit_stream_effect(1-4); fail | simp add: t'_def emit_stream_effect(5))+
  have grows: "th_emittedChars t + length (th_pending s t) \<le> th_emittedChars t'" for s
    by (cases s) (simp_all add: e(4))
  have full: "shown s t' \<noteq> pushed s \<longrightarrow> pl_maxCharsPerCall lims \<le> th_emittedChars t' + length (th_pending s t')" for s
  proof -
    have "shown s t \<noteq> pushed s \<longrightarrow> pl_maxCharsPerCall lims \<le> th_emittedChars t + length (th_pending s t)"
      using assms unfolding throttle_ok_def by (elim conjE) (erule spec)
    then show ?thesis using grows [of s] unfolding e(1, 3) by auto
  qed
  have "th_emittedChars t' \<le> 2 * pl_maxCharsPerCall lims"
  proof -
    have "(\<forall>s. th_emittedChars t + length (th_pending s t) \<le> pl_maxCharsPerCall lims) \<or>
        ((\<forall>s. th_pending s t = []) \<and> th_emittedChars t \<le> 2 * pl_maxCharsPerCall lims)"
      using assms unfolding throttle_ok_def by (elim conjE)
    then show ?thesis unfolding e(4) all_streams by auto
  qed
  then have "throttle_ok lims pushed t'"
    using assms full e(5) unfolding throttle_ok_def e(1-3) by (elim conjE) (intro conjI; simp)
  then have "throttle_ok lims pushed (t'\<lparr>th_lastEmitAt := Some now\<rparr>)" by (simp add: throttle_ok_def)
  then show ?thesis using maybeEmit_effect [of lims force now t] assms t'_def by auto
qed

lemma shown_pending [simp]:
  "shown r (set_pending s (th_pending s t @ x) t) = (if r = s then shown r t @ x else shown r t)"
  "th_pending r (set_pending s x t) = (if r = s then x else th_pending r t)"
  "th_emittedChars (set_pending s x t) = th_emittedChars t" "th_dropped (set_pending s x t) = th_dropped t"
  "emitted_length (set_pending s x t) = emitted_length t"
  by (cases r; cases s; simp add: shown_def set_pending_def th_pending_def emitted_length_def)+

lemma set_dropped [simp]:
  "shown s (t\<lparr>th_dropped := n\<rparr>) = shown s t" "th_pending s (t\<lparr>th_dropped := n\<rparr>) = th_pending s t"
  "emitted_length (t\<lparr>th_dropped := n\<rparr>) = emitted_length t"
  by (simp_all add: shown_def th_pending_def emitted_length_def split: progress_stream.split)

lemma prefix_take_append: "prefix xs ys \<Longrightarrow> xs = ys \<or> n = 0 \<Longrightarrow> prefix (xs @ take n zs) (ys @ zs)"
  by (auto simp: take_is_prefix)

lemma push_progress_ok:
  assumes ok: "throttle_ok lims pushed t"
  shows "throttle_ok lims (pushed(s := pushed s @ x)) (push_progress lims now s x t)"
proof -
  define room where "room = int (pl_maxCharsPerCall lims) - int (th_emittedChars t) - int (length (th_pending s t))"
  note parts = ok [unfolded throttle_ok_def]
  have len: "length (pushed Stdout @ (if s = Stdout then x else [])) + length (pushed Stderr @ (if s = Stderr then x else [])) =
      length (pushed Stdout) + length (pushed Stderr) + length x"
    by (cases s) simp_all
  have whole: "shown r t = pushed r" if "th_emittedChars t + length (th_pending r t) < pl_maxCharsPerCall lims" for r
    using parts that by (meson not_le)
  show ?thesis
  proof (cases "room \<le> 0")
    case True
    have "throttle_ok lims (pushed(s := pushed s @ x)) (t\<lparr>th_dropped := th_dropped t + length x\<rparr>)"
      unfolding throttle_ok_def
    proof (intro conjI allI impI)
      fix r show "prefix (shown r (t\<lparr>th_dropped := th_dropped t + length x\<rparr>)) ((pushed(s := pushed s @ x)) r)"
        using parts by (auto intro: prefix_order.trans)
    next
      fix r assume "shown r (t\<lparr>th_dropped := th_dropped t + length x\<rparr>) \<noteq> (pushed(s := pushed s @ x)) r"
      then show "pl_maxCharsPerCall lims \<le> th_emittedChars (t\<lparr>th_dropped := th_dropped t + length x\<rparr>) +
          length (th_pending r (t\<lparr>th_dropped := th_dropped t + length x\<rparr>))"
        using whole [of r] True by (cases "r = s") (auto simp: room_def not_less [symmetric])
    qed (use parts len in \<open>auto split: if_splits\<close>)
    then show ?thesis using True by (simp add: push_progress_def Let_def flip: room_def)
  next
    case False
    then have mine: "shown s t = pushed s" using whole [of s] by (simp add: room_def)
    define t2 where "t2 = set_pending s (th_pending s t @ take (nat room) x)
      (t\<lparr>th_dropped := th_dropped t + (length x - length (take (nat room) x))\<rparr>)"
    have t2: "shown r t2 = (if r = s then shown r t @ take (nat room) x else shown r t)"
      "th_pending r t2 = (if r = s then th_pending s t @ take (nat room) x else th_pending r t)"
      "th_emittedChars t2 = th_emittedChars t" "emitted_length t2 = emitted_length t"
      "th_dropped t2 = th_dropped t + (length x - length (take (nat room) x))" for r
      using shown_pending(1) [of r s "t\<lparr>th_dropped := th_dropped t + (length x - length (take (nat room) x))\<rparr>"]
      by (simp_all add: t2_def)
    have fits: "th_emittedChars t + length (th_pending r t2) \<le> pl_maxCharsPerCall lims" for r
      using parts False by (cases "r = s") (auto simp: t2 room_def)
    have "throttle_ok lims (pushed(s := pushed s @ x)) t2"
      unfolding throttle_ok_def
    proof (intro conjI allI impI)
      fix r show "prefix (shown r t2) ((pushed(s := pushed s @ x)) r)"
        using parts mine by (simp add: t2 take_is_prefix)
    next
      fix r assume "shown r t2 \<noteq> (pushed(s := pushed s @ x)) r"
      then show "pl_maxCharsPerCall lims \<le> th_emittedChars t2 + length (th_pending r t2)"
        using whole [of r] mine False by (cases "r = s") (auto simp: t2 room_def not_less [symmetric])
    next
      show "th_dropped t2 + length (shown Stdout t2) + length (shown Stderr t2) =
          length ((pushed(s := pushed s @ x)) Stdout) + length ((pushed(s := pushed s @ x)) Stderr)"
        using parts by (cases s) (auto simp: t2)
    qed (use parts fits in \<open>simp_all add: t2(3, 4)\<close>)
    then have "throttle_ok lims (pushed(s := pushed s @ x)) (maybeEmit lims False now t2)" by (rule maybeEmit_ok)
    then show ?thesis using False by (simp add: push_progress_def Let_def t2_def flip: room_def)
  qed
qed

type_synonym chunk = "number \<times> progress_stream \<times> string"

definition push_chunks :: "progress_limits \<Rightarrow> chunk list \<Rightarrow> throttle" where
  "push_chunks lims cs = fold (\<lambda>(now, s, x). push_progress lims now s x) cs new_throttle"

definition pushed_text :: "chunk list \<Rightarrow> progress_stream \<Rightarrow> string" where
  "pushed_text cs s = concat (map (\<lambda>(now, r, x). if r = s then x else []) cs)"

definition reported_drops :: "progress_event list \<Rightarrow> nat" where
  "reported_drops es = sum_list (map (\<lambda>e. case e of Progress_text r x \<Rightarrow> 0 | Progress_dropped n \<Rightarrow> n) es)"

lemma reported_drops_append [simp]: "reported_drops (es @ es') = reported_drops es + reported_drops es'"
  by (simp add: reported_drops_def)

lemma maybeEmit_silent:
  "reported_drops (th_emitted t) = 0 \<Longrightarrow> reported_drops (th_emitted (maybeEmit lims force now t)) = 0"
  by (auto simp: maybeEmit_def emit_stream_def set_pending_def Let_def reported_drops_def split: progress_stream.split)

lemma push_chunks_ok:
  "throttle_ok lims (pushed_text cs) (push_chunks lims cs) \<and> reported_drops (th_emitted (push_chunks lims cs)) = 0"
proof (induction cs rule: rev_induct)
  case Nil
  then show ?case
    by (simp add: throttle_ok_def push_chunks_def new_throttle_def pushed_text_def emitted_length_def emitted_text_def shown_def
        th_pending_def reported_drops_def split: progress_stream.split)
next
  case (snoc c cs)
  obtain now s x where c: "c = (now, s, x)" by (cases c)
  have "pushed_text (cs @ [c]) = (pushed_text cs)(s := pushed_text cs s @ x)"
    by (auto simp: pushed_text_def c)
  moreover have "push_chunks lims (cs @ [c]) = push_progress lims now s x (push_chunks lims cs)"
    by (simp add: push_chunks_def c)
  moreover have "reported_drops (th_emitted (push_progress lims now s x (push_chunks lims cs))) = 0"
    using snoc.IH by (auto simp: push_progress_def Let_def set_pending_def intro!: maybeEmit_silent split: progress_stream.split)
  ultimately show ?case using push_progress_ok snoc.IH by metis
qed

lemma flushed_pending: "th_pending s (maybeEmit lims True now t) = []"
  by (cases s) (auto simp: maybeEmit_def Let_def th_pending_def emit_stream_def set_pending_def)

definition flushed :: "progress_limits \<Rightarrow> number \<Rightarrow> chunk list \<Rightarrow> throttle" where
  "flushed lims now cs = flush_progress lims now (push_chunks lims cs)"

text \<open>
  Live output is never garbled and its loss is accounted for. After a flush the text
  emitted for each stream is a prefix of what the tool wrote to it, what is missing in total is
  exactly the number of characters reported as dropped, and at most twice the display budget is
  ever emitted, since the budget is charged for each stream on its own.
\<close>

theorem progress_is_prefix:
  "(\<forall>s. prefix (emitted_text s (th_emitted (flushed lims now cs))) (pushed_text cs s)) \<and>
   emitted_length (flushed lims now cs) + reported_drops (th_emitted (flushed lims now cs)) =
     length (pushed_text cs Stdout) + length (pushed_text cs Stderr) \<and>
   emitted_length (flushed lims now cs) \<le> 2 * pl_maxCharsPerCall lims \<and>
   (\<forall>s. th_pending s (flushed lims now cs) = [])"
proof -
  define T where "T = flushed lims now cs"
  define t where "t = maybeEmit lims True now (push_chunks lims cs)"
  have ok: "throttle_ok lims (pushed_text cs) t" and quiet: "reported_drops (th_emitted t) = 0"
    using push_chunks_ok [of lims cs] by (auto simp: t_def intro: maybeEmit_ok maybeEmit_silent)
  have empty: "th_pending s t = []" for s by (simp add: t_def flushed_pending)
  have T: "emitted_text s (th_emitted T) = shown s t" "th_pending s T = []" "emitted_length T = emitted_length t"
    "reported_drops (th_emitted T) = th_dropped t" for s
    using empty [of s] quiet
    by (auto simp: T_def flushed_def flush_progress_def Let_def shown_def emitted_length_def th_pending_def reported_drops_def
        simp flip: t_def split: progress_stream.splits)
  note parts = ok [unfolded throttle_ok_def]
  have "emitted_length t = length (shown Stdout t) + length (shown Stderr t)"
    by (simp add: emitted_length_def shown_def empty)
  then show ?thesis using parts empty unfolding T_def [symmetric] T by auto
qed

text \<open>
  The budget \<open>maxCharsPerCall\<close> is not a bound per call: each stream is charged for its own
  pending text only, so a call that fills both emits twice as much.
\<close>

lemma budget_charged_per_stream:
  "emitted_length (flush_progress \<lparr>pl_minIntervalMs = 50, pl_mergeChars = 256, pl_maxCharsPerCall = 4\<rparr> 0
     (push_chunks \<lparr>pl_minIntervalMs = 50, pl_mergeChars = 256, pl_maxCharsPerCall = 4\<rparr>
        [(0, Stdout, ''aaaa''), (0, Stderr, ''bbbb'')])) = 8"
  by code_simp

subsection \<open>A concrete session\<close>

definition demo_long :: tool_result_content where
  "demo_long = Text_content (replicate 5 CHR ''x'')"

definition demo_bounds :: "bound_op list" where
  "demo_bounds = [\<lparr>bo_callId = ''c1'', bo_maxChars = 3, bo_content = demo_long, bo_written = True\<rparr>,
     \<lparr>bo_callId = ''c2'', bo_maxChars = 3, bo_content = Text_content ''ok'', bo_written = True\<rparr>]"

lemma artifacts_match_references_witness:
  "obj_get (os_frozen (fold (bound_step demo_host id ''/w'') demo_bounds empty_outputs)) ''c1'' =
     Some (externalized demo_host ''/w'' ''c1'' 3 ''xxxxx'') \<and>
   reference_holds demo_host (fold (bound_step demo_host id ''/w'') demo_bounds empty_outputs)
     (externalized demo_host ''/w'' ''c1'' 3 ''xxxxx'')"
proof (rule artifacts_match_references)
  show "inj_on sanitizeFileName (bo_callId ` set demo_bounds)"
    by (simp add: demo_bounds_def sanitizeFileName_def file_char_def)
  show "\<forall>p \<in> set demo_bounds. plain_output (bo_content p)"
    by (simp add: demo_bounds_def demo_long_def plain_output_def)
  show "obj_get (os_frozen (fold (bound_step demo_host id ''/w'') (take 1 demo_bounds) empty_outputs)) ''c1'' =
     Some (externalized demo_host ''/w'' ''c1'' 3 ''xxxxx'')"
    by (simp add: demo_bounds_def demo_long_def bound_step_def bound_output_def empty_outputs_def obj_get_def Let_def numeral_eq_Suc)
qed

end
