(* ===== verification/Context.thy ===== *)
theory Context
  imports Model ToolOutput
begin

text \<open>
  The layered context manager (context/ContextManager.ts): the token estimate, micro-compaction
  of old tool results, the model summary with its circuit breaker. The summarizing model is a
  parameter, a function from the messages to summarize to the events of its stream (\<open>None\<close>
  when it throws); the transcript that is built for it is not modelled, nor are the ids its
  request draws. Message counts are natural numbers, and the dash of the summary's heading, which
  is outside Latin-1, is a hyphen.
\<close>

subsection \<open>Budgets\<close>

record context_config =
  cx_window :: number
  cx_reservedOutput :: number
  cx_safetyBuffer :: number
  cx_recentTailMessages :: nat
  cx_recentTailTokens :: number
  cx_compactFailureLimit :: nat
  cx_estimationMarginPct :: number

definition DEFAULT_CONTEXT_CONFIG :: context_config where
  "DEFAULT_CONTEXT_CONFIG =
     \<lparr>cx_window = 128000, cx_reservedOutput = 4096, cx_safetyBuffer = 12000, cx_recentTailMessages = 6,
      cx_recentTailTokens = 16000, cx_compactFailureLimit = 3, cx_estimationMarginPct = 15\<rparr>"

fun block_chars :: "content_block \<Rightarrow> nat" where
  "block_chars (Text_block t) = length t"
| "block_chars (Thinking_block t sig) = length t"
| "block_chars (Tool_call_block i n input) = length (json_stringify (if input = JNull then JObj [] else input)) + 40"
| "block_chars (Tool_result_block c k content e obs) =
     length (renderText content) + 20 + (case obs of None \<Rightarrow> 0 | Some ob \<Rightarrow> length (json_stringify (observation_json ob)))"

definition message_chars :: "conversation_message \<Rightarrow> nat" where
  "message_chars m = sum_list (map block_chars (msg_content m)) + 30"

definition math_ceil :: "number \<Rightarrow> number" where
  "math_ceil x = of_int \<lceil>x\<rceil>"

definition estimateTokens :: "conversation_message list \<Rightarrow> number" where
  "estimateTokens ms = math_ceil (of_nat (sum_list (map message_chars ms)) / 4)"

definition availableForMessages :: "context_config \<Rightarrow> number" where
  "availableForMessages c = cx_window c - cx_reservedOutput c - cx_safetyBuffer c"

definition biased_estimate :: "context_config \<Rightarrow> conversation_message list \<Rightarrow> number" where
  "biased_estimate c ms = math_ceil (fmul (estimateTokens ms) (rnd64 (1 + fdiv (cx_estimationMarginPct c) 100)))"

subsection \<open>What is protected\<close>

text \<open>How many messages, counted from the end, fit the token budget of the tail.\<close>

fun fitting_tail :: "context_config \<Rightarrow> number \<Rightarrow> conversation_message list \<Rightarrow> nat" where
  "fitting_tail c tokens [] = 0"
| "fitting_tail c tokens (m # newest_first) =
     (let t = biased_estimate c [m]
      in if cx_recentTailTokens c < tokens + t then 0 else Suc (fitting_tail c (tokens + t) newest_first))"

definition tailBoundary :: "context_config \<Rightarrow> conversation_message list \<Rightarrow> nat" where
  "tailBoundary c ms = max (length ms - fitting_tail c 0 (rev ms)) (length ms - cx_recentTailMessages c)"

definition has_source :: "message_source \<Rightarrow> conversation_message \<Rightarrow> bool" where
  "has_source s m \<longleftrightarrow> (case msg_meta m of None \<Rightarrow> False | Some meta \<Rightarrow> mm_source meta = Some s)"

definition is_synthetic :: "conversation_message \<Rightarrow> bool" where
  "is_synthetic m \<longleftrightarrow> (case msg_meta m of None \<Rightarrow> False | Some meta \<Rightarrow> mm_synthetic meta = Some True)"

text \<open>The index of the latest human message; \<open>None\<close> stands for \<open>-1\<close>.\<close>

fun latestHumanIndex :: "conversation_message list \<Rightarrow> nat option" where
  "latestHumanIndex [] = None"
| "latestHumanIndex (m # ms) =
     (case latestHumanIndex ms of
        Some i \<Rightarrow> Some (Suc i)
      | None \<Rightarrow> if has_source Human m then Some 0 else None)"

definition isIncompressible :: "conversation_message list \<Rightarrow> nat \<Rightarrow> conversation_message \<Rightarrow> bool" where
  "isIncompressible ms i m \<longleftrightarrow>
     (has_source Engine_source m \<and> is_synthetic m) \<or> (has_source Human m \<and> latestHumanIndex ms = Some i)"

subsection \<open>Micro-compaction\<close>

definition is_result_block :: "content_block \<Rightarrow> bool" where
  "is_result_block b \<longleftrightarrow> is_Tool_result_block b"

definition cleared_text :: "string \<Rightarrow> nat \<Rightarrow> string" where
  "cleared_text callId n =
     ''[Old tool result cleared to save context: callId='' @ callId @ '', '' @ show_num (of_nat n) @
     '' chars. Re-run the tool if needed; the original is in the session journal.]''"

fun clear_block :: "content_block \<Rightarrow> content_block" where
  "clear_block (Tool_result_block c k content e obs) =
     (if length (renderText content) < 500 then Tool_result_block c k content e obs
      else Tool_result_block c k (Text_content (cleared_text c (length (renderText content)))) e None)"
| "clear_block b = b"

fun clearable_block :: "content_block \<Rightarrow> bool" where
  "clearable_block (Tool_result_block c k content e obs) \<longleftrightarrow> 500 \<le> length (renderText content)"
| "clearable_block b \<longleftrightarrow> False"

definition clearable :: "conversation_message \<Rightarrow> bool" where
  "clearable m \<longleftrightarrow>
     msg_role m = User_role \<and> has_source Tool_source m \<and> list_all is_result_block (msg_content m) \<and>
     list_ex clearable_block (msg_content m)"

definition cleared_message :: "string \<Rightarrow> conversation_message \<Rightarrow> conversation_message" where
  "cleared_message i m =
     m\<lparr>msg_id := i, msg_content := map clear_block (msg_content m),
       msg_meta := map_option (\<lambda>meta. meta\<lparr>mm_synthetic := Some True\<rparr>) (msg_meta m)\<rparr>"

definition micro_target :: "context_config \<Rightarrow> conversation_message list \<Rightarrow> nat \<Rightarrow> conversation_message \<Rightarrow> bool" where
  "micro_target c ms i m \<longleftrightarrow> i < tailBoundary c ms \<and> \<not> isIncompressible ms i m \<and> clearable m"

text \<open>\<open>newId k\<close> is the id drawn for the message with \<open>k\<close> replacements before it.\<close>

fun micro_walk ::
    "(nat \<Rightarrow> conversation_message \<Rightarrow> bool) \<Rightarrow> (nat \<Rightarrow> string) \<Rightarrow> nat \<Rightarrow> nat \<Rightarrow> conversation_message list \<Rightarrow>
     (conversation_message \<times> conversation_message option) list" where
  "micro_walk target newId i k [] = []"
| "micro_walk target newId i k (m # ms) =
     (if target i m then (m, Some (cleared_message (newId k) m)) # micro_walk target newId (Suc i) (Suc k) ms
      else (m, None) # micro_walk target newId (Suc i) k ms)"

definition walk_cleared :: "(conversation_message \<times> conversation_message option) list \<Rightarrow> string list" where
  "walk_cleared ws = map (\<lambda>w. msg_id (fst w)) (filter (\<lambda>w. snd w \<noteq> None) ws)"

definition walk_replacements :: "(conversation_message \<times> conversation_message option) list \<Rightarrow> conversation_message list" where
  "walk_replacements ws = List.map_filter snd ws"

definition walk_next :: "(conversation_message \<times> conversation_message option) list \<Rightarrow> conversation_message list" where
  "walk_next ws = map (\<lambda>(m, r). case r of None \<Rightarrow> m | Some x \<Rightarrow> x) ws"

definition microCompact ::
    "context_config \<Rightarrow> (nat \<Rightarrow> string) \<Rightarrow> conversation_message list \<Rightarrow> (compact_record \<times> conversation_message list) option" where
  "microCompact c newId ms =
     (let ws = micro_walk (micro_target c ms) newId 0 0 ms
      in if walk_cleared ws = [] then None
         else Some (\<lparr>cr_kind = Micro, cr_clearedMessageIds = walk_cleared ws,
                     cr_replacements = Some (walk_replacements ws), cr_summaryMessageId = None,
                     cr_tokensBefore = biased_estimate c ms, cr_tokensAfter = biased_estimate c (walk_next ws)\<rparr>,
                    walk_next ws))"

subsection \<open>The summary\<close>

record context_stamps =
  cxs_sessionId :: string
  cxs_turnId :: string
  cxs_model :: string
  cxs_fresh :: "nat \<Rightarrow> string"
  cxs_turnMessageId :: string
  cxs_summaryId :: string
  cxs_now :: string

type_synonym summarizer = "conversation_message list \<Rightarrow> model_event list option"

definition text_of_blocks :: "content_block list \<Rightarrow> string" where
  "text_of_blocks bs = concat (map (\<lambda>b. case b of Text_block t \<Rightarrow> t | _ \<Rightarrow> []) bs)"

definition summary_message :: "context_stamps \<Rightarrow> string \<Rightarrow> conversation_message" where
  "summary_message st body =
     \<lparr>msg_id = cxs_summaryId st, msg_parentId = None, msg_sessionId = cxs_sessionId st, msg_turnId = cxs_turnId st,
      msg_role = User_role,
      msg_content = [Text_block (''[CONTEXT SUMMARY - earlier conversation was compacted. '' @
        ''Full history remains in the session journal.]'' @ [CHR 0x0A, CHR 0x0A] @ body)],
      msg_createdAt = cxs_now st,
      msg_meta = Some \<lparr>mm_model = None, mm_usage = None, mm_source = Some Engine_source, mm_synthetic = None\<rparr>\<rparr>"

definition summarize :: "summarizer \<Rightarrow> context_stamps \<Rightarrow> conversation_message list \<Rightarrow> conversation_message option" where
  "summarize model st ms =
     (case model ms of
        None \<Rightarrow> None
      | Some es \<Rightarrow>
          (case assemble \<lparr>sd_sessionId = cxs_sessionId st, sd_turnId = cxs_turnId st, sd_parentId = None, sd_model = cxs_model st,
                          sd_messageId = cxs_turnMessageId st, sd_now = cxs_now st\<rparr> es of
             Inl e \<Rightarrow> None
           | Inr t \<Rightarrow>
               let body = text_of_blocks (msg_content (at_message t))
               in if js_trim body = [] then None else Some (summary_message st body)))"

definition summarized :: "context_config \<Rightarrow> conversation_message list \<Rightarrow> conversation_message list" where
  "summarized c ms =
     map snd (filter (\<lambda>(i, m). \<not> isIncompressible ms i m) (enumerate 0 (take (tailBoundary c ms) ms)))"

text \<open>The manager keeps one counter, the consecutive failures of the summary.\<close>

record prepare_result =
  cpr_facts :: "fact_event list"
  cpr_compactBroken :: bool
  cpr_failures :: nat

definition auto_compact ::
    "context_config \<Rightarrow> summarizer \<Rightarrow> context_stamps \<Rightarrow> fact_event list \<Rightarrow> number \<Rightarrow> conversation_message list \<Rightarrow> nat \<Rightarrow>
     prepare_result" where
  "auto_compact c model st facts estimate ms failures =
     (let cleared = summarized c ms
      in if cleared = [] then \<lparr>cpr_facts = facts, cpr_compactBroken = False, cpr_failures = failures\<rparr>
         else (case summarize model st cleared of
                 None \<Rightarrow> \<lparr>cpr_facts = facts, cpr_compactBroken = (cx_compactFailureLimit c \<le> failures + 1), cpr_failures = failures + 1\<rparr>
               | Some s \<Rightarrow>
                   let kept = filter (\<lambda>m. m \<notin> set cleared) ms @ [s]
                   in \<lparr>cpr_facts = facts @ [Context_compacted
                         \<lparr>cr_kind = Auto_compact, cr_clearedMessageIds = map msg_id cleared, cr_replacements = Some [s],
                          cr_summaryMessageId = Some (msg_id s), cr_tokensBefore = estimate, cr_tokensAfter = biased_estimate c kept\<rparr>],
                       cpr_compactBroken = False, cpr_failures = 0\<rparr>))"

definition prepare ::
    "context_config \<Rightarrow> summarizer \<Rightarrow> context_stamps \<Rightarrow> bool \<Rightarrow> conversation_message list \<Rightarrow> nat \<Rightarrow> prepare_result" where
  "prepare c model st force ms failures =
     (let budget = availableForMessages c;
          fits = (\<lambda>xs. \<not> force \<and> biased_estimate c xs \<le> budget)
      in if fits ms then \<lparr>cpr_facts = [], cpr_compactBroken = False, cpr_failures = failures\<rparr>
         else let micro = microCompact c (cxs_fresh st) ms;
                  facts = (case micro of None \<Rightarrow> [] | Some (r, xs) \<Rightarrow> [Context_compacted r]);
                  base = (case micro of None \<Rightarrow> ms | Some (r, xs) \<Rightarrow> xs)
              in if micro \<noteq> None \<and> fits base then \<lparr>cpr_facts = facts, cpr_compactBroken = False, cpr_failures = failures\<rparr>
                 else if cx_compactFailureLimit c \<le> failures
                 then \<lparr>cpr_facts = facts, cpr_compactBroken = True, cpr_failures = failures\<rparr>
                 else auto_compact c model st facts (biased_estimate c base) base failures)"

definition reactiveCompact ::
    "context_config \<Rightarrow> summarizer \<Rightarrow> context_stamps \<Rightarrow> conversation_message list \<Rightarrow> nat \<Rightarrow> prepare_result" where
  "reactiveCompact c model st ms failures = prepare c model st True ms failures"

end
