(* ===== verification/ContextProps.thy ===== *)
theory ContextProps
  imports Context StateProperties
begin

text \<open>
  What compaction keeps: the protected messages survive the facts of a round word for word,
  micro-compaction changes nothing but old tool results, in place when it clears one range,
  and the circuit breaker stops the summaries.
\<close>

subsection \<open>The walk\<close>

lemma walk_fst [simp]: "map fst (micro_walk target newId i k ms) = ms"
  by (induction target newId i k ms rule: micro_walk.induct) simp_all

lemma walk_length [simp]: "length (micro_walk target newId i k ms) = length ms"
  by (induction target newId i k ms rule: micro_walk.induct) simp_all

lemma walk_nth:
  "j < length ms \<Longrightarrow>
   (if target (i + j) (ms ! j)
    then \<exists>n \<ge> k. micro_walk target newId i k ms ! j = (ms ! j, Some (cleared_message (newId n) (ms ! j)))
    else micro_walk target newId i k ms ! j = (ms ! j, None))"
proof (induction target newId i k ms arbitrary: j rule: micro_walk.induct)
  case (2 target newId i k m ms)
  show ?case
  proof (cases j)
    case 0
    then show ?thesis by auto
  next
    case (Suc j')
    define k' where "k' = (if target i m then Suc k else k)"
    have "if target (Suc i + j') (ms ! j')
        then \<exists>n \<ge> k'. micro_walk target newId (Suc i) k' ms ! j' = (ms ! j', Some (cleared_message (newId n) (ms ! j')))
        else micro_walk target newId (Suc i) k' ms ! j' = (ms ! j', None)"
      using 2 Suc by (simp add: k'_def)
    moreover have "micro_walk target newId i k (m # ms) ! j = micro_walk target newId (Suc i) k' ms ! j'"
      using Suc by (simp add: k'_def)
    moreover have "k \<le> k'" by (simp add: k'_def)
    ultimately show ?thesis using Suc by (auto split: if_splits dest: order_trans)
  qed
qed simp

subsection \<open>The reducer and the walk\<close>

lemma compact_keeps: "m \<in> set ms \<Longrightarrow> msg_id m \<notin> set cl \<Longrightarrow> m \<in> set (compact_messages cl rs ins ms)"
  by (induction ms arbitrary: ins) auto

lemma compact_inserted: "compact_messages cl rs True ms = filter (\<lambda>m. msg_id m \<notin> set cl) ms"
  by (induction ms) auto

lemma compact_mset: "mset (compact_messages cl rs False ms) = mset (filter (\<lambda>m. msg_id m \<notin> set cl) ms) + mset rs"
  by (induction ms) (auto simp: compact_inserted)

lemma compact_range:
  "\<forall>m \<in> set as. msg_id m \<notin> set cl \<Longrightarrow> \<forall>m \<in> set bs. msg_id m \<in> set cl \<Longrightarrow> bs \<noteq> [] \<Longrightarrow> \<forall>m \<in> set cs. msg_id m \<notin> set cl \<Longrightarrow>
   compact_messages cl rs False (as @ bs @ cs) = as @ rs @ cs"
proof (induction as)
  case Nil
  then obtain b bs' where "bs = b # bs'" by (cases bs) auto
  then show ?case using Nil by (auto simp: compact_inserted filter_id_conv filter_empty_conv)
qed simp

definition one_range :: "(conversation_message \<times> conversation_message option) list \<Rightarrow> bool" where
  "one_range ws \<longleftrightarrow>
     (\<exists>as bs cs. ws = as @ bs @ cs \<and> (\<forall>w \<in> set as \<union> set cs. snd w = None) \<and> (\<forall>w \<in> set bs. snd w \<noteq> None))"

lemma cleared_id_iff:
  assumes "distinct (map msg_id (map fst ws))" "w \<in> set ws"
  shows "msg_id (fst w) \<in> set (walk_cleared ws) \<longleftrightarrow> snd w \<noteq> None"
proof -
  have "inj_on (\<lambda>w. msg_id (fst w)) (set ws)" using assms(1) by (simp add: comp_def distinct_map)
  from inj_on_image_mem_iff [OF this assms(2), of "{v \<in> set ws. snd v \<noteq> None}"]
  show ?thesis using assms(2) by (auto simp: walk_cleared_def)
qed

lemma walk_next_parts:
  "mset (walk_next ws) = mset (map fst (filter (\<lambda>w. snd w = None) ws)) + mset (walk_replacements ws)"
  by (induction ws) (auto simp: walk_next_def walk_replacements_def List.map_filter_simps split: option.splits)

lemma compact_walk_mset:
  assumes "distinct (map msg_id (map fst ws))"
  shows "mset (compact_messages (walk_cleared ws) (walk_replacements ws) False (map fst ws)) = mset (walk_next ws)"
proof -
  have "filter (\<lambda>m. msg_id m \<notin> set (walk_cleared ws)) (map fst ws) = map fst (filter (\<lambda>w. snd w = None) ws)"
    unfolding filter_map comp_def using cleared_id_iff [OF assms] by (auto intro!: arg_cong [of _ _ "map fst"] filter_cong)
  then show ?thesis by (simp add: compact_mset walk_next_parts)
qed

lemma compact_walk_range:
  assumes dist: "distinct (map msg_id (map fst ws))" and one: "one_range ws" and some: "walk_cleared ws \<noteq> []"
  shows "compact_messages (walk_cleared ws) (walk_replacements ws) False (map fst ws) = walk_next ws"
proof -
  obtain as bs cs where ws: "ws = as @ bs @ cs" "\<forall>w \<in> set as \<union> set cs. snd w = None" "\<forall>w \<in> set bs. snd w \<noteq> None"
    using one by (auto simp: one_range_def)
  have "bs \<noteq> []" using some ws by (auto simp: walk_cleared_def filter_empty_conv)
  moreover have "\<forall>m \<in> set (map fst as). msg_id m \<notin> set (walk_cleared ws)" "\<forall>m \<in> set (map fst cs). msg_id m \<notin> set (walk_cleared ws)"
    "\<forall>m \<in> set (map fst bs). msg_id m \<in> set (walk_cleared ws)"
    using cleared_id_iff [OF dist] ws by auto
  ultimately have eq: "compact_messages (walk_cleared ws) (walk_replacements ws) False (map fst as @ map fst bs @ map fst cs) =
      map fst as @ walk_replacements ws @ map fst cs"
    using compact_range [of "map fst as" "walk_cleared ws" "map fst bs" "map fst cs" "walk_replacements ws"] by simp
  have "walk_replacements ws = walk_next bs" "walk_next as = map fst as" "walk_next cs = map fst cs"
  proof -
    have quiet: "\<forall>w \<in> set vs. snd w = None \<Longrightarrow> walk_next vs = map fst vs \<and> walk_replacements vs = []" for vs
      by (induction vs) (auto simp: walk_next_def walk_replacements_def List.map_filter_simps)
    have full: "\<forall>w \<in> set vs. snd w \<noteq> None \<Longrightarrow> walk_replacements vs = walk_next vs" for vs
      by (induction vs) (auto simp: walk_next_def walk_replacements_def List.map_filter_simps split: option.splits)
    have app: "walk_replacements (us @ vs) = walk_replacements us @ walk_replacements vs" for us vs
      by (simp add: walk_replacements_def List.map_filter_def)
    show "walk_replacements ws = walk_next bs" "walk_next as = map fst as" "walk_next cs = map fst cs"
      using quiet [of as] quiet [of cs] full [of bs] ws by (simp_all add: app)
  qed
  then show ?thesis using eq ws(1) by (simp add: walk_next_def)
qed

subsection \<open>The protected messages\<close>

definition protected_at :: "context_config \<Rightarrow> conversation_message list \<Rightarrow> nat \<Rightarrow> bool" where
  "protected_at c ms i \<longleftrightarrow> tailBoundary c ms \<le> i \<or> isIncompressible ms i (ms ! i)"

lemma source_cleared [simp]: "has_source s (cleared_message i m) = has_source s m"
  by (simp add: has_source_def cleared_message_def option.case_eq_if map_option_case)

lemma latest_cong: "map (has_source Human) xs = map (has_source Human) ys \<Longrightarrow> latestHumanIndex xs = latestHumanIndex ys"
proof (induction xs arbitrary: ys)
  case (Cons x xs)
  then obtain y ys' where "ys = y # ys'" "has_source Human x = has_source Human y" "map (has_source Human) xs = map (has_source Human) ys'"
    by (cases ys) auto
  then show ?case using Cons.IH [of ys'] by simp
qed simp

lemma fitting_agree:
  "take n xs = take n ys \<Longrightarrow> n \<le> fitting_tail c t xs \<Longrightarrow> n \<le> fitting_tail c t ys"
proof (induction n arbitrary: xs ys t)
  case (Suc n)
  obtain x xs' where xs: "xs = x # xs'" using Suc.prems(2) by (cases xs) auto
  obtain y ys' where ys: "ys = y # ys'" using Suc.prems(1) xs by (cases ys) auto
  show ?case using Suc.prems Suc.IH [of xs' ys'] by (auto simp: xs ys Let_def split: if_splits)
qed simp

lemma fitting_length: "fitting_tail c t xs \<le> length xs"
  by (induction xs arbitrary: t) (auto simp: Let_def)

lemma boundary_agree:
  assumes len: "length ys = length xs" and same: "\<And>i. tailBoundary c xs \<le> i \<Longrightarrow> i < length xs \<Longrightarrow> ys ! i = xs ! i"
  shows "tailBoundary c ys \<le> tailBoundary c xs"
proof -
  define n where "n = length xs - tailBoundary c xs"
  have n: "n \<le> fitting_tail c 0 (rev xs)" "n \<le> cx_recentTailMessages c"
    by (auto simp: n_def tailBoundary_def)
  have "take n (rev ys) = take n (rev xs)"
  proof (rule nth_equalityI)
    fix i assume "i < length (take n (rev ys))"
    then have i: "i < n" "i < length xs" using len by auto
    then have "tailBoundary c xs \<le> length xs - Suc i" by (auto simp: n_def)
    then show "take n (rev ys) ! i = take n (rev xs) ! i"
      using i same [of "length xs - Suc i"] len by (simp add: rev_nth)
  qed (simp add: len)
  then have "n \<le> fitting_tail c 0 (rev ys)" using fitting_agree [of n "rev xs" "rev ys"] n(1) by simp
  moreover have "tailBoundary c xs \<le> length xs" by (auto simp: tailBoundary_def)
  then have "tailBoundary c xs = length xs - n" by (simp add: n_def)
  moreover have "tailBoundary c ys = max (length xs - fitting_tail c 0 (rev ys)) (length xs - cx_recentTailMessages c)"
    by (simp add: tailBoundary_def len)
  ultimately show ?thesis using n(2) by (simp add: diff_le_mono2)
qed

abbreviation "walk c newId ms \<equiv> micro_walk (micro_target c ms) newId 0 0 ms"

lemma walk_next_nth:
  "j < length ms \<Longrightarrow> \<not> target (i + j) (ms ! j) \<Longrightarrow> walk_next (micro_walk target newId i k ms) ! j = ms ! j"
proof (induction target newId i k ms arbitrary: j rule: micro_walk.induct)
  case (2 target newId i k m ms)
  then show ?case by (cases j) (auto simp: walk_next_def)
qed simp

lemma walk_next_length [simp]: "length (walk_next (micro_walk target newId i k ms)) = length ms"
  by (simp add: walk_next_def)

lemma walk_next_sources: "map (has_source s) (walk_next (micro_walk target newId i k ms)) = map (has_source s) ms"
  by (induction target newId i k ms rule: micro_walk.induct) (auto simp: walk_next_def)

lemma protected_after_micro:
  assumes "i < length ms" "protected_at c ms i"
  shows "walk_next (walk c newId ms) ! i = ms ! i \<and> protected_at c (walk_next (walk c newId ms)) i"
proof -
  define xs where "xs = walk_next (walk c newId ms)"
  have keep: "xs ! j = ms ! j" if "j < length ms" "protected_at c ms j" for j
    using that walk_next_nth [of j ms "micro_target c ms" 0 newId 0] by (auto simp: xs_def micro_target_def protected_at_def)
  have len: "length xs = length ms" by (simp add: xs_def)
  have "tailBoundary c xs \<le> tailBoundary c ms"
    by (rule boundary_agree [OF len]) (simp add: keep protected_at_def)
  moreover have "latestHumanIndex xs = latestHumanIndex ms"
    by (rule latest_cong) (simp add: xs_def walk_next_sources)
  then have "isIncompressible xs i (xs ! i) = isIncompressible ms i (xs ! i)" by (simp add: isIncompressible_def)
  ultimately show ?thesis using keep [OF assms] assms(2) unfolding xs_def [symmetric] by (auto simp: protected_at_def)
qed

lemma walk_next_ids:
  assumes "distinct (map msg_id ms)" "inj newId" "\<forall>n. newId n \<notin> msg_id ` set ms"
  shows "distinct (map msg_id (walk_next (micro_walk target newId i k ms))) \<and>
    msg_id ` set (walk_next (micro_walk target newId i k ms)) \<subseteq> msg_id ` set ms \<union> newId ` {k..}"
  using assms
proof (induction target newId i k ms rule: micro_walk.induct)
  case (2 target newId i k m ms)
  have ids: "msg_id ` set (walk_next (micro_walk target newId (Suc i) k' ms)) \<subseteq> msg_id ` set ms \<union> newId ` {k'..}"
    "distinct (map msg_id (walk_next (micro_walk target newId (Suc i) k' ms)))"
    if "k' = (if target i m then Suc k else k)" for k'
    using 2 that by (auto split: if_splits)
  show ?case
  proof (cases "target i m")
    case True
    have "newId k \<notin> msg_id ` set ms \<union> newId ` {Suc k..}"
      using 2(4, 5) by (auto simp: inj_eq)
    then have "newId k \<notin> msg_id ` set (walk_next (micro_walk target newId (Suc i) (Suc k) ms))"
      using ids(1) [of "Suc k"] True by auto
    moreover have "walk_next (micro_walk target newId i k (m # ms)) =
        cleared_message (newId k) m # walk_next (micro_walk target newId (Suc i) (Suc k) ms)"
      using True by (simp add: walk_next_def)
    moreover have "newId k \<in> newId ` {k..}" "newId ` {Suc k..} \<subseteq> newId ` {k..}" by auto
    ultimately show ?thesis
      using ids [of "Suc k"] True by (auto simp: cleared_message_def)
  next
    case False
    have "msg_id m \<notin> msg_id ` set ms \<union> newId ` {k..}" using 2(3, 5) by (auto simp: image_iff)
    then have "msg_id m \<notin> msg_id ` set (walk_next (micro_walk target newId (Suc i) k ms))"
      using ids(1) [of k] False by auto
    moreover have "walk_next (micro_walk target newId i k (m # ms)) = m # walk_next (micro_walk target newId (Suc i) k ms)"
      using False by (simp add: walk_next_def)
    ultimately show ?thesis using ids [of k] False by auto
  qed
qed (simp add: walk_next_def)

lemma summarized_source:
  "x \<in> set (summarized c ms) \<Longrightarrow> \<exists>j < length ms. x = ms ! j \<and> j < tailBoundary c ms \<and> \<not> isIncompressible ms j (ms ! j)"
  by (auto simp: summarized_def in_set_enumerate_eq)

lemma protected_not_summarized:
  assumes "distinct (map msg_id ms)" "i < length ms" "protected_at c ms i"
  shows "msg_id (ms ! i) \<notin> set (map msg_id (summarized c ms))"
proof
  assume "msg_id (ms ! i) \<in> set (map msg_id (summarized c ms))"
  then obtain j where "j < length ms" "msg_id (ms ! j) = msg_id (ms ! i)" "j < tailBoundary c ms" "\<not> isIncompressible ms j (ms ! j)"
    by (auto dest!: summarized_source)
  moreover from this have "j = i" using assms(1, 2) nth_eq_iff_index_eq [of "map msg_id ms" j i] by simp
  ultimately show False using assms(3) by (auto simp: protected_at_def)
qed

text \<open>The facts a round may journal: nothing, the micro-compaction, a summary, or one after the other.\<close>

definition micro_facts :: "context_config \<Rightarrow> context_stamps \<Rightarrow> conversation_message list \<Rightarrow> fact_event list" where
  "micro_facts c st ms = (case microCompact c (cxs_fresh st) ms of None \<Rightarrow> [] | Some (r, xs) \<Rightarrow> [Context_compacted r])"

definition micro_base :: "context_config \<Rightarrow> context_stamps \<Rightarrow> conversation_message list \<Rightarrow> conversation_message list" where
  "micro_base c st ms = (case microCompact c (cxs_fresh st) ms of None \<Rightarrow> ms | Some (r, xs) \<Rightarrow> xs)"

lemma auto_compact_facts:
  "\<exists>fs. cpr_facts (auto_compact c model st facts e ms failures) = facts @ fs \<and>
    (fs = [] \<or> (\<exists>r x. fs = [Context_compacted r] \<and> cr_clearedMessageIds r = map msg_id (summarized c ms) \<and>
      cr_replacements r = Some [x]))"
  by (auto simp: auto_compact_def Let_def split: option.splits)

lemma prepare_facts:
  "cpr_facts (prepare c model st force ms failures) = [] \<or>
   (\<exists>fs. cpr_facts (prepare c model st force ms failures) = micro_facts c st ms @ fs \<and>
     (fs = [] \<or> (\<exists>r x. fs = [Context_compacted r] \<and> cr_replacements r = Some [x] \<and>
       cr_clearedMessageIds r = map msg_id (summarized c (micro_base c st ms)))))"
  using auto_compact_facts [of c model st "micro_facts c st ms" "biased_estimate c (micro_base c st ms)" "micro_base c st ms" failures]
  unfolding prepare_def micro_facts_def [symmetric] micro_base_def [symmetric] Let_def
  by (auto simp: micro_facts_def micro_base_def split: option.splits)

lemma protected_in_base:
  assumes "distinct (map msg_id ms)" "inj (cxs_fresh st)" "\<forall>n. cxs_fresh st n \<notin> msg_id ` set ms"
    and "i < length ms" "protected_at c ms i"
  shows "\<exists>s'. applyFacts H (s\<lparr>ag_messages := ms\<rparr>) (micro_facts c st ms) = Inr s' \<and> ms ! i \<in> set (ag_messages s') \<and>
    distinct (map msg_id (micro_base c st ms)) \<and> length (micro_base c st ms) = length ms \<and>
    micro_base c st ms ! i = ms ! i \<and> protected_at c (micro_base c st ms) i"
proof -
  let ?ws = "walk c (cxs_fresh st) ms"
  have same: "walk_next ?ws ! i = ms ! i" "protected_at c (walk_next ?ws) i"
    using protected_after_micro [OF assms(4, 5), of "cxs_fresh st"] by auto
  moreover have "mset (compact_messages (walk_cleared ?ws) (walk_replacements ?ws) False ms) = mset (walk_next ?ws)"
    using compact_walk_mset [of ?ws] assms(1) by simp
  then have "ms ! i \<in> set (compact_messages (walk_cleared ?ws) (walk_replacements ?ws) False ms)"
    using same(1) assms(4) by (metis nth_mem set_mset_mset walk_next_length)
  moreover have "distinct (map msg_id (walk_next ?ws))"
    using walk_next_ids [OF assms(1-3)] by blast
  ultimately show ?thesis
    using assms by (auto simp: micro_facts_def micro_base_def microCompact_def Let_def reduce_compacted_def)
qed

text \<open>C25: Compaction never costs the run what it must keep: whatever the summarizing model answers,
  the facts of a round are accepted by the reducer, and every message of the protected tail, the
  latest human request and every synthetic engine message is afterwards still in the
  conversation, word for word. The ids drawn for replacements are new and distinct.\<close>

theorem protected_survive_compaction:
  assumes ids: "distinct (map msg_id (ag_messages s))" "inj (cxs_fresh st)" "\<forall>n. cxs_fresh st n \<notin> msg_id ` set (ag_messages s)"
    and i: "i < length (ag_messages s)" "protected_at c (ag_messages s) i"
  shows "\<exists>s'. applyFacts H s (cpr_facts (prepare c model st force (ag_messages s) failures)) = Inr s' \<and>
    ag_messages s ! i \<in> set (ag_messages s')"
proof -
  let ?ms = "ag_messages s"
  obtain s1 where s1: "applyFacts H s (micro_facts c st ?ms) = Inr s1" "?ms ! i \<in> set (ag_messages s1)"
    "distinct (map msg_id (micro_base c st ?ms))" "length (micro_base c st ?ms) = length ?ms"
    "micro_base c st ?ms ! i = ?ms ! i" "protected_at c (micro_base c st ?ms) i"
    using protected_in_base [OF ids i, of H s] by auto
  from protected_not_summarized [OF s1(3) _ s1(6)] i(1) s1(4, 5)
  have "msg_id (?ms ! i) \<notin> set (map msg_id (summarized c (micro_base c st ?ms)))" by simp
  note keep = compact_keeps [OF s1(2) this]
  from prepare_facts [of c model st force ?ms failures] show ?thesis
  proof (elim disjE exE conjE)
    assume "cpr_facts (prepare c model st force ?ms failures) = []"
    then show ?thesis using i(1) by simp
  next
    fix fs assume "cpr_facts (prepare c model st force ?ms failures) = micro_facts c st ?ms @ fs" "fs = []"
    then show ?thesis using s1 by simp
  next
    fix fs r x assume "cpr_facts (prepare c model st force ?ms failures) = micro_facts c st ?ms @ fs" "fs = [Context_compacted r]"
      "cr_replacements r = Some [x]" "cr_clearedMessageIds r = map msg_id (summarized c (micro_base c st ?ms))"
    then show ?thesis using s1 keep by (simp add: applyFacts_append reduce_compacted_def)
  qed
qed

subsection \<open>Micro-compaction and the reducer\<close>

lemma microCompact_Some:
  "microCompact c newId ms = Some (r, xs) \<longleftrightarrow>
   walk_cleared (walk c newId ms) \<noteq> [] \<and> xs = walk_next (walk c newId ms) \<and>
   r = \<lparr>cr_kind = Micro, cr_clearedMessageIds = walk_cleared (walk c newId ms),
        cr_replacements = Some (walk_replacements (walk c newId ms)), cr_summaryMessageId = None,
        cr_tokensBefore = biased_estimate c ms, cr_tokensAfter = biased_estimate c (walk_next (walk c newId ms))\<rparr>"
  by (auto simp: microCompact_def Let_def)

lemma walk_next_changes:
  assumes "j < length ms"
  shows "walk_next (walk c newId ms) ! j = ms ! j \<or>
    j < tailBoundary c ms \<and> \<not> isIncompressible ms j (ms ! j) \<and> clearable (ms ! j) \<and>
    (\<exists>n. walk_next (walk c newId ms) ! j = cleared_message (newId n) (ms ! j))"
  using walk_nth [OF assms, of "micro_target c ms" 0 0 newId] assms
  by (auto simp: walk_next_def micro_target_def split: if_splits)


definition demo_context :: context_config where
  "demo_context = DEFAULT_CONTEXT_CONFIG\<lparr>cx_recentTailMessages := 0\<rparr>"

lemma demo_boundary [simp]: "tailBoundary demo_context ms = length ms"
  by (simp add: tailBoundary_def demo_context_def)

definition demo_call_message :: "string \<Rightarrow> conversation_message" where
  "demo_call_message i =
     \<lparr>msg_id = ''a'' @ i, msg_parentId = None, msg_sessionId = ''s'', msg_turnId = ''t'', msg_role = Assistant_role,
      msg_content = [Tool_call_block i ''Read'' (JObj [])], msg_createdAt = ''2026'', msg_meta = None\<rparr>"

definition demo_result_message :: "string \<Rightarrow> conversation_message" where
  "demo_result_message i =
     \<lparr>msg_id = ''r'' @ i, msg_parentId = None, msg_sessionId = ''s'', msg_turnId = ''t'', msg_role = User_role,
      msg_content = [Tool_result_block i True (Text_content (replicate 500 CHR ''x'')) None None], msg_createdAt = ''2026'',
      msg_meta = Some \<lparr>mm_model = None, mm_usage = None, mm_source = Some Tool_source, mm_synthetic = None\<rparr>\<rparr>"

definition demo_ids :: "nat \<Rightarrow> string" where
  "demo_ids n = replicate (Suc n) CHR ''m''"

lemmas demo_compaction = demo_call_message_def demo_result_message_def micro_target_def clearable_def has_source_def
  isIncompressible_def is_result_block_def demo_ids_def

definition demo_round :: "conversation_message list" where
  "demo_round = [demo_call_message ''1'', demo_result_message ''1'']"

lemma demo_walk:
  "micro_walk (micro_target demo_context demo_round) demo_ids 0 0 demo_round =
     [(demo_call_message ''1'', None), (demo_result_message ''1'', Some (cleared_message ''m'' (demo_result_message ''1'')))]"
  by (simp add: demo_round_def demo_compaction)


lemma demo_fresh: "inj demo_ids" "\<forall>n. demo_ids n \<notin> msg_id ` set demo_round"
  by (auto simp: demo_ids_def inj_def demo_round_def demo_call_message_def demo_result_message_def)

lemma protected_survive_compaction_witness:
  "\<exists>s'. applyFacts demo_host ((createInitialState demo_input)\<lparr>ag_messages := demo_round\<rparr>)
      (cpr_facts (prepare (demo_context\<lparr>cx_recentTailMessages := 1\<rparr>) (\<lambda>ms. None)
        \<lparr>cxs_sessionId = ''s'', cxs_turnId = ''t'', cxs_model = ''m'', cxs_fresh = demo_ids, cxs_turnMessageId = ''u'',
         cxs_summaryId = ''y'', cxs_now = ''2026''\<rparr> True demo_round 0)) = Inr s' \<and>
    demo_result_message ''1'' \<in> set (ag_messages s')"
proof -
  have small: "biased_estimate (demo_context\<lparr>cx_recentTailMessages := 1\<rparr>) [demo_result_message ''1''] \<le> 16000"
    by (simp add: biased_estimate_def estimateTokens_def demo_context_def DEFAULT_CONTEXT_CONFIG_def demo_result_message_def
        message_chars_def math_ceil_def) code_simp
  have "protected_at (demo_context\<lparr>cx_recentTailMessages := 1\<rparr>) demo_round 1"
    using small by (simp add: protected_at_def tailBoundary_def demo_round_def demo_context_def DEFAULT_CONTEXT_CONFIG_def Let_def)
  then show ?thesis
    using protected_survive_compaction [of "(createInitialState demo_input)\<lparr>ag_messages := demo_round\<rparr>"
        "\<lparr>cxs_sessionId = ''s'', cxs_turnId = ''t'', cxs_model = ''m'', cxs_fresh = demo_ids, cxs_turnMessageId = ''u'',
         cxs_summaryId = ''y'', cxs_now = ''2026''\<rparr>" 1 "demo_context\<lparr>cx_recentTailMessages := 1\<rparr>" demo_host "\<lambda>ms. None" True 0]
      demo_fresh
    by (simp add: demo_round_def demo_call_message_def demo_result_message_def)
qed

text \<open>With two cleared results that are not adjacent the reducer inserts both replacements where
  the first stood: the second result then stands before the message that made the call.\<close>

lemma micro_compaction_reorders:
  "\<exists>r xs s'. microCompact demo_context demo_ids (demo_round @ [demo_call_message ''2'', demo_result_message ''2'']) = Some (r, xs) \<and>
     reduce H ((createInitialState i)\<lparr>ag_messages := demo_round @ [demo_call_message ''2'', demo_result_message ''2'']\<rparr>)
       (Context_compacted r) = Inr s' \<and>
     map msg_id xs = [''a1'', ''m'', ''a2'', ''mm''] \<and> map msg_id (ag_messages s') = [''a1'', ''m'', ''mm'', ''a2'']"
  by (simp add: microCompact_def demo_round_def demo_compaction walk_cleared_def walk_next_def walk_replacements_def Let_def
      reduce_compacted_def List.map_filter_simps cleared_message_def)

subsection \<open>The circuit breaker\<close>

text \<open>The circuit breaker bounds the summaries that fail in a row. The counter never passes the
  limit, a broken round is reported exactly with the counter at the limit, and from then on the
  summarizing model is not consulted: the round is the same whatever it would have answered.\<close>

theorem circuit_breaker:
  assumes "failures \<le> cx_compactFailureLimit c"
  shows "cpr_failures (prepare c model st force ms failures) \<le> cx_compactFailureLimit c \<and>
    (cpr_compactBroken (prepare c model st force ms failures) \<longrightarrow>
       cpr_failures (prepare c model st force ms failures) = cx_compactFailureLimit c) \<and>
    (failures = cx_compactFailureLimit c \<longrightarrow>
       prepare c model st force ms failures = prepare c model' st force ms failures)"
  using assms by (auto simp: prepare_def auto_compact_def Let_def split: option.splits)

lemma circuit_breaker_witness:
  "cpr_failures (prepare DEFAULT_CONTEXT_CONFIG (\<lambda>ms. None)
     \<lparr>cxs_sessionId = ''s'', cxs_turnId = ''t'', cxs_model = ''m'', cxs_fresh = demo_ids, cxs_turnMessageId = ''u'',
      cxs_summaryId = ''y'', cxs_now = ''2026''\<rparr> True demo_round 3) \<le> 3"
proof -
  have limit: "cx_compactFailureLimit DEFAULT_CONTEXT_CONFIG = 3" by (simp add: DEFAULT_CONTEXT_CONFIG_def)
  show ?thesis using circuit_breaker [of 3 DEFAULT_CONTEXT_CONFIG] unfolding limit by blast
qed

end
