(* ===== verification/Engine.thy ===== *)
theory Engine
  imports ContextProps Replan Lane Gate Journal ToolCalls Tasks Plans Calibration
begin

text \<open>
  The agent main loop (core/AgentEngine.ts). The engine is an asynchronous generator over
  effects; the model threads a record through it: the events yielded, the facts handed to the
  journal, the stores the tools share with it, and a world that stands for the clock, the ids,
  the abort signal, the model gateway, the journal's file and whatever the tools change. The
  agent state itself is passed and returned, as the code does.

  What the engine is given (\<open>EngineDeps\<close>) is the record \<open>engine_env\<close>: each of its functions
  reads and changes the world only. A request to the model is determined by the state, the
  lane and the write lock, so the stream is a function of these; the text of the prompt and the
  manifest's content are not modelled. Progress that tools push while they run reaches the
  consumer at once and is not part of the model. The agent's turn id, which each journal
  append carries, is not recorded.
\<close>

subsection \<open>The engine's state\<close>

datatype durability = Buffered | Flush

record 'w shared =
  sh_plans :: plan_store
  sh_tasks :: task_map
  sh_evidence :: evidence_store
  sh_world :: 'w

record 'w engine =
  en_yielded :: "agent_event list"
  en_appended :: "(fact_event \<times> durability) list"
  en_compactFailures :: nat
  en_hintEmitted :: bool
  en_writeGate :: bool
  en_localRepair :: bool
  en_shared :: "'w shared"

record gate_deps =
  gd_plans :: bool
  gd_tasks :: bool
  gd_evidence :: bool
  gd_riskThreshold :: number

text \<open>One tool call of a batch: not run, or run with the events it gave and what left it.\<close>

datatype call_run = Call_skipped | Call_ran "agent_event list" "js_error option"

type_synonym ('a, 'w) act = "'w engine \<Rightarrow> (js_error + 'a) \<times> 'w engine"

record 'w engine_env =
  ev_host :: host
  ev_registry :: "'w tool_registry"
  ev_journal :: "(fact_event \<Rightarrow> durability \<Rightarrow> 'w \<Rightarrow> js_error option \<times> 'w) option"
  ev_drain :: "'w \<Rightarrow> js_error option \<times> 'w"
  ev_currentSeq :: "'w \<Rightarrow> number"
  ev_aborted :: "'w \<Rightarrow> bool"
  ev_now :: "'w \<Rightarrow> number \<times> 'w"
  ev_iso :: "'w \<Rightarrow> string \<times> 'w"
  ev_next :: "string \<Rightarrow> 'w \<Rightarrow> string \<times> 'w"
  ev_modelId :: string
  ev_stream :: "agent_state \<Rightarrow> tool_execution_lane option \<Rightarrow> bool \<Rightarrow> 'w \<Rightarrow> (model_event list \<times> model_error option) \<times> 'w"
  ev_classify :: "js_error \<Rightarrow> model_error"
  ev_retry :: retry_options
  ev_random :: "'w \<Rightarrow> number \<times> 'w"
  ev_sleep :: "number \<Rightarrow> 'w \<Rightarrow> js_error option \<times> 'w"
  ev_context :: "context_config option"
  ev_summary :: "'w \<Rightarrow> (summarizer \<times> context_stamps) \<times> 'w"
  ev_gate :: "gate_deps option"
  ev_files :: "'w \<Rightarrow> string \<Rightarrow> file_read"
  ev_verifier :: "(string \<Rightarrow> plan_version option \<Rightarrow> string \<Rightarrow> 'w shared \<Rightarrow> (js_error + last_verification) \<times> 'w shared) option"
  ev_runCalls :: "agent_state \<Rightarrow> tool_execution_lane option \<Rightarrow> bool \<Rightarrow> tool_call list \<Rightarrow> 'w shared \<Rightarrow> call_run list \<times> 'w shared"
  ev_maxRepairAttempts :: "number option"
  ev_replan :: replan_config
  ev_intelligence :: bool
  ev_reflectionInterval :: "number option"
  ev_evaluationWindow :: "number option"
  ev_completionReflection :: bool
  ev_calibration :: "calibration_profile option"
  ev_calibrationEnabled :: bool

subsection \<open>Steps\<close>

definition ret :: "'a \<Rightarrow> ('a, 'w) act" where
  "ret x g = (Inr x, g)"

definition bind_act :: "('a, 'w) act \<Rightarrow> ('a \<Rightarrow> ('b, 'w) act) \<Rightarrow> ('b, 'w) act" where
  "bind_act m f g = (case m g of (Inl e, g') \<Rightarrow> (Inl e, g') | (Inr x, g') \<Rightarrow> f x g')"

definition lift_res :: "'a res \<Rightarrow> ('a, 'w) act" where
  "lift_res r g = (r, g)"

definition get_engine :: "('w engine \<Rightarrow> 'a) \<Rightarrow> ('a, 'w) act" where
  "get_engine f g = (Inr (f g), g)"

definition put_engine :: "('w engine \<Rightarrow> 'w engine) \<Rightarrow> (unit, 'w) act" where
  "put_engine f g = (Inr (), f g)"

definition set_world :: "'w \<Rightarrow> 'w engine \<Rightarrow> 'w engine" where
  "set_world w g = g\<lparr>en_shared := (en_shared g)\<lparr>sh_world := w\<rparr>\<rparr>"

definition call_world :: "('w \<Rightarrow> 'a \<times> 'w) \<Rightarrow> ('a, 'w) act" where
  "call_world f g = (case f (sh_world (en_shared g)) of (x, w) \<Rightarrow> (Inr x, set_world w g))"

definition call_shared :: "('w shared \<Rightarrow> 'a \<times> 'w shared) \<Rightarrow> ('a, 'w) act" where
  "call_shared f g = (case f (en_shared g) of (x, sh) \<Rightarrow> (Inr x, g\<lparr>en_shared := sh\<rparr>))"

definition or_throw :: "js_error option \<Rightarrow> (unit, 'w) act" where
  "or_throw e g = (case e of None \<Rightarrow> (Inr (), g) | Some x \<Rightarrow> (Inl x, g))"

definition when_act :: "bool \<Rightarrow> ('a \<Rightarrow> ('a, 'w) act) \<Rightarrow> 'a \<Rightarrow> ('a, 'w) act" where
  "when_act b f x = (if b then f x else ret x)"

fun for_each :: "('x \<Rightarrow> 'a \<Rightarrow> ('a, 'w) act) \<Rightarrow> 'x list \<Rightarrow> 'a \<Rightarrow> ('a, 'w) act" where
  "for_each f [] a = ret a"
| "for_each f (x # xs) a = bind_act (f x a) (for_each f xs)"

definition yield_event :: "agent_event \<Rightarrow> (unit, 'w) act" where
  "yield_event e = put_engine (\<lambda>g. g\<lparr>en_yielded := en_yielded g @ [e]\<rparr>)"

definition status_changed :: agent_event where
  "status_changed = Transient_event ''status.changed''"

definition aborted :: "'w engine_env \<Rightarrow> (bool, 'w) act" where
  "aborted E = get_engine (\<lambda>g. ev_aborted E (sh_world (en_shared g)))"

subsection \<open>Persisting and reducing\<close>

definition journal_append :: "'w engine_env \<Rightarrow> fact_event \<Rightarrow> durability \<Rightarrow> (unit, 'w) act" where
  "journal_append E f d =
     (case ev_journal E of
        None \<Rightarrow> ret ()
      | Some jwrite \<Rightarrow>
          bind_act (put_engine (\<lambda>g. g\<lparr>en_appended := en_appended g @ [(f, d)]\<rparr>)) (\<lambda>_.
          bind_act (call_world (jwrite f d)) or_throw))"

definition persistAndReduce :: "'w engine_env \<Rightarrow> agent_state \<Rightarrow> fact_event \<Rightarrow> durability \<Rightarrow> (agent_state, 'w) act" where
  "persistAndReduce E s f d = bind_act (journal_append E f d) (\<lambda>_. lift_res (reduce (ev_host E) s f))"

text \<open>The pair of statements \<open>yield fact; state = yield* this.persistAndReduce(state, fact, ...)\<close>.\<close>

definition publish :: "'w engine_env \<Rightarrow> fact_event \<Rightarrow> durability \<Rightarrow> agent_state \<Rightarrow> (agent_state, 'w) act" where
  "publish E f d s = bind_act (yield_event (Fact_event f)) (\<lambda>_. persistAndReduce E s f d)"

fun factDurability :: "fact_event \<Rightarrow> durability" where
  "factDurability (User_message_accepted m) = Flush"
| "factDurability (Model_attempt_failed f) = Flush"
| "factDurability (Permission_decided d) = Flush"
| "factDurability (Tool_call_accepted c) = Flush"
| "factDurability (Tool_call_completed r) = Flush"
| "factDurability (Reflection_recorded r) = Flush"
| "factDurability (Reflection_evaluated e) = Flush"
| "factDurability (Plan_health_assessed a) = Flush"
| "factDurability (Tool_lane_selected l) = Flush"
| "factDurability (Loop_stagnation_detected r) = Flush"
| "factDurability (Strategy_adapted a b r) = Flush"
| "factDurability (Workspace_mutation_started m) = Flush"
| "factDurability (Run_terminated t) = Flush"
| "factDurability f = Buffered"

definition set_phase :: "loop_phase \<Rightarrow> agent_state \<Rightarrow> (agent_state, 'w) act" where
  "set_phase p s = bind_act (yield_event status_changed) (\<lambda>_. ret (s\<lparr>ag_phase := p\<rparr>))"

definition terminate :: "'w engine_env \<Rightarrow> terminal_reason \<Rightarrow> (terminal_reason, 'w) act" where
  "terminate E t =
     bind_act (yield_event (Fact_event (Run_terminated t))) (\<lambda>_.
     bind_act (case ev_journal E of
                 None \<Rightarrow> ret ()
               | Some jwrite \<Rightarrow>
                   bind_act (journal_append E (Run_terminated t) Flush) (\<lambda>_. bind_act (call_world (ev_drain E)) or_throw)) (\<lambda>_.
     bind_act (yield_event status_changed) (\<lambda>_. ret t)))"

subsection \<open>Helpers\<close>

definition last_message_id :: "agent_state \<Rightarrow> string option" where
  "last_message_id s = (if ag_messages s = [] then None else Some (msg_id (last (ag_messages s))))"

definition makeEngineMessage :: "'w engine_env \<Rightarrow> agent_state \<Rightarrow> string \<Rightarrow> (conversation_message, 'w) act" where
  "makeEngineMessage E s body =
     bind_act (call_world (ev_next E ''msg'')) (\<lambda>i.
     bind_act (call_world (ev_iso E)) (\<lambda>now.
     ret \<lparr>msg_id = i, msg_parentId = last_message_id s, msg_sessionId = ag_sessionId s, msg_turnId = ag_turnId s,
          msg_role = User_role, msg_content = [Text_block body], msg_createdAt = now,
          msg_meta = Some \<lparr>mm_model = None, mm_usage = None, mm_source = Some Engine_source, mm_synthetic = Some True\<rparr>\<rparr>))"

definition inject :: "'w engine_env \<Rightarrow> string \<Rightarrow> agent_state \<Rightarrow> (agent_state, 'w) act" where
  "inject E body s =
     bind_act (makeEngineMessage E s body) (\<lambda>m. publish E (User_message_accepted m) Flush s)"

definition transition :: "'w engine_env \<Rightarrow> continue_transition \<Rightarrow> agent_state \<Rightarrow> (agent_state, 'w) act" where
  "transition E t = publish E (Loop_transitioned t) Buffered"

definition human_text :: "conversation_message \<Rightarrow> string option" where
  "human_text m =
     (let t = js_join [CHR 0x0A] (map (\<lambda>b. case b of Text_block t \<Rightarrow> t | _ \<Rightarrow> []) (filter is_Text_block (msg_content m)))
      in if (has_source Human m \<or> (msg_role m = User_role \<and> msg_meta m = None)) \<and> js_trim t \<noteq> [] then Some t else None)"

definition firstHumanText :: "agent_state \<Rightarrow> string" where
  "firstHumanText s =
     (case List.map_filter human_text (ag_messages s) of
        t # ts \<Rightarrow> t
      | [] \<Rightarrow> ''(no explicit user goal recorded)'')"

definition describeWrites :: "agent_state \<Rightarrow> string" where
  "describeWrites s =
     (let writes = filter (\<lambda>r. tr_ok r \<and> tr_toolName r \<in> {''Edit'', ''Write'', ''ApplyPatch'', ''Shell''})
                     (obj_values (ag_toolResults s))
      in if writes = [] then ''No write tools were executed.''
         else js_join [CHR 0x0A] (map (\<lambda>r. tr_toolName r @ '' (call '' @ tr_callId r @ ''): ok'') writes))"

definition reflectionInterval :: "'w engine_env \<Rightarrow> number" where
  "reflectionInterval E = max 1 (or_else (ev_reflectionInterval E) 8)"

definition reflectionEvaluationWindow :: "'w engine_env \<Rightarrow> number" where
  "reflectionEvaluationWindow E = max 1 (min 20 (or_else (ev_evaluationWindow E) 3))"

definition calibrationProfile :: "'w engine_env \<Rightarrow> agent_state \<Rightarrow> calibration_profile option" where
  "calibrationProfile E s =
     (if \<not> ev_calibrationEnabled E then None
      else case ag_selection s of Some sel \<Rightarrow> Some (sel_profile sel) | None \<Rightarrow> ev_calibration E)"

definition selectionHash :: "agent_state \<Rightarrow> string option" where
  "selectionHash s = map_option sel_hash (ag_selection s)"

definition lastApproved :: "plan_store \<Rightarrow> plan_version option" where
  "lastApproved st = map_option (plan_at st) (st_lastApproved st)"

definition has_plans :: "'w engine_env \<Rightarrow> bool" where
  "has_plans E \<longleftrightarrow> (case ev_gate E of None \<Rightarrow> False | Some d \<Rightarrow> gd_plans d)"

definition has_tasks :: "'w engine_env \<Rightarrow> bool" where
  "has_tasks E \<longleftrightarrow> (case ev_gate E of None \<Rightarrow> False | Some d \<Rightarrow> gd_tasks d)"

definition has_evidence :: "'w engine_env \<Rightarrow> bool" where
  "has_evidence E \<longleftrightarrow> (case ev_gate E of None \<Rightarrow> False | Some d \<Rightarrow> gd_evidence d)"

definition approved_plan :: "'w engine_env \<Rightarrow> 'w shared \<Rightarrow> plan_version option" where
  "approved_plan E sh = (if has_plans E then lastApproved (sh_plans sh) else None)"

definition evidence_list :: "'w engine_env \<Rightarrow> 'w shared \<Rightarrow> evidence_receipt list" where
  "evidence_list E sh = (if has_evidence E then es_list (sh_evidence sh) else [])"

definition stale_ids :: "'w engine_env \<Rightarrow> 'w shared \<Rightarrow> string list" where
  "stale_ids E sh = findStaleReceipts (ev_files E (sh_world sh)) (sh_evidence sh)"

subsection \<open>Preflight\<close>

definition checkPreflight :: "'w engine_env \<Rightarrow> agent_state \<Rightarrow> (terminal_reason option, 'w) act" where
  "checkPreflight E s =
     bind_act (aborted E) (\<lambda>stop.
       let b = ag_budget s; used = rb_used b
       in if stop then ret (Some (Aborted (ag_phase s)))
          else if rb_maxTurns b \<le> ag_iteration s then ret (Some (Max_turns (ag_iteration s)))
          else if rb_maxModelCalls b \<le> bu_modelCalls used then ret (Some (Budget_exhausted Model_calls_budget))
          else if rb_maxToolCalls b \<le> bu_toolCalls used then ret (Some (Budget_exhausted Tool_calls_budget))
          else bind_act (call_world (ev_now E)) (\<lambda>now.
            ret (if rb_maxWallTimeMs b \<le> now - bu_startedAt used then Some (Budget_exhausted Time_budget) else None)))"

definition write_locked :: "agent_state \<Rightarrow> bool" where
  "write_locked s \<longleftrightarrow>
     rs_degradedRecovery (ag_recovery s) \<or> (rs_replanning (ag_recovery s) \<and> rs_replanAwaitingApproval (ag_recovery s))"

definition local_repair :: "agent_state \<Rightarrow> bool" where
  "local_repair s \<longleftrightarrow>
     \<not> rs_degradedRecovery (ag_recovery s) \<and> rs_replanning (ag_recovery s) \<and> \<not> rs_replanAwaitingApproval (ag_recovery s)"

definition sync_gates :: "agent_state \<Rightarrow> (unit, 'w) act" where
  "sync_gates s = put_engine (\<lambda>g. g\<lparr>en_writeGate := write_locked s, en_localRepair := local_repair s\<rparr>)"

subsection \<open>Supervision and reflection\<close>

definition is_pending_reflection :: "agent_state \<Rightarrow> reflection_record \<Rightarrow> bool" where
  "is_pending_reflection s r \<longleftrightarrow>
     rf_decision r \<noteq> None \<and> rp_evidenceReceipts (rf_progress r) \<noteq> None \<and>
     rp_successfulToolCalls (rf_progress r) \<noteq> None \<and>
     rf_id r \<notin> set (map re_reflectionId (ag_reflectionEvaluations s))"

definition evaluatePending :: "'w engine_env \<Rightarrow> agent_state \<Rightarrow> (agent_state, 'w) act" where
  "evaluatePending E s =
     (case find (is_pending_reflection s) (ag_reflections s) of
        None \<Rightarrow> ret s
      | Some r \<Rightarrow>
          bind_act (call_world (ev_iso E)) (\<lambda>now.
            case evaluateReflectionEffect s r ''pending'' now
                   (case rf_decision r of Some d \<Rightarrow> rd_evaluateAfterToolCalls d | None \<Rightarrow> reflectionEvaluationWindow E) of
              None \<Rightarrow> ret s
            | Some e \<Rightarrow>
                bind_act (call_world (ev_next E ''reflection_evaluation'')) (\<lambda>i.
                publish E (Reflection_evaluated (e\<lparr>re_id := i\<rparr>)) Flush s)))"

definition assessPlan :: "'w engine_env \<Rightarrow> agent_state \<Rightarrow> (agent_state, 'w) act" where
  "assessPlan E s =
     bind_act (get_engine en_shared) (\<lambda>sh.
     bind_act (call_world (ev_iso E)) (\<lambda>now.
       let evidence = evidence_list E sh;
           a = assessPlanHealth (ev_host E)
                 \<lparr>pi_state = s, pi_approvedPlan = approved_plan E sh, pi_evidence = evidence, pi_id = ''pending'',
                  pi_createdAt = now,
                  pi_stale = (if has_evidence E \<and> evidence \<noteq> [] then Some (stale_ids E sh) else None)\<rparr>
       in if map_option ph_signature (ag_latestPlanHealth s) = Some (ph_signature a) then ret s
          else bind_act (call_world (ev_next E ''plan_health'')) (\<lambda>i.
               publish E (Plan_health_assessed (a\<lparr>ph_id := i\<rparr>)) Flush s)))"

definition supervisePlan :: "'w engine_env \<Rightarrow> agent_state \<Rightarrow> (agent_state, 'w) act" where
  "supervisePlan E s = bind_act (evaluatePending E s) (assessPlan E)"

definition recordReflection ::
    "'w engine_env \<Rightarrow> reflection_trigger \<Rightarrow> string option \<Rightarrow> bool \<Rightarrow> agent_state \<Rightarrow> (agent_state, 'w) act" where
  "recordReflection E trigger detail injected s =
     (if list_ex (is_pending_reflection s) (ag_reflections s) then ret s
      else bind_act (call_world (ev_next E ''reflection'')) (\<lambda>i.
           bind_act (call_world (ev_iso E)) (\<lambda>now.
             let r = calibrateReflectionDecision
                       (buildReflection s i now trigger detail (ag_latestPlanHealth s) (Some (reflectionEvaluationWindow E)))
                       (calibrationProfile E s) (selectionHash s)
             in bind_act (publish E (Reflection_recorded r) Flush s)
                  (when_act injected (inject E (renderReflection r))))))"

definition adaptStrategy :: "'w engine_env \<Rightarrow> agent_state \<Rightarrow> (agent_state, 'w) act" where
  "adaptStrategy E s =
     (case deriveExecutionStrategy s of
        None \<Rightarrow> ret s
      | Some (strategy, reason) \<Rightarrow>
          publish E (Strategy_adapted (rs_executionStrategy (ag_recovery s)) strategy reason) Flush s)"

subsection \<open>Context and lane\<close>

definition context_round :: "'w engine_env \<Rightarrow> bool \<Rightarrow> agent_state \<Rightarrow> (agent_state, 'w) act" where
  "context_round E force s =
     (case ev_context E of
        None \<Rightarrow> ret s
      | Some c \<Rightarrow>
          bind_act (call_world (ev_summary E)) (\<lambda>(summarizer, stamps).
          bind_act (get_engine en_compactFailures) (\<lambda>n.
            let r = Context.prepare c summarizer
                      (stamps\<lparr>cxs_sessionId := ag_sessionId s, cxs_turnId := ag_turnId s\<rparr>) force (ag_messages s) n
            in bind_act (put_engine (\<lambda>g. g\<lparr>en_compactFailures := cpr_failures r\<rparr>)) (\<lambda>_.
               for_each (\<lambda>f. publish E f Buffered) (cpr_facts r) s))))"

definition lane_selection :: "agent_state \<Rightarrow> tool_execution_lane \<Rightarrow> tool_lane_selection" where
  "lane_selection s l =
     \<lparr>tl_turnId = ag_turnId s, tl_assessmentSignature = ln_assessmentSignature l, tl_action = ln_action l,
      tl_lane = ln_lane l, tl_mode = ln_mode l, tl_writeLocked = ln_writeLocked l, tl_replanning = ln_replanning l,
      tl_allowedTools = ln_allowedTools l, tl_blockedTools = ln_blockedTools l, tl_hash = ln_hash l\<rparr>"

definition chooseLane :: "'w engine_env \<Rightarrow> bool \<Rightarrow> agent_state \<Rightarrow> (tool_execution_lane option, 'w) act" where
  "chooseLane E locked s =
     (if ev_intelligence E
      then lift_res (buildToolExecutionLane (ev_host E)
             \<lparr>li_assessment = ag_latestPlanHealth s, li_mode = ag_mode s, li_writeLocked = locked,
              li_candidateTools = map td_name (available_tools (ev_registry E) (ag_mode s) locked None),
              li_replanning = rs_replanning (ag_recovery s)\<rparr>)
      else ret None)"

definition announceLane :: "'w engine_env \<Rightarrow> tool_execution_lane option \<Rightarrow> agent_state \<Rightarrow> (agent_state, 'w) act" where
  "announceLane E lane s =
     (case lane of
        None \<Rightarrow> ret s
      | Some l \<Rightarrow> publish E (Tool_lane_selected (lane_selection s l)) Flush s)"

subsection \<open>The model turn\<close>

datatype turn_outcome =
    Assembled assembled_turn "model_attempt_failure list"
  | Fatal_turn terminal_reason "model_attempt_failure list"

datatype attempt_outcome =
    Attempt_done assembled_turn
  | Attempt_fatal terminal_reason "model_attempt_failure list"
  | Attempt_retry model_attempt_failure number

definition attempt_failure :: "model_error \<Rightarrow> nat \<Rightarrow> failure_action \<Rightarrow> number \<Rightarrow> model_attempt_failure" where
  "attempt_failure err attempt action delay =
     \<lparr>mf_code = error_code err, mf_attempt = of_nat attempt + 1, mf_action = action, mf_delayMs = delay\<rparr>"

fun delta_event :: "model_event \<Rightarrow> agent_event list" where
  "delta_event (Text_delta i t) = [Transient_event ''model.delta'']"
| "delta_event (Thinking_delta i t) = [Transient_event ''model.thinking.delta'']"
| "delta_event e = []"

text \<open>The events are pushed as they arrive, up to the first the assembler refuses.\<close>

fun consume_stream :: "assembler \<Rightarrow> model_event list \<Rightarrow> (assembler, 'w) act" where
  "consume_stream sa [] = ret sa"
| "consume_stream sa (e # es) =
     bind_act (lift_res (push_event sa e)) (\<lambda>sa'.
     bind_act (for_each (\<lambda>d _. yield_event d) (delta_event e) ()) (\<lambda>_. consume_stream sa' es))"

definition turn_deps :: "'w engine_env \<Rightarrow> agent_state \<Rightarrow> string \<Rightarrow> string \<Rightarrow> assembler_deps" where
  "turn_deps E s i now =
     \<lparr>sd_sessionId = ag_sessionId s, sd_turnId = ag_turnId s, sd_parentId = last_message_id s, sd_model = ev_modelId E,
      sd_messageId = i, sd_now = now\<rparr>"

text \<open>The body of the \<open>try\<close>: a turn, or what was thrown, classified.\<close>

definition catch_act :: "('a, 'w) act \<Rightarrow> (js_error + 'a, 'w) act" where
  "catch_act m g = (case m g of (r, g') \<Rightarrow> (Inr r, g'))"

definition stream_turn ::
    "'w engine_env \<Rightarrow> agent_state \<Rightarrow> tool_execution_lane option \<Rightarrow> bool \<Rightarrow> (model_error + assembled_turn, 'w) act" where
  "stream_turn E s lane locked =
     bind_act (call_world (ev_stream E s lane locked)) (\<lambda>(es, thrown).
     bind_act (catch_act (consume_stream new_assembler es)) (\<lambda>r.
       case r of
         Inl e \<Rightarrow> ret (Inl (ev_classify E e))
       | Inr sa \<Rightarrow>
           (case thrown of
              Some err \<Rightarrow> ret (Inl err)
            | None \<Rightarrow>
                (case finish_turn (turn_deps E s [] []) sa of
                   Inl e \<Rightarrow> ret (Inl (ev_classify E e))
                 | Inr _ \<Rightarrow>
                     bind_act (call_world (ev_next E ''msg'')) (\<lambda>i.
                     bind_act (call_world (ev_iso E)) (\<lambda>now.
                       case finish_turn (turn_deps E s i now) sa of
                         Inl e \<Rightarrow> ret (Inl (ev_classify E e))
                       | Inr t \<Rightarrow> ret (Inr t)))))))"

definition persistModelAttemptFailure :: "'w engine_env \<Rightarrow> model_attempt_failure \<Rightarrow> (unit, 'w) act" where
  "persistModelAttemptFailure E f = journal_append E (Model_attempt_failed f) Flush"

definition surface_failure ::
    "'w engine_env \<Rightarrow> terminal_reason \<Rightarrow> model_attempt_failure \<Rightarrow> (attempt_outcome, 'w) act" where
  "surface_failure E t f = bind_act (persistModelAttemptFailure E f) (\<lambda>_. ret (Attempt_fatal t [f]))"

definition attempt_turn ::
    "'w engine_env \<Rightarrow> agent_state \<Rightarrow> tool_execution_lane option \<Rightarrow> bool \<Rightarrow> nat \<Rightarrow> (attempt_outcome, 'w) act" where
  "attempt_turn E s lane locked attempt =
     bind_act (stream_turn E s lane locked) (\<lambda>r.
       case r of
         Inr t \<Rightarrow> ret (Attempt_done t)
       | Inl err \<Rightarrow>
           bind_act (aborted E) (\<lambda>stop.
             if stop then ret (Attempt_fatal (Aborted Calling_model) [])
             else if error_code err = ''PROMPT_TOO_LONG''
             then surface_failure E Prompt_too_long (attempt_failure err attempt Surface_action 0)
             else bind_act (call_world (ev_random E)) (\<lambda>random.
               case decide_retry (ev_retry E) random err attempt of
                 None \<Rightarrow> surface_failure E (Model_error (error_code err)) (attempt_failure err attempt Surface_action 0)
               | Some delay \<Rightarrow>
                   bind_act (persistModelAttemptFailure E (attempt_failure err attempt Retry_action delay)) (\<lambda>_.
                   ret (Attempt_retry (attempt_failure err attempt Retry_action delay) delay)))))"

text \<open>The wait before a retry; \<open>True\<close> when it was cut short by the abort.\<close>

definition backoff :: "'w engine_env \<Rightarrow> number \<Rightarrow> (bool, 'w) act" where
  "backoff E delay =
     bind_act (call_world (ev_sleep E delay)) (\<lambda>thrown.
       case thrown of
         None \<Rightarrow> ret False
       | Some e \<Rightarrow> bind_act (aborted E) (\<lambda>stop. if stop then ret True else lift_res (Inl e)))"

definition remainingCalls :: "agent_state \<Rightarrow> number" where
  "remainingCalls s = max 0 (rb_maxModelCalls (ag_budget s) - bu_modelCalls (rb_used (ag_budget s)))"

abbreviation "no_calls_left \<equiv> Fatal_turn (Budget_exhausted Model_calls_budget)"

lemma below_ceiling: "of_nat n < (r :: number) \<Longrightarrow> n < nat \<lceil>r\<rceil>"
  by (metis less_ceiling_iff of_int_of_nat_eq zless_nat_eq_int_zless)

function collectModelTurn ::
    "'w engine_env \<Rightarrow> agent_state \<Rightarrow> tool_execution_lane option \<Rightarrow> bool \<Rightarrow> nat \<Rightarrow> model_attempt_failure list \<Rightarrow>
     (turn_outcome, 'w) act" where
  "collectModelTurn E s lane locked attempt failures g =
     (if remainingCalls s \<le> of_nat attempt then (Inr (no_calls_left failures), g)
      else case attempt_turn E s lane locked attempt g of
             (Inl e, g') \<Rightarrow> (Inl e, g')
           | (Inr (Attempt_done t), g') \<Rightarrow> (Inr (Assembled t failures), g')
           | (Inr (Attempt_fatal t fs), g') \<Rightarrow> (Inr (Fatal_turn t (failures @ fs)), g')
           | (Inr (Attempt_retry f delay), g') \<Rightarrow>
               if remainingCalls s \<le> of_nat (Suc attempt) then (Inr (no_calls_left (failures @ [f])), g')
               else case backoff E delay g' of
                      (Inl e, g'') \<Rightarrow> (Inl e, g'')
                    | (Inr True, g'') \<Rightarrow> (Inr (Fatal_turn (Aborted Calling_model) (failures @ [f])), g'')
                    | (Inr False, g'') \<Rightarrow> collectModelTurn E s lane locked (Suc attempt) (failures @ [f]) g'')"
  by pat_completeness auto
termination
proof (relation "measure (\<lambda>(E, s, lane, locked, attempt, failures, g). nat \<lceil>remainingCalls s\<rceil> - attempt)", goal_cases)
  case (2 E s lane locked attempt failures g p q)
  then have "attempt < nat \<lceil>remainingCalls s\<rceil>" by (intro below_ceiling) simp
  then show ?case by simp
qed simp

subsection \<open>A batch of tool calls\<close>

text \<open>A mutation announcement that the runtime has flushed before the effect is only reduced.\<close>

fun durable_mutation :: "fact_event \<Rightarrow> bool" where
  "durable_mutation (Workspace_mutation_started m) \<longleftrightarrow> mst_durableBeforeExecution m = Some True"
| "durable_mutation f \<longleftrightarrow> False"

definition consume :: "'w engine_env \<Rightarrow> agent_event \<Rightarrow> agent_state \<Rightarrow> (agent_state, 'w) act" where
  "consume E ev s =
     bind_act (yield_event ev) (\<lambda>_.
       case ev of
         Transient_event t \<Rightarrow> ret s
       | Fact_event f \<Rightarrow>
           if \<not> Facts.isFactEvent ev then ret s
           else if durable_mutation f then lift_res (reduce (ev_host E) s f)
           else persistAndReduce E s f (factDurability f))"

fun batch_calls :: "string \<Rightarrow> nat \<Rightarrow> content_block list \<Rightarrow> tool_call list" where
  "batch_calls parent k [] = []"
| "batch_calls parent k (Tool_call_block i name input # bs) =
     \<lparr>tc_id = i, tc_name = name, tc_input = input, tc_parentMessageId = parent, tc_receivedIndex = of_nat k\<rparr> #
     batch_calls parent (Suc k) bs"
| "batch_calls parent k (b # bs) = batch_calls parent k bs"

definition accept_call :: "'w engine_env \<Rightarrow> tool_call \<Rightarrow> call_ledger \<times> agent_state \<Rightarrow> (call_ledger \<times> agent_state, 'w) act" where
  "accept_call E c p =
     bind_act (lift_res (accept c (fst p))) (\<lambda>l.
     bind_act (consume E (Fact_event (Tool_call_accepted c)) (snd p)) (\<lambda>s. ret (l, s)))"

type_synonym collected = "(string \<times> tool_call_result) list"

text \<open>What the wrapper of a call does with an event of its generator.\<close>

definition observe_event :: "agent_event \<Rightarrow> call_ledger \<times> collected \<Rightarrow> (call_ledger \<times> collected) res" where
  "observe_event ev p =
     (case ev of
        Fact_event (Tool_call_completed r) \<Rightarrow>
          bind_res (complete_call (tr_callId r) (tr_callId r) False (fst p)) (\<lambda>l.
            Inr (l, obj_set (snd p) (tr_callId r) r))
      | _ \<Rightarrow> Inr p)"

fun observe_events :: "agent_event list \<Rightarrow> call_ledger \<times> collected \<Rightarrow> js_error option \<times> (call_ledger \<times> collected)" where
  "observe_events [] p = (None, p)"
| "observe_events (ev # evs) p =
     (case observe_event ev p of Inl e \<Rightarrow> (Some e, p) | Inr p' \<Rightarrow> observe_events evs p')"

text \<open>
  The outcome a call's promise settles with. The calls of a batch may overlap; each writes only
  the entry of the call it runs, so they are taken in the order received.
\<close>

definition run_call ::
    "tool_call \<times> call_run \<Rightarrow> call_ledger \<times> collected \<Rightarrow> (js_error + agent_event list) \<times> (call_ledger \<times> collected)" where
  "run_call cr p =
     (case snd cr of
        Call_skipped \<Rightarrow> (Inr [], p)
      | Call_ran evs thrown \<Rightarrow>
          (case markRunning (tc_id (fst cr)) (fst p) of
             Inl e \<Rightarrow> (Inl e, p)
           | Inr l \<Rightarrow>
               (case observe_events evs (l, snd p) of
                  (Some e, p') \<Rightarrow> (Inl e, p')
                | (None, p') \<Rightarrow> ((case thrown of Some e \<Rightarrow> Inl e | None \<Rightarrow> Inr evs), p'))))"

fun run_calls ::
    "(tool_call \<times> call_run) list \<Rightarrow> call_ledger \<times> collected \<Rightarrow>
     (js_error + agent_event list) list \<times> (call_ledger \<times> collected)" where
  "run_calls [] p = ([], p)"
| "run_calls (cr # crs) p =
     (case run_call cr p of (r, p') \<Rightarrow> case run_calls crs p' of (rs, p'') \<Rightarrow> (r # rs, p''))"

text \<open>The mutation facts the runtime journals ahead of the effects of these calls.\<close>

fun run_events :: "call_run \<Rightarrow> agent_event list" where
  "run_events Call_skipped = []"
| "run_events (Call_ran evs thrown) = evs"

definition fact_list :: "agent_event list \<Rightarrow> fact_event list" where
  "fact_list evs = List.map_filter (\<lambda>ev. case ev of Fact_event f \<Rightarrow> if Facts.isFactEvent ev then Some f else None | _ \<Rightarrow> None) evs"

definition hook_appends :: "call_run list \<Rightarrow> (fact_event \<times> durability) list" where
  "hook_appends runs = map (\<lambda>f. (f, Flush)) (filter durable_mutation (fact_list (concat (map run_events runs))))"

definition log_hook :: "'w engine_env \<Rightarrow> call_run list \<Rightarrow> (unit, 'w) act" where
  "log_hook E runs =
     put_engine (\<lambda>g. if ev_journal E = None then g else g\<lparr>en_appended := en_appended g @ hook_appends runs\<rparr>)"

definition run_tools ::
    "'w engine_env \<Rightarrow> agent_state \<Rightarrow> tool_execution_lane option \<Rightarrow> bool \<Rightarrow> tool_call list \<Rightarrow> (call_run list, 'w) act" where
  "run_tools E s lane locked calls =
     bind_act (call_shared (ev_runCalls E s lane locked calls)) (\<lambda>all_runs.
       let runs = take (length calls) all_runs in bind_act (log_hook E runs) (\<lambda>_. ret runs))"

text \<open>The scheduler replays the outcomes in the order received and stops at the first rejection.\<close>

definition replay_call :: "'w engine_env \<Rightarrow> js_error + agent_event list \<Rightarrow> agent_state \<Rightarrow> (agent_state, 'w) act" where
  "replay_call E r s = bind_act (lift_res r) (\<lambda>evs. for_each (consume E) evs s)"

definition result_block :: "tool_call_result \<Rightarrow> string \<Rightarrow> content_block" where
  "result_block r i = Tool_result_block i (tr_ok r) (tr_content r) (tr_errorCode r) (tr_observation r)"

fun result_blocks :: "tool_call list \<Rightarrow> collected \<Rightarrow> content_block list res" where
  "result_blocks [] m = Inr []"
| "result_blocks (c # cs) m =
     (case obj_get m (tc_id c) of
        None \<Rightarrow> Inl (InvariantError ''single_terminal_tool_result'')
      | Some r \<Rightarrow> bind_res (result_blocks cs m) (\<lambda>bs. Inr (result_block r (tc_id c) # bs)))"

definition INTERRUPTED_CALL :: string where
  "INTERRUPTED_CALL = ''Tool call was interrupted before completion.''"

text \<open>What follows the scheduler: the calls left open get a synthetic result, then the message is built.\<close>

definition tool_message :: "conversation_message \<Rightarrow> agent_state \<Rightarrow> content_block list \<Rightarrow> string \<Rightarrow> string \<Rightarrow> conversation_message" where
  "tool_message parent s0 blocks i now =
     \<lparr>msg_id = i, msg_parentId = Some (msg_id parent), msg_sessionId = ag_sessionId s0, msg_turnId = ag_turnId s0,
      msg_role = User_role, msg_content = blocks, msg_createdAt = now,
      msg_meta = Some \<lparr>mm_model = None, mm_usage = None, mm_source = Some Tool_source, mm_synthetic = None\<rparr>\<rparr>"

definition settle_batch ::
    "'w engine_env \<Rightarrow> conversation_message \<Rightarrow> agent_state \<Rightarrow> tool_call list \<Rightarrow> call_ledger \<times> collected \<Rightarrow> agent_state \<Rightarrow>
     (agent_state, 'w) act" where
  "settle_batch E parent s0 calls p s =
     (let synthesized = fst (synthesizeOpen INTERRUPTED_CALL ''TOOL_ABORTED'' (fst p));
          results = fold (\<lambda>r m. obj_set m (tr_callId r) r) synthesized (snd p)
      in bind_act (for_each (\<lambda>r. consume E (Fact_event (Tool_call_completed r))) synthesized s) (\<lambda>s.
         bind_act (lift_res (result_blocks calls results)) (\<lambda>blocks.
         bind_act (call_world (ev_next E ''msg'')) (\<lambda>i.
         bind_act (call_world (ev_iso E)) (\<lambda>now.
         consume E (Fact_event (Tool_result_message (tool_message parent s0 blocks i now))) s)))))"

definition executeToolBatch ::
    "'w engine_env \<Rightarrow> conversation_message \<Rightarrow> tool_execution_lane option \<Rightarrow> bool \<Rightarrow> agent_state \<Rightarrow> (agent_state, 'w) act" where
  "executeToolBatch E parent lane locked s0 =
     (let calls = batch_calls (msg_id parent) 0 (msg_content parent)
      in bind_act (for_each (accept_call E) calls ([], s0)) (\<lambda>(l, s).
         bind_act (run_tools E s0 lane locked calls) (\<lambda>runs.
         bind_act (ret (run_calls (zip calls runs) (l, []))) (\<lambda>(outcomes, p).
         bind_act (for_each (replay_call E) outcomes s) (settle_batch E parent s0 calls p)))))"

subsection \<open>Replanning\<close>

definition replan_cause_text :: "replan_decision \<Rightarrow> string" where
  "replan_cause_text d = (case rpd_cause d of None \<Rightarrow> ''unknown'' | Some c \<Rightarrow> cause_text c)"

definition superseded_task :: "plan_version \<Rightarrow> plan_task \<Rightarrow> bool" where
  "superseded_task p t \<longleftrightarrow>
     tk_planId t = Some (pl_planId p) \<and> tk_planVersion t = Some (pl_version p) \<and>
     (tk_status t = Pending \<or> tk_status t = In_progress)"

definition block_input :: "plan_version \<Rightarrow> plan_task \<Rightarrow> update_task_input" where
  "block_input p t =
     \<lparr>ut_id = tk_id t, ut_expectedRevision = tk_revision t,
      ut_patch = \<lparr>tp_subject = None, tp_description = None, tp_activeForm = None, tp_status = Some Blocked, tp_dependsOn = None,
        tp_acceptanceCriteria = None, tp_evidenceIds = None,
        tp_blockedReason = Some (''plan '' @ pl_planId p @ ''@'' @ show_num (pl_version p) @ '' superseded by replan'')\<rparr>\<rparr>"

definition no_options :: task_options where
  "no_options = \<lparr>to_criteria = [], to_evidence = [], to_usability = \<lparr>uo_stale = None, uo_workspaceRoot = None\<rparr>\<rparr>"

text \<open>Each task is updated as listed at the start: the list is a copy of the references.\<close>

definition retire_task :: "'w engine_env \<Rightarrow> plan_version \<Rightarrow> plan_task \<Rightarrow> agent_state \<Rightarrow> (agent_state, 'w) act" where
  "retire_task E p t s =
     (if \<not> superseded_task p t then ret s
      else bind_act (call_world (ev_iso E)) (\<lambda>now.
           bind_act (get_engine (\<lambda>g. update_task (ev_host E) now (block_input p t) no_options (sh_tasks (en_shared g)))) (\<lambda>r.
             case r of
               Inl e \<Rightarrow> ret s
             | Inr (u, ts) \<Rightarrow>
                 bind_act (put_engine (\<lambda>g. g\<lparr>en_shared := (en_shared g)\<lparr>sh_tasks := ts\<rparr>\<rparr>)) (\<lambda>_.
                 publish E (Task_changed u) Buffered s))))"

definition retire_tasks :: "'w engine_env \<Rightarrow> plan_version \<Rightarrow> agent_state \<Rightarrow> (agent_state, 'w) act" where
  "retire_tasks E p s =
     (if has_tasks E
      then bind_act (get_engine (\<lambda>g. map snd (sh_tasks (en_shared g)))) (\<lambda>ts. for_each (retire_task E p) ts s)
      else ret s)"

definition supersede_approved :: "'w engine_env \<Rightarrow> agent_state \<Rightarrow> (agent_state, 'w) act" where
  "supersede_approved E s =
     bind_act (get_engine (\<lambda>g. approved_plan E (en_shared g))) (\<lambda>plan.
       case plan of
         None \<Rightarrow> ret s
       | Some p \<Rightarrow>
           bind_act (get_engine (\<lambda>g. markSuperseded (pl_planId p) (pl_version p) (sh_plans (en_shared g)))) (\<lambda>r.
           bind_act (lift_res r) (\<lambda>st.
           bind_act (put_engine (\<lambda>g. g\<lparr>en_shared := (en_shared g)\<lparr>sh_plans := st\<rparr>\<rparr>)) (\<lambda>_.
           bind_act (publish E (Plan_status_changed (pl_planId p) (pl_version p)) Flush s) (retire_tasks E p)))))"

definition replan_instruction :: "replan_decision \<Rightarrow> plan_version option \<Rightarrow> string" where
  "replan_instruction d local_plan =
     (if rpd_requiresReapproval d
      then rpd_message d @ [CHR 0x0A] @ ''Write tools are DISABLED until a revised plan version is approved. '' @
           ''Explore read-only, persist the revision with PlanPropose, then call ExitPlanMode.''
      else (case local_plan of
              Some p \<Rightarrow> rpd_message d @ [CHR 0x0A] @ ''Use PlanRepair on '' @ pl_planId p @ ''@'' @ show_num (pl_version p) @
                '' to replace only the affected step. Preserve dependencies and acceptance criteria; '' @
                ''a file-scope expansion requires a full PlanPropose + approval flow.''
            | None \<Rightarrow> rpd_message d))"

text \<open>The plan a low-impact replan repairs in place: the approved one, if it has steps.\<close>

definition repairable_plan :: "'w engine_env \<Rightarrow> replan_decision \<Rightarrow> 'w shared \<Rightarrow> plan_version option" where
  "repairable_plan E d sh =
     (if rpd_requiresReapproval d then None
      else case approved_plan E sh of None \<Rightarrow> None | Some p \<Rightarrow> if pl_steps p = [] then None else Some p)"

definition applyReplan :: "'w engine_env \<Rightarrow> replan_decision \<Rightarrow> agent_state \<Rightarrow> (agent_state, 'w) act" where
  "applyReplan E d s =
     bind_act (when_act (ev_intelligence E) (recordReflection E Replan (Some (rpd_message d)) False) s) (\<lambda>s.
     bind_act (publish E (Replan_requested (replan_cause_text d) (rpd_requiresReapproval d)) Flush s) (\<lambda>s.
     bind_act (get_engine (\<lambda>g. repairable_plan E d (en_shared g))) (\<lambda>local_plan.
     bind_act (if rpd_requiresReapproval d
               then bind_act (supersede_approved E s) (\<lambda>s.
                    bind_act (put_engine (\<lambda>g. g\<lparr>en_writeGate := True\<rparr>)) (\<lambda>_. ret s))
               else ret s) (\<lambda>s.
     bind_act (inject E (replan_instruction d local_plan) s) (\<lambda>s.
     bind_act (transition E (Replan_required (replan_cause_text d)) s) (\<lambda>s.
     when_act (\<not> rpd_requiresReapproval d \<and> local_plan = None)
       (publish E (Replan_adjustment_applied (replan_cause_text d) (rpd_message d)) Flush) s))))))"

text \<open>\<open>Some\<close> new state when a replan was applied; at most two are, and only with a plan store.\<close>

definition try_replan ::
    "'w engine_env \<Rightarrow> string list option \<Rightarrow> bool \<Rightarrow> agent_state \<Rightarrow> (agent_state option, 'w) act" where
  "try_replan E failures with_reflections s =
     (if rs_replanCount (ag_recovery s) < 2 \<and> has_plans E
      then bind_act (get_engine (\<lambda>g. approved_plan E (en_shared g))) (\<lambda>plan.
             let d = detectReplanTrigger (ev_host E)
                   \<lparr>rpi_state = s, rpi_approvedPlan = plan, rpi_config = ev_replan E,
                    rpi_consecutiveFailures = rs_consecutiveFailures (ag_recovery s),
                    rpi_versionConflicts = rs_versionConflicts (ag_recovery s), rpi_verificationFailures = failures,
                    rpi_ineffectiveReflections =
                      (if with_reflections then Some (rs_ineffectiveReflectionCount (ag_recovery s)) else None)\<rparr>
             in if rpd_required d then bind_act (applyReplan E d s) (\<lambda>s. ret (Some s)) else ret None)
      else ret None)"

subsection \<open>One round of the loop\<close>

datatype loop_outcome = Next_round agent_state | Stopped terminal_reason agent_state

definition stop_run :: "'w engine_env \<Rightarrow> terminal_reason \<Rightarrow> agent_state \<Rightarrow> (loop_outcome, 'w) act" where
  "stop_run E t s = bind_act (terminate E t) (\<lambda>t. ret (Stopped t s))"

definition next_round :: "agent_state \<Rightarrow> (loop_outcome, 'w) act" where
  "next_round s = ret (Next_round s)"

definition publish_failures :: "'w engine_env \<Rightarrow> model_attempt_failure list \<Rightarrow> agent_state \<Rightarrow> (agent_state, 'w) act" where
  "publish_failures E = for_each (\<lambda>f s.
     bind_act (yield_event (Fact_event (Model_attempt_failed f))) (\<lambda>_. lift_res (reduce (ev_host E) s (Model_attempt_failed f))))"

text \<open>A fatal turn: one forced compaction for a prompt that is too long, otherwise the end.\<close>

definition mark_overflow :: "agent_state \<Rightarrow> agent_state" where
  "mark_overflow s = s\<lparr>ag_recovery := (ag_recovery s)\<lparr>rs_promptOverflowRecovered := True\<rparr>\<rparr>"

definition fatal_round :: "'w engine_env \<Rightarrow> terminal_reason \<Rightarrow> agent_state \<Rightarrow> (loop_outcome, 'w) act" where
  "fatal_round E t s =
     (if t = Prompt_too_long \<and> ev_context E \<noteq> None \<and> \<not> rs_promptOverflowRecovered (ag_recovery s)
      then bind_act (context_round E True s) (\<lambda>s.
           bind_act (transition E Reactive_compact_retry (mark_overflow s)) next_round)
      else stop_run E t s)"

definition periodic_snapshot :: "'w engine_env \<Rightarrow> agent_state \<Rightarrow> (agent_state, 'w) act" where
  "periodic_snapshot E s =
     (if ag_iteration s / 3 = of_int \<lfloor>ag_iteration s / 3\<rfloor> \<and> ev_journal E \<noteq> None
      then bind_act (get_engine (\<lambda>g. ev_currentSeq E (sh_world (en_shared g)))) (\<lambda>n.
           bind_act (lift_res (createSnapshot (ev_host E) s (Some n))) (\<lambda>sn.
           publish E (State_snapshot sn) Flush s))
      else ret s)"

definition reflect_round :: "'w engine_env \<Rightarrow> agent_state \<Rightarrow> (agent_state, 'w) act" where
  "reflect_round E s =
     bind_act (supervisePlan E s) (\<lambda>s.
       case detectStagnation s of
         Some r \<Rightarrow>
           bind_act (publish E (Loop_stagnation_detected r) Flush s) (recordReflection E Stagnation (Some (sg_detail r)) False)
       | None \<Rightarrow>
           if shouldReflect s Periodic (reflectionInterval E) then recordReflection E Periodic None False s else ret s)"

definition violation_text :: "plan_violation list \<Rightarrow> string" where
  "violation_text vs =
     ''Plan constraint violations detected:'' @ [CHR 0x0A] @
     js_join [CHR 0x0A]
       (map (\<lambda>v. ''- ['' @ (if vio_error v then ''error'' else ''warning'') @ ''] '' @ vio_detail v) vs) @
     [CHR 0x0A] @ ''Stay within the approved plan scope, or trigger a replan.''"

definition constraint_hint :: "'w engine_env \<Rightarrow> agent_state \<Rightarrow> (agent_state, 'w) act" where
  "constraint_hint E s =
     bind_act (get_engine (\<lambda>g. (en_hintEmitted g, approved_plan E (en_shared g)))) (\<lambda>(emitted, plan).
       let vs = checkPlanConstraints (ev_host E) s plan (ag_tasks s)
       in if emitted \<or> vs = [] then ret s
          else bind_act (put_engine (\<lambda>g. g\<lparr>en_hintEmitted := True\<rparr>)) (\<lambda>_. inject E (violation_text vs) s))"

definition tool_round ::
    "'w engine_env \<Rightarrow> conversation_message \<Rightarrow> nat \<Rightarrow> tool_execution_lane option \<Rightarrow> bool \<Rightarrow> agent_state \<Rightarrow> (loop_outcome, 'w) act" where
  "tool_round E parent callCount lane locked s =
     bind_act (set_phase Executing_tools s) (\<lambda>s.
     bind_act (executeToolBatch E parent lane locked s) (\<lambda>s.
     bind_act (transition E (Tool_results_ready callCount) s) (\<lambda>s.
     bind_act (periodic_snapshot E s) (\<lambda>s.
     bind_act (when_act (ev_intelligence E) (reflect_round E) s) (\<lambda>s.
     bind_act (try_replan E None True s) (\<lambda>r.
       case r of
         Some s \<Rightarrow> next_round s
       | None \<Rightarrow> bind_act (constraint_hint E s) next_round))))))"

text \<open>The completion reflection: \<open>Some\<close> state when one was recorded and the loop goes on.\<close>

definition completion_reflection :: "'w engine_env \<Rightarrow> agent_state \<Rightarrow> (agent_state option \<times> agent_state, 'w) act" where
  "completion_reflection E s =
     (if ev_intelligence E \<and> ev_completionReflection E \<and> shouldReflect s Completion (reflectionInterval E)
      then bind_act (recordReflection E Completion None False s) (\<lambda>s'.
             if map_option rf_id (last_opt (ag_reflections s')) \<noteq> map_option rf_id (last_opt (ag_reflections s))
             then bind_act (transition E (Reflection_requested Completion) s') (\<lambda>s''. ret (Some s'', s''))
             else ret (None, s'))
      else ret (None, s))"

definition unverified_items :: "verification_report \<Rightarrow> string list" where
  "unverified_items r =
     map vf_title (vr_failures r) @ map (\<lambda>u. uv_item u @ '': '' @ uv_reason u) (vr_unverified r)"

definition give_up :: "'w engine_env \<Rightarrow> verification_report \<Rightarrow> agent_state \<Rightarrow> (loop_outcome, 'w) act" where
  "give_up E report s =
     bind_act (try_replan E (Some (map vf_title (vr_failures report))) False s) (\<lambda>r.
       case r of
         Some s \<Rightarrow> next_round s
       | None \<Rightarrow> stop_run E (Completed_with_unverified_items (unverified_items report)) s)"

definition blocked_round :: "'w engine_env \<Rightarrow> gate_result \<Rightarrow> agent_state \<Rightarrow> (loop_outcome, 'w) act" where
  "blocked_round E gate s =
     (if 1 \<le> rs_stopHookRetries (ag_recovery s)
      then stop_run E (Completed_with_unverified_items (map requirement_detail (gr_missing gate))) s
      else let s = s\<lparr>ag_recovery := (ag_recovery s)\<lparr>rs_stopHookRetries := rs_stopHookRetries (ag_recovery s) + 1\<rparr>\<rparr>
           in bind_act (inject E (or_else (gr_message gate) []) s) (\<lambda>s.
              bind_act (transition E (Stop_hook_blocking (rs_stopHookRetries (ag_recovery s))) s) next_round))"

definition repair_text :: "verification_report \<Rightarrow> string" where
  "repair_text r =
     ''Independent verification FAILED. Fix these findings, then re-verify:'' @ [CHR 0x0A] @
     js_join [CHR 0x0A] (map (\<lambda>f. ''- ['' @ severity_text (vf_severity f) @ ''] '' @ vf_title f @
       (if vf_reproduction f = [] then [] else [CHR 0x0A] @ ''  repro: '' @ js_join ''; '' (vf_reproduction f))) (vr_failures r))"

definition maxRepairs :: "'w engine_env \<Rightarrow> number" where
  "maxRepairs E = or_else (ev_maxRepairAttempts E) 1"

definition repair_attempt :: "'w engine_env \<Rightarrow> verification_report \<Rightarrow> agent_state \<Rightarrow> number option" where
  "repair_attempt E r s =
     (if vr_verdict r = FAIL \<and> rs_verifierRepairs (ag_recovery s) < maxRepairs E
      then Some (rs_verifierRepairs (ag_recovery s) + 1) else None)"

definition repair_round :: "'w engine_env \<Rightarrow> verification_report \<Rightarrow> number \<Rightarrow> agent_state \<Rightarrow> (loop_outcome, 'w) act" where
  "repair_round E r n s =
     bind_act (when_act (ev_intelligence E)
       (recordReflection E Verification
         (Some (''Verifier reported '' @ show_num (of_nat (length (vr_failures r))) @ '' failures.'')) False) s) (\<lambda>s.
     bind_act (inject E (repair_text r) s) (\<lambda>s.
     bind_act (transition E (Verification_repair n) s) next_round))"

definition verify_round ::
    "'w engine_env \<Rightarrow> (string \<Rightarrow> plan_version option \<Rightarrow> string \<Rightarrow> 'w shared \<Rightarrow> (js_error + last_verification) \<times> 'w shared) \<Rightarrow>
     agent_state \<Rightarrow> (loop_outcome, 'w) act" where
  "verify_round E verifier s =
     bind_act (set_phase Verifying s) (\<lambda>s.
     bind_act (get_engine (\<lambda>g. approved_plan E (en_shared g))) (\<lambda>plan.
     bind_act (call_shared (verifier (firstHumanText s) plan (describeWrites s))) (\<lambda>r.
     bind_act (lift_res r) (\<lambda>v.
       let report = lv_report v; attempt = repair_attempt E report s
       in bind_act (publish E (Verification_completed report (lv_valid v) attempt) Flush s) (\<lambda>s.
            case attempt of
              Some n \<Rightarrow> repair_round E report n s
            | None \<Rightarrow>
                if vr_verdict report \<noteq> PASS then give_up E report s
                else stop_run E Completed_run s)))))"

definition gate_input_of :: "'w engine_env \<Rightarrow> gate_deps \<Rightarrow> 'w shared \<Rightarrow> agent_state \<Rightarrow> gate_input" where
  "gate_input_of E d sh s =
     \<lparr>gi_state = s, gi_approvedPlan = approved_plan E sh, gi_evidence = evidence_list E sh,
      gi_riskThreshold = gd_riskThreshold d,
      gi_stale = (if has_evidence E then Some (stale_ids E sh) else None),
      gi_workspaceRoot = (if has_evidence E then es_workspaceRoot (sh_evidence sh) else None),
      gi_workspaceRevision = (if has_evidence E then Some (es_revision (sh_evidence sh)) else None)\<rparr>"

definition gate_round :: "'w engine_env \<Rightarrow> gate_deps \<Rightarrow> agent_state \<Rightarrow> (loop_outcome, 'w) act" where
  "gate_round E d s =
     bind_act (get_engine (\<lambda>g. evaluateCompletion (ev_host E) (gate_input_of E d (en_shared g) s))) (\<lambda>gate.
       if gr_action gate = Continue then blocked_round E gate s
       else case ag_lastVerification s of
              Some v \<Rightarrow>
                if \<not> lv_valid v \<or> vr_verdict (lv_report v) \<noteq> PASS then give_up E (lv_report v) s
                else stop_run E Completed_run s
            | None \<Rightarrow>
                (case ev_verifier E of
                   Some verifier \<Rightarrow>
                     if gr_requiresVerification gate then verify_round E verifier s else stop_run E Completed_run s
                 | None \<Rightarrow> stop_run E Completed_run s))"

definition completion_round :: "'w engine_env \<Rightarrow> agent_state \<Rightarrow> (loop_outcome, 'w) act" where
  "completion_round E s =
     bind_act (set_phase Evaluating_completion s) (\<lambda>s.
     bind_act (completion_reflection E s) (\<lambda>(again, s).
       case again of
         Some s' \<Rightarrow> next_round s'
       | None \<Rightarrow> (case ev_gate E of None \<Rightarrow> stop_run E Completed_run s | Some d \<Rightarrow> gate_round E d s)))"

definition usage_counts :: "token_usage \<Rightarrow> number \<times> number" where
  "usage_counts u = (us_inputTokens u, us_outputTokens u)"

definition turn_round ::
    "'w engine_env \<Rightarrow> tool_execution_lane option \<Rightarrow> bool \<Rightarrow> assembled_turn \<Rightarrow> agent_state \<Rightarrow> (loop_outcome, 'w) act" where
  "turn_round E lane locked t s =
     (let m = at_message t; calls = filter is_Tool_call_block (msg_content m)
      in bind_act (publish E (Assistant_message_completed m (map_option usage_counts (at_usage t))) Buffered s) (\<lambda>s.
         if calls \<noteq> [] then tool_round E m (length calls) lane locked s else completion_round E s))"

definition prepare_round :: "'w engine_env \<Rightarrow> agent_state \<Rightarrow> (agent_state, 'w) act" where
  "prepare_round E s =
     bind_act (sync_gates s) (\<lambda>_.
     bind_act (when_act (ev_intelligence E) (\<lambda>s. bind_act (supervisePlan E s) (adaptStrategy E)) s) (\<lambda>s.
     bind_act (set_phase Preparing_context s) (context_round E False)))"

definition model_round :: "'w engine_env \<Rightarrow> agent_state \<Rightarrow> (loop_outcome, 'w) act" where
  "model_round E s =
     (let locked = write_locked s
      in bind_act (chooseLane E locked s) (\<lambda>lane.
         bind_act (announceLane E lane s) (\<lambda>s.
         bind_act (yield_event (Transient_event ''prompt.manifest'')) (\<lambda>_.
         bind_act (set_phase Calling_model s) (\<lambda>s.
         bind_act (collectModelTurn E s lane locked 0 []) (\<lambda>outcome.
           case outcome of
             Fatal_turn t fs \<Rightarrow> bind_act (publish_failures E fs s) (fatal_round E t)
           | Assembled t fs \<Rightarrow> bind_act (publish_failures E fs s) (turn_round E lane locked t)))))))"

definition round_of :: "'w engine_env \<Rightarrow> agent_state \<Rightarrow> (loop_outcome, 'w) act" where
  "round_of E s =
     bind_act (checkPreflight E s) (\<lambda>stop.
       case stop of
         Some t \<Rightarrow> stop_run E t s
       | None \<Rightarrow> bind_act (prepare_round E s) (model_round E))"

end
