(* ===== verification/EngineLogic.thy ===== *)
theory EngineLogic
  imports Engine StateProperties
begin

text \<open>
  The logic of the engine's steps: the weakest precondition of a step for a normal result, and
  the relation \<open>tracks\<close>, which every step of the loop preserves. It says that the agent state
  is reached from the one at the start by the facts yielded since, and that the journal has
  received exactly those facts, but for the ones still owed to the consumer.
\<close>

named_theorems wp_simps

subsection \<open>Weakest preconditions\<close>

definition wp :: "('a, 'w) act \<Rightarrow> ('a \<Rightarrow> 'w engine \<Rightarrow> bool) \<Rightarrow> 'w engine \<Rightarrow> bool" where
  "wp m Q g \<longleftrightarrow> (\<forall>x g'. m g = (Inr x, g') \<longrightarrow> Q x g')"

lemma wp_ret [wp_simps]: "wp (ret x) Q g \<longleftrightarrow> Q x g"
  by (simp add: wp_def ret_def)

lemma wp_bind [wp_simps]: "wp (bind_act m f) Q g \<longleftrightarrow> wp m (\<lambda>x. wp (f x) Q) g"
  by (auto simp: wp_def bind_act_def split: prod.splits sum.splits)

lemma wp_lift [wp_simps]: "wp (lift_res r) Q g \<longleftrightarrow> (\<forall>x. r = Inr x \<longrightarrow> Q x g)"
  by (auto simp: wp_def lift_res_def)

lemma wp_get [wp_simps]: "wp (get_engine f) Q g \<longleftrightarrow> Q (f g) g"
  by (auto simp: wp_def get_engine_def)

lemma wp_put [wp_simps]: "wp (put_engine f) Q g \<longleftrightarrow> Q () (f g)"
  by (auto simp: wp_def put_engine_def)

lemma wp_throw [wp_simps]: "wp (or_throw e) Q g \<longleftrightarrow> (e = None \<longrightarrow> Q () g)"
  by (auto simp: wp_def or_throw_def split: option.splits)

lemma wp_world [wp_simps]:
  "wp (call_world f) Q g \<longleftrightarrow> Q (fst (f (sh_world (en_shared g)))) (set_world (snd (f (sh_world (en_shared g)))) g)"
  by (auto simp: wp_def call_world_def split: prod.splits)

lemma wp_shared [wp_simps]:
  "wp (call_shared f) Q g \<longleftrightarrow> Q (fst (f (en_shared g))) (g\<lparr>en_shared := snd (f (en_shared g))\<rparr>)"
  by (auto simp: wp_def call_shared_def split: prod.splits)

lemma wp_aborted [wp_simps]: "wp (aborted E) Q g \<longleftrightarrow> Q (ev_aborted E (sh_world (en_shared g))) g"
  by (simp add: aborted_def wp_get)

lemma wp_when [wp_simps]: "wp (when_act b f x) Q g \<longleftrightarrow> (if b then wp (f x) Q g else Q x g)"
  by (simp add: when_act_def wp_ret)

lemma wp_conseq: "wp m P g \<Longrightarrow> (\<And>x g'. P x g' \<Longrightarrow> Q x g') \<Longrightarrow> wp m Q g"
  by (auto simp: wp_def)

lemma wp_catch [wp_simps]: "wp (catch_act m) Q g \<longleftrightarrow> (\<forall>r g'. m g = (r, g') \<longrightarrow> Q r g')"
  by (auto simp: wp_def catch_act_def split: prod.splits)

lemma wp_for_each:
  "I a g \<Longrightarrow> (\<And>x b h. x \<in> set xs \<Longrightarrow> I b h \<Longrightarrow> wp (f x b) I h) \<Longrightarrow> wp (for_each f xs a) I g"
proof (induction xs arbitrary: a g)
  case (Cons x xs)
  have "wp (f x a) I g" using Cons.prems by simp
  then show ?case using Cons.IH Cons.prems(2) by (auto simp: wp_simps intro: wp_conseq)
qed (simp add: wp_ret)

lemma wp_result: "wp m Q g \<Longrightarrow> m g = (Inr x, g') \<Longrightarrow> Q x g'"
  by (simp add: wp_def)

lemma wp_yield [wp_simps]: "wp (yield_event e) Q g \<longleftrightarrow> Q () (g\<lparr>en_yielded := en_yielded g @ [e]\<rparr>)"
  by (simp add: yield_event_def wp_put)

subsection \<open>What the facts of a run may be\<close>

text \<open>
  The facts that only the engine emits. \<open>tools_ok\<close> says that no tool forges one: it is what the
  built-in tools satisfy, and a hypothesis of the theorems that count these facts.
\<close>

fun engine_only :: "fact_event \<Rightarrow> bool" where
  "engine_only (Assistant_message_completed m u) \<longleftrightarrow> True"
| "engine_only (Model_attempt_failed f) \<longleftrightarrow> True"
| "engine_only (Replan_requested c b) \<longleftrightarrow> True"
| "engine_only (Verification_completed r v n) \<longleftrightarrow> True"
| "engine_only (Loop_transitioned t) \<longleftrightarrow> True"
| "engine_only (Run_terminated t) \<longleftrightarrow> True"
| "engine_only f \<longleftrightarrow> False"

definition tools_ok :: "'w engine_env \<Rightarrow> bool" where
  "tools_ok E \<longleftrightarrow>
     (\<forall>s lane locked calls sh. \<forall>run \<in> set (fst (ev_runCalls E s lane locked calls sh)).
        \<forall>f \<in> set (fact_list (run_events run)). \<not> engine_only f)"

text \<open>When the engine may emit a fact of its own.\<close>

fun within_bounds :: "'w engine_env \<Rightarrow> agent_state \<Rightarrow> fact_event \<Rightarrow> bool" where
  "within_bounds E s (Assistant_message_completed m u) \<longleftrightarrow>
     bu_modelCalls (rb_used (ag_budget s)) < rb_maxModelCalls (ag_budget s)"
| "within_bounds E s (Model_attempt_failed f) \<longleftrightarrow>
     bu_modelCalls (rb_used (ag_budget s)) < rb_maxModelCalls (ag_budget s)"
| "within_bounds E s (Replan_requested c b) \<longleftrightarrow> rs_replanCount (ag_recovery s) < 2"
| "within_bounds E s (Verification_completed r v n) \<longleftrightarrow> n = repair_attempt E r s"
| "within_bounds E s (Run_terminated t) \<longleftrightarrow> False"
| "within_bounds E s f \<longleftrightarrow> True"

definition permitted :: "'w engine_env \<Rightarrow> agent_state \<Rightarrow> fact_event \<Rightarrow> bool" where
  "permitted E s f \<longleftrightarrow> (tools_ok E \<longrightarrow> within_bounds E s f)"

lemma permitted_tool: "(tools_ok E \<Longrightarrow> \<not> engine_only f) \<Longrightarrow> permitted E s f"
  unfolding permitted_def by (cases f) auto

lemma permitted_free [simp]: "\<not> engine_only f \<Longrightarrow> permitted E s f"
  by (simp add: permitted_tool)

lemma permitted_transition [simp]: "permitted E s (Loop_transitioned t)"
  by (simp add: permitted_def)

subsection \<open>Paths\<close>

text \<open>The members of the state that the engine sets without a fact.\<close>

definition local_update :: "agent_state \<Rightarrow> agent_state \<Rightarrow> bool" where
  "local_update s t \<longleftrightarrow>
     (\<exists>p b n. t = s\<lparr>ag_phase := p,
        ag_recovery := (ag_recovery s)\<lparr>rs_promptOverflowRecovered := b, rs_stopHookRetries := n\<rparr>\<rparr>)"

inductive path :: "'w engine_env \<Rightarrow> agent_state \<Rightarrow> fact_event list \<Rightarrow> agent_state \<Rightarrow> bool" for E s0 where
  path_start: "path E s0 [] s0"
| path_fact: "path E s0 fs s \<Longrightarrow> permitted E s f \<Longrightarrow> reduce (ev_host E) s f = Inr s' \<Longrightarrow> path E s0 (fs @ [f]) s'"
| path_local: "path E s0 fs s \<Longrightarrow> local_update s s' \<Longrightarrow> path E s0 fs s'"

lemma path_trans: "path E t gs u \<Longrightarrow> path E s fs t \<Longrightarrow> path E s (fs @ gs) u"
proof (induction rule: path.induct)
  case (path_fact gs u f u')
  from path.path_fact [OF path_fact(4) [OF path_fact(5)] path_fact(2, 3)] show ?case by (simp only: append_assoc)
next
  case (path_local gs u u')
  show ?case by (rule path.path_local [OF path_local(3) [OF path_local(4)] path_local(2)])
qed (simp only: append_Nil2)

fun is_transition :: "fact_event \<Rightarrow> bool" where
  "is_transition (Loop_transitioned t) \<longleftrightarrow> True"
| "is_transition f \<longleftrightarrow> False"

definition transitions :: "fact_event list \<Rightarrow> nat" where
  "transitions fs = length (filter is_transition fs)"

lemma transitions_append [simp]: "transitions (fs @ gs) = transitions fs + transitions gs"
  by (simp add: transitions_def)

definition journalled :: "'w engine \<Rightarrow> fact_event multiset" where
  "journalled g = mset (map fst (en_appended g))"

definition tracks ::
    "'w engine_env \<Rightarrow> nat \<Rightarrow> agent_state \<Rightarrow> 'w engine \<Rightarrow> fact_event multiset \<Rightarrow> agent_state \<Rightarrow> 'w engine \<Rightarrow> bool" where
  "tracks E k s0 g0 owed s g \<longleftrightarrow>
     (\<exists>fs. path E s0 fs s \<and> k \<le> transitions fs \<and> fact_list (en_yielded g) = fact_list (en_yielded g0) @ fs \<and>
        (ev_journal E \<noteq> None \<longrightarrow> journalled g = journalled g0 + mset fs + owed))"

lemma tracks_start: "tracks E 0 s g {#} s g"
  by (auto simp: tracks_def intro: path_start)

lemma tracks_frame:
  "en_yielded h = en_yielded g \<Longrightarrow> en_appended h = en_appended g \<Longrightarrow> tracks E k s0 g0 owed s h \<longleftrightarrow> tracks E k s0 g0 owed s g"
  by (simp add: tracks_def journalled_def)

lemma tracks_simps [simp]:
  "tracks E k s0 g0 owed s (set_world w g) = tracks E k s0 g0 owed s g"
  "tracks E k s0 g0 owed s (g\<lparr>en_compactFailures := n\<rparr>) = tracks E k s0 g0 owed s g"
  "tracks E k s0 g0 owed s (g\<lparr>en_hintEmitted := b\<rparr>) = tracks E k s0 g0 owed s g"
  "tracks E k s0 g0 owed s (g\<lparr>en_writeGate := b\<rparr>) = tracks E k s0 g0 owed s g"
  "tracks E k s0 g0 owed s (g\<lparr>en_localRepair := b\<rparr>) = tracks E k s0 g0 owed s g"
  "tracks E k s0 g0 owed s (g\<lparr>en_shared := sh\<rparr>) = tracks E k s0 g0 owed s g"
  by (rule tracks_frame; simp add: set_world_def)+

lemma fact_list_simps [simp]:
  "fact_list [] = []" "fact_list (xs @ ys) = fact_list xs @ fact_list ys"
  "fact_list [Transient_event t] = []" "fact_list (Transient_event t # ys) = fact_list ys"
  by (simp_all add: fact_list_def List.map_filter_simps map_filter_def)

lemma fact_list_single: "fact_list [Fact_event f] = (if Facts.isFactEvent (Fact_event f) then [f] else [])"
  by (simp add: fact_list_def List.map_filter_simps)

lemma reduced_is_fact: "reduce H s f = Inr s' \<Longrightarrow> fact_list [Fact_event f] = [f]"
  by (cases f) (auto simp: fact_list_single)

lemma tracks_transient [simp]:
  "tracks E k s0 g0 owed s (g\<lparr>en_yielded := en_yielded g @ [Transient_event t]\<rparr>) = tracks E k s0 g0 owed s g"
  by (simp add: tracks_def journalled_def)

lemma tracks_local: "tracks E k s0 g0 owed s g \<Longrightarrow> local_update s t \<Longrightarrow> tracks E k s0 g0 owed t g"
  unfolding tracks_def by (blast intro: path_local)

lemma local_phase [simp]: "local_update s (s\<lparr>ag_phase := p\<rparr>)"
  unfolding local_update_def
  by (rule exI [of _ p], rule exI [of _ "rs_promptOverflowRecovered (ag_recovery s)"],
      rule exI [of _ "rs_stopHookRetries (ag_recovery s)"]) simp

text \<open>The two ways to reduce a fact: paying for one that is owed, or journalling it now.\<close>

lemma tracks_fact:
  fixes E :: "'w engine_env" and h :: "'w engine"
  assumes "tracks E k s0 g0 owed s g" "permitted E s f" "reduce (ev_host E) s f = Inr s'"
    and "fact_list (en_yielded h) = fact_list (en_yielded g) @ [f]"
    and "ev_journal E \<noteq> None \<Longrightarrow> journalled h + owed = journalled g + {#f#} + owed'"
  shows "tracks E k s0 g0 owed' s' h"
proof -
  obtain fs where fs: "path E s0 fs s" "fact_list (en_yielded g) = fact_list (en_yielded g0) @ fs"
    "k \<le> transitions fs" "ev_journal E \<noteq> None \<Longrightarrow> journalled g = journalled g0 + mset fs + owed"
    using assms(1) by (auto simp: tracks_def)
  have "journalled h = journalled g0 + mset (fs @ [f]) + owed'" if "ev_journal E \<noteq> None"
  proof -
    have "journalled h + owed = journalled g0 + mset (fs @ [f]) + owed' + owed"
      using fs(4) assms(5) that by (simp add: ac_simps)
    then show ?thesis by (rule add_right_imp_eq)
  qed
  then show ?thesis
    using path_fact [OF fs(1) assms(2, 3)] fs(2, 3) assms(4) unfolding tracks_def by (intro exI [of _ "fs @ [f]"]) simp
qed

lemma append_tracks:
  "(\<And>h. en_yielded h = en_yielded g \<Longrightarrow> (ev_journal E \<noteq> None \<Longrightarrow> journalled h = journalled g + {#f#}) \<Longrightarrow> Q () h) \<Longrightarrow>
   wp (journal_append E f d) Q g"
  by (cases "ev_journal E") (auto simp: journal_append_def wp_simps journalled_def set_world_def)

lemma publish_tracks:
  fixes E :: "'w engine_env"
  assumes "tracks E k s0 g0 owed s g" "permitted E s f"
  shows "wp (publish E f d s) (tracks E k s0 g0 owed) g"
  unfolding publish_def persistAndReduce_def wp_simps
proof (rule append_tracks, clarsimp)
  fix h :: "'w engine" and s' assume h: "en_yielded h = en_yielded g @ [Fact_event f]" "reduce (ev_host E) s f = Inr s'"
    "\<exists>y. ev_journal E = Some y \<Longrightarrow> journalled h = add_mset f (journalled (g\<lparr>en_yielded := en_yielded g @ [Fact_event f]\<rparr>))"
  show "tracks E k s0 g0 owed s' h"
    by (rule tracks_fact [OF assms h(2)]) (use h reduced_is_fact [OF h(2)] in \<open>auto simp: journalled_def\<close>)
qed

subsection \<open>The steps that publish\<close>

lemma set_phase_tracks: "tracks E k s0 g0 owed s g \<Longrightarrow> wp (set_phase p s) (tracks E k s0 g0 owed) g"
  by (auto simp: set_phase_def status_changed_def wp_simps intro: tracks_local)

lemma makeEngineMessage_tracks:
  "tracks E k s0 g0 owed s g \<Longrightarrow> wp (makeEngineMessage E t b) (\<lambda>m. tracks E k s0 g0 owed s) g"
  by (simp add: makeEngineMessage_def wp_simps)

lemma inject_tracks: "tracks E k s0 g0 owed s g \<Longrightarrow> wp (inject E b s) (tracks E k s0 g0 owed) g"
  by (auto simp: inject_def wp_simps intro!: wp_conseq [OF makeEngineMessage_tracks] publish_tracks)

lemma tracks_advance:
  assumes "tracks E k s0 g0 owed s g" "reduce (ev_host E) s (Loop_transitioned t) = Inr s'"
    and "fact_list (en_yielded h) = fact_list (en_yielded g) @ [Loop_transitioned t]"
    and "ev_journal E \<noteq> None \<Longrightarrow> journalled h = add_mset (Loop_transitioned t) (journalled g)"
  shows "tracks E (Suc k) s0 g0 owed s' h"
proof -
  obtain fs where fs: "path E s0 fs s" "fact_list (en_yielded g) = fact_list (en_yielded g0) @ fs" "k \<le> transitions fs"
    "ev_journal E \<noteq> None \<Longrightarrow> journalled g = journalled g0 + mset fs + owed"
    using assms(1) by (auto simp: tracks_def)
  have "Suc k \<le> transitions (fs @ [Loop_transitioned t])" using fs(3) by (simp add: transitions_def)
  then show ?thesis
    using path_fact [OF fs(1) permitted_transition assms(2)] fs(2, 4) assms(3, 4) unfolding tracks_def
    by (intro exI [of _ "fs @ [Loop_transitioned t]"]) simp
qed

lemma transition_tracks: "tracks E k s0 g0 owed s g \<Longrightarrow> wp (transition E t s) (tracks E (Suc k) s0 g0 owed) g"
  unfolding transition_def publish_def persistAndReduce_def wp_bind wp_yield wp_lift
  by (rule append_tracks) (auto intro: tracks_advance simp: journalled_def fact_list_single)

lemma evaluatePending_tracks: "tracks E k s0 g0 owed s g \<Longrightarrow> wp (evaluatePending E s) (tracks E k s0 g0 owed) g"
  by (auto simp: evaluatePending_def wp_simps split: option.split intro!: publish_tracks)

lemma assessPlan_tracks: "tracks E k s0 g0 owed s g \<Longrightarrow> wp (assessPlan E s) (tracks E k s0 g0 owed) g"
  by (simp add: assessPlan_def wp_simps Let_def publish_tracks)

lemma supervisePlan_tracks: "tracks E k s0 g0 owed s g \<Longrightarrow> wp (supervisePlan E s) (tracks E k s0 g0 owed) g"
  by (auto simp: supervisePlan_def wp_simps intro: wp_conseq [OF evaluatePending_tracks] assessPlan_tracks)

lemma recordReflection_tracks:
  "tracks E k s0 g0 owed s g \<Longrightarrow> wp (recordReflection E tr detail b s) (tracks E k s0 g0 owed) g"
  by (auto simp: recordReflection_def wp_simps Let_def intro!: wp_conseq [OF publish_tracks] inject_tracks)

lemma adaptStrategy_tracks: "tracks E k s0 g0 owed s g \<Longrightarrow> wp (adaptStrategy E s) (tracks E k s0 g0 owed) g"
  by (auto simp: adaptStrategy_def wp_simps split: option.split prod.split intro!: publish_tracks)

lemma prepare_facts_free:
  "f \<in> set (cpr_facts (Context.prepare c model st force ms n)) \<Longrightarrow> \<not> engine_only f"
  using prepare_facts [of c model st force ms n] by (auto simp: micro_facts_def split: option.splits)

lemma context_round_tracks: "tracks E k s0 g0 owed s g \<Longrightarrow> wp (context_round E force s) (tracks E k s0 g0 owed) g"
  by (auto simp: context_round_def wp_simps Let_def split: option.split prod.split
      intro!: wp_for_each publish_tracks permitted_free dest: prepare_facts_free)

lemma announceLane_tracks: "tracks E k s0 g0 owed s g \<Longrightarrow> wp (announceLane E lane s) (tracks E k s0 g0 owed) g"
  by (auto simp: announceLane_def wp_simps split: option.split intro!: publish_tracks)

lemma chooseLane_tracks: "tracks E k s0 g0 owed s g \<Longrightarrow> wp (chooseLane E locked s) (\<lambda>l. tracks E k s0 g0 owed s) g"
  by (simp add: chooseLane_def wp_simps)

subsection \<open>The model turn\<close>

abbreviation "failure_facts fs \<equiv> mset (map Model_attempt_failed fs)"

lemma delta_transient: "d \<in> set (delta_event e) \<Longrightarrow> \<exists>t. d = Transient_event t"
  by (cases e) auto

lemma yield_deltas:
  "\<forall>d \<in> set ds. \<exists>t. d = Transient_event t \<Longrightarrow>
   for_each (\<lambda>d _. yield_event d) ds () g = (Inr (), g\<lparr>en_yielded := en_yielded g @ ds\<rparr>)"
  by (induction ds arbitrary: g) (auto simp: ret_def bind_act_def yield_event_def put_engine_def)

lemma yield_only_deltas:
  "\<forall>d \<in> set ds. \<exists>t. d = Transient_event t \<Longrightarrow>
   tracks E k s0 g0 owed s (g\<lparr>en_yielded := en_yielded g @ ds\<rparr>) = tracks E k s0 g0 owed s g"
proof -
  assume "\<forall>d \<in> set ds. \<exists>t. d = Transient_event t"
  then have "fact_list ds = []" by (induction ds) auto
  then show ?thesis by (simp add: tracks_def journalled_def)
qed

lemma consume_stream_tracks:
  "consume_stream sa es g = (r, g') \<Longrightarrow> tracks E k s0 g0 owed s g' = tracks E k s0 g0 owed s g"
proof (induction es arbitrary: sa g)
  case (Cons e es)
  show ?case
  proof (cases "push_event sa e")
    case (Inr sa')
    have ds: "\<forall>d \<in> set (delta_event e). \<exists>t. d = Transient_event t" using delta_transient by blast
    show ?thesis
      using Cons.prems Cons.IH Inr
      by (auto simp: bind_act_def lift_res_def yield_deltas [OF ds] yield_only_deltas [OF ds])
  qed (use Cons.prems in \<open>auto simp: bind_act_def lift_res_def\<close>)
qed (simp add: ret_def)

lemma catch_consume_tracks:
  "tracks E k s0 g0 owed s g \<Longrightarrow> wp (catch_act (consume_stream sa es)) (\<lambda>r. tracks E k s0 g0 owed s) g"
  unfolding wp_catch using consume_stream_tracks [of sa es g _ _ E k s0 g0 owed s] by blast

lemma stream_turn_tracks:
  "tracks E k s0 g0 owed s g \<Longrightarrow> wp (stream_turn E t lane locked) (\<lambda>r. tracks E k s0 g0 owed s) g"
  unfolding stream_turn_def wp_bind wp_world
  by (auto simp: wp_ret wp_bind wp_world split: sum.split option.split prod.split intro!: wp_conseq [OF catch_consume_tracks])

lemma persist_failure_tracks:
  "tracks E k s0 g0 owed s g \<Longrightarrow>
   wp (persistModelAttemptFailure E f) (\<lambda>_. tracks E k s0 g0 (add_mset (Model_attempt_failed f) owed) s) g"
  unfolding persistModelAttemptFailure_def by (rule append_tracks) (auto simp: tracks_def)

fun attempt_post ::
    "'w engine_env \<Rightarrow> nat \<Rightarrow> agent_state \<Rightarrow> 'w engine \<Rightarrow> fact_event multiset \<Rightarrow> agent_state \<Rightarrow> attempt_outcome \<Rightarrow> 'w engine \<Rightarrow> bool" where
  "attempt_post E k s0 g0 owed s (Attempt_done t) g \<longleftrightarrow> tracks E k s0 g0 owed s g"
| "attempt_post E k s0 g0 owed s (Attempt_fatal t fs) g \<longleftrightarrow> tracks E k s0 g0 (owed + failure_facts fs) s g \<and> length fs \<le> 1"
| "attempt_post E k s0 g0 owed s (Attempt_retry f d) g \<longleftrightarrow> tracks E k s0 g0 (add_mset (Model_attempt_failed f) owed) s g"

lemma surface_failure_tracks:
  "tracks E k s0 g0 owed s g \<Longrightarrow> wp (surface_failure E t f) (attempt_post E k s0 g0 owed s) g"
  by (auto simp: surface_failure_def wp_simps intro!: wp_conseq [OF persist_failure_tracks])

lemma attempt_turn_tracks:
  assumes "tracks E k s0 g0 owed s g"
  shows "wp (attempt_turn E t lane locked j) (attempt_post E k s0 g0 owed s) g"
  unfolding attempt_turn_def wp_bind
  by (rule wp_conseq [OF stream_turn_tracks [OF assms]])
    (auto simp: wp_simps split: sum.split option.split
      intro!: surface_failure_tracks wp_conseq [OF persist_failure_tracks])

lemma backoff_tracks: "tracks E k s0 g0 owed s g \<Longrightarrow> wp (backoff E d) (\<lambda>_. tracks E k s0 g0 owed s) g"
  by (simp add: backoff_def wp_simps split: option.split)

fun turn_failures :: "turn_outcome \<Rightarrow> model_attempt_failure list" where
  "turn_failures (Assembled t fs) = fs"
| "turn_failures (Fatal_turn t fs) = fs"

fun calls_spent :: "turn_outcome \<Rightarrow> nat" where
  "calls_spent (Assembled t fs) = Suc (length fs)"
| "calls_spent (Fatal_turn t fs) = length fs"

text \<open>Every failed attempt is journalled before the turn ends, and the turn stays within the calls left.\<close>

definition turn_post ::
    "'w engine_env \<Rightarrow> nat \<Rightarrow> agent_state \<Rightarrow> 'w engine \<Rightarrow> fact_event multiset \<Rightarrow> agent_state \<Rightarrow> agent_state \<Rightarrow> turn_outcome \<Rightarrow> 'w engine \<Rightarrow> bool" where
  "turn_post E k s0 g0 owed s t out g \<longleftrightarrow>
     tracks E k s0 g0 (owed + failure_facts (turn_failures out)) s g \<and>
     (calls_spent out = 0 \<or> of_nat (calls_spent out - 1) < remainingCalls t)"

lemma collectModelTurn_tracks:
  assumes "tracks E k s0 g0 (owed + failure_facts failures) s g" "attempt = length failures"
    and "attempt = 0 \<or> of_nat (attempt - 1) < remainingCalls t"
  shows "wp (collectModelTurn E t lane locked attempt failures) (turn_post E k s0 g0 owed s t) g"
  using assms
proof (induction E t lane locked attempt failures g rule: collectModelTurn.induct)
  case (1 E t lane locked attempt failures g)
  note step = wp_result [OF attempt_turn_tracks [OF 1(2), of t lane locked attempt]]
  show ?case
  proof (cases "remainingCalls t \<le> of_nat attempt")
    case True
    then show ?thesis using 1(2-4) by (auto simp: wp_def turn_post_def)
  next
    case more: False
    show ?thesis
    proof (cases "attempt_turn E t lane locked attempt g")
      case (Pair r h)
      show ?thesis
      proof (cases r)
        case (Inr out)
        then have post: "attempt_post E k s0 g0 (owed + failure_facts failures) s out h" using step Pair by simp
        show ?thesis
        proof (cases out)
          case (Attempt_retry f d)
          have owed: "tracks E k s0 g0 (owed + failure_facts (failures @ [f])) s h" using post Attempt_retry by simp
          show ?thesis
          proof (cases "remainingCalls t \<le> of_nat (Suc attempt)")
            case True
            then show ?thesis using more owed 1(3) Pair Inr Attempt_retry by (auto simp: wp_def turn_post_def)
          next
            case again: False
            note wait = wp_result [OF backoff_tracks [OF owed, of d]]
            have "wp (collectModelTurn E t lane locked (Suc attempt) (failures @ [f])) (turn_post E k s0 g0 owed s t) h'"
              if "backoff E d h = (Inr False, h')" for h'
              by (rule 1(1) [OF more Pair [symmetric] Inr Attempt_retry again that [symmetric] refl]) (use wait [OF that] more 1(3) in auto)
            then show ?thesis
              using more again wait 1(3) Pair Inr Attempt_retry
              by (auto simp: wp_def turn_post_def split: prod.splits sum.splits bool.splits)
          qed
        qed (use post more Pair Inr 1(3) in \<open>auto simp: wp_def turn_post_def not_le add.assoc le_Suc_eq\<close>)
      qed (use more Pair in \<open>simp add: wp_def\<close>)
    qed
  qed
qed

text \<open>The failures are paid for when the loop reduces them.\<close>

abbreviation "calls_used s \<equiv> bu_modelCalls (rb_used (ag_budget s))"
abbreviation "calls_limit s \<equiv> rb_maxModelCalls (ag_budget s)"

lemma attempt_failed_simps [simp]:
  "calls_used (reduce_attempt_failed s f) = calls_used s + 1" "calls_limit (reduce_attempt_failed s f) = calls_limit s"
  by (simp_all add: reduce_attempt_failed_def set_used_def)

lemma publish_failures_tracks:
  assumes "tracks E k s0 g0 (owed + failure_facts fs) s g"
    and "fs = [] \<or> calls_used s + of_nat (length fs - 1) < calls_limit s"
  shows "wp (publish_failures E fs s)
    (\<lambda>s' g'. tracks E k s0 g0 owed s' g' \<and> calls_used s' = calls_used s + of_nat (length fs) \<and> calls_limit s' = calls_limit s) g"
  using assms
proof (induction fs arbitrary: s g)
  case (Cons f fs)
  let ?s = "reduce_attempt_failed s f" and ?g = "g\<lparr>en_yielded := en_yielded g @ [Fact_event (Model_attempt_failed f)]\<rparr>"
  have bound: "calls_used s + of_nat (length fs) < calls_limit s" using Cons.prems(2) by simp
  then have "calls_used s < calls_limit s" by (meson le_add_same_cancel1 of_nat_0_le_iff order_le_less_trans)
  then have "permitted E s (Model_attempt_failed f)" by (simp add: permitted_def)
  then have "tracks E k s0 g0 (owed + failure_facts fs) ?s ?g"
    using tracks_fact [OF Cons.prems(1), of "Model_attempt_failed f" ?s ?g "owed + failure_facts fs"]
    by (simp add: fact_list_single journalled_def)
  moreover have "fs = [] \<or> calls_used ?s + of_nat (length fs - 1) < calls_limit ?s"
    using bound by (cases fs) (auto simp: add.assoc)
  ultimately have "wp (publish_failures E fs ?s)
    (\<lambda>s' g'. tracks E k s0 g0 owed s' g' \<and> calls_used s' = calls_used ?s + of_nat (length fs) \<and> calls_limit s' = calls_limit ?s) ?g"
    by (rule Cons.IH)
  then show ?case
    by (simp add: publish_failures_def wp_simps ac_simps)
qed (simp add: publish_failures_def wp_simps)

subsection \<open>A batch of tool calls\<close>

definition run_facts :: "call_run \<Rightarrow> fact_event list" where
  "run_facts r = fact_list (run_events r)"

text \<open>An announcement that the runtime journalled is paid for here; any other fact is journalled now.\<close>

lemma consume_tracks:
  assumes "tracks E k s0 g0 (mset (filter durable_mutation (fact_list [ev])) + owed) s g"
    and "\<forall>f \<in> set (fact_list [ev]). permitted E s f"
  shows "wp (consume E ev s) (tracks E k s0 g0 owed) g"
proof (cases ev)
  case (Fact_event f)
  show ?thesis
  proof (cases "Facts.isFactEvent ev")
    case True
    then have one: "fact_list [ev] = [f]" using Fact_event by (simp add: fact_list_single)
    show ?thesis
    proof (cases "durable_mutation f")
      case durable: True
      have owes: "tracks E k s0 g0 (add_mset f owed) s g" and perm: "permitted E s f" using assms one durable by simp_all
      have "tracks E k s0 g0 owed s' (g\<lparr>en_yielded := en_yielded g @ [ev]\<rparr>)" if "reduce (ev_host E) s f = Inr s'" for s'
        by (rule tracks_fact [OF owes perm that]) (simp_all add: one journalled_def)
      then show ?thesis using True durable Fact_event by (simp add: consume_def wp_simps)
    next
      case False
      then show ?thesis
        using True assms one publish_tracks [of E k s0 g0 owed s g f "factDurability f"]
        by (simp add: consume_def Fact_event publish_def)
    qed
  qed (use assms(1) Fact_event in \<open>auto simp: consume_def wp_simps fact_list_single tracks_def journalled_def\<close>)
qed (use assms(1) in \<open>simp add: consume_def wp_simps\<close>)

lemma fact_list_Cons: "fact_list (e # es) = fact_list [e] @ fact_list es"
  by (metis append_Cons append_Nil fact_list_simps(2))

lemma consume_all_tracks:
  assumes "tracks E k s0 g0 (mset (filter durable_mutation (fact_list evs)) + owed) s g"
    and "\<And>t f. f \<in> set (fact_list evs) \<Longrightarrow> permitted E t f"
  shows "wp (for_each (consume E) evs s) (tracks E k s0 g0 owed) g"
  using assms
proof (induction evs arbitrary: s g)
  case (Cons e es)
  have "tracks E k s0 g0 (mset (filter durable_mutation (fact_list [e])) + (mset (filter durable_mutation (fact_list es)) + owed)) s g"
    using Cons.prems(1) by (subst (asm) fact_list_Cons) (simp add: add.assoc)
  moreover have "\<forall>f \<in> set (fact_list [e]). permitted E s f" using Cons.prems(2) by (subst (asm) fact_list_Cons) simp
  ultimately have "wp (consume E e s) (tracks E k s0 g0 (mset (filter durable_mutation (fact_list es)) + owed)) g"
    by (rule consume_tracks)
  moreover have "\<And>t f. f \<in> set (fact_list es) \<Longrightarrow> permitted E t f" using Cons.prems(2) by (subst (asm) fact_list_Cons) simp
  ultimately show ?case using Cons.IH by (auto simp: wp_simps intro: wp_conseq)
qed (simp add: wp_simps)

lemma run_call_Inr: "run_call cr p = (Inr evs, p') \<Longrightarrow> evs = run_events (snd cr)"
  by (auto simp: run_call_def split: call_run.splits sum.splits prod.splits option.splits)

lemma replay_tracks:
  assumes "run_calls crs p = (outcomes, p')"
    and "tracks E k s0 g0 (mset (filter durable_mutation (concat (map (run_facts \<circ> snd) crs))) + owed) s g"
    and "\<And>t cr f. cr \<in> set crs \<Longrightarrow> f \<in> set (run_facts (snd cr)) \<Longrightarrow> permitted E t f"
  shows "wp (for_each (replay_call E) outcomes s) (tracks E k s0 g0 owed) g"
  using assms
proof (induction crs arbitrary: p outcomes s g)
  case (Cons cr crs)
  obtain r q where r: "run_call cr p = (r, q)" by (cases "run_call cr p")
  obtain rs where rs: "run_calls crs q = (rs, p')" "outcomes = r # rs"
    using Cons.prems(1) r by (auto split: prod.splits)
  show ?case
  proof (cases r)
    case (Inr evs)
    have evs: "evs = run_events (snd cr)" by (rule run_call_Inr) (use r Inr in simp)
    have "wp (for_each (consume E) evs s)
        (tracks E k s0 g0 (mset (filter durable_mutation (concat (map (run_facts \<circ> snd) crs))) + owed)) g"
    proof (rule consume_all_tracks)
      show "tracks E k s0 g0 (mset (filter durable_mutation (fact_list evs)) +
          (mset (filter durable_mutation (concat (map (run_facts \<circ> snd) crs))) + owed)) s g"
        using Cons.prems(2) by (simp add: evs add.assoc run_facts_def comp_def)
      show "permitted E t f" if "f \<in> set (fact_list evs)" for t f
        using Cons.prems(3) [of cr f t] that by (simp add: evs run_facts_def)
    qed
    then have "wp (for_each (consume E) evs s) (\<lambda>t. wp (for_each (replay_call E) rs t) (tracks E k s0 g0 owed)) g"
    proof (rule wp_conseq)
      fix t h assume "tracks E k s0 g0 (mset (filter durable_mutation (concat (map (run_facts \<circ> snd) crs))) + owed) t h"
      then show "wp (for_each (replay_call E) rs t) (tracks E k s0 g0 owed) h"
        by (rule Cons.IH [OF rs(1)]) (use Cons.prems(3) in auto)
    qed
    moreover have "replay_call E r s = for_each (consume E) evs s"
      by (simp add: fun_eq_iff replay_call_def bind_act_def lift_res_def Inr)
    ultimately show ?thesis by (simp add: rs(2) wp_bind)
  qed (simp add: rs(2) replay_call_def wp_simps)
qed (simp add: wp_simps)

lemma concat_run_facts: "fact_list (concat (map run_events runs)) = concat (map run_facts runs)"
  by (induction runs) (simp_all add: run_facts_def)

lemma run_tools_tracks:
  assumes "tracks E k s0 g0 owed s g"
  shows "wp (run_tools E t lane locked calls)
    (\<lambda>runs. tracks E k s0 g0 (mset (filter durable_mutation (concat (map run_facts runs))) + owed) s) g"
proof -
  have "tracks E k s0 g0 (mset (filter durable_mutation fs) + owed) s
      (g\<lparr>en_shared := sh, en_appended := en_appended g @ map (\<lambda>f. (f, Flush)) (filter durable_mutation fs)\<rparr>)"
    if "ev_journal E \<noteq> None" for fs sh
    using assms that by (auto simp: tracks_def journalled_def comp_def)
  moreover have "tracks E k s0 g0 (mset (filter durable_mutation fs) + owed) s g" if "ev_journal E = None" for fs
    using assms that by (auto simp: tracks_def)
  ultimately show ?thesis
    by (simp add: run_tools_def wp_simps Let_def log_hook_def hook_appends_def concat_run_facts case_prod_unfold)
qed

lemma runs_permitted:
  assumes "runs = take n (fst (ev_runCalls E s lane locked calls sh))" "r \<in> set runs" "f \<in> set (run_facts r)"
  shows "permitted E t f"
proof (rule permitted_tool)
  assume "tools_ok E"
  moreover have "r \<in> set (fst (ev_runCalls E s lane locked calls sh))" using assms(1, 2) in_set_takeD by fast
  ultimately show "\<not> engine_only f" using assms(3) unfolding tools_ok_def run_facts_def by blast
qed

lemma accept_calls_tracks:
  assumes "tracks E k s0 g0 owed s g"
  shows "wp (for_each (accept_call E) calls (l, s)) (\<lambda>p. tracks E k s0 g0 owed (snd p)) g"
proof (rule wp_for_each [where I = "\<lambda>p. tracks E k s0 g0 owed (snd p)"])
  fix c and p :: "call_ledger \<times> agent_state" and h assume "tracks E k s0 g0 owed (snd p) h"
  then have "wp (consume E (Fact_event (Tool_call_accepted c)) (snd p)) (tracks E k s0 g0 owed) h"
    by (intro consume_tracks) (simp_all add: fact_list_single)
  then show "wp (accept_call E c p) (\<lambda>p. tracks E k s0 g0 owed (snd p)) h"
    by (auto simp: accept_call_def wp_simps intro: wp_conseq)
qed (use assms in simp)

lemma complete_tracks:
  "tracks E k s0 g0 owed s g \<Longrightarrow> wp (consume E (Fact_event (Tool_call_completed r)) s) (tracks E k s0 g0 owed) g"
  by (intro consume_tracks) (simp_all add: fact_list_single)

lemma message_tracks:
  "tracks E k s0 g0 owed s g \<Longrightarrow> wp (consume E (Fact_event (Tool_result_message m)) s) (tracks E k s0 g0 owed) g"
  by (intro consume_tracks) (simp_all add: fact_list_single)

lemma zip_runs: "length runs \<le> length calls \<Longrightarrow> map (run_facts \<circ> snd) (zip calls runs) = map run_facts runs"
proof -
  assume "length runs \<le> length calls"
  then have "map snd (zip calls runs) = runs" by (simp add: map_snd_zip_take)
  then show ?thesis by (metis list.map_comp)
qed

definition runs_of :: "'w engine_env \<Rightarrow> call_run list \<Rightarrow> nat \<Rightarrow> bool" where
  "runs_of E runs n \<longleftrightarrow> length runs \<le> n \<and> (\<forall>r \<in> set runs. \<forall>f \<in> set (run_facts r). \<forall>t. permitted E t f)"

lemma run_tools_runs: "wp (run_tools E t lane locked calls) (\<lambda>runs g. runs_of E runs (length calls)) g"
proof -
  have "runs_of E (take (length calls) (fst (ev_runCalls E t lane locked calls sh))) (length calls)" for sh
    using runs_permitted [OF refl] by (fastforce simp: runs_of_def)
  then show ?thesis by (simp add: run_tools_def wp_simps Let_def log_hook_def case_prod_unfold)
qed

lemma wp_conj: "wp m P g \<Longrightarrow> wp m Q g \<Longrightarrow> wp m (\<lambda>x h. P x h \<and> Q x h) g"
  by (simp add: wp_def)

lemma settle_batch_tracks:
  "tracks E k s0 g0 owed s g \<Longrightarrow> wp (settle_batch E parent t calls p s) (tracks E k s0 g0 owed) g"
  by (auto simp: settle_batch_def Let_def wp_simps
      intro!: wp_conseq [OF wp_for_each [where I = "tracks E k s0 g0 owed"]] complete_tracks message_tracks)

lemma launched_batch_tracks:
  assumes "tracks E k s0 g0 owed t h"
  shows "wp (bind_act (run_tools E s lane locked calls) (\<lambda>runs.
      bind_act (ret (run_calls (zip calls runs) (l, []))) (\<lambda>(outcomes, p).
      bind_act (for_each (replay_call E) outcomes t) (settle_batch E parent s calls p)))) (tracks E k s0 g0 owed) h"
  unfolding wp_bind wp_ret
proof (rule wp_conseq [OF wp_conj [OF run_tools_runs run_tools_tracks [OF assms]]])
  fix runs h'
  assume runs: "runs_of E runs (length calls) \<and>
    tracks E k s0 g0 (mset (filter durable_mutation (concat (map run_facts runs))) + owed) t h'"
  obtain outcomes p where run: "run_calls (zip calls runs) (l, []) = (outcomes, p)" by (meson surj_pair)
  have "wp (for_each (replay_call E) outcomes t) (tracks E k s0 g0 owed) h'"
    using runs by (intro replay_tracks [OF run]) (auto simp: runs_of_def zip_runs dest!: set_zip_rightD)
  then show "wp (case run_calls (zip calls runs) (l, []) of (outcomes, p) \<Rightarrow>
      bind_act (for_each (replay_call E) outcomes t) (settle_batch E parent s calls p)) (tracks E k s0 g0 owed) h'"
    by (auto simp: run wp_simps intro: wp_conseq settle_batch_tracks)
qed

lemma executeToolBatch_tracks:
  assumes "tracks E k s0 g0 owed s g"
  shows "wp (executeToolBatch E parent lane locked s) (tracks E k s0 g0 owed) g"
  unfolding executeToolBatch_def Let_def wp_bind [where m = "for_each (accept_call E) calls p" for calls p]
  by (rule wp_conseq [OF accept_calls_tracks [OF assms]]) (auto intro: launched_batch_tracks split: prod.split)

subsection \<open>Replanning\<close>

abbreviation "replans s \<equiv> rs_replanCount (ag_recovery s)"

fun is_replan :: "fact_event \<Rightarrow> bool" where
  "is_replan (Replan_requested c b) \<longleftrightarrow> True"
| "is_replan f \<longleftrightarrow> False"

lemma replans_frame: "reduce H s f = Inr s' \<Longrightarrow> \<not> is_replan f \<Longrightarrow> replans s' = replans s"
  by (cases f)
    (auto simp: handler_defs bind_res_Inr_iff split: if_splits option.splits sum.splits continue_transition.splits)

lemma publish_reduces: "wp (publish E f d s) (\<lambda>s' h. reduce (ev_host E) s f = Inr s') g"
  unfolding publish_def persistAndReduce_def wp_bind wp_yield wp_lift by (rule append_tracks) simp

lemma reflection_replans: "wp (recordReflection E tr detail False s) (\<lambda>s' h. replans s' = replans s) g"
  unfolding recordReflection_def Let_def
  by (auto simp: wp_simps intro!: wp_conseq [OF publish_reduces] dest: replans_frame)

lemma replan_reflection_tracks:
  assumes "tracks E k s0 g0 owed s g"
  shows "wp (when_act b (recordReflection E tr detail False) s)
    (\<lambda>s' h. tracks E k s0 g0 owed s' h \<and> replans s' = replans s) g"
  using wp_conj [OF recordReflection_tracks [OF assms] reflection_replans] assms by (simp add: wp_when)

lemma retire_task_tracks: "tracks E k s0 g0 owed s g \<Longrightarrow> wp (retire_task E p x s) (tracks E k s0 g0 owed) g"
  by (auto simp: retire_task_def wp_simps split: sum.split prod.split intro!: publish_tracks)

lemma retire_tasks_tracks: "tracks E k s0 g0 owed s g \<Longrightarrow> wp (retire_tasks E p s) (tracks E k s0 g0 owed) g"
  by (auto simp: retire_tasks_def wp_simps intro!: wp_for_each retire_task_tracks)

lemma supersede_tracks: "tracks E k s0 g0 owed s g \<Longrightarrow> wp (supersede_approved E s) (tracks E k s0 g0 owed) g"
  by (auto simp: supersede_approved_def wp_simps split: option.split
      intro!: wp_conseq [OF publish_tracks] retire_tasks_tracks)

lemma applyReplan_tracks:
  assumes "tracks E k s0 g0 owed s g" "replans s < 2"
  shows "wp (applyReplan E d s) (tracks E (Suc k) s0 g0 owed) g"
  unfolding applyReplan_def wp_bind
proof (rule wp_conseq [OF replan_reflection_tracks [OF assms(1)]], elim conjE)
  fix t h assume t: "tracks E k s0 g0 owed t h" "replans t = replans s"
  have perm: "permitted E t (Replan_requested (replan_cause_text d) (rpd_requiresReapproval d))"
    using t(2) assms(2) by (simp add: permitted_def)
  have late: "wp (when_act b (publish E (Replan_adjustment_applied c m) Flush) u) (tracks E (Suc k) s0 g0 owed) h"
    if "tracks E (Suc k) s0 g0 owed u h" for b c m u h
    using that by (simp add: wp_when publish_tracks)
  show "wp (publish E (Replan_requested (replan_cause_text d) (rpd_requiresReapproval d)) Flush t)
    (\<lambda>u. wp (get_engine (\<lambda>g. repairable_plan E d (en_shared g))) (\<lambda>local_plan.
       wp (if rpd_requiresReapproval d
           then bind_act (supersede_approved E u) (\<lambda>s. bind_act (put_engine (\<lambda>g. g\<lparr>en_writeGate := True\<rparr>)) (\<lambda>_. ret s))
           else ret u) (\<lambda>s.
       wp (inject E (replan_instruction d local_plan) s) (\<lambda>s.
       wp (transition E (Replan_required (replan_cause_text d)) s) (\<lambda>s.
       wp (when_act (\<not> rpd_requiresReapproval d \<and> local_plan = None)
         (publish E (Replan_adjustment_applied (replan_cause_text d) (rpd_message d)) Flush) s) (tracks E (Suc k) s0 g0 owed)))))) h"
    by (rule wp_conseq [OF publish_tracks [OF t(1) perm]])
      (auto simp: wp_simps intro!: wp_conseq [OF supersede_tracks] wp_conseq [OF inject_tracks]
        wp_conseq [OF transition_tracks] publish_tracks split: if_splits)
qed

fun replan_post :: "'w engine_env \<Rightarrow> nat \<Rightarrow> agent_state \<Rightarrow> 'w engine \<Rightarrow> agent_state \<Rightarrow> agent_state option \<Rightarrow> 'w engine \<Rightarrow> bool" where
  "replan_post E k s0 g0 s (Some s') g \<longleftrightarrow> tracks E (Suc k) s0 g0 {#} s' g"
| "replan_post E k s0 g0 s None g \<longleftrightarrow> tracks E k s0 g0 {#} s g"

lemma try_replan_tracks:
  "tracks E k s0 g0 {#} s g \<Longrightarrow> wp (try_replan E fs b s) (replan_post E k s0 g0 s) g"
  by (auto simp: try_replan_def wp_simps Let_def intro!: wp_conseq [OF applyReplan_tracks])

end
