(* ===== verification/EngineRun.thy ===== *)
theory EngineRun
  imports EngineLogic
begin

text \<open>
  The rounds of the loop keep the relation \<open>tracks\<close>; a round that goes on has published a
  transition, so the loop ends, which makes \<open>run\<close> a total function.
\<close>

subsection \<open>Rounds\<close>

lemma tracks_mono: "tracks E k s0 g0 owed s g \<Longrightarrow> j \<le> k \<Longrightarrow> tracks E j s0 g0 owed s g"
  by (auto simp: tracks_def intro: order_trans)

definition stopped_with :: "'w engine_env \<Rightarrow> terminal_reason \<Rightarrow> 'w engine \<Rightarrow> 'w engine \<Rightarrow> bool" where
  "stopped_with E t h g \<longleftrightarrow>
     en_yielded g = en_yielded h @ [Fact_event (Run_terminated t), status_changed] \<and>
     (ev_journal E \<noteq> None \<longrightarrow> en_appended g = en_appended h @ [(Run_terminated t, Flush)])"

lemma terminate_stops: "wp (terminate E t) (\<lambda>x h. x = t \<and> stopped_with E t g h) g"
  by (auto simp: terminate_def wp_simps journal_append_def stopped_with_def set_world_def split: option.split)

fun round_post :: "'w engine_env \<Rightarrow> agent_state \<Rightarrow> 'w engine \<Rightarrow> loop_outcome \<Rightarrow> 'w engine \<Rightarrow> bool" where
  "round_post E s0 g0 (Next_round s) g \<longleftrightarrow> tracks E 1 s0 g0 {#} s g"
| "round_post E s0 g0 (Stopped t s) g \<longleftrightarrow> (\<exists>h. tracks E 0 s0 g0 {#} s h \<and> stopped_with E t h g)"

lemma next_round_post: "tracks E (Suc k) s0 g0 {#} s g \<Longrightarrow> wp (next_round s) (round_post E s0 g0) g"
  by (auto simp: next_round_def wp_simps intro: tracks_mono)

lemma stop_run_post: "tracks E k s0 g0 {#} s g \<Longrightarrow> wp (stop_run E t s) (round_post E s0 g0) g"
  unfolding stop_run_def wp_bind by (rule wp_conseq [OF terminate_stops]) (auto simp: wp_simps intro: tracks_mono)

lemma local_overflow: "local_update s (mark_overflow s)"
  unfolding local_update_def mark_overflow_def
  by (rule exI [of _ "ag_phase s"], rule exI [of _ True], rule exI [of _ "rs_stopHookRetries (ag_recovery s)"]) simp

lemma local_retry: "local_update s (s\<lparr>ag_recovery := (ag_recovery s)\<lparr>rs_stopHookRetries := n\<rparr>\<rparr>)"
  unfolding local_update_def
  by (rule exI [of _ "ag_phase s"], rule exI [of _ "rs_promptOverflowRecovered (ag_recovery s)"], rule exI [of _ n]) simp

lemma fatal_round_post: "tracks E k s0 g0 {#} s g \<Longrightarrow> wp (fatal_round E t s) (round_post E s0 g0) g"
  by (auto simp: fatal_round_def wp_simps stop_run_post
      intro!: wp_conseq [OF context_round_tracks] wp_conseq [OF transition_tracks] next_round_post tracks_local [OF _ local_overflow])

lemma periodic_snapshot_tracks: "tracks E k s0 g0 owed s g \<Longrightarrow> wp (periodic_snapshot E s) (tracks E k s0 g0 owed) g"
  by (auto simp: periodic_snapshot_def wp_simps intro!: publish_tracks)

lemma reflect_round_tracks: "tracks E k s0 g0 owed s g \<Longrightarrow> wp (reflect_round E s) (tracks E k s0 g0 owed) g"
  by (auto simp: reflect_round_def wp_simps split: option.split
      intro!: wp_conseq [OF supervisePlan_tracks] wp_conseq [OF publish_tracks] recordReflection_tracks)

lemma constraint_hint_tracks: "tracks E k s0 g0 owed s g \<Longrightarrow> wp (constraint_hint E s) (tracks E k s0 g0 owed) g"
  by (auto simp: constraint_hint_def wp_simps Let_def intro!: inject_tracks)

lemma after_replan_post:
  "replan_post E k s0 g0 s r g \<Longrightarrow> (\<And>t. tracks E (Suc k) s0 g0 {#} t g \<Longrightarrow> wp (f t) Q g) \<Longrightarrow>
   (tracks E k s0 g0 {#} s g \<Longrightarrow> wp m Q g) \<Longrightarrow> wp (case r of Some t \<Rightarrow> f t | None \<Rightarrow> m) Q g"
  by (cases r) auto

lemma tool_round_post: "tracks E k s0 g0 {#} s g \<Longrightarrow> wp (tool_round E m n lane locked s) (round_post E s0 g0) g"
  unfolding tool_round_def wp_bind wp_when
  by (rule wp_conseq [OF set_phase_tracks], assumption, rule wp_conseq [OF executeToolBatch_tracks], assumption,
      rule wp_conseq [OF transition_tracks], assumption, rule wp_conseq [OF periodic_snapshot_tracks], assumption)
    (auto simp: wp_bind intro!: wp_conseq [OF reflect_round_tracks] wp_conseq [OF try_replan_tracks]
      wp_conseq [OF constraint_hint_tracks] next_round_post elim!: after_replan_post)

fun reflected_post ::
    "'w engine_env \<Rightarrow> nat \<Rightarrow> agent_state \<Rightarrow> 'w engine \<Rightarrow> agent_state option \<times> agent_state \<Rightarrow> 'w engine \<Rightarrow> bool" where
  "reflected_post E k s0 g0 (Some s', s) g \<longleftrightarrow> tracks E (Suc k) s0 g0 {#} s' g"
| "reflected_post E k s0 g0 (None, s) g \<longleftrightarrow> tracks E k s0 g0 {#} s g"

lemma completion_reflection_post:
  "tracks E k s0 g0 {#} s g \<Longrightarrow> wp (completion_reflection E s) (reflected_post E k s0 g0) g"
  by (auto simp: completion_reflection_def wp_simps intro!: wp_conseq [OF recordReflection_tracks] wp_conseq [OF transition_tracks])

lemma give_up_post: "tracks E k s0 g0 {#} s g \<Longrightarrow> wp (give_up E r s) (round_post E s0 g0) g"
  unfolding give_up_def wp_bind
  by (rule wp_conseq [OF try_replan_tracks]) (auto intro: next_round_post stop_run_post elim!: after_replan_post)

lemma blocked_round_post: "tracks E k s0 g0 {#} s g \<Longrightarrow> wp (blocked_round E gate s) (round_post E s0 g0) g"
  by (auto simp: blocked_round_def wp_simps Let_def stop_run_post
      intro!: wp_conseq [OF inject_tracks] wp_conseq [OF transition_tracks] next_round_post tracks_local [OF _ local_retry])

lemma repair_round_post: "tracks E k s0 g0 {#} s g \<Longrightarrow> wp (repair_round E r n s) (round_post E s0 g0) g"
  by (auto simp: repair_round_def wp_simps
      intro!: wp_conseq [OF recordReflection_tracks] wp_conseq [OF inject_tracks] wp_conseq [OF transition_tracks] next_round_post)

lemma permitted_verification: "permitted E s (Verification_completed r v (repair_attempt E r s))"
  by (simp add: permitted_def)

lemma verify_round_post: "tracks E k s0 g0 {#} s g \<Longrightarrow> wp (verify_round E verifier s) (round_post E s0 g0) g"
  unfolding verify_round_def wp_bind
  by (rule wp_conseq [OF set_phase_tracks], assumption)
    (auto simp: wp_simps Let_def split: option.split
      intro!: wp_conseq [OF publish_tracks [OF _ permitted_verification]] repair_round_post give_up_post stop_run_post)

lemma gate_round_post: "tracks E k s0 g0 {#} s g \<Longrightarrow> wp (gate_round E d s) (round_post E s0 g0) g"
  by (auto simp: gate_round_def wp_simps split: option.split intro!: blocked_round_post give_up_post stop_run_post verify_round_post)

lemma completion_round_post: "tracks E k s0 g0 {#} s g \<Longrightarrow> wp (completion_round E s) (round_post E s0 g0) g"
  unfolding completion_round_def wp_bind
  by (rule wp_conseq [OF set_phase_tracks], assumption, rule wp_conseq [OF completion_reflection_post], assumption)
    (auto split: option.split prod.split intro!: next_round_post stop_run_post gate_round_post)

lemma turn_round_post:
  assumes "tracks E k s0 g0 {#} s g" "calls_used s < calls_limit s"
  shows "wp (turn_round E lane locked t s) (round_post E s0 g0) g"
  unfolding turn_round_def Let_def wp_bind
  by (rule wp_conseq [OF publish_tracks [OF assms(1)]])
    (use assms(2) in \<open>auto simp: permitted_def intro: tool_round_post completion_round_post\<close>)

lemma set_phase_budget:
  "tracks E k s0 g0 owed s g \<Longrightarrow>
   wp (set_phase p s) (\<lambda>t h. tracks E k s0 g0 owed t h \<and> ag_budget t = ag_budget s) g"
  using set_phase_tracks [of E k s0 g0 owed s g p] by (simp add: set_phase_def wp_simps)

lemma after_turn_post:
  assumes "turn_post E k s0 g0 {#} s s out g"
  shows "wp (case out of
      Fatal_turn t fs \<Rightarrow> bind_act (publish_failures E fs s) (fatal_round E t)
    | Assembled t fs \<Rightarrow> bind_act (publish_failures E fs s) (turn_round E lane locked t)) (round_post E s0 g0) g"
proof -
  have owes: "tracks E k s0 g0 ({#} + failure_facts (turn_failures out)) s g"
    and spent: "calls_spent out = 0 \<or> of_nat (calls_spent out - 1) < calls_limit s - calls_used s"
    using assms by (auto simp: turn_post_def remainingCalls_def max_def split: if_splits)
  have fs: "turn_failures out = [] \<or> calls_used s + of_nat (length (turn_failures out) - 1) < calls_limit s"
    using spent by (cases out; cases "turn_failures out") (auto simp: algebra_simps)
  note failures = publish_failures_tracks [OF owes fs]
  show ?thesis
  proof (cases out)
    case (Assembled t fs)
    show ?thesis
      using failures spent unfolding Assembled
      by (auto simp: wp_bind algebra_simps elim!: wp_conseq intro!: turn_round_post)
  next
    case (Fatal_turn t fs)
    show ?thesis using failures unfolding Fatal_turn by (auto simp: wp_bind elim!: wp_conseq intro!: fatal_round_post)
  qed
qed

lemma model_round_post: "tracks E k s0 g0 {#} s g \<Longrightarrow> wp (model_round E s) (round_post E s0 g0) g"
  unfolding model_round_def Let_def wp_bind wp_yield
  by (rule wp_conseq [OF chooseLane_tracks], assumption, rule wp_conseq [OF announceLane_tracks], assumption,
      rule wp_conseq [OF set_phase_budget], simp, erule conjE,
      rule wp_conseq [OF collectModelTurn_tracks [where failures = "[]"]], auto intro: after_turn_post)

lemma prepare_round_tracks: "tracks E k s0 g0 owed s g \<Longrightarrow> wp (prepare_round E s) (tracks E k s0 g0 owed) g"
  by (auto simp: prepare_round_def sync_gates_def wp_simps
      intro!: wp_conseq [OF supervisePlan_tracks] wp_conseq [OF adaptStrategy_tracks] wp_conseq [OF set_phase_tracks]
        context_round_tracks)

lemma preflight_tracks: "tracks E k s0 g0 owed s g \<Longrightarrow> wp (checkPreflight E s) (\<lambda>r. tracks E k s0 g0 owed s) g"
  by (simp add: checkPreflight_def wp_simps Let_def)

lemma round_of_post: "wp (round_of E s) (round_post E s g) g"
  unfolding round_of_def wp_bind
  by (rule wp_conseq [OF preflight_tracks [OF tracks_start]])
    (auto simp: wp_bind split: option.split intro!: stop_run_post wp_conseq [OF prepare_round_tracks] model_round_post)

subsection \<open>The loop ends\<close>

lemma local_update_frame:
  "local_update s t \<Longrightarrow> ag_iteration t = ag_iteration s \<and> ag_budget t = ag_budget s \<and> fixed_view t = fixed_view s \<and>
   replans t = replans s \<and> rs_verifierRepairs (ag_recovery t) = rs_verifierRepairs (ag_recovery s)"
  by (auto simp: local_update_def fixed_view_def)

lemma iteration_frame:
  "reduce H s f = Inr s' \<Longrightarrow> ag_iteration s' = ag_iteration s + (if is_transition f then 1 else 0)"
  by (cases f)
    (auto simp: handler_defs bind_res_Inr_iff split: if_splits option.splits sum.splits continue_transition.splits)

lemma path_iteration: "path E s fs t \<Longrightarrow> ag_iteration t = ag_iteration s + of_nat (transitions fs)"
  by (induction rule: path.induct) (auto simp: transitions_def dest!: iteration_frame local_update_frame)

lemma path_fixed: "path E s fs t \<Longrightarrow> fixed_view t = fixed_view s"
  by (induction rule: path.induct) (auto dest!: fixed_frame local_update_frame)

abbreviation "turns_left s \<equiv> nat \<lceil>rb_maxTurns (ag_budget s) - ag_iteration s\<rceil>"

lemma turns_decrease:
  assumes "ag_iteration s < rb_maxTurns (ag_budget s)" "ag_iteration s + 1 \<le> ag_iteration t"
    and "rb_maxTurns (ag_budget t) = rb_maxTurns (ag_budget s)"
  shows "turns_left t < turns_left s"
proof -
  have "\<lceil>rb_maxTurns (ag_budget t) - ag_iteration t\<rceil> \<le> \<lceil>rb_maxTurns (ag_budget s) - ag_iteration s - 1\<rceil>"
    using assms(2, 3) by (intro ceiling_mono) simp
  then have "\<lceil>rb_maxTurns (ag_budget t) - ag_iteration t\<rceil> \<le> \<lceil>rb_maxTurns (ag_budget s) - ag_iteration s\<rceil> - 1"
    by simp
  moreover have "0 < \<lceil>rb_maxTurns (ag_budget s) - ag_iteration s\<rceil>" using assms(1) by simp
  ultimately show ?thesis by linarith
qed

lemma preflight_in_time: "wp (checkPreflight E s) (\<lambda>r h. r = None \<longrightarrow> ag_iteration s < rb_maxTurns (ag_budget s)) g"
  by (auto simp: checkPreflight_def Let_def wp_simps)

lemma wp_True: "wp m (\<lambda>x h. True) g"
  by (simp add: wp_def)

lemma round_in_time: "wp (round_of E s) (\<lambda>out h. \<forall>t. out = Next_round t \<longrightarrow> ag_iteration s < rb_maxTurns (ag_budget s)) g"
  unfolding round_of_def wp_bind
proof (rule wp_conseq [OF preflight_in_time])
  fix r :: "terminal_reason option" and h assume "r = None \<longrightarrow> ag_iteration s < rb_maxTurns (ag_budget s)"
  then show "wp (case r of Some t \<Rightarrow> stop_run E t s | None \<Rightarrow> bind_act (prepare_round E s) (model_round E))
      (\<lambda>out h. \<forall>t. out = Next_round t \<longrightarrow> ag_iteration s < rb_maxTurns (ag_budget s)) h"
    by (cases r) (auto simp: stop_run_def wp_bind wp_ret wp_True intro: wp_conseq [OF terminate_stops])
qed

lemma round_decreases:
  assumes "round_of E s g = (Inr (Next_round t), g')"
  shows "turns_left t < turns_left s"
proof -
  obtain fs where "path E s fs t" "1 \<le> transitions fs"
    using wp_result [OF round_of_post assms] by (auto simp: tracks_def)
  moreover from this have "ag_iteration s + 1 \<le> ag_iteration t" by (simp add: path_iteration)
  moreover have "rb_maxTurns (ag_budget t) = rb_maxTurns (ag_budget s)"
    using path_fixed [OF calculation(1)] by (simp add: fixed_view_def)
  ultimately show ?thesis using wp_result [OF round_in_time assms] by (intro turns_decrease) auto
qed

text \<open>The run: rounds until one stops. A broken invariant ends the run, any other error leaves it.\<close>

function run :: "'w engine_env \<Rightarrow> agent_state \<Rightarrow> (terminal_reason, 'w) act" where
  "run E s g =
     (case round_of E s g of
        (Inr (Next_round s'), g') \<Rightarrow> run E s' g'
      | (Inr (Stopped t s'), g') \<Rightarrow> (Inr t, g')
      | (Inl (InvariantError i), g') \<Rightarrow> terminate E (Invariant_violation i) g'
      | (Inl (JsError m), g') \<Rightarrow> (Inl (JsError m), g'))"
  by pat_completeness auto
termination
proof (relation "measure (\<lambda>(E, s, g). turns_left s)", goal_cases)
  case (2 E s g p g' r t)
  then have "round_of E s g = (Inr (Next_round t), g')" by simp
  from round_decreases [OF this] show ?case by simp
qed simp

declare run.simps [simp del]

end
