(* ===== verification/EngineProps.thy ===== *)
theory EngineProps
  imports EngineRun
begin

text \<open>
  What the loop guarantees: it ends within its turns, its exits are journalled, the live state
  is what the journalled facts replay to, the budgets bound it, a replan closes the write gate,
  a batch answers every call, and completion passes the gate.
\<close>

subsection \<open>Replay\<close>

text \<open>The state without the members that the engine, or a follow-up request, sets outside the facts.\<close>

definition durable_part :: "agent_state \<Rightarrow> agent_state" where
  "durable_part s = s\<lparr>ag_phase := Preparing_context, ag_lastTransition := None,
     ag_recovery := (ag_recovery s)\<lparr>rs_promptOverflowRecovered := False, rs_stopHookRetries := 0\<rparr>\<rparr>"

definition durable_result :: "agent_state res \<Rightarrow> agent_state res" where
  "durable_result r = bind_res r (\<lambda>s. Inr (durable_part s))"

lemma durable_result_simps [simp]:
  "durable_result (Inl e) = Inl e" "durable_result (Inr s) = Inr (durable_part s)"
  by (simp_all add: durable_result_def)

lemma durable_fields [simp]:
  "ag_tasks (durable_part s) = ag_tasks s" "ag_workspace (durable_part s) = ag_workspace s"
  "ag_budget (durable_part s) = ag_budget s" "ag_evidenceIds (durable_part s) = ag_evidenceIds s"
  "ag_toolResults (durable_part s) = ag_toolResults s" "ag_selection (durable_part s) = ag_selection s"
  "ag_turnId (durable_part s) = ag_turnId s"
  "rs_lastProgressToolCalls (ag_recovery (durable_part s)) = rs_lastProgressToolCalls (ag_recovery s)"
  by (simp_all add: durable_part_def)

lemma durable_reads [simp]:
  "validReflectionBaseline (durable_part s) r = validReflectionBaseline s r"
  "validReflectionCalibration (durable_part s) r = validReflectionCalibration s r"
  "fact_level_progress (durable_part s) rp = fact_level_progress s rp"
  "normalizeWorkspacePaths H (durable_part s) ps = normalizeWorkspacePaths H s ps"
  "batch_results (durable_part s) n = batch_results s n" "opened_at (durable_part s) = opened_at s"
  "mutation_pending (durable_part s) m ps = mutation_pending s m ps"
  "prepared_source (durable_part s) c = prepared_source s c" "legacy_pending (durable_part s) c p = legacy_pending s c p"
  "observe_change (durable_part s) c p = observe_change s c p"
  unfolding validReflectionBaseline_def validReflectionCalibration_def fact_level_progress_def
    normalizeWorkspacePaths_def batch_results_def opened_at_def prepared_source_def legacy_pending_def observe_change_def
    mutation_pending_def successful_calls_def completed_tasks_def durable_fields
  by (rule refl)+

lemma durable_valid_evaluation [simp]: "valid_evaluation (durable_part s) r d e = valid_evaluation s r d e"
  unfolding valid_evaluation_def durable_fields durable_reads by (rule refl)

lemmas durable_reads_unfolded [simp] = durable_reads [unfolded durable_part_def] durable_valid_evaluation [unfolded durable_part_def]

lemma durable_bind:
  "(\<And>x. durable_result (f x) = durable_result (h x)) \<Longrightarrow> durable_result (bind_res r f) = durable_result (bind_res r h)"
  by (cases r) simp_all

lemma durable_reduce: "durable_result (reduce H s f) = durable_result (reduce H (durable_part s) f)"
  by (cases f)
    (auto simp: handler_defs durable_part_def split: continue_transition.split option.split if_split sum.split intro!: durable_bind)

lemma durable_local: "local_update s t \<Longrightarrow> durable_part t = durable_part s"
  by (auto simp: local_update_def durable_part_def)

lemma path_replay: "path E s fs t \<Longrightarrow> \<exists>u. applyFacts (ev_host E) s fs = Inr u \<and> durable_part u = durable_part t"
proof (induction rule: path.induct)
  case (path_fact fs t f t')
  then obtain u where u: "applyFacts (ev_host E) s fs = Inr u" "durable_part u = durable_part t" by blast
  have "durable_result (reduce (ev_host E) u f) = durable_result (reduce (ev_host E) t f)"
    using durable_reduce [of "ev_host E" u f] durable_reduce [of "ev_host E" t f] u(2) by simp
  then have "durable_result (reduce (ev_host E) u f) = Inr (durable_part t')" using path_fact(3) by simp
  then obtain v where "reduce (ev_host E) u f = Inr v" "durable_part v = durable_part t'"
    by (cases "reduce (ev_host E) u f") auto
  then show ?case using u(1) by (auto simp: applyFacts_append simp del: reduce.simps)
qed (auto dest: durable_local)

lemma fact_list_stop: "fact_list [Fact_event (Run_terminated r), Transient_event t] = [Run_terminated r]"
  by (simp add: fact_list_def List.map_filter_simps)

text \<open>C4: The journal is the run. Whatever one round of the loop does, and however the model, the tools
  and the verifier behave, the state it leaves is the one that its yielded facts replay to from the
  state before, up to the phase, the last transition and the two retry flags the engine sets itself;
  and with a journal exactly these facts were appended to it, each once.\<close>

theorem round_is_its_facts:
  assumes "round_of E s g = (Inr out, g')"
  shows "\<exists>fs t. fact_list (en_yielded g') = fact_list (en_yielded g) @ fs \<and>
    (ev_journal E \<noteq> None \<longrightarrow> journalled g' = journalled g + mset fs) \<and>
    (case out of
       Next_round s' \<Rightarrow> applyFacts (ev_host E) s fs = Inr t \<and> durable_part t = durable_part s'
     | Stopped r s' \<Rightarrow> \<exists>gs. fs = gs @ [Run_terminated r] \<and> applyFacts (ev_host E) s gs = Inr t \<and>
         durable_part t = durable_part s')"
proof (cases out)
  case (Next_round s')
  then obtain fs where fs: "path E s fs s'" "fact_list (en_yielded g') = fact_list (en_yielded g) @ fs"
    "ev_journal E \<noteq> None \<longrightarrow> journalled g' = journalled g + mset fs"
    using wp_result [OF round_of_post assms] by (auto simp: tracks_def)
  obtain t where "applyFacts (ev_host E) s fs = Inr t" "durable_part t = durable_part s'"
    using path_replay [OF fs(1)] by blast
  then show ?thesis using fs Next_round by auto
next
  case (Stopped r s')
  then obtain gs h where gs: "path E s gs s'" "fact_list (en_yielded h) = fact_list (en_yielded g) @ gs"
    "ev_journal E \<noteq> None \<longrightarrow> journalled h = journalled g + mset gs" "stopped_with E r h g'"
    using wp_result [OF round_of_post assms] by (auto simp: tracks_def)
  obtain t where t: "applyFacts (ev_host E) s gs = Inr t" "durable_part t = durable_part s'"
    using path_replay [OF gs(1)] by blast
  have "fact_list (en_yielded g') = fact_list (en_yielded g) @ gs @ [Run_terminated r]"
    using gs(2, 4) by (simp add: stopped_with_def status_changed_def fact_list_stop)
  moreover have "ev_journal E \<noteq> None \<longrightarrow> journalled g' = journalled g + mset (gs @ [Run_terminated r])"
    using gs(3, 4) by (auto simp: stopped_with_def journalled_def)
  ultimately show ?thesis using t Stopped by (intro exI [of _ "gs @ [Run_terminated r]"] exI [of _ t]) simp
qed

subsection \<open>Every run ends\<close>

text \<open>The loop with fuel: the reference that \<open>run\<close> must agree with.\<close>

primrec run_for :: "nat \<Rightarrow> 'w engine_env \<Rightarrow> agent_state \<Rightarrow> 'w engine \<Rightarrow> ((js_error + terminal_reason) \<times> 'w engine) option" where
  "run_for 0 E s g = None"
| "run_for (Suc n) E s g =
     (case round_of E s g of
        (Inr (Next_round s'), g') \<Rightarrow> run_for n E s' g'
      | (Inr (Stopped t s'), g') \<Rightarrow> Some (Inr t, g')
      | (Inl (InvariantError i), g') \<Rightarrow> Some (terminate E (Invariant_violation i) g')
      | (Inl (JsError m), g') \<Rightarrow> Some (Inl (JsError m), g'))"

text \<open>C9: The run ends, within its turns. With one round more than the turns the budget leaves, the
  loop has returned, whatever the model answers, however the tools behave and whatever fails.\<close>

theorem run_ends_within_turns:
  assumes "turns_left s < n"
  shows "run_for n E s g = Some (run E s g)"
  using assms
proof (induction n arbitrary: s g)
  case (Suc n)
  obtain r h where r: "round_of E s g = (r, h)" by (meson surj_pair)
  show ?case
  proof (cases r)
    case (Inl e)
    then show ?thesis using r by (cases e) (simp_all add: run.simps [of E s g])
  next
    case (Inr out)
    show ?thesis
    proof (cases out)
      case (Next_round t)
      have "turns_left t < turns_left s" by (rule round_decreases) (use r Inr Next_round in simp)
      then have "turns_left t < n" using Suc.prems by linarith
      then show ?thesis using Suc.IH r Inr Next_round by (simp add: run.simps [of E s g])
    qed (use r Inr in \<open>simp add: run.simps [of E s g]\<close>)
  qed
qed simp

text \<open>C11: Every exit is announced and journalled: a run that returns a reason has yielded
  \<open>run.terminated\<close> with that reason as its last fact, and with a journal it is the last one
  flushed to it; this holds for the exits through a broken invariant too.\<close>

theorem every_exit_is_journalled:
  assumes "run E s g = (Inr t, g')"
  shows "\<exists>h. stopped_with E t h g'"
  using assms
proof (induction E s g rule: run.induct)
  case (1 E s g)
  obtain r h where r: "round_of E s g = (r, h)" by (meson surj_pair)
  show ?case
  proof (cases r)
    case (Inl e)
    then show ?thesis
      using 1(2) r wp_result [OF terminate_stops, of E _ h t g'] by (cases e) (auto simp: run.simps [of E s g])
  next
    case (Inr out)
    show ?thesis
    proof (cases out)
      case (Next_round s')
      have "run E s' h = (Inr t, g')" using 1(2) r Inr Next_round by (simp add: run.simps [of E s g])
      then show ?thesis using 1(1) [OF r [symmetric] Inr Next_round] by blast
    next
      case (Stopped t' s')
      then show ?thesis
        using 1(2) r Inr wp_result [OF round_of_post, of E s g out h] by (auto simp: run.simps [of E s g])
    qed
  qed
qed

subsection \<open>Budgets\<close>

fun is_model_fact :: "fact_event \<Rightarrow> bool" where
  "is_model_fact (Assistant_message_completed m u) \<longleftrightarrow> True"
| "is_model_fact (Model_attempt_failed f) \<longleftrightarrow> True"
| "is_model_fact f \<longleftrightarrow> False"

lemma model_calls_frame:
  "reduce H s f = Inr s' \<Longrightarrow> calls_used s' = calls_used s + (if is_model_fact f then 1 else 0)"
  by (cases f)
    (auto simp: handler_defs bind_res_Inr_iff split: if_splits option.splits sum.splits continue_transition.splits prod.splits)

lemma replans_step: "reduce H s f = Inr s' \<Longrightarrow> replans s' = replans s + (if is_replan f then 1 else 0)"
  by (cases "is_replan f") (auto simp: handler_defs elim!: is_replan.elims dest: replans_frame)

lemma limit_frame: "fixed_view t = fixed_view s \<Longrightarrow> calls_limit t = calls_limit s"
  by (simp add: fixed_view_def)

lemma integer_step: "is_integer x \<Longrightarrow> is_integer y \<Longrightarrow> x < y \<Longrightarrow> x + 1 \<le> (y :: number)"
  unfolding is_integer_Ints
proof (elim Ints_cases)
  fix a b assume "x < y" "x = of_int a" "y = of_int b"
  then have "a + 1 \<le> b" by simp
  then have "of_int (a + 1) \<le> (of_int b :: number)" by (simp only: of_int_le_iff)
  then show "x + 1 \<le> y" using \<open>x = of_int a\<close> \<open>y = of_int b\<close> by simp
qed

definition within_budget :: "agent_state \<Rightarrow> bool" where
  "within_budget s \<longleftrightarrow>
     is_integer (calls_used s) \<and> is_integer (calls_limit s) \<and> calls_used s \<le> calls_limit s \<and>
     is_integer (replans s) \<and> replans s \<le> 2"

lemma within_budget_step:
  assumes "within_budget s" "within_bounds E s f" "reduce H s f = Inr s'"
  shows "within_budget s'"
proof -
  have "is_model_fact f \<Longrightarrow> calls_used s < calls_limit s" "is_replan f \<Longrightarrow> replans s < 2"
    using assms(2) by (auto elim!: is_model_fact.elims is_replan.elims)
  then show ?thesis
    using assms(1) model_calls_frame [OF assms(3)] replans_step [OF assms(3)] limit_frame [OF fixed_frame [OF assms(3)]]
      integer_step [of "calls_used s" "calls_limit s"] integer_step [of "replans s" 2]
    by (auto simp: within_budget_def)
qed

lemma path_within_budget: "path E s fs t \<Longrightarrow> tools_ok E \<Longrightarrow> within_budget s \<Longrightarrow> within_budget t"
proof (induction rule: path.induct)
  case (path_local fs t u)
  then have "ag_budget u = ag_budget t" "replans u = replans t" using local_update_frame [OF path_local(2)] by simp_all
  then show ?case using path_local by (simp add: within_budget_def)
qed (auto simp: permitted_def intro: within_budget_step)

fun outcome_state :: "loop_outcome \<Rightarrow> agent_state" where
  "outcome_state (Next_round s) = s"
| "outcome_state (Stopped t s) = s"

lemma round_path: "round_of E s g = (Inr out, g') \<Longrightarrow> \<exists>fs. path E s fs (outcome_state out)"
  using wp_result [OF round_of_post, of E s g out g'] by (cases out) (auto simp: tracks_def)

text \<open>C10: The budgets hold along the run. As long as the tools forge none of the engine's own facts, no
  round takes the number of physical model calls, failed attempts included, above its limit, and no
  more than two replans are ever requested.\<close>

theorem rounds_stay_within_budget:
  assumes "tools_ok E" "within_budget s" "round_of E s g = (Inr out, g')"
  shows "within_budget (outcome_state out)"
  using round_path [OF assms(3)] path_within_budget [OF _ assms(1, 2)] by blast

subsection \<open>A whole run\<close>

lemma run_last_round:
  assumes "run E s g = (Inr t, g')" "\<forall>i. t \<noteq> Invariant_violation i"
  shows "\<exists>fs s1 g1 s'. path E s fs s' \<and> fact_list (en_yielded g') = fact_list (en_yielded g) @ fs @ [Run_terminated t] \<and>
    round_of E s1 g1 = (Inr (Stopped t s'), g')"
  using assms
proof (induction E s g rule: run.induct)
  case (1 E s g)
  obtain r h where r: "round_of E s g = (r, h)" by (meson surj_pair)
  show ?case
  proof (cases r)
    case (Inl e)
    then obtain i where "terminate E (Invariant_violation i) h = (Inr t, g')"
      using 1(2) r by (cases e) (auto simp: run.simps [of E s g])
    from wp_result [OF terminate_stops this] have "t = Invariant_violation i" by simp
    then show ?thesis using 1(3) by blast
  next
    case (Inr out)
    note post = wp_result [OF round_of_post, of E s g out h]
    show ?thesis
    proof (cases out)
      case (Next_round s1)
      have "run E s1 h = (Inr t, g')" using 1(2) r Inr Next_round by (simp add: run.simps [of E s g])
      from 1(1) [OF r [symmetric] Inr Next_round this 1(3)] obtain fs s2 g2 s' where
        rest: "path E s1 fs s'" "fact_list (en_yielded g') = fact_list (en_yielded h) @ fs @ [Run_terminated t]"
          "round_of E s2 g2 = (Inr (Stopped t s'), g')" by blast
      obtain gs where "path E s gs s1" "fact_list (en_yielded h) = fact_list (en_yielded g) @ gs"
        using post r Inr Next_round by (auto simp: tracks_def)
      then show ?thesis using rest(2, 3) path_trans [OF rest(1)] by (intro exI [of _ "gs @ fs"]) (metis append_assoc)
    next
      case (Stopped t' s')
      then have "t' = t" "h = g'" using 1(2) r Inr by (auto simp: run.simps [of E s g])
      moreover obtain gs k where "path E s gs s'" "fact_list (en_yielded k) = fact_list (en_yielded g) @ gs" "stopped_with E t' k h"
        using post r Inr Stopped by (auto simp: tracks_def)
      ultimately show ?thesis
        using r Inr Stopped by (intro exI [of _ gs]) (auto simp: stopped_with_def status_changed_def fact_list_stop)
    qed
  qed
qed

subsection \<open>Completion\<close>

definition same_stores :: "'w shared \<Rightarrow> 'w shared \<Rightarrow> bool" where
  "same_stores a b \<longleftrightarrow> sh_plans a = sh_plans b \<and> sh_tasks a = sh_tasks b \<and> sh_evidence a = sh_evidence b"

text \<open>
  How a run with a gate completes: the gate holds, and a verdict stands behind it where one is
  there or is required, either an earlier one or the one the verifier has just given.
\<close>

definition completed_by ::
    "'w engine_env \<Rightarrow> gate_deps \<Rightarrow> agent_state \<Rightarrow> 'w shared \<Rightarrow> agent_state \<Rightarrow> 'w shared \<Rightarrow> bool" where
  "completed_by E d s sh s' sh' \<longleftrightarrow>
     (let gate = evaluateCompletion (ev_host E) (gate_input_of E d sh s)
      in gr_action gate = Complete \<and>
         ((s' = s \<and> same_stores sh' sh \<and>
           (case ag_lastVerification s of
              Some v \<Rightarrow> lv_valid v \<and> vr_verdict (lv_report v) = PASS
            | None \<Rightarrow> ev_verifier E = None \<or> \<not> gr_requiresVerification gate)) \<or>
          (\<exists>verifier v sh1. ev_verifier E = Some verifier \<and>
             verifier (firstHumanText s) (approved_plan E sh) (describeWrites s) sh = (Inr v, sh1) \<and> same_stores sh' sh1 \<and>
             lv_valid v \<and> vr_verdict (lv_report v) = PASS \<and>
             reduce (ev_host E) (s\<lparr>ag_phase := Verifying\<rparr>) (Verification_completed (lv_report v) True None) = Inr s')))"

lemma same_stores_refl [simp]: "same_stores sh sh" "same_stores (sh\<lparr>sh_world := w\<rparr>) sh"
  by (simp_all add: same_stores_def)

lemma same_stores_trans: "same_stores a b \<Longrightarrow> same_stores b c \<Longrightarrow> same_stores a c"
  by (simp add: same_stores_def)

lemma append_stores: "wp (journal_append E f d) (\<lambda>x h. same_stores (en_shared h) (en_shared g)) g"
  by (simp add: journal_append_def wp_simps set_world_def split: option.split)

lemma publish_stores:
  "wp (publish E f d s) (\<lambda>s' h. reduce (ev_host E) s f = Inr s' \<and> same_stores (en_shared h) (en_shared g)) g"
  unfolding publish_def persistAndReduce_def wp_bind wp_yield
  using append_stores [of E f d "g\<lparr>en_yielded := en_yielded g @ [Fact_event f]\<rparr>"]
  by (auto simp: wp_lift elim!: wp_conseq)

lemma terminate_stores: "wp (terminate E t) (\<lambda>x h. x = t \<and> same_stores (en_shared h) (en_shared g)) g"
  by (auto simp: terminate_def wp_simps journal_append_def set_world_def split: option.split)

lemma stop_run_stores:
  "wp (stop_run E t s) (\<lambda>out h. out = Stopped t s \<and> same_stores (en_shared h) (en_shared g)) g"
  unfolding stop_run_def wp_bind by (rule wp_conseq [OF terminate_stores]) (auto simp: wp_ret)

abbreviation "not_completed \<equiv> \<lambda>out h. \<forall>s. out \<noteq> Stopped Completed_run s"

lemma stop_run_other: "t \<noteq> Completed_run \<Longrightarrow> wp (stop_run E t s) not_completed g"
  by (rule wp_conseq [OF stop_run_stores]) auto

lemma next_round_other: "wp (next_round s) not_completed g"
  by (simp add: next_round_def wp_ret)

lemma wp_bind_other: "(\<And>x h. wp (f x) Q h) \<Longrightarrow> wp (bind_act m f) Q g"
  unfolding wp_bind by (rule wp_conseq [OF wp_True]) simp

lemma blocked_other: "wp (blocked_round E gate s) not_completed g"
  by (auto simp: blocked_round_def Let_def intro!: stop_run_other wp_bind_other next_round_other)

lemma give_up_other: "wp (give_up E r s) not_completed g"
  unfolding give_up_def
  by (rule wp_bind_other) (auto intro: stop_run_other next_round_other split: option.split)

lemma repair_other: "wp (repair_round E r n s) not_completed g"
  by (auto simp: repair_round_def intro!: wp_bind_other next_round_other)

definition completion_post ::
    "'w engine_env \<Rightarrow> gate_deps \<Rightarrow> loop_outcome \<Rightarrow> 'w engine \<Rightarrow> bool" where
  "completion_post E d out h \<longleftrightarrow>
     (\<forall>s'. out = Stopped Completed_run s' \<longrightarrow> (\<exists>s sh. completed_by E d s sh s' (en_shared h)))"

lemma completion_postI: "completed_by E d s sh s' (en_shared h) \<Longrightarrow> completion_post E d (Stopped Completed_run s') h"
  by (auto simp: completion_post_def)

lemma other_completes: "wp m not_completed g \<Longrightarrow> wp m (completion_post E d) g"
  by (auto simp: completion_post_def elim: wp_conseq)

lemmas other_rounds = blocked_other [THEN other_completes] give_up_other [THEN other_completes]
  repair_other [THEN other_completes] next_round_other [THEN other_completes]

lemma phase_texts [simp]:
  "firstHumanText (s\<lparr>ag_phase := p\<rparr>) = firstHumanText s" "describeWrites (s\<lparr>ag_phase := p\<rparr>) = describeWrites s"
  by (simp_all add: firstHumanText_def describeWrites_def)

lemma pass_is_valid: "reduce H s (Verification_completed r v n) = Inr s' \<Longrightarrow> vr_verdict r = PASS \<Longrightarrow> v"
  by (auto simp: reduce_verification_def split: if_splits)

lemma verify_completes:
  fixes E :: "'w engine_env"
  assumes "ev_verifier E = Some verifier"
    and gate: "gr_action (evaluateCompletion (ev_host E) (gate_input_of E d (en_shared g) s)) = Complete"
  shows "wp (verify_round E verifier s) (completion_post E d) g"
proof -
  let ?s = "s\<lparr>ag_phase := Verifying\<rparr>"
  define r where "r = verifier (firstHumanText s) (approved_plan E (en_shared g)) (describeWrites s) (en_shared g)"
  have "wp (publish E (Verification_completed (lv_report v) (lv_valid v) (repair_attempt E (lv_report v) ?s)) Flush ?s)
      (\<lambda>t. wp (case repair_attempt E (lv_report v) ?s of
          Some n \<Rightarrow> repair_round E (lv_report v) n t
        | None \<Rightarrow> if vr_verdict (lv_report v) \<noteq> PASS then give_up E (lv_report v) t else stop_run E Completed_run t)
        (completion_post E d)) h"
    if "fst r = Inr v" "en_shared h = snd r" for v h
  proof (rule wp_conseq [OF publish_stores], elim conjE)
    fix t and k :: "'w engine" assume t: "reduce (ev_host E) ?s (Verification_completed (lv_report v) (lv_valid v) (repair_attempt E (lv_report v) ?s)) = Inr t"
      and k: "same_stores (en_shared k) (en_shared h)"
    have "completed_by E d s (en_shared g) t (en_shared j)"
      if pass: "vr_verdict (lv_report v) = PASS" and j: "same_stores (en_shared j) (en_shared k)" for j
    proof -
      have "repair_attempt E (lv_report v) ?s = None" using pass by (simp add: repair_attempt_def)
      moreover have "lv_valid v" using pass_is_valid [OF t pass] .
      ultimately show ?thesis
        using t gate assms(1) pass same_stores_trans [OF j k] that(1) \<open>fst r = Inr v\<close> \<open>en_shared h = snd r\<close>
        unfolding completed_by_def Let_def r_def
        by (intro conjI disjI2 exI [of _ verifier] exI [of _ v] exI [of _ "snd r"]) (auto simp: r_def prod_eq_iff)
    qed
    then show "wp (case repair_attempt E (lv_report v) ?s of
          Some n \<Rightarrow> repair_round E (lv_report v) n t
        | None \<Rightarrow> if vr_verdict (lv_report v) \<noteq> PASS then give_up E (lv_report v) t else stop_run E Completed_run t)
        (completion_post E d) k"
      by (auto split: option.split intro!: other_rounds wp_conseq [OF stop_run_stores] intro: completion_postI)
  qed
  then show ?thesis
    by (auto simp: verify_round_def set_phase_def wp_simps Let_def r_def)
qed

lemma gate_round_completes: "wp (gate_round E d s) (completion_post E d) g"
proof -
  let ?gate = "evaluateCompletion (ev_host E) (gate_input_of E d (en_shared g) s)"
  have closing: "wp (stop_run E Completed_run s) (completion_post E d) g"
    if "gr_action ?gate = Complete"
      "case ag_lastVerification s of
         Some v \<Rightarrow> lv_valid v \<and> vr_verdict (lv_report v) = PASS
       | None \<Rightarrow> ev_verifier E = None \<or> \<not> gr_requiresVerification ?gate"
    by (rule wp_conseq [OF stop_run_stores]) (use that in \<open>auto simp: completion_post_def completed_by_def Let_def\<close>)
  have "gr_action ?gate = Continue \<or> gr_action ?gate = Complete" by (cases "gr_action ?gate") auto
  then show ?thesis
    using closing unfolding gate_round_def wp_bind wp_get
    by (auto split: option.splits intro!: other_rounds verify_completes)
qed

lemma completion_round_completes:
  "ev_gate E = Some d \<Longrightarrow> wp (completion_round E s) (completion_post E d) g"
  unfolding completion_round_def
  by (intro wp_bind_other) (auto split: option.split prod.split intro!: wp_bind_other gate_round_completes other_rounds)

lemma tool_round_other: "wp (tool_round E m n lane locked s) not_completed g"
  by (auto simp: tool_round_def split: option.split intro!: wp_bind_other next_round_other)

lemma attempt_fatal_other:
  "wp (attempt_turn E s lane locked j) (\<lambda>out h. \<forall>t fs. out = Attempt_fatal t fs \<longrightarrow> t \<noteq> Completed_run) g"
  by (auto simp: attempt_turn_def surface_failure_def split: sum.split option.split intro!: wp_bind_other)
    (auto simp: wp_ret)

lemma collect_other:
  "wp (collectModelTurn E s lane locked attempt fs) (\<lambda>out h. \<forall>t fs. out = Fatal_turn t fs \<longrightarrow> t \<noteq> Completed_run) g"
proof (induction E s lane locked attempt fs g rule: collectModelTurn.induct)
  case (1 E s lane locked attempt fs g)
  note fatal = wp_result [OF attempt_fatal_other [of E s lane locked attempt g]]
  show ?case
    using 1 fatal
    by (simp add: wp_def collectModelTurn.simps [of E s lane locked attempt fs g] del: collectModelTurn.simps
        split: prod.split sum.split attempt_outcome.split bool.split)
qed

lemma fatal_round_other: "t \<noteq> Completed_run \<Longrightarrow> wp (fatal_round E t s) not_completed g"
  by (auto simp: fatal_round_def intro!: wp_bind_other next_round_other stop_run_other)

lemma turn_round_completes: "ev_gate E = Some d \<Longrightarrow> wp (turn_round E lane locked t s) (completion_post E d) g"
  by (auto simp: turn_round_def Let_def intro!: wp_bind_other completion_round_completes tool_round_other [THEN other_completes])

lemma model_round_completes: "ev_gate E = Some d \<Longrightarrow> wp (model_round E s) (completion_post E d) g"
  unfolding model_round_def Let_def
  by (rule wp_bind_other, rule wp_bind_other, rule wp_bind_other, rule wp_bind_other, subst wp_bind, rule wp_conseq [OF collect_other])
    (auto split: turn_outcome.split intro!: wp_bind_other fatal_round_other [THEN other_completes] turn_round_completes)

lemma preflight_other: "wp (checkPreflight E s) (\<lambda>r h. r \<noteq> Some Completed_run) g"
  by (auto simp: checkPreflight_def Let_def wp_simps)

lemma round_completes:
  assumes "ev_gate E = Some d"
  shows "wp (round_of E s) (completion_post E d) g"
  unfolding round_of_def wp_bind
proof (rule wp_conseq [OF preflight_other])
  fix r :: "terminal_reason option" and h assume "r \<noteq> Some Completed_run"
  then show "wp (case r of Some t \<Rightarrow> stop_run E t s | None \<Rightarrow> bind_act (prepare_round E s) (model_round E)) (completion_post E d) h"
    using assms by (cases r) (auto intro!: stop_run_other [THEN other_completes] wp_bind_other model_round_completes)
qed


subsection \<open>A run on a concrete model\<close>

text \<open>A journaling engine with a gate, whose model answers once, in text.\<close>

definition demo_engine_with ::
    "(string \<Rightarrow> plan_version option \<Rightarrow> string \<Rightarrow> unit shared \<Rightarrow> (js_error + last_verification) \<times> unit shared) option \<Rightarrow> unit engine_env" where
  "demo_engine_with verifier =
     \<lparr>ev_host = demo_host, ev_registry = [], ev_journal = Some (\<lambda>f d w. (None, w)), ev_drain = (\<lambda>w. (None, w)),
      ev_currentSeq = (\<lambda>w. 0), ev_aborted = (\<lambda>w. False), ev_now = (\<lambda>w. (0, w)), ev_iso = (\<lambda>w. (''now'', w)),
      ev_next = (\<lambda>p w. (p, w)), ev_modelId = ''m'',
      ev_stream = (\<lambda>s lane locked w. (([Text_delta 0 ''hi'', Message_end None], None), w)),
      ev_classify = (\<lambda>e. Connection_error), ev_retry = RETRY_DEFAULTS, ev_random = (\<lambda>w. (0, w)),
      ev_sleep = (\<lambda>d w. (None, w)), ev_context = None,
      ev_summary = (\<lambda>w. ((\<lambda>ms. None, \<lparr>cxs_sessionId = [], cxs_turnId = [], cxs_model = [], cxs_fresh = (\<lambda>n. []),
        cxs_turnMessageId = [], cxs_summaryId = [], cxs_now = []\<rparr>), w)), ev_gate = Some \<lparr>gd_plans = True, gd_tasks = True, gd_evidence = True, gd_riskThreshold = 5\<rparr>,
      ev_files = (\<lambda>w p. File_missing), ev_verifier = verifier, ev_runCalls = (\<lambda>s lane locked calls sh. ([], sh)),
      ev_maxRepairAttempts = None, ev_replan = DEFAULT_REPLAN_CONFIG, ev_intelligence = False, ev_reflectionInterval = None,
      ev_evaluationWindow = None, ev_completionReflection = False, ev_calibration = None, ev_calibrationEnabled = False\<rparr>"

definition demo_engine :: "unit engine" where
  "demo_engine =
     \<lparr>en_yielded = [], en_appended = [], en_compactFailures = 0, en_hintEmitted = False, en_writeGate = True,
      en_localRepair = False,
      en_shared = \<lparr>sh_plans = empty_plans, sh_tasks = [], sh_evidence = demo_store, sh_world = ()\<rparr>\<rparr>"

abbreviation "demo_engine_env \<equiv> demo_engine_with None"

lemma demo_env_simps [simp]:
  "ev_host (demo_engine_with verifier) = demo_host" "ev_journal (demo_engine_with verifier) = Some (\<lambda>f d w. (None, w))"
  "ev_drain (demo_engine_with verifier) = (\<lambda>w. (None, w))" "ev_aborted (demo_engine_with verifier) = (\<lambda>w. False)"
  "ev_now (demo_engine_with verifier) = (\<lambda>w. (0, w))" "ev_iso (demo_engine_with verifier) = (\<lambda>w. (''now'', w))"
  "ev_next (demo_engine_with verifier) = (\<lambda>p w. (p, w))" "ev_modelId (demo_engine_with verifier) = ''m''"
  "ev_stream (demo_engine_with verifier) = (\<lambda>s lane locked w. (([Text_delta 0 ''hi'', Message_end None], None), w))"
  "ev_context (demo_engine_with verifier) = None" "ev_verifier (demo_engine_with verifier) = verifier" "ev_intelligence (demo_engine_with verifier) = False"
  "ev_gate (demo_engine_with verifier) = Some \<lparr>gd_plans = True, gd_tasks = True, gd_evidence = True, gd_riskThreshold = 5\<rparr>"
  by (simp_all add: demo_engine_with_def)

abbreviation "demo_begun \<equiv> createInitialState demo_input"

lemmas step_defs = ret_def bind_act_def lift_res_def get_engine_def put_engine_def call_world_def call_shared_def set_world_def
  or_throw_def when_act_def yield_event_def aborted_def catch_act_def

lemmas demo_state = createInitialState_def demo_input_def initialRecovery_def

lemma demo_preflight: "checkPreflight (demo_engine_with verifier) demo_begun demo_engine = (Inr None, demo_engine)"
  by (simp add: checkPreflight_def step_defs demo_state demo_engine_def)

lemma demo_prepare:
  "prepare_round (demo_engine_with verifier) demo_begun demo_engine =
   (Inr (demo_begun\<lparr>ag_phase := Preparing_context\<rparr>), demo_engine\<lparr>en_writeGate := False, en_yielded := [status_changed]\<rparr>)"
  by (simp add: prepare_round_def sync_gates_def set_phase_def context_round_def step_defs demo_engine_def write_locked_def
      local_repair_def demo_state)

definition demo_assembler :: assembler where
  "demo_assembler = (case push_event new_assembler (Text_delta 0 ''hi'') of Inr sa \<Rightarrow> sa | Inl e \<Rightarrow> new_assembler)"

definition demo_ended :: assembler where
  "demo_ended = (case push_event demo_assembler (Message_end None) of Inr sa \<Rightarrow> sa | Inl e \<Rightarrow> new_assembler)"

lemma demo_pushes:
  "push_event new_assembler (Text_delta 0 ''hi'') = Inr demo_assembler"
  "push_event demo_assembler (Message_end None) = Inr demo_ended"
  "sa_ended demo_ended" "sa_usage demo_ended = None"
  by code_simp+

lemma demo_content: "filter is_Tool_call_block (msg_content (assembled_message d demo_ended)) = []"
  unfolding assembled_message_def conversation_message.simps by code_simp

lemma demo_turn:
  assumes "0 < remainingCalls s"
  shows "\<exists>t h. collectModelTurn (demo_engine_with verifier) s lane locked 0 [] g = (Inr (Assembled t []), h) \<and>
    filter is_Tool_call_block (msg_content (at_message t)) = [] \<and> at_usage t = None \<and>
    en_shared h = en_shared g \<and> en_appended h = en_appended g"
  using assms by (subst collectModelTurn.simps)
    (simp add: attempt_turn_def stream_turn_def step_defs demo_pushes finish_turn_def demo_content)

lemma demo_reduced:
  "\<exists>s'. reduce demo_host (demo_begun\<lparr>ag_phase := p\<rparr>) (Assistant_message_completed m None) = Inr s' \<and> ag_tasks s' = [] \<and>
   ws_pendingVerification (ag_workspace s') = None \<and> ag_lastVerification s' = None \<and> \<not> rs_replanning (ag_recovery s') \<and>
   verificationRisk s' = 0"
  by (simp add: handler_defs demo_state bind_res_def verificationRisk_def Let_def count_where_def obj_values_def obj_entries_def)

lemma phase_risk [simp]: "verificationRisk (s\<lparr>ag_phase := p\<rparr>) = verificationRisk s"
  by (simp add: verificationRisk_def)

lemma demo_gate_opens:
  assumes "sh_plans sh = empty_plans" "ag_tasks s = []" "ws_pendingVerification (ag_workspace s) = None"
    "\<not> rs_replanning (ag_recovery s)"
  shows "gr_action (evaluateCompletion demo_host (gate_input_of (demo_engine_with verifier) d sh s)) = Complete"
    "gr_requiresVerification (evaluateCompletion demo_host (gate_input_of (demo_engine_with verifier) d sh s)) \<longleftrightarrow>
      gd_riskThreshold d \<le> verificationRisk s"
  using assms by (simp add: evaluateCompletion_def gate_missing_def Let_def task_requirements_Nil criteria_requirements_Nil
      change_requirements_Nil gate_input_of_def approved_plan_def lastApproved_def has_plans_def empty_plans_def tasksForPlan_def)
    (use assms in \<open>simp add: evaluateCompletion_def gate_missing_def Let_def task_requirements_Nil criteria_requirements_Nil
      change_requirements_Nil gate_input_of_def approved_plan_def lastApproved_def has_plans_def empty_plans_def tasksForPlan_def\<close>)

lemma demo_round_completes: "\<exists>s' g'. round_of (demo_engine_with verifier) demo_begun demo_engine = (Inr (Stopped Completed_run s'), g')"
proof -
  have calls: "0 < remainingCalls (demo_begun\<lparr>ag_phase := Calling_model\<rparr>)" by (simp add: remainingCalls_def demo_state)
  obtain t h where turn: "collectModelTurn (demo_engine_with verifier) (demo_begun\<lparr>ag_phase := Calling_model\<rparr>) None False 0 []
      (demo_engine\<lparr>en_writeGate := False, en_yielded := [status_changed, Transient_event ''prompt.manifest'', status_changed]\<rparr>) =
      (Inr (Assembled t []), h)"
    "filter is_Tool_call_block (msg_content (at_message t)) = []" "at_usage t = None" "en_shared h = en_shared demo_engine"
    using demo_turn [OF calls, of verifier None False] by force
  have unlocked: "\<not> rs_degradedRecovery (ag_recovery demo_begun)" "\<not> rs_replanning (ag_recovery demo_begun)"
    by (simp_all add: demo_state)
  obtain s' where s': "reduce demo_host (demo_begun\<lparr>ag_phase := Calling_model\<rparr>) (Assistant_message_completed (at_message t) None) = Inr s'"
    "ag_tasks s' = []" "ws_pendingVerification (ag_workspace s') = None" "ag_lastVerification s' = None"
    "\<not> rs_replanning (ag_recovery s')" "verificationRisk s' = 0"
    using demo_reduced by blast
  show ?thesis
    apply (simp add: round_of_def bind_act_def demo_preflight demo_prepare)
    apply (simp add: step_defs model_round_def chooseLane_def announceLane_def write_locked_def set_phase_def Let_def unlocked turn
        del: collectModelTurn.simps)
    by (simp add: publish_failures_def step_defs turn_round_def turn(2-) completion_round_def completion_reflection_def set_phase_def
        publish_def persistAndReduce_def journal_append_def Let_def s' gate_round_def demo_gate_opens stop_run_def terminate_def
        demo_engine_def split: option.split del: reduce.simps)
qed

lemma demo_run_completes: "\<exists>g'. run demo_engine_env demo_begun demo_engine = (Inr Completed_run, g')"
  using demo_round_completes [of None] by (auto simp: run.simps [of demo_engine_env demo_begun])

lemma demo_tools: "tools_ok demo_engine_env"
  by (simp add: tools_ok_def demo_engine_with_def)

theorem round_is_its_facts_witness:
  "\<exists>s' g' gs t. round_of demo_engine_env demo_begun demo_engine = (Inr (Stopped Completed_run s'), g') \<and>
     fact_list (en_yielded g') = gs @ [Run_terminated Completed_run] \<and> journalled g' = mset (gs @ [Run_terminated Completed_run]) \<and>
     applyFacts demo_host demo_begun gs = Inr t \<and> durable_part t = durable_part s'"
proof -
  obtain s' g' where r: "round_of demo_engine_env demo_begun demo_engine = (Inr (Stopped Completed_run s'), g')"
    using demo_round_completes [of None] by blast
  show ?thesis
    using round_is_its_facts [OF r] r by (fastforce simp: demo_engine_def fact_list_def journalled_def List.map_filter_simps)
qed

theorem run_ends_within_turns_witness:
  "run_for 21 demo_engine_env demo_begun demo_engine = Some (run demo_engine_env demo_begun demo_engine)"
  by (rule run_ends_within_turns) (simp add: demo_state)

theorem every_exit_is_journalled_witness:
  "\<exists>h g'. run demo_engine_env demo_begun demo_engine = (Inr Completed_run, g') \<and> stopped_with demo_engine_env Completed_run h g'"
  using demo_run_completes every_exit_is_journalled by blast

theorem rounds_stay_within_budget_witness:
  "\<exists>s' g'. round_of demo_engine_env demo_begun demo_engine = (Inr (Stopped Completed_run s'), g') \<and> within_budget s'"
proof -
  obtain s' g' where r: "round_of demo_engine_env demo_begun demo_engine = (Inr (Stopped Completed_run s'), g')"
    using demo_round_completes [of None] by blast
  have "within_budget demo_begun" by (simp add: within_budget_def demo_state is_integer_def)
  then show ?thesis using rounds_stay_within_budget [OF demo_tools _ r] r by auto
qed


end
