(* ===== verification/Schema.thy ===== *)
theory Schema
  imports JsonText ToolDefs Verdict
begin

text \<open>
  The readers of the schemas that validate tool inputs and reports: a reader turns a JSON value
  into a typed value or refuses it. A member that is absent takes its default; a strict object
  has no other members than the ones named.
\<close>

fun string_value :: "json \<Rightarrow> string option" where
  "string_value (JStr s) = Some s"
| "string_value v = None"

fun bool_value :: "json \<Rightarrow> bool option" where
  "bool_value (JBool b) = Some b"
| "bool_value v = None"

fun number_value :: "json \<Rightarrow> number option" where
  "number_value (JNum n) = Some n"
| "number_value v = None"

fun array_value :: "(json \<Rightarrow> 'a option) \<Rightarrow> json \<Rightarrow> 'a list option" where
  "array_value f (JArr vs) = those (map f vs)"
| "array_value f v = None"

definition non_empty_value :: "json \<Rightarrow> string option" where
  "non_empty_value v = Option.bind (string_value v) (\<lambda>s. if s = [] then None else Some s)"

definition positive_int_value :: "json \<Rightarrow> number option" where
  "positive_int_value v = Option.bind (number_value v) (\<lambda>n. if is_integer n \<and> 0 < n then Some n else None)"

definition required_member :: "(json \<Rightarrow> 'a option) \<Rightarrow> json \<Rightarrow> string \<Rightarrow> 'a option" where
  "required_member f v k = Option.bind (json_member v k) f"

definition default_member :: "'a \<Rightarrow> (json \<Rightarrow> 'a option) \<Rightarrow> json \<Rightarrow> string \<Rightarrow> 'a option" where
  "default_member d f v k = (case json_member v k of None \<Rightarrow> Some d | Some x \<Rightarrow> f x)"

definition optional_value :: "(json \<Rightarrow> 'a option) \<Rightarrow> json \<Rightarrow> 'a option option" where
  "optional_value f v = map_option Some (f v)"

abbreviation optional_member :: "(json \<Rightarrow> 'a option) \<Rightarrow> json \<Rightarrow> string \<Rightarrow> 'a option option" where
  "optional_member reader \<equiv> default_member None (optional_value reader)"

fun strict_object :: "string list \<Rightarrow> json \<Rightarrow> bool" where
  "strict_object ks (JObj kvs) \<longleftrightarrow> list_all (\<lambda>(k, v). k \<in> set ks) kvs"
| "strict_object ks v \<longleftrightarrow> False"

definition strict :: "string list \<Rightarrow> (json \<Rightarrow> 'a option) \<Rightarrow> json \<Rightarrow> 'a option" where
  "strict ks f v = (if strict_object ks v then f v else None)"

abbreviation "strings \<equiv> array_value string_value"

lemma non_empty_value_Some: "non_empty_value v = Some s \<Longrightarrow> s \<noteq> []"
  by (auto simp: non_empty_value_def bind_eq_Some_conv split: if_splits)

lemma required_non_empty: "required_member non_empty_value v k = Some s \<Longrightarrow> s \<noteq> []"
  by (auto simp: required_member_def bind_eq_Some_conv dest: non_empty_value_Some)

end
