(* ===== verification/VerifierRunner.thy ===== *)
theory VerifierRunner
  imports EngineProps Schema
begin

text \<open>
  The verifier (verification/VerifierRunner.ts) with the schema of its report
  (\<open>VerificationReportSchema\<close> in verification/verdict.ts). It runs the engine itself, with no
  journal, no gate and four read-only tools, for at most two attempts. The text of a schema
  issue, which zod writes, and of a rejected report are parameters; the instructions the
  verifier's model receives are not modelled.
\<close>

subsection \<open>The schema of a report\<close>

definition verdict_value :: "json \<Rightarrow> verdict option" where
  "verdict_value v =
     (case string_value v of
        None \<Rightarrow> None
      | Some s \<Rightarrow> if s = ''PASS'' then Some PASS else if s = ''FAIL'' then Some FAIL
                  else if s = ''PARTIAL'' then Some PARTIAL else None)"

definition check_value :: "json \<Rightarrow> check_result option" where
  "check_value v =
     (case string_value v of
        None \<Rightarrow> None
      | Some s \<Rightarrow> if s = ''PASS'' then Some Check_pass else if s = ''FAIL'' then Some Check_fail
                  else if s = ''SKIP'' then Some Check_skip else None)"

definition severity_value :: "json \<Rightarrow> severity option" where
  "severity_value v =
     (case string_value v of
        None \<Rightarrow> None
      | Some s \<Rightarrow> if s = ''low'' then Some Low else if s = ''medium'' then Some Medium
                  else if s = ''high'' then Some High else None)"

definition parse_check :: "json \<Rightarrow> verification_check option" where
  "parse_check v =
     Option.bind (required_member string_value v ''name'') (\<lambda>name.
     Option.bind (default_member [] strings v ''criterionIds'') (\<lambda>criteria.
     Option.bind (default_member [] strings v ''evidenceIds'') (\<lambda>evidence.
     Option.bind (required_member check_value v ''result'') (\<lambda>result.
     Option.bind (default_member [] string_value v ''expected'') (\<lambda>expected.
     Option.bind (default_member [] string_value v ''actual'') (\<lambda>actual.
     Some \<lparr>vc_name = name, vc_criterionIds = criteria, vc_evidenceIds = evidence, vc_result = result,
           vc_expected = expected, vc_actual = actual\<rparr>))))))"

definition parse_failure :: "json \<Rightarrow> verification_failure option" where
  "parse_failure v =
     Option.bind (required_member string_value v ''title'') (\<lambda>title.
     Option.bind (required_member severity_value v ''severity'') (\<lambda>severity.
     Option.bind (default_member [] strings v ''reproduction'') (\<lambda>reproduction.
     Option.bind (default_member [] strings v ''evidenceIds'') (\<lambda>evidence.
     Some \<lparr>vf_title = title, vf_severity = severity, vf_reproduction = reproduction, vf_evidenceIds = evidence\<rparr>))))"

definition parse_unverified :: "json \<Rightarrow> unverified_item option" where
  "parse_unverified v =
     Option.bind (required_member string_value v ''item'') (\<lambda>item.
     Option.bind (required_member string_value v ''reason'') (\<lambda>reason.
     Some \<lparr>uv_item = item, uv_reason = reason\<rparr>))"

definition parse_report_value :: "json \<Rightarrow> verification_report option" where
  "parse_report_value v =
     Option.bind (required_member verdict_value v ''verdict'') (\<lambda>verdict.
     Option.bind (required_member string_value v ''summary'') (\<lambda>summary.
     Option.bind (required_member (array_value parse_check) v ''checks'') (\<lambda>checks.
     Option.bind (default_member None (optional_value string_value) v ''adversarialProbeEvidenceId'') (\<lambda>probe.
     Option.bind (default_member [] (array_value parse_failure) v ''failures'') (\<lambda>failures.
     Option.bind (default_member [] (array_value parse_unverified) v ''unverified'') (\<lambda>unverified.
     Some \<lparr>vr_verdict = verdict, vr_summary = summary, vr_checks = checks, vr_adversarialProbeEvidenceId = probe,
           vr_failures = failures, vr_unverified = unverified\<rparr>))))))"

subsection \<open>Finding the report in the model's text\<close>

text \<open>From the first opening brace to the last closing one, which must come after it.\<close>

definition report_slice :: "string \<Rightarrow> string option" where
  "report_slice t =
     (let start = dropWhile (\<lambda>c. c \<noteq> CHR ''{'') t;
          body = rev (dropWhile (\<lambda>c. c \<noteq> CHR ''}'') (rev start))
      in if body = [] then None else Some body)"

definition schema_failure :: string where
  "schema_failure = ''schema violation''"

definition parseReport :: "string \<Rightarrow> string + verification_report" where
  "parseReport t =
     (case report_slice t of
        None \<Rightarrow> Inl ''no JSON object found in verifier output''
      | Some body \<Rightarrow>
          (case json_parse body of
             None \<Rightarrow> Inl ''invalid JSON''
           | Some v \<Rightarrow> (case parse_report_value v of None \<Rightarrow> Inl schema_failure | Some r \<Rightarrow> Inr r)))"

subsection \<open>The verifier's engine\<close>

record 'w verifier =
  vfy_engine :: "'w engine_env"
  vfy_tools :: "'w tool_registry"
  vfy_workspaceRoot :: string
  vfy_maxTurns :: "number option"
  vfy_problemText :: "report_problem \<Rightarrow> string"

definition verifier_engine :: "'w verifier \<Rightarrow> 'w engine_env" where
  "verifier_engine V =
     (vfy_engine V)\<lparr>ev_registry := vfy_tools V, ev_journal := None, ev_aborted := (\<lambda>w. False),
       ev_retry := RETRY_DEFAULTS\<lparr>ro_maxAttempts := 2\<rparr>, ev_context := None, ev_gate := None, ev_verifier := None,
       ev_maxRepairAttempts := None, ev_replan := DEFAULT_REPLAN_CONFIG, ev_intelligence := False,
       ev_reflectionInterval := None, ev_evaluationWindow := None, ev_completionReflection := True,
       ev_calibration := None, ev_calibrationEnabled := True\<rparr>"

definition criterion_text :: "acceptance_criterion \<Rightarrow> string" where
  "criterion_text c =
     ''- '' @ ac_id c @ '' ('' @ kind_text (ac_evidenceKind c) @ (if ac_required c then '', required'' else []) @ ''): '' @
     ac_statement c"

definition newlines :: "nat \<Rightarrow> string" where
  "newlines n = replicate n (CHR 0x0A)"

definition verifier_request :: "string \<Rightarrow> plan_version option \<Rightarrow> string \<Rightarrow> string option \<Rightarrow> string" where
  "verifier_request goal plan touched feedback =
     js_join (newlines 2)
       [''Original goal:'' @ newlines 1 @ goal,
        (case plan of
           None \<Rightarrow> ''No approved plan; verify against the stated goal.''
         | Some p \<Rightarrow> ''Approved plan v'' @ show_num (pl_version p) @ '' acceptance criteria:'' @ newlines 1 @
             js_join (newlines 1) (map criterion_text (pl_acceptanceCriteria p))),
        ''Changed state summary:'' @ newlines 1 @ touched,
        (case truthy feedback of
           Some f \<Rightarrow> ''Your previous report was rejected: '' @ f @ ''. Produce a corrected JSON report.''
         | None \<Rightarrow> ''Verify the implementation now.'')]"

definition verifier_input :: "'w verifier \<Rightarrow> string \<Rightarrow> string \<Rightarrow> string \<Rightarrow> number \<Rightarrow> initial_input" where
  "verifier_input V sessionId runId turnId now =
     \<lparr>in_sessionId = sessionId, in_runId = runId, in_turnId = turnId, in_workspaceRoot = vfy_workspaceRoot V,
      in_mode = None, in_maxTurns = or_else (vfy_maxTurns V) 10, in_maxModelCalls = 15, in_maxToolCalls = 40,
      in_maxWallTimeMs = 600000, in_now = now\<rparr>"

text \<open>The text of the last assistant message that has any.\<close>

fun newer_text :: "agent_event \<Rightarrow> string \<Rightarrow> string" where
  "newer_text (Fact_event (Assistant_message_completed m usage)) old =
     (if js_trim (text_of_blocks (msg_content m)) \<noteq> [] then text_of_blocks (msg_content m) else old)"
| "newer_text ev old = old"

definition final_text :: "agent_event list \<Rightarrow> string" where
  "final_text evs = fold newer_text evs []"

definition fresh_engine :: "'w shared \<Rightarrow> 'w engine" where
  "fresh_engine sh =
     \<lparr>en_yielded = [], en_appended = [], en_compactFailures = 0, en_hintEmitted = False, en_writeGate = False,
      en_localRepair = False, en_shared = sh\<rparr>"

definition collectFinalText ::
    "'w verifier \<Rightarrow> string \<Rightarrow> 'w engine \<Rightarrow> (js_error + string) \<times> 'w engine" where
  "collectFinalText V request =
     (let E = verifier_engine V
      in bind_act (call_world (ev_next E ''vses'')) (\<lambda>sessionId.
         bind_act (call_world (ev_next E ''vrun'')) (\<lambda>runId.
         bind_act (call_world (ev_next E ''vturn'')) (\<lambda>turnId.
         bind_act (call_world (ev_now E)) (\<lambda>now.
         bind_act (call_world (ev_next E ''msg'')) (\<lambda>i.
         bind_act (call_world (ev_iso E)) (\<lambda>iso.
           let s = createInitialState (verifier_input V sessionId runId turnId now);
               m = \<lparr>msg_id = i, msg_parentId = None, msg_sessionId = sessionId, msg_turnId = turnId, msg_role = User_role,
                    msg_content = [Text_block request], msg_createdAt = iso,
                    msg_meta = Some \<lparr>mm_model = None, mm_usage = None, mm_source = Some Engine_source, mm_synthetic = Some True\<rparr>\<rparr>
           in bind_act (run E (s\<lparr>ag_messages := [m]\<rparr>)) (\<lambda>t. get_engine (\<lambda>g. final_text (en_yielded g))))))))))"

text \<open>One attempt starts a run of the engine, whose events are its own.\<close>

definition attempt_text :: "'w verifier \<Rightarrow> string \<Rightarrow> 'w shared \<Rightarrow> (js_error + string) \<times> 'w shared" where
  "attempt_text V request sh =
     (case collectFinalText V request (fresh_engine sh) of (r, g) \<Rightarrow> (r, en_shared g))"

definition degraded_report :: "string option \<Rightarrow> verification_report" where
  "degraded_report feedback =
     \<lparr>vr_verdict = PARTIAL, vr_summary = ''verifier failed to produce a valid report: '' @ or_else feedback ''null'',
      vr_checks = [], vr_adversarialProbeEvidenceId = None, vr_failures = [],
      vr_unverified = [\<lparr>uv_item = ''entire verification'', uv_reason = or_else feedback ''invalid report''\<rparr>]\<rparr>"

primrec verify_attempts ::
    "nat \<Rightarrow> 'w verifier \<Rightarrow> string \<Rightarrow> plan_version option \<Rightarrow> string \<Rightarrow> string list \<Rightarrow> string option \<Rightarrow> 'w shared \<Rightarrow>
     (js_error + last_verification) \<times> 'w shared" where
  "verify_attempts 0 V goal plan touched stale feedback sh =
     (Inr \<lparr>lv_report = degraded_report feedback, lv_valid = False\<rparr>, sh)"
| "verify_attempts (Suc n) V goal plan touched stale feedback sh =
     (case attempt_text V (verifier_request goal plan touched feedback) sh of
        (Inl e, sh') \<Rightarrow> (Inl e, sh')
      | (Inr t, sh') \<Rightarrow>
          (case parseReport t of
             Inl reason \<Rightarrow> verify_attempts n V goal plan touched stale (Some reason) sh'
           | Inr r \<Rightarrow>
               (case validateReport (ev_host (vfy_engine V)) r (sh_evidence sh') (map_option pl_acceptanceCriteria plan) (Some stale) of
                  None \<Rightarrow> (Inr \<lparr>lv_report = r, lv_valid = True\<rparr>, sh')
                | Some p \<Rightarrow> verify_attempts n V goal plan touched stale (Some (vfy_problemText V p)) sh')))"

definition verify ::
    "'w verifier \<Rightarrow> string \<Rightarrow> plan_version option \<Rightarrow> string \<Rightarrow> 'w shared \<Rightarrow> (js_error + last_verification) \<times> 'w shared" where
  "verify V goal plan touched sh =
     verify_attempts 2 V goal plan touched (stale_ids (vfy_engine V) sh) None sh"

subsection \<open>What a verdict is worth\<close>

lemma verify_attempts_sound:
  "verify_attempts n V goal plan touched stale feedback sh = (Inr v, sh') \<Longrightarrow>
   (lv_valid v \<and> validateReport (ev_host (vfy_engine V)) (lv_report v) (sh_evidence sh')
      (map_option pl_acceptanceCriteria plan) (Some stale) = None) \<or>
   (\<not> lv_valid v \<and> vr_verdict (lv_report v) = PARTIAL \<and> vr_unverified (lv_report v) \<noteq> [])"
proof (induction n arbitrary: feedback sh)
  case 0
  then show ?case by (auto simp: degraded_report_def)
next
  case (Suc n)
  obtain r sh1 where a: "attempt_text V (verifier_request goal plan touched feedback) sh = (r, sh1)" by (meson surj_pair)
  show ?case
  proof (cases r)
    case (Inr t)
    show ?thesis
    proof (cases "parseReport t")
      case (Inr report)
      show ?thesis
        using Suc a \<open>r = Inr t\<close> Inr
        by (cases "validateReport (ev_host (vfy_engine V)) report (sh_evidence sh1) (map_option pl_acceptanceCriteria plan) (Some stale)")
          auto
    qed (use Suc a Inr in auto)
  qed (use Suc a in simp)
qed

text \<open>A verdict is checked or it is worthless. What \<open>verify\<close> returns as valid passed the contract checks
  of \<open>validateReport\<close> against the receipts as they are when the verifier ends; what did not, after the
  two attempts, is returned as an invalid PARTIAL with something unverified, whatever the model
  wrote, so it can never be taken for a pass.\<close>

theorem verdicts_are_validated:
  assumes "verify V goal plan touched sh = (Inr v, sh')"
  shows "if lv_valid v
    then validateReport (ev_host (vfy_engine V)) (lv_report v) (sh_evidence sh')
           (map_option pl_acceptanceCriteria plan) (Some (stale_ids (vfy_engine V) sh)) = None
    else vr_verdict (lv_report v) = PARTIAL \<and> vr_unverified (lv_report v) \<noteq> []"
  using verify_attempts_sound [OF assms [unfolded verify_def]] by auto

text \<open>A verifier that is allowed no turn.\<close>

definition idle_verifier :: "unit verifier" where
  "idle_verifier =
     \<lparr>vfy_engine = demo_engine_env, vfy_tools = [], vfy_workspaceRoot = ''/w'', vfy_maxTurns = Some 0,
      vfy_problemText = (\<lambda>p. ''rejected'')\<rparr>"

lemma idle_attempt: "attempt_text idle_verifier request sh = (Inr [], sh)"
proof -
  have stop: "round_of (verifier_engine idle_verifier) s g =
      (Inr (Stopped (Max_turns 0) s), g\<lparr>en_yielded := en_yielded g @ [Fact_event (Run_terminated (Max_turns 0)), status_changed]\<rparr>)"
    if "ag_iteration s = 0" "rb_maxTurns (ag_budget s) = 0" for s and g :: "unit engine"
    using that by (simp add: round_of_def checkPreflight_def stop_run_def terminate_def step_defs verifier_engine_def
        idle_verifier_def Let_def)
  have env: "ev_next (verifier_engine idle_verifier) = (\<lambda>p w. (p, w))" "ev_now (verifier_engine idle_verifier) = (\<lambda>w. (0, w))"
    "ev_iso (verifier_engine idle_verifier) = (\<lambda>w. (''now'', w))" "vfy_maxTurns idle_verifier = Some 0"
    by (simp_all add: verifier_engine_def idle_verifier_def)
  show ?thesis
    by (simp add: attempt_text_def collectFinalText_def bind_act_def call_world_def get_engine_def set_world_def Let_def env
        run.simps [of "verifier_engine idle_verifier"] stop createInitialState_def verifier_input_def initialRecovery_def
        fresh_engine_def final_text_def status_changed_def del: run.simps)
qed

theorem verdicts_are_validated_witness:
  "\<exists>v. verify idle_verifier ''goal'' None ''nothing'' (en_shared demo_engine) = (Inr v, en_shared demo_engine) \<and>
     vr_verdict (lv_report v) = PARTIAL \<and> vr_unverified (lv_report v) \<noteq> []"
proof -
  have "\<exists>v. verify idle_verifier ''goal'' None ''nothing'' (en_shared demo_engine) = (Inr v, en_shared demo_engine) \<and> \<not> lv_valid v"
    by (simp add: verify_def numeral_2_eq_2 idle_attempt parseReport_def report_slice_def)
  then show ?thesis
    using verdicts_are_validated [of idle_verifier "''goal''" None "''nothing''" "en_shared demo_engine"] by auto
qed



end
