(* ===== verification/TextEdit.thy ===== *)
theory TextEdit
  imports PathKey
begin

text \<open>
  The text operations of the mutation tools: JavaScript's \<open>indexOf\<close>, \<open>split\<close> and \<open>replace\<close> with
  a string pattern, and the line-ending tolerant matching of workspace/lineEndings.ts.
\<close>

subsection \<open>Searching\<close>

text \<open>\<open>haystack.indexOf(needle)\<close>: the text before the first occurrence and the text after it.\<close>

fun find_text :: "string \<Rightarrow> string \<Rightarrow> (string \<times> string) option" where
  "find_text needle [] = (if needle = [] then Some ([], []) else None)"
| "find_text needle (c # cs) =
     (if starts_with (c # cs) needle then Some ([], drop (length needle) (c # cs))
      else map_option (\<lambda>(before, after). (c # before, after)) (find_text needle cs))"

definition includes_text :: "string \<Rightarrow> string \<Rightarrow> bool" where
  "includes_text hay needle \<longleftrightarrow> find_text needle hay \<noteq> None"

lemma find_text_Some: "find_text needle hay = Some (before, after) \<Longrightarrow> hay = before @ needle @ after"
  by (induction needle hay arbitrary: before rule: find_text.induct)
    (auto simp: starts_with_iff split: if_splits)

lemma find_text_shorter:
  assumes "find_text needle hay = Some (before, after)" "needle \<noteq> []"
  shows "length after < length hay"
  using find_text_Some [OF assms(1)] assms(2) by simp

lemma find_text_None_iff: "find_text needle hay = None \<longleftrightarrow> (\<forall>u v. hay \<noteq> u @ needle @ v)"
proof (induction needle hay rule: find_text.induct)
  case (2 needle c cs)
  have "(\<exists>u v. c # cs = u @ needle @ v) \<longleftrightarrow> starts_with (c # cs) needle \<or> (\<exists>u v. cs = u @ needle @ v)"
  proof
    assume "\<exists>u v. c # cs = u @ needle @ v"
    then obtain u v where uv: "c # cs = u @ needle @ v" by blast
    then show "starts_with (c # cs) needle \<or> (\<exists>u v. cs = u @ needle @ v)"
      by (cases u) (auto simp: starts_with_iff)
  next
    assume "starts_with (c # cs) needle \<or> (\<exists>u v. cs = u @ needle @ v)"
    then show "\<exists>u v. c # cs = u @ needle @ v"
      by (metis append_Cons append_Nil starts_with_iff)
  qed
  then show ?case using 2 by (cases "find_text needle cs") auto
qed auto

lemma includes_text_iff: "includes_text hay needle \<longleftrightarrow> (\<exists>u v. hay = u @ needle @ v)"
  by (auto simp: includes_text_def find_text_None_iff)

text \<open>
  \<open>countOccurrences\<close>: the loop never ends for an empty needle, which is the value \<open>None\<close>.
\<close>

partial_function (option) countOccurrences :: "string \<Rightarrow> string \<Rightarrow> nat option" where
  "countOccurrences hay needle =
     (case find_text needle hay of
        None \<Rightarrow> Some 0
      | Some (before, after) \<Rightarrow>
          (if needle = [] then countOccurrences hay needle
           else Option.bind (countOccurrences after needle) (\<lambda>n. Some (Suc n))))"

declare countOccurrences.simps [code]

text \<open>\<open>haystack.split(separator)\<close>, for a separator that is not empty.\<close>

function split_text :: "string \<Rightarrow> string \<Rightarrow> string list" where
  "split_text sep hay =
     (case find_text sep hay of
        None \<Rightarrow> [hay]
      | Some (before, after) \<Rightarrow> if sep = [] then [hay] else before # split_text sep after)"
  by pat_completeness auto
termination
  by (relation "measure (length \<circ> snd)") (auto simp: find_text_shorter)

declare split_text.simps [simp del]

lemma split_none: "find_text needle hay = None \<Longrightarrow> split_text needle hay = [hay]"
  by (simp add: split_text.simps)

lemma split_some:
  "find_text sep hay = Some (before, after) \<Longrightarrow> sep \<noteq> [] \<Longrightarrow> split_text sep hay = before # split_text sep after"
  by (simp add: split_text.simps)

lemma split_not_Nil [simp]: "split_text sep hay \<noteq> []"
  by (subst split_text.simps) (simp split: option.split prod.split)

lemma join_split: "sep \<noteq> [] \<Longrightarrow> js_join sep (split_text sep hay) = hay"
proof (induction sep hay rule: split_text.induct)
  case (1 sep hay)
  show ?case
  proof (cases "find_text sep hay")
    case (Some r)
    obtain before after where r: "r = (before, after)" by force
    have "js_join sep (before # split_text sep after) = before @ sep @ after"
      using 1 Some r by (cases "split_text sep after") auto
    then show ?thesis
      using split_some [OF Some [unfolded r] 1(2)] find_text_Some [OF Some [unfolded r]] by simp
  qed (simp add: split_none)
qed

text \<open>Counting ends for every needle that is not empty, with the number of pieces less one.\<close>

lemma countOccurrences_split: "needle \<noteq> [] \<Longrightarrow> countOccurrences hay needle = Some (length (split_text needle hay) - 1)"
proof (induction needle hay rule: split_text.induct)
  case (1 sep hay)
  have "Suc (length (split_text sep after) - Suc 0) = length (split_text sep after)" for after
    by (metis Suc_pred length_greater_0_conv One_nat_def split_not_Nil)
  then show ?case
    using 1 by (subst countOccurrences.simps, subst split_text.simps) (auto split: option.split)
qed

subsection \<open>Replacing\<close>

text \<open>
  \<open>replace\<close> with a string pattern expands \<open>$$\<close>, \<open>$&\<close>, \<open>$`\<close> and \<open>$'\<close> in the replacement; there
  are no groups, so any other \<open>$\<close> stands for itself.
\<close>

fun expand_dollars :: "string \<Rightarrow> string \<Rightarrow> string \<Rightarrow> string \<Rightarrow> string" where
  "expand_dollars matched before after [] = []"
| "expand_dollars matched before after [c] = [c]"
| "expand_dollars matched before after (c # d # cs) =
     (if c = CHR ''$'' \<and> d = CHR ''$'' then CHR ''$'' # expand_dollars matched before after cs
      else if c = CHR ''$'' \<and> d = CHR ''&'' then matched @ expand_dollars matched before after cs
      else if c = CHR ''$'' \<and> d = CHR 0x60 then before @ expand_dollars matched before after cs
      else if c = CHR ''$'' \<and> d = CHR 0x27 then after @ expand_dollars matched before after cs
      else c # expand_dollars matched before after (d # cs))"

definition js_replace :: "string \<Rightarrow> string \<Rightarrow> string \<Rightarrow> string" where
  "js_replace hay needle replacement =
     (case find_text needle hay of
        None \<Rightarrow> hay
      | Some (before, after) \<Rightarrow> before @ expand_dollars needle before after replacement @ after)"

definition js_replace_all :: "string \<Rightarrow> string \<Rightarrow> string \<Rightarrow> string" where
  "js_replace_all hay needle replacement = js_join replacement (split_text needle hay)"

lemma expand_plain: "CHR ''$'' \<notin> set t \<Longrightarrow> expand_dollars matched before after t = t"
  by (induction matched before after t rule: expand_dollars.induct) auto

subsection \<open>Line endings\<close>

abbreviation "LF \<equiv> [CHR 0x0A]"
abbreviation "CRLF \<equiv> [CHR 0x0D, CHR 0x0A]"

text \<open>\<open>replace(/\r\n/g, '\n')\<close> and \<open>split('\r\n').join('\n')\<close> are the same function.\<close>

definition to_lf :: "string \<Rightarrow> string" where
  "to_lf t = js_replace_all t CRLF LF"

definition to_crlf :: "string \<Rightarrow> string" where
  "to_crlf t = js_replace_all (to_lf t) LF CRLF"

record replace_match =
  rm_occurrences :: nat
  rm_oldText :: string
  rm_newText :: string

text \<open>\<open>None\<close> when counting does not end.\<close>

definition matchForReplace :: "string \<Rightarrow> string \<Rightarrow> string \<Rightarrow> replace_match option" where
  "matchForReplace content oldText newText =
     (let unmatched = \<lparr>rm_occurrences = 0, rm_oldText = oldText, rm_newText = newText\<rparr>
      in Option.bind (countOccurrences content oldText) (\<lambda>exact.
         if 0 < exact then Some \<lparr>rm_occurrences = exact, rm_oldText = oldText, rm_newText = newText\<rparr>
         else if \<not> includes_text oldText LF then Some unmatched
         else let normalizedOld = to_lf oldText
              in Option.bind (countOccurrences (to_lf content) normalizedOld) (\<lambda>normalized.
                 if normalized = 0 then Some unmatched
                 else if \<not> includes_text content CRLF
                 then Some \<lparr>rm_occurrences = normalized, rm_oldText = normalizedOld, rm_newText = to_lf newText\<rparr>
                 else Some \<lparr>rm_occurrences = normalized, rm_oldText = to_crlf normalizedOld, rm_newText = to_crlf newText\<rparr>)))"

subsection \<open>Consistent line endings\<close>

abbreviation "CR \<equiv> CHR 0x0D"

definition crlf :: "string \<Rightarrow> string" where
  "crlf t = concat (map (\<lambda>c. if c = CHR 0x0A then CRLF else [c]) t)"

lemma crlf_simps [simp]:
  "crlf [] = []" "crlf (c # t) = (if c = CHR 0x0A then CRLF else [c]) @ crlf t" "crlf (s @ t) = crlf s @ crlf t"
  by (simp_all add: crlf_def)

lemma crlf_Nil_iff [simp]: "crlf t = [] \<longleftrightarrow> t = []"
  by (cases t) auto

lemma split_text_char: "split_text [c] hay = split_char c hay"
proof (induction hay)
  case (Cons x xs)
  have "split_text [c] (x # xs) = (if x = c then [] # split_text [c] xs
      else (x # hd (split_text [c] xs)) # tl (split_text [c] xs))"
    by (auto simp: split_text.simps [of "[c]" "x # xs"] split_text.simps [of "[c]" xs] starts_with_iff
        split: option.split)
  then show ?case using Cons by (auto split: list.split)
qed (simp add: split_text.simps)

lemma join_split_char: "js_join r (split_char c t) = concat (map (\<lambda>x. if x = c then r else [x]) t)"
proof (induction t)
  case (Cons x xs)
  have "split_char c xs \<noteq> []" by simp
  then obtain s ss where "split_char c xs = s # ss" by (cases "split_char c xs") auto
  then show ?case using Cons by (cases ss) auto
qed simp

lemma to_crlf_eq: "to_crlf t = crlf (to_lf t)"
  by (simp add: to_crlf_def js_replace_all_def split_text_char join_split_char crlf_def)

lemma to_lf_plain: "\<not> includes_text t CRLF \<Longrightarrow> to_lf t = t"
  by (simp add: to_lf_def js_replace_all_def includes_text_def split_none del: not_None_eq)

lemma no_CR_plain: "CR \<notin> set t \<Longrightarrow> to_lf t = t"
  by (rule to_lf_plain) (auto simp: includes_text_iff)

lemma crlf_prefix:
  "CR \<notin> set n \<Longrightarrow> CR \<notin> set t \<Longrightarrow> starts_with (crlf t) (crlf n) \<longleftrightarrow> starts_with t n"
proof (induction n arbitrary: t)
  case (Cons a n)
  then show ?case by (cases t) (auto simp: starts_with_def split: if_splits)
qed (simp add: starts_with_def)

lemma crlf_drop:
  "starts_with t n \<Longrightarrow> drop (length (crlf n)) (crlf t) = crlf (drop (length n) t)"
  by (auto simp: starts_with_iff)

lemma find_crlf:
  assumes "n \<noteq> []" "CR \<notin> set n" "CR \<notin> set t"
  shows "find_text (crlf n) (crlf t) = map_option (map_prod crlf crlf) (find_text n t)"
  using assms(3)
proof (induction t)
  case Nil
  then show ?case using assms(1) by simp
next
  case (Cons c t)
  note pre = crlf_prefix [OF assms(2) Cons.prems]
  show ?case
  proof (cases "starts_with (c # t) n")
    case True
    then have "starts_with (crlf (c # t)) (crlf n)" using pre by simp
    then have "find_text (crlf n) (crlf (c # t)) = Some ([], drop (length (crlf n)) (crlf (c # t)))"
      by (cases "crlf (c # t)") (auto simp del: crlf_simps(2))
    then show ?thesis using True crlf_drop [OF True] by simp
  next
    case False
    have here: "\<not> starts_with (crlf (c # t)) (crlf n)" using False pre by simp
    have inside: "\<not> starts_with (CHR 0x0A # crlf t) (crlf n)"
      using assms(1, 2) by (cases n) (auto simp: starts_with_def split: if_splits)
    have "find_text (crlf n) (crlf t) = map_option (map_prod crlf crlf) (find_text n t)" using Cons by simp
    then show ?thesis using here inside False
      by (cases "find_text n t") (auto simp: split: if_splits)
  qed
qed

lemma split_crlf:
  "n \<noteq> [] \<Longrightarrow> CR \<notin> set n \<Longrightarrow> CR \<notin> set t \<Longrightarrow> split_text (crlf n) (crlf t) = map crlf (split_text n t)"
proof (induction n t rule: split_text.induct)
  case (1 n t)
  show ?case
  proof (cases "find_text n t")
    case None
    then show ?thesis using find_crlf [OF 1(2-4)] by (simp add: split_none)
  next
    case (Some r)
    obtain before after where r: "r = (before, after)" by force
    then have "CR \<notin> set after" using find_text_Some [of n t] Some 1(4) by auto
    then show ?thesis
      using 1 Some r find_crlf [OF 1(2-4)]
      by (simp add: split_text.simps [of n t] split_text.simps [of "crlf n" "crlf t"])
  qed
qed

lemma count_crlf:
  "n \<noteq> [] \<Longrightarrow> CR \<notin> set n \<Longrightarrow> CR \<notin> set t \<Longrightarrow> countOccurrences (crlf t) (crlf n) = countOccurrences t n"
  by (simp add: countOccurrences_split split_crlf)

lemma split_char_pieces: "s \<in> set (split_text LF t) \<Longrightarrow> CHR 0x0A \<notin> set s"
  unfolding split_text_char by (rule split_char_no_sep)

lemma crlf_plain: "CHR 0x0A \<notin> set s \<Longrightarrow> crlf s = s"
  by (induction s) auto

lemma to_lf_crlf: "CR \<notin> set t \<Longrightarrow> to_lf (crlf t) = t"
proof -
  assume t: "CR \<notin> set t"
  have "split_text (crlf LF) (crlf t) = map crlf (split_text LF t)" using t by (intro split_crlf) auto
  also have "\<dots> = split_text LF t" by (rule map_idI) (rule crlf_plain [OF split_char_pieces])
  finally show ?thesis using join_split [of LF t] by (simp add: to_lf_def js_replace_all_def)
qed

text \<open>A text that breaks its lines with \<open>\n\<close> only, or with \<open>\r\n\<close> only.\<close>

definition consistent_endings :: "string \<Rightarrow> bool" where
  "consistent_endings t \<longleftrightarrow> \<not> includes_text t CRLF \<or> (CR \<notin> set (to_lf t) \<and> to_crlf t = t)"

lemma replace_all_chars: "set (js_replace_all t a b) \<subseteq> set t \<union> set b"
proof -
  have "set s \<subseteq> set t" if "s \<in> set (split_text a t)" for s
    using that
  proof (induction a t arbitrary: s rule: split_text.induct)
    case (1 a t)
    show ?case
    proof (cases "find_text a t")
      case (Some r)
      obtain before after where r: "r = (before, after)" by force
      note t = find_text_Some [OF Some [unfolded r]]
      show ?thesis
      proof (cases "a = []")
        case False
        then have "s = before \<or> set s \<subseteq> set after"
          using 1(1) [OF Some r [symmetric] False] 1(2) split_some [OF Some [unfolded r] False] by auto
        then show ?thesis unfolding t by auto
      qed (use 1(2) Some r in \<open>simp add: split_text.simps [of "[]" t]\<close>)
    qed (use 1 in \<open>simp add: split_none\<close>)
  qed
  moreover have "set (js_join b ss) \<subseteq> \<Union> (set ` set ss) \<union> set b" for ss
    by (induction b ss rule: js_join.induct) auto
  ultimately show ?thesis unfolding js_replace_all_def by blast
qed

lemma find_some_chars: "find_text n t \<noteq> None \<Longrightarrow> set n \<subseteq> set t"
  using find_text_Some [of n t] by fastforce

lemma count_positive: "countOccurrences t n = Some k \<Longrightarrow> 0 < k \<Longrightarrow> find_text n t \<noteq> None"
  by (cases "find_text n t") (auto simp: countOccurrences.simps [of t n])

lemma to_lf_Nil_iff: "to_lf t = [] \<longleftrightarrow> t = []"
proof -
  have "js_join LF ss = [] \<Longrightarrow> ss \<noteq> [] \<Longrightarrow> ss = [[]]" for ss
    by (induction LF ss rule: js_join.induct) auto
  then show ?thesis
    using join_split [of CRLF t] by (fastforce simp: to_lf_def js_replace_all_def split_none)
qed

text \<open>Where the endings are consistent, what was counted is what is replaced.\<close>

lemma match_occurs:
  assumes "matchForReplace content old new = Some m" "0 < rm_occurrences m" "consistent_endings content" "old \<noteq> []"
  shows "countOccurrences content (rm_oldText m) = Some (rm_occurrences m) \<and>
    to_lf (rm_oldText m) = to_lf old \<and> rm_oldText m \<noteq> [] \<and> rm_newText m \<in> {new, to_lf new, to_crlf new}"
proof -
  let ?n = "to_lf old"
  obtain exact where exact: "countOccurrences content old = Some exact"
    using assms(4) by (simp add: countOccurrences_split)
  show ?thesis
  proof (cases "0 < exact")
    case True
    then show ?thesis using assms exact by (auto simp: matchForReplace_def Let_def)
  next
    case False
    then obtain k where k: "countOccurrences (to_lf content) ?n = Some k" "0 < k"
      and m: "m = (if includes_text content CRLF
        then \<lparr>rm_occurrences = k, rm_oldText = to_crlf ?n, rm_newText = to_crlf new\<rparr>
        else \<lparr>rm_occurrences = k, rm_oldText = ?n, rm_newText = to_lf new\<rparr>)"
      using assms(1, 2) exact
      by (auto simp: matchForReplace_def Let_def bind_eq_Some_conv split: if_splits)
    have chars: "set ?n \<subseteq> set (to_lf content)" by (rule find_some_chars [OF count_positive [OF k]])
    show ?thesis
    proof (cases "includes_text content CRLF")
      case True
      then have c: "CR \<notin> set (to_lf content)" "crlf (to_lf content) = content"
        using assms(3) by (auto simp: consistent_endings_def to_crlf_eq)
      then have n: "CR \<notin> set ?n" using chars by blast
      have "countOccurrences content (crlf ?n) = Some k"
        using count_crlf [OF _ n c(1)] c(2) k(1) assms(4) by (simp add: to_lf_Nil_iff)
      then show ?thesis using True m n assms(4) by (simp add: to_crlf_eq no_CR_plain to_lf_crlf to_lf_Nil_iff)
    next
      case False
      have "\<not> includes_text ?n CRLF"
        using count_positive [OF k] False to_lf_plain [OF False] find_text_Some [of ?n content]
        by (auto simp: includes_text_iff) (metis append.assoc)
      then show ?thesis using False m k assms(4) by (simp add: to_lf_plain to_lf_Nil_iff)
    qed
  qed
qed

end
