(* ===== verification/FileTools.thy ===== *)
theory FileTools
  imports TextEdit Schema ToolOutput
begin

text \<open>
  The tools that write files: Edit, Write and ApplyPatch (tools/builtin), over the text
  operations of TextEdit. The file system is a map from paths to texts, and a list of the
  outcomes that the next effects on it will have; a failed \<open>writeFile\<close> may leave anything at its
  path. Two names of one file (links) and bytes that are no text are not modelled; \<open>realpath\<close> is a
  parameter. An \<open>InvariantError\<close> that a tool throws is an error without a tool error code.
\<close>

subsection \<open>The file system\<close>

text \<open>An outcome: \<open>None\<close> when the effect works, \<open>Some left\<close> when it fails and leaves \<open>left\<close> at the path.\<close>

record file_world =
  fw_files :: "string \<Rightarrow> string option"
  fw_outcomes :: "string option option list"

record file_host =
  fh_host :: host
  fh_realpath :: "(string \<Rightarrow> string option) \<Rightarrow> string \<Rightarrow> string option"
  fh_utf8Length :: "string \<Rightarrow> number"

definition next_outcome :: "file_world \<Rightarrow> string option option \<times> file_world" where
  "next_outcome w =
     (case fw_outcomes w of [] \<Rightarrow> (None, w) | x # xs \<Rightarrow> (x, w\<lparr>fw_outcomes := xs\<rparr>))"

definition put_file :: "string \<Rightarrow> string option \<Rightarrow> file_world \<Rightarrow> file_world" where
  "put_file p t w = w\<lparr>fw_files := (fw_files w)(p := t)\<rparr>"

definition write_file :: "string \<Rightarrow> string \<Rightarrow> file_world \<Rightarrow> bool \<times> file_world" where
  "write_file p t w =
     (case next_outcome w of
        (None, w') \<Rightarrow> (True, put_file p (Some t) w')
      | (Some left, w') \<Rightarrow> (False, put_file p left w'))"

definition rename_file :: "string \<Rightarrow> string \<Rightarrow> file_world \<Rightarrow> bool \<times> file_world" where
  "rename_file a b w =
     (case next_outcome w of
        (None, w') \<Rightarrow>
          (case fw_files w a of
             None \<Rightarrow> (False, w')
           | Some t \<Rightarrow> (True, put_file b (Some t) (put_file a None w')))
      | (Some left, w') \<Rightarrow> (False, w'))"

definition make_dir :: "file_world \<Rightarrow> bool \<times> file_world" where
  "make_dir w = (case next_outcome w of (x, w') \<Rightarrow> (x = None, w'))"

definition remove_file :: "string \<Rightarrow> file_world \<Rightarrow> bool \<times> file_world" where
  "remove_file p w =
     (case next_outcome w of (None, w') \<Rightarrow> (True, put_file p None w') | (Some left, w') \<Rightarrow> (False, w'))"

definition temp_path :: "string \<Rightarrow> string \<Rightarrow> string \<Rightarrow> string" where
  "temp_path kind callId resolved =
     abs_text (butlast (path_segments resolved) @ [''.agent-'' @ kind @ ''-'' @ sanitizeFileName callId @ ''.tmp''])"

text \<open>The temporary file and the rename: the first that fails ends it.\<close>

definition write_atomic :: "string \<Rightarrow> string \<Rightarrow> string \<Rightarrow> file_world \<Rightarrow> bool \<times> file_world" where
  "write_atomic temp resolved t w =
     (case write_file temp t w of
        (False, w') \<Rightarrow> (False, w')
      | (True, w') \<Rightarrow> rename_file temp resolved w')"

definition computeVersion :: "host \<Rightarrow> string \<Rightarrow> string" where
  "computeVersion H t = ''sha256:'' @ h_sha256 H t"

definition readFileVersion :: "host \<Rightarrow> string \<Rightarrow> file_world \<Rightarrow> (string \<times> string) option" where
  "readFileVersion H p w = map_option (\<lambda>t. (t, computeVersion H t)) (fw_files w p)"

definition real_check :: "file_host \<Rightarrow> string \<Rightarrow> tool_context \<Rightarrow> file_world \<Rightarrow> path_check" where
  "real_check F path cx w = checkPathReal (fh_host F) (fh_realpath F (fw_files w)) path (cx_workspaceRoot cx) False"

abbreviation "semantic \<equiv> Coded_error ''SEMANTIC_VALIDATION_ERROR''"

definition semantic_error :: "bool \<Rightarrow> structured_error" where
  "semantic_error retryable = \<lparr>se_code = ''SEMANTIC_VALIDATION_ERROR'', se_retryable = retryable\<rparr>"

definition path_change :: "string \<Rightarrow> file_change \<Rightarrow> fact_event" where
  "path_change path change =
     Workspace_changed \<lparr>wc_path = path, wc_change = change, wc_mutationId = None, wc_callId = None, wc_toolName = None\<rparr>"

text \<open>Is the file at \<open>path\<close> there with the expected version?\<close>

definition committed_check :: "file_host \<Rightarrow> string \<Rightarrow> string \<Rightarrow> string \<Rightarrow> tool_context \<Rightarrow> file_world \<Rightarrow> contract_check" where
  "committed_check F i path expected cx w =
     (let check = real_check F path cx w
      in if \<not> pc_ok check
         then \<lparr>cc_id = i, cc_passed = False, cc_detail = map_option path_reason_text (pc_reason check)\<rparr>
         else case readFileVersion (fh_host F) (pc_resolved check) w of
                None \<Rightarrow> \<lparr>cc_id = i, cc_passed = False, cc_detail = Some ''file disappeared''\<rparr>
              | Some (t, version) \<Rightarrow> \<lparr>cc_id = i, cc_passed = (version = expected), cc_detail = Some version\<rparr>)"

datatype probe = Path_rejected string | File_gone | Same_version | Other_version

definition probe_version :: "file_host \<Rightarrow> string \<Rightarrow> string \<Rightarrow> tool_context \<Rightarrow> file_world \<Rightarrow> probe" where
  "probe_version F path expected cx w =
     (let check = real_check F path cx w
      in if \<not> pc_ok check then Path_rejected (or_text (map_option path_reason_text (pc_reason check)))
         else case readFileVersion (fh_host F) (pc_resolved check) w of
                None \<Rightarrow> File_gone
              | Some (t, version) \<Rightarrow> if version = expected then Same_version else Other_version)"

definition string_member :: "json \<Rightarrow> string \<Rightarrow> string" where
  "string_member v k = or_else (Option.bind (json_member v k) string_value) []"

subsection \<open>Edit\<close>

record edit_input =
  ei_path :: string
  ei_oldText :: string
  ei_newText :: string
  ei_expectedVersion :: string
  ei_replaceAll :: bool

definition parse_edit :: "json \<Rightarrow> edit_input option" where
  "parse_edit v =
     Option.bind (required_member non_empty_value v ''path'') (\<lambda>path.
     Option.bind (required_member non_empty_value v ''oldText'') (\<lambda>old.
     Option.bind (required_member string_value v ''newText'') (\<lambda>new.
     Option.bind (required_member non_empty_value v ''expectedVersion'') (\<lambda>version.
     Option.bind (default_member False bool_value v ''replaceAll'') (\<lambda>everywhere.
     Some \<lparr>ei_path = path, ei_oldText = old, ei_newText = new, ei_expectedVersion = version, ei_replaceAll = everywhere\<rparr>)))))"

definition EditInput :: "json \<Rightarrow> edit_input option" where
  "EditInput = strict [''path'', ''oldText'', ''newText'', ''expectedVersion'', ''replaceAll''] parse_edit"

definition edit_validate :: "file_host \<Rightarrow> edit_input \<Rightarrow> tool_context \<Rightarrow> file_world \<Rightarrow> structured_error option" where
  "edit_validate F i cx w =
     (if \<not> pc_ok (checkPath (fh_host F) (ei_path i) (cx_workspaceRoot cx)) then Some (semantic_error False)
      else if \<not> pc_ok (real_check F (ei_path i) cx w) then Some (semantic_error False)
      else if ei_oldText i = ei_newText i then Some (semantic_error True) else None)"

text \<open>
  The text an edit makes of the current one, as Edit and ApplyPatch both compute it. The count
  does not end for an empty old text, which the schema refuses.
\<close>

definition edited_text :: "host \<Rightarrow> string \<Rightarrow> edit_input \<Rightarrow> tool_exception + (nat \<times> string)" where
  "edited_text H current i =
     (if computeVersion H current \<noteq> ei_expectedVersion i then Inl (Coded_error ''FILE_VERSION_CONFLICT'')
      else case matchForReplace current (ei_oldText i) (ei_newText i) of
             None \<Rightarrow> Inl Abort_error
           | Some m \<Rightarrow>
               if rm_occurrences m = 0 then Inl semantic
               else if \<not> ei_replaceAll i \<and> 1 < rm_occurrences m then Inl semantic
               else Inr (rm_occurrences m,
                      if ei_replaceAll i then js_replace_all current (rm_oldText m) (rm_newText m)
                      else js_replace current (rm_oldText m) (rm_newText m)))"

definition edit_output :: "host \<Rightarrow> edit_input \<Rightarrow> string \<Rightarrow> nat \<Rightarrow> string \<Rightarrow> execution_result" where
  "edit_output H i current n updated =
     \<lparr>xr_data = JObj [(''path'', JStr (ei_path i)), (''oldVersion'', JStr (computeVersion H current)),
        (''newVersion'', JStr (computeVersion H updated)),
        (''replacements'', JNum (if ei_replaceAll i then of_nat n else 1))],
      xr_facts = Some [path_change (ei_path i) Modified], xr_commitProof = Some (computeVersion H updated)\<rparr>"

definition edit_execute ::
    "file_host \<Rightarrow> edit_input \<Rightarrow> tool_context \<Rightarrow> file_world \<Rightarrow> (tool_exception + execution_result) \<times> file_world" where
  "edit_execute F i cx w =
     (let recheck = real_check F (ei_path i) cx w; resolved = pc_resolved recheck
      in if \<not> pc_ok recheck then (Inl semantic, w)
         else case fw_files w resolved of
                None \<Rightarrow> (Inl semantic, w)
              | Some current \<Rightarrow>
                  (case edited_text (fh_host F) current i of
                     Inl e \<Rightarrow> (Inl e, w)
                   | Inr (n, updated) \<Rightarrow>
                       (case write_atomic (temp_path ''edit'' (cx_callId cx) resolved) resolved updated w of
                          (False, w') \<Rightarrow> (Inl Other_error, w')
                        | (True, w') \<Rightarrow> (Inr (edit_output (fh_host F) i current n updated), w'))))"

definition edit_postconditions :: "file_host \<Rightarrow> json \<Rightarrow> tool_context \<Rightarrow> file_world \<Rightarrow> contract_check list" where
  "edit_postconditions F out cx w =
     [committed_check F ''new-version-committed'' (string_member out ''path'') (string_member out ''newVersion'') cx w]"

definition edit_inspect ::
    "file_host \<Rightarrow> edit_input \<Rightarrow> tool_context \<Rightarrow> idem_record \<Rightarrow> file_world \<Rightarrow> outcome_inspection" where
  "edit_inspect F i cx r w =
     (case truthy (ir_proof r) of
        None \<Rightarrow> \<lparr>oi_applied = False, oi_detail = ''no commit proof recorded''\<rparr>
      | Some proof \<Rightarrow>
          (case probe_version F (ei_path i) proof cx w of
             Path_rejected reason \<Rightarrow> \<lparr>oi_applied = False, oi_detail = ''path rejected: '' @ reason\<rparr>
           | File_gone \<Rightarrow> \<lparr>oi_applied = False, oi_detail = ''target file no longer exists''\<rparr>
           | Same_version \<Rightarrow> \<lparr>oi_applied = True, oi_detail = ''file content matches commit proof '' @ proof\<rparr>
           | Other_version \<Rightarrow> \<lparr>oi_applied = False, oi_detail = ''file content differs from commit proof''\<rparr>))"

subsection \<open>Write\<close>

record write_input =
  wi_path :: string
  wi_content :: string
  wi_overwrite :: bool

definition parse_write :: "json \<Rightarrow> write_input option" where
  "parse_write v =
     Option.bind (required_member non_empty_value v ''path'') (\<lambda>path.
     Option.bind (required_member string_value v ''content'') (\<lambda>t.
     Option.bind (default_member False bool_value v ''overwrite'') (\<lambda>overwrite.
     Some \<lparr>wi_path = path, wi_content = t, wi_overwrite = overwrite\<rparr>)))"

definition WriteInput :: "json \<Rightarrow> write_input option" where
  "WriteInput = strict [''path'', ''content'', ''overwrite''] parse_write"

definition write_validate :: "file_host \<Rightarrow> write_input \<Rightarrow> tool_context \<Rightarrow> file_world \<Rightarrow> structured_error option" where
  "write_validate F i cx w =
     (let check = checkPath (fh_host F) (wi_path i) (cx_workspaceRoot cx)
      in if \<not> pc_ok check then Some (semantic_error False)
         else if \<not> pc_ok (real_check F (wi_path i) cx w) then Some (semantic_error False)
         else if \<not> wi_overwrite i \<and> fw_files w (pc_resolved check) \<noteq> None then Some (semantic_error True)
         else None)"

definition write_output :: "file_host \<Rightarrow> write_input \<Rightarrow> bool \<Rightarrow> execution_result" where
  "write_output F i existed =
     \<lparr>xr_data = JObj [(''path'', JStr (wi_path i)), (''created'', JBool (\<not> existed)),
        (''bytes'', JNum (fh_utf8Length F (wi_content i))),
        (''newVersion'', JStr (computeVersion (fh_host F) (wi_content i)))],
      xr_facts = Some [path_change (wi_path i) (if existed then Modified else Created)],
      xr_commitProof = Some (computeVersion (fh_host F) (wi_content i))\<rparr>"

definition write_execute ::
    "file_host \<Rightarrow> write_input \<Rightarrow> tool_context \<Rightarrow> file_world \<Rightarrow> (tool_exception + execution_result) \<times> file_world" where
  "write_execute F i cx w =
     (let recheck = real_check F (wi_path i) cx w; resolved = pc_resolved recheck; existed = (fw_files w resolved \<noteq> None)
      in if \<not> pc_ok recheck then (Inl semantic, w)
         else case make_dir w of
                (False, w') \<Rightarrow> (Inl Other_error, w')
              | (True, w') \<Rightarrow>
                  (case write_atomic (temp_path ''write'' (cx_callId cx) resolved) resolved (wi_content i) w' of
                     (False, w'') \<Rightarrow> (Inl Other_error, w'')
                   | (True, w'') \<Rightarrow> (Inr (write_output F i existed), w'')))"

definition write_inspect ::
    "file_host \<Rightarrow> write_input \<Rightarrow> tool_context \<Rightarrow> idem_record \<Rightarrow> file_world \<Rightarrow> outcome_inspection" where
  "write_inspect F i cx r w =
     (let expected = or_else (ir_proof r) (computeVersion (fh_host F) (wi_content i))
      in case probe_version F (wi_path i) expected cx w of
           Path_rejected reason \<Rightarrow> \<lparr>oi_applied = False, oi_detail = ''path rejected: '' @ reason\<rparr>
         | File_gone \<Rightarrow> \<lparr>oi_applied = False, oi_detail = ''target file no longer exists''\<rparr>
         | Same_version \<Rightarrow> \<lparr>oi_applied = True, oi_detail = ''file content matches expected version '' @ expected\<rparr>
         | Other_version \<Rightarrow> \<lparr>oi_applied = False, oi_detail = ''file content differs from expected version''\<rparr>)"

subsection \<open>ApplyPatch\<close>

record patch_input =
  pt_edits :: "edit_input list"
  pt_creates :: "(string \<times> string) list"

record planned_write =
  pw_resolved :: string
  pw_displayPath :: string
  pw_created :: bool
  pw_newContent :: string
  pw_backup :: "string option"

definition parse_create :: "json \<Rightarrow> (string \<times> string) option" where
  "parse_create v =
     Option.bind (required_member non_empty_value v ''path'') (\<lambda>path.
     Option.bind (required_member string_value v ''content'') (\<lambda>t. Some (path, t)))"

definition ApplyPatchInput :: "json \<Rightarrow> patch_input option" where
  "ApplyPatchInput = strict [''edits'', ''creates''] (\<lambda>v.
     Option.bind (default_member [] (array_value parse_edit) v ''edits'') (\<lambda>edits.
     Option.bind (default_member [] (array_value parse_create) v ''creates'') (\<lambda>creates.
     Some \<lparr>pt_edits = edits, pt_creates = creates\<rparr>)))"

definition patch_targets :: "patch_input \<Rightarrow> string list" where
  "patch_targets i = map ei_path (pt_edits i) @ map fst (pt_creates i)"

fun target_problem :: "file_host \<Rightarrow> tool_context \<Rightarrow> file_world \<Rightarrow> string list \<Rightarrow> string list \<Rightarrow> structured_error option" where
  "target_problem F cx w seen [] = None"
| "target_problem F cx w seen (path # paths) =
     (let check = checkPath (fh_host F) path (cx_workspaceRoot cx)
      in if \<not> pc_ok check then Some (semantic_error False)
         else if \<not> pc_ok (real_check F path cx w) then Some (semantic_error False)
         else if pc_resolved check \<in> set seen then Some (semantic_error True)
         else target_problem F cx w (pc_resolved check # seen) paths)"

definition patch_validate :: "file_host \<Rightarrow> patch_input \<Rightarrow> tool_context \<Rightarrow> file_world \<Rightarrow> structured_error option" where
  "patch_validate F i cx w =
     (if pt_edits i = [] \<and> pt_creates i = [] then Some (semantic_error True)
      else target_problem F cx w [] (patch_targets i))"

definition plan_edit :: "file_host \<Rightarrow> tool_context \<Rightarrow> file_world \<Rightarrow> edit_input \<Rightarrow> tool_exception + planned_write" where
  "plan_edit F cx w i =
     (let recheck = real_check F (ei_path i) cx w; resolved = pc_resolved recheck
      in if \<not> pc_ok recheck then Inl semantic
         else case fw_files w resolved of
                None \<Rightarrow> Inl semantic
              | Some current \<Rightarrow>
                  (case edited_text (fh_host F) current i of
                     Inl e \<Rightarrow> Inl e
                   | Inr (n, updated) \<Rightarrow>
                       Inr \<lparr>pw_resolved = resolved, pw_displayPath = ei_path i, pw_created = False,
                            pw_newContent = updated, pw_backup = Some current\<rparr>))"

definition plan_create :: "file_host \<Rightarrow> tool_context \<Rightarrow> file_world \<Rightarrow> string \<times> string \<Rightarrow> tool_exception + planned_write" where
  "plan_create F cx w c =
     (let recheck = real_check F (fst c) cx w; resolved = pc_resolved recheck
      in if \<not> pc_ok recheck then Inl semantic
         else if fw_files w resolved \<noteq> None then Inl semantic
         else Inr \<lparr>pw_resolved = resolved, pw_displayPath = fst c, pw_created = True, pw_newContent = snd c, pw_backup = None\<rparr>)"

fun plan_each :: "('x \<Rightarrow> tool_exception + planned_write) \<Rightarrow> 'x list \<Rightarrow> tool_exception + planned_write list" where
  "plan_each f [] = Inr []"
| "plan_each f (x # xs) =
     (case f x of
        Inl e \<Rightarrow> Inl e
      | Inr p \<Rightarrow> (case plan_each f xs of Inl e \<Rightarrow> Inl e | Inr ps \<Rightarrow> Inr (p # ps)))"

definition patch_plan :: "file_host \<Rightarrow> patch_input \<Rightarrow> tool_context \<Rightarrow> file_world \<Rightarrow> tool_exception + planned_write list" where
  "patch_plan F i cx w =
     (case plan_each (plan_edit F cx w) (pt_edits i) of
        Inl e \<Rightarrow> Inl e
      | Inr ps \<Rightarrow> (case plan_each (plan_create F cx w) (pt_creates i) of Inl e \<Rightarrow> Inl e | Inr qs \<Rightarrow> Inr (ps @ qs)))"

definition patch_temp :: "tool_context \<Rightarrow> planned_write \<Rightarrow> string" where
  "patch_temp cx p = temp_path ''patch'' (cx_callId cx) (pw_resolved p)"

text \<open>The writes that were done, the last one first, and whether all were.\<close>

fun write_all ::
    "tool_context \<Rightarrow> planned_write list \<Rightarrow> planned_write list \<Rightarrow> file_world \<Rightarrow> (bool \<times> planned_write list) \<times> file_world" where
  "write_all cx written [] w = ((True, written), w)"
| "write_all cx written (p # ps) w =
     (case make_dir w of
        (False, w1) \<Rightarrow> ((False, written), w1)
      | (True, w1) \<Rightarrow>
          (case write_atomic (patch_temp cx p) (pw_resolved p) (pw_newContent p) w1 of
             (False, w2) \<Rightarrow> ((False, written), w2)
           | (True, w2) \<Rightarrow> write_all cx (p # written) ps w2))"

fun roll_back :: "planned_write list \<Rightarrow> file_world \<Rightarrow> bool \<times> file_world" where
  "roll_back [] w = (True, w)"
| "roll_back (p # ps) w =
     (case (case pw_backup p of None \<Rightarrow> remove_file (pw_resolved p) w | Some t \<Rightarrow> write_file (pw_resolved p) t w) of
        (False, w') \<Rightarrow> (False, w')
      | (True, w') \<Rightarrow> roll_back ps w')"

definition applied_json :: "host \<Rightarrow> planned_write \<Rightarrow> json" where
  "applied_json H p =
     JObj [(''path'', JStr (pw_displayPath p)), (''action'', JStr (if pw_created p then ''created'' else ''edited'')),
       (''newVersion'', JStr (computeVersion H (pw_newContent p)))]"

definition patch_output :: "host \<Rightarrow> planned_write list \<Rightarrow> execution_result" where
  "patch_output H ps =
     \<lparr>xr_data = JObj [(''applied'', JArr (map (applied_json H) ps))],
      xr_facts = Some (map (\<lambda>p. path_change (pw_displayPath p) (if pw_created p then Created else Modified)) ps),
      xr_commitProof = Some (js_join '';'' (map (\<lambda>p. pw_displayPath p @ ''@'' @ computeVersion H (pw_newContent p)) ps))\<rparr>"

definition patch_execute ::
    "file_host \<Rightarrow> patch_input \<Rightarrow> tool_context \<Rightarrow> file_world \<Rightarrow> (tool_exception + execution_result) \<times> file_world" where
  "patch_execute F i cx w =
     (case patch_plan F i cx w of
        Inl e \<Rightarrow> (Inl e, w)
      | Inr ps \<Rightarrow>
          (case write_all cx [] ps w of
             ((True, written), w1) \<Rightarrow> (Inr (patch_output (fh_host F) ps), w1)
           | ((False, written), w1) \<Rightarrow>
               (case roll_back written w1 of
                  (True, w2) \<Rightarrow> (Inl (Coded_error ''INTERNAL_TOOL_ERROR''), w2)
                | (False, w2) \<Rightarrow> (Inl Other_error, w2))))"

text \<open>The parts of a proof entry before and after its last \<open>@\<close>.\<close>

definition proof_entry :: "string \<Rightarrow> (string \<times> string) option" where
  "proof_entry t =
     (if CHR ''@'' \<in> set t
      then Some (rev (tl (dropWhile (\<lambda>c. c \<noteq> CHR ''@'') (rev t))), rev (takeWhile (\<lambda>c. c \<noteq> CHR ''@'') (rev t)))
      else None)"

fun inspect_entries :: "file_host \<Rightarrow> tool_context \<Rightarrow> file_world \<Rightarrow> string list \<Rightarrow> outcome_inspection" where
  "inspect_entries F cx w [] = \<lparr>oi_applied = True, oi_detail = ''all patched files match their commit proofs''\<rparr>"
| "inspect_entries F cx w (t # ts) =
     (case proof_entry t of
        None \<Rightarrow> \<lparr>oi_applied = False, oi_detail = ''malformed proof entry: '' @ t\<rparr>
      | Some (path, expected) \<Rightarrow>
          (case probe_version F path expected cx w of
             Path_rejected reason \<Rightarrow> \<lparr>oi_applied = False, oi_detail = ''path rejected: '' @ reason\<rparr>
           | File_gone \<Rightarrow> \<lparr>oi_applied = False, oi_detail = path @ '' no longer exists''\<rparr>
           | Other_version \<Rightarrow> \<lparr>oi_applied = False, oi_detail = path @ '' differs from commit proof''\<rparr>
           | Same_version \<Rightarrow> inspect_entries F cx w ts))"

definition patch_inspect :: "file_host \<Rightarrow> tool_context \<Rightarrow> idem_record \<Rightarrow> file_world \<Rightarrow> outcome_inspection" where
  "patch_inspect F cx r w =
     (case truthy (ir_proof r) of
        None \<Rightarrow> \<lparr>oi_applied = False, oi_detail = ''no commit proof recorded''\<rparr>
      | Some proof \<Rightarrow> inspect_entries F cx w (split_char (CHR '';'') proof))"

subsection \<open>Frames\<close>

text \<open>Two file systems that agree outside some paths.\<close>

definition agree :: "string set \<Rightarrow> (string \<Rightarrow> string option) \<Rightarrow> (string \<Rightarrow> string option) \<Rightarrow> bool" where
  "agree T f g \<longleftrightarrow> (\<forall>p. p \<notin> T \<longrightarrow> f p = g p)"

lemma agree_refl [simp]: "agree T f f"
  by (simp add: agree_def)

lemma agree_trans: "agree T f g \<Longrightarrow> agree T g h \<Longrightarrow> agree T f h"
  by (simp add: agree_def)

lemma agree_upd: "agree T f g \<Longrightarrow> agree T (f(p := t)) (g(p := t))"
  by (simp add: agree_def)

lemma agree_mono: "agree T f g \<Longrightarrow> T \<subseteq> U \<Longrightarrow> agree U f g"
  by (auto simp: agree_def)

lemma next_outcome_files: "next_outcome w = (x, w') \<Longrightarrow> fw_files w' = fw_files w"
  by (auto simp: next_outcome_def split: list.splits)

lemma make_dir_files: "make_dir w = (b, w') \<Longrightarrow> fw_files w' = fw_files w"
  by (auto simp: make_dir_def dest: next_outcome_files split: prod.splits)

lemma write_atomic_files:
  assumes "write_atomic temp resolved t w = (b, w')" "resolved \<noteq> temp"
  shows "agree {temp} (fw_files w') (if b then (fw_files w)(resolved \<mapsto> t) else fw_files w)"
  using assms
  by (auto simp: write_atomic_def write_file_def rename_file_def put_file_def agree_def dest!: next_outcome_files
      split: prod.splits option.splits bool.splits)

lemma write_atomic_at: "write_atomic temp resolved t w = (True, w') \<Longrightarrow> fw_files w' resolved = Some t"
  by (auto simp: write_atomic_def write_file_def rename_file_def put_file_def dest!: next_outcome_files
      split: prod.splits option.splits bool.splits)

lemma roll_back_step:
  "(case backup of None \<Rightarrow> remove_file p w | Some t \<Rightarrow> write_file p t w) = (True, w') \<Longrightarrow> fw_files w' = (fw_files w)(p := backup)"
  by (auto simp: remove_file_def write_file_def put_file_def dest!: next_outcome_files split: option.splits prod.splits)

definition apply_writes :: "planned_write list \<Rightarrow> (string \<Rightarrow> string option) \<Rightarrow> (string \<Rightarrow> string option)" where
  "apply_writes ps f = fold (\<lambda>p f. f(pw_resolved p \<mapsto> pw_newContent p)) ps f"

definition restore_files :: "planned_write list \<Rightarrow> (string \<Rightarrow> string option) \<Rightarrow> (string \<Rightarrow> string option)" where
  "restore_files ps f = fold (\<lambda>p f. f(pw_resolved p := pw_backup p)) ps f"

lemma roll_back_files: "roll_back ps w = (True, w') \<Longrightarrow> fw_files w' = restore_files ps (fw_files w)"
proof (induction ps arbitrary: w)
  case (Cons p ps)
  then obtain w1 where w1: "(case pw_backup p of None \<Rightarrow> remove_file (pw_resolved p) w | Some t \<Rightarrow> write_file (pw_resolved p) t w) = (True, w1)"
    "roll_back ps w1 = (True, w')"
    by (auto split: prod.splits bool.splits)
  show ?case using Cons.IH [OF w1(2)] unfolding roll_back_step [OF w1(1)] by (simp add: restore_files_def fun_upd_def)
qed (simp add: restore_files_def)

lemma write_all_files:
  assumes "write_all cx acc ps w = ((b, written), w')" "\<forall>p \<in> set ps. pw_resolved p \<notin> patch_temp cx ` set ps"
  shows "\<exists>qs rest. ps = qs @ rest \<and> written = rev qs @ acc \<and> (b \<longrightarrow> rest = []) \<and>
    agree (patch_temp cx ` set ps) (fw_files w') (apply_writes qs (fw_files w))"
  using assms
proof (induction ps arbitrary: acc w)
  case Nil
  then show ?case by (simp add: apply_writes_def)
next
  case (Cons p ps)
  obtain b1 w1 where w1: "make_dir w = (b1, w1)" by force
  obtain b2 w2 where w2: "write_atomic (patch_temp cx p) (pw_resolved p) (pw_newContent p) w1 = (b2, w2)" by force
  let ?T = "patch_temp cx ` set (p # ps)"
  have step: "agree ?T (fw_files w2) (if b2 then (fw_files w)(pw_resolved p \<mapsto> pw_newContent p) else fw_files w)"
    using write_atomic_files [OF w2] make_dir_files [OF w1] Cons.prems(2) by (auto intro: agree_mono)
  show ?case
  proof (cases "b1 \<and> b2")
    case True
    then have "write_all cx (p # acc) ps w2 = ((b, written), w')" using Cons.prems(1) w1 w2 by simp
    then obtain qs rest where r: "ps = qs @ rest" "written = rev qs @ p # acc" "b \<longrightarrow> rest = []"
      "agree (patch_temp cx ` set ps) (fw_files w') (apply_writes qs (fw_files w2))"
      using Cons.IH [of "p # acc" w2] Cons.prems(2) by auto
    have "agree ?T (apply_writes qs (fw_files w2)) (apply_writes qs ((fw_files w)(pw_resolved p \<mapsto> pw_newContent p)))"
      using step True unfolding apply_writes_def
      by (induction qs rule: rev_induct) (auto intro: agree_upd)
    then have "agree ?T (fw_files w') (apply_writes (p # qs) (fw_files w))"
      using agree_mono [OF r(4), of ?T] by (auto simp: apply_writes_def intro: agree_trans)
    then show ?thesis using r by (intro exI [of _ "p # qs"] exI [of _ rest]) simp
  next
    case False
    then have "b = False" "written = acc" "w' = (if b1 then w2 else w1)"
      using Cons.prems(1) w1 w2 by (cases b1; cases b2; simp)+
    moreover have "agree ?T (fw_files w') (fw_files w)"
      using False step make_dir_files [OF w1] \<open>w' = _\<close> by (auto split: if_splits)
    ultimately show ?thesis by (intro exI [of _ "[]"] exI [of _ "p # ps"]) (simp add: apply_writes_def)
  qed
qed

text \<open>Putting the backups back undoes the writes, in whatever order.\<close>

lemma apply_writes_other: "k \<notin> pw_resolved ` set ps \<Longrightarrow> apply_writes ps f k = f k"
  unfolding apply_writes_def by (induction ps arbitrary: f) auto

lemma restore_files_at:
  "restore_files ps f k = (if k \<in> pw_resolved ` set ps then restore_files ps g k else f k)"
  unfolding restore_files_def by (induction ps arbitrary: f g rule: rev_induct) (auto split: if_splits)

lemma restore_undoes:
  assumes "\<forall>p \<in> set ps. pw_backup p = f (pw_resolved p)"
  shows "restore_files (rev ps) (apply_writes ps f) = f"
proof
  fix k
  have same: "\<forall>p \<in> set qs. pw_backup p = f (pw_resolved p) \<Longrightarrow> restore_files qs f = f" for qs
    unfolding restore_files_def by (induction qs) (auto simp: fun_upd_idem_iff)
  show "restore_files (rev ps) (apply_writes ps f) k = f k"
  proof (cases "k \<in> pw_resolved ` set ps")
    case True
    then show ?thesis using restore_files_at [of "rev ps" "apply_writes ps f" k f] same [of "rev ps"] assms by simp
  next
    case False
    then show ?thesis using restore_files_at [of "rev ps" "apply_writes ps f" k f] apply_writes_other [OF False] by simp
  qed
qed

lemma restore_agree: "agree T f g \<Longrightarrow> agree T (restore_files ps f) (restore_files ps g)"
  unfolding restore_files_def by (induction ps arbitrary: f g) (auto intro: agree_upd)

lemma plan_each_Inr: "plan_each f xs = Inr ps \<Longrightarrow> list_all2 (\<lambda>x p. f x = Inr p) xs ps"
  by (induction xs arbitrary: ps) (auto split: sum.splits)

definition target_name :: "file_host \<Rightarrow> tool_context \<Rightarrow> string \<Rightarrow> string" where
  "target_name F cx path = pc_resolved (checkPath (fh_host F) path (cx_workspaceRoot cx))"

lemma real_check_resolved: "pc_ok (real_check F path cx w) \<Longrightarrow> pc_resolved (real_check F path cx w) = target_name F cx path"
  by (auto simp: real_check_def checkPathReal_def target_name_def Let_def path_fail_def split: if_splits option.splits)

lemma plan_edit_facts:
  "plan_edit F cx w i = Inr p \<Longrightarrow>
   pw_resolved p = target_name F cx (ei_path i) \<and> pw_backup p = fw_files w (pw_resolved p) \<and> pw_displayPath p = ei_path i"
  by (auto simp: plan_edit_def Let_def real_check_resolved split: if_splits option.splits sum.splits prod.splits)

lemma plan_create_facts:
  "plan_create F cx w c = Inr p \<Longrightarrow>
   pw_resolved p = target_name F cx (fst c) \<and> pw_backup p = fw_files w (pw_resolved p) \<and> pw_displayPath p = fst c"
  by (auto simp: plan_create_def Let_def real_check_resolved split: if_splits)

lemma patch_plan_facts:
  assumes "patch_plan F i cx w = Inr ps"
  shows "map pw_resolved ps = map (target_name F cx) (patch_targets i)" "\<forall>p \<in> set ps. pw_backup p = fw_files w (pw_resolved p)"
proof -
  obtain qs rs where split: "ps = qs @ rs" "list_all2 (\<lambda>x p. plan_edit F cx w x = Inr p) (pt_edits i) qs"
    "list_all2 (\<lambda>x p. plan_create F cx w x = Inr p) (pt_creates i) rs"
    using assms by (auto simp: patch_plan_def dest!: plan_each_Inr split: sum.splits)
  from split(2) have "map pw_resolved qs = map (target_name F cx \<circ> ei_path) (pt_edits i) \<and> (\<forall>p \<in> set qs. pw_backup p = fw_files w (pw_resolved p))"
    by (induction rule: list_all2_induct) (auto dest: plan_edit_facts)
  moreover from split(3) have "map pw_resolved rs = map (target_name F cx \<circ> fst) (pt_creates i) \<and> (\<forall>p \<in> set rs. pw_backup p = fw_files w (pw_resolved p))"
    by (induction rule: list_all2_induct) (auto dest: plan_create_facts)
  ultimately show "map pw_resolved ps = map (target_name F cx) (patch_targets i)" "\<forall>p \<in> set ps. pw_backup p = fw_files w (pw_resolved p)"
    using split(1) by (auto simp: patch_targets_def)
qed

lemma targets_distinct:
  "target_problem F cx w seen paths = None \<Longrightarrow> distinct (map (target_name F cx) paths) \<and> set (map (target_name F cx) paths) \<inter> set seen = {}"
proof (induction paths arbitrary: seen)
  case (Cons path paths)
  then have "target_problem F cx w (target_name F cx path # seen) paths = None" "target_name F cx path \<notin> set seen"
    by (auto simp: Let_def target_name_def split: if_splits)
  then show ?case using Cons.IH [of "target_name F cx path # seen"] by auto
qed simp

lemma apply_writes_at:
  "distinct (map pw_resolved ps) \<Longrightarrow> p \<in> set ps \<Longrightarrow> apply_writes ps f (pw_resolved p) = Some (pw_newContent p)"
proof (induction ps arbitrary: f)
  case (Cons q ps)
  then show ?case using apply_writes_other [of "pw_resolved q" ps] by (auto simp: apply_writes_def image_iff)
qed simp

subsection \<open>All or nothing\<close>

definition patch_temps :: "file_host \<Rightarrow> patch_input \<Rightarrow> tool_context \<Rightarrow> string set" where
  "patch_temps F i cx = (\<lambda>path. temp_path ''patch'' (cx_callId cx) (target_name F cx path)) ` set (patch_targets i)"


subsection \<open>An edit\<close>

lemma agree_at: "agree T f g \<Longrightarrow> p \<notin> T \<Longrightarrow> f p = g p"
  by (simp add: agree_def)

lemma one_of_three: "x \<in> {a, b, c} \<Longrightarrow> P a \<Longrightarrow> P b \<Longrightarrow> P c \<Longrightarrow> P x"
  by blast


text \<open>A workspace with one file, whose version is the text itself.\<close>

definition demo_file_host :: file_host where
  "demo_file_host = \<lparr>fh_host = demo_host, fh_realpath = (\<lambda>files p. Some p), fh_utf8Length = (\<lambda>t. of_nat (length t))\<rparr>"

definition demo_files :: "string \<Rightarrow> string option option list \<Rightarrow> file_world" where
  "demo_files t outcomes = \<lparr>fw_files = [''/w/a'' \<mapsto> t], fw_outcomes = outcomes\<rparr>"

definition demo_tool_context :: tool_context where
  "demo_tool_context = \<lparr>cx_sessionId = ''s'', cx_callId = ''c'', cx_workspaceRoot = ''/w'', cx_mode = Default_mode, cx_artifactDir = ''/d''\<rparr>"

definition demo_edit :: "string \<Rightarrow> string \<Rightarrow> string \<Rightarrow> edit_input" where
  "demo_edit t old new =
     \<lparr>ei_path = ''a'', ei_oldText = old, ei_newText = new, ei_expectedVersion = computeVersion demo_host t, ei_replaceAll = False\<rparr>"

abbreviation "demo_crlf \<equiv> [CHR ''x'', CHR 0x0D, CHR 0x0A, CHR ''y'', CHR 0x0D, CHR 0x0A]"

abbreviation "demo_old \<equiv> [CHR ''x'', CHR 0x0A, CHR ''y'']"
abbreviation "demo_new \<equiv> [CHR ''z'', CHR 0x0A]"

lemma demo_edit_runs:
  "\<exists>r. edit_execute demo_file_host (demo_edit demo_crlf demo_old demo_new) demo_tool_context (demo_files demo_crlf []) =
     (Inr r, snd (edit_execute demo_file_host (demo_edit demo_crlf demo_old demo_new) demo_tool_context (demo_files demo_crlf [])))"
proof -
  have "case fst (edit_execute demo_file_host (demo_edit demo_crlf demo_old demo_new) demo_tool_context (demo_files demo_crlf [])) of
      Inr r \<Rightarrow> True | Inl e \<Rightarrow> False" by code_simp
  then show ?thesis by (auto simp: prod_eq_iff split: sum.splits)
qed

lemma demo_target: "target_name demo_file_host demo_tool_context ''a'' = ''/w/a''"
  by code_simp


abbreviation "demo_mixed \<equiv> [CHR ''x'', CHR 0x0A, CHR ''y'', CHR 0x0D, CHR 0x0A, CHR ''z'']"
abbreviation "demo_lines \<equiv> [CHR ''x'', CHR 0x0A, CHR ''y'', CHR 0x0A, CHR ''z'']"

definition edit_report :: "string \<Rightarrow> string \<Rightarrow> string \<Rightarrow> (json option \<times> string option)" where
  "edit_report t old new =
     (case edit_execute demo_file_host (demo_edit t old new) demo_tool_context (demo_files t []) of
        (Inr r, w) \<Rightarrow> (json_member (xr_data r) ''replacements'', fw_files w ''/w/a'')
      | (Inl e, w) \<Rightarrow> (None, fw_files w ''/w/a''))"

text \<open>Edit can report a change it did not make, or made otherwise. On a file with mixed line
  endings the normalized text is found, but not its \<open>\\r\\n\<close> form: the tool reports one replacement
  and leaves the file as it was. And a dollar sign of the new text is not taken literally: writing \<open>$$\<close>
  for \<open>x\<close> leaves a single dollar sign.\<close>

theorem edit_can_misreport:
  "edit_report demo_mixed demo_lines ''new'' = (Some (JNum 1), Some demo_mixed) \<and>
   edit_report ''x'' ''x'' ''$$'' = (Some (JNum 1), Some ''$'')"
  by (rule conjI; code_simp)

text \<open>A patch that edits one file and creates another, whose second write fails and leaves a part behind.\<close>

definition demo_patch_input :: patch_input where
  "demo_patch_input = \<lparr>pt_edits = [demo_edit ''x'' ''x'' ''y''], pt_creates = [(''b'', ''new'')]\<rparr>"

definition demo_failing :: "bool \<Rightarrow> file_world" where
  "demo_failing rollback =
     demo_files ''x'' [None, None, None, None, Some (Some ''n''), if rollback then None else Some (Some [])]"

lemma demo_patch_fails:
  "(case fst (patch_execute demo_file_host demo_patch_input demo_tool_context (demo_failing True)) of
      Inl (Coded_error c) \<Rightarrow> c = ''INTERNAL_TOOL_ERROR'' | _ \<Rightarrow> False)"
  "(case fst (patch_execute demo_file_host demo_patch_input demo_tool_context (demo_failing False)) of
      Inl Other_error \<Rightarrow> True | _ \<Rightarrow> False)"
  by code_simp+

lemma demo_patch_ok:
  "patch_validate demo_file_host demo_patch_input demo_tool_context (demo_failing True) = None"
  "target_name demo_file_host demo_tool_context ` set (patch_targets demo_patch_input) \<inter> patch_temps demo_file_host demo_patch_input demo_tool_context = {}"
  by code_simp+


end
