(* ===== verification/FileToolDefs.thy ===== *)
theory FileToolDefs
  imports FileTools ToolGuard
begin

text \<open>
  The tool definitions of Edit, Write and ApplyPatch (tools/builtin), as \<open>defineTool\<close> makes them
  from the functions of FileTools, and what the runtime makes of their results. The runtime
  hands a tool the value that its schema gave, with the defaults filled in; here that is the
  JSON form of the parsed input, which the schema reads back unchanged.
\<close>

subsection \<open>Parsed inputs as values\<close>

definition edit_json :: "edit_input \<Rightarrow> json" where
  "edit_json i =
     JObj [(''path'', JStr (ei_path i)), (''oldText'', JStr (ei_oldText i)), (''newText'', JStr (ei_newText i)),
       (''expectedVersion'', JStr (ei_expectedVersion i)), (''replaceAll'', JBool (ei_replaceAll i))]"

definition write_json :: "write_input \<Rightarrow> json" where
  "write_json i = JObj [(''path'', JStr (wi_path i)), (''content'', JStr (wi_content i)), (''overwrite'', JBool (wi_overwrite i))]"

definition create_json :: "string \<times> string \<Rightarrow> json" where
  "create_json c = JObj [(''path'', JStr (fst c)), (''content'', JStr (snd c))]"

definition patch_json :: "patch_input \<Rightarrow> json" where
  "patch_json i = JObj [(''edits'', JArr (map edit_json (pt_edits i))), (''creates'', JArr (map create_json (pt_creates i)))]"

lemma json_member_obj [simp]: "json_member (JObj kvs) k = obj_get kvs k"
  by (simp add: json_member_def obj_get_def)

lemma member_reads [simp]:
  "required_member f (JObj kvs) k = Option.bind (obj_get kvs k) f"
  "default_member d f (JObj kvs) k = (case obj_get kvs k of None \<Rightarrow> Some d | Some x \<Rightarrow> f x)"
  by (simp_all add: required_member_def default_member_def)

lemma non_empty_text [simp]: "t \<noteq> [] \<Longrightarrow> non_empty_value (JStr t) = Some t"
  by (simp add: non_empty_value_def)

lemma those_map: "(\<And>x. x \<in> set xs \<Longrightarrow> f (g x) = Some x) \<Longrightarrow> those (map f (map g xs)) = Some xs"
  by (induction xs) auto

lemma those_Some: "those ys = Some xs \<Longrightarrow> x \<in> set xs \<Longrightarrow> Some x \<in> set ys"
  by (induction ys arbitrary: xs) (auto split: option.splits)

lemma array_normal:
  assumes "array_value f v = Some xs" "\<And>u x. f u = Some x \<Longrightarrow> f (g x) = Some x"
  shows "array_value f (JArr (map g xs)) = Some xs"
proof -
  have "\<exists>u. f u = Some x" if "x \<in> set xs" for x
    using assms(1) that by (cases v) (auto dest!: those_Some, metis)
  then have "f (g x) = Some x" if "x \<in> set xs" for x using assms(2) that by blast
  then show ?thesis using those_map [of xs f g] by simp
qed

lemma parse_edit_facts:
  "parse_edit v = Some i \<Longrightarrow> ei_path i \<noteq> [] \<and> ei_oldText i \<noteq> [] \<and> ei_expectedVersion i \<noteq> []"
  by (auto simp: parse_edit_def bind_eq_Some_conv dest!: required_non_empty)

lemma parse_edit_normal: "parse_edit v = Some i \<Longrightarrow> parse_edit (edit_json i) = Some i"
  by (drule parse_edit_facts) (simp add: parse_edit_def edit_json_def obj_get_def)

lemma EditInput_normal: "EditInput v = Some i \<Longrightarrow> EditInput (edit_json i) = Some i"
  using parse_edit_normal by (auto simp: EditInput_def strict_def edit_json_def split: if_splits)

lemma WriteInput_normal: "WriteInput v = Some i \<Longrightarrow> WriteInput (write_json i) = Some i"
  by (auto simp: WriteInput_def strict_def parse_write_def write_json_def bind_eq_Some_conv obj_get_def
      dest!: required_non_empty split: if_splits)

lemma parse_create_normal: "parse_create v = Some c \<Longrightarrow> parse_create (create_json c) = Some c"
  by (auto simp: parse_create_def create_json_def bind_eq_Some_conv obj_get_def dest!: required_non_empty)

lemma default_array_normal:
  assumes "default_member [] (array_value f) v k = Some xs" "\<And>u x. f u = Some x \<Longrightarrow> f (g x) = Some x"
  shows "array_value f (JArr (map g xs)) = Some xs"
  using assms(1) array_normal [of f _ xs g] assms(2) by (auto simp: default_member_def split: option.splits)

lemma ApplyPatchInput_normal: "ApplyPatchInput v = Some i \<Longrightarrow> ApplyPatchInput (patch_json i) = Some i"
proof -
  assume "ApplyPatchInput v = Some i"
  then have "default_member [] (array_value parse_edit) v ''edits'' = Some (pt_edits i)"
    "default_member [] (array_value parse_create) v ''creates'' = Some (pt_creates i)"
    by (auto simp: ApplyPatchInput_def strict_def bind_eq_Some_conv split: if_splits)
  from default_array_normal [OF this(1) parse_edit_normal] default_array_normal [OF this(2) parse_create_normal]
  show ?thesis by (simp add: ApplyPatchInput_def strict_def patch_json_def obj_get_def)
qed

subsection \<open>The definitions\<close>

text \<open>A member of a tool, over the parsed input.\<close>

definition on_input :: "(json \<Rightarrow> 'i option) \<Rightarrow> ('i \<Rightarrow> 'a) \<Rightarrow> json \<Rightarrow> tool_exception + 'a" where
  "on_input parse f v = (case parse v of None \<Rightarrow> Inl Other_error | Some i \<Rightarrow> Inr (f i))"

definition run_on_input ::
    "(json \<Rightarrow> 'i option) \<Rightarrow> ('i \<Rightarrow> 'w \<Rightarrow> (tool_exception + 'a) \<times> 'w) \<Rightarrow> 'w \<Rightarrow> json \<Rightarrow> (tool_exception + 'a) \<times> 'w" where
  "run_on_input parse f w v = (case parse v of None \<Rightarrow> (Inl Other_error, w) | Some i \<Rightarrow> f i w)"

definition file_claim :: "file_host \<Rightarrow> string \<Rightarrow> tool_context \<Rightarrow> resource_claim" where
  "file_claim F path cx = \<lparr>rc_resource = ''file:'' @ target_name F cx path, rc_mode = Write_access\<rparr>"

definition asks :: permission_hint where
  "asks = \<lparr>hint_behavior = Ask, hint_code = None\<rparr>"

definition number_member :: "json \<Rightarrow> string \<Rightarrow> number" where
  "number_member v k = or_else (Option.bind (json_member v k) number_value) 0"

definition bool_member :: "json \<Rightarrow> string \<Rightarrow> bool" where
  "bool_member v k = or_else (Option.bind (json_member v k) bool_value) False"

definition kept_members :: "json \<Rightarrow> string list \<Rightarrow> json jsobj" where
  "kept_members v ks = map (\<lambda>k. (k, or_else (json_member v k) JNull)) ks"

abbreviation "newline \<equiv> [CHR 0x0A]"

definition edit_observe :: "json \<Rightarrow> string \<times> json jsobj option" where
  "edit_observe out =
     (''Edited '' @ string_member out ''path'' @ '' with '' @ show_num (number_member out ''replacements'') @ '' replacement(s)'',
      Some (kept_members out [''path'', ''oldVersion'', ''newVersion'', ''replacements'']))"

definition edit_serialize :: "json \<Rightarrow> tool_result_content" where
  "edit_serialize out =
     (let n = number_member out ''replacements''
      in Text_content (''Edited '' @ string_member out ''path'' @ '' ('' @ show_num n @ '' replacement'' @
           (if 1 < n then ''s'' else []) @ '')'' @ newline @ ''oldVersion: '' @ string_member out ''oldVersion'' @ newline @
           ''newVersion: '' @ string_member out ''newVersion''))"

definition EditTool :: "file_host \<Rightarrow> file_world tool_definition" where
  "EditTool F = defineTool
     \<lparr>tsp_name = ''Edit'', tsp_maxResultChars = Some 20000, tsp_idempotencyScope = None,
      tsp_safeParse = (\<lambda>v. map_option edit_json (EditInput v)),
      tsp_readOnly = Some (\<lambda>v. Inr False), tsp_destructive = None, tsp_concurrency = Some (\<lambda>v. Inr Exclusive),
      tsp_resources = Some (\<lambda>v cx. on_input EditInput (\<lambda>i. [file_claim F (ei_path i) cx]) v),
      tsp_workspaceMutation = Some (\<lambda>v cx. on_input EditInput (\<lambda>i. Some (Paths_intent [ei_path i] None)) v),
      tsp_validate = Some (\<lambda>w v cx. on_input EditInput (\<lambda>i. edit_validate F i cx w) v),
      tsp_preconditions = None, tsp_permission = Some (\<lambda>w v cx. Inr asks),
      tsp_execute = (\<lambda>w v cx. run_on_input EditInput (\<lambda>i. edit_execute F i cx) w v),
      tsp_postconditions = Some (\<lambda>w v out cx. Inr (edit_postconditions F out cx w)),
      tsp_observe = Some (\<lambda>w v out cx. Inr (edit_observe out)),
      tsp_serialize = Some (\<lambda>out callId. Inr (edit_serialize out)),
      tsp_inspectOutcome = Some (\<lambda>w v cx r. on_input EditInput (\<lambda>i. edit_inspect F i cx r w) v)\<rparr>"

definition write_verb :: "json \<Rightarrow> string" where
  "write_verb out = (if bool_member out ''created'' then ''Created'' else ''Overwrote'')"

definition write_observe :: "json \<Rightarrow> string \<times> json jsobj option" where
  "write_observe out =
     (write_verb out @ '' '' @ string_member out ''path'', Some (kept_members out [''path'', ''created'', ''bytes'', ''newVersion'']))"

definition write_serialize :: "json \<Rightarrow> tool_result_content" where
  "write_serialize out =
     Text_content (write_verb out @ '' '' @ string_member out ''path'' @ '' ('' @ show_num (number_member out ''bytes'') @
       '' bytes)'' @ newline @ ''newVersion: '' @ string_member out ''newVersion'')"

definition WriteTool :: "file_host \<Rightarrow> file_world tool_definition" where
  "WriteTool F = defineTool
     \<lparr>tsp_name = ''Write'', tsp_maxResultChars = Some 10000, tsp_idempotencyScope = None,
      tsp_safeParse = (\<lambda>v. map_option write_json (WriteInput v)),
      tsp_readOnly = Some (\<lambda>v. Inr False), tsp_destructive = Some (on_input WriteInput wi_overwrite),
      tsp_concurrency = Some (\<lambda>v. Inr Exclusive),
      tsp_resources = Some (\<lambda>v cx. on_input WriteInput (\<lambda>i. [file_claim F (wi_path i) cx]) v),
      tsp_workspaceMutation = Some (\<lambda>v cx. on_input WriteInput (\<lambda>i. Some (Paths_intent [wi_path i] None)) v),
      tsp_validate = Some (\<lambda>w v cx. on_input WriteInput (\<lambda>i. write_validate F i cx w) v),
      tsp_preconditions = None, tsp_permission = Some (\<lambda>w v cx. Inr asks),
      tsp_execute = (\<lambda>w v cx. run_on_input WriteInput (\<lambda>i. write_execute F i cx) w v),
      tsp_postconditions = Some (\<lambda>w v out cx. Inr (edit_postconditions F out cx w)),
      tsp_observe = Some (\<lambda>w v out cx. Inr (write_observe out)),
      tsp_serialize = Some (\<lambda>out callId. Inr (write_serialize out)),
      tsp_inspectOutcome = Some (\<lambda>w v cx r. on_input WriteInput (\<lambda>i. write_inspect F i cx r w) v)\<rparr>"

definition applied_members :: "json \<Rightarrow> json list" where
  "applied_members out = or_else (Option.bind (json_member out ''applied'') (array_value Some)) []"

definition patch_postconditions :: "file_host \<Rightarrow> json \<Rightarrow> tool_context \<Rightarrow> file_world \<Rightarrow> contract_check list" where
  "patch_postconditions F out cx w =
     map (\<lambda>a. committed_check F (''version-committed:'' @ string_member a ''path'') (string_member a ''path'')
            (string_member a ''newVersion'') cx w) (applied_members out)"

definition patch_observe :: "json \<Rightarrow> string \<times> json jsobj option" where
  "patch_observe out =
     (let n = of_nat (length (applied_members out))
      in (''Applied an atomic patch to '' @ show_num n @ '' files'',
          Some [(''fileCount'', JNum n),
            (''files'', JArr (map (\<lambda>a. JObj (kept_members a [''path'', ''action'', ''newVersion''])) (applied_members out)))]))"

definition patch_serialize :: "json \<Rightarrow> tool_result_content" where
  "patch_serialize out =
     Text_content (''Patch applied to '' @ show_num (of_nat (length (applied_members out))) @ '' file(s):'' @ newline @
       js_join newline (map (\<lambda>a. ''  '' @ string_member a ''action'' @ '': '' @ string_member a ''path'' @ '' -> '' @
         string_member a ''newVersion'') (applied_members out)))"

definition ApplyPatchTool :: "file_host \<Rightarrow> file_world tool_definition" where
  "ApplyPatchTool F = defineTool
     \<lparr>tsp_name = ''ApplyPatch'', tsp_maxResultChars = Some 20000, tsp_idempotencyScope = None,
      tsp_safeParse = (\<lambda>v. map_option patch_json (ApplyPatchInput v)),
      tsp_readOnly = Some (\<lambda>v. Inr False), tsp_destructive = None, tsp_concurrency = Some (\<lambda>v. Inr Exclusive),
      tsp_resources = Some (\<lambda>v cx. Inr [whole_workspace]),
      tsp_workspaceMutation = Some (\<lambda>v cx. on_input ApplyPatchInput (\<lambda>i. Some (Paths_intent (patch_targets i) None)) v),
      tsp_validate = Some (\<lambda>w v cx. on_input ApplyPatchInput (\<lambda>i. patch_validate F i cx w) v),
      tsp_preconditions = None, tsp_permission = Some (\<lambda>w v cx. Inr asks),
      tsp_execute = (\<lambda>w v cx. run_on_input ApplyPatchInput (\<lambda>i. patch_execute F i cx) w v),
      tsp_postconditions = Some (\<lambda>w v out cx. Inr (patch_postconditions F out cx w)),
      tsp_observe = Some (\<lambda>w v out cx. Inr (patch_observe out)),
      tsp_serialize = Some (\<lambda>out callId. Inr (patch_serialize out)),
      tsp_inspectOutcome = Some (\<lambda>w v cx r. on_input ApplyPatchInput (\<lambda>i. patch_inspect F cx r w) v)\<rparr>"

subsection \<open>What the runtime makes of a result\<close>

lemma flush_step_frame:
  "flush_step b s = (Inr u, s') \<Longrightarrow> rn_world s' = rn_world s \<and> il_records (rn_ledger s') = il_records (rn_ledger s)"
  by (auto simp: flush_step_def flush_ledger_def log_effect_def split: sum.splits if_splits)

lemma settle_frame: "settle_ledger f b key s = (Inr u, s') \<Longrightarrow> rn_world s' = rn_world s"
  by (auto simp: settle_ledger_def dest!: flush_step_frame split: option.splits)

lemma emit_frame [simp]:
  "rn_world (emit f s) = rn_world s" "rn_ledger (emit f s) = rn_ledger s" "rn_trace (emit f s) = rn_trace s @ [Emitted f]"
  by (simp_all add: emit_def log_effect_def)

lemma yield_facts_frame [simp]:
  "rn_world (yield_facts H q n m fs s) = rn_world s" "rn_ledger (yield_facts H q n m fs s) = rn_ledger s"
proof -
  have step: "rn_world (yield_fact H q n m f s) = rn_world s \<and> rn_ledger (yield_fact H q n m f s) = rn_ledger s" for f and s :: "'a runtime"
    by (cases f) (simp_all add: yield_fact_def age_evidence_def log_effect_def)
  have "rn_world (fold (yield_fact H q n m) l s) = rn_world s \<and> rn_ledger (fold (yield_fact H q n m) l s) = rn_ledger s" for l
    by (induction l arbitrary: s) (use step in auto)
  then show "rn_world (yield_facts H q n m fs s) = rn_world s" "rn_ledger (yield_facts H q n m fs s) = rn_ledger s"
    by (simp_all add: yield_facts_def)
qed

lemma refuse_last: "refuse q c b obs s = (Inr u, s') \<Longrightarrow> last (rn_trace s') = Emitted (Tool_call_completed r) \<Longrightarrow> \<not> tr_ok r"
  by (auto simp: refuse_def failed_result_def)

lemma refuse_error_last:
  "refuse_error q e s = (Inr u, s') \<Longrightarrow> last (rn_trace s') = Emitted (Tool_call_completed r) \<Longrightarrow> \<not> tr_ok r"
  by (auto simp: refuse_error_def failed_result_def)

lemma settled_commit:
  assumes "settle_ledger (\<lambda>k. markCommitted k proof now) b (Some k) s = (Inr u, s')" "obj_get (il_records (rn_ledger s)) k = Some rec"
  shows "\<exists>rec'. obj_get (il_records (rn_ledger s')) k = Some rec' \<and> ir_status rec' = Committed \<and> ir_proof rec' = proof"
  using assms flush_step_frame [of b "s\<lparr>rn_ledger := markCommitted k proof now (rn_ledger s)\<rparr>" u s']
  by (simp add: settle_ledger_def markCommitted_def put_record_def)

text \<open>A call that ends well has executed, its postconditions hold where it left the world, and its
  record, if it has one, is committed with the proof of the tool.\<close>

lemma run_tool_success:
  assumes "run_tool d q t v cx pre key m s = (Inr u, s')" "last (rn_trace s') = Emitted (Tool_call_completed r)" "tr_ok r"
  obtains out post where "td_execute t (rn_world s) v cx = (Inr out, rn_world s')"
    "td_postconditions t (rn_world s') v (xr_data out) cx = Inr post" "failedChecks post = []"
    "\<And>k rec. key = Some k \<Longrightarrow> obj_get (il_records (rn_ledger s)) k = Some rec \<Longrightarrow>
       \<exists>rec'. obj_get (il_records (rn_ledger s')) k = Some rec' \<and> ir_status rec' = Committed \<and> ir_proof rec' = xr_commitProof out"
proof -
  obtain res w where ex: "td_execute t (rn_world s) v cx = (res, w)" by fastforce
  define s0 where "s0 = log_effect Executed (s\<lparr>rn_world := w\<rparr>)"
  have s0: "rn_world s0 = w" "rn_ledger s0 = rn_ledger s" by (simp_all add: s0_def log_effect_def)
  have run: "caught d q key (case res of Inl e \<Rightarrow> (Inl e, s0) | Inr out \<Rightarrow> after_execute d q t v cx pre key m out s0) = (Inr u, s')"
    using assms(1) ex unfolding run_tool_def s0_def Let_def by simp
  have late: "\<not> (\<exists>e s1. (case res of Inl e \<Rightarrow> (Inl e, s0) | Inr out \<Rightarrow> after_execute d q t v cx pre key m out s0) = (Inl e, s1))"
  proof (rule notI, elim exE)
    fix e s1
    assume "(case res of Inl e \<Rightarrow> (Inl e, s0) | Inr out \<Rightarrow> after_execute d q t v cx pre key m out s0) = (Inl e, s1)"
    then show False using run assms(2, 3)
      by (auto simp: caught_def bind_step_def dest: refuse_error_last split: prod.splits sum.splits)
  qed
  then obtain out where out: "res = Inr out" by (cases res) auto
  then have after: "after_execute d q t v cx pre key m out s0 = (Inr u, s')"
    using run late by (cases "after_execute d q t v cx pre key m out s0"; cases "fst (after_execute d q t v cx pre key m out s0)") (auto simp: caught_def)
  from after obtain post where post: "td_postconditions t w v (xr_data out) cx = Inr post"
    by (auto simp: after_execute_def s0 split: sum.splits)
  have good: "failedChecks post = []"
    using after post assms(2, 3)
    by (rule_tac ccontr) (auto simp: after_execute_def s0 Let_def bind_step_def dest: refuse_last split: sum.splits prod.splits)
  obtain now b s2 H n fs c obs where settled: "settle_ledger (\<lambda>k. markCommitted k (xr_commitProof out) now) b key s0 = (Inr (), s2)"
    "s' = emit (Tool_call_completed (success_result q t c obs)) (yield_facts H q n m fs s2)"
    using after post good by (auto simp: after_execute_def s0 Let_def bind_step_def split: sum.splits prod.splits)
  have same: "rn_world s' = w" "rn_ledger s' = rn_ledger s2" using settled settle_frame [OF settled(1)] s0 by simp_all
  show ?thesis
  proof (rule that [of out post])
    fix k rec
    assume "key = Some k" "obj_get (il_records (rn_ledger s)) k = Some rec"
    then show "\<exists>rec'. obj_get (il_records (rn_ledger s')) k = Some rec' \<and> ir_status rec' = Committed \<and> ir_proof rec' = xr_commitProof out"
      using settled(1) s0(2) settled_commit [of "xr_commitProof out" now b k s0 "()" s2] unfolding same(2) by simp
  qed (use ex out post good same(1) in simp_all)
qed

text \<open>C20: What Edit reports as done is on disk. When the runtime answers an Edit call with a success, the
  file that the call names holds a text with the version that the last Read reported replaced by the
  edited one, the postcondition re-read just that version, and the idempotency record of the call is
  committed with it: a later probe compares the live file with exactly what was written.\<close>

theorem edit_success_is_on_disk:
  assumes "run_tool d q (EditTool F) v cx pre (Some k) m s = (Inr u, s')"
    and "last (rn_trace s') = Emitted (Tool_call_completed r)" "tr_ok r"
    and "obj_get (il_records (rn_ledger s)) k = Some rec"
  shows "\<exists>i before n after rec'. EditInput v = Some i \<and>
    fw_files (rn_world s) (target_name F cx (ei_path i)) = Some before \<and>
    edited_text (fh_host F) before i = Inr (n, after) \<and>
    fw_files (rn_world s') (target_name F cx (ei_path i)) = Some after \<and>
    obj_get (il_records (rn_ledger s')) k = Some rec' \<and> ir_status rec' = Committed \<and>
    ir_proof rec' = Some (computeVersion (fh_host F) after) \<and> oi_applied (edit_inspect F i cx rec' (rn_world s'))"
proof -
  obtain out post where run: "td_execute (EditTool F) (rn_world s) v cx = (Inr out, rn_world s')"
    "td_postconditions (EditTool F) (rn_world s') v (xr_data out) cx = Inr post" "failedChecks post = []"
    "\<exists>rec'. obj_get (il_records (rn_ledger s')) k = Some rec' \<and> ir_status rec' = Committed \<and> ir_proof rec' = xr_commitProof out"
    by (rule run_tool_success [OF assms(1-3)]) (use assms(4) in blast)
  obtain i where i: "EditInput v = Some i" "edit_execute F i cx (rn_world s) = (Inr out, rn_world s')"
    using run(1) by (auto simp: EditTool_def defineTool_def run_on_input_def split: option.splits)
  obtain before n after where e: "fw_files (rn_world s) (target_name F cx (ei_path i)) = Some before"
    "edited_text (fh_host F) before i = Inr (n, after)" "out = edit_output (fh_host F) i before n after"
    "write_atomic (temp_path ''edit'' (cx_callId cx) (target_name F cx (ei_path i))) (target_name F cx (ei_path i)) after (rn_world s) = (True, rn_world s')"
    using i(2) by (auto simp: edit_execute_def Let_def real_check_resolved split: if_splits option.splits sum.splits prod.splits bool.splits)
  have on_disk: "fw_files (rn_world s') (target_name F cx (ei_path i)) = Some after" using write_atomic_at e(4) by blast
  have "list_all cc_passed post" using run(3) by (simp add: failedChecks_def filter_empty_conv list_all_iff)
  then have live: "pc_ok (real_check F (ei_path i) cx (rn_world s'))"
    using run(2) e(3)
    by (auto simp: EditTool_def defineTool_def edit_postconditions_def committed_check_def edit_output_def string_member_def obj_get_def Let_def split: if_splits)
  obtain rec' where rec': "obj_get (il_records (rn_ledger s')) k = Some rec'" "ir_status rec' = Committed"
    "ir_proof rec' = Some (computeVersion (fh_host F) after)"
    using run(4) e(3) by (auto simp: edit_output_def)
  have "oi_applied (edit_inspect F i cx rec' (rn_world s'))"
    using live rec'(3) on_disk by (simp add: edit_inspect_def probe_version_def truthy_def computeVersion_def readFileVersion_def real_check_resolved Let_def)
  then show ?thesis using i(1) e(1, 2) on_disk rec' by blast
qed

text \<open>C31: A patch that could not be undone does not stop the run. The source says that a failed
  roll-back must terminate the loop; the runtime catches the error like any other, answers the call
  with an internal tool error, and the workspace is left half patched.\<close>

theorem failed_rollback_is_swallowed:
  assumes "ApplyPatchInput v = Some i" "patch_execute F i cx (rn_world s) = (Inl Other_error, w')" "wo_caught (rd_writes d)"
  shows "\<exists>s' r. run_tool d q (ApplyPatchTool F) v cx pre key m s = (Inr (), s') \<and> rn_world s' = w' \<and>
    last (rn_trace s') = Emitted (Tool_call_completed r) \<and> \<not> tr_ok r \<and> tr_errorCode r = Some ''INTERNAL_TOOL_ERROR''"
proof -
  have ex: "td_execute (ApplyPatchTool F) (rn_world s) v cx = (Inl Other_error, w')"
    using assms(1, 2) by (simp add: ApplyPatchTool_def defineTool_def run_on_input_def)
  have flush: "\<exists>s2. settle_ledger f True key s1 = (Inr (), s2)" for f and s1 :: "file_world runtime"
    by (simp add: settle_ledger_def flush_step_def flush_ledger_def split: option.splits)
  obtain s2 where s2: "settle_ledger (\<lambda>k. markUnknown k (cst_caught (tq_stamps q))) True key (log_effect Executed (s\<lparr>rn_world := w'\<rparr>)) = (Inr (), s2)"
    using flush by blast
  have "rn_world s2 = w'" using settle_frame [OF s2] by (simp add: log_effect_def)
  then show ?thesis using ex s2 assms(3)
    by (simp add: run_tool_def caught_def refuse_error_def classifyToolError_def failed_result_def)
qed

text \<open>A runtime over the file system of the demo.\<close>

definition demo_file_deps :: "file_world runtime_deps" where
  "demo_file_deps =
     \<lparr>rd_host = demo_host, rd_registry = [(''Edit'', EditTool demo_file_host), (''ApplyPatch'', ApplyPatchTool demo_file_host)],
      rd_rules = [], rd_ask = None, rd_writeLock = False, rd_hook = Hook_persists,
      rd_writes = \<lparr>wo_adjudicated = True, wo_running = True, wo_settled = True, wo_caught = True\<rparr>,
      rd_redact = (\<lambda>ob. ob), rd_bound = (\<lambda>c n. Inr c), rd_errorText = (\<lambda>e. ''error'')\<rparr>"

definition demo_file_runtime :: "file_world \<Rightarrow> file_world runtime" where
  "demo_file_runtime w =
     \<lparr>rn_ledger = mark_running ''k'' ''c'' ''Edit'' ''t'' empty_ledger, rn_file = Missing_file, rn_evidence = None, rn_world = w, rn_trace = []\<rparr>"

definition demo_edit_value :: json where
  "demo_edit_value =
     JObj [(''path'', JStr ''a''), (''oldText'', JStr ''x''), (''newText'', JStr ''y''),
       (''expectedVersion'', JStr (computeVersion demo_host ''x''))]"

definition demo_edit_call :: "(tool_exception + unit) \<times> file_world runtime" where
  "demo_edit_call = run_tool demo_file_deps demo_tool_request (EditTool demo_file_host) demo_edit_value demo_tool_context [] (Some ''k'') None
     (demo_file_runtime (demo_files ''x'' []))"

definition ends_well :: "(tool_exception + unit) \<times> 'w runtime \<Rightarrow> bool" where
  "ends_well m =
     (case m of
        (Inr u, s) \<Rightarrow> (case last (rn_trace s) of Emitted (Tool_call_completed r) \<Rightarrow> tr_ok r | _ \<Rightarrow> False)
      | (Inl e, s) \<Rightarrow> False)"

lemma ends_well_elim:
  assumes "ends_well m"
  obtains s r where "m = (Inr (), s)" "last (rn_trace s) = Emitted (Tool_call_completed r)" "tr_ok r"
  using assms unfolding ends_well_def by (auto split: prod.splits sum.splits effect.splits fact_event.splits)

lemma demo_edit_ends: "ends_well demo_edit_call"
  by code_simp

theorem edit_success_is_on_disk_witness:
  "\<exists>s'. demo_edit_call = (Inr (), s') \<and> fw_files (rn_world s') ''/w/a'' = Some ''y''"
proof -
  obtain s' r where r: "demo_edit_call = (Inr (), s')" "last (rn_trace s') = Emitted (Tool_call_completed r)" "tr_ok r"
    using demo_edit_ends by (rule ends_well_elim)
  have rec: "obj_get (il_records (rn_ledger (demo_file_runtime (demo_files ''x'' [])))) ''k'' =
      Some \<lparr>ir_key = ''k'', ir_callId = ''c'', ir_toolName = ''Edit'', ir_status = Exec_running, ir_updatedAt = ''t'', ir_proof = None, ir_detail = None\<rparr>"
    by (simp add: demo_file_runtime_def mark_running_def put_record_def empty_ledger_def obj_get_def)
  have input: "EditInput demo_edit_value = Some (demo_edit ''x'' ''x'' ''y'')" by code_simp
  have was: "fw_files (rn_world (demo_file_runtime (demo_files ''x'' []))) ''/w/a'' = Some ''x''"
    by (simp add: demo_file_runtime_def demo_files_def)
  have text_after: "edited_text (fh_host demo_file_host) ''x'' (demo_edit ''x'' ''x'' ''y'') = Inr (1, ''y'')" by code_simp
  have name: "target_name demo_file_host demo_tool_context (ei_path (demo_edit ''x'' ''x'' ''y'')) = ''/w/a''" by code_simp
  from edit_success_is_on_disk [OF r(1) [unfolded demo_edit_call_def] r(2, 3) rec]
  obtain i before n after where out: "EditInput demo_edit_value = Some i"
    "fw_files (rn_world (demo_file_runtime (demo_files ''x'' []))) (target_name demo_file_host demo_tool_context (ei_path i)) = Some before"
    "edited_text (fh_host demo_file_host) before i = Inr (n, after)"
    "fw_files (rn_world s') (target_name demo_file_host demo_tool_context (ei_path i)) = Some after"
    by blast
  have i: "i = demo_edit ''x'' ''x'' ''y''" using out(1) input by simp
  have "before = ''x''" using out(2) was name unfolding i by simp
  then have "fw_files (rn_world s') ''/w/a'' = Some ''y''" using out(3, 4) text_after name unfolding i by simp
  with r(1) show ?thesis by blast
qed

definition demo_patch_value :: json where
  "demo_patch_value =
     JObj [(''edits'', JArr [demo_edit_value]), (''creates'', JArr [JObj [(''path'', JStr ''b''), (''content'', JStr ''new'')]])]"

theorem failed_rollback_is_swallowed_witness:
  "\<exists>(s' :: file_world runtime) r. last (rn_trace s') = Emitted (Tool_call_completed r) \<and> tr_errorCode r = Some ''INTERNAL_TOOL_ERROR'' \<and>
     fw_files (rn_world s') ''/w/a'' = Some []"
proof -
  have input: "ApplyPatchInput demo_patch_value = Some demo_patch_input" by code_simp
  obtain w' where w': "patch_execute demo_file_host demo_patch_input demo_tool_context (demo_failing False) = (Inl Other_error, w')"
    using demo_patch_fails(2)
    by (cases "patch_execute demo_file_host demo_patch_input demo_tool_context (demo_failing False)") (auto split: sum.splits tool_exception.splits)
  have broken: "fw_files (snd (patch_execute demo_file_host demo_patch_input demo_tool_context (demo_failing False))) ''/w/a'' = Some []"
    by code_simp
  have world: "patch_execute demo_file_host demo_patch_input demo_tool_context (rn_world (demo_file_runtime (demo_failing False))) = (Inl Other_error, w')"
    using w' by (simp add: demo_file_runtime_def)
  have writes: "wo_caught (rd_writes demo_file_deps)" by (simp add: demo_file_deps_def)
  from failed_rollback_is_swallowed [OF input world writes, of demo_tool_request "[]" "Some ''k''" None] broken w'
  show ?thesis by auto
qed

end
