(* ===== verification/PlanTools.thy ===== *)
theory PlanTools
  imports Schema Approvals Gate Lane
begin

text \<open>
  The planning and task tools (planning/planTools.ts, planning/taskTools.ts): the schemas of their
  inputs, and their validation, preconditions, execution, postconditions and definitions over
  the stores of Plans, Approvals, Tasks and Evidence. The clock, the ids, the random token, the
  versions of files, the user who is asked for approval and the engine's gate for local repairs
  are parameters (\<open>plan_channels\<close>), and so is the order of \<open>TaskStore.list\<close>, which sorts by
  \<open>localeCompare\<close>. A fact carries the plan as it is when the fact is made.
\<close>

subsection \<open>The services\<close>

record plan_services =
  sv_plans :: "plan_store option"
  sv_approvals :: "registry option"
  sv_tasks :: "task_map option"
  sv_evidence :: "evidence_store option"

record plan_channels =
  ch_host :: host
  ch_dates :: date_lib
  ch_ttl :: "number option"
  ch_files :: "string \<Rightarrow> file_read"
  ch_sortTasks :: "plan_task list \<Rightarrow> plan_task list"
  ch_newId :: string
  ch_now :: string
  ch_later :: string
  ch_token :: string
  ch_issuedAt :: number
  ch_consumedAt :: number
  ch_requestApproval :: "(plan_version \<Rightarrow> bool) option"
  ch_canRepair :: "bool option"

definition approved_version :: "plan_services \<Rightarrow> plan_version option" where
  "approved_version sv = Option.bind (sv_plans sv) (\<lambda>st. map_option (plan_at st) (st_lastApproved st))"

definition bad_input :: "bool \<Rightarrow> structured_error" where
  "bad_input retryable = \<lparr>se_code = ''SEMANTIC_VALIDATION_ERROR'', se_retryable = retryable\<rparr>"

definition refusal_json :: "string \<Rightarrow> json" where
  "refusal_json code = JObj [(''ok'', JBool False), (''code'', JStr code)]"

definition plain_result :: "json \<Rightarrow> fact_event list option \<Rightarrow> execution_result" where
  "plain_result v fs = \<lparr>xr_data = v, xr_facts = fs, xr_commitProof = None\<rparr>"

subsection \<open>Input schemas\<close>

definition enum_value :: "('a \<Rightarrow> string) \<Rightarrow> 'a list \<Rightarrow> json \<Rightarrow> 'a option" where
  "enum_value text_of xs v = Option.bind (string_value v) (\<lambda>s. List.find (\<lambda>x. text_of x = s) xs)"

definition CriterionInput :: "json \<Rightarrow> acceptance_criterion option" where
  "CriterionInput v =
     Option.bind (required_member non_empty_value v ''id'') (\<lambda>i.
     Option.bind (required_member non_empty_value v ''statement'') (\<lambda>statement.
     Option.bind (required_member (enum_value kind_text [Command_kind, Test_kind, File_assertion, Diff_assertion, Manual_kind])
       v ''evidenceKind'') (\<lambda>kind.
     Option.bind (default_member True bool_value v ''required'') (\<lambda>required.
     Some \<lparr>ac_id = i, ac_statement = statement, ac_evidenceKind = kind, ac_required = required\<rparr>))))"

definition StepInput :: "json \<Rightarrow> plan_step option" where
  "StepInput v =
     Option.bind (required_member non_empty_value v ''id'') (\<lambda>i.
     Option.bind (required_member non_empty_value v ''title'') (\<lambda>title.
     Option.bind (default_member [] string_value v ''description'') (\<lambda>description.
     Option.bind (default_member [] strings v ''files'') (\<lambda>files.
     Option.bind (default_member [] strings v ''dependsOn'') (\<lambda>deps.
     Option.bind (default_member [] string_value v ''expectedOutcome'') (\<lambda>outcome.
     Some \<lparr>ps_id = i, ps_title = title, ps_description = description, ps_files = files, ps_dependsOn = deps,
           ps_expectedOutcome = outcome\<rparr>))))))"

definition decision_value :: "json \<Rightarrow> plan_decision option" where
  "decision_value v =
     Option.bind (required_member string_value v ''decision'') (\<lambda>decision.
     Option.bind (required_member string_value v ''rationale'') (\<lambda>rationale.
     Some \<lparr>pd_decision = decision, pd_rationale = rationale\<rparr>))"

definition PlanProposeInput :: "json \<Rightarrow> create_version_input option" where
  "PlanProposeInput = strict
     [''planId'', ''goal'', ''nonGoals'', ''assumptions'', ''decisions'', ''steps'', ''acceptanceCriteria'', ''risks''] (\<lambda>v.
     Option.bind (Schema.optional_member string_value v ''planId'') (\<lambda>planId.
     Option.bind (required_member non_empty_value v ''goal'') (\<lambda>goal.
     Option.bind (default_member [] strings v ''nonGoals'') (\<lambda>nonGoals.
     Option.bind (default_member [] strings v ''assumptions'') (\<lambda>assumptions.
     Option.bind (default_member [] (array_value decision_value) v ''decisions'') (\<lambda>decisions.
     Option.bind (default_member [] (array_value StepInput) v ''steps'') (\<lambda>steps.
     Option.bind (default_member [] (array_value CriterionInput) v ''acceptanceCriteria'') (\<lambda>criteria.
     Option.bind (default_member [] strings v ''risks'') (\<lambda>risks.
     Some \<lparr>cv_planId = planId, cv_goal = goal, cv_nonGoals = Some nonGoals, cv_assumptions = Some assumptions,
           cv_decisions = Some decisions, cv_steps = Some steps, cv_acceptanceCriteria = Some criteria, cv_risks = Some risks\<rparr>)))))))))"

definition replacement_value :: "json \<Rightarrow> repair_replacement option" where
  "replacement_value = strict [''title'', ''description'', ''files'', ''expectedOutcome''] (\<lambda>v.
     Option.bind (Schema.optional_member non_empty_value v ''title'') (\<lambda>title.
     Option.bind (required_member non_empty_value v ''description'') (\<lambda>description.
     Option.bind (Schema.optional_member strings v ''files'') (\<lambda>files.
     Option.bind (Schema.optional_member non_empty_value v ''expectedOutcome'') (\<lambda>outcome.
     Some \<lparr>rr_title = title, rr_description = description, rr_files = files, rr_expectedOutcome = outcome\<rparr>)))))"

definition PlanRepairInput :: "json \<Rightarrow> local_repair_input option" where
  "PlanRepairInput = strict [''planId'', ''version'', ''stepId'', ''reason'', ''replacement''] (\<lambda>v.
     Option.bind (required_member non_empty_value v ''planId'') (\<lambda>planId.
     Option.bind (required_member positive_int_value v ''version'') (\<lambda>version.
     Option.bind (required_member non_empty_value v ''stepId'') (\<lambda>stepId.
     Option.bind (required_member non_empty_value v ''reason'') (\<lambda>reason.
     Option.bind (required_member replacement_value v ''replacement'') (\<lambda>replacement.
     Some \<lparr>li_planId = planId, li_version = version, li_stepId = stepId, li_reason = reason, li_replacement = replacement\<rparr>))))))"

record plan_reference =
  pv_planId :: string
  pv_version :: number

definition ExitPlanModeInput :: "json \<Rightarrow> plan_reference option" where
  "ExitPlanModeInput = strict [''planId'', ''version''] (\<lambda>v.
     Option.bind (required_member non_empty_value v ''planId'') (\<lambda>planId.
     Option.bind (required_member positive_int_value v ''version'') (\<lambda>version.
     Some \<lparr>pv_planId = planId, pv_version = version\<rparr>)))"

definition TaskCreateInput :: "json \<Rightarrow> create_task_input option" where
  "TaskCreateInput = strict [''subject'', ''description'', ''activeForm'', ''dependsOn'', ''acceptanceCriteria'', ''stepId''] (\<lambda>v.
     Option.bind (required_member non_empty_value v ''subject'') (\<lambda>subject.
     Option.bind (default_member [] string_value v ''description'') (\<lambda>description.
     Option.bind (Schema.optional_member string_value v ''activeForm'') (\<lambda>form.
     Option.bind (default_member [] strings v ''dependsOn'') (\<lambda>deps.
     Option.bind (default_member [] strings v ''acceptanceCriteria'') (\<lambda>criteria.
     Option.bind (Schema.optional_member non_empty_value v ''stepId'') (\<lambda>stepId.
     Some \<lparr>ct_subject = subject, ct_description = Some description, ct_activeForm = form, ct_dependsOn = Some deps,
           ct_acceptanceCriteria = Some criteria, ct_planId = None, ct_planVersion = None, ct_stepId = stepId\<rparr>)))))))"

definition TaskUpdateInput :: "json \<Rightarrow> update_task_input option" where
  "TaskUpdateInput = strict [''id'', ''expectedRevision'', ''status'', ''subject'', ''description'', ''activeForm'', ''dependsOn'',
       ''acceptanceCriteria'', ''evidenceIds'', ''blockedReason''] (\<lambda>v.
     Option.bind (required_member non_empty_value v ''id'') (\<lambda>i.
     Option.bind (required_member positive_int_value v ''expectedRevision'') (\<lambda>revision.
     Option.bind (Schema.optional_member (enum_value task_status_text [Pending, In_progress, Blocked, Completed, Failed]) v ''status'') (\<lambda>status.
     Option.bind (Schema.optional_member string_value v ''subject'') (\<lambda>subject.
     Option.bind (Schema.optional_member string_value v ''description'') (\<lambda>description.
     Option.bind (Schema.optional_member string_value v ''activeForm'') (\<lambda>form.
     Option.bind (Schema.optional_member strings v ''dependsOn'') (\<lambda>deps.
     Option.bind (Schema.optional_member strings v ''acceptanceCriteria'') (\<lambda>criteria.
     Option.bind (Schema.optional_member strings v ''evidenceIds'') (\<lambda>evidence.
     Option.bind (Schema.optional_member string_value v ''blockedReason'') (\<lambda>reason.
     Some \<lparr>ut_id = i, ut_expectedRevision = revision,
           ut_patch = \<lparr>tp_subject = subject, tp_description = description, tp_activeForm = form, tp_status = status,
             tp_dependsOn = deps, tp_acceptanceCriteria = criteria, tp_evidenceIds = evidence, tp_blockedReason = reason\<rparr>\<rparr>)))))))))))"

subsection \<open>EnterPlanMode\<close>

definition enter_execute :: "tool_context \<Rightarrow> execution_result" where
  "enter_execute cx =
     (if cx_mode cx = Plan_mode
      then plain_result (JObj [(''entered'', JBool False), (''alreadyInPlan'', JBool True)]) None
      else plain_result (JObj [(''entered'', JBool True)]) (Some [Mode_changed (cx_mode cx) Plan_mode (Some (cx_mode cx))]))"

subsection \<open>PlanPropose\<close>

definition step_paths_ok :: "host \<Rightarrow> string \<Rightarrow> string list \<Rightarrow> plan_step \<Rightarrow> bool" where
  "step_paths_ok H wsroot stepIds s \<longleftrightarrow>
     list_all (\<lambda>p. case workspacePathKey H wsroot p of Inl e \<Rightarrow> False | Inr k \<Rightarrow> True) (ps_files s) \<and>
     list_all (\<lambda>d. d \<in> set stepIds) (ps_dependsOn s)"

definition propose_validate :: "plan_channels \<Rightarrow> create_version_input \<Rightarrow> tool_context \<Rightarrow> plan_services \<Rightarrow> structured_error option" where
  "propose_validate C i cx sv =
     (let steps = or_else (cv_steps i) []
      in if sv_plans sv = None then Some \<lparr>se_code = ''INTERNAL_TOOL_ERROR'', se_retryable = False\<rparr>
         else if \<not> list_all (step_paths_ok (ch_host C) (cx_workspaceRoot cx) (map ps_id steps)) steps then Some (bad_input True)
         else None)"

definition propose_execute ::
    "plan_channels \<Rightarrow> create_version_input \<Rightarrow> plan_services \<Rightarrow> (tool_exception + execution_result) \<times> plan_services" where
  "propose_execute C i sv =
     (case sv_plans sv of
        None \<Rightarrow> (Inl Other_error, sv)
      | Some st \<Rightarrow>
          let st' = createVersion (ch_newId C) (ch_now C) i st; p = last (st_heap st')
          in (Inr (plain_result (JObj [(''planId'', JStr (pl_planId p)), (''version'', JNum (pl_version p))]) (Some [Plan_version_created p])),
              sv\<lparr>sv_plans := Some st'\<rparr>))"

text \<open>The artifact that the store writes for a new version: the plan id is part of its path.\<close>

definition plan_artifact :: "host \<Rightarrow> string \<Rightarrow> string \<Rightarrow> number \<Rightarrow> string" where
  "plan_artifact H artifactDir planId version =
     abs_text (resolve_path H (artifactDir @ ''/plans/'' @ planId @ ''-v'' @ show_num version @ ''.json''))"

subsection \<open>PlanRepair\<close>

definition path_keys :: "host \<Rightarrow> string \<Rightarrow> string list \<Rightarrow> string list option" where
  "path_keys H wsroot ps =
     those (map (\<lambda>p. case workspacePathKey H wsroot p of Inl e \<Rightarrow> None | Inr k \<Rightarrow> Some k) ps)"

text \<open>A replacement file that is no path in the workspace and one outside the approved files are
  refused with the same code.\<close>

definition repair_scope :: "plan_channels \<Rightarrow> local_repair_input \<Rightarrow> tool_context \<Rightarrow> plan_version \<Rightarrow> structured_error option" where
  "repair_scope C i cx p =
     (case path_keys (ch_host C) (cx_workspaceRoot cx) (plan_files p) of
        None \<Rightarrow> Some (bad_input False)
      | Some allowed \<Rightarrow>
          (case path_keys (ch_host C) (cx_workspaceRoot cx) (or_else (rr_files (li_replacement i)) []) of
             None \<Rightarrow> Some (bad_input True)
           | Some ks \<Rightarrow> if list_all (\<lambda>k. k \<in> set allowed) ks then None else Some (bad_input True)))"

definition repair_validate :: "plan_channels \<Rightarrow> local_repair_input \<Rightarrow> tool_context \<Rightarrow> plan_services \<Rightarrow> structured_error option" where
  "repair_validate C i cx sv =
     (if \<not> or_else (ch_canRepair C) False then Some \<lparr>se_code = ''PRECONDITION_FAILED'', se_retryable = False\<rparr>
      else case sv_plans sv of
             None \<Rightarrow> Some (bad_input True)
           | Some st \<Rightarrow>
               (case get_plan st (li_planId i) (li_version i) of
                  None \<Rightarrow> Some (bad_input True)
                | Some a \<Rightarrow>
                    if pl_status (plan_at st a) \<noteq> Approved \<or> st_lastApproved st \<noteq> Some a then Some (bad_input True)
                    else if \<not> list_ex (\<lambda>s. ps_id s = li_stepId i) (pl_steps (plan_at st a)) then Some (bad_input True)
                    else repair_scope C i cx (plan_at st a)))"

definition version_text :: "plan_version \<Rightarrow> string" where
  "version_text p = pl_planId p @ ''@'' @ show_num (pl_version p)"

definition repair_preconditions :: "local_repair_input \<Rightarrow> plan_services \<Rightarrow> contract_check list" where
  "repair_preconditions i sv =
     [case approved_version sv of
        None \<Rightarrow> \<lparr>cc_id = ''approved-version-unchanged'', cc_passed = False, cc_detail = Some ''none''\<rparr>
      | Some p \<Rightarrow> \<lparr>cc_id = ''approved-version-unchanged'',
          cc_passed = (pl_planId p = li_planId i \<and> pl_version p = li_version i), cc_detail = Some (version_text p)\<rparr>]"

definition repair_output :: "local_repair_input \<Rightarrow> plan_version \<Rightarrow> plan_version \<Rightarrow> plan_task list \<Rightarrow> execution_result" where
  "repair_output i previous p migrated =
     \<lparr>xr_data = JObj [(''planId'', JStr (pl_planId p)), (''fromVersion'', JNum (pl_version previous)),
        (''version'', JNum (pl_version p)), (''stepId'', JStr (li_stepId i)), (''migratedTasks'', JNum (of_nat (length migrated)))],
      xr_facts = Some ([Plan_status_changed (pl_planId previous) (pl_version previous), Plan_version_created p] @
        map Task_changed migrated @
        [Replan_adjustment_applied ''local_step_repair''
           (''replaced step '' @ li_stepId i @ '' in '' @ li_planId i @ ''@'' @ show_num (li_version i))]),
      xr_commitProof = Some (version_text p @ '':'' @ li_stepId i)\<rparr>"

definition repair_execute ::
    "plan_channels \<Rightarrow> local_repair_input \<Rightarrow> plan_services \<Rightarrow> (tool_exception + execution_result) \<times> plan_services" where
  "repair_execute C i sv =
     (case sv_plans sv of
        None \<Rightarrow> (Inl Other_error, sv)
      | Some st \<Rightarrow>
          (case createLocalRepair (ch_now C) (ch_later C) i st of
             Inl e \<Rightarrow> (Inl Other_error, sv)
           | Inr st' \<Rightarrow>
               let p = last (st_heap st'); sv' = sv\<lparr>sv_plans := Some st'\<rparr>
               in case get_plan st (li_planId i) (li_version i) of
                    None \<Rightarrow> (Inl Other_error, sv')
                  | Some a \<Rightarrow>
                      (case sv_tasks sv of
                         None \<Rightarrow> (Inr (repair_output i (plan_at st' a) p []), sv')
                       | Some ts \<Rightarrow>
                           let m = migratePlanVersion (li_planId i) (li_version i) (pl_version p) (li_stepId i) (ch_later C) ts
                           in (Inr (repair_output i (plan_at st' a) p (fst m)), sv'\<lparr>sv_tasks := Some (snd m)\<rparr>))))"

definition text_member :: "json \<Rightarrow> string \<Rightarrow> string" where
  "text_member v k = or_else (Option.bind (json_member v k) string_value) []"

definition num_member :: "json \<Rightarrow> string \<Rightarrow> number" where
  "num_member v k = or_else (Option.bind (json_member v k) number_value) 0"

definition stored_version :: "plan_services \<Rightarrow> string \<Rightarrow> number \<Rightarrow> plan_version option" where
  "stored_version sv planId version =
     Option.bind (sv_plans sv) (\<lambda>st. map_option (plan_at st) (get_plan st planId version))"

definition repair_of :: "local_repair_input \<Rightarrow> plan_version option \<Rightarrow> bool" where
  "repair_of i p \<longleftrightarrow>
     (case Option.bind p pl_localRepair of
        None \<Rightarrow> False | Some r \<Rightarrow> lr_stepId r = li_stepId i \<and> lr_fromVersion r = li_version i)"

fun plan_status_text :: "plan_status \<Rightarrow> string" where
  "plan_status_text Draft = ''draft''"
| "plan_status_text Awaiting_approval = ''awaiting_approval''"
| "plan_status_text Approved = ''approved''"
| "plan_status_text Superseded = ''superseded''"

definition repair_postconditions :: "local_repair_input \<Rightarrow> json \<Rightarrow> plan_services \<Rightarrow> contract_check list" where
  "repair_postconditions i out sv =
     (let p = stored_version sv (text_member out ''planId'') (num_member out ''version'')
      in [\<lparr>cc_id = ''new-version-approved'', cc_passed = (map_option pl_status p = Some Approved),
           cc_detail = Some (case p of None \<Rightarrow> ''missing'' | Some q \<Rightarrow> plan_status_text (pl_status q))\<rparr>,
          \<lparr>cc_id = ''single-step-repair-recorded'', cc_passed = repair_of i p, cc_detail = None\<rparr>])"

definition repair_inspect :: "local_repair_input \<Rightarrow> plan_services \<Rightarrow> outcome_inspection" where
  "repair_inspect i sv =
     (case stored_version sv (li_planId i) (li_version i + 1) of
        Some p \<Rightarrow> if repair_of i (Some p)
                  then \<lparr>oi_applied = True, oi_detail = ''local repair exists as '' @ version_text p\<rparr>
                  else \<lparr>oi_applied = False, oi_detail = ''no matching derived plan version found''\<rparr>
      | None \<Rightarrow> \<lparr>oi_applied = False, oi_detail = ''no matching derived plan version found''\<rparr>)"

subsection \<open>ExitPlanMode\<close>

definition exit_validate :: "plan_reference \<Rightarrow> plan_services \<Rightarrow> structured_error option" where
  "exit_validate i sv =
     (case stored_version sv (pv_planId i) (pv_version i) of
        None \<Rightarrow> Some (bad_input True)
      | Some p \<Rightarrow> if pl_status p = Superseded \<or> pl_status p = Approved then Some (bad_input True) else None)"

definition not_approved :: "string \<Rightarrow> execution_result" where
  "not_approved reason = plain_result (JObj [(''approved'', JBool False), (''reason'', JStr reason)]) None"

definition consume_text :: "string \<Rightarrow> registry \<Rightarrow> plan_reference \<Rightarrow> consume_problem \<Rightarrow> string" where
  "consume_text tok reg i e =
     (case e of
        Unknown_token \<Rightarrow> ''unknown token'' | Already_consumed \<Rightarrow> ''token already consumed'' | Token_expired \<Rightarrow> ''token expired''
      | Bound_elsewhere \<Rightarrow>
          (case obj_get reg tok of
             None \<Rightarrow> ''unknown token''
           | Some t \<Rightarrow> ''token bound to '' @ at_planId t @ ''@'' @ show_num (at_planVersion t) @ '', not '' @
               pv_planId i @ ''@'' @ show_num (pv_version i)))"

definition approved_output :: "plan_channels \<Rightarrow> plan_reference \<Rightarrow> tool_context \<Rightarrow> plan_version \<Rightarrow> execution_result" where
  "approved_output C i cx p =
     (let restored = (if cx_mode cx = Plan_mode then Default_mode else cx_mode cx)
      in plain_result (JObj [(''approved'', JBool True), (''restoredMode'', JStr (mode_text restored))])
           (Some ([Plan_version_created p, Plan_approved (pv_planId i) (pv_version i) (ch_token C)] @
             (if cx_mode cx = Plan_mode then [Mode_changed Plan_mode restored None] else []))))"

text \<open>The token is issued for the session, the plan and the version, and consumed at once.\<close>

definition approve_plan ::
    "plan_channels \<Rightarrow> plan_reference \<Rightarrow> tool_context \<Rightarrow> plan_store \<Rightarrow> registry \<Rightarrow> plan_services \<Rightarrow>
     (tool_exception + execution_result) \<times> plan_services" where
  "approve_plan C i cx st reg sv =
     (let issued = issue (ch_dates C) (ch_ttl C) (ch_token C) (ch_issuedAt C) (cx_sessionId cx) (pv_planId i) (pv_version i) reg
      in case consume (ch_dates C) (ch_token C) (ch_consumedAt C) (cx_sessionId cx) (pv_planId i) (pv_version i) issued of
           (Inl e, reg') \<Rightarrow> (Inr (not_approved (consume_text (ch_token C) issued i e)), sv\<lparr>sv_approvals := Some reg'\<rparr>)
         | (Inr t, reg') \<Rightarrow>
             (case markApproved (ch_later C) (pv_planId i) (pv_version i) (ch_token C) st of
                Inl e \<Rightarrow> (Inl Other_error, sv\<lparr>sv_approvals := Some reg'\<rparr>)
              | Inr st' \<Rightarrow>
                  (case get_plan st' (pv_planId i) (pv_version i) of
                     None \<Rightarrow> (Inl Other_error, sv\<lparr>sv_approvals := Some reg', sv_plans := Some st'\<rparr>)
                   | Some a \<Rightarrow> (Inr (approved_output C i cx (plan_at st' a)), sv\<lparr>sv_approvals := Some reg', sv_plans := Some st'\<rparr>))))"

definition exit_execute ::
    "plan_channels \<Rightarrow> plan_reference \<Rightarrow> tool_context \<Rightarrow> plan_services \<Rightarrow> (tool_exception + execution_result) \<times> plan_services" where
  "exit_execute C i cx sv =
     (case sv_plans sv of
        None \<Rightarrow> (Inl Other_error, sv)
      | Some st \<Rightarrow>
          (case get_plan st (pv_planId i) (pv_version i) of
             None \<Rightarrow> (Inl Other_error, sv)
           | Some a \<Rightarrow>
               (case (if pl_status (plan_at st a) = Draft then markAwaitingApproval (pv_planId i) (pv_version i) st else Inr st) of
                  Inl e \<Rightarrow> (Inl Other_error, sv)
                | Inr st1 \<Rightarrow>
                    let sv1 = sv\<lparr>sv_plans := Some st1\<rparr>
                    in case (ch_requestApproval C, sv_approvals sv) of
                         (Some user, Some reg) \<Rightarrow>
                           if user (plan_at st1 a) then approve_plan C i cx st1 reg sv1
                           else (Inr (not_approved ''user rejected the plan''), sv1)
                       | _ \<Rightarrow> (Inr (not_approved ''no approval channel configured''), sv1))))"

subsection \<open>TaskCreate, TaskUpdate, TaskList\<close>

definition or_absent :: "string \<Rightarrow> json option \<Rightarrow> (string \<times> json) list" where
  "or_absent k v = (case v of None \<Rightarrow> [] | Some x \<Rightarrow> [(k, x)])"

definition strings_json :: "string list \<Rightarrow> json" where
  "strings_json xs = JArr (map JStr xs)"

definition task_json :: "plan_task \<Rightarrow> json" where
  "task_json t =
     JObj ([(''id'', JStr (tk_id t))] @ or_absent ''planId'' (map_option JStr (tk_planId t)) @
       or_absent ''planVersion'' (map_option JNum (tk_planVersion t)) @ or_absent ''stepId'' (map_option JStr (tk_stepId t)) @
       [(''subject'', JStr (tk_subject t)), (''description'', JStr (tk_description t)), (''activeForm'', JStr (tk_activeForm t)),
        (''status'', JStr (task_status_text (tk_status t))), (''dependsOn'', strings_json (tk_dependsOn t)),
        (''acceptanceCriteria'', strings_json (tk_acceptanceCriteria t)), (''evidenceIds'', strings_json (tk_evidenceIds t))] @
       or_absent ''blockedReason'' (map_option JStr (tk_blockedReason t)) @
       [(''revision'', JNum (tk_revision t)), (''createdAt'', JStr (tk_createdAt t)), (''updatedAt'', JStr (tk_updatedAt t))])"

definition task_error_text :: "task_error \<Rightarrow> string" where
  "task_error_text e =
     (case e of
        Task_not_found \<Rightarrow> ''TASK_NOT_FOUND'' | Revision_conflict \<Rightarrow> ''REVISION_CONFLICT''
      | Invalid_transition \<Rightarrow> ''INVALID_TRANSITION'' | Already_in_progress \<Rightarrow> ''ALREADY_IN_PROGRESS''
      | Dependencies_incomplete \<Rightarrow> ''DEPENDENCIES_INCOMPLETE'' | Blocked_reason_required \<Rightarrow> ''BLOCKED_REASON_REQUIRED''
      | Missing_evidence \<Rightarrow> ''MISSING_EVIDENCE'' | Dangling_dependency \<Rightarrow> ''DANGLING_DEPENDENCY''
      | Dependency_cycle \<Rightarrow> ''DEPENDENCY_CYCLE'')"

definition task_result ::
    "plan_services \<Rightarrow> task_error + (plan_task \<times> task_map) \<Rightarrow> (tool_exception + execution_result) \<times> plan_services" where
  "task_result sv r =
     (case r of
        Inl e \<Rightarrow> (Inr (plain_result (refusal_json (task_error_text e)) None), sv)
      | Inr (t, ts) \<Rightarrow>
          (Inr (plain_result (JObj [(''ok'', JBool True), (''task'', task_json t)]) (Some [Task_changed t])), sv\<lparr>sv_tasks := Some ts\<rparr>))"

definition create_validate :: "create_task_input \<Rightarrow> plan_services \<Rightarrow> structured_error option" where
  "create_validate i sv =
     (case truthy (ct_stepId i) of
        None \<Rightarrow> None
      | Some stepId \<Rightarrow>
          (case approved_version sv of
             None \<Rightarrow> Some (bad_input True)
           | Some p \<Rightarrow> if list_ex (\<lambda>s. ps_id s = stepId) (pl_steps p) then None else Some (bad_input True)))"

definition create_execute ::
    "plan_channels \<Rightarrow> create_task_input \<Rightarrow> plan_services \<Rightarrow> (tool_exception + execution_result) \<times> plan_services" where
  "create_execute C i sv =
     (case sv_tasks sv of
        None \<Rightarrow> (Inr (plain_result (refusal_json ''INTERNAL'') None), sv)
      | Some ts \<Rightarrow>
          task_result sv (create_task (ch_newId C) (ch_now C) (ch_later C)
            (i\<lparr>ct_planId := map_option pl_planId (approved_version sv), ct_planVersion := map_option pl_version (approved_version sv)\<rparr>) ts))"

definition update_validate :: "update_task_input \<Rightarrow> plan_services \<Rightarrow> structured_error option" where
  "update_validate i sv =
     (case tp_evidenceIds (ut_patch i) of
        None \<Rightarrow> None
      | Some ids \<Rightarrow>
          if list_all (\<lambda>k. case sv_evidence sv of None \<Rightarrow> False | Some es \<Rightarrow> es_exists es k) ids then None else Some (bad_input True))"

definition update_options :: "plan_channels \<Rightarrow> plan_services \<Rightarrow> task_options" where
  "update_options C sv =
     \<lparr>to_criteria = (case approved_version sv of None \<Rightarrow> [] | Some p \<Rightarrow> pl_acceptanceCriteria p),
      to_evidence = (case sv_evidence sv of None \<Rightarrow> [] | Some es \<Rightarrow> es_list es),
      to_usability = \<lparr>uo_stale = map_option (findStaleReceipts (ch_files C)) (sv_evidence sv),
        uo_workspaceRoot = Option.bind (sv_evidence sv) es_workspaceRoot\<rparr>\<rparr>"

definition update_execute ::
    "plan_channels \<Rightarrow> update_task_input \<Rightarrow> plan_services \<Rightarrow> (tool_exception + execution_result) \<times> plan_services" where
  "update_execute C i sv =
     (case sv_tasks sv of
        None \<Rightarrow> (Inr (plain_result (refusal_json ''INTERNAL'') None), sv)
      | Some ts \<Rightarrow> task_result sv (update_task (ch_host C) (ch_now C) i (update_options C sv) ts))"

definition list_execute :: "plan_channels \<Rightarrow> plan_services \<Rightarrow> execution_result" where
  "list_execute C sv =
     plain_result (JObj [(''tasks'', JArr (map task_json (case sv_tasks sv of None \<Rightarrow> [] | Some ts \<Rightarrow> ch_sortTasks C (map snd ts))))]) None"

subsection \<open>One call\<close>

datatype planning_call =
    Enter_call
  | Propose_call create_version_input
  | Repair_call local_repair_input
  | Exit_call plan_reference
  | Create_call create_task_input
  | Update_call update_task_input
  | List_call

fun planning_validate :: "plan_channels \<Rightarrow> planning_call \<Rightarrow> tool_context \<Rightarrow> plan_services \<Rightarrow> structured_error option" where
  "planning_validate C (Propose_call i) cx sv = propose_validate C i cx sv"
| "planning_validate C (Repair_call i) cx sv = repair_validate C i cx sv"
| "planning_validate C (Exit_call i) cx sv = exit_validate i sv"
| "planning_validate C (Create_call i) cx sv = create_validate i sv"
| "planning_validate C (Update_call i) cx sv = update_validate i sv"
| "planning_validate C Enter_call cx sv = None"
| "planning_validate C List_call cx sv = None"

fun planning_preconditions :: "planning_call \<Rightarrow> plan_services \<Rightarrow> contract_check list" where
  "planning_preconditions (Repair_call i) sv = repair_preconditions i sv"
| "planning_preconditions call sv = []"

fun planning_execute ::
    "plan_channels \<Rightarrow> planning_call \<Rightarrow> tool_context \<Rightarrow> plan_services \<Rightarrow> (tool_exception + execution_result) \<times> plan_services" where
  "planning_execute C Enter_call cx sv = (Inr (enter_execute cx), sv)"
| "planning_execute C (Propose_call i) cx sv = propose_execute C i sv"
| "planning_execute C (Repair_call i) cx sv = repair_execute C i sv"
| "planning_execute C (Exit_call i) cx sv = exit_execute C i cx sv"
| "planning_execute C (Create_call i) cx sv = create_execute C i sv"
| "planning_execute C (Update_call i) cx sv = update_execute C i sv"
| "planning_execute C List_call cx sv = (Inr (list_execute C sv), sv)"

text \<open>A call as the runtime makes it: \<open>None\<close> when it is refused before it executes.\<close>

definition run_planning ::
    "plan_channels \<Rightarrow> planning_call \<Rightarrow> tool_context \<Rightarrow> plan_services \<Rightarrow>
     ((tool_exception + execution_result) \<times> plan_services) option" where
  "run_planning C call cx sv =
     (if planning_validate C call cx sv \<noteq> None \<or> \<not> list_all cc_passed (planning_preconditions call sv) then None
      else Some (planning_execute C call cx sv))"

subsection \<open>The tool definitions\<close>

text \<open>What the members share: reading the parsed input, internal state only, always allowed.\<close>

definition with_input :: "(json \<Rightarrow> 'i option) \<Rightarrow> ('i \<Rightarrow> 'a) \<Rightarrow> json \<Rightarrow> tool_exception + 'a" where
  "with_input parse f v = (case parse v of None \<Rightarrow> Inl Other_error | Some i \<Rightarrow> Inr (f i))"

definition run_input ::
    "(json \<Rightarrow> 'i option) \<Rightarrow> ('i \<Rightarrow> 'w \<Rightarrow> (tool_exception + 'a) \<times> 'w) \<Rightarrow> 'w \<Rightarrow> json \<Rightarrow> (tool_exception + 'a) \<times> 'w" where
  "run_input parse f w v = (case parse v of None \<Rightarrow> (Inl Other_error, w) | Some i \<Rightarrow> f i w)"

definition internal_tool ::
    "string \<Rightarrow> number \<Rightarrow> concurrency_class \<Rightarrow> (string \<times> access_mode) list \<Rightarrow> (json \<Rightarrow> json option) \<Rightarrow>
     (plan_services \<Rightarrow> json \<Rightarrow> tool_context \<Rightarrow> (tool_exception + execution_result) \<times> plan_services) \<Rightarrow>
     (json \<Rightarrow> string) \<Rightarrow> plan_services tool_spec" where
  "internal_tool name limit class claims parse execute serialize =
     \<lparr>tsp_name = name, tsp_maxResultChars = Some limit, tsp_idempotencyScope = None, tsp_safeParse = parse,
      tsp_readOnly = Some (\<lambda>v. Inr True), tsp_destructive = None, tsp_concurrency = Some (\<lambda>v. Inr class),
      tsp_resources = Some (\<lambda>v cx. Inr (map (\<lambda>(r, m). \<lparr>rc_resource = r, rc_mode = m\<rparr>) claims)),
      tsp_workspaceMutation = None, tsp_validate = None, tsp_preconditions = None,
      tsp_permission = Some (\<lambda>w v cx. Inr \<lparr>hint_behavior = Allow, hint_code = None\<rparr>),
      tsp_execute = execute, tsp_postconditions = None, tsp_observe = None,
      tsp_serialize = Some (\<lambda>out callId. Inr (Text_content (serialize out))), tsp_inspectOutcome = None\<rparr>"

text \<open>A schema hands on what it accepts with the defaults filled in; the model hands on the value and
  reads it again, with the same result.\<close>

definition accepts_input :: "(json \<Rightarrow> 'i option) \<Rightarrow> json \<Rightarrow> json option" where
  "accepts_input parse v = (if parse v = None then None else Some v)"

definition nothing_value :: "json \<Rightarrow> unit option" where
  "nothing_value = strict [] (\<lambda>v. Some ())"

definition flag_member :: "json \<Rightarrow> string \<Rightarrow> bool" where
  "flag_member v k = or_else (Option.bind (json_member v k) bool_value) False"

definition EnterPlanModeTool :: "plan_channels \<Rightarrow> plan_services tool_definition" where
  "EnterPlanModeTool C = defineTool (internal_tool ''EnterPlanMode'' 2000 Exclusive [(''state:mode'', Write_access)]
     (accepts_input nothing_value) (\<lambda>sv v cx. (Inr (enter_execute cx), sv))
     (\<lambda>out. if flag_member out ''alreadyInPlan'' then ''Already in plan mode.''
            else ''Entered plan mode. Write tools are now unavailable. Explore, then call PlanPropose.''))"

definition PlanProposeTool :: "plan_channels \<Rightarrow> plan_services tool_definition" where
  "PlanProposeTool C = defineTool ((internal_tool ''PlanPropose'' 4000 Exclusive [(''state:plans'', Write_access)]
     (accepts_input PlanProposeInput) (\<lambda>sv v cx. run_input PlanProposeInput (propose_execute C) sv v)
     (\<lambda>out. ''Plan persisted: '' @ text_member out ''planId'' @ '' v'' @ show_num (num_member out ''version'') @
            ''. Call ExitPlanMode with this exact reference to request user approval.''))
     \<lparr>tsp_validate := Some (\<lambda>sv v cx. with_input PlanProposeInput (\<lambda>i. propose_validate C i cx sv) v)\<rparr>)"

definition repair_observe :: "json \<Rightarrow> string \<times> json jsobj option" where
  "repair_observe out =
     (''Locally repaired step '' @ text_member out ''stepId'' @ ''; plan advanced from v'' @ show_num (num_member out ''fromVersion'') @
      '' to approved v'' @ show_num (num_member out ''version''),
      Some ((case out of JObj kvs \<Rightarrow> kvs | _ \<Rightarrow> []) @ [(''scopeExpanded'', JBool False)]))"

definition PlanRepairTool :: "plan_channels \<Rightarrow> plan_services tool_definition" where
  "PlanRepairTool C = defineTool ((internal_tool ''PlanRepair'' 8000 Exclusive [(''state:plans'', Write_access), (''state:tasks'', Write_access)]
     (accepts_input PlanRepairInput) (\<lambda>sv v cx. run_input PlanRepairInput (repair_execute C) sv v) (\<lambda>out. []))
     \<lparr>tsp_validate := Some (\<lambda>sv v cx. with_input PlanRepairInput (\<lambda>i. repair_validate C i cx sv) v),
      tsp_preconditions := Some (\<lambda>sv v cx. with_input PlanRepairInput (\<lambda>i. repair_preconditions i sv) v),
      tsp_postconditions := Some (\<lambda>sv v out cx. with_input PlanRepairInput (\<lambda>i. repair_postconditions i out sv) v),
      tsp_observe := Some (\<lambda>sv v out cx. Inr (repair_observe out)),
      tsp_serialize := None,
      tsp_inspectOutcome := Some (\<lambda>sv v cx r. with_input PlanRepairInput (\<lambda>i. repair_inspect i sv) v)\<rparr>)"

definition ExitPlanModeTool :: "plan_channels \<Rightarrow> plan_services tool_definition" where
  "ExitPlanModeTool C = defineTool ((internal_tool ''ExitPlanMode'' 2000 Exclusive [(''state:mode'', Write_access)]
     (accepts_input ExitPlanModeInput) (\<lambda>sv v cx. run_input ExitPlanModeInput (\<lambda>i. exit_execute C i cx) sv v)
     (\<lambda>out. if flag_member out ''approved''
            then ''Plan approved. Plan mode exited (mode: '' @ text_member out ''restoredMode'' @
                 ''). Follow the approved steps and acceptance criteria.''
            else ''Plan NOT approved: '' @ text_member out ''reason'' @ ''. Revise the plan or ask the user for direction.''))
     \<lparr>tsp_validate := Some (\<lambda>sv v cx. with_input ExitPlanModeInput (\<lambda>i. exit_validate i sv) v)\<rparr>)"

definition task_member :: "json \<Rightarrow> json" where
  "task_member out = or_else (json_member out ''task'') JNull"

text \<open>The message of a refusal is prose that the model leaves out.\<close>

definition TaskCreateTool :: "plan_channels \<Rightarrow> plan_services tool_definition" where
  "TaskCreateTool C = defineTool ((internal_tool ''TaskCreate'' 4000 Exclusive [(''state:tasks'', Write_access)]
     (accepts_input TaskCreateInput) (\<lambda>sv v cx. run_input TaskCreateInput (create_execute C) sv v)
     (\<lambda>out. if flag_member out ''ok''
            then ''Task created: '' @ text_member (task_member out) ''id'' @ '' \"'' @ text_member (task_member out) ''subject'' @
                 ''\" (revision '' @ show_num (num_member (task_member out) ''revision'') @ '')''
            else ''TaskCreate failed ['' @ text_member out ''code'' @ '']: ''))
     \<lparr>tsp_validate := Some (\<lambda>sv v cx. with_input TaskCreateInput (\<lambda>i. create_validate i sv) v)\<rparr>)"

definition TaskUpdateTool :: "plan_channels \<Rightarrow> plan_services tool_definition" where
  "TaskUpdateTool C = defineTool ((internal_tool ''TaskUpdate'' 4000 Exclusive [(''state:tasks'', Write_access)]
     (accepts_input TaskUpdateInput) (\<lambda>sv v cx. run_input TaskUpdateInput (update_execute C) sv v)
     (\<lambda>out. if flag_member out ''ok''
            then ''Task '' @ text_member (task_member out) ''id'' @ '' -> '' @ text_member (task_member out) ''status'' @
                 '' (revision '' @ show_num (num_member (task_member out) ''revision'') @ '')''
            else ''TaskUpdate failed ['' @ text_member out ''code'' @ '']: ''))
     \<lparr>tsp_validate := Some (\<lambda>sv v cx. with_input TaskUpdateInput (\<lambda>i. update_validate i sv) v)\<rparr>)"

definition task_strings :: "json \<Rightarrow> string \<Rightarrow> string list" where
  "task_strings t k = or_else (Option.bind (json_member t k) strings) []"

definition task_line :: "json \<Rightarrow> string" where
  "task_line t =
     text_member t ''id'' @ '' ['' @ text_member t ''status'' @ ''] rev='' @ show_num (num_member t ''revision'') @ '' \"'' @
     text_member t ''subject'' @ ''\"'' @
     (case truthy (Some (text_member t ''stepId'')) of None \<Rightarrow> [] | Some s \<Rightarrow> '' step='' @ s) @
     (if task_strings t ''dependsOn'' \<noteq> [] then '' deps='' @ js_join '','' (task_strings t ''dependsOn'') else []) @
     (if task_strings t ''evidenceIds'' \<noteq> [] then '' evidence='' @ js_join '','' (task_strings t ''evidenceIds'') else []) @
     (case truthy (Some (text_member t ''blockedReason'')) of None \<Rightarrow> [] | Some s \<Rightarrow> '' blocked: '' @ s)"

definition TaskListTool :: "plan_channels \<Rightarrow> plan_services tool_definition" where
  "TaskListTool C = defineTool (internal_tool ''TaskList'' 20000 Shared [(''state:tasks'', Read_access)]
     (accepts_input nothing_value) (\<lambda>sv v cx. (Inr (list_execute C sv), sv))
     (\<lambda>out. let ts = or_else (Option.bind (json_member out ''tasks'') (array_value Some)) []
            in if ts = [] then ''No tasks.'' else js_join [CHR 0x0A] (map task_line ts)))"

end
