(* ===== verification/PlanToolProps.thy ===== *)
theory PlanToolProps
  imports PlanTools StateProperties
begin

text \<open>
  What the planning tools guarantee against the reducer: the facts of a call are accepted and keep
  the agent state in step with the stores; a plan becomes approved only by the user, or by a
  repair inside the approved scope; a task is completed on evidence.
\<close>

subsection \<open>Stores and agent state in step\<close>

definition plan_in_step :: "plan_store \<Rightarrow> active_plan option \<Rightarrow> bool" where
  "plan_in_step st ap \<longleftrightarrow> plans_ok st \<and>
     (\<forall>p. ap = Some p \<longrightarrow> ap_approved p \<longrightarrow>
        (\<exists>a. st_lastApproved st = Some a \<and> pl_planId (plan_at st a) = ap_planId p \<and> pl_version (plan_at st a) = ap_version p))"

definition in_step :: "plan_services \<Rightarrow> agent_state \<Rightarrow> bool" where
  "in_step sv s \<longleftrightarrow>
     (case sv_tasks sv of None \<Rightarrow> True | Some ts \<Rightarrow> graph_ok ts \<and> ag_tasks s = map snd ts) \<and>
     (case sv_plans sv of None \<Rightarrow> True | Some st \<Rightarrow> plan_in_step st (ag_activePlan s))"

definition put_task :: "plan_task \<Rightarrow> plan_task list \<Rightarrow> plan_task list" where
  "put_task t us =
     (if list_ex (\<lambda>u. tk_id u = tk_id t) us then map (\<lambda>u. if tk_id u = tk_id t then t else u) us else us @ [t])"

lemma put_task_map:
  assumes "distinct (obj_keys ts)" "\<And>k u. (k, u) \<in> set ts \<Longrightarrow> tk_id u = k"
  shows "map snd (obj_set ts (tk_id t) t) = put_task t (map snd ts)"
  using assms
proof (induction ts)
  case (Cons x ts)
  obtain k u where x: "x = (k, u)" by force
  have ids: "tk_id u = k" "\<And>j v. (j, v) \<in> set ts \<Longrightarrow> tk_id v = j"
    using Cons.prems(2) x by (meson list.set_intros)+
  show ?case
  proof (cases "k = tk_id t")
    case True
    have "tk_id v \<noteq> tk_id t" if v: "v \<in> snd ` set ts" for v
    proof -
      obtain j where j: "(j, v) \<in> set ts" using v by auto
      have "k \<notin> fst ` set ts" using Cons.prems(1) x by (simp add: obj_keys_def)
      then have "j \<noteq> k" using j by (metis fst_conv image_eqI)
      then show ?thesis using ids(2) [OF j] True by simp
    qed
    then have "map (\<lambda>u. if tk_id u = tk_id t then t else u) (map snd ts) = map snd ts"
      by (intro map_idI) auto
    then show ?thesis using True x ids(1) by (simp add: put_task_def)
  next
    case False
    then have "map snd (obj_set ts (tk_id t) t) = put_task t (map snd ts)"
      using Cons.prems(1) ids(2) x by (intro Cons.IH) (auto simp: obj_keys_def)
    then show ?thesis using False x ids(1) by (auto simp: put_task_def)
  qed
qed (simp add: put_task_def)

lemma graph_ids: "graph_ok ts \<Longrightarrow> (k, u) \<in> set ts \<Longrightarrow> tk_id u = k"
  using pair_get graph_okD(1, 3) by metis

lemma graph_distinct_ids: "graph_ok ts \<Longrightarrow> distinct (map tk_id (map snd ts))"
proof -
  assume ok: "graph_ok ts"
  have "map tk_id (map snd ts) = obj_keys ts" using graph_ids [OF ok] by (auto simp: obj_keys_def)
  then show ?thesis using graph_okD(1) [OF ok] by simp
qed

lemma reduce_task_put: "ag_tasks (reduce_task s t) = put_task t (ag_tasks s)"
  by (simp add: reduce_task_def put_task_def bump_progress_def)

lemma reduce_task_frame:
  "ag_activePlan (reduce_task s t) = ag_activePlan s" "ag_mode (reduce_task s t) = ag_mode s"
  "rs_replanning (ag_recovery (reduce_task s t)) = rs_replanning (ag_recovery s)"
  "rs_replanAwaitingApproval (ag_recovery (reduce_task s t)) = rs_replanAwaitingApproval (ag_recovery s)"
  by (simp_all add: reduce_task_def bump_progress_def)

lemma apply_tasks:
  "\<exists>s'. applyFacts H s (map Task_changed ts) = Inr s' \<and> ag_tasks s' = fold put_task ts (ag_tasks s) \<and>
     ag_activePlan s' = ag_activePlan s \<and> rs_replanning (ag_recovery s') = rs_replanning (ag_recovery s) \<and>
     rs_replanAwaitingApproval (ag_recovery s') = rs_replanAwaitingApproval (ag_recovery s)"
proof (induction ts arbitrary: s)
  case (Cons t ts)
  show ?case using Cons.IH [of "reduce_task s t"] by (simp add: reduce_task_put reduce_task_frame)
qed simp

lemma put_each:
  assumes "distinct (map tk_id us)" "set qs \<subseteq> set us" "\<And>u. tk_id (f u) = tk_id u"
  shows "fold put_task (map f qs) us = map (\<lambda>u. if u \<in> set qs then f u else u) us"
  using assms(2)
proof (induction qs rule: rev_induct)
  case (snoc q qs)
  let ?g = "\<lambda>u. if u \<in> set qs then f u else u"
  have ids: "tk_id (?g u) = tk_id u" for u using assms(3) by simp
  have same: "tk_id u = tk_id q \<longleftrightarrow> u = q" if "u \<in> set us" for u
    using assms(1) that snoc.prems by (auto simp: distinct_map dest: inj_onD)
  have "list_ex (\<lambda>u. tk_id u = tk_id (f q)) (map ?g us)"
    unfolding list_ex_iff using snoc.prems assms(3) ids by (intro bexI [of _ "?g q"]) auto
  then have "put_task (f q) (map ?g us) = map (\<lambda>u. if u = q then f q else ?g u) us"
    using same ids assms(3) by (auto simp: put_task_def)
  then show ?case using snoc by (auto intro!: map_cong)
qed simp

lemma put_migrated:
  assumes "graph_ok ts"
  shows "fold put_task (fst (migratePlanVersion p v w sid now ts)) (map snd ts) = map snd (snd (migratePlanVersion p v w sid now ts))"
proof -
  have "fold put_task (map (migrated_task w sid now) (filter (migrates p v) (map snd ts))) (map snd ts) =
      map (\<lambda>u. if u \<in> set (filter (migrates p v) (map snd ts)) then migrated_task w sid now u else u) (map snd ts)"
    by (rule put_each [OF graph_distinct_ids [OF assms]]) (auto simp: migrated_task_def Let_def)
  then show ?thesis by (auto simp: migratePlanVersion_def intro!: map_cong)
qed

subsection \<open>Every call keeps them in step\<close>

lemma in_step_tasks: "in_step sv s \<Longrightarrow> sv_tasks sv = Some ts \<Longrightarrow> graph_ok ts \<and> ag_tasks s = map snd ts"
  by (simp add: in_step_def)

lemma in_step_plans: "in_step sv s \<Longrightarrow> sv_plans sv = Some st \<Longrightarrow> plan_in_step st (ag_activePlan s)"
  by (simp add: in_step_def)

lemma in_step_same:
  "in_step sv s \<Longrightarrow> sv_tasks sv' = sv_tasks sv \<Longrightarrow> ag_tasks s' = ag_tasks s \<Longrightarrow>
   (\<And>st. sv_plans sv' = Some st \<Longrightarrow> plan_in_step st (ag_activePlan s')) \<Longrightarrow> in_step sv' s'"
  by (simp add: in_step_def split: option.splits)

lemma plan_in_stepI:
  "plans_ok st \<Longrightarrow> (ap_approved p \<Longrightarrow> \<exists>a. st_lastApproved st = Some a \<and> pl_planId (plan_at st a) = ap_planId p \<and> pl_version (plan_at st a) = ap_version p) \<Longrightarrow>
   plan_in_step st (Some p)"
  by (simp add: plan_in_step_def)

lemma task_result_step:
  assumes "in_step sv s" "sv_tasks sv = Some ts" "task_result sv r = (Inr out, sv')"
    and "\<And>t ts'. r = Inr (t, ts') \<Longrightarrow> graph_ok ts' \<and> ts' = obj_set ts (tk_id t) t"
  shows "\<exists>s'. applyFacts H s (or_else (xr_facts out) []) = Inr s' \<and> in_step sv' s'"
proof (cases r)
  case (Inl e)
  then show ?thesis using assms(1, 3) by (auto simp: task_result_def plain_result_def)
next
  case (Inr p)
  obtain t ts' where p: "p = (t, ts')" by force
  have ok: "graph_ok ts" "ag_tasks s = map snd ts" using in_step_tasks [OF assms(1, 2)] by auto
  have "map snd (obj_set ts (tk_id t) t) = put_task t (map snd ts)"
    by (rule put_task_map) (use graph_okD(1) [OF ok(1)] graph_ids [OF ok(1)] in auto)
  then show ?thesis using assms Inr p ok
    by (auto simp: task_result_def plain_result_def in_step_def reduce_task_put reduce_task_frame split: option.splits)
qed

lemma create_obj: "create_task tid c u i ts = Inr (t, ts') \<Longrightarrow> ts' = obj_set ts (tk_id t) t"
  by (auto simp: create_task_def Let_def split: if_splits)

lemma patched_id: "tk_id (patched t p now) = tk_id t"
  by (simp add: patched_def)

lemma created_tail:
  "last (st_heap (createVersion n now i st)) = drafted (or_else (cv_planId i) n) (length (versions_of st (or_else (cv_planId i) n))) i now"
  by (simp add: createVersion_def Let_def)

lemma propose_step:
  assumes "in_step sv s" "propose_execute C i sv = (Inr out, sv')"
  shows "\<exists>s'. applyFacts H s (or_else (xr_facts out) []) = Inr s' \<and> in_step sv' s'"
proof -
  obtain st where st: "sv_plans sv = Some st" using assms(2) by (auto simp: propose_execute_def split: option.splits)
  have ok: "plans_ok (createVersion (ch_newId C) (ch_now C) i st)"
    using createVersion_ok(1) in_step_plans [OF assms(1) st] by (simp add: plan_in_step_def)
  show ?thesis using assms st ok
    by (auto simp: propose_execute_def Let_def plain_result_def in_step_def reduce_plan_created_def bump_progress_def created_tail drafted_def
        intro!: plan_in_stepI split: option.splits)
qed

text \<open>The engine opens the gate for local repairs only in a low-impact replan (AgentEngine.ts:165-169).\<close>

definition repair_gate_ok :: "plan_channels \<Rightarrow> agent_state \<Rightarrow> bool" where
  "repair_gate_ok C s \<longleftrightarrow>
     (ch_canRepair C = Some True \<longrightarrow> rs_replanning (ag_recovery s) \<and> \<not> rs_replanAwaitingApproval (ag_recovery s))"

lemma repair_executed:
  assumes "plans_ok st" "sv_plans sv = Some st" "repair_execute C i sv = (Inr out, sv')"
  obtains a st' p m where "get_plan st (li_planId i) (li_version i) = Some a" "st_lastApproved st = Some a"
    "createLocalRepair (ch_now C) (ch_later C) i st = Inr st'" "p = last (st_heap st')"
    "plans_ok st'" "sv_plans sv' = Some st'" "sv_approvals sv' = sv_approvals sv" "st_lastApproved st' = Some (length (st_heap st))"
    "plan_at st' (length (st_heap st)) = p" "pl_status p = Approved"
    "m = (case sv_tasks sv of None \<Rightarrow> ([], []) | Some ts \<Rightarrow> migratePlanVersion (li_planId i) (li_version i) (pl_version p) (li_stepId i) (ch_later C) ts)"
    "sv_tasks sv' = map_option (\<lambda>ts. snd m) (sv_tasks sv)"
    "out = repair_output i (plan_at st' a) p (fst m)"
proof -
  obtain st' a where st': "createLocalRepair (ch_now C) (ch_later C) i st = Inr st'" "get_plan st (li_planId i) (li_version i) = Some a"
    using assms(2, 3) by (auto simp: repair_execute_def Let_def split: sum.splits option.splits)
  obtain b j where b: "mustGet st (li_planId i) (li_version i) = Inr b" "st_lastApproved st = Some b"
    "st' = install_repair b (repaired_plan (plan_at st b) (length (versions_of st (li_planId i))) j i (ch_now C) (ch_later C)) (li_planId i) st"
    by (rule repair_success [OF st'(1)])
  have "b = a" using mustGet_Inr [OF b(1)] st'(2) by simp
  then show ?thesis using that [of a st' "last (st_heap st')" "case sv_tasks sv of None \<Rightarrow> ([], [])
      | Some ts \<Rightarrow> migratePlanVersion (li_planId i) (li_version i) (pl_version (last (st_heap st'))) (li_stepId i) (ch_later C) ts"] assms st' b repair_ok [OF assms(1) st'(1)]
    by (auto simp: repair_execute_def Let_def install_repair_def plan_at_def nth_append repaired_plan_def split: option.splits)
qed

lemma adjusted:
  assumes "rs_replanning (ag_recovery s)" "\<not> rs_replanAwaitingApproval (ag_recovery s)"
  shows "\<exists>s'. reduce H s (Replan_adjustment_applied c t) = Inr s' \<and> ag_tasks s' = ag_tasks s \<and> ag_activePlan s' = ag_activePlan s \<and>
    \<not> rs_replanning (ag_recovery s')"
  using assms by (simp add: reduce_adjustment_def)

lemma repair_facts_reduce:
  assumes "rs_replanning (ag_recovery s)" "\<not> rs_replanAwaitingApproval (ag_recovery s)" "pl_status p = Approved"
  shows "\<exists>s'. applyFacts H s (or_else (xr_facts (repair_output i previous p ts)) []) = Inr s' \<and>
    ag_tasks s' = fold put_task ts (ag_tasks s) \<and> \<not> rs_replanning (ag_recovery s') \<and>
    ag_activePlan s' = Some \<lparr>ap_planId = pl_planId p, ap_version = pl_version p, ap_approved = True\<rparr>"
proof -
  define s1 where "s1 = reduce_plan_created (reduce_plan_status s (pl_planId previous) (pl_version previous)) p"
  have s1: "ag_tasks s1 = ag_tasks s" "rs_replanning (ag_recovery s1)" "\<not> rs_replanAwaitingApproval (ag_recovery s1)"
    "ag_activePlan s1 = Some \<lparr>ap_planId = pl_planId p, ap_version = pl_version p, ap_approved = True\<rparr>"
    using assms by (simp_all add: s1_def reduce_plan_created_def reduce_plan_status_def bump_progress_def)
  obtain s2 where s2: "applyFacts H s1 (map Task_changed ts) = Inr s2" "ag_tasks s2 = fold put_task ts (ag_tasks s)"
    "ag_activePlan s2 = ag_activePlan s1" "rs_replanning (ag_recovery s2)" "\<not> rs_replanAwaitingApproval (ag_recovery s2)"
    using apply_tasks [of H s1 ts] s1 by auto
  obtain s3 where "reduce H s2 (Replan_adjustment_applied ''local_step_repair''
      (''replaced step '' @ li_stepId i @ '' in '' @ li_planId i @ ''@'' @ show_num (li_version i))) = Inr s3"
    "ag_tasks s3 = ag_tasks s2" "ag_activePlan s3 = ag_activePlan s2" "\<not> rs_replanning (ag_recovery s3)"
    using adjusted [OF s2(4, 5)] by blast
  then show ?thesis using s1 s2 by (simp add: repair_output_def applyFacts_append flip: s1_def)
qed

lemma repair_step:
  assumes "in_step sv s" "repair_gate_ok C s" "ch_canRepair C = Some True" "repair_execute C i sv = (Inr out, sv')"
  shows "\<exists>s'. applyFacts H s (or_else (xr_facts out) []) = Inr s' \<and> in_step sv' s' \<and> \<not> rs_replanning (ag_recovery s')"
proof -
  obtain st where st: "sv_plans sv = Some st" using assms(4) by (auto simp: repair_execute_def split: option.splits)
  have ok: "plans_ok st" using in_step_plans [OF assms(1) st] by (simp add: plan_in_step_def)
  obtain a st' p m where r: "plans_ok st'" "sv_plans sv' = Some st'" "st_lastApproved st' = Some (length (st_heap st))"
    "plan_at st' (length (st_heap st)) = p" "pl_status p = Approved"
    "m = (case sv_tasks sv of None \<Rightarrow> ([], []) | Some ts \<Rightarrow> migratePlanVersion (li_planId i) (li_version i) (pl_version p) (li_stepId i) (ch_later C) ts)"
    "sv_tasks sv' = map_option (\<lambda>ts. snd m) (sv_tasks sv)" "out = repair_output i (plan_at st' a) p (fst m)"
    by (rule repair_executed [OF ok st assms(4)])
  obtain s' where s': "applyFacts H s (or_else (xr_facts out) []) = Inr s'" "ag_tasks s' = fold put_task (fst m) (ag_tasks s)"
    "\<not> rs_replanning (ag_recovery s')" "ag_activePlan s' = Some \<lparr>ap_planId = pl_planId p, ap_version = pl_version p, ap_approved = True\<rparr>"
    using repair_facts_reduce [of s p H i "plan_at st' a" "fst m"] assms(2, 3) r(5, 8) by (auto simp: repair_gate_ok_def)
  have "graph_ok (snd m) \<and> ag_tasks s' = map snd (snd m)" if ts: "sv_tasks sv = Some ts" for ts
    using in_step_tasks [OF assms(1) ts] ts r(6) s'(2) put_migrated migrate_ok by simp
  then have "in_step sv' s'"
    using r s'(4) by (auto simp: in_step_def intro!: plan_in_stepI split: option.splits)
  then show ?thesis using s' by blast
qed

text \<open>The plan store when ExitPlanMode has made the version await its approval.\<close>

lemma exit_waits:
  assumes "plans_ok st" "get_plan st p v = Some a"
    "(if pl_status (plan_at st a) = Draft then markAwaitingApproval p v st else Inr st) = Inr st1"
  shows "plans_ok st1 \<and> evolves st st1 \<and> st_lastApproved st1 = st_lastApproved st"
  using assms awaiting_ok [OF assms(1)] by (auto simp: markAwaitingApproval_def bind_res_Inr_iff split: if_splits)

lemma approve_executed:
  assumes "plans_ok st" "approve_plan C i cx st reg sv = (r, sv')" "sv_plans sv = Some st"
  shows "(r = Inl Other_error \<or> (\<exists>reason. r = Inr (not_approved reason))) \<and> sv_plans sv' = Some st \<and> sv_tasks sv' = sv_tasks sv \<or>
    (\<exists>st' a. r = Inr (approved_output C i cx (plan_at st' a)) \<and> sv_plans sv' = Some st' \<and> sv_tasks sv' = sv_tasks sv \<and>
       plans_ok st' \<and> evolves st st' \<and> get_plan st (pv_planId i) (pv_version i) = Some a \<and> st_lastApproved st' = Some a \<and>
       get_plan st' (pv_planId i) (pv_version i) = Some a \<and> pl_status (plan_at st' a) = Approved \<and>
       (\<forall>b. b \<noteq> a \<longrightarrow> plan_at st' b = plan_at st b) \<and> pl_approvalTokenId (plan_at st' a) = Some (ch_token C) \<and>
       (\<exists>t. Option.bind (sv_approvals sv') (\<lambda>reg. obj_get reg (ch_token C)) = Some t \<and> at_consumedAt t \<noteq> None \<and>
          at_sessionId t = cx_sessionId cx \<and> at_planId t = pv_planId i \<and> at_planVersion t = pv_version i))"
proof -
  let ?issued = "issue (ch_dates C) (ch_ttl C) (ch_token C) (ch_issuedAt C) (cx_sessionId cx) (pv_planId i) (pv_version i) reg"
  obtain c reg' where c: "consume (ch_dates C) (ch_token C) (ch_consumedAt C) (cx_sessionId cx) (pv_planId i) (pv_version i) ?issued = (c, reg')" by force
  show ?thesis
  proof (cases c)
    case (Inl e)
    then show ?thesis using assms(2, 3) c by (auto simp: approve_plan_def Let_def)
  next
    case (Inr t)
    from c [unfolded Inr] have tok: "\<exists>t. obj_get reg' (ch_token C) = Some t \<and> at_consumedAt t \<noteq> None \<and>
        at_sessionId t = cx_sessionId cx \<and> at_planId t = pv_planId i \<and> at_planVersion t = pv_version i"
      by (rule consume_ok) auto
    show ?thesis
    proof (cases "markApproved (ch_later C) (pv_planId i) (pv_version i) (ch_token C) st")
      case (Inl e)
      then show ?thesis using assms(2, 3) c Inr by (auto simp: approve_plan_def Let_def)
    next
      case st': (Inr st')
      obtain a where a: "mustGet st (pv_planId i) (pv_version i) = Inr a"
        "st' = (with_plan a (\<lambda>q. q\<lparr>pl_status := Approved, pl_approvedAt := Some (ch_later C),
          pl_approvalTokenId := Some (ch_token C)\<rparr>) st)\<lparr>st_lastApproved := Some a\<rparr>"
        using st' by (auto simp: markApproved_def bind_res_Inr_iff)
      have ok: "plans_ok st'" "evolves st st'" using approved_ok [OF assms(1) st'] by auto
      have get: "get_plan st (pv_planId i) (pv_version i) = Some a" using mustGet_Inr [OF a(1)] by simp
      have lt: "a < length (st_heap st)" and get': "get_plan st' (pv_planId i) (pv_version i) = Some a"
        using get_plan_stable [OF assms(1) ok(2) get] by auto
      have "pl_status (plan_at st' a) = Approved" "pl_approvalTokenId (plan_at st' a) = Some (ch_token C)"
        "\<And>b. b \<noteq> a \<Longrightarrow> plan_at st' b = plan_at st b" using a(2) lt by (simp_all)
      moreover have "r = Inr (approved_output C i cx (plan_at st' a)) \<and> sv' = sv\<lparr>sv_approvals := Some reg', sv_plans := Some st'\<rparr>"
        using assms(2) c Inr st' get' by (simp add: approve_plan_def Let_def)
      ultimately show ?thesis using ok get get' tok a(2) by auto
    qed
  qed
qed

lemma approval_facts_reduce:
  assumes "pl_planId p = pv_planId i" "pl_version p = pv_version i"
  shows "\<exists>s'. applyFacts H s (or_else (xr_facts (approved_output C i cx p)) []) = Inr s' \<and> ag_tasks s' = ag_tasks s \<and>
    ag_activePlan s' = Some \<lparr>ap_planId = pv_planId i, ap_version = pv_version i, ap_approved = True\<rparr> \<and>
    \<not> rs_replanning (ag_recovery s') \<and> (cx_mode cx = Plan_mode \<and> ag_prePlanMode s \<noteq> Some Plan_mode \<longrightarrow> ag_mode s' \<noteq> Plan_mode)"
  using assms
  by (auto simp: approved_output_def plain_result_def reduce_plan_created_def bump_progress_def reduce_plan_approved_def plan_is_def
      set_approved_def reduce_mode_def Let_def split: option.splits)

lemma evolved_fields:
  assumes "evolves st st'" "a < length (st_heap st)"
  shows "plan_content (plan_at st' a) = plan_content (plan_at st a)" "pl_planId (plan_at st' a) = pl_planId (plan_at st a)"
    "pl_version (plan_at st' a) = pl_version (plan_at st a)"
proof -
  show same: "plan_content (plan_at st' a) = plan_content (plan_at st a)"
    using assms by (simp add: evolves_def heap_evolves_def plan_evolves_def plan_at_def)
  show "pl_planId (plan_at st' a) = pl_planId (plan_at st a)" "pl_version (plan_at st' a) = pl_version (plan_at st a)"
    using content_fields [OF same] by auto
qed

lemma plan_in_step_evolves:
  assumes "plan_in_step st ap" "plans_ok st'" "evolves st st'" "st_lastApproved st' = st_lastApproved st"
  shows "plan_in_step st' ap"
  using assms evolved_fields [OF assms(3)] plans_okD(3) [of st] by (auto simp: plan_in_step_def)

lemma exit_executed:
  assumes "plans_ok st" "sv_plans sv = Some st" "exit_execute C i cx sv = (r, sv')"
  obtains "r = Inl Other_error" "sv' = sv"
  | a st1 where "get_plan st (pv_planId i) (pv_version i) = Some a" "plans_ok st1" "evolves st st1" "st_lastApproved st1 = st_lastApproved st"
    "(\<exists>reason. r = Inr (not_approved reason)) \<and> sv' = sv\<lparr>sv_plans := Some st1\<rparr> \<or>
     (\<exists>user reg. ch_requestApproval C = Some user \<and> user (plan_at st1 a) \<and> approve_plan C i cx st1 reg (sv\<lparr>sv_plans := Some st1\<rparr>) = (r, sv'))"
proof (cases "get_plan st (pv_planId i) (pv_version i)")
  case None
  then show ?thesis using assms that(1) by (auto simp: exit_execute_def)
next
  case (Some a)
  show ?thesis
  proof (cases "if pl_status (plan_at st a) = Draft then markAwaitingApproval (pv_planId i) (pv_version i) st else Inr st")
    case (Inl e)
    then show ?thesis using assms that(1) Some by (auto simp: exit_execute_def)
  next
    case (Inr st1)
    then have "(\<exists>reason. r = Inr (not_approved reason)) \<and> sv' = sv\<lparr>sv_plans := Some st1\<rparr> \<or>
        (\<exists>user reg. ch_requestApproval C = Some user \<and> user (plan_at st1 a) \<and> approve_plan C i cx st1 reg (sv\<lparr>sv_plans := Some st1\<rparr>) = (r, sv'))"
      using assms(2, 3) Some by (simp add: exit_execute_def Let_def split: option.splits if_splits) blast+
    then show ?thesis using that(2) [OF Some] exit_waits [OF assms(1) Some Inr] by blast
  qed
qed

lemma exit_step:
  assumes "in_step sv s" "exit_execute C i cx sv = (Inr out, sv')"
  shows "\<exists>s'. applyFacts H s (or_else (xr_facts out) []) = Inr s' \<and> in_step sv' s'"
proof -
  obtain st where st: "sv_plans sv = Some st" using assms(2) by (auto simp: exit_execute_def split: option.splits)
  have before: "plan_in_step st (ag_activePlan s)" by (rule in_step_plans [OF assms(1) st])
  then have ok: "plans_ok st" by (simp add: plan_in_step_def)
  from exit_executed [OF ok st assms(2)] show ?thesis
  proof cases
    case (2 a st1)
    note waits = plan_in_step_evolves [OF before 2(2, 3, 4)]
    have refused: "in_step sv' s" if "sv_plans sv' = Some st1" "sv_tasks sv' = sv_tasks sv"
      using that waits assms(1) by (simp add: in_step_def)
    from 2(5) show ?thesis
    proof (elim disjE exE conjE)
      fix reason assume "Inr out = Inr (not_approved reason)" "sv' = sv\<lparr>sv_plans := Some st1\<rparr>"
      then show ?thesis using refused by (simp add: not_approved_def plain_result_def)
    next
      fix user reg
      assume run: "approve_plan C i cx st1 reg (sv\<lparr>sv_plans := Some st1\<rparr>) = (Inr out, sv')"
      have plans: "sv_plans (sv\<lparr>sv_plans := Some st1\<rparr>) = Some st1" by simp
      from approve_executed [OF 2(2) run plans] show ?thesis
      proof (elim disjE, goal_cases)
        case 1
        then show ?case using refused by (auto simp: not_approved_def plain_result_def)
      next
        case 2
        then obtain st' b where b: "out = approved_output C i cx (plan_at st' b)" "sv_plans sv' = Some st'" "sv_tasks sv' = sv_tasks sv"
          "plans_ok st'" "st_lastApproved st' = Some b" "get_plan st' (pv_planId i) (pv_version i) = Some b" by auto
        have fields: "pl_planId (plan_at st' b) = pv_planId i" "pl_version (plan_at st' b) = pv_version i"
          using get_plan_stable(3, 4) [OF b(4) evolves_refl b(6)] .
        from approval_facts_reduce [OF fields, of H s C cx] obtain s' where s':
          "applyFacts H s (or_else (xr_facts out) []) = Inr s'" "ag_tasks s' = ag_tasks s"
          "ag_activePlan s' = Some \<lparr>ap_planId = pv_planId i, ap_version = pv_version i, ap_approved = True\<rparr>"
          using b(1) by auto
        have "in_step sv' s'"
          by (rule in_step_same [OF assms(1)]) (use b fields s' in \<open>auto intro!: plan_in_stepI\<close>)
        then show ?case using s'(1) by blast
      qed
    qed
  qed simp
qed


text \<open>C16: A plan becomes the active approved one only by the user or inside what the user approved. When a
  call changes which plan is the last approved one, it is an ExitPlanMode whose user said yes to that
  very version, whatever the model asked, with a token issued for this session, plan and version
  and consumed; or a PlanRepair while the engine waits for one, of the plan that was active, with the
  same goal and criteria and no file outside the approved ones.\<close>

theorem approval_is_the_users:
  assumes "run_planning C call cx sv = Some (r, sv')" "sv_plans sv = Some st" "plans_ok st"
    and "sv_plans sv' = Some st'" "st_lastApproved st' = Some b" "st_lastApproved st \<noteq> Some b"
  shows "(\<exists>i user p t. call = Exit_call i \<and> ch_requestApproval C = Some user \<and> user p \<and> plan_content p = plan_content (plan_at st' b) \<and>
        pl_planId p = pv_planId i \<and> pl_version p = pv_version i \<and>
        Option.bind (sv_approvals sv') (\<lambda>reg. obj_get reg (ch_token C)) = Some t \<and> at_consumedAt t \<noteq> None \<and>
        at_sessionId t = cx_sessionId cx \<and> at_planId t = pv_planId i \<and> at_planVersion t = pv_version i) \<or>
     (\<exists>i a. call = Repair_call i \<and> ch_canRepair C = Some True \<and> st_lastApproved st = Some a \<and>
        pl_goal (plan_at st' b) = pl_goal (plan_at st a) \<and>
        pl_acceptanceCriteria (plan_at st' b) = pl_acceptanceCriteria (plan_at st a) \<and>
        set (plan_files (plan_at st' b)) \<subseteq> set (plan_files (plan_at st a)))"
proof (cases call)
  case (Repair_call i)
  have gate: "ch_canRepair C = Some True"
    using assms(1) Repair_call by (cases "ch_canRepair C") (auto simp: run_planning_def repair_validate_def split: if_splits)
  have run: "repair_execute C i sv = (r, sv')" using assms(1) Repair_call by (auto simp: run_planning_def split: if_splits)
  show ?thesis
  proof (cases "createLocalRepair (ch_now C) (ch_later C) i st")
    case (Inl e)
    then show ?thesis using run assms(2, 4-6) by (auto simp: repair_execute_def)
  next
    case (Inr st2)
    have "st2 = st'" using run assms(2, 4) Inr by (auto simp: repair_execute_def Let_def split: option.splits)
    with Inr have rep: "createLocalRepair (ch_now C) (ch_later C) i st = Inr st'" by simp
    obtain a j where a: "st_lastApproved st = Some a" "j < length (pl_steps (plan_at st a))"
      "\<forall>f \<in> set (or_else (rr_files (li_replacement i)) (ps_files (pl_steps (plan_at st a) ! j))). f \<in> set (plan_files (plan_at st a))"
      "st' = install_repair a (repaired_plan (plan_at st a) (length (versions_of st (li_planId i))) j i (ch_now C) (ch_later C)) (li_planId i) st"
      by (rule repair_success [OF rep])
    have new: "plan_at st' b = repaired_plan (plan_at st a) (length (versions_of st (li_planId i))) j i (ch_now C) (ch_later C)"
      using a(4) assms(5) by (auto simp: install_repair_def Let_def plan_at_def nth_append)
    then show ?thesis using Repair_call gate a(1) repaired_files [OF a(2, 3)] by (auto simp: repaired_plan_def)
  qed
next
  case (Exit_call i)
  have run: "exit_execute C i cx sv = (r, sv')" using assms(1) Exit_call by (auto simp: run_planning_def split: if_splits)
  from exit_executed [OF assms(3, 2) run] show ?thesis
  proof cases
    case 1
    then show ?thesis using assms(2, 4-6) by simp
  next
    case (2 a st1)
    show ?thesis
    proof (cases "\<exists>reason. r = Inr (not_approved reason) \<and> sv' = sv\<lparr>sv_plans := Some st1\<rparr>")
      case True
      then show ?thesis using 2(4) assms(4-6) by auto
    next
      case False
      then obtain user reg where u: "ch_requestApproval C = Some user" "user (plan_at st1 a)"
        and app: "approve_plan C i cx st1 reg (sv\<lparr>sv_plans := Some st1\<rparr>) = (r, sv')" using 2(5) by blast
      have plans: "sv_plans (sv\<lparr>sv_plans := Some st1\<rparr>) = Some st1" by simp
      have get1: "get_plan st1 (pv_planId i) (pv_version i) = Some a" by (rule get_plan_stable(1) [OF assms(3) 2(3, 1)])
      note fields = get_plan_stable(3-5) [OF 2(2) evolves_refl get1]
      from approve_executed [OF 2(2) app plans] show ?thesis
      proof (elim disjE, goal_cases)
        case 1
        then show ?case using 2(4) assms(4-6) by auto
      next
        case 2
        then obtain t where t: "evolves st1 st'" "b = a" "Option.bind (sv_approvals sv') (\<lambda>reg. obj_get reg (ch_token C)) = Some t"
          "at_consumedAt t \<noteq> None" "at_sessionId t = cx_sessionId cx" "at_planId t = pv_planId i" "at_planVersion t = pv_version i"
          using assms(4, 5) get1 by auto
        have "plan_content (plan_at st1 a) = plan_content (plan_at st' b)" using evolved_fields(1) [OF t(1) fields(3)] t(2) by simp
        then show ?case using Exit_call u t fields(1, 2) by blast
      qed
    qed
  qed
next
  case (Create_call i)
  then show ?thesis using assms
    by (auto simp: run_planning_def create_execute_def task_result_def split: if_splits option.splits sum.splits)
next
  case (Update_call i)
  then show ?thesis using assms
    by (auto simp: run_planning_def update_execute_def task_result_def split: if_splits option.splits sum.splits)
next
  case (Propose_call i)
  have "st_lastApproved (createVersion n now i st) = st_lastApproved st" for n now
  proof -
    have "st_lastApproved (fold supersede_open l st) = st_lastApproved st" for l by (induction l arbitrary: st) simp_all
    then show ?thesis by (simp add: createVersion_def Let_def)
  qed
  then show ?thesis using assms Propose_call by (auto simp: run_planning_def propose_execute_def Let_def split: if_splits)
qed (use assms in \<open>auto simp: run_planning_def split: if_splits\<close>)

text \<open>C37: Two repairs in one batch of calls end the run. The engine opens the gate for local repairs at the
  top of a round only, so it is still open when a second PlanRepair of the same batch names the
  version that the first one made. That call succeeds, and the reducer then refuses its last fact: the
  replan was closed by the first repair, and an invariant error leaves the loop.\<close>

theorem second_repair_is_fatal:
  assumes "in_step sv s" "repair_gate_ok C s" "run_planning C (Repair_call i) cx sv = Some (Inr out, sv1)"
    and "applyFacts H s (or_else (xr_facts out) []) = Inr s1"
    and "run_planning C' (Repair_call j) cx' sv1 = Some (Inr out', sv2)"
  shows "applyFacts H s1 (or_else (xr_facts out') []) = Inl (InvariantError ''replan_adjustment_without_request'')"
proof -
  have gate: "ch_canRepair C = Some True"
    using assms(3) by (cases "ch_canRepair C") (auto simp: run_planning_def repair_validate_def split: if_splits)
  have run: "repair_execute C i sv = (Inr out, sv1)" "repair_execute C' j sv1 = (Inr out', sv2)"
    using assms(3, 5) by (auto simp: run_planning_def split: if_splits)
  from repair_step [OF assms(1, 2) gate run(1), of H] assms(4) have closed: "in_step sv1 s1" "\<not> rs_replanning (ag_recovery s1)" by auto
  obtain st where st: "sv_plans sv1 = Some st" using run(2) by (auto simp: repair_execute_def split: option.splits)
  have ok: "plans_ok st" using in_step_plans [OF closed(1) st] by (simp add: plan_in_step_def)
  have "\<exists>previous p ts. out' = repair_output j previous p ts"
    by (rule repair_executed [OF ok st run(2)]) blast
  then obtain previous p ts where out': "out' = repair_output j previous p ts" by blast
  define s2 where "s2 = reduce_plan_created (reduce_plan_status s1 (pl_planId previous) (pl_version previous)) p"
  have "\<not> rs_replanning (ag_recovery s2)"
    using closed(2) by (simp add: s2_def reduce_plan_created_def reduce_plan_status_def bump_progress_def)
  moreover obtain s3 where "applyFacts H s2 (map Task_changed ts) = Inr s3" "rs_replanning (ag_recovery s3) = rs_replanning (ag_recovery s2)"
    using apply_tasks [of H s2 ts] by blast
  ultimately show ?thesis by (simp add: out' repair_output_def applyFacts_append reduce_adjustment_def flip: s2_def)
qed

text \<open>C18: A task is completed on evidence. When TaskUpdate completes a task, every required criterion of the
  approved plan that the task names after the update is supported by a receipt of the runtime's
  store: passed, signed, of the right kind and workspace, and not stale.\<close>

theorem completion_needs_evidence:
  assumes "run_planning C (Update_call i) cx sv = Some (Inr out, sv')" "xr_facts out = Some fs"
    and "sv_tasks sv = Some ts" "obj_get ts (ut_id i) = Some t" "tk_status t \<noteq> Completed" "tp_status (ut_patch i) = Some Completed"
    and "approved_version sv = Some p" "c \<in> set (pl_acceptanceCriteria p)" "ac_required c"
    and "ac_id c \<in> set (or_else (tp_acceptanceCriteria (ut_patch i)) (tk_acceptanceCriteria t))"
  shows "\<exists>es r. sv_evidence sv = Some es \<and> r \<in> set (es_list es) \<and> er_status r = Receipt_passed \<and> verifySha256 (ch_host C) r \<and>
    er_kind r = ac_evidenceKind c \<and> ac_id c \<in> set (er_criterionIds r) \<and> er_id r \<notin> set (findStaleReceipts (ch_files C) es)"
proof -
  have "task_result sv (update_task (ch_host C) (ch_now C) i (update_options C sv) ts) = (Inr out, sv')"
    using assms(1, 3) by (auto simp: run_planning_def update_execute_def split: if_splits)
  then obtain u ts' where "update_task (ch_host C) (ch_now C) i (update_options C sv) ts = Inr (u, ts')"
    using assms(2) by (auto simp: task_result_def plain_result_def split: sum.splits)
  from update_success [OF this] assms(4)
  have "transition_problem (ch_host C) ts t (ut_patch i) (update_options C sv) = None" by (metis option.inject)
  then have "complete_problem (ch_host C) t (ut_patch i) (update_options C sv) = None"
    using assms(5, 6) by (auto simp: transition_problem_def split: if_splits)
  then have "\<exists>r \<in> set (to_evidence (update_options C sv)). receiptSupportsCriterion (ch_host C) (to_usability (update_options C sv)) r c"
    using assms(7-10)
    by (auto simp: complete_problem_def requiredCriteriaWithoutUsableEvidence_def filter_empty_conv required_criteria_def update_options_def list_ex_iff
        split: if_splits)
  then show ?thesis
    by (auto simp: update_options_def receiptSupportsCriterion_def receiptIsUsable_def split: option.splits if_splits)
qed

subsection \<open>A session with an approved plan\<close>

definition demo_channels :: plan_channels where
  "demo_channels =
     \<lparr>ch_host = demo_host, ch_dates = demo_dates, ch_ttl = None, ch_files = (\<lambda>p. File_missing), ch_sortTasks = (\<lambda>ts. ts),
      ch_newId = ''n'', ch_now = ''2'', ch_later = ''3'', ch_token = ''tok2'', ch_issuedAt = 5, ch_consumedAt = 6,
      ch_requestApproval = Some (\<lambda>p. True), ch_canRepair = Some True\<rparr>"

definition demo_services :: plan_services where
  "demo_services = \<lparr>sv_plans = Some demo_plans, sv_approvals = Some [], sv_tasks = Some [], sv_evidence = None\<rparr>"

definition demo_replanning :: agent_state where
  "demo_replanning = (createInitialState demo_input)\<lparr>ag_recovery := initialRecovery\<lparr>rs_replanning := True\<rparr>\<rparr>"

definition demo_plan_context :: tool_context where
  "demo_plan_context = \<lparr>cx_sessionId = ''s'', cx_callId = ''c'', cx_workspaceRoot = ''/w'', cx_mode = Plan_mode, cx_artifactDir = ''/d''\<rparr>"

lemma demo_in_step: "in_step demo_services demo_replanning" "repair_gate_ok demo_channels demo_replanning"
  using plans_reachable [OF demo_plans_run] empty_graph_ok
  by (simp_all add: in_step_def plan_in_step_def demo_services_def demo_replanning_def createInitialState_def repair_gate_ok_def initialRecovery_def)

definition planned_ok :: "((tool_exception + execution_result) \<times> plan_services) option \<Rightarrow> bool" where
  "planned_ok r = (case r of Some (Inr out, sv) \<Rightarrow> True | _ \<Rightarrow> False)"

lemma planned_elim:
  assumes "planned_ok r"
  obtains out sv where "r = Some (Inr out, sv)"
  using assms by (auto simp: planned_ok_def split: option.splits prod.splits sum.splits)

definition demo_repaired :: plan_services where
  "demo_repaired = (case run_planning demo_channels (Repair_call demo_repair) demo_plan_context demo_services of Some (r, sv) \<Rightarrow> sv | None \<Rightarrow> demo_services)"

definition demo_second :: local_repair_input where
  "demo_second = demo_repair\<lparr>li_version := 2\<rparr>"

lemma demo_repairs:
  "planned_ok (run_planning demo_channels (Repair_call demo_repair) demo_plan_context demo_services)"
  "planned_ok (run_planning demo_channels (Repair_call demo_second) demo_plan_context demo_repaired)"
  "st_lastApproved (case sv_plans demo_repaired of Some st \<Rightarrow> st | None \<Rightarrow> empty_plans) = Some 1"
  by code_simp+


theorem second_repair_is_fatal_witness:
  "\<exists>(s1 :: agent_state) (out' :: execution_result). applyFacts demo_host s1 (or_else (xr_facts out') []) =
     Inl (InvariantError ''replan_adjustment_without_request'')"
proof -
  obtain out sv where r: "run_planning demo_channels (Repair_call demo_repair) demo_plan_context demo_services = Some (Inr out, sv)"
    using demo_repairs(1) by (rule planned_elim)
  then have sv: "sv = demo_repaired" by (simp add: demo_repaired_def)
  obtain out' sv2 where r2: "run_planning demo_channels (Repair_call demo_second) demo_plan_context sv = Some (Inr out', sv2)"
    using demo_repairs(2) unfolding sv by (rule planned_elim)
  have run: "repair_execute demo_channels demo_repair demo_services = (Inr out, sv)" using r by (auto simp: run_planning_def split: if_splits)
  have "ch_canRepair demo_channels = Some True" by (simp add: demo_channels_def)
  from repair_step [OF demo_in_step this run] obtain s1 where "applyFacts demo_host demo_replanning (or_else (xr_facts out) []) = Inr s1" by blast
  from second_repair_is_fatal [OF demo_in_step r this r2] show ?thesis by blast
qed

theorem approval_is_the_users_witness:
  "\<exists>b. st_lastApproved demo_plans \<noteq> Some b \<and> set (plan_files (plan_at (the (sv_plans demo_repaired)) b)) \<subseteq> {''a.ts''}"
proof -
  obtain out sv where r: "run_planning demo_channels (Repair_call demo_repair) demo_plan_context demo_services = Some (Inr out, sv)"
    using demo_repairs(1) by (rule planned_elim)
  then have sv: "sv = demo_repaired" by (simp add: demo_repaired_def)
  obtain st' where st': "sv_plans sv = Some st'" using demo_repairs(3) unfolding sv by (cases "sv_plans demo_repaired") (auto simp: empty_plans_def)
  have last: "st_lastApproved st' = Some 1" using demo_repairs(3) st' unfolding sv by simp
  have now: "sv_plans demo_services = Some demo_plans" "st_lastApproved demo_plans = Some 0" by (simp_all add: demo_services_def demo_plans_def)
  have "st_lastApproved demo_plans \<noteq> Some 1" using now(2) by simp
  from approval_is_the_users [OF r now(1) plans_reachable [OF demo_plans_run] st' last this]
  have "set (plan_files (plan_at st' 1)) \<subseteq> set (plan_files (plan_at demo_plans 0))" using now(2) by auto
  moreover have "set (plan_files (plan_at demo_plans 0)) = {''a.ts''}" by code_simp
  ultimately show ?thesis using now(2) st' unfolding sv by (intro exI [of _ "1 :: nat"]) simp
qed

text \<open>A task with a criterion of the plan, which a receipt of the store supports.\<close>

definition demo_criterion :: acceptance_criterion where
  "demo_criterion = \<lparr>ac_id = ''ac1'', ac_statement = ''s'', ac_evidenceKind = Test_kind, ac_required = True\<rparr>"

definition demo_evidenced :: plan_services where
  "demo_evidenced =
     \<lparr>sv_plans = Some (demo_plans\<lparr>st_heap := [demo_plan\<lparr>pl_acceptanceCriteria := [demo_criterion]\<rparr>]\<rparr>), sv_approvals = None,
      sv_tasks = Some [(''t'', (new_task ''t'' ''0'' ''0'' \<lparr>ct_subject = ''x'', ct_description = None, ct_activeForm = None, ct_dependsOn = None,
        ct_acceptanceCriteria = Some [''ac1''], ct_planId = None, ct_planVersion = None, ct_stepId = None\<rparr>)\<lparr>tk_status := In_progress\<rparr>)],
      sv_evidence = Some demo_store1\<rparr>"

definition demo_completion :: "string list option \<Rightarrow> update_task_input" where
  "demo_completion criteria =
     \<lparr>ut_id = ''t'', ut_expectedRevision = 1,
      ut_patch = \<lparr>tp_subject = None, tp_description = None, tp_activeForm = None, tp_status = Some Completed, tp_dependsOn = None,
        tp_acceptanceCriteria = criteria, tp_evidenceIds = None, tp_blockedReason = None\<rparr>\<rparr>"

definition completes :: "((tool_exception + execution_result) \<times> plan_services) option \<Rightarrow> bool" where
  "completes r = (case r of Some (Inr out, sv) \<Rightarrow> xr_facts out \<noteq> None | _ \<Rightarrow> False)"

lemma demo_completes: "completes (run_planning demo_channels (Update_call (demo_completion None)) demo_plan_context demo_evidenced)"
  by code_simp

theorem completion_needs_evidence_witness:
  "\<exists>es r. sv_evidence demo_evidenced = Some es \<and> r \<in> set (es_list es) \<and> verifySha256 demo_host r \<and> ''ac1'' \<in> set (er_criterionIds r)"
proof -
  obtain out sv fs where r: "run_planning demo_channels (Update_call (demo_completion None)) demo_plan_context demo_evidenced = Some (Inr out, sv)"
    "xr_facts out = Some fs"
    using demo_completes by (auto simp: completes_def split: option.splits prod.splits sum.splits)
  obtain ts t where ts: "sv_tasks demo_evidenced = Some ts" "obj_get ts (ut_id (demo_completion None)) = Some t" "tk_status t \<noteq> Completed"
    "tk_acceptanceCriteria t = [''ac1'']"
    by (simp add: demo_evidenced_def demo_completion_def new_task_def obj_get_def)
  obtain p where p: "approved_version demo_evidenced = Some p" "demo_criterion \<in> set (pl_acceptanceCriteria p)"
    by (simp add: approved_version_def demo_evidenced_def demo_plans_def plan_at_def)
  have "tp_status (ut_patch (demo_completion None)) = Some Completed" "ac_required demo_criterion"
    "ac_id demo_criterion \<in> set (or_else (tp_acceptanceCriteria (ut_patch (demo_completion None))) (tk_acceptanceCriteria t))"
    by (simp_all add: demo_completion_def demo_criterion_def ts(4))
  from completion_needs_evidence [OF r ts(1-3) this(1) p this(2, 3)] show ?thesis
    by (auto simp: demo_criterion_def demo_channels_def)
qed

text \<open>The criteria of a task can be dropped in the update that completes it. The tool's description says
  that completing a task needs passed evidence for its required criteria; the criteria are those of
  the same patch, so an update that empties the list completes the task on no evidence at all.\<close>

theorem criteria_can_be_dropped:
  assumes "sv_tasks sv = Some ts" "obj_get ts k = Some t" "tk_id t = k" "tk_status t = In_progress" "tk_revision t = n"
    and "patch = \<lparr>tp_subject = None, tp_description = None, tp_activeForm = None, tp_status = Some Completed, tp_dependsOn = None,
      tp_acceptanceCriteria = Some [], tp_evidenceIds = None, tp_blockedReason = None\<rparr>"
  shows "\<exists>out sv' ts' u. run_planning C (Update_call \<lparr>ut_id = k, ut_expectedRevision = n, ut_patch = patch\<rparr>) cx sv = Some (Inr out, sv') \<and>
    xr_facts out = Some [Task_changed u] \<and> sv_tasks sv' = Some ts' \<and> obj_get ts' k = Some u \<and> tk_status u = Completed \<and>
    sv_evidence sv' = sv_evidence sv"
proof -
  have "transition_problem (ch_host C) ts t patch (update_options C sv) = None" "dependency_problem ts t patch = None"
    using assms(4, 6)
    by (simp_all add: transition_problem_def complete_problem_def required_criteria_def requiredCriteriaWithoutUsableEvidence_def dependency_problem_def)
  then have "update_task (ch_host C) (ch_now C) \<lparr>ut_id = k, ut_expectedRevision = n, ut_patch = patch\<rparr> (update_options C sv) ts =
      Inr (patched t patch (ch_now C), obj_set ts k (patched t patch (ch_now C)))"
    using assms(2, 3, 5) by (simp add: update_task_def then_check_def Let_def)
  then show ?thesis using assms(1, 6)
    by (simp add: run_planning_def update_validate_def update_execute_def task_result_def plain_result_def patched_def)
qed

theorem criteria_can_be_dropped_witness:
  "\<exists>(sv' :: plan_services) ts' u. sv_tasks sv' = Some ts' \<and> obj_get ts' ''t'' = Some u \<and> tk_status u = Completed \<and> sv_evidence sv' = None"
proof -
  let ?sv = "demo_evidenced\<lparr>sv_evidence := None\<rparr>"
  obtain ts t where ts: "sv_tasks ?sv = Some ts" "obj_get ts ''t'' = Some t" "tk_id t = ''t''" "tk_status t = In_progress" "tk_revision t = 1"
    by (simp add: demo_evidenced_def new_task_def obj_get_def)
  have "sv_evidence ?sv = None" by simp
  with criteria_can_be_dropped [OF ts refl] show ?thesis by metis
qed

text \<open>The artifact of a plan version is written where the id of the plan points: an id with two steps
  up leaves the directory of the session.\<close>

lemma plan_artifact_escapes: "plan_artifact demo_host ''/w/s'' ''../../x'' 1 = ''/w/x-v1.json''"
  by code_simp

end
