(* ===== verification/AsyncQueue.thy ===== *)
theory AsyncQueue
  imports StepRelations
begin

text \<open>
  The asynchronous queue of core/asyncQueue.ts and the merging of its items into the events of a
  batch. A promise of \<open>shift\<close> is resolved at once or waits in the queue (\<open>aq_waiter\<close>); the merge
  keeps one outstanding. Producers, the primary generator and the loop of \<open>mergeTransient\<close>
  interleave in a step relation; where both promises of a race have settled either may win.
\<close>

subsection \<open>The queue\<close>

record 'a async_queue =
  aq_items :: "'a list"
  aq_waiter :: bool
  aq_closed :: bool

definition empty_queue :: "'a async_queue" where
  "empty_queue = \<lparr>aq_items = [], aq_waiter = False, aq_closed = False\<rparr>"

text \<open>A promise: still waiting, or resolved with an item or with null.\<close>

datatype 'a promise = Waiting | Resolved "'a option"

text \<open>The item that the waiter gets, if one waits.\<close>

definition push :: "'a \<Rightarrow> 'a async_queue \<Rightarrow> 'a option \<times> 'a async_queue" where
  "push x q =
     (if aq_closed q then (None, q)
      else if aq_waiter q then (Some x, q\<lparr>aq_waiter := False\<rparr>)
      else (None, q\<lparr>aq_items := aq_items q @ [x]\<rparr>))"

text \<open>Whether a waiter gets null.\<close>

definition close_queue :: "'a async_queue \<Rightarrow> bool \<times> 'a async_queue" where
  "close_queue q = (aq_waiter q, q\<lparr>aq_closed := True, aq_waiter := False\<rparr>)"

definition shift :: "'a async_queue \<Rightarrow> 'a promise \<times> 'a async_queue" where
  "shift q =
     (case aq_items q of
        x # xs \<Rightarrow> (Resolved (Some x), q\<lparr>aq_items := xs\<rparr>)
      | [] \<Rightarrow> if aq_closed q then (Resolved None, q) else (Waiting, q\<lparr>aq_waiter := True\<rparr>))"

definition drain :: "'a async_queue \<Rightarrow> 'a list \<times> 'a async_queue" where
  "drain q = (aq_items q, q\<lparr>aq_items := []\<rparr>)"

subsection \<open>A channel: the queue with the promise of its reader\<close>

record 'a channel =
  cn_queue :: "'a async_queue"
  cn_promise :: "'a promise"

text \<open>Push and close resolve the reader's promise where it waits; receiving takes the resolved item and
  asks for the next one.\<close>

definition send :: "'a \<Rightarrow> 'a channel \<Rightarrow> 'a channel" where
  "send x c =
     (case push x (cn_queue c) of
        (None, q) \<Rightarrow> c\<lparr>cn_queue := q\<rparr>
      | (Some y, q) \<Rightarrow> c\<lparr>cn_queue := q, cn_promise := Resolved (Some y)\<rparr>)"

definition close_channel :: "'a channel \<Rightarrow> 'a channel" where
  "close_channel c =
     (case close_queue (cn_queue c) of
        (False, q) \<Rightarrow> c\<lparr>cn_queue := q\<rparr>
      | (True, q) \<Rightarrow> c\<lparr>cn_queue := q, cn_promise := Resolved None\<rparr>)"

definition receive :: "'a channel \<Rightarrow> ('a \<times> 'a channel) option" where
  "receive c =
     (case cn_promise c of
        Resolved (Some x) \<Rightarrow> (case shift (cn_queue c) of (p, q) \<Rightarrow> Some (x, c\<lparr>cn_queue := q, cn_promise := p\<rparr>))
      | _ \<Rightarrow> None)"

definition open_channel :: "'a async_queue \<Rightarrow> 'a channel" where
  "open_channel q = (case shift q of (p, q') \<Rightarrow> \<lparr>cn_queue = q', cn_promise = p\<rparr>)"

definition in_flight :: "'a promise \<Rightarrow> 'a list" where
  "in_flight p = (case p of Resolved (Some x) \<Rightarrow> [x] | _ \<Rightarrow> [])"

definition channel_items :: "'a channel \<Rightarrow> 'a list" where
  "channel_items c = in_flight (cn_promise c) @ aq_items (cn_queue c)"

definition channel_ok :: "'a channel \<Rightarrow> bool" where
  "channel_ok c \<longleftrightarrow>
     (aq_waiter (cn_queue c) \<longleftrightarrow> cn_promise c = Waiting) \<and>
     (cn_promise c = Waiting \<longrightarrow> aq_items (cn_queue c) = [] \<and> \<not> aq_closed (cn_queue c)) \<and>
     (cn_promise c = Resolved None \<longrightarrow> aq_items (cn_queue c) = [] \<and> aq_closed (cn_queue c))"

text \<open>What a reader and its writers rely on: a first-in first-out channel.\<close>

locale fifo_channel =
  fixes ok :: "'c \<Rightarrow> bool" and accepts :: "'c \<Rightarrow> bool" and contents :: "'c \<Rightarrow> 'a list"
    and put :: "'a \<Rightarrow> 'c \<Rightarrow> 'c" and fetch :: "'c \<Rightarrow> ('a \<times> 'c) option"
  assumes put_ok: "ok c \<Longrightarrow> ok (put x c)"
    and put_contents: "ok c \<Longrightarrow> contents (put x c) = (if accepts c then contents c @ [x] else contents c)"
    and take_ok: "ok c \<Longrightarrow> fetch c = Some (x, c') \<Longrightarrow> ok c'"
    and take_contents: "ok c \<Longrightarrow> fetch c = Some (x, c') \<Longrightarrow> contents c = x # contents c'"
    and take_ready: "ok c \<Longrightarrow> contents c \<noteq> [] \<Longrightarrow> fetch c \<noteq> None"
begin

text \<open>Everything that is there can be taken, in order.\<close>

fun take_all :: "nat \<Rightarrow> 'c \<Rightarrow> 'a list" where
  "take_all 0 c = []"
| "take_all (Suc n) c = (case fetch c of None \<Rightarrow> [] | Some (x, c') \<Rightarrow> x # take_all n c')"

lemma take_all_contents: "ok c \<Longrightarrow> take_all (length (contents c)) c = contents c"
proof (induction "length (contents c)" arbitrary: c)
  case (Suc n)
  then have "contents c \<noteq> []" by auto
  then obtain x c' where t: "fetch c = Some (x, c')" using take_ready [OF Suc.prems] by auto
  have "contents c = x # contents c'" "ok c'" using take_contents take_ok Suc.prems t by blast+
  then show ?case using Suc.hyps(1) [of c'] Suc.hyps(2) t by (metis Suc_inject length_Cons option.case(2) prod.case take_all.simps(2))
qed simp

end

lemmas channel_defs = channel_ok_def channel_items_def in_flight_def push_def shift_def close_queue_def

interpretation async: fifo_channel channel_ok "\<lambda>c. \<not> aq_closed (cn_queue c)" channel_items send receive
proof
  fix c c' :: "'a channel" and x
  assume ok: "channel_ok c"
  show "channel_ok (send x c)" using ok by (auto simp: send_def channel_defs)
  show "channel_items (send x c) = (if \<not> aq_closed (cn_queue c) then channel_items c @ [x] else channel_items c)"
    using ok by (auto simp: send_def channel_defs)
  show "channel_items c \<noteq> [] \<Longrightarrow> receive c \<noteq> None"
    using ok by (cases "cn_promise c") (auto simp: receive_def channel_defs split: option.splits list.splits)
  assume t: "receive c = Some (x, c')"
  show "channel_ok c'" using ok t
    by (auto simp: receive_def channel_defs split: promise.splits option.splits list.splits if_splits)
  show "channel_items c = x # channel_items c'" using ok t
    by (auto simp: receive_def channel_defs split: promise.splits option.splits list.splits if_splits)
qed

lemma open_channel_ok: "\<not> aq_waiter q \<Longrightarrow> channel_ok (open_channel q)"
  by (auto simp: open_channel_def channel_defs split: list.splits)

lemma open_channel_items: "channel_items (open_channel q) = aq_items q"
  by (auto simp: open_channel_def channel_defs split: list.splits)

lemma close_channel_ok: "channel_ok c \<Longrightarrow> channel_ok (close_channel c)"
  by (auto simp: close_channel_def channel_defs split: bool.splits)

lemma close_channel_items: "channel_ok c \<Longrightarrow> channel_items (close_channel c) = channel_items c"
  by (auto simp: close_channel_def channel_defs split: bool.splits)

subsection \<open>mergeTransient\<close>

text \<open>The loop: the channel, what the primary generator will still yield, whether its pending \<open>next()\<close> has
  settled, whether the side channel was dropped after null, whether the merge has returned, and what
  it has yielded. \<open>mg_pushed\<close> records what the producers pushed into the open queue before the end.\<close>

record 'a merge =
  mg_side :: "'a channel"
  mg_primary :: "'a list"
  mg_settled :: bool
  mg_alone :: bool
  mg_done :: bool
  mg_out :: "('a + 'a) list"
  mg_pushed :: "'a list"

definition merge_start :: "'a async_queue \<Rightarrow> 'a list \<Rightarrow> 'a merge" where
  "merge_start q xs =
     \<lparr>mg_side = open_channel q, mg_primary = xs, mg_settled = False, mg_alone = False, mg_done = False, mg_out = [],
      mg_pushed = aq_items q\<rparr>"

inductive merge_step :: "'a merge \<Rightarrow> 'a merge \<Rightarrow> bool" where
  pushed: "\<not> mg_done m \<Longrightarrow>
    merge_step m (m\<lparr>mg_side := send x (mg_side m),
      mg_pushed := (if aq_closed (cn_queue (mg_side m)) then mg_pushed m else mg_pushed m @ [x])\<rparr>)"
| closed: "merge_step m (m\<lparr>mg_side := close_channel (mg_side m)\<rparr>)"
| settled: "\<not> mg_done m \<Longrightarrow> merge_step m (m\<lparr>mg_settled := True\<rparr>)"
| side_wins: "\<not> mg_done m \<Longrightarrow> \<not> mg_alone m \<Longrightarrow> receive (mg_side m) = Some (x, c) \<Longrightarrow>
    merge_step m (m\<lparr>mg_side := c, mg_out := mg_out m @ [Inl x]\<rparr>)"
| side_ends: "\<not> mg_done m \<Longrightarrow> cn_promise (mg_side m) = Resolved None \<Longrightarrow> merge_step m (m\<lparr>mg_alone := True\<rparr>)"
| primary_wins: "\<not> mg_done m \<Longrightarrow> mg_settled m \<Longrightarrow> mg_primary m = x # xs \<Longrightarrow>
    merge_step m (m\<lparr>mg_primary := xs, mg_settled := False, mg_out := mg_out m @ [Inr x]\<rparr>)"
| primary_ends: "\<not> mg_done m \<Longrightarrow> mg_settled m \<Longrightarrow> mg_primary m = [] \<Longrightarrow> \<not> mg_alone m \<Longrightarrow> drain (cn_queue (mg_side m)) = (ys, q) \<Longrightarrow>
    merge_step m (m\<lparr>mg_side := (mg_side m)\<lparr>cn_queue := q\<rparr>, mg_done := True, mg_out := mg_out m @ map Inl ys\<rparr>)"
| primary_ends_alone: "\<not> mg_done m \<Longrightarrow> mg_settled m \<Longrightarrow> mg_primary m = [] \<Longrightarrow> mg_alone m \<Longrightarrow>
    merge_step m (m\<lparr>mg_done := True\<rparr>)"

inductive_cases merge_step_cases: "merge_step m m'"

definition sides :: "('a + 'a) list \<Rightarrow> 'a list" where
  "sides ys = concat (map (\<lambda>y. case y of Inl x \<Rightarrow> [x] | Inr x \<Rightarrow> []) ys)"

definition primaries :: "('a + 'a) list \<Rightarrow> 'a list" where
  "primaries ys = concat (map (\<lambda>y. case y of Inl x \<Rightarrow> [] | Inr x \<Rightarrow> [x]) ys)"

lemma parts_simps [simp]:
  "sides [] = []" "sides (ys @ zs) = sides ys @ sides zs" "sides [Inl x] = [x]" "sides [Inr x] = []" "sides (map Inl xs) = xs"
  "primaries [] = []" "primaries (ys @ zs) = primaries ys @ primaries zs" "primaries [Inl x] = []" "primaries [Inr x] = [x]"
  "primaries (map Inl xs) = []"
  by (simp_all add: sides_def primaries_def) (induction xs; simp)+

definition merge_ok :: "'a list \<Rightarrow> 'a merge \<Rightarrow> bool" where
  "merge_ok xs m \<longleftrightarrow> primaries (mg_out m) @ mg_primary m = xs \<and>
     (if mg_done m
      then mg_primary m = [] \<and> (\<exists>us lost vs. mg_pushed m = us @ lost @ vs \<and> sides (mg_out m) = us @ vs \<and> length lost \<le> 1 \<and>
             (mg_alone m \<longrightarrow> lost = []))
      else channel_ok (mg_side m) \<and> mg_pushed m = sides (mg_out m) @ channel_items (mg_side m) \<and>
           (mg_alone m \<longrightarrow> cn_promise (mg_side m) = Resolved None))"

lemma null_stays:
  assumes "channel_ok c" "cn_promise c = Resolved None"
  shows "cn_promise (send x c) = Resolved None" "cn_promise (close_channel c) = Resolved None" "channel_items c = []"
  using assms by (auto simp: send_def close_channel_def channel_defs)

lemma flight_short: "length (in_flight p) \<le> 1"
  by (simp add: in_flight_def split: promise.split option.split)

lemma merge_ok_step: "merge_ok xs m \<Longrightarrow> merge_step m m' \<Longrightarrow> merge_ok xs m'"
proof (erule merge_step_cases, goal_cases)
  case (1 x)
  then show ?case by (auto simp: merge_ok_def async.put_ok async.put_contents null_stays(1))
next
  case 2
  then show ?case by (auto simp: merge_ok_def close_channel_ok close_channel_items null_stays(2))
next
  case (4 x c)
  then show ?case by (auto simp: merge_ok_def dest: async.take_ok async.take_contents)
next
  case (7 ys q)
  have out: "mg_pushed m = sides (mg_out m) @ in_flight (cn_promise (mg_side m)) @ ys"
    using 7 by (simp add: merge_ok_def channel_items_def drain_def)
  have "\<exists>us lost vs. mg_pushed m' = us @ lost @ vs \<and> sides (mg_out m') = us @ vs \<and> length lost \<le> 1"
    by (rule exI [of _ "sides (mg_out m)"], rule exI [of _ "in_flight (cn_promise (mg_side m))"], rule exI [of _ ys])
      (use 7 out flight_short in simp)
  then show ?case using 7 by (auto simp: merge_ok_def)
next
  case 8
  have "mg_pushed m = sides (mg_out m)" using 8 by (simp add: merge_ok_def null_stays(3))
  then show ?case using 8 by (auto simp: merge_ok_def)
qed (auto simp: merge_ok_def)

interpretation merging: step_invariant merge_step "merge_ok xs" for xs
  by unfold_locales (rule merge_ok_step)

lemma merge_start_ok: "\<not> aq_waiter q \<Longrightarrow> merge_ok xs (merge_start q xs)"
  by (simp add: merge_ok_def merge_start_def open_channel_ok open_channel_items)

lemma three_steps: "merge_step a b \<Longrightarrow> merge_step b c \<Longrightarrow> merge_step c d \<Longrightarrow> merge_step\<^sup>*\<^sup>* a d"
  by (rule converse_rtranclp_into_rtranclp, assumption)+ (rule rtranclp.rtrancl_refl)



text \<open>A side event can be lost. When a producer pushes while the last \<open>next()\<close> of the batch has settled, the
  waiting promise takes the item and the loop, which looks at the batch first, drains a queue that
  no longer holds it: the comment that both sources are fully drained does not hold.\<close>

theorem side_item_can_be_lost:
  "\<exists>m. merge_step\<^sup>*\<^sup>* (merge_start empty_queue []) m \<and> mg_done m \<and> mg_pushed m = [x] \<and> mg_out m = []"
proof -
  let ?m0 = "merge_start (empty_queue :: 'a async_queue) []"
  let ?m1 = "?m0\<lparr>mg_settled := True\<rparr>"
  let ?m2 = "?m1\<lparr>mg_side := send x (mg_side ?m1), mg_pushed := [x]\<rparr>"
  let ?m3 = "?m2\<lparr>mg_side := (mg_side ?m2)\<lparr>cn_queue := snd (drain (cn_queue (mg_side ?m2)))\<rparr>, mg_done := True\<rparr>"
  note defs = merge_start_def open_channel_def empty_queue_def shift_def send_def push_def drain_def
  have s: "merge_step ?m0 ?m1" "merge_step ?m1 ?m2" "merge_step ?m2 ?m3"
    using settled [of ?m0] pushed [of ?m1 x] primary_ends [of ?m2 "[]" "snd (drain (cn_queue (mg_side ?m2)))"]
    by (simp_all add: defs)
  have "merge_step\<^sup>*\<^sup>* ?m0 ?m3"
    by (rule three_steps [OF s])
  then show ?thesis by (intro exI [of _ ?m3]) (simp add: defs)
qed

end
