(* ===== verification/EvidenceTools.thy ===== *)
theory EvidenceTools
  imports PlanTools FileTools
begin

text \<open>
  The tools that collect evidence (tools/builtin/EvidenceAssertTools.ts): FileAssert over one file,
  DiffAssert over the Git diff, ManualVerify by the human. Reading files, \<open>realpath\<close>, the answers
  of git and of the user, the redaction of the evidence store, the clock and the ids are parameters;
  DiffAssert binds its paths after git has answered, so that reading has a parameter of its own.
\<close>

subsection \<open>The environment\<close>

datatype file_content = Content string | No_file | Unreadable_file

record assert_env =
  as_host :: host
  as_realpath :: "string \<Rightarrow> string option"
  as_read :: "string \<Rightarrow> file_content"
  as_readAfter :: "string \<Rightarrow> file_content"
  as_readFailure :: string
  as_git :: "string list \<Rightarrow> string + string"
  as_askUser :: "(string \<Rightarrow> string list \<Rightarrow> string) option"
  as_redact :: "receipt_input \<Rightarrow> receipt_input"
  as_startedAt :: string
  as_completedAt :: string
  as_newId :: string

definition read_version :: "host \<Rightarrow> (string \<Rightarrow> file_content) \<Rightarrow> string \<Rightarrow> file_read" where
  "read_version H rd p =
     (case rd p of Content t \<Rightarrow> File_version (computeVersion H t) | No_file \<Rightarrow> File_missing | Unreadable_file \<Rightarrow> File_unreadable)"

definition read_check :: "assert_env \<Rightarrow> string \<Rightarrow> tool_context \<Rightarrow> path_check" where
  "read_check E path cx = checkPathReal (as_host E) (as_realpath E) path (cx_workspaceRoot cx) True"

subsection \<open>Criteria\<close>

text \<open>A later criterion with the same id replaces an earlier one in the map by id.\<close>

definition criterion_by_id :: "plan_version \<Rightarrow> string \<Rightarrow> acceptance_criterion option" where
  "criterion_by_id p k = List.find (\<lambda>c. ac_id c = k) (rev (pl_acceptanceCriteria p))"

definition criterionValidation :: "string list \<Rightarrow> evidence_kind \<Rightarrow> plan_services \<Rightarrow> structured_error option" where
  "criterionValidation ids kind sv =
     (case approved_version sv of
        None \<Rightarrow> Some (bad_input False)
      | Some p \<Rightarrow>
          if \<not> distinct ids then Some (bad_input True)
          else if \<not> list_all (\<lambda>k. criterion_by_id p k \<noteq> None) ids then Some (bad_input True)
          else if \<not> list_all (\<lambda>k. map_option ac_evidenceKind (criterion_by_id p k) = Some kind) ids then Some (bad_input True)
          else if sv_evidence sv = None then Some (bad_input False) else None)"

definition criteriaFor :: "string list \<Rightarrow> plan_services \<Rightarrow> acceptance_criterion list" where
  "criteriaFor ids sv =
     (case approved_version sv of None \<Rightarrow> [] | Some p \<Rightarrow> filter (\<lambda>c. ac_id c \<in> set ids) (pl_acceptanceCriteria p))"

text \<open>The versions of the paths now; an error other than a missing file is thrown.\<close>

fun bindCurrentPaths :: "host \<Rightarrow> (string \<Rightarrow> file_content) \<Rightarrow> string list \<Rightarrow> string jsobj \<Rightarrow> tool_exception + string jsobj" where
  "bindCurrentPaths H rd [] b = Inr b"
| "bindCurrentPaths H rd (p # ps) b =
     (case rd p of
        Content t \<Rightarrow> bindCurrentPaths H rd ps (obj_set b p (computeVersion H t))
      | No_file \<Rightarrow> bindCurrentPaths H rd ps (obj_set b p MISSING_FILE_VERSION)
      | Unreadable_file \<Rightarrow> Inl Other_error)"

subsection \<open>Checks and receipts\<close>

record assertion =
  an_label :: string
  an_passed :: bool

definition assertion_text :: "assertion \<Rightarrow> string" where
  "assertion_text a = (if an_passed a then ''PASS '' else ''FAIL '') @ an_label a"

definition summary_of :: "assertion list \<Rightarrow> string" where
  "summary_of as = js_join ''; '' (map assertion_text as)"

definition assertion_json :: "bool \<Rightarrow> string \<Rightarrow> string \<Rightarrow> json" where
  "assertion_json passed evidenceId summary =
     JObj [(''passed'', JBool passed), (''evidenceId'', JStr evidenceId), (''summary'', JStr summary)]"

text \<open>Record the receipt and report it.\<close>

definition issue_receipt ::
    "assert_env \<Rightarrow> bool \<Rightarrow> string \<Rightarrow> receipt_input \<Rightarrow> plan_services \<Rightarrow> (tool_exception + execution_result) \<times> plan_services" where
  "issue_receipt E passed summary input sv =
     (case sv_evidence sv of
        None \<Rightarrow> (Inl Other_error, sv)
      | Some es \<Rightarrow>
          (case record_receipt (as_host E) (as_redact E) (read_version (as_host E) (as_read E)) (as_newId E) (as_completedAt E) input es of
             (r, es') \<Rightarrow>
               (Inr (plain_result (assertion_json passed (er_id r) summary) (Some [Evidence_recorded r])), sv\<lparr>sv_evidence := Some es'\<rparr>)))"

definition assertion_serialize :: "string \<Rightarrow> string \<Rightarrow> json \<Rightarrow> tool_result_content" where
  "assertion_serialize tool failure out =
     Text_content ((if flag_member out ''passed'' then ''PASS'' else failure) @ '' '' @ tool @ '': '' @ text_member out ''summary'' @
       [CHR 0x0A] @ ''evidenceId: '' @ text_member out ''evidenceId'')"

subsection \<open>FileAssert\<close>

record file_expectation =
  fe_exists :: "bool option"
  fe_equals :: "string option"
  fe_contains :: "string list"
  fe_notContains :: "string list"

record file_assert_input =
  fa_path :: string
  fa_criterionIds :: "string list"
  fa_expected :: file_expectation

definition bounded_text :: "nat \<Rightarrow> nat \<Rightarrow> json \<Rightarrow> string option" where
  "bounded_text lo hi v = Option.bind (string_value v) (\<lambda>s. if lo \<le> length s \<and> length s \<le> hi then Some s else None)"

definition bounded_array :: "nat \<Rightarrow> nat \<Rightarrow> (json \<Rightarrow> 'a option) \<Rightarrow> json \<Rightarrow> 'a list option" where
  "bounded_array lo hi f v = Option.bind (array_value f v) (\<lambda>xs. if lo \<le> length xs \<and> length xs \<le> hi then Some xs else None)"

definition CriterionIds :: "json \<Rightarrow> string list option" where
  "CriterionIds = bounded_array 1 50 non_empty_value"

definition BoundedSnippets :: "json \<Rightarrow> string \<Rightarrow> string list option" where
  "BoundedSnippets = default_member [] (bounded_array 0 50 (bounded_text 1 10000))"

definition expectation_value :: "json \<Rightarrow> file_expectation option" where
  "expectation_value = strict [''exists'', ''equals'', ''contains'', ''notContains''] (\<lambda>v.
     Option.bind (Schema.optional_member bool_value v ''exists'') (\<lambda>present.
     Option.bind (Schema.optional_member (bounded_text 0 100000) v ''equals'') (\<lambda>equals.
     Option.bind (BoundedSnippets v ''contains'') (\<lambda>contains.
     Option.bind (BoundedSnippets v ''notContains'') (\<lambda>notContains.
     Some \<lparr>fe_exists = present, fe_equals = equals, fe_contains = contains, fe_notContains = notContains\<rparr>)))))"

definition FileAssertInput :: "json \<Rightarrow> file_assert_input option" where
  "FileAssertInput = strict [''path'', ''criterionIds'', ''expected''] (\<lambda>v.
     Option.bind (required_member non_empty_value v ''path'') (\<lambda>path.
     Option.bind (default_member [] (bounded_array 0 50 non_empty_value) v ''criterionIds'') (\<lambda>ids.
     Option.bind (required_member expectation_value v ''expected'') (\<lambda>expected.
     Some \<lparr>fa_path = path, fa_criterionIds = ids, fa_expected = expected\<rparr>))))"

definition file_assert_json :: "file_assert_input \<Rightarrow> json" where
  "file_assert_json i =
     JObj [(''path'', JStr (fa_path i)), (''criterionIds'', strings_json (fa_criterionIds i)),
       (''expected'', JObj (or_absent ''exists'' (map_option JBool (fe_exists (fa_expected i))) @
          or_absent ''equals'' (map_option JStr (fe_equals (fa_expected i))) @
          [(''contains'', strings_json (fe_contains (fa_expected i))), (''notContains'', strings_json (fe_notContains (fa_expected i)))]))]"

definition file_assert_validate :: "assert_env \<Rightarrow> file_assert_input \<Rightarrow> tool_context \<Rightarrow> plan_services \<Rightarrow> structured_error option" where
  "file_assert_validate E i cx sv =
     then_check (if fa_criterionIds i \<noteq> [] then criterionValidation (fa_criterionIds i) File_assertion sv else None)
       (let x = fa_expected i
        in if fe_exists x = None \<and> fe_equals x = None \<and> fe_contains x = [] \<and> fe_notContains x = [] then Some (bad_input True)
           else if \<not> pc_ok (checkReadPath (as_host E) (fa_path i) (cx_workspaceRoot cx)) then Some (bad_input False)
           else if \<not> pc_ok (read_check E (fa_path i) cx) then Some (bad_input False) else None)"

definition bool_text :: "bool \<Rightarrow> string" where
  "bool_text b = (if b then ''true'' else ''false'')"

text \<open>The checks of a file that was read: \<open>None\<close> for a file that does not exist.\<close>

definition file_checks :: "file_expectation \<Rightarrow> string option \<Rightarrow> assertion list" where
  "file_checks x current =
     (case fe_exists x of None \<Rightarrow> [] | Some b \<Rightarrow> [\<lparr>an_label = ''exists='' @ bool_text b, an_passed = ((current \<noteq> None) = b)\<rparr>]) @
     (case fe_equals x of None \<Rightarrow> [] | Some t \<Rightarrow> [\<lparr>an_label = ''content equals expected text'', an_passed = (current = Some t)\<rparr>]) @
     map (\<lambda>s. \<lparr>an_label = ''contains '' @ json_quote s, an_passed = (case current of None \<Rightarrow> False | Some t \<Rightarrow> includes_text t s)\<rparr>)
       (fe_contains x) @
     map (\<lambda>s. \<lparr>an_label = ''does not contain '' @ json_quote s, an_passed = (case current of None \<Rightarrow> True | Some t \<Rightarrow> \<not> includes_text t s)\<rparr>)
       (fe_notContains x)"

definition file_assert_receipt ::
    "assert_env \<Rightarrow> file_assert_input \<Rightarrow> tool_context \<Rightarrow> string \<Rightarrow> string \<Rightarrow> assertion list \<Rightarrow> receipt_input" where
  "file_assert_receipt E i cx resolved version checks =
     \<lparr>ri_kind = File_assertion, ri_status = (if list_all an_passed checks then Receipt_passed else Receipt_failed),
      ri_criterionIds = Some (fa_criterionIds i), ri_taskId = None,
      ri_invocation = \<lparr>inv_tool = ''FileAssert'', inv_normalizedInput = file_assert_json i, inv_cwd = Some (cx_workspaceRoot cx)\<rparr>,
      ri_observation = \<lparr>eo_exitCode = None,
        eo_outputPreview = take 1000 (fa_path i @ '': '' @ summary_of checks @ ''; version='' @ version)\<rparr>,
      ri_startedAt = as_startedAt E, ri_fileVersions = Some [(resolved, version)], ri_workspaceRevision = None\<rparr>"

definition file_assert_execute ::
    "assert_env \<Rightarrow> file_assert_input \<Rightarrow> tool_context \<Rightarrow> plan_services \<Rightarrow> (tool_exception + execution_result) \<times> plan_services" where
  "file_assert_execute E i cx sv =
     (let recheck = read_check E (fa_path i) cx; resolved = pc_resolved recheck;
          observed = (\<lambda>current version. let checks = file_checks (fa_expected i) current
            in issue_receipt E (list_all an_passed checks) (summary_of checks) (file_assert_receipt E i cx resolved version checks) sv)
      in if \<not> pc_ok recheck then (Inl (Coded_error ''SEMANTIC_VALIDATION_ERROR''), sv)
         else case as_read E resolved of
                Content t \<Rightarrow> observed (Some t) (computeVersion (as_host E) t)
              | No_file \<Rightarrow> observed None MISSING_FILE_VERSION
              | Unreadable_file \<Rightarrow> (Inl Other_error, sv))"

subsection \<open>DiffAssert\<close>

record diff_assert_input =
  da_paths :: "string list"
  da_criterionIds :: "string list"
  da_expectedAdded :: "string list"
  da_expectedRemoved :: "string list"

definition DiffAssertInput :: "json \<Rightarrow> diff_assert_input option" where
  "DiffAssertInput = strict [''paths'', ''criterionIds'', ''expectedAdded'', ''expectedRemoved''] (\<lambda>v.
     Option.bind (required_member (bounded_array 1 50 non_empty_value) v ''paths'') (\<lambda>paths.
     Option.bind (required_member CriterionIds v ''criterionIds'') (\<lambda>ids.
     Option.bind (BoundedSnippets v ''expectedAdded'') (\<lambda>added.
     Option.bind (BoundedSnippets v ''expectedRemoved'') (\<lambda>removed.
     Some \<lparr>da_paths = paths, da_criterionIds = ids, da_expectedAdded = added, da_expectedRemoved = removed\<rparr>)))))"

definition diff_assert_validate :: "assert_env \<Rightarrow> diff_assert_input \<Rightarrow> tool_context \<Rightarrow> plan_services \<Rightarrow> structured_error option" where
  "diff_assert_validate E i cx sv =
     then_check (criterionValidation (da_criterionIds i) Diff_assertion sv)
       (if \<not> distinct (da_paths i) then Some (bad_input True)
        else if \<not> list_all (\<lambda>p. pc_ok (read_check E p cx)) (da_paths i) then Some (bad_input False) else None)"

text \<open>The pieces between \<open>\\n\<close> or \<open>\\r\\n\<close>.\<close>

definition strip_cr :: "string \<Rightarrow> string" where
  "strip_cr s = (if ends_with s [CHR 0x0D] then butlast s else s)"

definition split_lines :: "string \<Rightarrow> string list" where
  "split_lines t = (let ls = split_char (CHR 0x0A) t in map strip_cr (butlast ls) @ [last ls])"

definition diff_lines :: "char \<Rightarrow> string \<Rightarrow> string list" where
  "diff_lines c diff =
     map (drop 1) (filter (\<lambda>l. starts_with l [c] \<and> \<not> starts_with l [c, c, c]) (split_lines diff))"

definition slashed :: "string \<Rightarrow> string" where
  "slashed t = map (\<lambda>c. if c = CHR 0x5C then CHR ''/'' else c) t"

definition untracked_text :: "string \<Rightarrow> string \<Rightarrow> string" where
  "untracked_text name t =
     [CHR 0x0A] @ ''diff --git a/'' @ name @ '' b/'' @ name @ [CHR 0x0A] @ ''new file mode 100644'' @ [CHR 0x0A] @
     js_join [CHR 0x0A] (map (\<lambda>l. CHR ''+'' # l) (split_lines t))"

text \<open>The diff with the untracked files among the paths; a file that cannot be read throws after the files before it were added.\<close>

fun add_untracked :: "(string \<Rightarrow> file_content) \<Rightarrow> (string \<times> string) list \<Rightarrow> string list \<Rightarrow> string \<Rightarrow> string \<times> bool" where
  "add_untracked rd names [] diff = (diff, True)"
| "add_untracked rd names (u # us) diff =
     (case map_of names (slashed u) of
        None \<Rightarrow> add_untracked rd names us diff
      | Some resolved \<Rightarrow>
          (case rd resolved of
             Content t \<Rightarrow> add_untracked rd names us (diff @ untracked_text u t)
           | _ \<Rightarrow> (diff, False)))"

definition pathspecs :: "string list \<Rightarrow> string list" where
  "pathspecs = map (\<lambda>p. '':(literal)'' @ p)"

text \<open>The diff that git and the untracked files give: what was collected, and the failure if there was one.\<close>

definition collect_diff :: "assert_env \<Rightarrow> (string \<times> string) list \<Rightarrow> string \<times> string option" where
  "collect_diff E names =
     (let specs = pathspecs (map fst names)
      in case as_git E ([''diff'', ''--no-ext-diff'', ''--no-color'', ''--unified=0'', ''HEAD'', ''--''] @ specs) of
           Inl e \<Rightarrow> ([], Some e)
         | Inr diff \<Rightarrow>
             (case as_git E ([''ls-files'', ''--others'', ''--exclude-standard'', ''-z'', ''--''] @ specs) of
                Inl e \<Rightarrow> (diff, Some e)
              | Inr raw \<Rightarrow>
                  (case add_untracked (as_read E) names (filter (\<lambda>u. u \<noteq> []) (split_char (CHR 0x00) raw)) diff of
                     (d, ok) \<Rightarrow> (d, if ok then None else Some (as_readFailure E)))))"

definition diff_checks :: "diff_assert_input \<Rightarrow> string \<Rightarrow> assertion list" where
  "diff_checks i diff =
     [\<lparr>an_label = ''working tree has a diff from HEAD'', an_passed = (js_trim diff \<noteq> [])\<rparr>] @
     map (\<lambda>s. \<lparr>an_label = ''added lines contain '' @ json_quote s, an_passed = list_ex (\<lambda>l. includes_text l s) (diff_lines (CHR ''+'') diff)\<rparr>)
       (da_expectedAdded i) @
     map (\<lambda>s. \<lparr>an_label = ''removed lines contain '' @ json_quote s, an_passed = list_ex (\<lambda>l. includes_text l s) (diff_lines (CHR ''-'') diff)\<rparr>)
       (da_expectedRemoved i)"

definition diff_assert_json :: "diff_assert_input \<Rightarrow> json" where
  "diff_assert_json i =
     JObj [(''paths'', strings_json (da_paths i)), (''criterionIds'', strings_json (da_criterionIds i)),
       (''expectedAdded'', strings_json (da_expectedAdded i)), (''expectedRemoved'', strings_json (da_expectedRemoved i)),
       (''base'', JStr ''HEAD'')]"

definition diff_receipt ::
    "assert_env \<Rightarrow> diff_assert_input \<Rightarrow> tool_context \<Rightarrow> string \<Rightarrow> string \<Rightarrow> string option \<Rightarrow> bool \<Rightarrow> string jsobj \<Rightarrow> receipt_input" where
  "diff_receipt E i cx diff summary failure passed bindings =
     \<lparr>ri_kind = Diff_assertion,
      ri_status = (if truthy failure \<noteq> None then Receipt_inconclusive else if passed then Receipt_passed else Receipt_failed),
      ri_criterionIds = Some (da_criterionIds i), ri_taskId = None,
      ri_invocation = \<lparr>inv_tool = ''DiffAssert'', inv_normalizedInput = diff_assert_json i, inv_cwd = Some (cx_workspaceRoot cx)\<rparr>,
      ri_observation = \<lparr>eo_exitCode = None,
        eo_outputPreview = take 1000 (summary @ ''; addedLines='' @ show_num (of_nat (length (diff_lines (CHR ''+'') diff))) @
          ''; removedLines='' @ show_num (of_nat (length (diff_lines (CHR ''-'') diff))))\<rparr>,
      ri_startedAt = as_startedAt E, ri_fileVersions = Some bindings, ri_workspaceRevision = None\<rparr>"

definition diff_names :: "assert_env \<Rightarrow> diff_assert_input \<Rightarrow> tool_context \<Rightarrow> (string \<times> string) list" where
  "diff_names E i cx =
     map (\<lambda>p. let resolved = pc_resolved (read_check E p cx)
              in (slashed (relative_text (resolve_path (as_host E) (cx_workspaceRoot cx)) (resolve_path (as_host E) resolved)), resolved))
       (da_paths i)"

definition diff_assert_execute ::
    "assert_env \<Rightarrow> diff_assert_input \<Rightarrow> tool_context \<Rightarrow> plan_services \<Rightarrow> (tool_exception + execution_result) \<times> plan_services" where
  "diff_assert_execute E i cx sv =
     (if \<not> list_all (\<lambda>p. pc_ok (read_check E p cx)) (da_paths i) then (Inl (Coded_error ''SEMANTIC_VALIDATION_ERROR''), sv)
      else case collect_diff E (diff_names E i cx) of
             (diff, failure) \<Rightarrow>
               let checks = diff_checks i diff;
                   passed = (truthy failure = None \<and> list_all an_passed checks);
                   summary = (case truthy failure of
                      Some e \<Rightarrow> ''INCONCLUSIVE Git diff unavailable: '' @ e | None \<Rightarrow> summary_of checks)
               in case bindCurrentPaths (as_host E) (as_readAfter E) (map snd (diff_names E i cx)) [] of
                    Inl e \<Rightarrow> (Inl e, sv)
                  | Inr bindings \<Rightarrow> issue_receipt E passed summary (diff_receipt E i cx diff summary failure passed bindings) sv)"

subsection \<open>ManualVerify\<close>

definition ManualVerifyInput :: "json \<Rightarrow> string list option" where
  "ManualVerifyInput = strict [''criterionIds''] (\<lambda>v. required_member CriterionIds v ''criterionIds'')"

definition manual_validate :: "assert_env \<Rightarrow> string list \<Rightarrow> plan_services \<Rightarrow> structured_error option" where
  "manual_validate E ids sv =
     then_check (criterionValidation ids Manual_kind sv) (if as_askUser E = None then Some (bad_input False) else None)"

definition manual_question :: "acceptance_criterion list \<Rightarrow> string" where
  "manual_question cs =
     ''Verify these approved acceptance criteria against the current workspace:'' @ [CHR 0x0A] @
     js_join [CHR 0x0A] (map (\<lambda>c. ''- '' @ ac_id c @ '': '' @ ac_statement c) cs) @ [CHR 0x0A] @
     ''Select Confirm only if you personally verified every item.''"

definition manual_status :: "string \<Rightarrow> receipt_status" where
  "manual_status answer =
     (if answer = ''Confirm'' then Receipt_passed else if answer = ''Reject'' then Receipt_failed else Receipt_inconclusive)"

definition manual_summary :: "receipt_status \<Rightarrow> string" where
  "manual_summary st =
     (case st of
        Receipt_passed \<Rightarrow> ''human explicitly confirmed all listed criteria''
      | Receipt_failed \<Rightarrow> ''human rejected at least one listed criterion''
      | Receipt_inconclusive \<Rightarrow> ''human did not provide an explicit confirmation'')"

definition manual_receipt :: "assert_env \<Rightarrow> string list \<Rightarrow> tool_context \<Rightarrow> receipt_status \<Rightarrow> receipt_input" where
  "manual_receipt E ids cx st =
     \<lparr>ri_kind = Manual_kind, ri_status = st, ri_criterionIds = Some ids, ri_taskId = None,
      ri_invocation = \<lparr>inv_tool = ''ManualVerify'', inv_normalizedInput = JObj [(''criterionIds'', strings_json ids)],
        inv_cwd = Some (cx_workspaceRoot cx)\<rparr>,
      ri_observation = \<lparr>eo_exitCode = None, eo_outputPreview = manual_summary st\<rparr>,
      ri_startedAt = as_startedAt E, ri_fileVersions = None, ri_workspaceRevision = None\<rparr>"

definition manual_execute ::
    "assert_env \<Rightarrow> string list \<Rightarrow> tool_context \<Rightarrow> plan_services \<Rightarrow> (tool_exception + execution_result) \<times> plan_services" where
  "manual_execute E ids cx sv =
     (case as_askUser E of
        None \<Rightarrow> (Inl Other_error, sv)
      | Some ask \<Rightarrow>
          let st = manual_status (ask (manual_question (criteriaFor ids sv)) [''Confirm'', ''Reject''])
          in issue_receipt E (st = Receipt_passed) (manual_summary st) (manual_receipt E ids cx st) sv)"

subsection \<open>The tool definitions\<close>

definition FileAssertTool :: "assert_env \<Rightarrow> plan_services tool_definition" where
  "FileAssertTool E = defineTool ((internal_tool ''FileAssert'' 8000 Shared []
     (accepts_input FileAssertInput) (\<lambda>sv v cx. run_input FileAssertInput (\<lambda>i. file_assert_execute E i cx) sv v) (\<lambda>out. []))
     \<lparr>tsp_resources := Some (\<lambda>v cx. with_input FileAssertInput (\<lambda>i.
        [\<lparr>rc_resource = ''file:'' @ pc_resolved (checkReadPath (as_host E) (fa_path i) (cx_workspaceRoot cx)), rc_mode = Read_access\<rparr>]) v),
      tsp_validate := Some (\<lambda>sv v cx. with_input FileAssertInput (\<lambda>i. file_assert_validate E i cx sv) v),
      tsp_serialize := Some (\<lambda>out callId. Inr (assertion_serialize ''FileAssert'' ''FAIL'' out))\<rparr>)"

definition DiffAssertTool :: "assert_env \<Rightarrow> plan_services tool_definition" where
  "DiffAssertTool E = defineTool ((internal_tool ''DiffAssert'' 8000 Shared [(''workspace:*'', Read_access)]
     (accepts_input DiffAssertInput) (\<lambda>sv v cx. run_input DiffAssertInput (\<lambda>i. diff_assert_execute E i cx) sv v) (\<lambda>out. []))
     \<lparr>tsp_validate := Some (\<lambda>sv v cx. with_input DiffAssertInput (\<lambda>i. diff_assert_validate E i cx sv) v),
      tsp_serialize := Some (\<lambda>out callId. Inr (assertion_serialize ''DiffAssert'' ''FAIL'' out))\<rparr>)"

definition ManualVerifyTool :: "assert_env \<Rightarrow> plan_services tool_definition" where
  "ManualVerifyTool E = defineTool ((internal_tool ''ManualVerify'' 8000 Exclusive [(''state:user_interaction'', Write_access)]
     (accepts_input ManualVerifyInput) (\<lambda>sv v cx. run_input ManualVerifyInput (\<lambda>ids. manual_execute E ids cx) sv v) (\<lambda>out. []))
     \<lparr>tsp_validate := Some (\<lambda>sv v cx. with_input ManualVerifyInput (\<lambda>ids. manual_validate E ids sv) v),
      tsp_serialize := Some (\<lambda>out callId. Inr (assertion_serialize ''ManualVerify'' ''NOT CONFIRMED'' out))\<rparr>)"

subsection \<open>What the receipts show\<close>

definition meets :: "file_expectation \<Rightarrow> string option \<Rightarrow> bool" where
  "meets x current \<longleftrightarrow>
     (case fe_exists x of None \<Rightarrow> True | Some b \<Rightarrow> (current \<noteq> None) = b) \<and>
     (case fe_equals x of None \<Rightarrow> True | Some t \<Rightarrow> current = Some t) \<and>
     (\<forall>s \<in> set (fe_contains x). current \<noteq> None \<and> includes_text (the current) s) \<and>
     (\<forall>s \<in> set (fe_notContains x). current = None \<or> \<not> includes_text (the current) s)"

lemma file_checks_exact: "list_all an_passed (file_checks x current) \<longleftrightarrow> meets x current"
  by (cases "fe_exists x"; cases "fe_equals x"; cases current;
    simp add: file_checks_def meets_def list.pred_map comp_def; auto simp: list_all_iff)

definition found :: "file_content \<Rightarrow> string option" where
  "found c = (case c of Content t \<Rightarrow> Some t | _ \<Rightarrow> None)"

text \<open>Redaction leaves the verdict and the file versions of a receipt alone.\<close>

definition redaction_keeps :: "(receipt_input \<Rightarrow> receipt_input) \<Rightarrow> bool" where
  "redaction_keeps f \<longleftrightarrow> (\<forall>x. ri_status (f x) = ri_status x \<and> ri_fileVersions (f x) = ri_fileVersions x \<and> ri_criterionIds (f x) = ri_criterionIds x)"

lemma issued:
  assumes "issue_receipt E passed summary input sv = (Inr out, sv')" "xr_facts out = Some [Evidence_recorded r]"
    "redaction_keeps (as_redact E)"
  shows "er_status r = ri_status input" "ri_fileVersions input \<noteq> None \<Longrightarrow> er_fileVersions r = ri_fileVersions input"
    "ri_criterionIds input = Some ids \<Longrightarrow> er_criterionIds r = ids"
  using assms
  by (auto simp: issue_receipt_def record_receipt_def unsigned_receipt_def redaction_keeps_def plain_result_def sign_receipt_def Let_def
      split: option.splits)

lemma versions_differ: "computeVersion H t \<noteq> MISSING_FILE_VERSION"
  by (simp add: computeVersion_def MISSING_FILE_VERSION_def)

lemma file_assert_issued:
  assumes "file_assert_execute E i cx sv = (Inr out, sv')"
  defines "p \<equiv> pc_resolved (read_check E (fa_path i) cx)"
  obtains "as_read E p \<noteq> Unreadable_file"
    "issue_receipt E (meets (fa_expected i) (found (as_read E p))) (summary_of (file_checks (fa_expected i) (found (as_read E p))))
       (file_assert_receipt E i cx p (case as_read E p of Content t \<Rightarrow> computeVersion (as_host E) t | _ \<Rightarrow> MISSING_FILE_VERSION)
          (file_checks (fa_expected i) (found (as_read E p)))) sv = (Inr out, sv')"
  using assms
  by (auto simp: file_assert_execute_def file_checks_exact found_def Let_def split: if_splits file_content.splits)


lemma approved_criterion: "criterion_by_id p k = Some c \<Longrightarrow> c \<in> set (pl_acceptanceCriteria p) \<and> ac_id c = k"
  by (auto simp: criterion_by_id_def find_Some_iff) (metis nth_mem set_rev length_rev)

text \<open>A manual receipt that passed is the answer of the user to a question that names every criterion it covers.\<close>

theorem manual_pass_is_confirmed:
  assumes run: "manual_execute E ids cx sv = (Inr out, sv')" "xr_facts out = Some [Evidence_recorded r]" "er_status r = Receipt_passed"
    and valid: "manual_validate E ids sv = None"
    and redact: "redaction_keeps (as_redact E)"
  shows "\<exists>ask p. as_askUser E = Some ask \<and> approved_version sv = Some p \<and>
    ask (manual_question (criteriaFor ids sv)) [''Confirm'', ''Reject''] = ''Confirm'' \<and> er_criterionIds r = ids \<and>
    (\<forall>k \<in> set ids. \<exists>c \<in> set (criteriaFor ids sv). c \<in> set (pl_acceptanceCriteria p) \<and> ac_id c = k \<and> ac_evidenceKind c = Manual_kind)"
proof -
  obtain ask st where a: "as_askUser E = Some ask" "st = manual_status (ask (manual_question (criteriaFor ids sv)) [''Confirm'', ''Reject''])"
    using run(1) by (auto simp: manual_execute_def split: option.splits)
  have "er_status r = st" "er_criterionIds r = ids"
    using run(1) a issued [OF _ run(2) redact] by (simp_all add: manual_execute_def manual_receipt_def Let_def)
  then have answer: "ask (manual_question (criteriaFor ids sv)) [''Confirm'', ''Reject''] = ''Confirm''"
    using a(2) run(3) by (auto simp: manual_status_def split: if_splits)
  obtain p where p: "approved_version sv = Some p" "\<forall>k \<in> set ids. map_option ac_evidenceKind (criterion_by_id p k) = Some Manual_kind"
    using valid by (auto simp: manual_validate_def then_check_def criterionValidation_def list_all_iff split: option.splits if_splits)
  have "\<exists>c \<in> set (criteriaFor ids sv). c \<in> set (pl_acceptanceCriteria p) \<and> ac_id c = k \<and> ac_evidenceKind c = Manual_kind" if "k \<in> set ids" for k
    using p that approved_criterion by (fastforce simp: criteriaFor_def)
  then show ?thesis using a(1) p(1) answer \<open>er_criterionIds r = ids\<close> by blast
qed

text \<open>Lines that start with the sign twice are taken for a file header: an added line \<open>++x\<close> is not seen.\<close>

lemma signed_lines_unseen: "l \<in> set (diff_lines c diff) \<Longrightarrow> \<not> starts_with l [c, c]"
  by (auto simp: diff_lines_def starts_with_iff)

subsection \<open>Concrete assertions\<close>

definition demo_asserting :: "(string \<Rightarrow> file_content) \<Rightarrow> assert_env" where
  "demo_asserting rd =
     \<lparr>as_host = demo_host, as_realpath = Some, as_read = rd, as_readAfter = rd, as_readFailure = ''unreadable'', as_git = (\<lambda>args. Inr []),
      as_askUser = Some (\<lambda>q options. ''Confirm''), as_redact = (\<lambda>x. x), as_startedAt = ''1'', as_completedAt = ''2'', as_newId = ''ev''\<rparr>"

definition demo_assertion :: file_assert_input where
  "demo_assertion =
     \<lparr>fa_path = ''a'', fa_criterionIds = [],
      fa_expected = \<lparr>fe_exists = Some True, fe_equals = None, fe_contains = [''x''], fe_notContains = [''z'']\<rparr>\<rparr>"

definition demo_manual_plan :: plan_services where
  "demo_manual_plan =
     \<lparr>sv_plans = Some (demo_plans\<lparr>st_heap := [demo_plan\<lparr>pl_acceptanceCriteria :=
        [\<lparr>ac_id = ''ac1'', ac_statement = ''it reads well'', ac_evidenceKind = Manual_kind, ac_required = True\<rparr>]\<rparr>]\<rparr>),
      sv_approvals = None, sv_tasks = None, sv_evidence = Some demo_store\<rparr>"

abbreviation "demo_reading t \<equiv> \<lambda>p. if p = ''/w/a'' then Content t else No_file"

lemma issue_returns:
  assumes "sv_evidence sv = Some es" "redaction_keeps (as_redact E)"
  shows "\<exists>out r sv'. issue_receipt E passed summary input sv = (Inr out, sv') \<and> xr_facts out = Some [Evidence_recorded r] \<and>
    er_status r = ri_status input \<and> (\<forall>fv. ri_fileVersions input = Some fv \<longrightarrow> er_fileVersions r = Some fv)"
  using assms
  by (simp add: issue_receipt_def record_receipt_def unsigned_receipt_def redaction_keeps_def plain_result_def sign_receipt_def Let_def)

text \<open>A run of FileAssert whose file can be read issues a receipt, passed exactly when the file meets the expectations.\<close>

lemma file_assert_verdict:
  assumes "pc_ok (read_check E (fa_path i) cx)" "as_read E p \<noteq> Unreadable_file" "p = pc_resolved (read_check E (fa_path i) cx)"
    "sv_evidence sv = Some es" "redaction_keeps (as_redact E)"
  shows "\<exists>out r sv'. file_assert_execute E i cx sv = (Inr out, sv') \<and> xr_facts out = Some [Evidence_recorded r] \<and>
    (er_status r = Receipt_passed \<longleftrightarrow> meets (fa_expected i) (found (as_read E p))) \<and>
    er_fileVersions r = Some [(p, case as_read E p of Content t \<Rightarrow> computeVersion (as_host E) t | _ \<Rightarrow> MISSING_FILE_VERSION)]"
proof (cases "as_read E p")
  case (Content t)
  obtain out r sv' where "issue_receipt E (list_all an_passed (file_checks (fa_expected i) (Some t))) (summary_of (file_checks (fa_expected i) (Some t)))
      (file_assert_receipt E i cx p (computeVersion (as_host E) t) (file_checks (fa_expected i) (Some t))) sv = (Inr out, sv')"
    "xr_facts out = Some [Evidence_recorded r]" "er_status r = (if meets (fa_expected i) (Some t) then Receipt_passed else Receipt_failed)"
    "er_fileVersions r = Some [(p, computeVersion (as_host E) t)]"
    using issue_returns [OF assms(4, 5)] by (fastforce simp: file_assert_receipt_def file_checks_exact)
  then show ?thesis using assms(1, 3) Content by (simp add: file_assert_execute_def found_def Let_def)
next
  case No_file
  obtain out r sv' where "issue_receipt E (list_all an_passed (file_checks (fa_expected i) None)) (summary_of (file_checks (fa_expected i) None))
      (file_assert_receipt E i cx p MISSING_FILE_VERSION (file_checks (fa_expected i) None)) sv = (Inr out, sv')"
    "xr_facts out = Some [Evidence_recorded r]" "er_status r = (if meets (fa_expected i) None then Receipt_passed else Receipt_failed)"
    "er_fileVersions r = Some [(p, MISSING_FILE_VERSION)]"
    using issue_returns [OF assms(4, 5)] by (fastforce simp: file_assert_receipt_def file_checks_exact)
  then show ?thesis using assms(1, 3) No_file by (simp add: file_assert_execute_def found_def Let_def)
next
  case Unreadable_file
  then show ?thesis using assms(2) by simp
qed

lemma demo_checks:
  "pc_ok (read_check (demo_asserting (demo_reading ''yxy'')) ''a'' demo_tool_context)"
  "pc_resolved (read_check (demo_asserting (demo_reading ''yxy'')) ''a'' demo_tool_context) = ''/w/a''"
  "meets (fa_expected demo_assertion) (Some ''yxy'')" "\<not> meets (fa_expected demo_assertion) (Some ''yz'')"
  by code_simp+


lemma demo_confirmable:
  "manual_validate (demo_asserting (demo_reading ''x'')) [''ac1''] demo_manual_plan = None"
  "manual_validate (demo_asserting (demo_reading ''x'')) [''ac2''] demo_manual_plan \<noteq> None"
  by code_simp+

theorem manual_pass_is_confirmed_witness:
  "\<exists>out r sv'. manual_execute (demo_asserting (demo_reading ''x'')) [''ac1''] demo_tool_context demo_manual_plan = (Inr out, sv') \<and>
     xr_facts out = Some [Evidence_recorded r] \<and> er_criterionIds r = [''ac1''] \<and>
     (\<exists>c \<in> set (criteriaFor [''ac1''] demo_manual_plan). ac_id c = ''ac1'' \<and> ac_evidenceKind c = Manual_kind)"
proof -
  let ?E = "demo_asserting (demo_reading ''x'')"
  have env: "redaction_keeps (as_redact ?E)" "as_askUser ?E = Some (\<lambda>q options. ''Confirm'')" "sv_evidence demo_manual_plan = Some demo_store"
    by (simp_all add: demo_asserting_def redaction_keeps_def demo_manual_plan_def)
  obtain out r sv' where out: "manual_execute ?E [''ac1''] demo_tool_context demo_manual_plan = (Inr out, sv')"
    "xr_facts out = Some [Evidence_recorded r]" "er_status r = Receipt_passed"
    using issue_returns [OF env(3, 1), of True "manual_summary Receipt_passed" "manual_receipt ?E [''ac1''] demo_tool_context Receipt_passed"] env(2)
    by (auto simp: manual_execute_def manual_status_def manual_receipt_def)
  from manual_pass_is_confirmed [OF out demo_confirmable(1) env(1)] show ?thesis using out by fastforce
qed

lemma demo_unseen_line: "diff_lines (CHR ''+'') (''+++x'' @ [CHR 0x0A] @ ''+y'') = [''y'']"
  by code_simp

end
