(* ===== verification/Spec2Isabelle.thy ===== *)
theory Spec2Isabelle
  imports Gate Approvals Scheduler ToolGuard JournalProps ResumeProps Replan ContextProps EngineProps VerifierRunner FileToolDefs PlanToolProps AsyncQueue EvidenceTools
begin

text \<open>
  Verification library of WorkAgent, a coding agent written in TypeScript (sources under
  src/src; the paths below are relative to it).

  \<^bold>\<open>The program.\<close> A run is a loop (core/AgentEngine.ts). Everything that happens is a \<^emph>\<open>fact\<close>
  (core/events.ts); the only way to change the agent's state is to reduce a fact
  (core/state.ts), and every reduced fact is appended to a journal (session/SessionJournal.ts),
  so that a crashed session is replayed (session/SessionLoader.ts, app/createRuntime.ts). In a
  round the loop checks its budgets, lets a deterministic supervisor assess the plan
  (planning/PlanSupervisor.ts), compacts the context (context/ContextManager.ts), selects the
  tools of the round (planning/ToolExecutionLane.ts), streams a message from the model
  (model), schedules the calls in it (tools/ToolScheduler.ts) and runs each through one entry
  point with permissions, an idempotency ledger and contracts (tools/ToolRuntime.ts,
  policy, tools/IdempotencyLedger.ts). A message without calls asks for completion: a gate over
  plan, tasks and signed evidence (planning/completionGate.ts, verification) and a verifier,
  itself a run of the engine (verification/VerifierRunner.ts), decide.

  \<^bold>\<open>The theories\<close>, from the data up:
  \<^item> Prelude, JsData, Json, JsonText, Regex: the JavaScript that the source relies on (numbers,
    strings, arrays, plain objects, JSON text and its parser, the regular expressions), with
    the lemmas the rest shares. EventMachine and StepRelations are the interfaces (locales)
    for invariants and simulations of steps; every component's run is an interpretation.
  \<^item> Vocabulary, EventTypes, Facts: core/messages.ts, core/events.ts, planning/types.ts,
    verification/types.ts. CalibrationContract, Calibration:
    planning/OutcomeCalibrationContract.ts and OutcomeCalibration.ts.
  \<^item> PathKey: workspace/pathKey.ts and policy/pathPolicy.ts. LoopIntelligence, PolicyLoop:
    core/LoopIntelligence.ts.
  \<^item> Reducer: core/state.ts, one definition for each event; Snapshot: \<open>createSnapshot\<close> and
    \<open>restoreFromSnapshot\<close>. StateInvariant has the invariant of every reachable state,
    SnapshotRecovery and StateProperties the round trip and the equivalence of recovery with
    full replay.
  \<^item> Evidence, Verdict: the signed receipts and the validation of a verifier's report
    (verification/EvidenceStore.ts, criteriaEvidence.ts, freshness.ts, verdict.ts). Gate:
    planning/completionGate.ts.
  \<^item> Tasks, Plans, Approvals: planning/TaskStore.ts and PlanStore.ts. Supervisor, Replan, Lane:
    planning/PlanSupervisor.ts, ReplanDetector.ts, ToolExecutionLane.ts and
    tools/ToolRegistry.ts.
  \<^item> ToolDefs, ToolCalls, Idempotency, Scheduler: tools/Tool.ts, ToolCallLedger.ts,
    IdempotencyLedger.ts, ToolScheduler.ts. ShellPolicy, Policy: policy/shellPolicy.ts and
    PolicyEngine.ts. ToolRuntime, ToolGuard: tools/ToolRuntime.ts and what one call promises.
    ToolOutput: tools/ToolOutputStore.ts and toolProgress.ts.
  \<^item> PlanTools, PlanToolProps: planning/planTools.ts and taskTools.ts over those stores, and that
    their facts keep the agent state in step with them. AsyncQueue: core/asyncQueue.ts.
  \<^item> TextEdit, Schema, FileTools, FileToolDefs: the tools that write files
    (workspace/lineEndings.ts, workspace/FileVersion.ts, tools/builtin/EditTool.ts, WriteTool.ts,
    ApplyPatchTool.ts), alone and under the runtime.
  \<^item> EvidenceTools: tools/builtin/EvidenceAssertTools.ts, the tools whose receipts the gate asks
    for, and what a receipt of theirs that is still fresh says about the files.
  \<^item> Model: model/StreamAssembler.ts, model/types.ts, model/retryPolicy.ts. Context,
    ContextProps: context/ContextManager.ts.
  \<^item> Journal, JournalProps, Resume, ResumeProps: session/SessionJournal.ts, SessionLoader.ts,
    recoveryCheck.ts and the replay and resumption of app/createRuntime.ts.
  \<^item> Engine, EngineLogic, EngineRun, EngineProps: core/AgentEngine.ts, a small program logic for
    its steps, its rounds, and what a run guarantees. VerifierRunner:
    verification/VerifierRunner.ts over the same engine.

  \<^bold>\<open>How state and operations correspond.\<close> An object with methods is a record and one function
  for each method, from the old record to the new one; a \<open>throw\<close> is a left value; a JavaScript
  \<open>Map\<close> or plain object is an association list in insertion order. Where object identity
  matters (the plan store) the objects live in an explicit heap. An asynchronous generator is
  a function to the list or trace of what it yields; the engine is written in a state monad
  (\<open>act\<close>) whose exceptions are values. What the operating system, the model, the user, the
  clock and the generators of ids do is a parameter, mostly a function of a \<^emph>\<open>world\<close> that the
  engine and the tools share, so that each theorem holds for all their behaviours; a write
  that may fail has its outcome as a parameter too. Sessions are lists of operations, run by
  \<open>run_steps\<close>; concurrency (calls in flight, the journal's queue) is a step relation.

  \<^bold>\<open>What the lemmas show.\<close> Every reachable state satisfies the reducer's invariant, and
  recovery from a snapshot or a journal gives the state it should; the journal refines a log
  of facts. A tool runs only when permitted, is announced and recorded first, is never
  repeated blindly, and each call is answered once; conflicting calls of a batch do not
  overlap. The stores keep their invariants and their history. Completion passes the gate and
  the verifier, and evidence behind it is signed and fresh. The engine's rounds are their facts,
  stay in budget, are journalled, and end. An edit changes what it says, a patch all or nothing.
  Some theorems state where the program falls short of its own comments.

  \<^bold>\<open>Bounds and fuel.\<close> The engine's loop takes as many rounds as the turn budget leaves
  (\<open>turns_left\<close>), as every round that goes on consumes one: \<open>run\<close> iterates that often, and
  \<open>run_ends_within_turns\<close> shows that it never needs more. Retries of a model call are bounded
  by the configuration. \<open>JSON.parse\<close> has fuel twice the length of its text, because every two
  steps consume a character. \<open>countOccurrences\<close> loops forever on an empty needle in the source and
  is a partial function here. Numbers are exact rationals, rounded to 64-bit floats where the source
  divides or multiplies; counters stay far below \<open>2^53\<close>.

  \<^bold>\<open>Not modelled.\<close> Terminal input and output (cli), network streams (model/providers), the
  evaluation harness (evaluation, eval), the ranking and index of source retrieval (retrieval,
  codeintel: floating-point scores over an index on disk), processes (ShellTool) and file
  listing tools, metrics, the text of prompts, and the wiring of createRuntime.ts: they are
  input and output, or consume the modelled parts without owning a state that those read.
  The redaction of secrets, SHA-256, \<open>realpath\<close>, the checksum of a journal line and the reading
  of a file's version are parameters. \<open>localeCompare\<close> sorts by the host's locale and is left
  out with the two listings that use it.
\<close>

end
